(* ===== verification/Sentinel_Prelude.thy ===== *)
theory Sentinel_Prelude
  imports
    Main
    "HOL-Library.AList"
    "HOL-Library.Multiset"
    "HOL-Library.Char_ord"
    "HOL-Library.List_Lexorder"
    "HOL-Library.Product_Lexorder"
begin

text \<open>
  Shared vocabulary of the development: Python exceptions as values, the error monad the
  modelled functions return in, insertion-ordered dictionaries, Python's rendering of
  integers and joining of strings, and the list facts the component theories share.

  Strings are \<open>char list\<close> and are ordered lexicographically by character, as
  Python orders \<open>str\<close>; tuples are ordered lexicographically by component.
\<close>

section \<open>Errors as values\<close>

named_theorems res_simps \<open>simplification rules of the error monad\<close>

datatype py_error =
    ValueError string
  | KeyError string
  | TypeError string
  | RuntimeError string
  | ZeroDivisionError
  | IntegrityError string
  | OverflowError string
  | OSError string
  | TimeoutExpired
  | CalledProcessError
  | Exhausted

text \<open>
  \<open>Exhausted\<close> is no exception of the program: it is the value of a loop model whose
  fuel ran out. Every theory that uses fuel proves that it is never reached.
\<close>

type_synonym 'a result = "py_error + 'a"

definition rbind :: "'a result \<Rightarrow> ('a \<Rightarrow> 'b result) \<Rightarrow> 'b result" where
  "rbind m f = (case m of Inl e \<Rightarrow> Inl e | Inr a \<Rightarrow> f a)"

lemma rbind_simps [simp, res_simps]:
  "rbind (Inl e) f = Inl e"
  "rbind (Inr a) f = f a"
  by (simp_all add: rbind_def)

lemma rbind_eq_Inr [res_simps]:
  "rbind m f = Inr b \<longleftrightarrow> (\<exists>a. m = Inr a \<and> f a = Inr b)"
  by (cases m) auto

lemma rbind_eq_Inl [res_simps]:
  "rbind m f = Inl e \<longleftrightarrow> m = Inl e \<or> (\<exists>a. m = Inr a \<and> f a = Inl e)"
  by (cases m) auto

lemma rbind_cong [fundef_cong]:
  "m = m' \<Longrightarrow> (\<And>a. m' = Inr a \<Longrightarrow> f a = f' a) \<Longrightarrow> rbind m f = rbind m' f'"
  by (cases m') auto

text \<open>\<open>if not b: raise ValueError(msg)\<close>\<close>

definition ensure :: "bool \<Rightarrow> string \<Rightarrow> unit result" where
  "ensure b msg = (if b then Inr () else Inl (ValueError msg))"

lemma ensure_simps [simp, res_simps]:
  "ensure True msg = Inr ()"
  "ensure False msg = Inl (ValueError msg)"
  "ensure b msg = Inr u \<longleftrightarrow> b"
  "ensure b msg = Inl e \<longleftrightarrow> \<not> b \<and> e = ValueError msg"
  by (auto simp: ensure_def)

text \<open>A loop that builds a tuple and may raise, and one that only checks.\<close>

fun traverse :: "('a \<Rightarrow> 'b result) \<Rightarrow> 'a list \<Rightarrow> 'b list result" where
  "traverse f [] = Inr []"
| "traverse f (x # xs) = rbind (f x) (\<lambda>y. rbind (traverse f xs) (\<lambda>ys. Inr (y # ys)))"

fun each :: "('a \<Rightarrow> unit result) \<Rightarrow> 'a list \<Rightarrow> unit result" where
  "each f [] = Inr ()"
| "each f (x # xs) = rbind (f x) (\<lambda>_. each f xs)"

fun fold_res :: "('s \<Rightarrow> 'a \<Rightarrow> 's result) \<Rightarrow> 's \<Rightarrow> 'a list \<Rightarrow> 's result" where
  "fold_res f s [] = Inr s"
| "fold_res f s (x # xs) = rbind (f s x) (\<lambda>s'. fold_res f s' xs)"

lemma traverse_eq_Inr [res_simps]:
  "traverse f xs = Inr ys \<longleftrightarrow> list_all2 (\<lambda>x y. f x = Inr y) xs ys"
  by (induction xs arbitrary: ys) (auto simp: rbind_eq_Inr list_all2_Cons1)

lemma each_eq_Inr [res_simps]: "each f xs = Inr u \<longleftrightarrow> (\<forall>x\<in>set xs. f x = Inr ())"
  by (induction xs) (auto simp: rbind_eq_Inr)

lemma each_eq_Inl:
  "each f xs = Inl e \<Longrightarrow> \<exists>x\<in>set xs. f x = Inl e"
  by (induction xs) (auto simp: rbind_eq_Inl)

lemma traverse_eq_Inl:
  "traverse f xs = Inl e \<Longrightarrow> \<exists>x\<in>set xs. f x = Inl e"
  by (induction xs) (auto simp: rbind_eq_Inl)

lemma traverse_total:
  "(\<And>x. x \<in> set xs \<Longrightarrow> f x = Inr (g x)) \<Longrightarrow> traverse f xs = Inr (map g xs)"
  by (induction xs) auto

lemma traverse_cong [fundef_cong]:
  "xs = ys \<Longrightarrow> (\<And>x. x \<in> set ys \<Longrightarrow> f x = g x) \<Longrightarrow> traverse f xs = traverse g ys"
  by (induction ys arbitrary: xs) auto

lemma list_all2_map_snd:
  "list_all2 P xs ys \<Longrightarrow> (\<And>x y. P x y \<Longrightarrow> g y = f x) \<Longrightarrow> map g ys = map f xs"
  by (induction rule: list_all2_induct) auto

lemma list_all2_in_set2:
  "list_all2 P xs ys \<Longrightarrow> y \<in> set ys \<Longrightarrow> \<exists>x\<in>set xs. P x y"
  by (induction rule: list_all2_induct) auto

lemma list_all2_in_set1:
  "list_all2 P xs ys \<Longrightarrow> x \<in> set xs \<Longrightarrow> \<exists>y\<in>set ys. P x y"
  by (induction rule: list_all2_induct) auto

section \<open>Insertion-ordered dictionaries\<close>

text \<open>
  A Python \<open>dict\<close> is an association list with distinct keys: assignment replaces the
  value in place or appends a new key (\<open>AList.update\<close>), iteration follows the list.
\<close>

type_synonym 'v dict = "(string \<times> 'v) list"

abbreviation dict_keys :: "('k \<times> 'v) list \<Rightarrow> 'k list" where
  "dict_keys d \<equiv> map fst d"

abbreviation dict_values :: "('k \<times> 'v) list \<Rightarrow> 'v list" where
  "dict_values d \<equiv> map snd d"

abbreviation dict_set :: "'k \<Rightarrow> 'v \<Rightarrow> ('k \<times> 'v) list \<Rightarrow> ('k \<times> 'v) list" where
  "dict_set \<equiv> AList.update"

abbreviation dict_del :: "'k \<Rightarrow> ('k \<times> 'v) list \<Rightarrow> ('k \<times> 'v) list" where
  "dict_del \<equiv> AList.delete"

lemma map_of_dict_set [simp]: "map_of (dict_set k v d) = (map_of d)(k \<mapsto> v)"
  by (simp add: update_conv')

lemma dict_set_new: "k \<notin> fst ` set d \<Longrightarrow> dict_set k v d = d @ [(k, v)]"
  by (induction d) auto

lemma map_of_None_keys: "map_of d k = None \<longleftrightarrow> k \<notin> fst ` set d"
  by (simp add: map_of_eq_None_iff)

lemma map_of_Some_keys: "map_of d k = Some v \<Longrightarrow> k \<in> fst ` set d"
  by (metis map_of_None_keys option.distinct(1))

text \<open>\<open>{key(x): x for x in xs}\<close>: the last item with a key wins, at the key's first place.\<close>

definition dict_of_list :: "('a \<Rightarrow> 'k) \<Rightarrow> 'a list \<Rightarrow> ('k \<times> 'a) list" where
  "dict_of_list key xs = foldl (\<lambda>d x. dict_set (key x) x d) [] xs"

lemma foldl_dict_set_distinct:
  "distinct (map key xs) \<Longrightarrow> fst ` set d \<inter> key ` set xs = {} \<Longrightarrow>
   foldl (\<lambda>d x. dict_set (key x) x d) d xs = d @ map (\<lambda>x. (key x, x)) xs"
  by (induction xs arbitrary: d) (auto simp: dict_set_new image_iff)

lemma dict_of_list_distinct:
  "distinct (map key xs) \<Longrightarrow> dict_of_list key xs = map (\<lambda>x. (key x, x)) xs"
  by (simp add: dict_of_list_def foldl_dict_set_distinct)

lemma map_of_key_pairs:
  "distinct (map key xs) \<Longrightarrow> x \<in> set xs \<Longrightarrow> map_of (map (\<lambda>x. (key x, x)) xs) (key x) = Some x"
  by (induction xs) (auto simp: image_iff)

lemma map_of_key_pairs_Some:
  "map_of (map (\<lambda>x. (key x, x)) xs) k = Some x \<Longrightarrow> x \<in> set xs \<and> key x = k"
  by (induction xs) (auto split: if_splits)

text \<open>\<open>tuple(d[key] for key in sorted(d))\<close>\<close>

definition sorted_values :: "(('k :: linorder) \<times> 'v) list \<Rightarrow> 'v list" where
  "sorted_values d = map (\<lambda>k. the (map_of d k)) (sort (dict_keys d))"

lemma set_sorted_values:
  assumes "distinct (dict_keys d)"
  shows "set (sorted_values d) = set (dict_values d)"
proof -
  have "(\<lambda>k. the (map_of d k)) ` fst ` set d = snd ` set d"
    unfolding image_image using assms by (intro image_cong) auto
  then show ?thesis by (simp add: sorted_values_def)
qed

lemma map_sorted_values:
  assumes "\<And>k v. map_of d k = Some v \<Longrightarrow> f v = k"
  shows "map f (sorted_values d) = sort (dict_keys d)"
proof -
  have "f (the (map_of d k)) = k" if "k \<in> set (sort (dict_keys d))" for k
    using that assms [of k] map_of_None_keys [of d k] by auto
  then show ?thesis
    unfolding sorted_values_def map_map by (intro map_idI) simp
qed

lemma value_with_key:
  assumes "\<forall>(k, v) \<in> set d. f v = k"
  shows "v \<in> snd ` set d \<longleftrightarrow> (f v, v) \<in> set d"
proof
  assume "v \<in> snd ` set d"
  then obtain k where "(k, v) \<in> set d" by auto
  moreover from this assms have "f v = k" by auto
  ultimately show "(f v, v) \<in> set d" by simp
qed force

section \<open>Text\<close>

definition digit_char :: "nat \<Rightarrow> char" where
  "digit_char n = char_of (48 + n)"

fun nat_str :: "nat \<Rightarrow> string" where
  "nat_str n = (if n < 10 then [digit_char n] else nat_str (n div 10) @ [digit_char (n mod 10)])"

declare nat_str.simps [simp del]

definition int_str :: "int \<Rightarrow> string" where
  "int_str i = (if i < 0 then CHR ''-'' # nat_str (nat (- i)) else nat_str (nat i))"

fun join :: "string \<Rightarrow> string list \<Rightarrow> string" where
  "join sep [] = []"
| "join sep [x] = x"
| "join sep (x # y # xs) = x @ sep @ join sep (y # xs)"

definition starts_with :: "string \<Rightarrow> string \<Rightarrow> bool" where
  "starts_with p s = (take (length p) s = p)"

text \<open>\<open>s.replace(c, r)\<close> for a one-character pattern.\<close>

definition replace_char :: "char \<Rightarrow> string \<Rightarrow> string \<Rightarrow> string" where
  "replace_char c r s = concat (map (\<lambda>x. if x = c then r else [x]) s)"

definition newline :: char where
  "newline = CHR 0x0A"

definition is_lower :: "char \<Rightarrow> bool" where
  "is_lower c = (CHR ''a'' \<le> c \<and> c \<le> CHR ''z'')"

definition is_upper :: "char \<Rightarrow> bool" where
  "is_upper c = (CHR ''A'' \<le> c \<and> c \<le> CHR ''Z'')"

text \<open>\<open>str.lower\<close>, on ASCII letters\<close>

definition lower_ascii :: "char \<Rightarrow> char" where
  "lower_ascii c = (if is_upper c then char_of (of_char c + (32 :: nat)) else c)"

definition is_digit :: "char \<Rightarrow> bool" where
  "is_digit c = (CHR ''0'' \<le> c \<and> c \<le> CHR ''9'')"

text \<open>
  The anchored patterns of the sources have the shape \<open>[first][rest]{0,n}\<close>: a first
  character of one class and at most \<open>n\<close> characters of another.
\<close>

definition matches :: "(char \<Rightarrow> bool) \<Rightarrow> (char \<Rightarrow> bool) \<Rightarrow> nat \<Rightarrow> string \<Rightarrow> bool" where
  "matches first rest n s =
     (case s of [] \<Rightarrow> False | c # cs \<Rightarrow> first c \<and> length cs \<le> n \<and> list_all rest cs)"

definition ident_char :: "char \<Rightarrow> bool" where
  "ident_char c = (is_lower c \<or> is_digit c \<or> c = CHR ''-'')"

text \<open>\<open>^[a-z][a-z0-9-]{0,127}$\<close> and \<open>^[a-z][a-z0-9-]{0,63}$\<close>\<close>

definition is_identifier :: "string \<Rightarrow> bool" where
  "is_identifier s = matches is_lower ident_char 127 s"

definition short_identifier :: "string \<Rightarrow> bool" where
  "short_identifier s = matches is_lower ident_char 63 s"

text \<open>\<open>^[0-9a-f]{64}$\<close> and \<open>^[0-9a-f]{40}$\<close>\<close>

definition hex_of_length :: "nat \<Rightarrow> string \<Rightarrow> bool" where
  "hex_of_length n s =
     (length s = n \<and> list_all (\<lambda>c. is_digit c \<or> (CHR ''a'' \<le> c \<and> c \<le> CHR ''f'')) s)"

lemma short_identifier_is_identifier: "short_identifier s \<Longrightarrow> is_identifier s"
  by (auto simp: short_identifier_def is_identifier_def matches_def split: list.splits)

section \<open>SQLite parameters\<close>

text \<open>An integer parameter must fit 64 bits.\<close>

definition int64 :: "int \<Rightarrow> bool" where
  "int64 i = (- (2 ^ 63) \<le> i \<and> i < 2 ^ 63)"

definition int64_option :: "int option \<Rightarrow> bool" where
  "int64_option v = (case v of None \<Rightarrow> True | Some i \<Rightarrow> int64 i)"

definition sq_bind :: "int option list \<Rightarrow> unit result" where
  "sq_bind parameters =
     (if list_all int64_option parameters then Inr ()
      else Inl (OverflowError ''Python int too large to convert to SQLite INTEGER''))"

lemma sq_bind_simps [simp]: "sq_bind vs = Inr u \<longleftrightarrow> list_all int64_option vs"
  by (simp add: sq_bind_def)

section \<open>Descending order\<close>

text \<open>\<open>sorted(xs, key=key, reverse=True)\<close>: equal keys keep their order.\<close>

definition sorted_desc :: "('a \<Rightarrow> 'k :: linorder) \<Rightarrow> 'a list \<Rightarrow> 'a list" where
  "sorted_desc key xs = rev (sort_key key (rev xs))"

abbreviation descending :: "('a \<Rightarrow> 'k :: linorder) \<Rightarrow> 'a list \<Rightarrow> bool" where
  "descending key \<equiv> sorted_wrt (\<lambda>x y. key y < key x)"

lemma set_sorted_desc [simp]: "set (sorted_desc key xs) = set xs"
  by (simp add: sorted_desc_def)

lemma length_sorted_desc [simp]: "length (sorted_desc key xs) = length xs"
  by (simp add: sorted_desc_def)

lemma mset_sorted_desc [simp]: "mset (sorted_desc key xs) = mset xs"
  by (simp add: sorted_desc_def)

lemma descending_sorted_desc:
  assumes "distinct (map key xs)"
  shows "descending key (sorted_desc key xs)"
proof -
  have "sorted (map key (sort_key key (rev xs)))" by simp
  moreover have "distinct (map key (rev xs))" using assms by (simp add: rev_map [symmetric])
  then have "distinct (map key (sort_key key (rev xs)))"
    by (metis distinct_map distinct_sort set_sort)
  ultimately have "sorted_wrt (<) (map key (sort_key key (rev xs)))" by (simp add: strict_sorted_iff)
  then show ?thesis by (simp add: sorted_desc_def sorted_wrt_rev sorted_wrt_map)
qed

lemma descending_distinct: "descending key xs \<Longrightarrow> distinct (map key xs)"
  by (induction xs) auto

text \<open>A descending list is determined by its elements.\<close>

lemma descending_unique:
  assumes "descending key xs" "descending key ys" "set xs = set ys"
  shows "xs = ys"
proof -
  let ?R = "\<lambda>x y. key x < key y"
  have "sorted_wrt ?R (rev xs)" "sorted_wrt ?R (rev ys)" using assms by (simp_all add: sorted_wrt_rev)
  then have k: "sorted (map key (rev xs))" "sorted (map key (rev ys))"
      "distinct (map key (rev xs))" "distinct (map key (rev ys))"
    by (simp_all only: sorted_wrt_map [symmetric] strict_sorted_iff)
  then have "map key (rev xs) = map key (rev ys)"
    using assms(3) by (intro sorted_distinct_set_unique) auto
  moreover have "inj_on key (set (rev xs) \<union> set (rev ys))" using k(3) assms(3) by (simp add: distinct_map)
  ultimately have "rev xs = rev ys" by (rule map_inj_on)
  then show ?thesis by simp
qed

lemma sorted_desc_fixed: "descending key xs \<Longrightarrow> sorted_desc key xs = xs"
  by (intro descending_unique [of key] descending_sorted_desc) (simp_all add: descending_distinct)

lemma sorted_desc_set:
  "distinct (map key xs) \<Longrightarrow> distinct (map key ys) \<Longrightarrow> set xs = set ys \<Longrightarrow> sorted_desc key xs = sorted_desc key ys"
  by (intro descending_unique [of key] descending_sorted_desc) simp_all

lemma descending_take: "descending key xs \<Longrightarrow> descending key (take n xs)"
  by (rule sorted_wrt_take)

section \<open>Lists\<close>

lemma set_sort_remdups [simp]: "set (sort (remdups xs)) = set xs"
  by simp

lemma sort_strict: "distinct xs \<Longrightarrow> sorted_wrt (<) (sort xs :: 'a :: linorder list)"
  by (simp add: strict_sorted_iff)

lemma foldl_invariant:
  "P s \<Longrightarrow> (\<And>s x. x \<in> set xs \<Longrightarrow> P s \<Longrightarrow> P (f s x)) \<Longrightarrow> P (foldl f s xs)"
  by (induction xs arbitrary: s) auto

lemma sum_list_bool_eq_0:
  "sum_list (map (\<lambda>x. if P x then 1 else 0) xs) = (0::nat) \<longleftrightarrow> (\<forall>x\<in>set xs. \<not> P x)"
  by (induction xs) auto

lemma count_by_filter: "sum_list (map (\<lambda>x. if P x then 1 else 0) xs) = length (filter P xs)"
  by (induction xs) simp_all

text \<open>The element with a key, of a list with distinct keys.\<close>

lemma filter_by_key: "distinct (map f xs) \<Longrightarrow> x \<in> set xs \<Longrightarrow> filter (\<lambda>y. f y = f x) xs = [x]"
proof (induction xs)
  case (Cons y ys)
  have "filter (\<lambda>z. f z = f y) ys = []" using Cons.prems(1) by (auto simp: filter_empty_conv) (metis imageI)
  moreover have "f x \<noteq> f y" if "x \<in> set ys" using Cons.prems(1) that by (metis distinct.simps(2) imageI list.set_map list.simps(9))
  ultimately show ?case using Cons by auto
qed simp

end
