(* ===== verification/Py_Datetime.thy ===== *)
theory Py_Datetime
  imports Sentinel_Prelude
begin

text \<open>
  Python's \<open>datetime\<close>, as far as the sources use it: the civil fields, an optional UTC
  offset (absent for naive values), \<open>isoformat\<close> and \<open>fromisoformat\<close>. Two values of
  one time zone are compared field by field, as \<open>datetime.__le__\<close> does.

  The two facts the stores rest on: \<open>fromisoformat\<close> inverts \<open>isoformat\<close>, and on UTC
  values the order of the rendered texts is the order of the values.
\<close>

record datetime =
  dt_year :: nat
  dt_month :: nat
  dt_day :: nat
  dt_hour :: nat
  dt_minute :: nat
  dt_second :: nat
  dt_microsecond :: nat
  dt_offset :: "int option"

text \<open>The offset is counted in seconds; \<open>None\<close> is a naive value.\<close>

definition aware :: "datetime \<Rightarrow> bool" where
  "aware d = (dt_offset d \<noteq> None)"

definition is_utc :: "datetime \<Rightarrow> bool" where
  "is_utc d = (dt_offset d = Some 0)"

definition valid_datetime :: "datetime \<Rightarrow> bool" where
  "valid_datetime d =
     (1 \<le> dt_year d \<and> dt_year d \<le> 9999 \<and> 1 \<le> dt_month d \<and> dt_month d \<le> 12 \<and>
      1 \<le> dt_day d \<and> dt_day d \<le> 31 \<and> dt_hour d < 24 \<and> dt_minute d < 60 \<and>
      dt_second d < 60 \<and> dt_microsecond d < 1000000 \<and>
      (case dt_offset d of None \<Rightarrow> True | Some z \<Rightarrow> \<bar>z\<bar> < 86400))"

definition dt_key :: "datetime \<Rightarrow> nat list" where
  "dt_key d = [dt_year d, dt_month d, dt_day d, dt_hour d, dt_minute d, dt_second d,
     dt_microsecond d]"

lemma dt_key_inj: "dt_key d = dt_key e \<Longrightarrow> dt_offset d = dt_offset e \<Longrightarrow> d = e"
  by (cases d; cases e) (simp add: dt_key_def)

section \<open>Zero-padded decimals\<close>

fun fixed :: "nat \<Rightarrow> nat \<Rightarrow> string" where
  "fixed 0 n = []"
| "fixed (Suc w) n = fixed w (n div 10) @ [digit_char (n mod 10)]"

definition digit_value :: "char \<Rightarrow> nat option" where
  "digit_value c = (if is_digit c then Some (of_char c - 48) else None)"

fun read_digits :: "nat \<Rightarrow> string \<Rightarrow> nat option" where
  "read_digits acc [] = Some acc"
| "read_digits acc (c # cs) =
     (case digit_value c of None \<Rightarrow> None | Some v \<Rightarrow> read_digits (10 * acc + v) cs)"

lemma of_char_digit_char: "n < 10 \<Longrightarrow> of_char (digit_char n) = 48 + (n :: nat)"
  by (simp add: digit_char_def)

lemma digit_char_less: "m < 10 \<Longrightarrow> n < 10 \<Longrightarrow> digit_char m < digit_char n \<longleftrightarrow> m < n"
  by (simp add: less_char_def of_char_digit_char)

lemma digit_char_eq: "m < 10 \<Longrightarrow> n < 10 \<Longrightarrow> digit_char m = digit_char n \<longleftrightarrow> m = n"
  by (metis of_char_digit_char add_left_cancel)

lemma is_digit_digit_char: "n < 10 \<Longrightarrow> is_digit (digit_char n)"
  by (simp add: is_digit_def less_eq_char_def of_char_digit_char)

lemma digit_value_digit_char [simp]: "n < 10 \<Longrightarrow> digit_value (digit_char n) = Some n"
  by (simp add: digit_value_def is_digit_digit_char of_char_digit_char)

lemma length_fixed [simp]: "length (fixed w n) = w"
  by (induction w arbitrary: n) auto

lemma length_fixed_eq: "length (fixed w m) = length (fixed w n)"
  by simp

lemma read_digits_append:
  "read_digits acc (xs @ ys) =
     (case read_digits acc xs of None \<Rightarrow> None | Some v \<Rightarrow> read_digits v ys)"
  by (induction xs arbitrary: acc) (auto split: option.splits)

lemma read_digits_fixed: "n < 10 ^ w \<Longrightarrow> read_digits acc (fixed w n) = Some (acc * 10 ^ w + n)"
proof (induction w arbitrary: n)
  case (Suc w)
  then have "n div 10 < 10 ^ w" by (simp add: less_mult_imp_div_less mult.commute)
  then show ?case by (simp add: Suc.IH read_digits_append algebra_simps)
qed simp

lemma fixed_inj: "m < 10 ^ w \<Longrightarrow> n < 10 ^ w \<Longrightarrow> fixed w m = fixed w n \<Longrightarrow> m = n"
  by (metis read_digits_fixed option.inject add_0 mult_0)

text \<open>Lexicographic order of lists whose first parts are equally long.\<close>

lemma append_less_append:
  fixes a b :: "'a :: linorder list"
  shows "length a = length b \<Longrightarrow> a @ x < b @ y \<longleftrightarrow> a < b \<or> a = b \<and> x < y"
  by (induction a b rule: list_induct2) (auto simp: Cons_less_Cons)

lemma less_by_digits:
  "(m :: nat) < n \<longleftrightarrow> m div 10 < n div 10 \<or> m div 10 = n div 10 \<and> m mod 10 < n mod 10"
proof -
  have "10 * a + i < 10 * b + j \<longleftrightarrow> a < b \<or> a = b \<and> i < j" if "i < 10" "j < 10" for a b i j :: nat
    using that by linarith
  from this [of "m mod 10" "n mod 10" "m div 10" "n div 10"] show ?thesis by simp
qed

lemma fixed_less: "m < 10 ^ w \<Longrightarrow> n < 10 ^ w \<Longrightarrow> fixed w m < fixed w n \<longleftrightarrow> m < n"
proof (induction w arbitrary: m n)
  case (Suc w)
  then have b: "m div 10 < 10 ^ w" "n div 10 < 10 ^ w"
    by (simp_all add: less_mult_imp_div_less mult.commute)
  have eq: "fixed w (m div 10) = fixed w (n div 10) \<longleftrightarrow> m div 10 = n div 10"
    using fixed_inj [OF b] by metis
  have "fixed (Suc w) m < fixed (Suc w) n \<longleftrightarrow>
      m div 10 < n div 10 \<or> m div 10 = n div 10 \<and> m mod 10 < n mod 10"
    unfolding fixed.simps append_less_append [OF length_fixed_eq]
    unfolding Suc.IH [OF b] eq Cons_less_Cons
    using digit_char_less [of "m mod 10" "n mod 10"] by simp
  also have "\<dots> \<longleftrightarrow> m < n" by (rule less_by_digits [symmetric])
  finally show ?case .
qed simp

section \<open>isoformat and fromisoformat\<close>

definition offset_str :: "int option \<Rightarrow> string" where
  "offset_str z =
     (case z of
        None \<Rightarrow> []
      | Some s \<Rightarrow>
          (let a = nat \<bar>s\<bar> in
           (if s < 0 then CHR ''-'' else CHR ''+'') # fixed 2 (a div 3600) @ '':'' @
           fixed 2 (a div 60 mod 60) @ (if a mod 60 = 0 then [] else CHR '':'' # fixed 2 (a mod 60))))"

definition isoformat :: "datetime \<Rightarrow> string" where
  "isoformat d =
     fixed 4 (dt_year d) @ ''-'' @ fixed 2 (dt_month d) @ ''-'' @ fixed 2 (dt_day d) @ ''T'' @
     fixed 2 (dt_hour d) @ '':'' @ fixed 2 (dt_minute d) @ '':'' @ fixed 2 (dt_second d) @
     (if dt_microsecond d = 0 then [] else CHR ''.'' # fixed 6 (dt_microsecond d)) @
     offset_str (dt_offset d)"

text \<open>
  A field reader takes \<open>w\<close> digits; a separator reader one character. \<open>fromisoformat\<close>
  is modelled on the texts \<open>isoformat\<close> writes: the only ones the stores hold.
\<close>

definition take_field :: "nat \<Rightarrow> string \<Rightarrow> (nat \<times> string) option" where
  "take_field w s =
     (if length s < w then None
      else case read_digits 0 (take w s) of None \<Rightarrow> None | Some n \<Rightarrow> Some (n, drop w s))"

definition take_sep :: "char \<Rightarrow> string \<Rightarrow> string option" where
  "take_sep c s = (case s of [] \<Rightarrow> None | x # xs \<Rightarrow> if x = c then Some xs else None)"

definition read_fraction :: "string \<Rightarrow> (nat \<times> string) option" where
  "read_fraction s =
     (case take_sep (CHR ''.'') s of None \<Rightarrow> Some (0, s) | Some r \<Rightarrow> take_field 6 r)"

definition read_offset :: "string \<Rightarrow> int option option" where
  "read_offset s =
     (case s of
        [] \<Rightarrow> Some None
      | sign # r \<Rightarrow>
          if sign \<noteq> CHR ''+'' \<and> sign \<noteq> CHR ''-'' then None
          else Option.bind (take_field 2 r) (\<lambda>(h, r1).
            Option.bind (take_sep (CHR '':'') r1) (\<lambda>r2.
            Option.bind (take_field 2 r2) (\<lambda>(m, r3).
            Option.bind (if r3 = [] then Some (0, []) else
              Option.bind (take_sep (CHR '':'') r3) (take_field 2)) (\<lambda>(sec, r4).
            if r4 \<noteq> [] then None
            else let a = int (h * 3600 + m * 60 + sec)
              in Some (Some (if sign = CHR ''-'' then - a else a)))))))"

definition fromisoformat :: "string \<Rightarrow> datetime option" where
  "fromisoformat s =
     Option.bind (take_field 4 s) (\<lambda>(y, s1). Option.bind (take_sep (CHR ''-'') s1) (\<lambda>s2.
     Option.bind (take_field 2 s2) (\<lambda>(mo, s3). Option.bind (take_sep (CHR ''-'') s3) (\<lambda>s4.
     Option.bind (take_field 2 s4) (\<lambda>(da, s5). Option.bind (take_sep (CHR ''T'') s5) (\<lambda>s6.
     Option.bind (take_field 2 s6) (\<lambda>(h, s7). Option.bind (take_sep (CHR '':'') s7) (\<lambda>s8.
     Option.bind (take_field 2 s8) (\<lambda>(mi, s9). Option.bind (take_sep (CHR '':'') s9) (\<lambda>s10.
     Option.bind (take_field 2 s10) (\<lambda>(se, s11). Option.bind (read_fraction s11) (\<lambda>(us, s12).
     Option.bind (read_offset s12) (\<lambda>z.
       Some \<lparr>dt_year = y, dt_month = mo, dt_day = da, dt_hour = h, dt_minute = mi,
         dt_second = se, dt_microsecond = us, dt_offset = z\<rparr>)))))))))))))"

lemma take_field_fixed [simp]: "n < 10 ^ w \<Longrightarrow> take_field w (fixed w n @ r) = Some (n, r)"
  by (simp add: take_field_def read_digits_fixed)

lemma take_field_fixed_end [simp]: "n < 10 ^ w \<Longrightarrow> take_field w (fixed w n) = Some (n, [])"
  using take_field_fixed [of n w "[]"] by simp

lemma take_sep_Cons [simp]: "take_sep c (c # s) = Some s"
  by (simp add: take_sep_def)

lemma offset_arith:
  fixes a :: nat
  shows "a div 3600 * 3600 + a div 60 mod 60 * 60 + a mod 60 = a"
proof -
  have "a div 3600 = a div 60 div 60" by (simp flip: div_mult2_eq)
  moreover have "b div 60 * 60 * 60 + b mod 60 * 60 = b * 60" for b :: nat
    by (metis div_mult_mod_eq distrib_right)
  moreover have "a div 60 * 60 + a mod 60 = a" by (rule div_mult_mod_eq)
  ultimately show ?thesis by (simp add: mult.assoc)
qed

lemma read_offset_str:
  assumes "case z of None \<Rightarrow> True | Some s \<Rightarrow> \<bar>s\<bar> < 86400"
  shows "read_offset (offset_str z) = Some z"
proof (cases z)
  case None
  then show ?thesis by (simp add: offset_str_def read_offset_def)
next
  case (Some s)
  define a where "a = nat \<bar>s\<bar>"
  have b: "a div 3600 < 10 ^ 2" "a div 60 mod 60 < 10 ^ 2" "a mod 60 < 10 ^ 2"
    using assms Some by (auto simp: a_def less_mult_imp_div_less intro: order.strict_trans [OF mod_less_divisor])
  have "int a = \<bar>s\<bar>" by (simp add: a_def)
  moreover have "int (a div 3600) * 3600 + int (a div 60 mod 60) * 60 + int (a mod 60) = int a"
    by (subst (4) offset_arith [of a, symmetric]) simp
  ultimately show ?thesis
    using b by (auto simp: Some offset_str_def read_offset_def Let_def simp flip: a_def)
qed

lemma take_sep_offset_str: "take_sep (CHR ''.'') (offset_str z) = None"
  by (simp add: offset_str_def take_sep_def Let_def split: option.splits)

lemma read_fraction_str:
  "us < 1000000 \<Longrightarrow>
   read_fraction ((if us = 0 then [] else CHR ''.'' # fixed 6 us) @ offset_str z) =
     Some (us, offset_str z)"
  by (simp add: read_fraction_def take_sep_offset_str)

lemma fromisoformat_isoformat:
  assumes "valid_datetime d"
  shows "fromisoformat (isoformat d) = Some d"
proof -
  have "dt_year d < 10 ^ 4" "dt_month d < 10 ^ 2" "dt_day d < 10 ^ 2" "dt_hour d < 10 ^ 2"
    "dt_minute d < 10 ^ 2" "dt_second d < 10 ^ 2"
    using assms by (auto simp: valid_datetime_def)
  moreover have "read_offset (offset_str (dt_offset d)) = Some (dt_offset d)"
    using assms by (intro read_offset_str) (auto simp: valid_datetime_def split: option.splits)
  moreover have "dt_microsecond d < 1000000" using assms by (simp add: valid_datetime_def)
  ultimately show ?thesis
    unfolding fromisoformat_def isoformat_def by (simp add: read_fraction_str del: append_assoc fixed.simps)
qed

section \<open>Rendered order\<close>

definition fraction_str :: "nat \<Rightarrow> string" where
  "fraction_str us = (if us = 0 then [] else CHR ''.'' # fixed 6 us) @ offset_str (Some 0)"

lemma fraction_str_less:
  assumes "us < 1000000" "vs < 1000000"
  shows "fraction_str us < fraction_str vs \<longleftrightarrow> us < vs"
proof -
  have z: "offset_str (Some 0) = CHR ''+'' # ''00:00''"
    by code_simp
  have "fixed 6 us < fixed 6 vs \<longleftrightarrow> us < vs" "fixed 6 us = fixed 6 vs \<longleftrightarrow> us = vs"
    using assms fixed_less [of us 6 vs] fixed_inj [of us 6 vs] by (auto simp del: fixed.simps)
  then show ?thesis
    by (auto simp: fraction_str_def z Cons_less_Cons append_less_append simp del: fixed.simps)
qed

lemma isoformat_less:
  assumes "valid_datetime d" "valid_datetime e" "is_utc d" "is_utc e"
  shows "isoformat d < isoformat e \<longleftrightarrow> dt_key d < dt_key e"
proof -
  have iso: "isoformat x = fixed 4 (dt_year x) @ CHR ''-'' # fixed 2 (dt_month x) @ CHR ''-'' #
      fixed 2 (dt_day x) @ CHR ''T'' # fixed 2 (dt_hour x) @ CHR '':'' # fixed 2 (dt_minute x) @
      CHR '':'' # fixed 2 (dt_second x) @ fraction_str (dt_microsecond x)" if "is_utc x" for x
    using that by (simp add: isoformat_def fraction_str_def is_utc_def del: fixed.simps)
  have lt: "fixed w m < fixed w n \<longleftrightarrow> m < n" and eq: "fixed w m = fixed w n \<longleftrightarrow> m = n"
    if "m < 10 ^ w" "n < 10 ^ w" for w m n
    using that fixed_less fixed_inj by metis+
  show ?thesis
    using assms unfolding iso [OF assms(3)] iso [OF assms(4)]
    by (simp add: append_less_append Cons_less_Cons lt eq fraction_str_less dt_key_def
        valid_datetime_def del: fixed.simps)
qed

lemma isoformat_inj:
  "valid_datetime d \<Longrightarrow> valid_datetime e \<Longrightarrow> isoformat d = isoformat e \<Longrightarrow> d = e"
  by (metis fromisoformat_isoformat option.inject)

lemma isoformat_le:
  assumes "valid_datetime d" "valid_datetime e" "is_utc d" "is_utc e"
  shows "isoformat d \<le> isoformat e \<longleftrightarrow> dt_key d \<le> dt_key e"
  using isoformat_less [OF assms(2,1,4,3)] by (simp flip: not_less)

end
