(* ===== verification/Network_Models.thy ===== *)
theory Network_Models
  imports Py_Datetime
begin

text \<open>
  The domain objects of \<open>models.py\<close>: roles, impacts, incident states, nodes, links,
  events, analyses, recovery plans and incidents. Field names carry a prefix where the
  sources use one name in several classes. The \<open>_value\<close> functions are the enums' string
  values, which the responses and metrics print.
\<close>

datatype NodeRole = ACCESS | AGGREGATION | CORE | SERVICE

fun role_value :: "NodeRole \<Rightarrow> string" where
  "role_value ACCESS = ''access''"
| "role_value AGGREGATION = ''aggregation''"
| "role_value CORE = ''core''"
| "role_value SERVICE = ''service''"

datatype ServiceImpact = DEGRADED | OUTAGE | REDUNDANCY_REDUCED

fun impact_value :: "ServiceImpact \<Rightarrow> string" where
  "impact_value DEGRADED = ''degraded''"
| "impact_value OUTAGE = ''outage''"
| "impact_value REDUNDANCY_REDUCED = ''redundancy_reduced''"

text \<open>Iteration over the enum follows the order of declaration.\<close>

definition all_impacts :: "ServiceImpact list" where
  "all_impacts = [DEGRADED, OUTAGE, REDUNDANCY_REDUCED]"

datatype IncidentStatus = ANALYZED | AWAITING_APPROVAL | APPROVED | RESOLVED

fun status_value :: "IncidentStatus \<Rightarrow> string" where
  "status_value ANALYZED = ''analyzed''"
| "status_value AWAITING_APPROVAL = ''awaiting_approval''"
| "status_value APPROVED = ''approved''"
| "status_value RESOLVED = ''resolved''"

record Node =
  node_name :: string
  node_role :: NodeRole
  node_prefixes :: "string list"

record Link =
  link_id :: string
  endpoint_a :: string
  endpoint_b :: string
  link_cost :: int

record NetworkEvent =
  event_link_id :: string
  event_type :: string
  event_observed_at :: datetime

record ImpactAnalysis =
  failed_component :: string
  ia_evidence :: "string list"
  ia_affected_nodes :: "string list"
  ia_affected_prefixes :: "string list"
  ia_service_impact :: ServiceImpact

record RecoveryPlan =
  plan_incident_id :: string
  plan_action :: string
  plan_target :: string
  plan_status :: IncidentStatus

record Incident =
  incident_id :: string
  incident_fingerprint :: string
  incident_event :: NetworkEvent
  incident_analysis :: ImpactAnalysis
  recovery_plan :: RecoveryPlan
  incident_created_at :: datetime

text \<open>
  The impact order: an outage is worse than a degradation, which is worse than reduced
  redundancy. The class instance makes the library's order lemmas apply.
\<close>

fun severity :: "ServiceImpact \<Rightarrow> nat" where
  "severity REDUNDANCY_REDUCED = 0"
| "severity DEGRADED = 1"
| "severity OUTAGE = 2"

lemma severity_inj: "severity x = severity y \<Longrightarrow> x = y"
  by (cases x; cases y) auto

instantiation ServiceImpact :: linorder
begin

definition less_eq_ServiceImpact :: "ServiceImpact \<Rightarrow> ServiceImpact \<Rightarrow> bool" where
  "less_eq_ServiceImpact x y = (severity x \<le> severity y)"

definition less_ServiceImpact :: "ServiceImpact \<Rightarrow> ServiceImpact \<Rightarrow> bool" where
  "less_ServiceImpact x y = (severity x < severity y)"

instance
  by standard
    (auto simp: less_eq_ServiceImpact_def less_ServiceImpact_def severity_inj)

end

end
