(* ===== verification/Net_Topology.thy ===== *)
theory Net_Topology
  imports Network_Models
begin

text \<open>
  \<open>topology.py\<close>: the validated graph (\<open>__init__\<close>) and its accessors. What the constructor
  establishes is \<open>wf_topology\<close>, the well-formedness every later theory assumes. The
  searches follow in theories \<open>Reachability\<close> and \<open>Shortest_Path\<close>.
\<close>

section \<open>Construction and accessors\<close>

record Topology =
  nodes_by_name :: "Node dict"
  links_by_id :: "Link dict"

fun add_nodes :: "Node dict \<Rightarrow> Node list \<Rightarrow> Node dict result" where
  "add_nodes d [] = Inr d"
| "add_nodes d (n # ns) =
     (if node_name n \<in> set (dict_keys d)
      then Inl (ValueError (''duplicate node: '' @ node_name n))
      else add_nodes (dict_set (node_name n) n d) ns)"

fun add_links :: "Node dict \<Rightarrow> Link dict \<Rightarrow> Link list \<Rightarrow> Link dict result" where
  "add_links nodes d [] = Inr d"
| "add_links nodes d (l # ls) =
     (if link_id l \<in> set (dict_keys d)
      then Inl (ValueError (''duplicate link: '' @ link_id l))
      else if link_cost l \<le> 0
      then Inl (ValueError (''link cost must be positive: '' @ link_id l))
      else if endpoint_a l = endpoint_b l
      then Inl (ValueError (''self link is not allowed: '' @ link_id l))
      else
        (let unknown = remdups (filter (\<lambda>e. e \<notin> set (dict_keys nodes)) [endpoint_a l, endpoint_b l])
         in if unknown \<noteq> []
            then Inl (ValueError (''unknown endpoint in '' @ link_id l @ '': '' @ join '', '' (sort unknown)))
            else add_links nodes (dict_set (link_id l) l d) ls))"

definition mk_topology :: "Node list \<Rightarrow> Link list \<Rightarrow> Topology result" where
  "mk_topology ns ls =
     rbind (add_nodes [] ns) (\<lambda>nodes.
     rbind (add_links nodes [] ls) (\<lambda>links.
       Inr \<lparr>nodes_by_name = nodes, links_by_id = links\<rparr>))"

definition topo_nodes :: "Topology \<Rightarrow> Node list" where
  "topo_nodes t = sorted_values (nodes_by_name t)"

definition topo_links :: "Topology \<Rightarrow> Link list" where
  "topo_links t = sorted_values (links_by_id t)"

definition topo_node :: "Topology \<Rightarrow> string \<Rightarrow> Node result" where
  "topo_node t name =
     (case map_of (nodes_by_name t) name of
        None \<Rightarrow> Inl (ValueError (''unknown node: '' @ name))
      | Some n \<Rightarrow> Inr n)"

definition topo_link :: "Topology \<Rightarrow> string \<Rightarrow> Link result" where
  "topo_link t lid =
     (case map_of (links_by_id t) lid of
        None \<Rightarrow> Inl (ValueError (''unknown link: '' @ lid))
      | Some l \<Rightarrow> Inr l)"

abbreviation topo_names :: "Topology \<Rightarrow> string set" where
  "topo_names t \<equiv> set (dict_keys (nodes_by_name t))"

abbreviation topo_ids :: "Topology \<Rightarrow> string set" where
  "topo_ids t \<equiv> set (dict_keys (links_by_id t))"

text \<open>What the constructor establishes.\<close>

definition wf_link :: "Topology \<Rightarrow> Link \<Rightarrow> bool" where
  "wf_link t l =
     (0 < link_cost l \<and> endpoint_a l \<noteq> endpoint_b l \<and>
      endpoint_a l \<in> topo_names t \<and> endpoint_b l \<in> topo_names t)"

definition wf_topology :: "Topology \<Rightarrow> bool" where
  "wf_topology t =
     (distinct (dict_keys (nodes_by_name t)) \<and> distinct (dict_keys (links_by_id t)) \<and>
      (\<forall>(k, n) \<in> set (nodes_by_name t). node_name n = k) \<and>
      (\<forall>(k, l) \<in> set (links_by_id t). link_id l = k \<and> wf_link t l))"

lemma add_nodes_eq:
  "add_nodes d ns = Inr d' \<longleftrightarrow>
   distinct (map node_name ns) \<and> set (map node_name ns) \<inter> set (dict_keys d) = {} \<and>
   d' = d @ map (\<lambda>n. (node_name n, n)) ns"
  by (induction ns arbitrary: d) (auto simp: dict_set_new image_iff)

definition link_ok :: "Node dict \<Rightarrow> Link \<Rightarrow> bool" where
  "link_ok nodes l =
     (0 < link_cost l \<and> endpoint_a l \<noteq> endpoint_b l \<and>
      endpoint_a l \<in> set (dict_keys nodes) \<and> endpoint_b l \<in> set (dict_keys nodes))"

lemma add_links_eq:
  "add_links nodes d ls = Inr d' \<longleftrightarrow>
   distinct (map link_id ls) \<and> set (map link_id ls) \<inter> set (dict_keys d) = {} \<and>
   (\<forall>l \<in> set ls. link_ok nodes l) \<and> d' = d @ map (\<lambda>l. (link_id l, l)) ls"
proof (induction ls arbitrary: d)
  case (Cons l ls)
  have "(remdups (filter (\<lambda>e. e \<notin> set (dict_keys nodes)) [endpoint_a l, endpoint_b l]) = []) \<longleftrightarrow>
      endpoint_a l \<in> set (dict_keys nodes) \<and> endpoint_b l \<in> set (dict_keys nodes)"
    by (simp add: filter_empty_conv)
  then show ?case
    using Cons.IH [of "d @ [(link_id l, l)]"]
    by (auto simp: dict_set_new link_ok_def Let_def image_iff simp del: filter.simps)
qed auto

lemma mk_topology_eq:
  "mk_topology ns ls = Inr t \<longleftrightarrow>
   distinct (map node_name ns) \<and> distinct (map link_id ls) \<and>
   (\<forall>l \<in> set ls. 0 < link_cost l \<and> endpoint_a l \<noteq> endpoint_b l \<and>
      endpoint_a l \<in> node_name ` set ns \<and> endpoint_b l \<in> node_name ` set ns) \<and>
   t = \<lparr>nodes_by_name = map (\<lambda>n. (node_name n, n)) ns,
        links_by_id = map (\<lambda>l. (link_id l, l)) ls\<rparr>"
  by (auto simp: mk_topology_def rbind_eq_Inr add_nodes_eq add_links_eq link_ok_def image_image)

lemma mk_topology_wf: "mk_topology ns ls = Inr t \<Longrightarrow> wf_topology t"
  by (auto simp: mk_topology_eq wf_topology_def wf_link_def comp_def image_image)

section \<open>Facts on well-formed topologies\<close>

lemma wf_distinct_nodes: "wf_topology t \<Longrightarrow> distinct (dict_keys (nodes_by_name t))"
  by (simp add: wf_topology_def)

lemma wf_distinct_links: "wf_topology t \<Longrightarrow> distinct (dict_keys (links_by_id t))"
  by (simp add: wf_topology_def)

lemma wf_node_keys: "wf_topology t \<Longrightarrow> \<forall>(k, n) \<in> set (nodes_by_name t). node_name n = k"
  by (simp add: wf_topology_def)

lemma wf_link_keys: "wf_topology t \<Longrightarrow> \<forall>(k, l) \<in> set (links_by_id t). link_id l = k"
  unfolding wf_topology_def by blast

lemma wf_node_name: "wf_topology t \<Longrightarrow> map_of (nodes_by_name t) k = Some n \<Longrightarrow> node_name n = k"
  using map_of_SomeD by (fastforce simp: wf_topology_def)

lemma wf_link_id: "wf_topology t \<Longrightarrow> map_of (links_by_id t) k = Some l \<Longrightarrow> link_id l = k"
  using map_of_SomeD by (fastforce simp: wf_topology_def)

lemma topo_node_Inr: "topo_node t k = Inr n \<longleftrightarrow> map_of (nodes_by_name t) k = Some n"
  by (simp add: topo_node_def split: option.splits)

lemma topo_link_Inr: "topo_link t k = Inr l \<longleftrightarrow> map_of (links_by_id t) k = Some l"
  by (simp add: topo_link_def split: option.splits)

lemma topo_node_known: "k \<in> topo_names t \<longleftrightarrow> (\<exists>n. topo_node t k = Inr n)"
  by (metis map_of_None_keys not_None_eq topo_node_Inr list.set_map)

lemma topo_link_known: "k \<in> topo_ids t \<longleftrightarrow> (\<exists>l. topo_link t k = Inr l)"
  by (metis map_of_None_keys not_None_eq topo_link_Inr list.set_map)

lemma topo_nodes_names:
  "wf_topology t \<Longrightarrow> map node_name (topo_nodes t) = sort (dict_keys (nodes_by_name t))"
  by (simp add: topo_nodes_def map_sorted_values wf_node_name)

lemma topo_links_ids:
  "wf_topology t \<Longrightarrow> map link_id (topo_links t) = sort (dict_keys (links_by_id t))"
  by (simp add: topo_links_def map_sorted_values wf_link_id)

lemma set_topo_nodes: "wf_topology t \<Longrightarrow> set (topo_nodes t) = set (dict_values (nodes_by_name t))"
  by (simp add: topo_nodes_def wf_topology_def set_sorted_values)

lemma set_topo_links: "wf_topology t \<Longrightarrow> set (topo_links t) = set (dict_values (links_by_id t))"
  by (simp add: topo_links_def wf_topology_def set_sorted_values)

lemma distinct_topo_nodes: "wf_topology t \<Longrightarrow> distinct (map node_name (topo_nodes t))"
  by (simp add: topo_nodes_names wf_topology_def)

lemma distinct_topo_links: "wf_topology t \<Longrightarrow> distinct (map link_id (topo_links t))"
  by (simp add: topo_links_ids wf_topology_def)

lemma in_topo_nodes:
  assumes wf: "wf_topology t"
  shows "n \<in> set (topo_nodes t) \<longleftrightarrow> topo_node t (node_name n) = Inr n"
  by (simp add: set_topo_nodes [OF wf] value_with_key [OF wf_node_keys [OF wf]]
      topo_node_Inr wf_distinct_nodes [OF wf])

lemma in_topo_links:
  assumes wf: "wf_topology t"
  shows "l \<in> set (topo_links t) \<longleftrightarrow> topo_link t (link_id l) = Inr l"
  by (simp add: set_topo_links [OF wf] value_with_key [OF wf_link_keys [OF wf]]
      topo_link_Inr wf_distinct_links [OF wf])

lemma wf_link_values:
  assumes wf: "wf_topology t" and l: "l \<in> set (dict_values (links_by_id t))"
  shows "wf_link t l \<and> link_id l \<in> topo_ids t"
proof -
  have m: "(link_id l, l) \<in> set (links_by_id t)"
    using l value_with_key [OF wf_link_keys [OF wf]] by simp
  then have "wf_link t l" using wf unfolding wf_topology_def by blast
  with m show ?thesis by force
qed

text \<open>
  The constructor accepts exactly the inputs with distinct node names, distinct link
  ids, positive costs and links between two different known nodes; the topology it builds
  lists the given nodes and links, each found again by its key.
\<close>

theorem topology_accepts:
  "mk_topology ns ls = Inr t \<longleftrightarrow>
   distinct (map node_name ns) \<and> distinct (map link_id ls) \<and>
   (\<forall>l \<in> set ls. 0 < link_cost l \<and> endpoint_a l \<noteq> endpoint_b l \<and>
      {endpoint_a l, endpoint_b l} \<subseteq> node_name ` set ns) \<and>
   dict_values (nodes_by_name t) = ns \<and> dict_values (links_by_id t) = ls \<and>
   dict_keys (nodes_by_name t) = map node_name ns \<and> dict_keys (links_by_id t) = map link_id ls"
proof -
  have zip_key: "zip (map key xs) xs = map (\<lambda>x. (key x, x)) xs"
    for key :: "'a \<Rightarrow> string" and xs
    by (induction xs) simp_all
  have pairs: "d = map (\<lambda>x. (key x, x)) xs \<longleftrightarrow> dict_values d = xs \<and> dict_keys d = map key xs"
    for d and key :: "'a \<Rightarrow> string" and xs
  proof
    assume "dict_values d = xs \<and> dict_keys d = map key xs"
    then show "d = map (\<lambda>x. (key x, x)) xs"
      using zip_map_fst_snd [of d] zip_key [of key xs] by simp
  qed (simp add: comp_def)
  have t: "t = \<lparr>nodes_by_name = map (\<lambda>n. (node_name n, n)) ns,
        links_by_id = map (\<lambda>l. (link_id l, l)) ls\<rparr> \<longleftrightarrow>
      nodes_by_name t = map (\<lambda>n. (node_name n, n)) ns \<and>
      links_by_id t = map (\<lambda>l. (link_id l, l)) ls"
    by (cases t) simp
  show ?thesis unfolding mk_topology_eq t pairs by auto
qed

theorem topology_accepts_witness:
  "\<exists>t. mk_topology
      [\<lparr>node_name = ''a'', node_role = ACCESS, node_prefixes = []\<rparr>,
       \<lparr>node_name = ''b'', node_role = SERVICE, node_prefixes = []\<rparr>]
      [\<lparr>link_id = ''a--b'', endpoint_a = ''a'', endpoint_b = ''b'', link_cost = 10\<rparr>] = Inr t \<and>
    dict_keys (links_by_id t) = [''a--b'']"
proof -
  define ns where "ns = [\<lparr>node_name = ''a'', node_role = ACCESS, node_prefixes = []\<rparr>,
    \<lparr>node_name = ''b'', node_role = SERVICE, node_prefixes = []\<rparr>]"
  define ls where "ls = [\<lparr>link_id = ''a--b'', endpoint_a = ''a'', endpoint_b = ''b'', link_cost = 10\<rparr>]"
  have "mk_topology ns ls = Inr \<lparr>nodes_by_name = map (\<lambda>n. (node_name n, n)) ns,
      links_by_id = map (\<lambda>l. (link_id l, l)) ls\<rparr>"
    unfolding ns_def ls_def by code_simp
  with iffD1 [OF topology_accepts this] show ?thesis unfolding ns_def ls_def by force
qed

end
