(* ===== verification/Lab_Design.thy ===== *)
theory Lab_Design
  imports Net_Topology
begin

text \<open>
  The repository's two lab designs (\<open>lab/intent.yml\<close> and \<open>lab/intent-dual-homed.yml\<close>) as
  node and link lists. They are inputs of the program, used as the concrete cases at which
  the theorems are applied.
\<close>

definition lab_nodes :: "Node list" where
  "lab_nodes =
     [\<lparr>node_name = ''access1'', node_role = ACCESS, node_prefixes = [''10.10.1.0/24'']\<rparr>,
      \<lparr>node_name = ''access2'', node_role = ACCESS, node_prefixes = [''10.10.2.0/24'']\<rparr>,
      \<lparr>node_name = ''agg1'', node_role = AGGREGATION, node_prefixes = []\<rparr>,
      \<lparr>node_name = ''agg2'', node_role = AGGREGATION, node_prefixes = []\<rparr>,
      \<lparr>node_name = ''core1'', node_role = CORE, node_prefixes = []\<rparr>,
      \<lparr>node_name = ''core2'', node_role = CORE, node_prefixes = []\<rparr>,
      \<lparr>node_name = ''service-host'', node_role = SERVICE, node_prefixes = [''10.20.0.0/24'']\<rparr>]"

definition lab_links :: "Link list" where
  "lab_links =
     [\<lparr>link_id = ''access1--agg1'', endpoint_a = ''access1'', endpoint_b = ''agg1'', link_cost = 10\<rparr>,
      \<lparr>link_id = ''access1--agg2'', endpoint_a = ''access1'', endpoint_b = ''agg2'', link_cost = 100\<rparr>,
      \<lparr>link_id = ''access2--agg1'', endpoint_a = ''access2'', endpoint_b = ''agg1'', link_cost = 100\<rparr>,
      \<lparr>link_id = ''access2--agg2'', endpoint_a = ''access2'', endpoint_b = ''agg2'', link_cost = 10\<rparr>,
      \<lparr>link_id = ''agg1--core1'', endpoint_a = ''agg1'', endpoint_b = ''core1'', link_cost = 10\<rparr>,
      \<lparr>link_id = ''agg1--core2'', endpoint_a = ''agg1'', endpoint_b = ''core2'', link_cost = 100\<rparr>,
      \<lparr>link_id = ''agg2--core1'', endpoint_a = ''agg2'', endpoint_b = ''core1'', link_cost = 100\<rparr>,
      \<lparr>link_id = ''agg2--core2'', endpoint_a = ''agg2'', endpoint_b = ''core2'', link_cost = 10\<rparr>,
      \<lparr>link_id = ''core1--core2'', endpoint_a = ''core1'', endpoint_b = ''core2'', link_cost = 20\<rparr>,
      \<lparr>link_id = ''core1--service-host'', endpoint_a = ''core1'', endpoint_b = ''service-host'',
        link_cost = 10\<rparr>]"

definition dual_links :: "Link list" where
  "dual_links = lab_links @
     [\<lparr>link_id = ''core2--service-host'', endpoint_a = ''core2'', endpoint_b = ''service-host'',
        link_cost = 30\<rparr>]"

definition lab_topology :: Topology where
  "lab_topology =
     \<lparr>nodes_by_name = map (\<lambda>n. (node_name n, n)) lab_nodes,
      links_by_id = map (\<lambda>l. (link_id l, l)) lab_links\<rparr>"

definition dual_topology :: Topology where
  "dual_topology =
     \<lparr>nodes_by_name = map (\<lambda>n. (node_name n, n)) lab_nodes,
      links_by_id = map (\<lambda>l. (link_id l, l)) dual_links\<rparr>"

lemma mk_lab_topology: "mk_topology lab_nodes lab_links = Inr lab_topology"
  by code_simp

lemma mk_dual_topology: "mk_topology lab_nodes dual_links = Inr dual_topology"
  by code_simp

lemma wf_lab_topology: "wf_topology lab_topology"
  using mk_lab_topology by (rule mk_topology_wf)

lemma wf_dual_topology: "wf_topology dual_topology"
  using mk_dual_topology by (rule mk_topology_wf)

end
