(* ===== verification/Reachability.thy ===== *)
theory Reachability
  imports Lab_Design
begin

text \<open>
  The searches of \<open>topology.py\<close> are specified by walks: sequences of links that are not
  excluded, through nodes that are not excluded. \<open>neighbors\<close> lists the nodes one link
  away, in order and once each; the breadth-first search \<open>has_path\<close> terminates and decides
  whether a target can be walked to.
\<close>

section \<open>Walks\<close>

text \<open>The node a link leads to from \<open>n\<close>: the \<open>if/elif/else\<close> of the two loops.\<close>

definition other_end :: "Link \<Rightarrow> string \<Rightarrow> string option" where
  "other_end l n =
     (if endpoint_a l = n then Some (endpoint_b l)
      else if endpoint_b l = n then Some (endpoint_a l)
      else None)"

definition hop :: "Topology \<Rightarrow> string list \<Rightarrow> string list \<Rightarrow> string \<Rightarrow> string \<Rightarrow> int \<Rightarrow> bool" where
  "hop t el en u v c =
     (\<exists>l \<in> set (dict_values (links_by_id t)).
        link_id l \<notin> set el \<and> other_end l u = Some v \<and> v \<notin> set en \<and> link_cost l = c)"

inductive walk :: "Topology \<Rightarrow> string list \<Rightarrow> string list \<Rightarrow> string \<Rightarrow> string \<Rightarrow> int \<Rightarrow> bool"
  for t :: Topology and el :: "string list" and en :: "string list" and s :: string where
  walk_start: "walk t el en s s 0"
| walk_hop: "walk t el en s u w \<Longrightarrow> hop t el en u v c \<Longrightarrow> walk t el en s v (w + c)"

inductive_cases walk_cases: "walk t el en s v w"

definition reachable :: "Topology \<Rightarrow> string list \<Rightarrow> string list \<Rightarrow> string \<Rightarrow> string \<Rightarrow> bool" where
  "reachable t el en s v = (\<exists>w. walk t el en s v w)"

lemma other_end_endpoints:
  "other_end l u = Some v \<Longrightarrow> {u, v} = {endpoint_a l, endpoint_b l}"
  by (auto simp: other_end_def split: if_splits)

lemma hop_known: "wf_topology t \<Longrightarrow> hop t el en u v c \<Longrightarrow> v \<in> topo_names t \<and> 0 < c"
proof -
  assume wf: "wf_topology t" and "hop t el en u v c"
  then obtain l where l: "l \<in> set (dict_values (links_by_id t))" "other_end l u = Some v"
    "link_cost l = c" unfolding hop_def by blast
  with wf_link_values [OF wf l(1)] show ?thesis
    by (auto simp: wf_link_def other_end_def split: if_splits)
qed

lemma reachable_hop:
  "reachable t el en s u \<Longrightarrow> hop t el en u v c \<Longrightarrow> reachable t el en s v"
  unfolding reachable_def by (blast intro: walk_hop)

lemma hop_mono:
  "hop t el' en' u v c \<Longrightarrow> set el \<subseteq> set el' \<Longrightarrow> set en \<subseteq> set en' \<Longrightarrow> hop t el en u v c"
  unfolding hop_def by blast

lemma walk_mono:
  "walk t el' en' s v w \<Longrightarrow> set el \<subseteq> set el' \<Longrightarrow> set en \<subseteq> set en' \<Longrightarrow> walk t el en s v w"
  by (induction rule: walk.induct) (auto intro: walk.intros hop_mono)

lemma walk_nonneg: "wf_topology t \<Longrightarrow> walk t el en s v w \<Longrightarrow> 0 \<le> w"
  by (rotate_tac, induction rule: walk.induct) (auto dest: hop_known)

lemma walk_known: "wf_topology t \<Longrightarrow> walk t el en s v w \<Longrightarrow> s \<in> topo_names t \<Longrightarrow> v \<in> topo_names t"
  by (rotate_tac, induction rule: walk.induct) (auto dest: hop_known)

lemma walk_avoids: "walk t el en s v w \<Longrightarrow> s \<notin> set en \<Longrightarrow> v \<notin> set en"
  by (induction rule: walk.induct) (auto simp: hop_def)

lemma walk_subset:
  assumes "walk t el en s v w" "s \<in> S" "\<And>u v c. u \<in> S \<Longrightarrow> hop t el en u v c \<Longrightarrow> v \<in> S"
  shows "v \<in> S"
  using assms by (induction rule: walk.induct) auto

text \<open>A walk that leaves a set crosses its border once for the first time.\<close>

lemma walk_leaves:
  assumes "walk t el en s v w" "s \<in> S" "v \<notin> S" "wf_topology t"
  shows "\<exists>x y w' c. x \<in> S \<and> y \<notin> S \<and> walk t el en s x w' \<and> hop t el en x y c \<and> w' + c \<le> w"
  using assms
proof (induction rule: walk.induct)
  case (walk_hop u w v c)
  show ?case
  proof (cases "u \<in> S")
    case True
    with walk_hop show ?thesis by blast
  next
    case False
    with walk_hop obtain x y w' c' where
      "x \<in> S" "y \<notin> S" "walk t el en s x w'" "hop t el en x y c'" "w' + c' \<le> w" by blast
    moreover have "0 < c" using walk_hop hop_known by blast
    ultimately show ?thesis by (meson add_increasing2 less_imp_le order_trans)
  qed
qed simp

section \<open>neighbors\<close>

definition neighbors :: "Topology \<Rightarrow> string \<Rightarrow> string option \<Rightarrow> string list result" where
  "neighbors t name excluded_link =
     rbind (topo_node t name) (\<lambda>_.
     rbind (case excluded_link of
              None \<Rightarrow> Inr ()
            | Some x \<Rightarrow> rbind (topo_link t x) (\<lambda>_. Inr ())) (\<lambda>_.
       Inr (sort (remdups (List.map_filter
         (\<lambda>l. if Some (link_id l) = excluded_link then None else other_end l name)
         (dict_values (links_by_id t)))))))"

definition excluding :: "string option \<Rightarrow> string list" where
  "excluding x = (case x of None \<Rightarrow> [] | Some l \<Rightarrow> [l])"

lemma excluding_simps [simp]: "excluding None = []" "excluding (Some l) = [l]"
  by (simp_all add: excluding_def)

lemma set_map_filter: "set (List.map_filter f xs) = {y. \<exists>x \<in> set xs. f x = Some y}"
  by (auto simp: List.map_filter_def image_iff) force

lemma neighbors_Inr:
  "neighbors t u ex = Inr ns \<Longrightarrow> set ns = {v. \<exists>c. hop t (excluding ex) [] u v c}"
proof -
  have *: "(if Some (link_id l) = ex then None else other_end l u) = Some v \<longleftrightarrow>
      link_id l \<notin> set (excluding ex) \<and> other_end l u = Some v" for l v
    by (cases ex) auto
  assume "neighbors t u ex = Inr ns"
  then show ?thesis
    by (auto simp: neighbors_def rbind_eq_Inr set_map_filter hop_def * simp del: set_map) blast
qed

lemma neighbors_sorted: "neighbors t u ex = Inr ns \<Longrightarrow> sorted ns \<and> distinct ns"
  by (auto simp: neighbors_def rbind_eq_Inr)

lemma neighbors_total:
  "u \<in> topo_names t \<Longrightarrow> set (excluding ex) \<subseteq> topo_ids t \<Longrightarrow> \<exists>ns. neighbors t u ex = Inr ns"
  unfolding topo_node_known
  by (cases ex) (auto simp: neighbors_def topo_link_known simp del: set_map)

section \<open>has_path\<close>

text \<open>
  The inner loop over the neighbours: \<open>None\<close> when a target is met (the search returns
  true at once), otherwise the extended visited set and queue.
\<close>

fun visit_neighbors ::
  "string set \<Rightarrow> string set \<Rightarrow> string list \<Rightarrow> string list \<Rightarrow> (string set \<times> string list) option" where
  "visit_neighbors targets visited pending [] = Some (visited, pending)"
| "visit_neighbors targets visited pending (n # ns) =
     (if n \<in> visited then visit_neighbors targets visited pending ns
      else if n \<in> targets then None
      else visit_neighbors targets (insert n visited) (pending @ [n]) ns)"

lemma visit_neighbors_None:
  "visit_neighbors targets visited pending ns = None \<longleftrightarrow> (\<exists>n \<in> set ns. n \<notin> visited \<and> n \<in> targets)"
  by (induction targets visited pending ns rule: visit_neighbors.induct) (auto, metis)

lemma visit_neighbors_Some:
  "visit_neighbors targets visited pending ns = Some (visited', pending') \<Longrightarrow>
   \<exists>new. pending' = pending @ new \<and> distinct new \<and> set new = set ns - visited \<and>
     visited' = visited \<union> set ns"
proof (induction targets visited pending ns rule: visit_neighbors.induct)
  case (2 targets visited pending n ns)
  show ?case
  proof (cases "n \<in> visited")
    case True
    with 2 show ?thesis by auto
  next
    case False
    with 2 obtain new where "pending' = (pending @ [n]) @ new" "distinct new"
      "set new = set ns - insert n visited" "visited' = insert n visited \<union> set ns"
      by (auto split: if_splits)
    with False show ?thesis by (intro exI [of _ "n # new"]) auto
  qed
qed auto

definition endpoints :: "Topology \<Rightarrow> string set" where
  "endpoints t = (\<Union>l \<in> set (dict_values (links_by_id t)). {endpoint_a l, endpoint_b l})"

lemma finite_endpoints [simp]: "finite (endpoints t)"
  by (simp add: endpoints_def)

lemma neighbors_endpoints: "neighbors t u ex = Inr ns \<Longrightarrow> set ns \<subseteq> endpoints t"
  by (auto simp: neighbors_Inr hop_def endpoints_def other_end_def split: if_splits)

lemma visit_neighbors_measure:
  assumes "visit_neighbors targets visited pending ns = Some (visited', pending')"
    and "set ns \<subseteq> U" "finite U"
  shows "2 * card (U - visited') + length pending' \<le> 2 * card (U - visited) + length pending"
proof -
  from visit_neighbors_Some [OF assms(1)] obtain new where new: "pending' = pending @ new"
    "distinct new" "set new = set ns - visited" "visited' = visited \<union> set ns" by blast
  have "U - visited = (U - visited') \<union> set new" "(U - visited') \<inter> set new = {}"
    using new assms(2) by auto
  then have "card (U - visited) = card (U - visited') + length new"
    using assms(3) new(2) by (simp add: card_Un_disjoint distinct_card)
  then show ?thesis using new(1) by simp
qed

function bfs :: "Topology \<Rightarrow> string option \<Rightarrow> string set \<Rightarrow> string set \<Rightarrow> string list \<Rightarrow> bool result" where
  "bfs t ex targets visited [] = Inr False"
| "bfs t ex targets visited (current # pending) =
     (case neighbors t current ex of
        Inl e \<Rightarrow> Inl e
      | Inr ns \<Rightarrow>
          (case visit_neighbors targets visited pending ns of
             None \<Rightarrow> Inr True
           | Some (visited', pending') \<Rightarrow> bfs t ex targets visited' pending'))"
  by pat_completeness auto
termination
proof (relation "measure (\<lambda>(t, ex, targets, visited, pending).
    2 * card (endpoints t - visited) + length pending)", goal_cases)
  case (2 t ex targets visited current pending ns p visited' pending')
  then show ?case
    using visit_neighbors_measure [of targets visited pending ns visited' pending' "endpoints t"]
      neighbors_endpoints [of t current ex ns]
    by (cases p) simp
qed simp

definition has_path :: "Topology \<Rightarrow> string \<Rightarrow> string set \<Rightarrow> string option \<Rightarrow> bool result" where
  "has_path t source targets excluded_link =
     rbind (topo_node t source) (\<lambda>_.
       let known_targets = targets \<inter> topo_names t
       in if known_targets = {} then Inr False
          else if source \<in> known_targets then Inr True
          else bfs t excluded_link known_targets {source} [source])"

text \<open>
  The loop invariant: everything visited was walked to and is no target, the queue holds
  visited nodes, and every visited node outside the queue has all its neighbours visited.
\<close>

definition bfs_inv :: "Topology \<Rightarrow> string option \<Rightarrow> string set \<Rightarrow> string \<Rightarrow> string set \<Rightarrow> string list \<Rightarrow> bool" where
  "bfs_inv t ex targets s visited pending =
     (s \<in> visited \<and> visited \<subseteq> topo_names t \<and> set pending \<subseteq> visited \<and> visited \<inter> targets = {} \<and>
      (\<forall>v \<in> visited. reachable t (excluding ex) [] s v) \<and>
      (\<forall>u \<in> visited - set pending. \<forall>v c. hop t (excluding ex) [] u v c \<longrightarrow> v \<in> visited))"

lemma bfs_inv_done:
  assumes "bfs_inv t ex targets s visited []"
  shows "\<not> (\<exists>v \<in> targets. reachable t (excluding ex) [] s v)"
proof
  assume "\<exists>v \<in> targets. reachable t (excluding ex) [] s v"
  then obtain v w where "v \<in> targets" "walk t (excluding ex) [] s v w"
    unfolding reachable_def by blast
  moreover have "s \<in> visited"
    and closed: "\<And>u v c. u \<in> visited \<Longrightarrow> hop t (excluding ex) [] u v c \<Longrightarrow> v \<in> visited"
    using assms unfolding bfs_inv_def by (simp, metis Diff_empty empty_set)
  ultimately have "v \<in> visited" using walk_subset by blast
  with \<open>v \<in> targets\<close> assms show False unfolding bfs_inv_def by blast
qed

lemma bfs_inv_step:
  assumes inv: "bfs_inv t ex targets s visited (current # pending)" and wf: "wf_topology t"
    and ns: "neighbors t current ex = Inr ns"
    and vis: "visit_neighbors targets visited pending ns = Some (visited', pending')"
  shows "bfs_inv t ex targets s visited' pending'"
proof -
  from visit_neighbors_Some [OF vis] obtain new where new: "pending' = pending @ new"
    "set new = set ns - visited" "visited' = visited \<union> set ns" by blast
  have mem: "v \<in> set ns \<longleftrightarrow> (\<exists>c. hop t (excluding ex) [] current v c)" for v
    using neighbors_Inr [OF ns] by simp
  have cur: "current \<in> visited" "reachable t (excluding ex) [] s current"
    using inv unfolding bfs_inv_def by auto
  have "set ns \<inter> targets \<subseteq> visited"
    using vis visit_neighbors_None [of targets visited pending ns] by auto
  then have "visited' \<inter> targets = {}" using inv new(3) unfolding bfs_inv_def by blast
  moreover have "visited' \<subseteq> topo_names t"
    using inv new(3) mem hop_known [OF wf] unfolding bfs_inv_def by blast
  moreover have "\<forall>v \<in> visited'. reachable t (excluding ex) [] s v"
    using inv new(3) mem reachable_hop [OF cur(2)] unfolding bfs_inv_def by blast
  moreover have "v \<in> visited'"
    if "u \<in> visited' - set pending'" "hop t (excluding ex) [] u v c" for u v c
  proof (cases "u = current")
    case True
    then show ?thesis using that mem new(3) by blast
  next
    case False
    then have "u \<in> visited - set (current # pending)" using that new by auto
    then show ?thesis using inv that(2) new(3) unfolding bfs_inv_def by blast
  qed
  moreover have "s \<in> visited'" "set pending' \<subseteq> visited'"
    using inv new unfolding bfs_inv_def by auto
  ultimately show ?thesis unfolding bfs_inv_def by blast
qed

lemma bfs_correct:
  assumes "wf_topology t" "bfs_inv t ex targets s visited pending"
    and "set (excluding ex) \<subseteq> topo_ids t"
  shows "bfs t ex targets visited pending = Inr (\<exists>v \<in> targets. reachable t (excluding ex) [] s v)"
  using assms
proof (induction t ex targets visited pending rule: bfs.induct)
  case (1 t ex targets visited)
  then show ?case using bfs_inv_done by simp
next
  case (2 t ex targets visited current pending)
  have "current \<in> topo_names t" using "2.prems"(2) unfolding bfs_inv_def by auto
  then obtain ns where ns: "neighbors t current ex = Inr ns"
    using neighbors_total [OF _ "2.prems"(3)] by blast
  show ?case
  proof (cases "visit_neighbors targets visited pending ns")
    case None
    then obtain n where "n \<in> set ns" "n \<in> targets" unfolding visit_neighbors_None by blast
    moreover from this obtain c where "hop t (excluding ex) [] current n c"
      using neighbors_Inr [OF ns] by blast
    moreover have "reachable t (excluding ex) [] s current"
      using "2.prems"(2) unfolding bfs_inv_def by simp
    ultimately have "\<exists>v \<in> targets. reachable t (excluding ex) [] s v"
      using reachable_hop by blast
    with ns None show ?thesis by simp
  next
    case (Some p)
    obtain visited' pending' where p: "p = (visited', pending')" by (cases p)
    have "bfs_inv t ex targets s visited' pending'"
      using bfs_inv_step [OF "2.prems"(2,1) ns] Some p by simp
    with 2 ns Some p show ?thesis by simp
  qed
qed

lemma has_path_reachable:
  assumes wf: "wf_topology t" and s: "s \<in> topo_names t" and ex: "set (excluding ex) \<subseteq> topo_ids t"
  shows "has_path t s targets ex =
    Inr (\<exists>v \<in> targets \<inter> topo_names t. reachable t (excluding ex) [] s v)"
proof -
  obtain n where "topo_node t s = Inr n" using s unfolding topo_node_known by blast
  moreover have "reachable t (excluding ex) [] s s"
    unfolding reachable_def by (blast intro: walk_start)
  moreover have "bfs_inv t ex (targets \<inter> topo_names t) s {s} [s]" if "s \<notin> targets"
    using that s calculation(2) by (auto simp: bfs_inv_def)
  ultimately show ?thesis
    using bfs_correct [OF wf _ ex] s by (auto simp: has_path_def Let_def simp del: bfs.simps)
qed

text \<open>
  C18: On a topology the constructor accepts, \<open>has_path\<close> from a known node, with at most
  one known link excluded, terminates without an error and answers whether some target
  that exists can be walked to without that link.
\<close>

theorem has_path_decides:
  assumes "mk_topology ns ls = Inr t"
    and "s \<in> topo_names t" "set (excluding ex) \<subseteq> topo_ids t"
  shows "has_path t s targets ex =
    Inr (\<exists>v \<in> targets. v \<in> topo_names t \<and> reachable t (excluding ex) [] s v)"
  using has_path_reachable [OF mk_topology_wf [OF assms(1)] assms(2,3), of targets] by auto

theorem has_path_decides_witness:
  "has_path lab_topology ''access1'' {''service-host''} (Some ''core1--service-host'') = Inr False \<and>
   \<not> reachable lab_topology [''core1--service-host''] [] ''access1'' ''service-host''"
proof -
  have r: "has_path lab_topology ''access1'' {''service-host''} (Some ''core1--service-host'') = Inr False"
    by code_simp
  have "''access1'' \<in> topo_names lab_topology" "''service-host'' \<in> topo_names lab_topology"
    "set (excluding (Some ''core1--service-host'')) \<subseteq> topo_ids lab_topology"
    by code_simp+
  with r has_path_decides [OF mk_lab_topology, of "''access1''" "Some ''core1--service-host''"
      "{''service-host''}"]
  show ?thesis by simp
qed

text \<open>
  \<open>neighbors\<close> of a known node lists, in ascending order and once each, exactly the
  nodes one non-excluded link away; an unknown node or an unknown excluded link is an
  error.
\<close>

theorem neighbors_exact:
  assumes "mk_topology ns ls = Inr t"
  shows "neighbors t u ex = Inr vs \<longleftrightarrow>
    u \<in> topo_names t \<and> set (excluding ex) \<subseteq> topo_ids t \<and> sorted_wrt (<) vs \<and>
    set vs = {v. \<exists>l \<in> set (topo_links t). Some (link_id l) \<noteq> ex \<and>
      (endpoint_a l = u \<and> endpoint_b l = v \<or> endpoint_b l = u \<and> endpoint_a l = v)}"
proof -
  note wf = mk_topology_wf [OF assms]
  have links: "set (topo_links t) = set (dict_values (links_by_id t))" using set_topo_links [OF wf] .
  have step: "(\<exists>c. hop t (excluding ex) [] u v c) \<longleftrightarrow>
      (\<exists>l \<in> set (topo_links t). Some (link_id l) \<noteq> ex \<and>
        (endpoint_a l = u \<and> endpoint_b l = v \<or> endpoint_b l = u \<and> endpoint_a l = v))" for v
  proof -
    have "other_end l u = Some v \<longleftrightarrow>
        endpoint_a l = u \<and> endpoint_b l = v \<or> endpoint_b l = u \<and> endpoint_a l = v"
      if "l \<in> set (topo_links t)" for l
      using wf_link_values [OF wf] that links by (auto simp: other_end_def wf_link_def)
    moreover have "link_id l \<notin> set (excluding ex) \<longleftrightarrow> Some (link_id l) \<noteq> ex" for l
      by (cases ex) auto
    ultimately show ?thesis unfolding hop_def links [symmetric] by auto
  qed
  show ?thesis unfolding step [symmetric]
  proof
    assume r: "neighbors t u ex = Inr vs"
    have "u \<in> topo_names t" "set (excluding ex) \<subseteq> topo_ids t"
      using r topo_node_known topo_link_known
      by (auto simp: neighbors_def rbind_eq_Inr excluding_def simp del: set_map split: option.splits)
    with r neighbors_sorted [OF r] neighbors_Inr [OF r]
    show "u \<in> topo_names t \<and> set (excluding ex) \<subseteq> topo_ids t \<and> sorted_wrt (<) vs \<and>
        set vs = {v. \<exists>c. hop t (excluding ex) [] u v c}"
      by (simp add: strict_sorted_iff del: set_map)
  next
    assume a: "u \<in> topo_names t \<and> set (excluding ex) \<subseteq> topo_ids t \<and> sorted_wrt (<) vs \<and>
      set vs = {v. \<exists>c. hop t (excluding ex) [] u v c}"
    then obtain ws where ws: "neighbors t u ex = Inr ws" using neighbors_total by blast
    have "sorted_wrt (<) ws" "set ws = set vs"
      using neighbors_sorted [OF ws] neighbors_Inr [OF ws] a by (simp_all add: strict_sorted_iff)
    with a have "ws = vs" by (simp add: strict_sorted_equal)
    with ws show "neighbors t u ex = Inr vs" by simp
  qed
qed

theorem neighbors_exact_witness:
  "neighbors lab_topology ''agg1'' (Some ''agg1--core2'') = Inr [''access1'', ''access2'', ''core1''] \<and>
   sorted_wrt (<) [''access1'', ''access2'', ''core1'']"
proof -
  have r: "neighbors lab_topology ''agg1'' (Some ''agg1--core2'') = Inr [''access1'', ''access2'', ''core1'']"
    by code_simp
  with iffD1 [OF neighbors_exact [OF mk_lab_topology] r] show ?thesis by blast
qed

end
