(* ===== verification/Heap_Queue.thy ===== *)
theory Heap_Queue
  imports Sentinel_Prelude "HOL-Library.Multiset"
begin

text \<open>
  The contract of \<open>heapq\<close> that \<open>Topology.shortest_distance_excluding\<close> relies on:
  \<open>heappop\<close> removes a least element. Elements are totally ordered, so the value popped
  does not depend on the heap's layout; the model keeps the heap as a sorted list.
\<close>

locale priority_queue =
  fixes push :: "'a :: linorder \<Rightarrow> 'q \<Rightarrow> 'q"
    and pop :: "'q \<Rightarrow> ('a \<times> 'q) option"
    and elems :: "'q \<Rightarrow> 'a multiset"
    and heap :: "'q \<Rightarrow> bool"
  assumes elems_push: "heap q \<Longrightarrow> elems (push x q) = add_mset x (elems q)"
    and heap_push: "heap q \<Longrightarrow> heap (push x q)"
    and pop_None: "heap q \<Longrightarrow> pop q = None \<longleftrightarrow> elems q = {#}"
    and pop_elems: "heap q \<Longrightarrow> pop q = Some (x, q') \<Longrightarrow> elems q = add_mset x (elems q')"
    and pop_min: "heap q \<Longrightarrow> pop q = Some (x, q') \<Longrightarrow> y \<in># elems q \<Longrightarrow> x \<le> y"
    and heap_pop: "heap q \<Longrightarrow> pop q = Some (x, q') \<Longrightarrow> heap q'"
begin

lemma pop_member: "heap q \<Longrightarrow> pop q = Some (x, q') \<Longrightarrow> x \<in># elems q"
  by (simp add: pop_elems)

lemma pop_subset: "heap q \<Longrightarrow> pop q = Some (x, q') \<Longrightarrow> y \<in># elems q' \<Longrightarrow> y \<in># elems q"
  by (simp add: pop_elems)

lemma pop_size: "heap q \<Longrightarrow> pop q = Some (x, q') \<Longrightarrow> size (elems q) = Suc (size (elems q'))"
  by (simp add: pop_elems)

text \<open>When no element occurs twice, the popped one is gone and the others stay.\<close>

lemma pop_once:
  assumes "heap q" "pop q = Some (x, q')" "\<And>y. count (elems q) y \<le> 1"
  shows "y \<in># elems q' \<longleftrightarrow> y \<in># elems q \<and> y \<noteq> x"
proof -
  have "elems q = add_mset x (elems q')" using assms pop_elems by blast
  moreover from this have "x \<notin># elems q'"
    using assms(3) [of x] by (simp add: not_in_iff)
  ultimately show ?thesis by auto
qed

end

definition heappush :: "'a :: linorder \<Rightarrow> 'a list \<Rightarrow> 'a list" where
  "heappush x q = insort x q"

definition heappop :: "'a list \<Rightarrow> ('a \<times> 'a list) option" where
  "heappop q = (case q of [] \<Rightarrow> None | x # q' \<Rightarrow> Some (x, q'))"

interpretation heapq: priority_queue heappush heappop mset sorted
  by unfold_locales
    (auto simp: heappush_def heappop_def sorted_insort split: list.splits)

end
