(* ===== verification/Shortest_Path.thy ===== *)
theory Shortest_Path
  imports Reachability Heap_Queue
begin

text \<open>
  \<open>Topology.shortest_distance_excluding\<close> and its single-exclusion wrapper: Dijkstra's
  algorithm with a heap of \<open>(distance, node)\<close> pairs and lazy deletion. The main loop runs
  on fuel; \<open>dijkstra_correct\<close> shows that \<open>2 * links + 2\<close> rounds suffice on every topology
  the constructor accepts (each round pops one entry, and a settled node pushes at most
  one entry per incident link), and that the value returned is the least weight of a walk
  to a target, or \<open>None\<close> when there is no walk.
\<close>

section \<open>The search\<close>

type_synonym search = "(string \<rightharpoonup> int) \<times> (int \<times> string) list"

text \<open>The body of the loop over the links, for the node \<open>current\<close> just popped.\<close>

definition relax_link :: "string list \<Rightarrow> string list \<Rightarrow> int \<Rightarrow> string \<Rightarrow> search \<Rightarrow> Link \<Rightarrow> search" where
  "relax_link el en distance current st l =
     (case st of (distances, pending) \<Rightarrow>
        if link_id l \<in> set el then st
        else
          (case other_end l current of
             None \<Rightarrow> st
           | Some neighbor \<Rightarrow>
               if neighbor \<in> set en then st
               else
                 (let candidate = distance + link_cost l
                  in if candidate < (case distances neighbor of None \<Rightarrow> candidate + 1 | Some d \<Rightarrow> d)
                     then (distances(neighbor \<mapsto> candidate), heappush (candidate, neighbor) pending)
                     else st)))"

fun dijkstra ::
  "nat \<Rightarrow> Topology \<Rightarrow> string list \<Rightarrow> string list \<Rightarrow> string set \<Rightarrow> search \<Rightarrow> int option result" where
  "dijkstra 0 t el en known st = Inl Exhausted"
| "dijkstra (Suc fuel) t el en known (distances, pending) =
     (case heappop pending of
        None \<Rightarrow> Inr None
      | Some ((distance, current), pending') \<Rightarrow>
          (case distances current of
             None \<Rightarrow> Inl (KeyError current)
           | Some best \<Rightarrow>
               if distance \<noteq> best then dijkstra fuel t el en known (distances, pending')
               else if current \<in> known then Inr (Some distance)
               else dijkstra fuel t el en known
                 (foldl (relax_link el en distance current) (distances, pending')
                   (dict_values (links_by_id t)))))"

definition search_fuel :: "Topology \<Rightarrow> nat" where
  "search_fuel t = 2 * length (links_by_id t) + 2"

definition shortest_distance_excluding ::
  "Topology \<Rightarrow> string \<Rightarrow> string set \<Rightarrow> string list \<Rightarrow> string list \<Rightarrow> int option result" where
  "shortest_distance_excluding t source targets excluded_links excluded_nodes =
     rbind (topo_node t source) (\<lambda>_.
     rbind (each (\<lambda>l. rbind (topo_link t l) (\<lambda>_. Inr ())) excluded_links) (\<lambda>_.
     rbind (each (\<lambda>n. rbind (topo_node t n) (\<lambda>_. Inr ())) excluded_nodes) (\<lambda>_.
       if source \<in> set excluded_nodes then Inr None
       else
         (let known_targets = targets \<inter> topo_names t - set excluded_nodes
          in if known_targets = {} then Inr None
             else dijkstra (search_fuel t) t excluded_links excluded_nodes known_targets
               ([source \<mapsto> 0], [(0, source)])))))"

definition shortest_distance ::
  "Topology \<Rightarrow> string \<Rightarrow> string set \<Rightarrow> string option \<Rightarrow> string option \<Rightarrow> int option result" where
  "shortest_distance t source targets excluded_link excluded_node =
     shortest_distance_excluding t source targets (excluding excluded_link) (excluding excluded_node)"

section \<open>The specification\<close>

definition is_distance ::
  "Topology \<Rightarrow> string list \<Rightarrow> string list \<Rightarrow> string \<Rightarrow> string set \<Rightarrow> int option \<Rightarrow> bool" where
  "is_distance t el en s targets r =
     (case r of
        None \<Rightarrow> \<forall>v \<in> targets. \<not> reachable t el en s v
      | Some d \<Rightarrow> (\<exists>v \<in> targets. walk t el en s v d) \<and>
          (\<forall>v \<in> targets. \<forall>w. walk t el en s v w \<longrightarrow> d \<le> w))"

lemma is_distance_unique:
  "is_distance t el en s targets r \<Longrightarrow> is_distance t el en s targets r' \<Longrightarrow> r = r'"
  by (cases r; cases r') (auto simp: is_distance_def reachable_def order_antisym)

section \<open>The loop invariant\<close>

text \<open>
  \<open>S\<close> is the set of settled nodes. Distances are weights of walks, least ones on
  \<open>S\<close>; an unsettled node with a distance has its entry in the heap; every entry is an
  upper bound of its node's distance, a strict one if the node is settled.
\<close>

definition search_inv :: "Topology \<Rightarrow> string list \<Rightarrow> string list \<Rightarrow> string \<Rightarrow> string set \<Rightarrow> search \<Rightarrow> bool" where
  "search_inv t el en s S st =
     (case st of (D, P) \<Rightarrow>
        sorted P \<and> distinct P \<and> D s = Some 0 \<and>
        (\<forall>v d. D v = Some d \<longrightarrow> walk t el en s v d) \<and>
        (\<forall>v \<in> S. \<exists>d. D v = Some d \<and> (\<forall>w. walk t el en s v w \<longrightarrow> d \<le> w)) \<and>
        (\<forall>v d. v \<notin> S \<longrightarrow> D v = Some d \<longrightarrow> (d, v) \<in> set P) \<and>
        (\<forall>d v. (d, v) \<in> set P \<longrightarrow> (\<exists>d'. D v = Some d' \<and> d' \<le> d \<and> (v \<in> S \<longrightarrow> d' < d))))"

definition relaxed :: "Topology \<Rightarrow> string list \<Rightarrow> string list \<Rightarrow> string set \<Rightarrow> search \<Rightarrow> bool" where
  "relaxed t el en S st =
     (\<forall>u \<in> S. \<forall>v c. hop t el en u v c \<longrightarrow>
        (\<exists>du dv. fst st u = Some du \<and> fst st v = Some dv \<and> dv \<le> du + c))"

lemma search_inv_parts:
  assumes "search_inv t el en s S (D, P)"
  shows "sorted P" "distinct P" "D s = Some 0"
    and "D v = Some d \<Longrightarrow> walk t el en s v d"
    and "v \<in> S \<Longrightarrow> \<exists>d. D v = Some d"
    and "v \<in> S \<Longrightarrow> D v = Some d \<Longrightarrow> walk t el en s v w \<Longrightarrow> d \<le> w"
    and "v \<notin> S \<Longrightarrow> D v = Some d \<Longrightarrow> (d, v) \<in> set P"
    and "(d, v) \<in> set P \<Longrightarrow> D v = Some d' \<Longrightarrow> d' \<le> d"
    and "(d, v) \<in> set P \<Longrightarrow> v \<in> S \<Longrightarrow> D v = Some d' \<Longrightarrow> d' < d"
    and "(d, v) \<in> set P \<Longrightarrow> \<exists>d'. D v = Some d'"
  using assms unfolding search_inv_def by fastforce+

lemma search_invI:
  assumes "sorted P" "distinct P" "D s = Some 0"
    and "\<And>v d. D v = Some d \<Longrightarrow> walk t el en s v d"
    and "\<And>v. v \<in> S \<Longrightarrow> \<exists>d. D v = Some d"
    and "\<And>v d w. v \<in> S \<Longrightarrow> D v = Some d \<Longrightarrow> walk t el en s v w \<Longrightarrow> d \<le> w"
    and "\<And>v d. v \<notin> S \<Longrightarrow> D v = Some d \<Longrightarrow> (d, v) \<in> set P"
    and "\<And>d v. (d, v) \<in> set P \<Longrightarrow> \<exists>d'. D v = Some d' \<and> d' \<le> d \<and> (v \<in> S \<longrightarrow> d' < d)"
  shows "search_inv t el en s S (D, P)"
  using assms unfolding search_inv_def by fastforce

lemma relaxedD:
  "relaxed t el en S (D, P) \<Longrightarrow> u \<in> S \<Longrightarrow> hop t el en u v c \<Longrightarrow>
   \<exists>du dv. D u = Some du \<and> D v = Some dv \<and> dv \<le> du + c"
  by (auto simp: relaxed_def)

lemma search_inv_init: "search_inv t el en s {} ([s \<mapsto> 0], [(0, s)])"
  by (auto simp: search_inv_def intro: walk_start)

lemma heappop_Some: "heappop P = Some (x, P') \<longleftrightarrow> P = x # P'"
  by (auto simp: heappop_def split: list.splits)

text \<open>The entry popped, when not stale, bounds the walks to every unsettled node.\<close>

lemma popped_least:
  assumes wf: "wf_topology t" and inv: "search_inv t el en s S (D, P)"
    and rel: "relaxed t el en S (D, P)"
    and pop: "heappop P = Some ((d, v), P')" and best: "D v = Some d"
  shows "v \<notin> S" "walk t el en s u w \<Longrightarrow> u \<notin> S \<Longrightarrow> d \<le> w"
proof -
  note I = search_inv_parts [OF inv]
  have least: "d \<le> d'" if "(d', v') \<in> set P" for d' v'
    using heapq.pop_min [OF I(1) pop, of "(d', v')"] that by (auto simp: less_eq_prod_def)
  have "(d, v) \<in> set P" using heapq.pop_member [OF I(1) pop] by simp
  then show vS: "v \<notin> S" using I(9) best by blast
  show "d \<le> w" if w: "walk t el en s u w" and uS: "u \<notin> S"
  proof (cases "s \<in> S")
    case False
    from least [OF I(7) [OF False I(3)]] walk_nonneg [OF wf w] show ?thesis by simp
  next
    case True
    from walk_leaves [OF w True uS wf] obtain x y w' c where
      x: "x \<in> S" "walk t el en s x w'" and y: "y \<notin> S" "hop t el en x y c" "w' + c \<le> w" by blast
    from relaxedD [OF rel x(1) y(2)] obtain dx dy
      where D: "D x = Some dx" "D y = Some dy" "dy \<le> dx + c" by blast
    have "dx \<le> w'" using I(6) [OF x(1) D(1) x(2)] .
    moreover have "d \<le> dy" using least [OF I(7) [OF y(1) D(2)]] .
    ultimately show ?thesis using D(3) y(3) by linarith
  qed
qed

lemma search_inv_stale:
  assumes inv: "search_inv t el en s S (D, P)" and pop: "heappop P = Some ((d, v), P')"
    and stale: "D v \<noteq> Some d"
  shows "search_inv t el en s S (D, P')"
proof -
  note I = search_inv_parts [OF inv]
  have P: "P = (d, v) # P'" using pop by (simp add: heappop_Some)
  show ?thesis
  proof (rule search_invI)
    show "(e, u) \<in> set P'" if "u \<notin> S" "D u = Some e" for u e
      using I(7) [OF that] that(2) stale P by auto
    show "\<exists>d'. D u = Some d' \<and> d' \<le> e \<and> (u \<in> S \<longrightarrow> d' < e)" if "(e, u) \<in> set P'" for e u
      using I(8-10) [of e u] that P by auto
  qed (use I P in auto)
qed

lemma search_inv_settle:
  assumes wf: "wf_topology t" and inv: "search_inv t el en s S (D, P)"
    and rel: "relaxed t el en S (D, P)"
    and pop: "heappop P = Some ((d, v), P')" and best: "D v = Some d"
  shows "search_inv t el en s (insert v S) (D, P')"
proof -
  note I = search_inv_parts [OF inv]
  have P: "P = (d, v) # P'" using pop by (simp add: heappop_Some)
  have strict: "d < x" if "(x, v) \<in> set P'" for x
  proof -
    have "x \<noteq> d" using that I(2) P by auto
    moreover have "d \<le> x" using I(8) [of x v d] best that P by simp
    ultimately show ?thesis by simp
  qed
  show ?thesis
  proof (rule search_invI)
    show "e \<le> w" if "u \<in> insert v S" "D u = Some e" "walk t el en s u w" for u e w
      using that I(6) popped_least [OF assms] best by auto
    show "(e, u) \<in> set P'" if "u \<notin> insert v S" "D u = Some e" for u e
      using I(7) [of u e] that P by auto
    show "\<exists>d'. D u = Some d' \<and> d' \<le> e \<and> (u \<in> insert v S \<longrightarrow> d' < e)" if "(e, u) \<in> set P'" for e u
      using I(8-10) [of e u] that P best strict by auto
  qed (use I P best in auto)
qed

text \<open>One round of the inner loop: either nothing changes or one entry is pushed.\<close>

definition pushes :: "string list \<Rightarrow> string list \<Rightarrow> int \<Rightarrow> string \<Rightarrow> (string \<rightharpoonup> int) \<Rightarrow> Link \<Rightarrow> string \<Rightarrow> bool" where
  "pushes el en d current D l n =
     (link_id l \<notin> set el \<and> other_end l current = Some n \<and> n \<notin> set en \<and>
      (\<forall>e. D n = Some e \<longrightarrow> d + link_cost l < e))"

lemma relax_link_cases:
  "relax_link el en d current (D, P) l = (D', P') \<Longrightarrow>
   (\<nexists>n. pushes el en d current D l n) \<and> D' = D \<and> P' = P \<or>
   (\<exists>n. pushes el en d current D l n \<and> D' = D(n \<mapsto> d + link_cost l) \<and>
      P' = insort (d + link_cost l, n) P)"
  unfolding relax_link_def pushes_def heappush_def
  by (auto simp: Let_def split: if_splits option.splits)

lemma push_inv:
  assumes wf: "wf_topology t" and inv: "search_inv t el en s S (D, P)"
    and cur: "current \<in> S" "D current = Some d"
    and l: "l \<in> set (dict_values (links_by_id t))"
    and n: "pushes el en d current D l n"
  shows "search_inv t el en s S (D(n \<mapsto> d + link_cost l), insort (d + link_cost l, n) P)"
    and "n \<notin> S"
proof -
  note I = search_inv_parts [OF inv]
  define c where "c = d + link_cost l"
  have less: "c < e" if "D n = Some e" for e using n that by (simp add: pushes_def c_def)
  have "hop t el en current n (link_cost l)" using n l unfolding pushes_def hop_def by blast
  with I(4) [OF cur(2)] have walk: "walk t el en s n c" unfolding c_def by (rule walk_hop)
  show nS: "n \<notin> S"
    using I(5) [of n] I(6) [OF _ _ walk] less by force
  have fresh: "c < x" if "(x, n) \<in> set P" for x
    using I(10) [OF that] I(8) [OF that] less by force
  have ns: "n \<noteq> s" using less [of 0] I(3) walk_nonneg [OF wf walk] by auto
  show "search_inv t el en s S (D(n \<mapsto> d + link_cost l), insort (d + link_cost l, n) P)"
    unfolding c_def [symmetric]
  proof (rule search_invI)
    show "(D(n \<mapsto> c)) s = Some 0" using I(3) ns by simp
    show "distinct (insort (c, n) P)" using I(2) fresh by (auto simp: distinct_insort)
    show "walk t el en s v e" if "(D(n \<mapsto> c)) v = Some e" for v e
      using that I(4) walk by (auto split: if_splits)
    show "e \<le> w" if "v \<in> S" "(D(n \<mapsto> c)) v = Some e" "walk t el en s v w" for v e w
      using that I(6) nS by (auto split: if_splits)
    show "(e, v) \<in> set (insort (c, n) P)" if "v \<notin> S" "(D(n \<mapsto> c)) v = Some e" for v e
      using that I(7) [of v e] by (auto simp: set_insort_key split: if_splits)
    show "\<exists>d'. (D(n \<mapsto> c)) v = Some d' \<and> d' \<le> e \<and> (v \<in> S \<longrightarrow> d' < e)"
      if "(e, v) \<in> set (insort (c, n) P)" for e v
      using that I(8-10) [of e v] fresh [of e] nS by (auto simp: set_insort_key)
  qed (use I in \<open>auto simp: sorted_insort\<close>)
qed

lemma relax_link_inv:
  assumes wf: "wf_topology t" and inv: "search_inv t el en s S (D, P)"
    and cur: "current \<in> S" "D current = Some d"
    and l: "l \<in> set (dict_values (links_by_id t))"
    and st: "relax_link el en d current (D, P) l = (D', P')"
  shows "search_inv t el en s S (D', P')"
    and "D v = Some e \<Longrightarrow> \<exists>e'. D' v = Some e' \<and> e' \<le> e"
    and "v \<in> S \<Longrightarrow> D' v = D v"
    and "link_id l \<notin> set el \<Longrightarrow> other_end l current = Some v \<Longrightarrow> v \<notin> set en \<Longrightarrow>
      \<exists>e. D' v = Some e \<and> e \<le> d + link_cost l"
    and "length P' \<le> length P + (if other_end l current = None then 0 else 1)"
proof -
  note cases = relax_link_cases [OF st]
  note push = push_inv [OF wf inv cur l]
  show "search_inv t el en s S (D', P')" using cases push(1) inv by blast
  show "\<exists>e'. D' v = Some e' \<and> e' \<le> e" if "D v = Some e"
    using cases that by (auto simp: pushes_def less_imp_le)
  show "D' v = D v" if "v \<in> S" using cases push(2) that by auto
  show "\<exists>e. D' v = Some e \<and> e \<le> d + link_cost l"
    if "link_id l \<notin> set el" "other_end l current = Some v" "v \<notin> set en"
    using cases that by (auto simp: pushes_def not_less)
  show "length P' \<le> length P + (if other_end l current = None then 0 else 1)"
    using cases by (auto simp: pushes_def)
qed

section \<open>Correctness and termination\<close>

definition degree :: "Topology \<Rightarrow> string \<Rightarrow> nat" where
  "degree t v = length (filter (\<lambda>l. other_end l v \<noteq> None) (dict_values (links_by_id t)))"

lemma relax_all_inv:
  assumes "wf_topology t" "search_inv t el en s S (D, P)"
    and "current \<in> S" "D current = Some d"
    and "set ls \<subseteq> set (dict_values (links_by_id t))"
    and "foldl (relax_link el en d current) (D, P) ls = (D', P')"
  shows "search_inv t el en s S (D', P') \<and>
    (\<forall>v e. D v = Some e \<longrightarrow> (\<exists>e'. D' v = Some e' \<and> e' \<le> e)) \<and>
    (\<forall>v \<in> S. D' v = D v) \<and>
    (\<forall>l \<in> set ls. \<forall>v. link_id l \<notin> set el \<longrightarrow> other_end l current = Some v \<longrightarrow> v \<notin> set en \<longrightarrow>
      (\<exists>e. D' v = Some e \<and> e \<le> d + link_cost l)) \<and>
    length P' \<le> length P + length (filter (\<lambda>l. other_end l current \<noteq> None) ls)"
  using assms
proof (induction ls arbitrary: D P)
  case (Cons l ls)
  obtain D1 P1 where step: "relax_link el en d current (D, P) l = (D1, P1)" by fastforce
  have l: "l \<in> set (dict_values (links_by_id t))" using Cons.prems(5) by simp
  note R = relax_link_inv [OF Cons.prems(1-4) l step]
  have "D1 current = Some d" using R(3) Cons.prems(3,4) by simp
  moreover have "foldl (relax_link el en d current) (D1, P1) ls = (D', P')"
    using Cons.prems(6) step by simp
  ultimately have IH: "search_inv t el en s S (D', P')"
    "\<And>v e. D1 v = Some e \<Longrightarrow> \<exists>e'. D' v = Some e' \<and> e' \<le> e"
    "\<And>v. v \<in> S \<Longrightarrow> D' v = D1 v"
    "\<And>l v. l \<in> set ls \<Longrightarrow> link_id l \<notin> set el \<Longrightarrow> other_end l current = Some v \<Longrightarrow> v \<notin> set en \<Longrightarrow>
      \<exists>e. D' v = Some e \<and> e \<le> d + link_cost l"
    "length P' \<le> length P1 + length (filter (\<lambda>l. other_end l current \<noteq> None) ls)"
    using Cons.IH [OF Cons.prems(1) R(1) Cons.prems(3)] Cons.prems(5) by auto
  have mono: "\<exists>e'. D' v = Some e' \<and> e' \<le> e" if "D v = Some e" for v e
    using R(2) [OF that] IH(2) order_trans by blast
  have "\<exists>e. D' v = Some e \<and> e \<le> d + link_cost k"
    if "k \<in> set (l # ls)" "link_id k \<notin> set el" "other_end k current = Some v" "v \<notin> set en" for k v
  proof (cases "k = l")
    case True
    then show ?thesis using R(4) IH(2) that(2-4) order_trans by blast
  next
    case False
    then show ?thesis using IH(4) that by simp
  qed
  moreover have "length P' \<le> length P + length (filter (\<lambda>l. other_end l current \<noteq> None) (l # ls))"
    using R(5) IH(5) by (auto split: if_splits)
  ultimately show ?case using IH(1,3) R(3) mono by simp
qed simp

lemma relax_all_relaxed:
  assumes wf: "wf_topology t" and inv: "search_inv t el en s (insert current S) (D, P)"
    and cur: "D current = Some d" and rel: "relaxed t el en S (D, P)"
    and st: "foldl (relax_link el en d current) (D, P) (dict_values (links_by_id t)) = (D', P')"
  shows "relaxed t el en (insert current S) (D', P')"
proof -
  have R: "\<And>v e. D v = Some e \<Longrightarrow> \<exists>e'. D' v = Some e' \<and> e' \<le> e"
    "\<And>v. v \<in> insert current S \<Longrightarrow> D' v = D v"
    "\<And>l v. l \<in> set (dict_values (links_by_id t)) \<Longrightarrow> link_id l \<notin> set el \<Longrightarrow>
      other_end l current = Some v \<Longrightarrow> v \<notin> set en \<Longrightarrow> \<exists>e. D' v = Some e \<and> e \<le> d + link_cost l"
    using relax_all_inv [OF wf inv _ cur order_refl st] by blast+
  have "\<exists>du dv. D' u = Some du \<and> D' v = Some dv \<and> dv \<le> du + c"
    if u: "u \<in> insert current S" and hop: "hop t el en u v c" for u v c
  proof (cases "u = current")
    case True
    with hop obtain l where "l \<in> set (dict_values (links_by_id t))" "link_id l \<notin> set el"
      "other_end l current = Some v" "v \<notin> set en" "link_cost l = c" unfolding hop_def by blast
    with R(3) have "\<exists>e. D' v = Some e \<and> e \<le> d + c" by blast
    then show ?thesis using True cur R(2) u by auto
  next
    case False
    with u have "u \<in> S" by simp
    from relaxedD [OF rel this hop] obtain du dv
      where "D u = Some du" "D v = Some dv" "dv \<le> du + c" by blast
    then show ?thesis using R(1) R(2) [OF u] order_trans by metis
  qed
  then show ?thesis by (simp add: relaxed_def)
qed

lemma search_done:
  assumes inv: "search_inv t el en s S (D, [])" and rel: "relaxed t el en S (D, [])"
    and known: "S \<inter> known = {}"
  shows "is_distance t el en s known None"
proof -
  note I = search_inv_parts [OF inv]
  have open_none: "v \<in> S" if "D v = Some d" for v d using I(7) [OF _ that] by auto
  have "v \<in> S" if "walk t el en s v w" for v w
    using that
  proof (rule walk_subset)
    show "s \<in> S" using open_none I(3) .
    show "v \<in> S" if "u \<in> S" "hop t el en u v c" for u v c
      using relaxedD [OF rel that] open_none by blast
  qed
  with known show ?thesis by (auto simp: is_distance_def reachable_def)
qed

definition search_measure :: "Topology \<Rightarrow> string set \<Rightarrow> (int \<times> string) list \<Rightarrow> nat" where
  "search_measure t S P = length P + (\<Sum>v \<in> topo_names t - S. degree t v)"

lemma search_measure_settle:
  assumes "current \<in> topo_names t - S" "length P' \<le> length P + degree t current"
  shows "search_measure t (insert current S) P' \<le> search_measure t S P"
proof -
  have "(\<Sum>v \<in> topo_names t - S. degree t v) =
      degree t current + (\<Sum>v \<in> topo_names t - S - {current}. degree t v)"
    using assms(1) by (intro sum.remove) auto
  then show ?thesis
    using assms(2) unfolding search_measure_def Diff_insert [of _ current S] by linarith
qed

text \<open>Settling the popped node and scanning its links keeps the invariant.\<close>

lemma settle_round:
  assumes wf: "wf_topology t" and s: "s \<in> topo_names t"
    and inv: "search_inv t el en s S (D, P)" and rel: "relaxed t el en S (D, P)"
    and pop: "heappop P = Some ((d, v), P1)" and best: "D v = Some d"
    and fold: "foldl (relax_link el en d v) (D, P1) (dict_values (links_by_id t)) = (D', P')"
  shows "search_inv t el en s (insert v S) (D', P')" "relaxed t el en (insert v S) (D', P')"
    and "search_measure t (insert v S) P' < search_measure t S P"
proof -
  note settle = search_inv_settle [OF wf inv rel pop best]
  have R: "search_inv t el en s (insert v S) (D', P') \<and> length P' \<le> length P1 + degree t v"
    using relax_all_inv [OF wf settle insertI1 best order_refl fold] by (simp add: degree_def)
  then show "search_inv t el en s (insert v S) (D', P')" by blast
  have "relaxed t el en S (D, P1)" using rel by (simp add: relaxed_def)
  with relax_all_relaxed [OF wf settle best _ fold]
  show "relaxed t el en (insert v S) (D', P')" by blast
  have "v \<in> topo_names t - S"
    using walk_known [OF wf search_inv_parts(4) [OF inv best] s]
      popped_least(1) [OF wf inv rel pop best] by simp
  from search_measure_settle [OF this, of P' P1] R
  show "search_measure t (insert v S) P' < search_measure t S P"
    using pop by (simp add: heappop_Some search_measure_def)
qed

lemma popped_target:
  assumes "wf_topology t" "search_inv t el en s S (D, P)" "relaxed t el en S (D, P)"
    and "heappop P = Some ((d, v), P1)" "D v = Some d" "v \<in> known" "S \<inter> known = {}"
  shows "is_distance t el en s known (Some d)"
proof -
  have "walk t el en s v d" using search_inv_parts(4) [OF assms(2,5)] .
  moreover have "d \<le> w" if "u \<in> known" "walk t el en s u w" for u w
    using popped_least(2) [OF assms(1-5) that(2)] that(1) assms(7) by blast
  ultimately show ?thesis using assms(6) by (auto simp: is_distance_def)
qed

lemma dijkstra_correct:
  assumes "wf_topology t" "s \<in> topo_names t"
    and "search_inv t el en s S (D, P)" "relaxed t el en S (D, P)" "S \<inter> known = {}"
    and "search_measure t S P < fuel"
  shows "\<exists>r. dijkstra fuel t el en known (D, P) = Inr r \<and> is_distance t el en s known r"
  using assms
proof (induction fuel arbitrary: S D P)
  case (Suc fuel)
  note inv = Suc.prems(3) and rel = Suc.prems(4)
  show ?case
  proof (cases "heappop P")
    case None
    then have "P = []" by (simp add: heappop_def split: list.splits)
    then show ?thesis using search_done inv rel Suc.prems(5) None by auto
  next
    case (Some x)
    then obtain d v P1 where pop: "heappop P = Some ((d, v), P1)" by (metis surj_pair)
    then have P: "P = (d, v) # P1" by (simp add: heappop_Some)
    then obtain best where best: "D v = Some best"
      using search_inv_parts(10) [OF inv, of d v] by auto
    show ?thesis
    proof (cases "d = best")
      case False
      have "search_inv t el en s S (D, P1)" using search_inv_stale [OF inv pop] best False by simp
      moreover have "relaxed t el en S (D, P1)" using rel by (simp add: relaxed_def)
      moreover have "search_measure t S P1 < fuel"
        using Suc.prems(6) P by (simp add: search_measure_def)
      ultimately have "\<exists>r. dijkstra fuel t el en known (D, P1) = Inr r \<and> is_distance t el en s known r"
        using Suc.IH Suc.prems(1,2,5) by blast
      then show ?thesis using pop best False by simp
    next
      case True
      with best have dv: "D v = Some d" by simp
      obtain D' P' where fold: "foldl (relax_link el en d v) (D, P1) (dict_values (links_by_id t)) = (D', P')"
        by fastforce
      note round = settle_round [OF Suc.prems(1,2) inv rel pop dv fold]
      show ?thesis
      proof (cases "v \<in> known")
        case True
        with popped_target [OF Suc.prems(1) inv rel pop dv _ Suc.prems(5)] show ?thesis
          using pop dv by simp
      next
        case False
        then have "insert v S \<inter> known = {}" using Suc.prems(5) by simp
        moreover have "search_measure t (insert v S) P' < fuel"
          using round(3) Suc.prems(6) by simp
        ultimately have "\<exists>r. dijkstra fuel t el en known (D', P') = Inr r \<and> is_distance t el en s known r"
          using Suc.IH [OF Suc.prems(1,2) round(1,2)] by blast
        then show ?thesis using pop dv False fold by simp
      qed
    qed
  qed
qed simp

text \<open>Each link has two ends, so the pushes are bounded by twice the number of links.\<close>

lemma sum_degree_le: "finite V \<Longrightarrow> (\<Sum>v \<in> V. degree t v) \<le> 2 * length (links_by_id t)"
proof -
  assume fin: "finite V"
  have one: "(\<Sum>v \<in> V. if other_end l v \<noteq> None then 1 else 0) \<le> (2 :: nat)" for l
  proof -
    have "(\<Sum>v \<in> V. if other_end l v \<noteq> None then 1 else 0) = card {v \<in> V. other_end l v \<noteq> None}"
      using fin by (simp flip: sum.inter_filter)
    also have "\<dots> \<le> card {endpoint_a l, endpoint_b l}"
      by (rule card_mono) (auto simp: other_end_def split: if_splits)
    also have "\<dots> \<le> 2" by (simp add: card_insert_if)
    finally show ?thesis .
  qed
  have "(\<Sum>v \<in> V. length (filter (\<lambda>l. other_end l v \<noteq> None) ls)) \<le> 2 * length ls" for ls
  proof (induction ls)
    case (Cons l ls)
    have "(\<Sum>v \<in> V. length (filter (\<lambda>l. other_end l v \<noteq> None) (l # ls))) =
        (\<Sum>v \<in> V. if other_end l v \<noteq> None then 1 else 0) +
        (\<Sum>v \<in> V. length (filter (\<lambda>l. other_end l v \<noteq> None) ls))"
      by (simp flip: sum.distrib) (rule sum.cong; simp)
    then show ?case using Cons one [of l] by simp
  qed simp
  from this [of "dict_values (links_by_id t)"] show ?thesis by (simp add: degree_def)
qed

lemma initial_measure:
  "search_measure t {} [(0, s)] < search_fuel t"
proof -
  have "finite (topo_names t)" by simp
  from sum_degree_le [OF this, of t] show ?thesis
    by (simp add: search_measure_def search_fuel_def)
qed

section \<open>The interface\<close>

text \<open>
  The result of the search on arguments the method accepts: \<open>None\<close> for an excluded
  source, otherwise the distance to the targets that exist and are not excluded.
\<close>

definition distance_spec ::
  "Topology \<Rightarrow> string list \<Rightarrow> string list \<Rightarrow> string \<Rightarrow> string set \<Rightarrow> int option \<Rightarrow> bool" where
  "distance_spec t el en s targets r =
     (if s \<in> set en then r = None
      else is_distance t el en s (targets \<inter> topo_names t - set en) r)"

definition known_args :: "Topology \<Rightarrow> string \<Rightarrow> string list \<Rightarrow> string list \<Rightarrow> bool" where
  "known_args t s el en = (s \<in> topo_names t \<and> set el \<subseteq> topo_ids t \<and> set en \<subseteq> topo_names t)"

lemma each_known_links [simp]:
  "each (\<lambda>l. rbind (topo_link t l) (\<lambda>_. Inr ())) ls = Inr u \<longleftrightarrow> set ls \<subseteq> topo_ids t"
  by (auto simp: each_eq_Inr rbind_eq_Inr topo_link_known simp del: set_map)

lemma each_known_nodes [simp]:
  "each (\<lambda>n. rbind (topo_node t n) (\<lambda>_. Inr ())) ns = Inr u \<longleftrightarrow> set ns \<subseteq> topo_names t"
  by (auto simp: each_eq_Inr rbind_eq_Inr topo_node_known simp del: set_map)

lemma distance_total:
  assumes wf: "wf_topology t" and args: "known_args t s el en"
  shows "\<exists>r. shortest_distance_excluding t s targets el en = Inr r \<and> distance_spec t el en s targets r"
proof -
  let ?known = "targets \<inter> topo_names t - set en"
  obtain n where n: "topo_node t s = Inr n"
    using args unfolding known_args_def topo_node_known by blast
  have checks: "each (\<lambda>l. rbind (topo_link t l) (\<lambda>_. Inr ())) el = Inr ()"
    "each (\<lambda>n. rbind (topo_node t n) (\<lambda>_. Inr ())) en = Inr ()"
    using args by (simp_all add: known_args_def)
  have "\<exists>r. dijkstra (search_fuel t) t el en ?known ([s \<mapsto> 0], [(0, s)]) = Inr r \<and>
      is_distance t el en s ?known r"
    using args initial_measure
    by (intro dijkstra_correct [OF wf _ search_inv_init]) (auto simp: relaxed_def known_args_def)
  then show ?thesis
    unfolding shortest_distance_excluding_def n checks rbind_simps Let_def distance_spec_def
    by (auto simp: is_distance_def)
qed

lemma distance_spec_unique:
  "distance_spec t el en s targets r \<Longrightarrow> distance_spec t el en s targets r' \<Longrightarrow> r = r'"
  using is_distance_unique by (auto simp: distance_spec_def split: if_splits)

lemma distance_value:
  assumes "wf_topology t" "known_args t s el en"
  shows "shortest_distance_excluding t s targets el en = Inr r \<longleftrightarrow> distance_spec t el en s targets r"
  using distance_total [OF assms, of targets] distance_spec_unique by fastforce

lemma distance_args:
  "shortest_distance_excluding t s targets el en = Inr r \<Longrightarrow> known_args t s el en"
  unfolding shortest_distance_excluding_def rbind_eq_Inr known_args_def
  using topo_node_known each_known_links each_known_nodes by metis

section \<open>What the method promises\<close>

text \<open>Distances, with \<open>None\<close> (no path) above every number.\<close>

fun dist_le :: "int option \<Rightarrow> int option \<Rightarrow> bool" where
  "dist_le d None = True"
| "dist_le None (Some e) = False"
| "dist_le (Some d) (Some e) = (d \<le> e)"

lemma dist_le_refl [simp]: "dist_le d d"
  by (cases d) simp_all

lemma dist_le_trans: "dist_le d e \<Longrightarrow> dist_le e f \<Longrightarrow> dist_le d f"
  by (cases d; cases e; cases f) simp_all

lemma distance_spec_mono:
  assumes wf: "wf_topology t" and s: "s \<in> topo_names t"
    and sub: "set el \<subseteq> set el'" "set en \<subseteq> set en'"
    and r: "distance_spec t el en s targets r" and r': "distance_spec t el' en' s targets r'"
  shows "dist_le r r'"
proof (cases r')
  case (Some d')
  have s': "s \<notin> set en'" using r' Some by (auto simp: distance_spec_def split: if_splits)
  obtain v where v: "v \<in> targets \<inter> topo_names t - set en'" "walk t el' en' s v d'"
    using r' Some s' by (auto simp: distance_spec_def is_distance_def)
  then have "walk t el en s v d'" "v \<in> targets \<inter> topo_names t - set en"
    using walk_mono sub by blast+
  then show ?thesis
    using r s' sub Some
    by (cases r) (auto simp: distance_spec_def is_distance_def reachable_def split: if_splits)
qed simp

lemma distance_mono:
  assumes "wf_topology t" "set el \<subseteq> set el'" "set en \<subseteq> set en'"
    and "shortest_distance_excluding t s targets el en = Inr r"
    and "shortest_distance_excluding t s targets el' en' = Inr r'"
  shows "dist_le r r'"
proof -
  have args: "known_args t s el en" "known_args t s el' en'" using assms(4,5) distance_args by blast+
  have "distance_spec t el en s targets r" "distance_spec t el' en' s targets r'"
    using assms(4,5) distance_value [OF assms(1)] args by blast+
  moreover have "s \<in> topo_names t" using args(1) unfolding known_args_def by blast
  ultimately show ?thesis using distance_spec_mono [OF assms(1) _ assms(2,3)] by blast
qed

text \<open>
  The contract the fault analyses rely on, as an interface: the oracle answers on known
  arguments, only on those, and answers grow with the exclusions. What the clients use of
  it is proved here once.
\<close>

locale distance_oracle =
  fixes ok :: "'t \<Rightarrow> bool"
    and knows :: "'t \<Rightarrow> string \<Rightarrow> string list \<Rightarrow> string list \<Rightarrow> bool"
    and dist :: "'t \<Rightarrow> string \<Rightarrow> string set \<Rightarrow> string list \<Rightarrow> string list \<Rightarrow> int option result"
  assumes dist_total: "ok t \<Longrightarrow> knows t s el en \<Longrightarrow> \<exists>r. dist t s T el en = Inr r"
    and dist_args: "dist t s T el en = Inr r \<Longrightarrow> knows t s el en"
    and knows_less: "knows t s el en \<Longrightarrow> knows t s [] []"
    and dist_mono: "ok t \<Longrightarrow> set el \<subseteq> set el' \<Longrightarrow> set en \<subseteq> set en' \<Longrightarrow>
      dist t s T el en = Inr r \<Longrightarrow> dist t s T el' en' = Inr r' \<Longrightarrow> dist_le r r'"
begin

lemma baseline_least:
  "ok t \<Longrightarrow> dist t s T [] [] = Inr (Some b) \<Longrightarrow> dist t s T el en = Inr r \<Longrightarrow> dist_le (Some b) r"
  by (rule dist_mono) auto

lemma lost_stays_lost:
  "ok t \<Longrightarrow> set el \<subseteq> set el' \<Longrightarrow> set en \<subseteq> set en' \<Longrightarrow>
   dist t s T el en = Inr None \<Longrightarrow> dist t s T el' en' = Inr r' \<Longrightarrow> r' = None"
  using dist_mono [of t el el' en en' s T None r'] by (cases r') auto

lemma unchanged_before:
  assumes "ok t" "set el \<subseteq> set el'" "set en \<subseteq> set en'" "dist t s T [] [] = Inr (Some b)"
    and "dist t s T el en = Inr r" "dist t s T el' en' = Inr (Some b)"
  shows "r = Some b"
proof -
  have "dist_le (Some b) r" using baseline_least [OF assms(1,4,5)] .
  moreover have "dist_le r (Some b)" using dist_mono [OF assms(1-3,5,6)] .
  ultimately show ?thesis by (cases r) auto
qed

lemma baseline_exists:
  assumes "ok t" "dist t s T el en = Inr (Some d)"
  shows "\<exists>b. dist t s T [] [] = Inr (Some b) \<and> b \<le> d"
proof -
  obtain r where r: "dist t s T [] [] = Inr r"
    using dist_total [OF assms(1) knows_less [OF dist_args [OF assms(2)]]] by blast
  with dist_mono [OF assms(1) _ _ r assms(2)] show ?thesis by (cases r) auto
qed

end

interpretation dijkstra: distance_oracle wf_topology known_args shortest_distance_excluding
proof unfold_locales
  show "\<exists>r. shortest_distance_excluding t s T el en = Inr r"
    if "wf_topology t" "known_args t s el en" for t s T el en
    using distance_total [OF that] by blast
  show "known_args t s [] []" if "known_args t s el en" for t s el en
    using that by (simp add: known_args_def)
qed (use distance_args distance_mono in blast)+

text \<open>
  C1: Dijkstra with lazy deletion is correct and total: on a topology the constructor
  accepts, with a known source and known exclusions, the search returns (the fuel is
  never used up and no distance is missing) either the least weight of a walk that avoids
  the excluded links and nodes to a remaining target, or \<open>None\<close> when the source is
  excluded or no remaining target can be walked to.
\<close>

theorem shortest_distance_correct:
  assumes "mk_topology ns ls = Inr t"
    and "s \<in> topo_names t" "set el \<subseteq> topo_ids t" "set en \<subseteq> topo_names t"
  shows "\<exists>r. shortest_distance_excluding t s targets el en = Inr r \<and>
    (case r of
       None \<Rightarrow> s \<in> set en \<or> (\<forall>v \<in> targets \<inter> topo_names t - set en. \<forall>w. \<not> walk t el en s v w)
     | Some d \<Rightarrow> s \<notin> set en \<and> (\<exists>v \<in> targets \<inter> topo_names t - set en. walk t el en s v d) \<and>
         (\<forall>v \<in> targets \<inter> topo_names t - set en. \<forall>w. walk t el en s v w \<longrightarrow> d \<le> w))"
proof -
  have "known_args t s el en" using assms(2-4) by (simp add: known_args_def)
  from distance_total [OF mk_topology_wf [OF assms(1)] this, of targets] obtain r
    where r: "shortest_distance_excluding t s targets el en = Inr r" "distance_spec t el en s targets r"
    by blast
  from r(2) show ?thesis
    by (intro exI [of _ r] conjI r(1))
      (auto simp: distance_spec_def is_distance_def reachable_def split: if_splits option.splits)
qed

theorem shortest_distance_correct_witness:
  "shortest_distance_excluding lab_topology ''access2'' {''service-host''} [] [''agg2''] = Inr (Some 120) \<and>
   walk lab_topology [] [''agg2''] ''access2'' ''service-host'' 120 \<and>
   \<not> walk lab_topology [] [''agg2''] ''access2'' ''service-host'' 50"
proof -
  have r: "shortest_distance_excluding lab_topology ''access2'' {''service-host''} [] [''agg2''] =
    Inr (Some 120)" by code_simp
  have "''access2'' \<in> topo_names lab_topology" "set [''agg2''] \<subseteq> topo_names lab_topology"
    "set [] \<subseteq> topo_ids lab_topology" "''service-host'' \<in> topo_names lab_topology - set [''agg2'']"
    by code_simp+
  with r shortest_distance_correct [OF mk_lab_topology, of "''access2''" "[]" "[''agg2'']"
      "{''service-host''}"]
  show ?thesis by fastforce
qed

text \<open>
  C40: The loop terminates: on a topology the constructor accepts it pops the queue empty or
  meets a target within twice the number of links plus two rounds, whatever links and nodes
  are excluded and whatever the targets; further rounds would change nothing.
\<close>

theorem search_terminates:
  assumes "mk_topology ns ls = Inr t" "s \<in> topo_names t" "2 * length (topo_links t) + 2 \<le> rounds"
  shows "\<exists>r. dijkstra rounds t el en known ([s \<mapsto> 0], [(0, s)]) = Inr r \<and>
    dijkstra (2 * length (topo_links t) + 2) t el en known ([s \<mapsto> 0], [(0, s)]) = Inr r"
proof -
  have fuel: "2 * length (topo_links t) + 2 = search_fuel t"
    by (simp add: search_fuel_def topo_links_def sorted_values_def)
  have run: "\<exists>r. dijkstra n t el en known ([s \<mapsto> 0], [(0, s)]) = Inr r \<and> is_distance t el en s known r"
    if "search_fuel t \<le> n" for n
    using that initial_measure [of t s] assms(2)
    by (intro dijkstra_correct [OF mk_topology_wf [OF assms(1)] _ search_inv_init]) (auto simp: relaxed_def)
  from run [of rounds] run [of "search_fuel t"] assms(3) show ?thesis
    unfolding fuel using is_distance_unique by blast
qed

theorem search_terminates_witness:
  "\<exists>r. dijkstra 100 lab_topology [''access1--agg1''] [] {''service-host''} ([''access1'' \<mapsto> 0], [(0, ''access1'')]) = Inr r"
proof -
  have "''access1'' \<in> topo_names lab_topology" "2 * length (topo_links lab_topology) + 2 \<le> 100" by code_simp+
  from search_terminates [OF mk_lab_topology this] show ?thesis by blast
qed

text \<open>
  The method fails only on names it does not know: it raises \<open>ValueError\<close> exactly when
  the source, an excluded link or an excluded node is unknown, and never with another
  error.
\<close>

theorem shortest_distance_errors:
  assumes "mk_topology ns ls = Inr t"
  shows "((\<exists>e. shortest_distance_excluding t s targets el en = Inl e) \<longleftrightarrow>
      \<not> (s \<in> topo_names t \<and> set el \<subseteq> topo_ids t \<and> set en \<subseteq> topo_names t)) \<and>
    (\<forall>e. shortest_distance_excluding t s targets el en = Inl e \<longrightarrow>
      (\<exists>x. e = ValueError (''unknown node: '' @ x) \<or> e = ValueError (''unknown link: '' @ x)))"
proof (intro conjI allI impI)
  note wf = mk_topology_wf [OF assms]
  have total: "\<exists>r. shortest_distance_excluding t s targets el en = Inr r"
    if "s \<in> topo_names t \<and> set el \<subseteq> topo_ids t \<and> set en \<subseteq> topo_names t"
    using distance_total [OF wf] that unfolding known_args_def by blast
  then show iff: "(\<exists>e. shortest_distance_excluding t s targets el en = Inl e) \<longleftrightarrow>
      \<not> (s \<in> topo_names t \<and> set el \<subseteq> topo_ids t \<and> set en \<subseteq> topo_names t)"
    using distance_args unfolding known_args_def by (metis Inr_not_Inl obj_sumE)
  show "\<exists>x. e = ValueError (''unknown node: '' @ x) \<or> e = ValueError (''unknown link: '' @ x)"
    if e: "shortest_distance_excluding t s targets el en = Inl e" for e
  proof -
    have args: "\<not> (s \<in> topo_names t \<and> set el \<subseteq> topo_ids t \<and> set en \<subseteq> topo_names t)"
      using iff e by blast
    have node: "topo_node t x = Inl e' \<Longrightarrow> e' = ValueError (''unknown node: '' @ x)" for x e'
      by (auto simp: topo_node_def split: option.splits)
    have link: "topo_link t x = Inl e' \<Longrightarrow> e' = ValueError (''unknown link: '' @ x)" for x e'
      by (auto simp: topo_link_def split: option.splits)
    consider "topo_node t s = Inl e"
      | x where "topo_link t x = Inl e"
      | x where "topo_node t x = Inl e"
      | "set el \<subseteq> topo_ids t" "set en \<subseteq> topo_names t" "s \<in> topo_names t"
      using e unfolding shortest_distance_excluding_def rbind_eq_Inl
      by (auto dest!: each_eq_Inl simp: rbind_eq_Inl topo_node_known simp del: set_map)
    then show ?thesis using node link args by cases blast+
  qed
qed

theorem shortest_distance_errors_witness:
  "shortest_distance_excluding lab_topology ''access1'' {''service-host''} [''ghost''] [] =
     Inl (ValueError (''unknown link: '' @ ''ghost'')) \<and>
   \<not> {''ghost''} \<subseteq> topo_ids lab_topology"
proof -
  have e: "shortest_distance_excluding lab_topology ''access1'' {''service-host''} [''ghost''] [] =
     Inl (ValueError (''unknown link: '' @ ''ghost''))" by code_simp
  moreover have "''access1'' \<in> topo_names lab_topology" by code_simp
  ultimately show ?thesis
    using shortest_distance_errors [OF mk_lab_topology, of "''access1''" "{''service-host''}" "[''ghost'']" "[]"]
    by auto
qed

text \<open>
  Removing more components never shortens a path: with more links and nodes excluded
  the distance can only grow or become \<open>None\<close>.
\<close>

theorem shortest_distance_mono:
  assumes "mk_topology ns ls = Inr t" "set el \<subseteq> set el'" "set en \<subseteq> set en'"
    and "shortest_distance_excluding t s targets el en = Inr r"
    and "shortest_distance_excluding t s targets el' en' = Inr r'"
  shows "dist_le r r'"
  using distance_mono [OF mk_topology_wf [OF assms(1)] assms(2-5)] .

theorem shortest_distance_mono_witness: "dist_le (Some 30) (Some 140)"
proof -
  have "shortest_distance_excluding lab_topology ''access1'' {''service-host''} [] [] = Inr (Some 30)"
    "shortest_distance_excluding lab_topology ''access1'' {''service-host''} [''agg1--core1''] [] =
      Inr (Some 140)"
    by code_simp+
  from shortest_distance_mono [OF mk_lab_topology _ _ this] show ?thesis by simp
qed

text \<open>
  The two searches agree: \<open>has_path\<close> holds exactly when \<open>shortest_distance\<close> with the
  same excluded link returns a number.
\<close>

theorem has_path_shortest_distance:
  assumes "mk_topology ns ls = Inr t" "s \<in> topo_names t" "set (excluding ex) \<subseteq> topo_ids t"
  shows "\<exists>r. shortest_distance t s targets ex None = Inr r \<and> has_path t s targets ex = Inr (r \<noteq> None)"
proof -
  note wf = mk_topology_wf [OF assms(1)]
  have "known_args t s (excluding ex) []" using assms(2,3) by (simp add: known_args_def)
  from distance_total [OF wf this, of targets] obtain r where
    r: "shortest_distance_excluding t s targets (excluding ex) [] = Inr r"
      "is_distance t (excluding ex) [] s (targets \<inter> topo_names t) r"
    by (auto simp: distance_spec_def)
  have "has_path t s targets ex = Inr (r \<noteq> None)"
    using r(2) has_path_reachable [OF wf assms(2,3), of targets]
    by (cases r) (auto simp: is_distance_def reachable_def)
  with r(1) show ?thesis by (simp add: shortest_distance_def)
qed

theorem has_path_shortest_distance_witness:
  "\<exists>r. shortest_distance lab_topology ''agg2'' {''service-host''} (Some ''agg2--core1'') None = Inr r \<and>
     has_path lab_topology ''agg2'' {''service-host''} (Some ''agg2--core1'') = Inr (r \<noteq> None)"
proof (rule has_path_shortest_distance [OF mk_lab_topology])
  show "''agg2'' \<in> topo_names lab_topology"
    and "set (excluding (Some ''agg2--core1'')) \<subseteq> topo_ids lab_topology"
    by code_simp+
qed

end
