(* ===== verification/Fault_Scenarios.thy ===== *)
theory Fault_Scenarios
  imports Shortest_Path
begin

text \<open>
  \<open>fault.py\<close>: a validated fault scenario (\<open>__post_init__\<close>) and the two generators of
  single-component scenarios. A \<open>frozenset\<close> is the list of its elements without
  repetition; the order in which Python iterates over it only selects which of several
  unknown components an error names.
\<close>

datatype FaultKind = LINK | NODE | COMPOSITE

fun fault_kind_value :: "FaultKind \<Rightarrow> string" where
  "fault_kind_value LINK = ''link''"
| "fault_kind_value NODE = ''node''"
| "fault_kind_value COMPOSITE = ''composite''"

record FaultScenario =
  fault_id :: string
  fault_kind :: FaultKind
  excluded_links :: "string list"
  excluded_nodes :: "string list"

text \<open>\<open>[a-z][a-z0-9:-]{0,255}\<close>\<close>

definition is_fault_id :: "string \<Rightarrow> bool" where
  "is_fault_id s = matches is_lower (\<lambda>c. ident_char c \<or> c = CHR '':'') 255 s"

definition mk_fault :: "string \<Rightarrow> FaultKind \<Rightarrow> string list \<Rightarrow> string list \<Rightarrow> FaultScenario result" where
  "mk_fault i kind links nodes =
     (let ls = remdups links; ns = remdups nodes; count = length ls + length ns
      in rbind (ensure (is_fault_id i) ''invalid fault scenario id'') (\<lambda>_.
         rbind (ensure (count \<noteq> 0) ''fault scenario requires at least one component'') (\<lambda>_.
         rbind (ensure (\<not> (kind = LINK \<and> (length ls \<noteq> 1 \<or> ns \<noteq> [])))
           ''link fault requires exactly one excluded link'') (\<lambda>_.
         rbind (ensure (\<not> (kind = NODE \<and> (length ns \<noteq> 1 \<or> ls \<noteq> [])))
           ''node fault requires exactly one excluded node'') (\<lambda>_.
         rbind (ensure (\<not> (kind = COMPOSITE \<and> count < 2))
           ''composite fault requires multiple components'') (\<lambda>_.
           Inr \<lparr>fault_id = i, fault_kind = kind, excluded_links = ls, excluded_nodes = ns\<rparr>))))))"

definition link_failure_scenarios :: "Topology \<Rightarrow> FaultScenario list result" where
  "link_failure_scenarios t =
     traverse (\<lambda>l. mk_fault (''link:'' @ link_id l) LINK [link_id l] []) (topo_links t)"

definition transport_role :: "NodeRole \<Rightarrow> bool" where
  "transport_role r = (r = AGGREGATION \<or> r = CORE)"

definition transport_node_failure_scenarios :: "Topology \<Rightarrow> FaultScenario list result" where
  "transport_node_failure_scenarios t =
     rbind (traverse (\<lambda>n. mk_fault (''node:'' @ node_name n) NODE [] [node_name n])
         (filter (\<lambda>n. transport_role (node_role n)) (topo_nodes t))) (\<lambda>scenarios.
     rbind (ensure (scenarios \<noteq> []) ''N-1 node audit requires at least one transport node'') (\<lambda>_.
       Inr scenarios))"

section \<open>Facts\<close>

text \<open>What construction establishes: the component counts each kind allows.\<close>

definition fault_ok :: "FaultScenario \<Rightarrow> bool" where
  "fault_ok f =
     (is_fault_id (fault_id f) \<and> distinct (excluded_links f) \<and> distinct (excluded_nodes f) \<and>
      (case fault_kind f of
         LINK \<Rightarrow> length (excluded_links f) = 1 \<and> excluded_nodes f = []
       | NODE \<Rightarrow> length (excluded_nodes f) = 1 \<and> excluded_links f = []
       | COMPOSITE \<Rightarrow> 2 \<le> length (excluded_links f) + length (excluded_nodes f)))"

lemma mk_fault_Inr:
  "mk_fault i kind links nodes = Inr f \<longleftrightarrow>
   f = \<lparr>fault_id = i, fault_kind = kind, excluded_links = remdups links, excluded_nodes = remdups nodes\<rparr> \<and>
   fault_ok f"
  by (cases kind) (auto simp: mk_fault_def Let_def rbind_eq_Inr fault_ok_def)

lemma mk_link_fault:
  "is_fault_id i \<Longrightarrow> mk_fault i LINK [l] [] =
     Inr \<lparr>fault_id = i, fault_kind = LINK, excluded_links = [l], excluded_nodes = []\<rparr>"
  by (simp add: mk_fault_Inr fault_ok_def)

lemma mk_node_fault:
  "is_fault_id i \<Longrightarrow> mk_fault i NODE [] [n] =
     Inr \<lparr>fault_id = i, fault_kind = NODE, excluded_links = [], excluded_nodes = [n]\<rparr>"
  by (simp add: mk_fault_Inr fault_ok_def)

lemma fault_id_of_identifier:
  "is_identifier s \<Longrightarrow> is_fault_id (''link:'' @ s) \<and> is_fault_id (''node:'' @ s) \<and> is_fault_id (''srlg:'' @ s)"
proof (cases s)
  case (Cons c cs)
  assume s: "is_identifier s"
  then have c: "ident_char c" "list_all ident_char cs" "length cs \<le> 127"
    using Cons by (auto simp: is_identifier_def matches_def ident_char_def)
  have "list_all (\<lambda>c. ident_char c \<or> c = CHR '':'') cs" using c(2) by (auto simp: list_all_iff)
  then show ?thesis
    using Cons c by (simp add: is_fault_id_def matches_def)
      (simp add: is_lower_def ident_char_def less_eq_char_def)
qed (simp add: is_identifier_def matches_def)

text \<open>The generators on topologies whose names are identifiers, as every validated intent's are.\<close>

definition identifier_names :: "Topology \<Rightarrow> bool" where
  "identifier_names t =
     (list_all is_identifier (dict_keys (nodes_by_name t)) \<and>
      list_all is_identifier (dict_keys (links_by_id t)))"

lemma link_failure_scenarios_eq:
  assumes "wf_topology t" "identifier_names t"
  shows "link_failure_scenarios t = Inr (map (\<lambda>l. \<lparr>fault_id = ''link:'' @ link_id l,
    fault_kind = LINK, excluded_links = [link_id l], excluded_nodes = []\<rparr>) (topo_links t))"
  unfolding link_failure_scenarios_def
proof (rule traverse_total)
  fix l assume "l \<in> set (topo_links t)"
  then have "link_id l \<in> topo_ids t"
    using wf_link_values [OF assms(1)] set_topo_links [OF assms(1)] by blast
  then have "is_identifier (link_id l)" using assms(2) unfolding identifier_names_def list_all_iff by blast
  then show "mk_fault (''link:'' @ link_id l) LINK [link_id l] [] = Inr \<lparr>fault_id = ''link:'' @ link_id l,
    fault_kind = LINK, excluded_links = [link_id l], excluded_nodes = []\<rparr>"
    using fault_id_of_identifier mk_link_fault by blast
qed

lemma topo_node_names_known:
  assumes "wf_topology t" "n \<in> set (topo_nodes t)"
  shows "node_name n \<in> topo_names t"
  using assms in_topo_nodes topo_node_known by blast

lemma transport_node_failure_scenarios_eq:
  assumes "wf_topology t" "identifier_names t"
    and "\<exists>n \<in> set (topo_nodes t). transport_role (node_role n)"
  shows "transport_node_failure_scenarios t = Inr (map (\<lambda>n. \<lparr>fault_id = ''node:'' @ node_name n,
    fault_kind = NODE, excluded_links = [], excluded_nodes = [node_name n]\<rparr>)
    (filter (\<lambda>n. transport_role (node_role n)) (topo_nodes t)))"
proof -
  have "traverse (\<lambda>n. mk_fault (''node:'' @ node_name n) NODE [] [node_name n])
      (filter (\<lambda>n. transport_role (node_role n)) (topo_nodes t)) =
    Inr (map (\<lambda>n. \<lparr>fault_id = ''node:'' @ node_name n, fault_kind = NODE, excluded_links = [],
      excluded_nodes = [node_name n]\<rparr>) (filter (\<lambda>n. transport_role (node_role n)) (topo_nodes t)))"
  proof (rule traverse_total)
    fix n assume "n \<in> set (filter (\<lambda>n. transport_role (node_role n)) (topo_nodes t))"
    then have "node_name n \<in> topo_names t" using topo_node_names_known [OF assms(1)] by simp
    then have "is_identifier (node_name n)"
      using assms(2) unfolding identifier_names_def list_all_iff by blast
    then show "mk_fault (''node:'' @ node_name n) NODE [] [node_name n] = Inr \<lparr>fault_id = ''node:'' @ node_name n,
      fault_kind = NODE, excluded_links = [], excluded_nodes = [node_name n]\<rparr>"
      using fault_id_of_identifier mk_node_fault by blast
  qed
  then show ?thesis
    using assms(3) by (simp add: transport_node_failure_scenarios_def filter_empty_conv)
qed

end
