(* ===== verification/Fault_Audit.thy ===== *)
theory Fault_Audit
  imports Fault_Scenarios
begin

text \<open>
  \<open>audit.py\<close>: the cost of every access node's service path before and after each fault,
  and the impact each fault is classified with. The specification is given in terms of
  distances (theory \<open>Shortest_Path\<close>): an outage is an access node with no walk left to a
  service node, a degradation one whose least walk became longer.
\<close>

section \<open>The audit\<close>

record AccessPathResult =
  access_node :: string
  baseline_cost :: int
  post_fault_cost :: "int option"

record FaultScenarioResult =
  fr_fault :: FaultScenario
  fr_service_impact :: ServiceImpact
  fr_affected_nodes :: "string list"
  fr_affected_prefixes :: "string list"
  fr_paths :: "AccessPathResult list"

record FaultAuditResult =
  audit_scenarios :: "FaultScenarioResult list"

definition count_impact :: "FaultAuditResult \<Rightarrow> ServiceImpact \<Rightarrow> nat" where
  "count_impact r impact =
     sum_list (map (\<lambda>s. if fr_service_impact s = impact then 1 else 0) (audit_scenarios r))"

definition total_scenarios :: "FaultAuditResult \<Rightarrow> nat" where
  "total_scenarios r = length (audit_scenarios r)"

definition passes_n_minus_one :: "FaultAuditResult \<Rightarrow> bool" where
  "passes_n_minus_one r = (count_impact r OUTAGE = 0)"

definition names_with_role :: "NodeRole \<Rightarrow> Topology \<Rightarrow> string list" where
  "names_with_role role t = map node_name (filter (\<lambda>n. node_role n = role) (topo_nodes t))"

abbreviation access_names :: "Topology \<Rightarrow> string list" where
  "access_names \<equiv> names_with_role ACCESS"

abbreviation service_names :: "Topology \<Rightarrow> string list" where
  "service_names \<equiv> names_with_role SERVICE"

definition add_baseline :: "Topology \<Rightarrow> string set \<Rightarrow> int dict \<Rightarrow> string \<Rightarrow> int dict result" where
  "add_baseline t services costs access =
     rbind (shortest_distance t access services None None) (\<lambda>distance.
       case distance of
         None \<Rightarrow> Inl (ValueError (''access node has no baseline service path: '' @ access))
       | Some d \<Rightarrow> Inr (dict_set access d costs))"

definition access_path ::
  "Topology \<Rightarrow> string set \<Rightarrow> int dict \<Rightarrow> FaultScenario \<Rightarrow> string \<Rightarrow> AccessPathResult result" where
  "access_path t services costs fault access =
     rbind (shortest_distance_excluding t access services (excluded_links fault) (excluded_nodes fault)) (\<lambda>after.
       case map_of costs access of
         None \<Rightarrow> Inl (KeyError access)
       | Some b \<Rightarrow> Inr \<lparr>access_node = access, baseline_cost = b, post_fault_cost = after\<rparr>)"

definition path_lost :: "AccessPathResult \<Rightarrow> bool" where
  "path_lost p = (post_fault_cost p = None)"

definition path_longer :: "AccessPathResult \<Rightarrow> bool" where
  "path_longer p = (case post_fault_cost p of None \<Rightarrow> False | Some after \<Rightarrow> baseline_cost p < after)"

definition fault_impact :: "AccessPathResult list \<Rightarrow> ServiceImpact" where
  "fault_impact paths =
     (let unavailable = map access_node (filter path_lost paths);
          degraded = map access_node (filter path_longer paths)
      in if unavailable \<noteq> [] then OUTAGE
         else if degraded \<noteq> [] then DEGRADED
         else REDUNDANCY_REDUCED)"

definition affected_access :: "AccessPathResult list \<Rightarrow> string list" where
  "affected_access paths =
     sort (remdups (map access_node (filter path_lost paths) @ map access_node (filter path_longer paths)))"

definition prefixes_of :: "Topology \<Rightarrow> string list \<Rightarrow> string list result" where
  "prefixes_of t names =
     rbind (traverse (topo_node t) names) (\<lambda>ns. Inr (sort (concat (map node_prefixes ns))))"

definition audit_fault ::
  "Topology \<Rightarrow> string list \<Rightarrow> string set \<Rightarrow> int dict \<Rightarrow> FaultScenario \<Rightarrow> FaultScenarioResult result" where
  "audit_fault t access services costs fault =
     rbind (each (\<lambda>l. rbind (topo_link t l) (\<lambda>_. Inr ())) (excluded_links fault)) (\<lambda>_.
     rbind (each (\<lambda>n. rbind (topo_node t n) (\<lambda>_. Inr ())) (excluded_nodes fault)) (\<lambda>_.
     rbind (traverse (access_path t services costs fault) access) (\<lambda>paths.
     rbind (prefixes_of t (affected_access paths)) (\<lambda>prefixes.
       Inr \<lparr>fr_fault = fault, fr_service_impact = fault_impact paths,
         fr_affected_nodes = affected_access paths, fr_affected_prefixes = prefixes,
         fr_paths = paths\<rparr>))))"

definition audit_fault_scenarios :: "Topology \<Rightarrow> FaultScenario list \<Rightarrow> FaultAuditResult result" where
  "audit_fault_scenarios t scenarios =
     rbind (ensure (access_names t \<noteq> []) ''N-1 audit requires at least one access node'') (\<lambda>_.
     rbind (ensure (service_names t \<noteq> []) ''N-1 audit requires at least one service node'') (\<lambda>_.
     rbind (ensure (scenarios \<noteq> []) ''audit requires at least one fault scenario'') (\<lambda>_.
     rbind (ensure (distinct (map fault_id scenarios)) ''duplicate fault scenario id'') (\<lambda>_.
     rbind (fold_res (add_baseline t (set (service_names t))) [] (access_names t)) (\<lambda>costs.
     rbind (traverse (audit_fault t (access_names t) (set (service_names t)) costs) scenarios) (\<lambda>results.
       Inr \<lparr>audit_scenarios = results\<rparr>))))))"

section \<open>The classification\<close>

lemma set_affected_access:
  "a \<in> set (affected_access paths) \<longleftrightarrow> (\<exists>p \<in> set paths. access_node p = a \<and> (path_lost p \<or> path_longer p))"
  by (auto simp: affected_access_def)

lemma affected_access_sorted: "sorted_wrt (<) (affected_access paths)"
  by (simp add: affected_access_def strict_sorted_iff)

lemma fault_impact_cases:
  "fault_impact paths = OUTAGE \<longleftrightarrow> (\<exists>p \<in> set paths. path_lost p)"
  "fault_impact paths = DEGRADED \<longleftrightarrow> \<not> (\<exists>p \<in> set paths. path_lost p) \<and> (\<exists>p \<in> set paths. path_longer p)"
  "fault_impact paths = REDUNDANCY_REDUCED \<longleftrightarrow> \<not> (\<exists>p \<in> set paths. path_lost p \<or> path_longer p)"
  by (auto simp: fault_impact_def Let_def filter_empty_conv)

text \<open>A path that is no better than another one leaves the impact no better.\<close>

definition path_le :: "AccessPathResult \<Rightarrow> AccessPathResult \<Rightarrow> bool" where
  "path_le p q =
     (access_node p = access_node q \<and> baseline_cost p = baseline_cost q \<and>
      dist_le (post_fault_cost p) (post_fault_cost q))"

lemma path_le_lost: "path_le p q \<Longrightarrow> path_lost p \<Longrightarrow> path_lost q"
  by (cases "post_fault_cost q") (auto simp: path_le_def path_lost_def)

lemma path_le_longer: "path_le p q \<Longrightarrow> path_longer p \<Longrightarrow> path_lost q \<or> path_longer q"
  by (cases "post_fault_cost p"; cases "post_fault_cost q")
    (auto simp: path_le_def path_lost_def path_longer_def)

lemma fault_impact_mono:
  assumes "list_all2 path_le ps qs"
  shows "fault_impact ps \<le> fault_impact qs"
proof -
  have lost: "\<exists>q \<in> set qs. path_lost q" if "\<exists>p \<in> set ps. path_lost p"
    using that assms path_le_lost by (meson list_all2_in_set1)
  have longer: "\<exists>q \<in> set qs. path_lost q \<or> path_longer q" if "\<exists>p \<in> set ps. path_longer p"
    using that assms path_le_longer by (meson list_all2_in_set1)
  show ?thesis
  proof (cases "fault_impact ps")
    case OUTAGE
    then have "fault_impact qs = OUTAGE" using lost by (simp add: fault_impact_cases)
    then show ?thesis using OUTAGE by simp
  next
    case DEGRADED
    then have "fault_impact qs \<noteq> REDUNDANCY_REDUCED" using longer by (auto simp: fault_impact_cases)
    then show ?thesis using DEGRADED by (cases "fault_impact qs") (auto simp: less_eq_ServiceImpact_def)
  qed (simp add: less_eq_ServiceImpact_def)
qed

lemma affected_access_mono:
  assumes "list_all2 path_le ps qs"
  shows "set (affected_access ps) \<subseteq> set (affected_access qs)"
proof
  fix a assume "a \<in> set (affected_access ps)"
  then obtain p where p: "p \<in> set ps" "access_node p = a" "path_lost p \<or> path_longer p"
    by (auto simp: set_affected_access)
  from list_all2_in_set1 [OF assms p(1)] obtain q where q: "q \<in> set qs" "path_le p q" by blast
  with p path_le_lost path_le_longer have "path_lost q \<or> path_longer q" by blast
  with p q show "a \<in> set (affected_access qs)" by (auto simp: set_affected_access path_le_def)
qed

section \<open>Results of the loops\<close>

lemma names_with_role_known:
  "wf_topology t \<Longrightarrow> a \<in> set (names_with_role role t) \<Longrightarrow> a \<in> topo_names t"
  using topo_node_names_known by (fastforce simp: names_with_role_def)

lemma distinct_names_with_role: "wf_topology t \<Longrightarrow> distinct (names_with_role role t)"
  using distinct_topo_nodes unfolding names_with_role_def by (rule distinct_map_filter)

lemma add_baseline_Inr:
  "add_baseline t S costs a = Inr costs' \<longleftrightarrow>
   (\<exists>b. shortest_distance_excluding t a S [] [] = Inr (Some b) \<and> costs' = dict_set a b costs)"
  by (auto simp: add_baseline_def shortest_distance_def rbind_eq_Inr split: option.splits)

text \<open>The baseline costs: one entry per access node, its undisturbed distance.\<close>

lemma fold_add_baseline:
  "fold_res (add_baseline t S) costs as = Inr costs' \<Longrightarrow>
   if a \<in> set as then \<exists>b. map_of costs' a = Some b \<and> shortest_distance_excluding t a S [] [] = Inr (Some b)
   else map_of costs' a = map_of costs a"
proof (induction as arbitrary: costs)
  case (Cons a' as)
  from Cons.prems obtain b where b: "shortest_distance_excluding t a' S [] [] = Inr (Some b)"
    "fold_res (add_baseline t S) (dict_set a' b costs) as = Inr costs'"
    by (auto simp: rbind_eq_Inr add_baseline_Inr)
  from Cons.IH [OF b(2)] b(1) show ?case by (cases "a \<in> set as") auto
qed simp

lemma baseline_costs:
  "fold_res (add_baseline t S) [] as = Inr costs \<Longrightarrow> a \<in> set as \<Longrightarrow>
   \<exists>b. map_of costs a = Some b \<and> shortest_distance_excluding t a S [] [] = Inr (Some b)"
  using fold_add_baseline [of t S "[]" as costs a] by simp

lemma fold_add_baseline_total:
  "(\<exists>costs'. fold_res (add_baseline t S) costs as = Inr costs') \<longleftrightarrow>
   (\<forall>a \<in> set as. \<exists>b. shortest_distance_excluding t a S [] [] = Inr (Some b))"
proof (induction as arbitrary: costs)
  case (Cons a as)
  have "(\<exists>costs'. fold_res (add_baseline t S) costs (a # as) = Inr costs') \<longleftrightarrow>
      (\<exists>b. shortest_distance_excluding t a S [] [] = Inr (Some b) \<and>
        (\<exists>costs'. fold_res (add_baseline t S) (dict_set a b costs) as = Inr costs'))"
    by (auto simp: rbind_eq_Inr add_baseline_Inr)
  then show ?case unfolding Cons.IH by simp
qed simp

text \<open>A path entry holds the two distances of its access node.\<close>

definition path_of :: "Topology \<Rightarrow> string set \<Rightarrow> FaultScenario \<Rightarrow> string \<Rightarrow> AccessPathResult \<Rightarrow> bool" where
  "path_of t S f a p =
     (access_node p = a \<and>
      shortest_distance_excluding t a S [] [] = Inr (Some (baseline_cost p)) \<and>
      shortest_distance_excluding t a S (excluded_links f) (excluded_nodes f) = Inr (post_fault_cost p))"

lemma access_path_of:
  assumes "fold_res (add_baseline t S) [] as = Inr costs" "a \<in> set as"
  shows "access_path t S costs f a = Inr p \<longleftrightarrow> path_of t S f a p"
proof -
  obtain b where "map_of costs a = Some b" "shortest_distance_excluding t a S [] [] = Inr (Some b)"
    using baseline_costs [OF assms] by blast
  then show ?thesis by (cases p) (auto simp: access_path_def path_of_def rbind_eq_Inr)
qed

lemma prefixes_of_total:
  "set names \<subseteq> topo_names t \<Longrightarrow> \<exists>ps. prefixes_of t names = Inr ps"
proof -
  assume "set names \<subseteq> topo_names t"
  then have "\<exists>n. topo_node t x = Inr n" if "x \<in> set names" for x
    using that topo_node_known by blast
  then obtain g where "\<And>x. x \<in> set names \<Longrightarrow> topo_node t x = Inr (g x)" by metis
  then have "traverse (topo_node t) names = Inr (map g names)" by (rule traverse_total)
  then show ?thesis by (simp add: prefixes_of_def)
qed

definition fault_known :: "Topology \<Rightarrow> FaultScenario \<Rightarrow> bool" where
  "fault_known t f = (set (excluded_links f) \<subseteq> topo_ids t \<and> set (excluded_nodes f) \<subseteq> topo_names t)"

lemma audit_fault_Inr:
  assumes costs: "fold_res (add_baseline t S) [] as = Inr costs"
    and r: "audit_fault t as S costs f = Inr r"
  shows "fr_fault r = f" "fault_known t f" "list_all2 (path_of t S f) as (fr_paths r)"
    and "fr_service_impact r = fault_impact (fr_paths r)"
    and "fr_affected_nodes r = affected_access (fr_paths r)"
    and "prefixes_of t (fr_affected_nodes r) = Inr (fr_affected_prefixes r)"
proof -
  have "list_all2 (\<lambda>a p. access_path t S costs f a = Inr p) as (fr_paths r)"
    using r by (auto simp: audit_fault_def rbind_eq_Inr traverse_eq_Inr)
  then show "list_all2 (path_of t S f) as (fr_paths r)"
    using access_path_of [OF costs] by (auto simp: list_all2_conv_all_nth)
qed (use r in \<open>auto simp: audit_fault_def rbind_eq_Inr fault_known_def simp del: set_map\<close>)

lemma audit_fault_total:
  assumes wf: "wf_topology t" and costs: "fold_res (add_baseline t S) [] as = Inr costs"
    and as: "set as \<subseteq> topo_names t" and f: "fault_known t f"
  shows "\<exists>r. audit_fault t as S costs f = Inr r"
proof -
  have "\<exists>p. access_path t S costs f a = Inr p" if a: "a \<in> set as" for a
  proof -
    obtain b where "shortest_distance_excluding t a S [] [] = Inr (Some b)"
      using baseline_costs [OF costs a] by blast
    moreover obtain d where
      "shortest_distance_excluding t a S (excluded_links f) (excluded_nodes f) = Inr d"
      using dijkstra.dist_total [OF wf, of a "excluded_links f" "excluded_nodes f" S] as a f
      unfolding known_args_def fault_known_def by blast
    ultimately have "path_of t S f a \<lparr>access_node = a, baseline_cost = b, post_fault_cost = d\<rparr>"
      by (simp add: path_of_def)
    then show ?thesis using access_path_of [OF costs a] by blast
  qed
  then obtain g where g: "\<And>a. a \<in> set as \<Longrightarrow> access_path t S costs f a = Inr (g a)" by metis
  have "access_node (g a) = a" if "a \<in> set as" for a
    using g [OF that] access_path_of [OF costs that] by (simp add: path_of_def)
  then have "set (affected_access (map g as)) \<subseteq> topo_names t"
    using as by (force simp: set_affected_access)
  then obtain ps where ps: "prefixes_of t (affected_access (map g as)) = Inr ps"
    using prefixes_of_total by blast
  have paths: "traverse (access_path t S costs f) as = Inr (map g as)"
    using g by (rule traverse_total)
  have checks: "each (\<lambda>l. rbind (topo_link t l) (\<lambda>_. Inr ())) (excluded_links f) = Inr ()"
    "each (\<lambda>n. rbind (topo_node t n) (\<lambda>_. Inr ())) (excluded_nodes f) = Inr ()"
    using f by (simp_all add: fault_known_def del: set_map)
  show ?thesis unfolding audit_fault_def checks paths ps rbind_simps by blast
qed

section \<open>The whole audit\<close>

definition served :: "Topology \<Rightarrow> bool" where
  "served t =
     (access_names t \<noteq> [] \<and> service_names t \<noteq> [] \<and>
      (\<forall>a \<in> set (access_names t). \<exists>v \<in> set (service_names t). reachable t [] [] a v))"

lemma baseline_reachable:
  assumes wf: "wf_topology t" and a: "a \<in> set (access_names t)"
  shows "(\<exists>b. shortest_distance_excluding t a (set (service_names t)) [] [] = Inr (Some b)) \<longleftrightarrow>
    (\<exists>v \<in> set (service_names t). reachable t [] [] a v)"
proof -
  have args: "known_args t a [] []"
    using names_with_role_known [OF wf a] by (simp add: known_args_def)
  have inter: "set (service_names t) \<inter> topo_names t = set (service_names t)"
    using names_with_role_known [OF wf] by blast
  obtain r where r: "shortest_distance_excluding t a (set (service_names t)) [] [] = Inr r"
    "is_distance t [] [] a (set (service_names t)) r"
    using distance_total [OF wf args, of "set (service_names t)"] inter by (auto simp: distance_spec_def)
  then show ?thesis by (cases r) (auto simp: is_distance_def reachable_def)
qed

lemma audit_Inr:
  "audit_fault_scenarios t fs = Inr r \<longleftrightarrow>
   access_names t \<noteq> [] \<and> service_names t \<noteq> [] \<and> fs \<noteq> [] \<and> distinct (map fault_id fs) \<and>
   (\<exists>costs. fold_res (add_baseline t (set (service_names t))) [] (access_names t) = Inr costs \<and>
      list_all2 (\<lambda>f s. audit_fault t (access_names t) (set (service_names t)) costs f = Inr s)
        fs (audit_scenarios r))"
  by (cases r) (auto simp: audit_fault_scenarios_def rbind_eq_Inr traverse_eq_Inr)

lemma audit_accepts:
  assumes wf: "wf_topology t"
  shows "(\<exists>r. audit_fault_scenarios t fs = Inr r) \<longleftrightarrow>
    served t \<and> fs \<noteq> [] \<and> distinct (map fault_id fs) \<and> (\<forall>f \<in> set fs. fault_known t f)"
proof -
  let ?S = "set (service_names t)" and ?as = "access_names t"
  have scen: "(\<exists>ss. list_all2 (\<lambda>f s. audit_fault t ?as ?S costs f = Inr s) fs ss) \<longleftrightarrow>
      (\<forall>f \<in> set fs. fault_known t f)" if costs: "fold_res (add_baseline t ?S) [] ?as = Inr costs" for costs
  proof
    assume "\<exists>ss. list_all2 (\<lambda>f s. audit_fault t ?as ?S costs f = Inr s) fs ss"
    then show "\<forall>f \<in> set fs. fault_known t f"
      using audit_fault_Inr(2) [OF costs] by (meson list_all2_in_set1)
  next
    assume known: "\<forall>f \<in> set fs. fault_known t f"
    have "\<exists>s. audit_fault t ?as ?S costs f = Inr s" if "f \<in> set fs" for f
      using audit_fault_total [OF wf costs] names_with_role_known [OF wf] known that by blast
    then obtain g where "\<And>f. f \<in> set fs \<Longrightarrow> audit_fault t ?as ?S costs f = Inr (g f)" by metis
    then have "list_all2 (\<lambda>f s. audit_fault t ?as ?S costs f = Inr s) fs (map g fs)"
      by (simp add: list_all2_conv_all_nth)
    then show "\<exists>ss. list_all2 (\<lambda>f s. audit_fault t ?as ?S costs f = Inr s) fs ss" by blast
  qed
  have "(\<exists>r. audit_fault_scenarios t fs = Inr r) \<longleftrightarrow>
      ?as \<noteq> [] \<and> service_names t \<noteq> [] \<and> fs \<noteq> [] \<and> distinct (map fault_id fs) \<and>
      (\<exists>costs. fold_res (add_baseline t ?S) [] ?as = Inr costs \<and>
        (\<exists>ss. list_all2 (\<lambda>f s. audit_fault t ?as ?S costs f = Inr s) fs ss))"
    unfolding audit_Inr by (metis FaultAuditResult.select_convs(1))
  also have "\<dots> \<longleftrightarrow> ?as \<noteq> [] \<and> service_names t \<noteq> [] \<and> fs \<noteq> [] \<and> distinct (map fault_id fs) \<and>
      (\<exists>costs. fold_res (add_baseline t ?S) [] ?as = Inr costs) \<and> (\<forall>f \<in> set fs. fault_known t f)"
    using scen by blast
  also have "(\<exists>costs. fold_res (add_baseline t ?S) [] ?as = Inr costs) \<longleftrightarrow>
      (\<forall>a \<in> set ?as. \<exists>v \<in> ?S. reachable t [] [] a v)"
    unfolding fold_add_baseline_total using baseline_reachable [OF wf] by blast
  finally show ?thesis unfolding served_def by blast
qed

text \<open>Every result belongs to its fault and holds the right distances.\<close>

definition result_of :: "Topology \<Rightarrow> FaultScenario \<Rightarrow> FaultScenarioResult \<Rightarrow> bool" where
  "result_of t f s =
     (fr_fault s = f \<and> fault_known t f \<and>
      list_all2 (path_of t (set (service_names t)) f) (access_names t) (fr_paths s) \<and>
      fr_service_impact s = fault_impact (fr_paths s) \<and>
      fr_affected_nodes s = affected_access (fr_paths s) \<and>
      prefixes_of t (fr_affected_nodes s) = Inr (fr_affected_prefixes s))"

lemma audit_results:
  assumes "audit_fault_scenarios t fs = Inr r"
  shows "list_all2 (result_of t) fs (audit_scenarios r)"
proof -
  obtain costs where costs: "fold_res (add_baseline t (set (service_names t))) [] (access_names t) = Inr costs"
    and l: "list_all2 (\<lambda>f s. audit_fault t (access_names t) (set (service_names t)) costs f = Inr s)
      fs (audit_scenarios r)"
    using assms unfolding audit_Inr by blast
  from l show ?thesis
    by (rule list_all2_mono) (use audit_fault_Inr [OF costs] in \<open>unfold result_of_def, blast\<close>)
qed

lemma audit_result_in:
  assumes "audit_fault_scenarios t fs = Inr r" "s \<in> set (audit_scenarios r)"
  shows "result_of t (fr_fault s) s" "fr_fault s \<in> set fs"
proof -
  from list_all2_in_set2 [OF audit_results [OF assms(1)] assms(2)] obtain f where
    "f \<in> set fs" "result_of t f s" by blast
  then show "result_of t (fr_fault s) s" "fr_fault s \<in> set fs" by (auto simp: result_of_def)
qed

lemma result_paths:
  assumes "result_of t f s"
  shows "p \<in> set (fr_paths s) \<longleftrightarrow>
    access_node p \<in> set (access_names t) \<and> path_of t (set (service_names t)) f (access_node p) p"
proof -
  have l: "list_all2 (path_of t (set (service_names t)) f) (access_names t) (fr_paths s)"
    using assms by (simp add: result_of_def)
  have unique: "p = q" if "path_of t S f a p" "path_of t S f a q" for S a p q
    using that by (cases p; cases q) (auto simp: path_of_def)
  show ?thesis
  proof
    assume "p \<in> set (fr_paths s)"
    from list_all2_in_set2 [OF l this]
    show "access_node p \<in> set (access_names t) \<and> path_of t (set (service_names t)) f (access_node p) p"
      by (auto simp: path_of_def)
  next
    assume a: "access_node p \<in> set (access_names t) \<and> path_of t (set (service_names t)) f (access_node p) p"
    with list_all2_in_set1 [OF l] obtain q where
      "q \<in> set (fr_paths s)" "path_of t (set (service_names t)) f (access_node p) q" by blast
    with a unique show "p \<in> set (fr_paths s)" by blast
  qed
qed

section \<open>Properties\<close>

lemma path_of_lost:
  assumes wf: "wf_topology t" and p: "path_of t (set (service_names t)) f a p"
  shows "path_lost p \<longleftrightarrow>
    \<not> (a \<notin> set (excluded_nodes f) \<and> (\<exists>v \<in> set (service_names t). v \<notin> set (excluded_nodes f) \<and>
      reachable t (excluded_links f) (excluded_nodes f) a v))"
proof -
  have v: "shortest_distance_excluding t a (set (service_names t)) (excluded_links f) (excluded_nodes f) =
      Inr (post_fault_cost p)"
    using p by (simp add: path_of_def)
  have "distance_spec t (excluded_links f) (excluded_nodes f) a (set (service_names t)) (post_fault_cost p)"
    using v distance_value [OF wf distance_args [OF v]] by blast
  moreover have "v \<in> topo_names t" if "v \<in> set (service_names t)" for v
    using names_with_role_known [OF wf that] .
  ultimately show ?thesis
    unfolding path_lost_def distance_spec_def is_distance_def reachable_def
    by (auto split: if_splits option.splits simp del: set_map)
qed

text \<open>
  The specification of a result, in walks and least costs only: an access node is cut off when
  it failed itself or no walk to a remaining service node is left, and lengthened when its
  least cost grew; the prefixes are those of the affected nodes.
\<close>

definition cut_off :: "Topology \<Rightarrow> string list \<Rightarrow> string list \<Rightarrow> string \<Rightarrow> bool" where
  "cut_off t el en a =
     (\<not> (a \<notin> set en \<and> (\<exists>v \<in> set (service_names t). v \<notin> set en \<and> reachable t el en a v)))"

definition service_cost :: "Topology \<Rightarrow> string \<Rightarrow> string list \<Rightarrow> string list \<Rightarrow> int option result" where
  "service_cost t a el en = shortest_distance_excluding t a (set (service_names t)) el en"

definition lengthened :: "Topology \<Rightarrow> string list \<Rightarrow> string list \<Rightarrow> string \<Rightarrow> bool" where
  "lengthened t el en a =
     (\<exists>b d. service_cost t a [] [] = Inr (Some b) \<and> b < d \<and> service_cost t a el en = Inr (Some d))"

definition exact_result ::
  "Topology \<Rightarrow> string list \<Rightarrow> string list \<Rightarrow> ServiceImpact \<Rightarrow> string list \<Rightarrow> string list \<Rightarrow> bool" where
  "exact_result t el en impact nodes prefixes =
     ((impact = OUTAGE \<longleftrightarrow> (\<exists>a \<in> set (access_names t). cut_off t el en a)) \<and>
      (impact = DEGRADED \<longleftrightarrow> \<not> (\<exists>a \<in> set (access_names t). cut_off t el en a) \<and>
         (\<exists>a \<in> set (access_names t). lengthened t el en a)) \<and>
      (impact = REDUNDANCY_REDUCED \<longleftrightarrow>
         \<not> (\<exists>a \<in> set (access_names t). cut_off t el en a \<or> lengthened t el en a)) \<and>
      nodes = sort (filter (\<lambda>a. cut_off t el en a \<or> lengthened t el en a) (access_names t)) \<and>
      prefixes = sort (concat (map node_prefixes (filter (\<lambda>n. node_name n \<in> set nodes) (topo_nodes t)))))"

definition exact_paths :: "Topology \<Rightarrow> string list \<Rightarrow> string list \<Rightarrow> AccessPathResult list \<Rightarrow> bool" where
  "exact_paths t el en paths =
     (map access_node paths = access_names t \<and>
      (\<forall>p \<in> set paths. service_cost t (access_node p) [] [] = Inr (Some (baseline_cost p)) \<and>
         service_cost t (access_node p) el en = Inr (post_fault_cost p)))"

lemma prefixes_of_names:
  assumes wf: "wf_topology t" and d: "distinct names" and p: "prefixes_of t names = Inr ps"
  shows "ps = sort (concat (map node_prefixes (filter (\<lambda>n. node_name n \<in> set names) (topo_nodes t))))"
proof -
  obtain ns where ns: "list_all2 (\<lambda>x n. topo_node t x = Inr n) names ns"
    and ps: "ps = sort (concat (map node_prefixes ns))"
    using p by (auto simp: prefixes_of_def rbind_eq_Inr traverse_eq_Inr)
  have node: "n \<in> set (topo_nodes t) \<and> node_name n = x" if "topo_node t x = Inr n" for x n
    using that in_topo_nodes [OF wf] wf_node_name [OF wf] by (metis topo_node_Inr map_of_SomeD)
  have names: "map node_name ns = map (\<lambda>x. x) names"
    using ns by (rule list_all2_map_snd) (use node in blast)
  let ?fs = "filter (\<lambda>n. node_name n \<in> set names) (topo_nodes t)"
  have "set ns = set ?fs"
  proof (intro set_eqI iffI)
    fix n assume "n \<in> set ns"
    from list_all2_in_set2 [OF ns this] node show "n \<in> set ?fs" by auto
  next
    fix n assume "n \<in> set ?fs"
    then have "topo_node t (node_name n) = Inr n" "node_name n \<in> set names" using in_topo_nodes [OF wf] by auto
    with list_all2_in_set1 [OF ns] show "n \<in> set ns" by fastforce
  qed
  moreover have "distinct ns" using d names by (metis distinct_map map_ident)
  moreover have "distinct ?fs" using distinct_topo_nodes [OF wf] by (simp add: distinct_map)
  ultimately have "mset ns = mset ?fs" using set_eq_iff_mset_eq_distinct [of ns ?fs] by blast
  then have "mset (concat (map node_prefixes ns)) = mset (concat (map node_prefixes ?fs))"
    by (simp only: mset_concat mset_map map_map comp_def flip: sum_mset_sum_list)
  then show ?thesis unfolding ps by (metis sorted_list_of_multiset_mset)
qed

lemma cut_off_iff:
  "wf_topology t \<Longrightarrow> path_of t (set (service_names t)) f a p \<Longrightarrow>
   path_lost p \<longleftrightarrow> cut_off t (excluded_links f) (excluded_nodes f) a"
  unfolding cut_off_def by (rule path_of_lost)

lemma lengthened_iff:
  "path_of t (set (service_names t)) f a p \<Longrightarrow> path_longer p \<longleftrightarrow> lengthened t (excluded_links f) (excluded_nodes f) a"
  by (auto simp: path_of_def path_longer_def lengthened_def service_cost_def split: option.splits)

lemma result_exact:
  assumes wf: "wf_topology t" and res: "result_of t f s"
  shows "exact_result t (excluded_links f) (excluded_nodes f) (fr_service_impact s) (fr_affected_nodes s)
      (fr_affected_prefixes s)"
    and "exact_paths t (excluded_links f) (excluded_nodes f) (fr_paths s)"
proof -
  let ?path = "path_of t (set (service_names t)) f"
    and ?cut = "cut_off t (excluded_links f) (excluded_nodes f)"
    and ?grew = "lengthened t (excluded_links f) (excluded_nodes f)"
  have all: "list_all2 ?path (access_names t) (fr_paths s)"
    and impact: "fr_service_impact s = fault_impact (fr_paths s)"
    and nodes: "fr_affected_nodes s = affected_access (fr_paths s)"
    and prefixes: "prefixes_of t (fr_affected_nodes s) = Inr (fr_affected_prefixes s)"
    using res unfolding result_of_def by blast+
  note facts = cut_off_iff [OF wf] lengthened_iff
  have ex: "(\<exists>p \<in> set (fr_paths s). Q (access_node p) p) \<longleftrightarrow> (\<exists>a \<in> set (access_names t). R a)"
    if "\<And>a p. ?path a p \<Longrightarrow> Q a p \<longleftrightarrow> R a" for Q R
    using that list_all2_in_set1 [OF all] list_all2_in_set2 [OF all] by (metis path_of_def)
  have some: "(\<exists>p \<in> set (fr_paths s). path_lost p) \<longleftrightarrow> (\<exists>a \<in> set (access_names t). ?cut a)"
    "(\<exists>p \<in> set (fr_paths s). path_longer p) \<longleftrightarrow> (\<exists>a \<in> set (access_names t). ?grew a)"
    by (rule ex, rule facts, assumption)+
  have "a \<in> set (affected_access (fr_paths s)) \<longleftrightarrow> a \<in> set (access_names t) \<and> (?cut a \<or> ?grew a)" for a
    unfolding set_affected_access using ex [of "\<lambda>b p. b = a \<and> (path_lost p \<or> path_longer p)"
        "\<lambda>b. b = a \<and> (?cut b \<or> ?grew b)"] facts by blast
  then have "affected_access (fr_paths s) = sort (filter (\<lambda>a. ?cut a \<or> ?grew a) (access_names t))"
    using distinct_names_with_role [OF wf]
    by (intro sorted_distinct_set_unique) (auto simp: affected_access_def)
  moreover have "distinct (fr_affected_nodes s)" unfolding nodes by (simp add: affected_access_def)
  note prefixes_of_names [OF wf this prefixes]
  ultimately show "exact_result t (excluded_links f) (excluded_nodes f) (fr_service_impact s) (fr_affected_nodes s)
      (fr_affected_prefixes s)"
    unfolding exact_result_def impact fault_impact_cases nodes some using some by (intro conjI) blast+
  have "map access_node (fr_paths s) = map (\<lambda>a. a) (access_names t)"
    using all by (rule list_all2_map_snd) (simp add: path_of_def)
  then show "exact_paths t (excluded_links f) (excluded_nodes f) (fr_paths s)"
    using list_all2_in_set2 [OF all] by (fastforce simp: exact_paths_def path_of_def service_cost_def)
qed

text \<open>
  The audit runs without an error exactly when there is an access node, a service node
  and a scenario, scenario ids are distinct, every access node can walk to a service node
  before any fault, and every scenario names only links and nodes of the topology.
\<close>

theorem audit_accepts_exactly:
  assumes "mk_topology ns ls = Inr t"
  shows "(\<exists>r. audit_fault_scenarios t fs = Inr r) \<longleftrightarrow>
    access_names t \<noteq> [] \<and> service_names t \<noteq> [] \<and> fs \<noteq> [] \<and> distinct (map fault_id fs) \<and>
    (\<forall>a \<in> set (access_names t). \<exists>v \<in> set (service_names t). reachable t [] [] a v) \<and>
    (\<forall>f \<in> set fs. set (excluded_links f) \<subseteq> topo_ids t \<and> set (excluded_nodes f) \<subseteq> topo_names t)"
  using audit_accepts [OF mk_topology_wf [OF assms]] unfolding served_def fault_known_def by blast

definition lab_conduit_fault :: FaultScenario where
  "lab_conduit_fault =
     \<lparr>fault_id = ''srlg:conduit'', fault_kind = COMPOSITE,
      excluded_links = [''access1--agg1'', ''agg1--core1''], excluded_nodes = [''agg2'']\<rparr>"

definition lab_link_fault :: FaultScenario where
  "lab_link_fault =
     \<lparr>fault_id = ''link:agg1--core1'', fault_kind = LINK,
      excluded_links = [''agg1--core1''], excluded_nodes = []\<rparr>"

definition lab_audit :: FaultAuditResult where
  "lab_audit =
     \<lparr>audit_scenarios =
       [\<lparr>fr_fault = lab_link_fault, fr_service_impact = DEGRADED,
         fr_affected_nodes = [''access1''],
         fr_affected_prefixes = [''10.10.1.0/24''],
         fr_paths =
           [\<lparr>access_node = ''access1'', baseline_cost = 30, post_fault_cost = Some 140\<rparr>,
            \<lparr>access_node = ''access2'', baseline_cost = 50, post_fault_cost = Some 50\<rparr>]\<rparr>,
        \<lparr>fr_fault = lab_conduit_fault, fr_service_impact = OUTAGE,
         fr_affected_nodes = [''access1'', ''access2''],
         fr_affected_prefixes = [''10.10.1.0/24'', ''10.10.2.0/24''],
         fr_paths =
           [\<lparr>access_node = ''access1'', baseline_cost = 30, post_fault_cost = None\<rparr>,
            \<lparr>access_node = ''access2'', baseline_cost = 50, post_fault_cost = Some 230\<rparr>]\<rparr>]\<rparr>"

lemma lab_audit_run:
  "audit_fault_scenarios lab_topology [lab_link_fault, lab_conduit_fault] = Inr lab_audit"
  by code_simp

theorem audit_accepts_exactly_witness:
  "\<exists>v \<in> set (service_names lab_topology). reachable lab_topology [] [] ''access2'' v"
proof -
  have "''access2'' \<in> set (access_names lab_topology)" by code_simp
  moreover have "\<exists>r. audit_fault_scenarios lab_topology [lab_link_fault, lab_conduit_fault] = Inr r"
    using lab_audit_run by blast
  ultimately show ?thesis using audit_accepts_exactly [OF mk_lab_topology] by blast
qed

text \<open>
  C2: The audit reports one result per scenario, in order, and classifies it by the walks
  that survive: \<open>OUTAGE\<close> exactly when some access node is excluded or has no walk left to
  a remaining service node; \<open>DEGRADED\<close> exactly when none is lost but some least cost grew;
  and \<open>REDUNDANCY_REDUCED\<close> exactly when every access node keeps its cost.
\<close>

theorem audit_classifies:
  assumes t: "mk_topology ns ls = Inr t" and r: "audit_fault_scenarios t fs = Inr r"
    and s: "s \<in> set (audit_scenarios r)"
  defines "lost \<equiv> \<lambda>a. \<not> (a \<notin> set (excluded_nodes (fr_fault s)) \<and>
      (\<exists>v \<in> set (service_names t). v \<notin> set (excluded_nodes (fr_fault s)) \<and>
        reachable t (excluded_links (fr_fault s)) (excluded_nodes (fr_fault s)) a v))"
    and "cost \<equiv> \<lambda>a el en. shortest_distance_excluding t a (set (service_names t)) el en"
  defines "grew \<equiv> \<lambda>a. \<exists>b d. cost a [] [] = Inr (Some b) \<and> b < d \<and>
      cost a (excluded_links (fr_fault s)) (excluded_nodes (fr_fault s)) = Inr (Some d)"
  shows "map fr_fault (audit_scenarios r) = fs \<and>
    (fr_service_impact s = OUTAGE \<longleftrightarrow> (\<exists>a \<in> set (access_names t). lost a)) \<and>
    (fr_service_impact s = DEGRADED \<longleftrightarrow>
      \<not> (\<exists>a \<in> set (access_names t). lost a) \<and> (\<exists>a \<in> set (access_names t). grew a)) \<and>
    (fr_service_impact s = REDUNDANCY_REDUCED \<longleftrightarrow>
      \<not> (\<exists>a \<in> set (access_names t). lost a \<or> grew a)) \<and>
    sorted_wrt (<) (fr_affected_nodes s) \<and>
    set (fr_affected_nodes s) = {a \<in> set (access_names t). lost a \<or> grew a}"
proof -
  note wf = mk_topology_wf [OF t]
  let ?el = "excluded_links (fr_fault s)" and ?en = "excluded_nodes (fr_fault s)"
  have "map fr_fault (audit_scenarios r) = fs"
    using list_all2_map_snd [OF audit_results [OF r], of fr_fault "\<lambda>f. f"] by (simp add: result_of_def)
  moreover have "cut_off t ?el ?en = lost" "lengthened t ?el ?en = grew"
    by (simp_all add: fun_eq_iff cut_off_def lengthened_def service_cost_def lost_def grew_def cost_def)
  note exact = result_exact(1) [OF wf audit_result_in(1) [OF r s], unfolded exact_result_def this]
  have "sorted_wrt (<) (fr_affected_nodes s)" "set (fr_affected_nodes s) = {a \<in> set (access_names t). lost a \<or> grew a}"
    using exact distinct_names_with_role [OF wf] by (simp_all add: strict_sorted_iff)
  ultimately show ?thesis using exact by blast
qed

theorem audit_classifies_witness:
  "\<exists>a \<in> set (access_names lab_topology). \<not> (a \<notin> set [''agg2''] \<and>
     (\<exists>v \<in> set (service_names lab_topology). v \<notin> set [''agg2''] \<and>
        reachable lab_topology [''access1--agg1'', ''agg1--core1''] [''agg2''] a v))"
proof -
  have s: "audit_scenarios lab_audit ! 1 \<in> set (audit_scenarios lab_audit)"
    and o: "fr_service_impact (audit_scenarios lab_audit ! 1) = OUTAGE"
    and f: "fr_fault (audit_scenarios lab_audit ! 1) = lab_conduit_fault"
    by (simp_all add: lab_audit_def)
  from audit_classifies [OF mk_lab_topology lab_audit_run s] o
  have "\<exists>a \<in> set (access_names lab_topology). \<not> (a \<notin> set (excluded_nodes lab_conduit_fault) \<and>
     (\<exists>v \<in> set (service_names lab_topology). v \<notin> set (excluded_nodes lab_conduit_fault) \<and>
        reachable lab_topology (excluded_links lab_conduit_fault) (excluded_nodes lab_conduit_fault) a v))"
    unfolding f by blast
  then show ?thesis by (simp add: lab_conduit_fault_def del: set_map)
qed

text \<open>
  C4: A larger fault is at least as severe: between two scenarios of one audit where the
  second excludes everything the first does, the second's impact is no milder, every access
  node the first affects is affected by the second, and no path is cheaper than before.
\<close>

theorem audit_severity_monotone:
  assumes t: "mk_topology ns ls = Inr t" and r: "audit_fault_scenarios t fs = Inr r"
    and s: "s \<in> set (audit_scenarios r)" "s' \<in> set (audit_scenarios r)"
    and sub: "set (excluded_links (fr_fault s)) \<subseteq> set (excluded_links (fr_fault s'))"
      "set (excluded_nodes (fr_fault s)) \<subseteq> set (excluded_nodes (fr_fault s'))"
  shows "fr_service_impact s \<le> fr_service_impact s' \<and>
    set (fr_affected_nodes s) \<subseteq> set (fr_affected_nodes s') \<and>
    (\<forall>p \<in> set (fr_paths s). dist_le (Some (baseline_cost p)) (post_fault_cost p))"
proof (intro conjI)
  note wf = mk_topology_wf [OF t]
  have res: "result_of t (fr_fault s) s" "result_of t (fr_fault s') s'"
    using audit_result_in(1) [OF r] s by blast+
  let ?path = "path_of t (set (service_names t))"
  have le: "path_le p q" if "?path (fr_fault s) a p" "?path (fr_fault s') a q" for a p q
    using that dijkstra.dist_mono [OF wf sub] by (auto simp: path_of_def path_le_def)
  have "list_all2 path_le (fr_paths s) (fr_paths s')"
    using res le unfolding result_of_def list_all2_conv_all_nth by metis
  then show "fr_service_impact s \<le> fr_service_impact s'"
    and "set (fr_affected_nodes s) \<subseteq> set (fr_affected_nodes s')"
    using res fault_impact_mono affected_access_mono by (simp_all add: result_of_def)
  show "\<forall>p \<in> set (fr_paths s). dist_le (Some (baseline_cost p)) (post_fault_cost p)"
    using result_paths [OF res(1)] dijkstra.baseline_least [OF wf] unfolding path_of_def by blast
qed

theorem audit_severity_monotone_witness: "DEGRADED \<le> OUTAGE"
proof -
  have s: "audit_scenarios lab_audit ! 0 \<in> set (audit_scenarios lab_audit)"
    "audit_scenarios lab_audit ! 1 \<in> set (audit_scenarios lab_audit)"
    and i: "fr_service_impact (audit_scenarios lab_audit ! 0) = DEGRADED"
    "fr_service_impact (audit_scenarios lab_audit ! 1) = OUTAGE"
    by (simp_all add: lab_audit_def)
  show ?thesis
    using audit_severity_monotone [OF mk_lab_topology lab_audit_run s] unfolding i
    by (simp add: lab_audit_def lab_link_fault_def lab_conduit_fault_def)
qed

text \<open>
  The verdict and the counters: the audit passes exactly when under every scenario every
  access node still walks to a remaining service node, and the three impact counters add up
  to the number of scenarios given.
\<close>

theorem audit_verdict:
  assumes t: "mk_topology ns ls = Inr t" and r: "audit_fault_scenarios t fs = Inr r"
  shows "(passes_n_minus_one r \<longleftrightarrow>
    (\<forall>f \<in> set fs. \<forall>a \<in> set (access_names t). a \<notin> set (excluded_nodes f) \<and>
       (\<exists>v \<in> set (service_names t). v \<notin> set (excluded_nodes f) \<and>
          reachable t (excluded_links f) (excluded_nodes f) a v))) \<and>
    count_impact r OUTAGE + count_impact r DEGRADED + count_impact r REDUNDANCY_REDUCED = length fs"
proof (intro conjI)
  note wf = mk_topology_wf [OF t]
  note results = audit_results [OF r]
  have "passes_n_minus_one r \<longleftrightarrow> (\<forall>s \<in> set (audit_scenarios r). fr_service_impact s \<noteq> OUTAGE)"
    unfolding passes_n_minus_one_def count_impact_def sum_list_bool_eq_0 ..
  also have "\<dots> \<longleftrightarrow> (\<forall>s \<in> set (audit_scenarios r). \<forall>p \<in> set (fr_paths s). \<not> path_lost p)"
    using audit_result_in(1) [OF r] by (auto simp: result_of_def fault_impact_cases)
  also have "\<dots> \<longleftrightarrow> (\<forall>f \<in> set fs. \<forall>a \<in> set (access_names t). a \<notin> set (excluded_nodes f) \<and>
       (\<exists>v \<in> set (service_names t). v \<notin> set (excluded_nodes f) \<and>
          reachable t (excluded_links f) (excluded_nodes f) a v))" (is "?L \<longleftrightarrow> ?R")
  proof
    assume L: ?L
    show ?R
    proof (intro ballI)
      fix f a assume fa: "f \<in> set fs" "a \<in> set (access_names t)"
      from list_all2_in_set1 [OF results fa(1)] obtain s where
        s: "s \<in> set (audit_scenarios r)" "result_of t f s" by blast
      then obtain p where p: "p \<in> set (fr_paths s)" "path_of t (set (service_names t)) f a p"
        using list_all2_in_set1 fa(2) unfolding result_of_def by metis
      from path_of_lost [OF wf p(2)] L s(1) p(1)
      show "a \<notin> set (excluded_nodes f) \<and> (\<exists>v \<in> set (service_names t). v \<notin> set (excluded_nodes f) \<and>
          reachable t (excluded_links f) (excluded_nodes f) a v)" by blast
    qed
  next
    assume R: ?R
    show ?L
    proof (intro ballI)
      fix s p assume s: "s \<in> set (audit_scenarios r)" and p: "p \<in> set (fr_paths s)"
      note path = p [unfolded result_paths [OF audit_result_in(1) [OF r s]]]
      from path_of_lost [OF wf conjunct2 [OF path]] R audit_result_in(2) [OF r s] path
      show "\<not> path_lost p" by blast
    qed
  qed
  finally show "passes_n_minus_one r \<longleftrightarrow> ?R" .
  have "sum_list (map (\<lambda>s. if fr_service_impact s = OUTAGE then 1 else 0) ss) +
      sum_list (map (\<lambda>s. if fr_service_impact s = DEGRADED then 1 else 0) ss) +
      sum_list (map (\<lambda>s. if fr_service_impact s = REDUNDANCY_REDUCED then 1 else 0) ss) = length ss"
    for ss :: "FaultScenarioResult list"
  proof (induction ss)
    case (Cons s ss)
    then show ?case by (cases "fr_service_impact s") simp_all
  qed simp
  then show "count_impact r OUTAGE + count_impact r DEGRADED + count_impact r REDUNDANCY_REDUCED = length fs"
    using list_all2_lengthD [OF results] by (simp add: count_impact_def)
qed

theorem audit_verdict_witness:
  "\<not> passes_n_minus_one lab_audit \<and>
   count_impact lab_audit OUTAGE + count_impact lab_audit DEGRADED +
     count_impact lab_audit REDUNDANCY_REDUCED = 2"
  using audit_verdict [OF mk_lab_topology lab_audit_run]
  by (simp add: passes_n_minus_one_def count_impact_def lab_audit_def)

end
