(* ===== verification/Json_Value.thy ===== *)
theory Json_Value
  imports Sentinel_Prelude Complex_Main
begin

text \<open>
  The documents the program reads and writes: the values \<open>json.loads\<close> returns and the
  dictionaries the evidence builders return. A Python \<open>float\<close> is a rational; \<open>int\<close>,
  \<open>bool\<close> and \<open>float\<close> are told apart, as the type checks of the sources do.
\<close>

datatype json =
    JNull
  | JBool bool
  | JInt int
  | JFloat rat
  | JString string
  | JArray "json list"
  | JObject "(string \<times> json) list"

text \<open>\<open>mapping.get(key)\<close>: \<open>None\<close> (here \<open>JNull\<close>) when the key is absent.\<close>

definition jget :: "string \<Rightarrow> (string \<times> json) list \<Rightarrow> json" where
  "jget k d = (case map_of d k of None \<Rightarrow> JNull | Some v \<Rightarrow> v)"

text \<open>A number: an \<open>int\<close> or a \<open>float\<close>, but not a \<open>bool\<close>.\<close>

fun jnumber :: "json \<Rightarrow> rat option" where
  "jnumber (JInt i) = Some (of_int i)"
| "jnumber (JFloat r) = Some r"
| "jnumber _ = None"

fun jint :: "json \<Rightarrow> int option" where
  "jint (JInt i) = Some i"
| "jint _ = None"

fun jstring :: "json \<Rightarrow> string option" where
  "jstring (JString s) = Some s"
| "jstring _ = None"

fun jobject :: "json \<Rightarrow> (string \<times> json) list option" where
  "jobject (JObject d) = Some d"
| "jobject _ = None"

fun jarray :: "json \<Rightarrow> json list option" where
  "jarray (JArray xs) = Some xs"
| "jarray _ = None"

definition jstrings :: "string list \<Rightarrow> json" where
  "jstrings xs = JArray (map JString xs)"

lemma jnumber_Some: "jnumber j = Some r \<longleftrightarrow> (\<exists>i. j = JInt i \<and> r = of_int i) \<or> j = JFloat r"
  by (cases j) auto

end
