(* ===== verification/Link_Impact.thy ===== *)
theory Link_Impact
  imports Fault_Audit Json_Value
begin

text \<open>
  \<open>impact.py\<close> and \<open>evidence.py\<close>: the analysis of a \<open>link_down\<close> event and the simulated
  evidence document built from it. The analysis recomputes for one link what the audit of
  theory \<open>Fault_Audit\<close> computes for a scenario; the two are shown to agree.
\<close>

section \<open>analyze_link_down\<close>

type_synonym cost_change = "string \<times> int \<times> int option"

definition path_change :: "Topology \<Rightarrow> string set \<Rightarrow> string \<Rightarrow> string \<Rightarrow> cost_change result" where
  "path_change t services failed access =
     rbind (shortest_distance t access services None None) (\<lambda>before.
     rbind (shortest_distance t access services (Some failed) None) (\<lambda>after.
       case before of
         None \<Rightarrow> Inl (ValueError (''access node has no baseline service path: '' @ access))
       | Some b \<Rightarrow> Inr (access, b, after)))"

definition change_text :: "cost_change \<Rightarrow> string option" where
  "change_text c =
     (case c of (access, before, after) \<Rightarrow>
        (case after of
           None \<Rightarrow> Some (''shortest service path lost: '' @ access @ '' '' @ int_str before @ ''->unreachable'')
         | Some a \<Rightarrow>
             if before < a
             then Some (''shortest service path cost changed: '' @ access @ '' '' @ int_str before @ ''->'' @ int_str a)
             else None))"

definition analyze_link_down :: "Topology \<Rightarrow> NetworkEvent \<Rightarrow> ImpactAnalysis result" where
  "analyze_link_down t event =
     rbind (ensure (event_type event = ''link_down'') (''unsupported event type: '' @ event_type event)) (\<lambda>_.
     rbind (topo_link t (event_link_id event)) (\<lambda>failed_link.
     rbind (ensure (service_names t \<noteq> []) ''topology must define at least one service node'') (\<lambda>_.
     rbind (traverse (path_change t (set (service_names t)) (link_id failed_link)) (access_names t)) (\<lambda>changes.
       let unavailable = map fst (filter (\<lambda>(_, _, after). after = None) changes);
           affected = map fst (filter (\<lambda>c. change_text c \<noteq> None) changes);
           impact = (if unavailable \<noteq> [] then OUTAGE
                     else if affected \<noteq> [] then DEGRADED
                     else REDUNDANCY_REDUCED);
           path_evidence = (if unavailable \<noteq> [] then ''no alternate service path''
                     else if affected \<noteq> [] then ''alternate service path available''
                     else ''active shortest path unchanged'');
           affected_nodes = sort (remdups affected)
       in rbind (prefixes_of t affected_nodes) (\<lambda>prefixes.
            Inr \<lparr>failed_component = link_id failed_link,
              ia_evidence = (''link_down observed on '' @ link_id failed_link) # path_evidence #
                List.map_filter change_text changes,
              ia_affected_nodes = affected_nodes,
              ia_affected_prefixes = prefixes,
              ia_service_impact = impact\<rparr>)))))"

section \<open>Simulated evidence\<close>

definition build_simulated_evidence :: "Topology \<Rightarrow> NetworkEvent \<Rightarrow> json result" where
  "build_simulated_evidence t event =
     rbind (analyze_link_down t event) (\<lambda>analysis.
       Inr (JObject
         [(''scenario'', JString ''access_uplink_failure''),
          (''source'', JString ''scenario_injected_event''),
          (''measured'', JBool False),
          (''failed_link'', JString (event_link_id event)),
          (''observed_at'', JString (isoformat (event_observed_at event))),
          (''analysis'', JObject
            [(''failed_component'', JString (failed_component analysis)),
             (''evidence'', jstrings (ia_evidence analysis)),
             (''affected_nodes'', jstrings (ia_affected_nodes analysis)),
             (''affected_prefixes'', jstrings (ia_affected_prefixes analysis)),
             (''service_impact'', JString (impact_value (ia_service_impact analysis)))]),
          (''recovery'', JObject
            [(''action'', JString ''restore_link''),
             (''target'', JString (failed_component analysis)),
             (''status'', JString ''awaiting_approval'')])]))"

section \<open>Agreement with the audit\<close>

definition change_path :: "cost_change \<Rightarrow> AccessPathResult" where
  "change_path c =
     (case c of (a, b, d) \<Rightarrow> \<lparr>access_node = a, baseline_cost = b, post_fault_cost = d\<rparr>)"

lemma change_text_path:
  "change_text c \<noteq> None \<longleftrightarrow> path_lost (change_path c) \<or> path_longer (change_path c)"
  by (auto simp: change_text_def change_path_def path_lost_def path_longer_def split: prod.splits option.splits)

lemma path_change_Inr:
  "path_change t S l a = Inr c \<longleftrightarrow>
   path_of t S \<lparr>fault_id = i, fault_kind = LINK, excluded_links = [l], excluded_nodes = []\<rparr> a (change_path c)"
  by (cases c)
    (auto simp: path_change_def path_of_def change_path_def shortest_distance_def rbind_eq_Inr
      split: option.splits)

definition link_fault :: "string \<Rightarrow> FaultScenario" where
  "link_fault l =
     \<lparr>fault_id = ''link:'' @ l, fault_kind = LINK, excluded_links = [l], excluded_nodes = []\<rparr>"

lemma map_inj_paths: "map change_path cs = map change_path cs' \<Longrightarrow> cs = cs'"
  by (rule map_injective) (auto simp: inj_def change_path_def)

lemma changes_of_paths:
  assumes "list_all2 (path_of t S (link_fault l)) as ps"
  shows "\<exists>cs. traverse (path_change t S l) as = Inr cs \<and> map change_path cs = ps"
proof -
  let ?cs = "map (\<lambda>p. (access_node p, baseline_cost p, post_fault_cost p)) ps"
  have id: "change_path (access_node p, baseline_cost p, post_fault_cost p) = p" for p
    by (simp add: change_path_def)
  have "list_all2 (\<lambda>a c. path_change t S l a = Inr c) as ?cs"
    using assms unfolding list_all2_conv_all_nth path_change_Inr [of t S l _ _ "''link:'' @ l"]
    by (simp add: id link_fault_def)
  then show ?thesis unfolding traverse_eq_Inr [symmetric] by (auto simp: id map_idI)
qed

lemma analysis_of_result:
  assumes wf: "wf_topology t" and s: "result_of t (link_fault (event_link_id ev)) s"
    and ev: "event_type ev = ''link_down''" and service: "service_names t \<noteq> []"
  shows "\<exists>an. analyze_link_down t ev = Inr an \<and> failed_component an = event_link_id ev \<and>
    ia_service_impact an = fr_service_impact s \<and> ia_affected_nodes an = fr_affected_nodes s \<and>
    ia_affected_prefixes an = fr_affected_prefixes s"
proof -
  have known: "event_link_id ev \<in> topo_ids t"
    using s by (simp add: result_of_def fault_known_def link_fault_def)
  then obtain l where l: "topo_link t (event_link_id ev) = Inr l" using topo_link_known by blast
  then have id: "link_id l = event_link_id ev" using wf_link_id [OF wf] topo_link_Inr by blast
  obtain cs where cs: "traverse (path_change t (set (service_names t)) (event_link_id ev)) (access_names t) = Inr cs"
    "map change_path cs = fr_paths s"
    using s changes_of_paths unfolding result_of_def by blast
  have fst: "fst c = access_node (change_path c)" for c
    by (simp add: change_path_def split: prod.splits)
  have lost: "(case c of (_, _, after) \<Rightarrow> after = None) \<longleftrightarrow> path_lost (change_path c)" for c
    by (auto simp: change_path_def path_lost_def split: prod.splits)
  have unavailable: "map fst (filter (\<lambda>(_, _, after). after = None) cs) = [] \<longleftrightarrow>
      \<not> (\<exists>p \<in> set (fr_paths s). path_lost p)"
    unfolding cs(2) [symmetric] by (auto simp: filter_empty_conv lost [symmetric])
  have affected: "map fst (filter (\<lambda>c. change_text c \<noteq> None) cs) = [] \<longleftrightarrow>
      \<not> (\<exists>p \<in> set (fr_paths s). path_lost p \<or> path_longer p)"
    unfolding cs(2) [symmetric] change_text_path by (auto simp: filter_empty_conv)
  have nodes: "sort (remdups (map fst (filter (\<lambda>c. change_text c \<noteq> None) cs))) = affected_access (fr_paths s)"
    unfolding affected_access_def cs(2) [symmetric]
    by (rule sorted_distinct_set_unique) (auto simp: change_text_path [unfolded not_None_eq] fst)
  let ?impact = "if map fst (filter (\<lambda>(_, _, after). after = None) cs) \<noteq> [] then OUTAGE
    else if map fst (filter (\<lambda>c. change_text c \<noteq> None) cs) \<noteq> [] then DEGRADED else REDUNDANCY_REDUCED"
  have impact: "?impact = fr_service_impact s"
  proof -
    have "fr_service_impact s = fault_impact (fr_paths s)" using s by (simp add: result_of_def)
    then show ?thesis
      unfolding unavailable affected by (auto simp: fault_impact_def Let_def filter_empty_conv)
  qed
  have prefixes: "prefixes_of t (sort (remdups (map fst (filter (\<lambda>c. change_text c \<noteq> None) cs)))) =
      Inr (fr_affected_prefixes s)"
    using s unfolding nodes result_of_def by metis
  show ?thesis
    unfolding analyze_link_down_def l rbind_simps id cs(1) Let_def prefixes impact
    using ev service nodes s by (simp add: result_of_def)
qed

definition lab_instant :: datetime where
  "lab_instant = \<lparr>dt_year = 2026, dt_month = 1, dt_day = 2, dt_hour = 3, dt_minute = 4,
     dt_second = 5, dt_microsecond = 0, dt_offset = Some 0\<rparr>"

definition lab_link_down :: NetworkEvent where
  "lab_link_down = \<lparr>event_link_id = ''agg1--core1'', event_type = ''link_down'',
     event_observed_at = lab_instant\<rparr>"

definition lab_analysis :: ImpactAnalysis where
  "lab_analysis =
     \<lparr>failed_component = ''agg1--core1'',
      ia_evidence = [''link_down observed on agg1--core1'', ''alternate service path available'',
        ''shortest service path cost changed: access1 30->140''],
      ia_affected_nodes = [''access1''], ia_affected_prefixes = [''10.10.1.0/24''],
      ia_service_impact = DEGRADED\<rparr>"

lemma lab_changes:
  "traverse (path_change lab_topology (set (service_names lab_topology)) ''agg1--core1'')
     (access_names lab_topology) = Inr [(''access1'', 30, Some 140), (''access2'', 50, Some 50)]"
  by code_simp

lemma lab_change_texts:
  "change_text (''access1'', 30, Some 140) = Some ''shortest service path cost changed: access1 30->140''"
  "change_text (''access2'', 50, Some 50) = None"
  by code_simp+

lemma lab_analysis_run: "analyze_link_down lab_topology lab_link_down = Inr lab_analysis"
proof -
  have l: "topo_link lab_topology ''agg1--core1'' = Inr (lab_links ! 4)" "link_id (lab_links ! 4) = ''agg1--core1''"
    "service_names lab_topology \<noteq> []" "prefixes_of lab_topology [''access1''] = Inr [''10.10.1.0/24'']"
    by code_simp+
  show ?thesis
    by (simp add: analyze_link_down_def lab_link_down_def l lab_changes lab_change_texts lab_analysis_def
        map_filter_simps)
qed

text \<open>
  C19: The incident analysis of a \<open>link_down\<close> event agrees with the audit of the same link's
  failure: whenever the audit of the scenario \<open>link:<id>\<close> succeeds, the analysis succeeds
  with the same impact, affected nodes and affected prefixes.
\<close>

theorem analysis_agrees_with_audit:
  assumes "mk_topology ns ls = Inr t"
    and "audit_fault_scenarios t [link_fault (event_link_id ev)] = Inr r"
    and "event_type ev = ''link_down''"
  shows "\<exists>s an. audit_scenarios r = [s] \<and> analyze_link_down t ev = Inr an \<and>
    failed_component an = event_link_id ev \<and> ia_service_impact an = fr_service_impact s \<and>
    ia_affected_nodes an = fr_affected_nodes s \<and> ia_affected_prefixes an = fr_affected_prefixes s"
proof -
  note wf = mk_topology_wf [OF assms(1)]
  obtain s where s: "audit_scenarios r = [s]" "result_of t (link_fault (event_link_id ev)) s"
    using audit_results [OF assms(2)] by (auto simp: list_all2_Cons1)
  have "service_names t \<noteq> []" using assms(2) by (simp add: audit_Inr)
  from analysis_of_result [OF wf s(2) assms(3) this] s(1) show ?thesis by blast
qed

theorem analysis_agrees_with_audit_witness:
  "\<exists>an. analyze_link_down lab_topology lab_link_down = Inr an \<and> ia_affected_nodes an = [''access1'']"
proof -
  have r: "audit_fault_scenarios lab_topology [link_fault (event_link_id lab_link_down)] =
      Inr \<lparr>audit_scenarios = [audit_scenarios lab_audit ! 0]\<rparr>"
    by code_simp
  have "event_type lab_link_down = ''link_down''" by (simp add: lab_link_down_def)
  from analysis_agrees_with_audit [OF mk_lab_topology r this] show ?thesis
    by (auto simp: lab_audit_def)
qed

end
