(* ===== verification/Incident_Service.thy ===== *)
theory Incident_Service
  imports Link_Impact
begin

text \<open>
  \<open>recovery.py\<close> and \<open>service.py\<close>: recovery plans and their approval, and the incident
  service: an insertion-ordered store of incidents with an index from fingerprints to the
  newest incident and the time the fingerprint was last seen. The clock reading, the hash,
  the random part of an id and the creation time are arguments. The objects the service
  returns are the stored ones; a later approval of the stored incident is the update of the
  store made here.
\<close>

section \<open>Recovery plans\<close>

definition create_recovery_plan :: "Topology \<Rightarrow> string \<Rightarrow> string \<Rightarrow> string \<Rightarrow> RecoveryPlan result" where
  "create_recovery_plan t inc_id action target =
     rbind (ensure (action = ''restore_link'') ''action is not allowed'') (\<lambda>_.
     rbind (topo_link t target) (\<lambda>_.
       Inr \<lparr>plan_incident_id = inc_id, plan_action = action, plan_target = target,
         plan_status = AWAITING_APPROVAL\<rparr>))"

definition approve_recovery :: "RecoveryPlan \<Rightarrow> RecoveryPlan result" where
  "approve_recovery plan =
     rbind (ensure (plan_status plan = AWAITING_APPROVAL) ''recovery plan is not awaiting approval'') (\<lambda>_.
       Inr (plan\<lparr>plan_status := APPROVED\<rparr>))"

section \<open>The service\<close>

record IncidentService =
  svc_topology :: Topology
  dedup_window :: rat
  max_incidents :: int
  incidents :: "Incident dict"
  incident_id_by_fingerprint :: "string dict"
  last_seen_by_fingerprint :: "rat dict"

definition mk_service :: "Topology \<Rightarrow> rat \<Rightarrow> int \<Rightarrow> IncidentService result" where
  "mk_service t window limit =
     rbind (ensure (0 < window) ''dedup window must be positive'') (\<lambda>_.
     rbind (ensure (0 < limit) ''max incidents must be positive'') (\<lambda>_.
       Inr \<lparr>svc_topology = t, dedup_window = window, max_incidents = limit, incidents = [],
         incident_id_by_fingerprint = [], last_seen_by_fingerprint = []\<rparr>))"

definition event_fingerprint :: "(string \<Rightarrow> string) \<Rightarrow> NetworkEvent \<Rightarrow> string" where
  "event_fingerprint sha event = sha (event_type event @ '':'' @ event_link_id event)"

text \<open>The eviction loop: the oldest incidents go until the bound is met.\<close>

fun evict :: "int \<Rightarrow> Incident dict \<Rightarrow> string dict \<Rightarrow> rat dict \<Rightarrow>
    (Incident dict \<times> string dict \<times> rat dict) result" where
  "evict limit [] ids seen = Inr ([], ids, seen)"
| "evict limit ((evicted_id, evicted) # rest) ids seen =
     (if int (length ((evicted_id, evicted) # rest)) \<le> limit
      then Inr ((evicted_id, evicted) # rest, ids, seen)
      else if map_of ids (incident_fingerprint evicted) = Some evicted_id
      then
        (if map_of seen (incident_fingerprint evicted) = None
         then Inl (KeyError (incident_fingerprint evicted))
         else evict limit rest (dict_del (incident_fingerprint evicted) ids)
                (dict_del (incident_fingerprint evicted) seen))
      else evict limit rest ids seen)"

definition new_incident ::
  "(string \<Rightarrow> string) \<Rightarrow> rat \<Rightarrow> string \<Rightarrow> datetime \<Rightarrow> NetworkEvent \<Rightarrow> IncidentService \<Rightarrow>
   (Incident \<times> IncidentService) result" where
  "new_incident sha received_at uuid_hex now event s =
     (let fp = event_fingerprint sha event; inc_id = ''inc-'' @ uuid_hex
      in rbind (analyze_link_down (svc_topology s) event) (\<lambda>analysis.
         rbind (create_recovery_plan (svc_topology s) inc_id ''restore_link'' (failed_component analysis)) (\<lambda>plan.
           let inc = \<lparr>incident_id = inc_id, incident_fingerprint = fp, incident_event = event,
                 incident_analysis = analysis, recovery_plan = plan, incident_created_at = now\<rparr>
           in rbind (evict (max_incidents s) (dict_set inc_id inc (incidents s))
                (dict_set fp inc_id (incident_id_by_fingerprint s))
                (dict_set fp received_at (last_seen_by_fingerprint s))) (\<lambda>(incs, ids, seen).
              Inr (inc, s\<lparr>incidents := incs, incident_id_by_fingerprint := ids,
                last_seen_by_fingerprint := seen\<rparr>)))))"

definition ingest ::
  "(string \<Rightarrow> string) \<Rightarrow> rat \<Rightarrow> string \<Rightarrow> datetime \<Rightarrow> NetworkEvent \<Rightarrow> IncidentService \<Rightarrow>
   (Incident \<times> IncidentService) result" where
  "ingest sha received_at uuid_hex now event s =
     (let fp = event_fingerprint sha event
      in case map_of (incident_id_by_fingerprint s) fp of
           None \<Rightarrow> new_incident sha received_at uuid_hex now event s
         | Some existing_id \<Rightarrow>
             (case map_of (incidents s) existing_id of
                None \<Rightarrow> Inl (KeyError existing_id)
              | Some existing \<Rightarrow>
                  (case map_of (last_seen_by_fingerprint s) fp of
                     None \<Rightarrow> Inl (KeyError fp)
                   | Some last_seen \<Rightarrow>
                       (let elapsed = received_at - last_seen
                        in if plan_status (recovery_plan existing) = AWAITING_APPROVAL \<and>
                              0 \<le> elapsed \<and> elapsed \<le> dedup_window s
                           then Inr (existing, s\<lparr>last_seen_by_fingerprint :=
                                  dict_set fp received_at (last_seen_by_fingerprint s)\<rparr>)
                           else new_incident sha received_at uuid_hex now event s))))"

definition get_incident :: "string \<Rightarrow> IncidentService \<Rightarrow> Incident result" where
  "get_incident i s =
     (case map_of (incidents s) i of
        None \<Rightarrow> Inl (KeyError (''incident not found: '' @ i))
      | Some inc \<Rightarrow> Inr inc)"

definition approve :: "string \<Rightarrow> IncidentService \<Rightarrow> (Incident \<times> IncidentService) result" where
  "approve i s =
     rbind (get_incident i s) (\<lambda>inc.
     rbind (approve_recovery (recovery_plan inc)) (\<lambda>plan.
       let inc' = inc\<lparr>recovery_plan := plan\<rparr>
       in Inr (inc', s\<lparr>incidents := dict_set i inc' (incidents s)\<rparr>)))"

section \<open>The invariant\<close>

text \<open>A stored incident is what \<open>ingest\<close> makes of its event, approved or not.\<close>

definition incident_ok :: "(string \<Rightarrow> string) \<Rightarrow> Topology \<Rightarrow> string \<Rightarrow> Incident \<Rightarrow> bool" where
  "incident_ok sha t i inc =
     (incident_id inc = i \<and> incident_fingerprint inc = event_fingerprint sha (incident_event inc) \<and>
      analyze_link_down t (incident_event inc) = Inr (incident_analysis inc) \<and>
      (\<exists>status \<in> {AWAITING_APPROVAL, APPROVED}. recovery_plan inc =
         \<lparr>plan_incident_id = i, plan_action = ''restore_link'',
          plan_target = failed_component (incident_analysis inc), plan_status = status\<rparr>))"

text \<open>
  The index maps a fingerprint to the newest stored incident that has it, and to nothing
  else; both indexes know the same fingerprints.
\<close>

definition newest :: "Incident dict \<Rightarrow> string \<Rightarrow> string option" where
  "newest incs fp =
     foldl (\<lambda>r (i, inc). if incident_fingerprint inc = fp then Some i else r) None incs"

definition service_ok :: "(string \<Rightarrow> string) \<Rightarrow> IncidentService \<Rightarrow> bool" where
  "service_ok sha s =
     (wf_topology (svc_topology s) \<and> 0 < dedup_window s \<and> 0 < max_incidents s \<and>
      int (length (incidents s)) \<le> max_incidents s \<and> distinct (dict_keys (incidents s)) \<and>
      (\<forall>(i, inc) \<in> set (incidents s). incident_ok sha (svc_topology s) i inc) \<and>
      map_of (incident_id_by_fingerprint s) = newest (incidents s) \<and>
      dom (map_of (last_seen_by_fingerprint s)) = dom (map_of (incident_id_by_fingerprint s)))"

lemma newest_append [simp]:
  "newest (incs @ [(i, inc)]) = (newest incs)(incident_fingerprint inc \<mapsto> i)"
  by (rule ext) (simp add: newest_def)

lemma newest_Nil [simp]: "newest [] = Map.empty"
  by (rule ext) (simp add: newest_def)

lemma newest_Some: "newest incs fp = Some i \<Longrightarrow> \<exists>inc. (i, inc) \<in> set incs \<and> incident_fingerprint inc = fp"
proof (induction incs rule: rev_induct)
  case (snoc p incs)
  then show ?case by (cases p) (auto split: if_splits)
qed simp

text \<open>Dropping the oldest incident.\<close>

lemma newest_foldl:
  "foldl (\<lambda>r (i, inc). if incident_fingerprint inc = fp then Some i else r) r incs =
   (case newest incs fp of None \<Rightarrow> r | Some i \<Rightarrow> Some i)"
proof (induction incs rule: rev_induct)
  case (snoc p incs)
  then show ?case by (cases p) (simp add: newest_def split: option.splits)
qed simp

lemma newest_Cons:
  "newest ((i, inc) # incs) fp =
   (case newest incs fp of
      None \<Rightarrow> if incident_fingerprint inc = fp then Some i else None
    | Some j \<Rightarrow> Some j)"
  using newest_foldl [of fp "if incident_fingerprint inc = fp then Some i else None" incs]
  by (simp add: newest_def)

lemma newest_tail:
  assumes "distinct (map fst ((i, inc) # incs))"
  shows "newest incs = (if newest ((i, inc) # incs) (incident_fingerprint inc) = Some i
    then (newest ((i, inc) # incs))(incident_fingerprint inc := None)
    else newest ((i, inc) # incs))"
proof -
  have "newest incs fp \<noteq> Some i" for fp
    using newest_Some [of incs fp i] assms by force
  then show ?thesis by (rule_tac ext) (auto simp: newest_Cons split: option.splits)
qed

text \<open>
  The eviction loop keeps the newest incidents, and the indexes follow. It never fails.
\<close>

lemma evict_eq:
  assumes "distinct (dict_keys incs)" "map_of ids = newest incs" "dom (map_of seen) = dom (map_of ids)"
    and "0 \<le> limit"
  shows "\<exists>ids' seen'. evict limit incs ids seen = Inr (drop (length incs - nat limit) incs, ids', seen') \<and>
    map_of ids' = newest (drop (length incs - nat limit) incs) \<and>
    dom (map_of seen') = dom (map_of ids')"
  using assms
proof (induction limit incs ids seen rule: evict.induct)
  case (2 limit i inc rest ids seen)
  note [simp] = delete_conv'
  let ?fp = "incident_fingerprint inc"
  have tail: "newest rest = (if map_of ids ?fp = Some i then (map_of ids)(?fp := None) else map_of ids)"
    using newest_tail [of i inc rest] "2.prems"(1,2) by simp
  have dist: "distinct (dict_keys rest)" using "2.prems"(1) by simp
  show ?case
  proof (cases "int (length ((i, inc) # rest)) \<le> limit")
    case True
    then show ?thesis using "2.prems" by simp
  next
    case over: False
    then have drop: "drop (length ((i, inc) # rest) - nat limit) ((i, inc) # rest) =
        drop (length rest - nat limit) rest"
      using "2.prems"(4) by (simp add: Suc_diff_le)
    show ?thesis
    proof (cases "map_of ids ?fp = Some i")
      case True
      then have seen: "map_of seen ?fp \<noteq> None" using "2.prems"(3) by blast
      have ids: "map_of (dict_del ?fp ids) = newest rest" using tail True by simp
      have doms: "dom (map_of (dict_del ?fp seen)) = dom (map_of (dict_del ?fp ids))"
        using "2.prems"(3) by (auto simp: dom_def)
      from "2.IH"(1) [OF over True seen dist ids doms "2.prems"(4)] over True seen
      show ?thesis unfolding drop by simp
    next
      case False
      then show ?thesis
        using "2.IH"(2) [OF over False dist] tail "2.prems"(3,4) over unfolding drop by simp
    qed
  qed
qed simp

section \<open>The operations keep it\<close>

lemma analyzed_component:
  assumes "wf_topology t" "analyze_link_down t ev = Inr an"
  shows "failed_component an = event_link_id ev" "\<exists>l. topo_link t (failed_component an) = Inr l"
proof -
  obtain l where l: "topo_link t (event_link_id ev) = Inr l" and c: "failed_component an = link_id l"
    using assms(2) by (auto simp: analyze_link_down_def rbind_eq_Inr Let_def)
  have "link_id l = event_link_id ev" using l wf_link_id [OF assms(1)] topo_link_Inr by blast
  with l c show "failed_component an = event_link_id ev" "\<exists>l. topo_link t (failed_component an) = Inr l"
    by auto
qed

text \<open>The incident \<open>ingest\<close> builds.\<close>

definition fresh_incident ::
  "(string \<Rightarrow> string) \<Rightarrow> string \<Rightarrow> datetime \<Rightarrow> NetworkEvent \<Rightarrow> ImpactAnalysis \<Rightarrow> Incident" where
  "fresh_incident sha uuid_hex now ev an =
     \<lparr>incident_id = ''inc-'' @ uuid_hex, incident_fingerprint = event_fingerprint sha ev,
      incident_event = ev, incident_analysis = an,
      recovery_plan = \<lparr>plan_incident_id = ''inc-'' @ uuid_hex, plan_action = ''restore_link'',
        plan_target = failed_component an, plan_status = AWAITING_APPROVAL\<rparr>,
      incident_created_at = now\<rparr>"

definition bounded :: "int \<Rightarrow> 'a list \<Rightarrow> 'a list" where
  "bounded limit xs = drop (length xs - nat limit) xs"

lemma new_incident_ok:
  assumes ok: "service_ok sha s" and an: "analyze_link_down (svc_topology s) ev = Inr an"
    and fresh: "''inc-'' @ uuid_hex \<notin> set (dict_keys (incidents s))"
  shows "\<exists>s'. new_incident sha received_at uuid_hex now ev s =
      Inr (fresh_incident sha uuid_hex now ev an, s') \<and>
    service_ok sha s' \<and> svc_topology s' = svc_topology s \<and> dedup_window s' = dedup_window s \<and>
    max_incidents s' = max_incidents s \<and>
    incidents s' = bounded (max_incidents s)
      (incidents s @ [(''inc-'' @ uuid_hex, fresh_incident sha uuid_hex now ev an)])"
proof -
  let ?id = "''inc-'' @ uuid_hex" and ?inc = "fresh_incident sha uuid_hex now ev an"
  let ?fp = "event_fingerprint sha ev" and ?all = "incidents s @ [(?id, ?inc)]"
  have wf: "wf_topology (svc_topology s)" using ok by (simp add: service_ok_def)
  note comp = analyzed_component [OF wf an]
  have set: "dict_set ?id ?inc (incidents s) = ?all" using fresh by (simp add: dict_set_new)
  have "incident_fingerprint ?inc = ?fp" by (simp add: fresh_incident_def)
  then have ids: "map_of (dict_set ?fp ?id (incident_id_by_fingerprint s)) = newest ?all"
    using ok by (simp add: service_ok_def)
  have doms: "dom (map_of (dict_set ?fp received_at (last_seen_by_fingerprint s))) =
      dom (map_of (dict_set ?fp ?id (incident_id_by_fingerprint s)))"
    using ok by (simp add: service_ok_def)
  have dist: "distinct (dict_keys ?all)" using ok fresh by (simp add: service_ok_def)
  have lim: "0 < max_incidents s" using ok by (simp add: service_ok_def)
  from evict_eq [OF dist ids doms, of "max_incidents s"] lim obtain ids' seen' where
    evict: "evict (max_incidents s) ?all (dict_set ?fp ?id (incident_id_by_fingerprint s))
        (dict_set ?fp received_at (last_seen_by_fingerprint s)) =
      Inr (bounded (max_incidents s) ?all, ids', seen')"
      "map_of ids' = newest (bounded (max_incidents s) ?all)" "dom (map_of seen') = dom (map_of ids')"
    by (auto simp: bounded_def)
  let ?s' = "s\<lparr>incidents := bounded (max_incidents s) ?all, incident_id_by_fingerprint := ids',
    last_seen_by_fingerprint := seen'\<rparr>"
  have "new_incident sha received_at uuid_hex now ev s = Inr (?inc, ?s')"
  proof -
    have plan: "create_recovery_plan (svc_topology s) ?id ''restore_link'' (failed_component an) =
        Inr (recovery_plan ?inc)"
      using comp(2) by (auto simp: create_recovery_plan_def fresh_incident_def)
    have inc: "\<lparr>incident_id = ?id, incident_fingerprint = ?fp, incident_event = ev,
        incident_analysis = an, recovery_plan = recovery_plan ?inc, incident_created_at = now\<rparr> = ?inc"
      by (simp add: fresh_incident_def)
    show ?thesis
      unfolding new_incident_def Let_def an rbind_simps plan inc set evict(1) split_conv ..
  qed
  moreover have "service_ok sha ?s'"
  proof -
    have "incident_ok sha (svc_topology s) ?id ?inc"
      using an by (simp add: incident_ok_def fresh_incident_def)
    then have "\<forall>(i, inc) \<in> set ?all. incident_ok sha (svc_topology s) i inc"
      using ok by (simp add: service_ok_def)
    moreover have "set (bounded (max_incidents s) ?all) \<subseteq> set ?all"
      unfolding bounded_def by (rule set_drop_subset)
    moreover have "distinct (dict_keys (bounded (max_incidents s) ?all))"
      unfolding bounded_def drop_map [symmetric] using dist by (rule distinct_drop)
    moreover have "int (length (bounded (max_incidents s) ?all)) \<le> max_incidents s"
      using lim by (simp add: bounded_def)
    ultimately show ?thesis
      using ok evict(2,3) unfolding service_ok_def by auto
  qed
  ultimately show ?thesis by auto
qed

definition duplicate_of ::
  "(string \<Rightarrow> string) \<Rightarrow> rat \<Rightarrow> NetworkEvent \<Rightarrow> IncidentService \<Rightarrow> Incident \<Rightarrow> bool" where
  "duplicate_of sha received_at ev s inc =
     (\<exists>i seen. newest (incidents s) (event_fingerprint sha ev) = Some i \<and> map_of (incidents s) i = Some inc \<and>
        map_of (last_seen_by_fingerprint s) (event_fingerprint sha ev) = Some seen \<and>
        plan_status (recovery_plan inc) = AWAITING_APPROVAL \<and>
        0 \<le> received_at - seen \<and> received_at - seen \<le> dedup_window s)"

lemma ingest_cases:
  assumes ok: "service_ok sha s"
  shows "(\<exists>inc. duplicate_of sha received_at ev s inc \<and>
      ingest sha received_at uuid_hex now ev s = Inr (inc, s\<lparr>last_seen_by_fingerprint :=
        dict_set (event_fingerprint sha ev) received_at (last_seen_by_fingerprint s)\<rparr>)) \<or>
    (\<forall>inc. \<not> duplicate_of sha received_at ev s inc) \<and>
      ingest sha received_at uuid_hex now ev s = new_incident sha received_at uuid_hex now ev s"
proof (cases "map_of (incident_id_by_fingerprint s) (event_fingerprint sha ev)")
  case None
  then show ?thesis using ok by (simp add: ingest_def Let_def duplicate_of_def service_ok_def)
next
  case (Some i)
  then have new: "newest (incidents s) (event_fingerprint sha ev) = Some i"
    using ok by (simp add: service_ok_def)
  from newest_Some [OF this] obtain inc where inc: "map_of (incidents s) i = Some inc"
    using ok by (auto simp: service_ok_def)
  obtain seen where seen: "map_of (last_seen_by_fingerprint s) (event_fingerprint sha ev) = Some seen"
    using Some ok unfolding service_ok_def by blast
  have "duplicate_of sha received_at ev s inc' \<longleftrightarrow> inc' = inc \<and>
      plan_status (recovery_plan inc) = AWAITING_APPROVAL \<and>
      0 \<le> received_at - seen \<and> received_at - seen \<le> dedup_window s" for inc'
    unfolding duplicate_of_def new seen by (auto simp: inc)
  then show ?thesis by (simp add: ingest_def Let_def Some inc seen)
qed

lemma duplicate_touch_ok:
  assumes "service_ok sha s" "duplicate_of sha received_at ev s inc"
  shows "service_ok sha (s\<lparr>last_seen_by_fingerprint :=
    dict_set (event_fingerprint sha ev) received_at (last_seen_by_fingerprint s)\<rparr>)"
proof -
  have "event_fingerprint sha ev \<in> dom (map_of (last_seen_by_fingerprint s))"
    using assms(2) by (auto simp: duplicate_of_def)
  with assms(1) show ?thesis by (auto simp: service_ok_def insert_absorb)
qed

lemma approve_Inr:
  "approve i s = Inr (inc', s') \<longleftrightarrow>
   (\<exists>inc. map_of (incidents s) i = Some inc \<and> plan_status (recovery_plan inc) = AWAITING_APPROVAL \<and>
      inc' = inc\<lparr>recovery_plan := recovery_plan inc\<lparr>plan_status := APPROVED\<rparr>\<rparr> \<and>
      s' = s\<lparr>incidents := dict_set i inc' (incidents s)\<rparr>)"
  by (auto simp: approve_def get_incident_def approve_recovery_def rbind_eq_Inr Let_def split: option.splits)

lemma dict_set_values:
  assumes "map_of d k = Some v"
  shows "map fst (dict_set k v' d) = map fst d"
  using assms by (induction d) auto

lemma newest_dict_set:
  assumes "map_of d i = Some inc" "incident_fingerprint inc' = incident_fingerprint inc"
    and "distinct (map fst d)"
  shows "newest (dict_set i inc' d) = newest d"
  using assms
proof (induction d)
  case (Cons p d)
  show ?case
  proof (rule ext)
    fix fp
    show "newest (dict_set i inc' (p # d)) fp = newest (p # d) fp"
      using Cons by (cases p) (auto simp: newest_Cons split: if_splits)
  qed
qed simp

lemma set_dict_set: "distinct (map fst d) \<Longrightarrow> set (dict_set k v d) = {p \<in> set d. fst p \<noteq> k} \<union> {(k, v)}"
  by (induction d) (auto simp: image_iff)

lemma approve_ok:
  assumes ok: "service_ok sha s" and a: "approve i s = Inr (inc', s')"
  shows "service_ok sha s'"
proof -
  obtain inc where inc: "map_of (incidents s) i = Some inc"
    "inc' = inc\<lparr>recovery_plan := recovery_plan inc\<lparr>plan_status := APPROVED\<rparr>\<rparr>"
    "s' = s\<lparr>incidents := dict_set i inc' (incidents s)\<rparr>"
    using a approve_Inr by blast
  have dist: "distinct (dict_keys (incidents s))" using ok by (simp add: service_ok_def)
  have "incident_ok sha (svc_topology s) i inc"
    using ok map_of_SomeD [OF inc(1)] unfolding service_ok_def by blast
  then have "incident_ok sha (svc_topology s) i inc'"
    using inc(2) by (auto simp: incident_ok_def)
  then have "\<forall>(j, jnc) \<in> set (incidents s'). incident_ok sha (svc_topology s) j jnc"
    using ok inc(3) unfolding service_ok_def by (auto simp: set_dict_set [OF dist])
  moreover have "newest (incidents s') = newest (incidents s)"
    using newest_dict_set [OF inc(1) _ dist] inc(2,3) by simp
  moreover have keys: "dict_keys (incidents s') = dict_keys (incidents s)"
    using dict_set_values [OF inc(1)] inc(3) by simp
  moreover have "length (incidents s') = length (incidents s)"
    using arg_cong [OF keys, of length] by simp
  ultimately show ?thesis using ok inc(3) unfolding service_ok_def by simp
qed

section \<open>Runs of the service\<close>

text \<open>
  One call that succeeds; a call that raises leaves the state as it was. The ids are
  fresh, as the random part is meant to make them.
\<close>

inductive svc_step :: "(string \<Rightarrow> string) \<Rightarrow> IncidentService \<Rightarrow> IncidentService \<Rightarrow> bool" for sha where
  step_ingest: "ingest sha received_at uuid_hex now ev s = Inr (inc, s') \<Longrightarrow>
    ''inc-'' @ uuid_hex \<notin> set (dict_keys (incidents s)) \<Longrightarrow> svc_step sha s s'"
| step_approve: "approve i s = Inr (inc, s') \<Longrightarrow> svc_step sha s s'"

inductive svc_runs :: "(string \<Rightarrow> string) \<Rightarrow> IncidentService \<Rightarrow> IncidentService \<Rightarrow> bool" for sha where
  run_start: "svc_runs sha s s"
| run_step: "svc_runs sha s s' \<Longrightarrow> svc_step sha s' s'' \<Longrightarrow> svc_runs sha s s''"

inductive_cases svc_step_cases: "svc_step sha s s'"

lemma ingest_analysis:
  assumes ok: "service_ok sha s" and r: "new_incident sha received_at uuid_hex now ev s = Inr (inc, s')"
  shows "\<exists>an. analyze_link_down (svc_topology s) ev = Inr an"
  using r by (auto simp: new_incident_def Let_def rbind_eq_Inr)

lemma svc_step_ok:
  assumes "svc_step sha s s'" "service_ok sha s"
  shows "service_ok sha s' \<and> svc_topology s' = svc_topology s \<and>
    dedup_window s' = dedup_window s \<and> max_incidents s' = max_incidents s"
  using assms(1)
proof (cases rule: svc_step.cases)
  case (step_ingest received_at uuid_hex now ev inc)
  show ?thesis
  proof (cases "\<exists>inc. duplicate_of sha received_at ev s inc")
    case True
    then show ?thesis
      using ingest_cases [OF assms(2), of received_at ev uuid_hex now] step_ingest(1)
        duplicate_touch_ok [OF assms(2)] by auto
  next
    case False
    then have new: "new_incident sha received_at uuid_hex now ev s = Inr (inc, s')"
      using ingest_cases [OF assms(2), of received_at ev uuid_hex now] step_ingest(1) by auto
    from ingest_analysis [OF assms(2) this] obtain an where
      "analyze_link_down (svc_topology s) ev = Inr an" by blast
    from new_incident_ok [OF assms(2) this step_ingest(2), of received_at now] new show ?thesis by auto
  qed
next
  case (step_approve i inc)
  from approve_ok [OF assms(2) this] this show ?thesis by (auto simp: approve_Inr)
qed

lemma svc_runs_ok:
  assumes "svc_runs sha s s'" "service_ok sha s"
  shows "service_ok sha s' \<and> svc_topology s' = svc_topology s \<and>
    dedup_window s' = dedup_window s \<and> max_incidents s' = max_incidents s"
  using assms by (induction rule: svc_runs.induct) (use svc_step_ok in auto)

lemma mk_service_ok:
  assumes "wf_topology t" "mk_service t window limit = Inr s"
  shows "service_ok sha s \<and> svc_topology s = t \<and> dedup_window s = window \<and> max_incidents s = limit"
  using assms by (auto simp: mk_service_def rbind_eq_Inr service_ok_def)

section \<open>Properties\<close>

text \<open>A run on the lab topology: one incident ingested, and then approved.\<close>

definition lab_service :: IncidentService where
  "lab_service = \<lparr>svc_topology = lab_topology, dedup_window = 60, max_incidents = 1000,
     incidents = [], incident_id_by_fingerprint = [], last_seen_by_fingerprint = []\<rparr>"

definition lab_incident :: Incident where
  "lab_incident = fresh_incident (\<lambda>x. x) ''01'' lab_instant lab_link_down lab_analysis"

definition lab_service_one :: IncidentService where
  "lab_service_one = lab_service\<lparr>incidents := [(''inc-01'', lab_incident)],
     incident_id_by_fingerprint := [(''link_down:agg1--core1'', ''inc-01'')],
     last_seen_by_fingerprint := [(''link_down:agg1--core1'', 7)]\<rparr>"

lemma mk_lab_service: "mk_service lab_topology 60 1000 = Inr lab_service"
  by (simp add: mk_service_def lab_service_def)

lemma lab_ingest:
  "ingest (\<lambda>x. x) 7 ''01'' lab_instant lab_link_down lab_service = Inr (lab_incident, lab_service_one)"
proof -
  have plan: "create_recovery_plan lab_topology ''inc-01'' ''restore_link'' ''agg1--core1'' =
      Inr \<lparr>plan_incident_id = ''inc-01'', plan_action = ''restore_link'', plan_target = ''agg1--core1'',
        plan_status = AWAITING_APPROVAL\<rparr>"
    by code_simp
  show ?thesis
    by (simp add: ingest_def new_incident_def lab_service_def lab_service_one_def lab_incident_def Let_def
        lab_analysis_run plan lab_analysis_def fresh_incident_def event_fingerprint_def lab_link_down_def)
      (simp add: plan lab_analysis_run [unfolded lab_link_down_def] lab_analysis_def)
qed

lemma lab_run: "svc_runs (\<lambda>x. x) lab_service lab_service_one"
  by (rule run_step [OF run_start step_ingest [OF lab_ingest]]) (simp add: lab_service_def)

text \<open>
  C3: The service's invariant: after any sequence of successful calls the store holds at
  most \<open>max_incidents\<close> incidents under distinct ids; each is the analysis of its own event
  with a \<open>restore_link\<close> plan for the failed link, awaiting approval or approved; the
  fingerprint index points to the newest stored incident of each fingerprint and to nothing
  else. Hence \<open>ingest\<close> raises only the errors of the analysis, never a \<open>KeyError\<close> of its
  own indexes.
\<close>

theorem service_invariant:
  assumes t: "mk_topology ns ls = Inr t" and s0: "mk_service t window limit = Inr s0"
    and run: "svc_runs sha s0 s"
  shows "int (length (incidents s)) \<le> limit \<and> distinct (dict_keys (incidents s)) \<and>
    (\<forall>i inc. (i, inc) \<in> set (incidents s) \<longrightarrow> incident_ok sha t i inc) \<and>
    map_of (incident_id_by_fingerprint s) = newest (incidents s) \<and>
    (\<forall>uuid_hex received_at now ev e. ''inc-'' @ uuid_hex \<notin> set (dict_keys (incidents s)) \<longrightarrow>
      ingest sha received_at uuid_hex now ev s = Inl e \<longrightarrow> analyze_link_down t ev = Inl e)"
proof -
  have ok0: "service_ok sha s0 \<and> svc_topology s0 = t \<and> max_incidents s0 = limit"
    using mk_service_ok [OF mk_topology_wf [OF t] s0] by blast
  then have ok: "service_ok sha s" and s: "svc_topology s = t" "max_incidents s = limit"
    using svc_runs_ok [OF run] by auto
  have stored: "int (length (incidents s)) \<le> limit" "distinct (dict_keys (incidents s))"
    "\<And>i inc. (i, inc) \<in> set (incidents s) \<Longrightarrow> incident_ok sha t i inc"
    "map_of (incident_id_by_fingerprint s) = newest (incidents s)"
    using ok s unfolding service_ok_def by auto
  have errors: "analyze_link_down t ev = Inl e"
    if fresh: "''inc-'' @ uuid_hex \<notin> set (dict_keys (incidents s))"
      and e: "ingest sha received_at uuid_hex now ev s = Inl e" for uuid_hex received_at now ev e
  proof -
    from e have new: "new_incident sha received_at uuid_hex now ev s = Inl e"
    using ingest_cases [OF ok, of received_at ev uuid_hex now] by auto
    show ?thesis
    proof (cases "analyze_link_down t ev")
      case (Inl e')
      then show ?thesis using new s by (simp add: new_incident_def Let_def)
    next
      case (Inr an)
      then show ?thesis using new_incident_ok [OF ok _ fresh, of ev an received_at now] new s by simp
    qed
  qed
  show ?thesis using stored errors by blast
qed

theorem service_invariant_witness:
  "incident_ok (\<lambda>x. x) lab_topology ''inc-01'' lab_incident \<and> newest (incidents lab_service_one) ''link_down:agg1--core1'' = Some ''inc-01''"
proof -
  have "(''inc-01'', lab_incident) \<in> set (incidents lab_service_one)"
    "map_of (incident_id_by_fingerprint lab_service_one) ''link_down:agg1--core1'' = Some ''inc-01''"
    by (simp_all add: lab_service_one_def)
  with service_invariant [OF mk_lab_topology mk_lab_service lab_run] show ?thesis by metis
qed

text \<open>
  C17: Deduplication and eviction: when the newest incident of the event's fingerprint is
  stored, still awaits approval and was last seen at most one window ago (and not in the
  future), \<open>ingest\<close> returns it, keeps the incidents and slides the window; otherwise it
  appends a new incident awaiting approval and drops the oldest ones beyond the bound.
\<close>

theorem ingest_outcome:
  assumes t: "mk_topology ns ls = Inr t" and s0: "mk_service t window limit = Inr s0"
    and run: "svc_runs sha s0 s" and fresh: "''inc-'' @ uuid_hex \<notin> set (dict_keys (incidents s))"
    and r: "ingest sha received_at uuid_hex now ev s = Inr (inc, s')"
  shows "if \<exists>old. duplicate_of sha received_at ev s old
    then duplicate_of sha received_at ev s inc \<and> incidents s' = incidents s \<and>
      map_of (last_seen_by_fingerprint s') (event_fingerprint sha ev) = Some received_at
    else \<exists>an. analyze_link_down t ev = Inr an \<and> inc = fresh_incident sha uuid_hex now ev an \<and>
      incidents s' = bounded limit (incidents s @ [(''inc-'' @ uuid_hex, inc)])"
proof -
  have ok: "service_ok sha s" and s: "svc_topology s = t" "max_incidents s = limit"
    using svc_runs_ok [OF run, THEN conjunct1] svc_runs_ok [OF run] mk_service_ok [OF mk_topology_wf [OF t] s0, of sha]
    by auto
  show ?thesis
  proof (cases "\<exists>old. duplicate_of sha received_at ev s old")
    case True
    then show ?thesis using ingest_cases [OF ok, of received_at ev uuid_hex now] r by auto
  next
    case False
    then have new: "new_incident sha received_at uuid_hex now ev s = Inr (inc, s')"
      using ingest_cases [OF ok, of received_at ev uuid_hex now] r by auto
    from ingest_analysis [OF ok this] obtain an where an: "analyze_link_down (svc_topology s) ev = Inr an"
      by blast
    from new_incident_ok [OF ok an fresh, of received_at now] new an s False show ?thesis by auto
  qed
qed

theorem ingest_outcome_witness:
  "duplicate_of (\<lambda>x. x) 60 lab_link_down lab_service_one lab_incident"
proof -
  have st: "plan_status (recovery_plan lab_incident) = AWAITING_APPROVAL"
    by (simp add: lab_incident_def fresh_incident_def)
  have idx: "newest (incidents lab_service_one) (event_fingerprint (\<lambda>x. x) lab_link_down) = Some ''inc-01''"
    by (simp add: newest_def lab_service_one_def lab_incident_def fresh_incident_def)
  have look: "map_of (incidents lab_service_one) ''inc-01'' = Some lab_incident"
    "map_of (incident_id_by_fingerprint lab_service_one) (event_fingerprint (\<lambda>x. x) lab_link_down) = Some ''inc-01''"
    "map_of (last_seen_by_fingerprint lab_service_one) (event_fingerprint (\<lambda>x. x) lab_link_down) = Some 7"
    "dedup_window lab_service_one = 60"
    by (simp_all add: lab_service_one_def lab_service_def event_fingerprint_def lab_link_down_def)
  then obtain s' where r: "ingest (\<lambda>x. x) 60 ''02'' lab_instant lab_link_down lab_service_one = Inr (lab_incident, s')"
    using st by (auto simp: ingest_def Let_def)
  have fresh: "''inc-'' @ ''02'' \<notin> set (dict_keys (incidents lab_service_one))"
    by (simp add: lab_service_one_def)
  have "\<exists>old. duplicate_of (\<lambda>x. x) 60 lab_link_down lab_service_one old"
    using idx look st by (auto simp: duplicate_of_def)
  then show ?thesis
    using ingest_outcome [OF mk_lab_topology mk_lab_service lab_run fresh r] by auto
qed

text \<open>
  Approval is a one-way transition of one incident: \<open>approve\<close> succeeds exactly on a
  stored incident that awaits approval, changes nothing but its plan's status to approved,
  and a second approval of it raises \<open>ValueError\<close>.
\<close>

theorem approve_once:
  assumes "mk_topology ns ls = Inr t" "mk_service t window limit = Inr s0" "svc_runs sha s0 s"
  shows "((\<exists>r. approve i s = Inr r) \<longleftrightarrow>
      (\<exists>inc. (i, inc) \<in> set (incidents s) \<and> plan_status (recovery_plan inc) = AWAITING_APPROVAL)) \<and>
    (\<forall>inc' s'. approve i s = Inr (inc', s') \<longrightarrow>
      approve i s' = Inl (ValueError ''recovery plan is not awaiting approval'') \<and>
      (\<exists>inc. (i, inc) \<in> set (incidents s) \<and>
        inc' = inc\<lparr>recovery_plan := recovery_plan inc\<lparr>plan_status := APPROVED\<rparr>\<rparr>) \<and>
      set (incidents s') = {p \<in> set (incidents s). fst p \<noteq> i} \<union> {(i, inc')} \<and>
      s' = s\<lparr>incidents := incidents s'\<rparr>)"
proof (intro conjI allI impI)
  have "service_ok sha s"
    using svc_runs_ok [OF assms(3)] mk_service_ok [OF mk_topology_wf [OF assms(1)] assms(2)] by blast
  then have dist: "distinct (dict_keys (incidents s))" by (simp add: service_ok_def)
  show "(\<exists>r. approve i s = Inr r) \<longleftrightarrow>
      (\<exists>inc. (i, inc) \<in> set (incidents s) \<and> plan_status (recovery_plan inc) = AWAITING_APPROVAL)"
    using dist by (auto simp: approve_Inr)
  fix inc' s' assume "approve i s = Inr (inc', s')"
  then obtain inc where inc: "map_of (incidents s) i = Some inc"
    "inc' = inc\<lparr>recovery_plan := recovery_plan inc\<lparr>plan_status := APPROVED\<rparr>\<rparr>"
    "s' = s\<lparr>incidents := dict_set i inc' (incidents s)\<rparr>"
    unfolding approve_Inr by blast
  show "approve i s' = Inl (ValueError ''recovery plan is not awaiting approval'')"
    using inc(2,3) by (simp add: approve_def get_incident_def approve_recovery_def)
  show "\<exists>inc. (i, inc) \<in> set (incidents s) \<and>
      inc' = inc\<lparr>recovery_plan := recovery_plan inc\<lparr>plan_status := APPROVED\<rparr>\<rparr>"
    using map_of_SomeD [OF inc(1)] inc(2) by blast
  show "set (incidents s') = {p \<in> set (incidents s). fst p \<noteq> i} \<union> {(i, inc')}"
    using set_dict_set [OF dist] inc(3) by simp
  show "s' = s\<lparr>incidents := incidents s'\<rparr>" using inc(3) by simp
qed

theorem approve_once_witness: "\<exists>r. approve ''inc-01'' lab_service_one = Inr r"
proof -
  have "(''inc-01'', lab_incident) \<in> set (incidents lab_service_one)"
    "plan_status (recovery_plan lab_incident) = AWAITING_APPROVAL"
    by (simp_all add: lab_service_one_def lab_incident_def fresh_incident_def)
  then show ?thesis using approve_once [OF mk_lab_topology mk_lab_service lab_run] by blast
qed

text \<open>
  No call rewrites a stored incident except its approval: an incident stored before and
  after a step of a run is unchanged, or the step approved it, turning its status from
  awaiting approval to approved and nothing else.
\<close>

theorem incidents_stable:
  assumes "mk_topology ns ls = Inr t" "mk_service t window limit = Inr s0" "svc_runs sha s0 s"
    and step: "svc_step sha s s'"
    and before: "(i, inc) \<in> set (incidents s)" and after: "(i, inc') \<in> set (incidents s')"
  shows "inc' = inc \<or> (plan_status (recovery_plan inc) = AWAITING_APPROVAL \<and>
    inc' = inc\<lparr>recovery_plan := recovery_plan inc\<lparr>plan_status := APPROVED\<rparr>\<rparr>)"
proof -
  have ok: "service_ok sha s"
    using svc_runs_ok [OF assms(3)] mk_service_ok [OF mk_topology_wf [OF assms(1)] assms(2)] by blast
  then have dist: "distinct (dict_keys (incidents s))" by (simp add: service_ok_def)
  have same: "inc' = inc" if "(i, inc') \<in> set (incidents s)"
    using eq_key_imp_eq_value [OF dist that before] .
  from step show ?thesis
  proof (cases rule: svc_step.cases)
    case (step_ingest received_at uuid_hex now ev new)
    show ?thesis
    proof (cases "\<exists>old. duplicate_of sha received_at ev s old")
      case True
      then have "incidents s' = incidents s"
        using ingest_cases [OF ok, of received_at ev uuid_hex now] step_ingest(1) by auto
      then show ?thesis using same after by simp
    next
      case False
      then have n: "new_incident sha received_at uuid_hex now ev s = Inr (new, s')"
        using ingest_cases [OF ok, of received_at ev uuid_hex now] step_ingest(1) by auto
      from ingest_analysis [OF ok this] obtain an where an: "analyze_link_down (svc_topology s) ev = Inr an"
        by blast
      have "incidents s' = bounded (max_incidents s) (incidents s @ [(''inc-'' @ uuid_hex, new)])"
        using new_incident_ok [OF ok an step_ingest(2), of received_at now] n by auto
      then have "set (incidents s') \<subseteq> set (incidents s @ [(''inc-'' @ uuid_hex, new)])"
        unfolding bounded_def using set_drop_subset by metis
      then have "(i, inc') \<in> set (incidents s @ [(''inc-'' @ uuid_hex, new)])" using after by blast
      moreover have "i \<noteq> ''inc-'' @ uuid_hex" using step_ingest(2) before by force
      ultimately show ?thesis using same by auto
    qed
  next
    case (step_approve j new)
    then obtain old where old: "map_of (incidents s) j = Some old"
      "plan_status (recovery_plan old) = AWAITING_APPROVAL"
      "new = old\<lparr>recovery_plan := recovery_plan old\<lparr>plan_status := APPROVED\<rparr>\<rparr>"
      "s' = s\<lparr>incidents := dict_set j new (incidents s)\<rparr>"
      unfolding approve_Inr by blast
    have mem: "(i, inc') \<in> {p \<in> set (incidents s). fst p \<noteq> j} \<union> {(j, new)}"
      using after old(4) set_dict_set [OF dist] by simp
    show ?thesis
    proof (cases "i = j")
      case True
      then have "old = inc" using eq_key_imp_eq_value [OF dist map_of_SomeD [OF old(1)]] before by simp
      with mem True old(2,3) show ?thesis by auto
    next
      case False
      then show ?thesis using mem same by blast
    qed
  qed
qed

theorem incidents_stable_witness:
  "\<exists>s' inc'. svc_step (\<lambda>x. x) lab_service_one s' \<and> (''inc-01'', inc') \<in> set (incidents s') \<and>
     (inc' = lab_incident \<or> plan_status (recovery_plan inc') = APPROVED)"
proof -
  obtain inc' s' where a: "approve ''inc-01'' lab_service_one = Inr (inc', s')"
    by (simp add: approve_Inr lab_service_one_def lab_incident_def fresh_incident_def)
  then have after: "(''inc-01'', inc') \<in> set (incidents s')"
    by (auto simp: approve_Inr lab_service_one_def)
  have before: "(''inc-01'', lab_incident) \<in> set (incidents lab_service_one)"
    by (simp add: lab_service_one_def)
  have "inc' = lab_incident \<or> plan_status (recovery_plan inc') = APPROVED"
    using incidents_stable [OF mk_lab_topology mk_lab_service lab_run step_approve [OF a] before after]
    by (elim disjE) simp_all
  then show ?thesis using step_approve [OF a, of "\<lambda>x. x"] after by blast
qed

end
