(* ===== verification/Ip_Address.thy ===== *)
theory Ip_Address
  imports Sentinel_Prelude
begin

text \<open>
  \<open>ipaddress.ip_network(prefix, strict=True)\<close> of Python's library, which
  \<open>NodeIntent.validate_prefixes\<close> calls: IPv4 first (four decimal octets without leading
  zeros; a prefix length, a netmask or a host mask), then IPv6 (colon groups with at most
  one \<open>::\<close>, an embedded IPv4 tail, a scope). A network whose host bits are not all zero is
  rejected.
\<close>

section \<open>Splitting and digits\<close>

fun split_char :: "char \<Rightarrow> string \<Rightarrow> string list" where
  "split_char c [] = [[]]"
| "split_char c (x # xs) =
     (if x = c then [] # split_char c xs
      else (case split_char c xs of [] \<Rightarrow> [[x]] | p # ps \<Rightarrow> (x # p) # ps))"

lemma split_char_Nil [simp]: "split_char c s \<noteq> []"
  by (induction s) (auto split: list.splits)

fun join_char :: "char \<Rightarrow> string list \<Rightarrow> string" where
  "join_char c [] = []"
| "join_char c [p] = p"
| "join_char c (p # q # ps) = p @ c # join_char c (q # ps)"

lemma join_split [simp]: "join_char c (split_char c s) = s"
proof (induction s)
  case (Cons x s)
  show ?case
  proof (cases "split_char c s")
    case (Cons p ps)
    then show ?thesis using Cons.IH by (cases ps) auto
  qed simp
qed simp

lemma split_char_clean:
  "c \<notin> set p \<Longrightarrow> split_char c (p @ c # s) = p # split_char c s"
  by (induction p) auto

lemma split_char_single: "c \<notin> set p \<Longrightarrow> split_char c p = [p]"
  by (induction p) auto

definition hex_value :: "char \<Rightarrow> int option" where
  "hex_value c =
     (if is_digit c then Some (of_char c - 48)
      else if CHR ''a'' \<le> c \<and> c \<le> CHR ''f'' then Some (of_char c - 87)
      else if CHR ''A'' \<le> c \<and> c \<le> CHR ''F'' then Some (of_char c - 55)
      else None)"

fun read_base :: "int \<Rightarrow> int \<Rightarrow> string \<Rightarrow> int option" where
  "read_base b acc [] = Some acc"
| "read_base b acc (c # cs) =
     (case hex_value c of None \<Rightarrow> None | Some v \<Rightarrow> read_base b (b * acc + v) cs)"

section \<open>IPv4\<close>

definition read_octet :: "string \<Rightarrow> int option" where
  "read_octet s =
     (if s = [] \<or> \<not> list_all is_digit s \<or> 3 < length s \<or> (s \<noteq> ''0'' \<and> hd s = CHR ''0'') then None
      else case read_base 10 0 s of None \<Rightarrow> None | Some n \<Rightarrow> if n \<le> 255 then Some n else None)"

definition ip4_int :: "string \<Rightarrow> int option" where
  "ip4_int s =
     (case map read_octet (split_char (CHR ''.'') s) of
        [Some a, Some b, Some c, Some d] \<Rightarrow> Some (((a * 256 + b) * 256 + c) * 256 + d)
      | _ \<Rightarrow> None)"

definition prefix_digits :: "nat \<Rightarrow> string \<Rightarrow> nat option" where
  "prefix_digits limit s =
     (if s = [] \<or> \<not> list_all is_digit s then None
      else case read_base 10 0 s of None \<Rightarrow> None | Some n \<Rightarrow> if n \<le> int limit then Some (nat n) else None)"

definition mask_prefix :: "int \<Rightarrow> nat option" where
  "mask_prefix m = List.find (\<lambda>p. m = 2 ^ 32 - 2 ^ (32 - p)) [0..<33]"

definition ip4_prefix :: "string \<Rightarrow> nat option" where
  "ip4_prefix s =
     (case prefix_digits 32 s of
        Some p \<Rightarrow> Some p
      | None \<Rightarrow>
          (case ip4_int s of
             None \<Rightarrow> None
           | Some m \<Rightarrow>
               (case mask_prefix m of
                  Some p \<Rightarrow> Some p
                | None \<Rightarrow> mask_prefix (2 ^ 32 - 1 - m))))"

text \<open>Address and prefix length, before the host bits are checked.\<close>

definition ip4_parts :: "string \<Rightarrow> (int \<times> nat) option" where
  "ip4_parts s =
     (case split_char (CHR ''/'') s of
        [a] \<Rightarrow> map_option (\<lambda>n. (n, 32)) (ip4_int a)
      | [a, m] \<Rightarrow>
          (case ip4_int a of
             None \<Rightarrow> None
           | Some n \<Rightarrow> map_option (Pair n) (ip4_prefix m))
      | _ \<Rightarrow> None)"

section \<open>IPv6\<close>

definition read_hextet :: "string \<Rightarrow> int option" where
  "read_hextet s = (if s = [] \<or> 4 < length s then None else read_base 16 0 s)"

text \<open>The groups of the text, an IPv4 tail counting as two groups.\<close>

definition ip6_groups :: "string list \<Rightarrow> (string list \<times> int list) option" where
  "ip6_groups ps =
     (if CHR ''.'' \<in> set (last ps)
      then map_option (\<lambda>n. (butlast ps, [n div 65536, n mod 65536])) (ip4_int (last ps))
      else Some (ps, []))"

fun read_groups :: "string list \<Rightarrow> int list option" where
  "read_groups [] = Some []"
| "read_groups (p # ps) =
     (case read_hextet p of
        None \<Rightarrow> None
      | Some n \<Rightarrow> map_option (Cons n) (read_groups ps))"

definition empty_groups :: "string list \<Rightarrow> nat list" where
  "empty_groups ps = filter (\<lambda>i. ps ! i = []) [1..<length ps - 1]"

text \<open>
  One inner empty group stands for the missing zero groups. An empty first (last) group
  is allowed only next to it.
\<close>

definition ip6_words :: "string list \<Rightarrow> int list option" where
  "ip6_words ps =
     (case empty_groups ps of
        [] \<Rightarrow> if length ps \<noteq> 8 then None else read_groups ps
      | [i] \<Rightarrow>
          (let hi = take i ps; lo = drop (Suc i) ps;
               hi' = (if hd ps = [] then tl hi else hi);
               lo' = (if last ps = [] then butlast lo else lo)
           in if hd ps = [] \<and> hi' \<noteq> [] \<or> last ps = [] \<and> lo' \<noteq> [] \<or> 8 \<le> length hi' + length lo' then None
              else
                (case (read_groups hi', read_groups lo') of
                   (Some xs, Some ys) \<Rightarrow> Some (xs @ replicate (8 - length xs - length ys) 0 @ ys)
                 | _ \<Rightarrow> None))
      | _ \<Rightarrow> None)"

definition hextet_str :: "int \<Rightarrow> string" where
  "hextet_str n =
     map (\<lambda>d. if d < 10 then char_of (48 + d) else char_of (87 + d))
       [n div 4096 mod 16, n div 256 mod 16, n div 16 mod 16, n mod 16]"

definition ip6_int :: "string \<Rightarrow> int option" where
  "ip6_int s =
     (let ps = split_char (CHR '':'') s
      in if length ps < 3 then None
         else
           (case ip6_groups ps of
              None \<Rightarrow> None
            | Some (gs, tail) \<Rightarrow>
                (let all = gs @ map hextet_str tail
                 in if 9 < length all then None
                    else map_option (foldl (\<lambda>acc w. acc * 65536 + w) 0) (ip6_words all))))"

definition strip_scope :: "string \<Rightarrow> string option" where
  "strip_scope s =
     (case split_char (CHR ''%'') s of
        [a] \<Rightarrow> Some a
      | [a, z] \<Rightarrow> if z = [] then None else Some a
      | _ \<Rightarrow> None)"

definition ip6_parts :: "string \<Rightarrow> (int \<times> nat) option" where
  "ip6_parts s =
     (case split_char (CHR ''/'') s of
        [a] \<Rightarrow> map_option (\<lambda>n. (n, 128)) (Option.bind (strip_scope a) ip6_int)
      | [a, m] \<Rightarrow>
          (case Option.bind (strip_scope a) ip6_int of
             None \<Rightarrow> None
           | Some n \<Rightarrow> map_option (Pair n) (prefix_digits 128 m))
      | _ \<Rightarrow> None)"

section \<open>The strict network check\<close>

definition ip_network_ok :: "string \<Rightarrow> bool" where
  "ip_network_ok s =
     (case ip4_parts s of
        Some (n, p) \<Rightarrow> n mod 2 ^ (32 - p) = 0
      | None \<Rightarrow>
          (case ip6_parts s of
             Some (n, p) \<Rightarrow> n mod 2 ^ (128 - p) = 0
           | None \<Rightarrow> False))"

section \<open>The text of a network\<close>

text \<open>
  \<open>str(ip_network(s))\<close>: dotted octets, or lower-case hextets without leading zeros whose
  longest run of at least two zeros (the first of the longest) is written \<open>::\<close>.
\<close>

definition ip4_text :: "int \<Rightarrow> string" where
  "ip4_text n = join_char (CHR ''.'') (map int_str [n div 16777216, n div 65536 mod 256, n div 256 mod 256, n mod 256])"

definition hextets :: "int \<Rightarrow> string list" where
  "hextets n =
     map (\<lambda>i. let h = dropWhile (\<lambda>c. c = CHR ''0'') (hextet_str (n div 65536 ^ (7 - i) mod 65536))
              in if h = [] then ''0'' else h) [0..<8]"

definition zero_run :: "string list \<Rightarrow> nat \<Rightarrow> nat" where
  "zero_run hs i = length (takeWhile (\<lambda>h. h = ''0'') (drop i hs))"

definition compress_hextets :: "string list \<Rightarrow> string list" where
  "compress_hextets hs =
     (let longest = foldl max 0 (map (zero_run hs) [0..<length hs])
      in if longest \<le> 1 then hs
         else (case List.find (\<lambda>i. zero_run hs i = longest) [0..<length hs] of
                 None \<Rightarrow> hs
               | Some start \<Rightarrow>
                   (if start = 0 then [[]] else []) @ take start hs @ [[]] @ drop (start + longest) hs @
                   (if start + longest = length hs then [[]] else [])))"

definition ip6_text :: "int \<Rightarrow> string" where
  "ip6_text n = join_char (CHR '':'') (compress_hextets (hextets n))"

definition scope_text :: "string \<Rightarrow> string" where
  "scope_text s = dropWhile (\<lambda>c. c \<noteq> CHR ''%'') (hd (split_char (CHR ''/'') s))"

definition ip_network_text :: "string \<Rightarrow> string option" where
  "ip_network_text s =
     (case ip4_parts s of
        Some (n, p) \<Rightarrow> Some (ip4_text n @ ''/'' @ nat_str p)
      | None \<Rightarrow>
          (case ip6_parts s of
             Some (n, p) \<Rightarrow> Some (ip6_text n @ scope_text s @ ''/'' @ nat_str p)
           | None \<Rightarrow> None))"

text \<open>\<open>ip_network(s, strict=True)\<close> succeeds and \<open>str\<close> gives \<open>s\<close> back.\<close>

definition canonical_prefix :: "string \<Rightarrow> bool" where
  "canonical_prefix s = (ip_network_ok s \<and> ip_network_text s = Some s)"

lemma read_base_decimal: "list_all is_digit s \<Longrightarrow> \<exists>n. read_base 10 acc s = Some n"
  by (induction s arbitrary: acc) (auto simp: hex_value_def)

end
