(* ===== verification/Design_Intent.thy ===== *)
theory Design_Intent
  imports Lab_Design Ip_Address
begin

text \<open>
  \<open>intent.py\<close>: the validators of the design catalog and of a network intent, and
  \<open>NetworkIntent.to_topology\<close>. The inputs are documents whose fields already have their
  declared types (pydantic's own type checks are not part of the program); each model
  validator returns the document or the first error the source raises. Patterns and bounds
  declared on a field are validators too.
\<close>

section \<open>The design catalog\<close>

datatype DesignRole = BASELINE | CANDIDATE

record DesignCatalogEntry =
  entry_intent :: string
  entry_role :: DesignRole
  entry_based_on :: "string option"

record DesignCatalog =
  catalog_version :: int
  catalog_designs :: "DesignCatalogEntry dict"

text \<open>\<open>^[a-z0-9][a-z0-9.-]*\.yml$\<close>: a stem of at least one character before the suffix.\<close>

definition intent_file :: "string \<Rightarrow> bool" where
  "intent_file s =
     (let stem = take (length s - 4) s
      in drop (length s - 4) s = ''.yml'' \<and>
         matches (\<lambda>c. is_lower c \<or> is_digit c) (\<lambda>c. ident_char c \<or> c = CHR ''.'') (length s) stem)"

definition validate_entry :: "DesignCatalogEntry \<Rightarrow> DesignCatalogEntry result" where
  "validate_entry e =
     rbind (ensure (intent_file (entry_intent e)) ''intent: string should match pattern'') (\<lambda>_.
     rbind (ensure (case entry_based_on e of None \<Rightarrow> True | Some b \<Rightarrow> short_identifier b)
       ''based_on: string should match pattern'') (\<lambda>_.
     rbind (ensure (\<not> (entry_role e = CANDIDATE \<and> entry_based_on e = None))
       ''candidate design must define based_on'') (\<lambda>_.
     rbind (ensure (\<not> (entry_role e = BASELINE \<and> entry_based_on e \<noteq> None))
       ''baseline design cannot define based_on'') (\<lambda>_.
       Inr e))))"

definition baseline_ids :: "DesignCatalog \<Rightarrow> string list" where
  "baseline_ids c = dict_keys (filter (\<lambda>(_, d). entry_role d = BASELINE) (catalog_designs c))"

definition validate_catalog :: "DesignCatalog \<Rightarrow> DesignCatalog result" where
  "validate_catalog c =
     rbind (ensure (catalog_version c = 1) ''unsupported schema version'') (\<lambda>_.
     rbind (ensure (catalog_designs c \<noteq> []) ''designs: at least 1 item'') (\<lambda>_.
     rbind (each (\<lambda>e. rbind (validate_entry e) (\<lambda>_. Inr ())) (dict_values (catalog_designs c))) (\<lambda>_.
     rbind (ensure (length (baseline_ids c) = 1) ''design catalog must define exactly one baseline'') (\<lambda>_.
     rbind (each (\<lambda>(i, d).
         rbind (ensure (short_identifier i) (''invalid design id: '' @ i)) (\<lambda>_.
         ensure (\<not> (entry_role d = CANDIDATE \<and>
             \<not> (case entry_based_on d of None \<Rightarrow> False | Some b \<Rightarrow> b \<in> set (baseline_ids c))))
           (''candidate '' @ i @ '' references unknown baseline: '' @
            (case entry_based_on d of None \<Rightarrow> ''None'' | Some b \<Rightarrow> b))))
       (catalog_designs c)) (\<lambda>_.
     rbind (ensure (distinct (map entry_intent (dict_values (catalog_designs c))))
       ''design intent paths must be unique'') (\<lambda>_.
       Inr c))))))"

section \<open>The network intent\<close>

record NodeIntent =
  ni_role :: NodeRole
  ni_prefixes :: "string list"

record LinkIntent =
  li_id :: string
  li_endpoints :: "string \<times> string"
  li_cost :: int

record NetworkIntent =
  intent_version :: int
  intent_nodes :: "NodeIntent dict"
  intent_links :: "LinkIntent list"

definition validate_prefixes :: "NodeIntent \<Rightarrow> unit result" where
  "validate_prefixes n =
     rbind (ensure (distinct (ni_prefixes n)) ''node prefixes must be unique'') (\<lambda>_.
       each (\<lambda>p. ensure (ip_network_ok p) (''invalid canonical prefix: '' @ p)) (ni_prefixes n))"

definition validate_link_intent :: "LinkIntent \<Rightarrow> unit result" where
  "validate_link_intent l =
     rbind (ensure (is_identifier (li_id l)) ''id: string should match pattern'') (\<lambda>_.
     rbind (each (\<lambda>e. ensure (is_identifier e) (''invalid endpoint name: '' @ e))
       [fst (li_endpoints l), snd (li_endpoints l)]) (\<lambda>_.
       ensure (0 < li_cost l) ''cost: greater than 0''))"

definition check_link_reference :: "NodeIntent dict \<Rightarrow> LinkIntent \<Rightarrow> unit result" where
  "check_link_reference nodes l =
     (case li_endpoints l of (a, b) \<Rightarrow>
        rbind (ensure (a \<noteq> b) (''self link is not allowed: '' @ li_id l)) (\<lambda>_.
          (let unknown = filter (\<lambda>e. e \<notin> set (dict_keys nodes)) [a, b]
           in ensure (unknown = [])
             (''unknown endpoint in '' @ li_id l @ '': '' @ join '', '' (sort unknown)))))"

text \<open>The nested loop over the nodes and their prefixes, with the owners seen so far.\<close>

fun claim_prefixes :: "string dict \<Rightarrow> string \<Rightarrow> string list \<Rightarrow> string dict result" where
  "claim_prefixes owners name [] = Inr owners"
| "claim_prefixes owners name (p # ps) =
     (case map_of owners p of
        Some owner \<Rightarrow> Inl (ValueError (''duplicate prefix '' @ p @ '': '' @ owner @ '', '' @ name))
      | None \<Rightarrow> claim_prefixes (dict_set p name owners) name ps)"

definition prefix_owners :: "NodeIntent dict \<Rightarrow> string dict result" where
  "prefix_owners nodes = fold_res (\<lambda>owners (name, n). claim_prefixes owners name (ni_prefixes n)) [] nodes"

definition validate_graph_references :: "NetworkIntent \<Rightarrow> NetworkIntent result" where
  "validate_graph_references i =
     rbind (each (\<lambda>name. ensure (is_identifier name) (''invalid node name: '' @ name))
       (dict_keys (intent_nodes i))) (\<lambda>_.
     rbind (ensure (distinct (map li_id (intent_links i))) ''duplicate link id'') (\<lambda>_.
     rbind (each (check_link_reference (intent_nodes i)) (intent_links i)) (\<lambda>_.
     rbind (prefix_owners (intent_nodes i)) (\<lambda>_.
       Inr i))))"

definition validate_intent :: "NetworkIntent \<Rightarrow> NetworkIntent result" where
  "validate_intent i =
     rbind (ensure (intent_version i = 1) ''unsupported schema version'') (\<lambda>_.
     rbind (ensure (intent_nodes i \<noteq> []) ''nodes: at least 1 item'') (\<lambda>_.
     rbind (each validate_prefixes (dict_values (intent_nodes i))) (\<lambda>_.
     rbind (ensure (intent_links i \<noteq> []) ''links: at least 1 item'') (\<lambda>_.
     rbind (each validate_link_intent (intent_links i)) (\<lambda>_.
       validate_graph_references i)))))"

definition intent_node :: "string \<times> NodeIntent \<Rightarrow> Node" where
  "intent_node p =
     \<lparr>node_name = fst p, node_role = ni_role (snd p), node_prefixes = ni_prefixes (snd p)\<rparr>"

definition intent_link :: "LinkIntent \<Rightarrow> Link" where
  "intent_link l =
     \<lparr>link_id = li_id l, endpoint_a = fst (li_endpoints l), endpoint_b = snd (li_endpoints l),
      link_cost = li_cost l\<rparr>"

definition to_topology :: "NetworkIntent \<Rightarrow> Topology result" where
  "to_topology i = mk_topology (map intent_node (intent_nodes i)) (map intent_link (intent_links i))"

text \<open>
  \<open>load_intent\<close> and \<open>load_topologies\<close>: reading and parsing a file is the parameter
  \<open>document\<close>; what is read is validated before it is used.
\<close>

definition load_intent :: "(string \<Rightarrow> NetworkIntent result) \<Rightarrow> string \<Rightarrow> NetworkIntent result" where
  "load_intent document path = rbind (document path) validate_intent"

definition load_topologies ::
  "(string \<Rightarrow> NetworkIntent result) \<Rightarrow> DesignCatalog \<Rightarrow> Topology dict result" where
  "load_topologies document c =
     traverse (\<lambda>(design_id, d).
       rbind (load_intent document (entry_intent d)) (\<lambda>i.
       rbind (to_topology i) (\<lambda>t. Inr (design_id, t)))) (catalog_designs c)"

section \<open>What validation establishes\<close>

lemma claim_prefixes_Inr:
  "claim_prefixes owners name ps = Inr owners' \<longleftrightarrow>
   distinct ps \<and> set ps \<inter> set (dict_keys owners) = {} \<and> owners' = owners @ map (\<lambda>p. (p, name)) ps"
proof (induction owners name ps arbitrary: owners' rule: claim_prefixes.induct)
  case (2 owners name p ps)
  show ?case
  proof (cases "map_of owners p")
    case None
    then have "p \<notin> fst ` set owners" by (simp add: map_of_None_keys)
    then show ?thesis using 2 [OF None] None by (auto simp: dict_set_new)
  next
    case (Some owner)
    then have "p \<in> fst ` set owners" by (rule map_of_Some_keys)
    with Some show ?thesis by auto
  qed
qed auto

definition owned_prefixes :: "NodeIntent dict \<Rightarrow> string list" where
  "owned_prefixes nodes = concat (map (\<lambda>p. ni_prefixes (snd p)) nodes)"

lemma owned_prefixes_simps [simp]:
  "owned_prefixes [] = []"
  "owned_prefixes (p # nodes) = ni_prefixes (snd p) @ owned_prefixes nodes"
  by (simp_all add: owned_prefixes_def)

lemma prefix_owners_from:
  "(\<exists>owners'. fold_res (\<lambda>owners (name, n). claim_prefixes owners name (ni_prefixes n)) owners nodes =
      Inr owners') \<longleftrightarrow>
   distinct (owned_prefixes nodes) \<and> set (owned_prefixes nodes) \<inter> set (dict_keys owners) = {}"
proof (induction nodes arbitrary: owners)
  case (Cons p nodes)
  obtain name n where p: "p = (name, n)" by fastforce
  let ?claimed = "owners @ map (\<lambda>q. (q, name)) (ni_prefixes n)"
  have "(\<exists>r. fold_res (\<lambda>owners (name, n). claim_prefixes owners name (ni_prefixes n)) owners (p # nodes) = Inr r)
      \<longleftrightarrow> distinct (ni_prefixes n) \<and> set (ni_prefixes n) \<inter> set (dict_keys owners) = {} \<and>
        (\<exists>r. fold_res (\<lambda>owners (name, n). claim_prefixes owners name (ni_prefixes n)) ?claimed nodes = Inr r)"
    by (auto simp: p rbind_eq_Inr claim_prefixes_Inr)
  also have "\<dots> \<longleftrightarrow> distinct (owned_prefixes (p # nodes)) \<and>
      set (owned_prefixes (p # nodes)) \<inter> set (dict_keys owners) = {}"
    unfolding Cons.IH by (auto simp: p comp_def)
  finally show ?case .
qed simp

lemma prefix_owners_Inr:
  "(\<exists>owners. prefix_owners nodes = Inr owners) \<longleftrightarrow> distinct (owned_prefixes nodes)"
  using prefix_owners_from [of "[]" nodes] by (simp add: prefix_owners_def)

lemma check_link_reference_Inr:
  "check_link_reference nodes l = Inr u \<longleftrightarrow>
   fst (li_endpoints l) \<noteq> snd (li_endpoints l) \<and>
   {fst (li_endpoints l), snd (li_endpoints l)} \<subseteq> set (dict_keys nodes)"
  by (cases "li_endpoints l") (auto simp: check_link_reference_def Let_def rbind_eq_Inr)

text \<open>The conditions a valid intent meets.\<close>

definition intent_ok :: "NetworkIntent \<Rightarrow> bool" where
  "intent_ok i =
     (intent_version i = 1 \<and> intent_nodes i \<noteq> [] \<and> intent_links i \<noteq> [] \<and>
      list_all (\<lambda>(name, n). is_identifier name \<and> list_all ip_network_ok (ni_prefixes n)) (intent_nodes i) \<and>
      distinct (owned_prefixes (intent_nodes i)) \<and>
      distinct (map li_id (intent_links i)) \<and>
      list_all (\<lambda>l. is_identifier (li_id l) \<and> 0 < li_cost l \<and>
        fst (li_endpoints l) \<noteq> snd (li_endpoints l) \<and>
        fst (li_endpoints l) \<in> set (dict_keys (intent_nodes i)) \<and>
        snd (li_endpoints l) \<in> set (dict_keys (intent_nodes i))) (intent_links i))"

lemma distinct_owned_prefixes:
  "distinct (owned_prefixes nodes) \<Longrightarrow> n \<in> snd ` set nodes \<Longrightarrow> distinct (ni_prefixes n)"
  by (induction nodes) auto

lemma validate_graph_references_Inr:
  "validate_graph_references i = Inr j \<longleftrightarrow>
   j = i \<and> list_all is_identifier (dict_keys (intent_nodes i)) \<and>
   distinct (map li_id (intent_links i)) \<and> distinct (owned_prefixes (intent_nodes i)) \<and>
   list_all (\<lambda>l. fst (li_endpoints l) \<noteq> snd (li_endpoints l) \<and>
     fst (li_endpoints l) \<in> set (dict_keys (intent_nodes i)) \<and>
     snd (li_endpoints l) \<in> set (dict_keys (intent_nodes i))) (intent_links i)"
proof -
  have "validate_graph_references i = Inr j \<longleftrightarrow> j = i \<and>
      list_all is_identifier (dict_keys (intent_nodes i)) \<and>
      distinct (map li_id (intent_links i)) \<and>
      (\<forall>l \<in> set (intent_links i). check_link_reference (intent_nodes i) l = Inr ()) \<and>
      (\<exists>owners. prefix_owners (intent_nodes i) = Inr owners)"
    unfolding validate_graph_references_def
    by (auto simp: rbind_eq_Inr each_eq_Inr list_all_iff)
  then show ?thesis
    unfolding prefix_owners_Inr check_link_reference_Inr by (auto simp: list_all_iff)
qed

lemma validate_link_intent_Inr:
  "validate_link_intent l = Inr u \<longleftrightarrow>
   is_identifier (li_id l) \<and> is_identifier (fst (li_endpoints l)) \<and>
   is_identifier (snd (li_endpoints l)) \<and> 0 < li_cost l"
  by (auto simp: validate_link_intent_def rbind_eq_Inr)

lemma validate_prefixes_Inr:
  "validate_prefixes n = Inr u \<longleftrightarrow> distinct (ni_prefixes n) \<and> list_all ip_network_ok (ni_prefixes n)"
  by (auto simp: validate_prefixes_def rbind_eq_Inr each_eq_Inr list_all_iff)

lemma validate_intent_Inr: "validate_intent i = Inr j \<longleftrightarrow> j = i \<and> intent_ok i"
proof -
  have "validate_intent i = Inr j \<longleftrightarrow> intent_version i = 1 \<and> intent_nodes i \<noteq> [] \<and>
      (\<forall>n \<in> snd ` set (intent_nodes i). validate_prefixes n = Inr ()) \<and>
      intent_links i \<noteq> [] \<and> (\<forall>l \<in> set (intent_links i). validate_link_intent l = Inr ()) \<and>
      validate_graph_references i = Inr j"
    unfolding validate_intent_def by (auto simp: rbind_eq_Inr each_eq_Inr)
  also have "\<dots> \<longleftrightarrow> j = i \<and> intent_ok i"
  proof -
    have names: "list_all is_identifier (dict_keys (intent_nodes i)) \<and>
        (\<forall>n \<in> snd ` set (intent_nodes i). list_all ip_network_ok (ni_prefixes n)) \<longleftrightarrow>
        list_all (\<lambda>(name, n). is_identifier name \<and> list_all ip_network_ok (ni_prefixes n)) (intent_nodes i)"
      by (auto simp: list_all_iff)
    have ends: "is_identifier (fst (li_endpoints l)) \<and> is_identifier (snd (li_endpoints l))"
      if "list_all is_identifier (dict_keys (intent_nodes i))"
        "fst (li_endpoints l) \<in> set (dict_keys (intent_nodes i))"
        "snd (li_endpoints l) \<in> set (dict_keys (intent_nodes i))" for l
      using that unfolding list_all_iff by blast
    show ?thesis
      unfolding validate_prefixes_Inr validate_link_intent_Inr validate_graph_references_Inr
        intent_ok_def names [symmetric]
      using distinct_owned_prefixes [of "intent_nodes i"] ends unfolding list_all_iff by blast
  qed
  finally show ?thesis .
qed

lemma to_topology_ok:
  assumes "intent_ok i" "distinct (dict_keys (intent_nodes i))"
  shows "to_topology i = Inr
    \<lparr>nodes_by_name = map (\<lambda>p. (fst p, intent_node p)) (intent_nodes i),
     links_by_id = map (\<lambda>l. (li_id l, intent_link l)) (intent_links i)\<rparr>"
  using assms unfolding to_topology_def mk_topology_eq intent_ok_def
  by (auto simp: intent_node_def intent_link_def comp_def list_all_iff image_image)

lemma validate_entry_Inr:
  "validate_entry e = Inr e' \<longleftrightarrow> e' = e \<and> intent_file (entry_intent e) \<and>
   (case entry_role e of
      BASELINE \<Rightarrow> entry_based_on e = None
    | CANDIDATE \<Rightarrow> (\<exists>b. entry_based_on e = Some b \<and> short_identifier b))"
  by (cases "entry_role e"; cases "entry_based_on e") (auto simp: validate_entry_def rbind_eq_Inr)

section \<open>Properties\<close>

text \<open>The lab intent and the lab catalog as documents.\<close>

definition lab_intent :: NetworkIntent where
  "lab_intent =
     \<lparr>intent_version = 1,
      intent_nodes = map (\<lambda>n. (node_name n, \<lparr>ni_role = node_role n, ni_prefixes = node_prefixes n\<rparr>)) lab_nodes,
      intent_links = map (\<lambda>l. \<lparr>li_id = link_id l, li_endpoints = (endpoint_a l, endpoint_b l),
        li_cost = link_cost l\<rparr>) lab_links\<rparr>"

definition lab_catalog :: DesignCatalog where
  "lab_catalog =
     \<lparr>catalog_version = 1,
      catalog_designs =
        [(''historical-baseline'', \<lparr>entry_intent = ''intent.yml'', entry_role = BASELINE, entry_based_on = None\<rparr>),
         (''service-dual-homed'', \<lparr>entry_intent = ''intent-dual-homed.yml'', entry_role = CANDIDATE,
            entry_based_on = Some ''historical-baseline''\<rparr>)]\<rparr>"

definition lab_documents :: "string \<Rightarrow> NetworkIntent result" where
  "lab_documents path =
     (if path = ''intent.yml'' then Inr lab_intent
      else Inr (lab_intent\<lparr>intent_links := intent_links lab_intent @
        [\<lparr>li_id = ''core2--service-host'', li_endpoints = (''core2'', ''service-host''), li_cost = 30\<rparr>]\<rparr>))"

text \<open>
  Validation of a network intent succeeds exactly on version 1 documents with nodes
  and links, identifier names, canonical prefixes that no two nodes (nor one node twice)
  own, distinct link ids, positive costs and links between two different known nodes; it
  returns the document unchanged.
\<close>

theorem intent_validation_exact:
  "validate_intent i = Inr j \<longleftrightarrow>
   j = i \<and> intent_version i = 1 \<and> intent_nodes i \<noteq> [] \<and> intent_links i \<noteq> [] \<and>
   (\<forall>(name, n) \<in> set (intent_nodes i). is_identifier name \<and> (\<forall>p \<in> set (ni_prefixes n). ip_network_ok p)) \<and>
   distinct (concat (map (\<lambda>p. ni_prefixes (snd p)) (intent_nodes i))) \<and>
   distinct (map li_id (intent_links i)) \<and>
   (\<forall>l \<in> set (intent_links i). is_identifier (li_id l) \<and> 0 < li_cost l \<and>
      fst (li_endpoints l) \<noteq> snd (li_endpoints l) \<and>
      {fst (li_endpoints l), snd (li_endpoints l)} \<subseteq> set (dict_keys (intent_nodes i)))"
  unfolding validate_intent_Inr intent_ok_def owned_prefixes_def list_all_iff by auto

theorem intent_validation_exact_witness:
  "validate_intent lab_intent = Inr lab_intent \<and>
   distinct (concat (map (\<lambda>p. ni_prefixes (snd p)) (intent_nodes lab_intent)))"
proof -
  have v: "validate_intent lab_intent = Inr lab_intent" by code_simp
  with iffD1 [OF intent_validation_exact v] show ?thesis by blast
qed

text \<open>
  Every intent that validation lets through builds a topology without an error, and
  the topology holds the intent's nodes with their roles and prefixes and its links with
  their endpoints and costs, in document order.
\<close>

theorem validated_intent_builds:
  assumes "load_intent document path = Inr i" "distinct (dict_keys (intent_nodes i))"
  shows "\<exists>t. to_topology i = Inr t \<and> wf_topology t \<and>
    map (\<lambda>n. (node_name n, node_role n, node_prefixes n)) (dict_values (nodes_by_name t)) =
      map (\<lambda>(name, n). (name, ni_role n, ni_prefixes n)) (intent_nodes i) \<and>
    map (\<lambda>l. (link_id l, (endpoint_a l, endpoint_b l), link_cost l)) (dict_values (links_by_id t)) =
      map (\<lambda>l. (li_id l, li_endpoints l, li_cost l)) (intent_links i)"
proof -
  have "intent_ok i"
    using assms(1) by (auto simp: load_intent_def rbind_eq_Inr validate_intent_Inr)
  from to_topology_ok [OF this assms(2)] have t: "to_topology i = Inr
    \<lparr>nodes_by_name = map (\<lambda>p. (fst p, intent_node p)) (intent_nodes i),
     links_by_id = map (\<lambda>l. (li_id l, intent_link l)) (intent_links i)\<rparr>" .
  from mk_topology_wf [OF this [unfolded to_topology_def]] t show ?thesis
    by (auto simp: comp_def intent_node_def intent_link_def)
qed

theorem validated_intent_builds_witness:
  "\<exists>t. to_topology lab_intent = Inr t \<and> wf_topology t"
proof -
  have "load_intent lab_documents ''intent.yml'' = Inr lab_intent" by code_simp
  moreover have "distinct (dict_keys (intent_nodes lab_intent))" by code_simp
  ultimately show ?thesis using validated_intent_builds by blast
qed

lemma validate_catalog_Inr:
  "validate_catalog c = Inr c' \<longleftrightarrow> c' = c \<and> catalog_version c = 1 \<and> catalog_designs c \<noteq> [] \<and>
   (\<forall>e \<in> snd ` set (catalog_designs c). validate_entry e = Inr e) \<and>
   length (baseline_ids c) = 1 \<and>
   (\<forall>(i, d) \<in> set (catalog_designs c). short_identifier i \<and>
      (entry_role d = CANDIDATE \<longrightarrow> (\<exists>b \<in> set (baseline_ids c). entry_based_on d = Some b))) \<and>
   distinct (map entry_intent (dict_values (catalog_designs c)))"
proof -
  have entry: "rbind (validate_entry e) (\<lambda>_. Inr ()) = Inr () \<longleftrightarrow> validate_entry e = Inr e" for e
    by (auto simp: rbind_eq_Inr validate_entry_Inr)
  have based: "\<not> (entry_role d = CANDIDATE \<and>
        \<not> (case entry_based_on d of None \<Rightarrow> False | Some b \<Rightarrow> b \<in> set (baseline_ids c))) \<longleftrightarrow>
      (entry_role d = CANDIDATE \<longrightarrow> (\<exists>b \<in> set (baseline_ids c). entry_based_on d = Some b))" for d
    by (auto split: option.splits)
  show ?thesis
    unfolding validate_catalog_def rbind_eq_Inr each_eq_Inr ensure_simps entry based
    using validate_entry_Inr by (auto simp: split_beta rbind_eq_Inr)
qed

text \<open>
  A validated catalog has exactly one baseline design; every other design is a
  candidate based on that baseline, and no two designs share an intent file.
\<close>

theorem catalog_single_baseline:
  assumes "validate_catalog c = Inr c'" "distinct (dict_keys (catalog_designs c))"
  shows "\<exists>b. (\<forall>i d. (i, d) \<in> set (catalog_designs c') \<longrightarrow>
      (if i = b then entry_role d = BASELINE \<and> entry_based_on d = None
       else entry_role d = CANDIDATE \<and> entry_based_on d = Some b)) \<and>
    b \<in> set (dict_keys (catalog_designs c')) \<and>
    (\<forall>i d j e. (i, d) \<in> set (catalog_designs c') \<longrightarrow> (j, e) \<in> set (catalog_designs c') \<longrightarrow>
      entry_intent d = entry_intent e \<longrightarrow> i = j)"
proof -
  note ok = assms(1) [unfolded validate_catalog_Inr]
  then obtain b where b: "baseline_ids c = [b]" by (auto simp: length_Suc_conv)
  have base: "entry_role d = BASELINE \<longleftrightarrow> i = b" if "(i, d) \<in> set (catalog_designs c)" for i d
  proof
    assume "entry_role d = BASELINE"
    with that have "i \<in> set (baseline_ids c)" by (force simp: baseline_ids_def)
    then show "i = b" by (simp add: b)
  next
    assume "i = b"
    have "b \<in> set (baseline_ids c)" by (simp add: b)
    then obtain d' where "(b, d') \<in> set (catalog_designs c)" "entry_role d' = BASELINE"
      unfolding baseline_ids_def by auto
    with that \<open>i = b\<close> show "entry_role d = BASELINE" using eq_key_imp_eq_value [OF assms(2)] by blast
  qed
  have role: "entry_role d = CANDIDATE \<longleftrightarrow> entry_role d \<noteq> BASELINE" for d
    by (cases "entry_role d") simp_all
  have cand: "entry_based_on d = Some b" if "(i, d) \<in> set (catalog_designs c)" "entry_role d = CANDIDATE" for i d
    using ok that b by fastforce
  have none: "entry_based_on d = None" if "(i, d) \<in> set (catalog_designs c)" "entry_role d = BASELINE" for i d
    using ok that by (force simp: validate_entry_Inr)
  have files: "i = j" if "(i, d) \<in> set (catalog_designs c)" "(j, e) \<in> set (catalog_designs c)"
    "entry_intent d = entry_intent e" for i d j e
  proof -
    have "inj_on (\<lambda>p. entry_intent (snd p)) (set (catalog_designs c))"
      using ok by (auto simp: distinct_map comp_def dest: comp_inj_on)
    from inj_onD [OF this, of "(i, d)" "(j, e)"] that show ?thesis by simp
  qed
  have "b \<in> set (baseline_ids c)" by (simp add: b)
  then have "b \<in> set (dict_keys (catalog_designs c))" by (auto simp: baseline_ids_def)
  then show ?thesis
    using ok base role cand none files by (intro exI [of _ b]) (auto simp del: set_map)
qed

theorem catalog_single_baseline_witness:
  "\<exists>b. entry_based_on (snd (catalog_designs lab_catalog ! 1)) = Some b"
proof -
  have v: "validate_catalog lab_catalog = Inr lab_catalog" by code_simp
  have d: "distinct (dict_keys (catalog_designs lab_catalog))" by code_simp
  have "(''service-dual-homed'', \<lparr>entry_intent = ''intent-dual-homed.yml'', entry_role = CANDIDATE,
      entry_based_on = Some ''historical-baseline''\<rparr>) \<in> set (catalog_designs lab_catalog)"
    by (simp add: lab_catalog_def)
  with catalog_single_baseline [OF v d] have "\<exists>b. Some ''historical-baseline'' = Some b"
    by (metis DesignCatalogEntry.select_convs(2,3) DesignRole.distinct(1))
  then show ?thesis by (simp add: lab_catalog_def)
qed

text \<open>
  Loading the designs of a catalog builds one well-formed topology per design, under
  the design's id and in catalog order; the only errors are those of reading or validating
  an intent file, never one of the topology constructor.
\<close>

theorem load_topologies_per_design:
  assumes keys: "\<And>path i. document path = Inr i \<Longrightarrow> distinct (dict_keys (intent_nodes i))"
  shows "case load_topologies document c of
      Inr ts \<Rightarrow> dict_keys ts = dict_keys (catalog_designs c) \<and> (\<forall>t \<in> set (dict_values ts). wf_topology t)
    | Inl e \<Rightarrow> \<exists>d \<in> set (dict_values (catalog_designs c)). load_intent document (entry_intent d) = Inl e"
proof -
  let ?load = "\<lambda>(design_id, d). rbind (load_intent document (entry_intent d)) (\<lambda>i.
    rbind (to_topology i) (\<lambda>t. Inr (design_id, t)))"
  have build: "\<exists>t. to_topology i = Inr t \<and> wf_topology t" if "load_intent document path = Inr i" for path i
  proof -
    from that have "intent_ok i" "document path = Inr i"
      by (auto simp: load_intent_def rbind_eq_Inr validate_intent_Inr)
    with to_topology_ok keys have "\<exists>t. to_topology i = Inr t" by blast
    then show ?thesis using mk_topology_wf unfolding to_topology_def by blast
  qed
  have built: "dict_keys ts = dict_keys (catalog_designs c) \<and> (\<forall>t \<in> set (dict_values ts). wf_topology t)"
    if "load_topologies document c = Inr ts" for ts
  proof -
    have all: "list_all2 (\<lambda>x y. ?load x = Inr y) (catalog_designs c) ts"
      using that unfolding load_topologies_def traverse_eq_Inr .
    then have "dict_keys ts = dict_keys (catalog_designs c)"
      by (rule list_all2_map_snd) (auto simp: rbind_eq_Inr split: prod.splits)
    moreover have "wf_topology t" if "t \<in> set (dict_values ts)" for t
    proof -
      from that obtain k where "(k, t) \<in> set ts" by auto
      from list_all2_in_set2 [OF all this] show ?thesis
        using build by (fastforce simp: rbind_eq_Inr)
    qed
    ultimately show ?thesis by blast
  qed
  have failed: "\<exists>d \<in> set (dict_values (catalog_designs c)). load_intent document (entry_intent d) = Inl e"
    if "load_topologies document c = Inl e" for e
  proof -
    from that obtain i d where d: "(i, d) \<in> set (catalog_designs c)" "?load (i, d) = Inl e"
      unfolding load_topologies_def by (auto dest!: traverse_eq_Inl)
    then have "load_intent document (entry_intent d) = Inl e"
      using build by (fastforce simp: rbind_eq_Inl)
    with d(1) show ?thesis by force
  qed
  show ?thesis using built failed by (auto simp del: set_map split: sum.splits)
qed

theorem load_topologies_per_design_witness:
  "\<exists>ts. load_topologies lab_documents lab_catalog = Inr ts \<and>
     dict_keys ts = [''historical-baseline'', ''service-dual-homed'']"
proof -
  have keys: "distinct (dict_keys (intent_nodes i))" if "lab_documents path = Inr i" for path i
  proof -
    have "distinct (dict_keys (intent_nodes lab_intent))" by code_simp
    then show ?thesis using that by (auto simp: lab_documents_def split: if_splits)
  qed
  have "case load_topologies lab_documents lab_catalog of Inl e \<Rightarrow> False | Inr ts \<Rightarrow> True"
    by code_simp
  then obtain ts where ts: "load_topologies lab_documents lab_catalog = Inr ts"
    by (auto split: sum.splits)
  with load_topologies_per_design [of lab_documents lab_catalog, OF keys] show ?thesis
    by (simp add: lab_catalog_def)
qed

end
