(* ===== verification/Prometheus_Text.thy ===== *)
theory Prometheus_Text
  imports Sentinel_Prelude
begin

text \<open>
  The text format the metric renderers share: \<open>_escape_prometheus_label\<close>, comment lines and
  samples, and the joining of lines. Escaping is inverted by the exposition format's own
  unescaping, so two label values never collide.
\<close>

definition backslash :: char where
  "backslash = CHR 0x5C"

definition quote :: char where
  "quote = CHR 0x22"

text \<open>\<open>value.replace("\\", "\\\\").replace("\n", "\\n").replace('"', '\\"')\<close>\<close>

definition escape_label :: "string \<Rightarrow> string" where
  "escape_label s =
     replace_char quote [backslash, quote]
       (replace_char newline [backslash, CHR ''n'']
         (replace_char backslash [backslash, backslash] s))"

text \<open>How the exposition format reads an escaped label.\<close>

fun unescape_label :: "string \<Rightarrow> string" where
  "unescape_label [] = []"
| "unescape_label [c] = [c]"
| "unescape_label (c # d # s) =
     (if c = backslash then (if d = CHR ''n'' then newline else d) # unescape_label s
      else c # unescape_label (d # s))"

definition escape_char :: "char \<Rightarrow> string" where
  "escape_char c =
     (if c = backslash then [backslash, backslash]
      else if c = newline then [backslash, CHR ''n'']
      else if c = quote then [backslash, quote]
      else [c])"

lemma special_chars [simp]:
  "backslash \<noteq> newline" "backslash \<noteq> quote" "newline \<noteq> quote" "backslash \<noteq> CHR ''n''"
  "newline \<noteq> backslash" "quote \<noteq> backslash" "quote \<noteq> newline" "quote \<noteq> CHR ''n''"
  "newline \<noteq> CHR ''n''" "CHR ''n'' \<noteq> backslash" "CHR ''n'' \<noteq> newline" "CHR ''n'' \<noteq> quote"
  by (simp_all add: backslash_def newline_def quote_def)

lemma replace_char_append: "replace_char c r (xs @ ys) = replace_char c r xs @ replace_char c r ys"
  by (simp add: replace_char_def)

lemma escape_label_simps: "escape_label [] = []" "escape_label (c # s) = escape_char c @ escape_label s"
  by (auto simp: escape_label_def escape_char_def replace_char_def)

lemma unescape_plain: "c \<noteq> backslash \<Longrightarrow> unescape_label (c # s) = c # unescape_label s"
  by (cases s) auto

lemma unescape_escape: "unescape_label (escape_label s) = s"
proof (induction s)
  case (Cons c s)
  then show ?case by (auto simp: escape_label_simps escape_char_def unescape_plain)
qed (simp add: escape_label_simps)

lemma escape_label_inj: "escape_label s = escape_label s' \<longleftrightarrow> s = s'"
  by (metis unescape_escape)

text \<open>An escaped label never ends the quoted value or the line early.\<close>

lemma escape_label_no_newline: "newline \<notin> set (escape_label s)"
  by (induction s) (auto simp: escape_label_simps escape_char_def)

lemma escape_label_clean: "quote \<notin> set s \<Longrightarrow> backslash \<notin> set s \<Longrightarrow> newline \<notin> set s \<Longrightarrow> escape_label s = s"
  by (induction s) (auto simp: escape_label_simps escape_char_def)

section \<open>Lines\<close>

definition help_line :: "string \<Rightarrow> string \<Rightarrow> string" where
  "help_line metric description = ''# HELP '' @ metric @ '' '' @ description"

definition gauge_line :: "string \<Rightarrow> string" where
  "gauge_line metric = ''# TYPE '' @ metric @ '' gauge''"

definition label :: "string \<Rightarrow> string \<Rightarrow> string" where
  "label key v = key @ ''='' @ [quote] @ v @ [quote]"

definition sample_line :: "string \<Rightarrow> string list \<Rightarrow> string \<Rightarrow> string" where
  "sample_line metric labels v =
     metric @ (if labels = [] then [] else ''{'' @ join '','' labels @ ''}'') @ '' '' @ v"

definition bool_sample :: "bool \<Rightarrow> string" where
  "bool_sample b = (if b then ''1'' else ''0'')"

definition joined_lines :: "string list \<Rightarrow> string" where
  "joined_lines ls = join [newline] ls @ [newline]"

section \<open>Property\<close>

text \<open>
  Label escaping is lossless and safe: the exposition format's unescaping gives the
  value back, the escaped text holds no line break, and therefore two samples that differ
  in one label value are different lines.
\<close>

theorem label_round_trip:
  "unescape_label (escape_label v) = v \<and> newline \<notin> set (escape_label v) \<and>
   (sample_line metric (pre @ [label key (escape_label v)] @ post) n =
      sample_line metric (pre @ [label key (escape_label w)] @ post) n) = (v = w)"
proof -
  have join_mid: "join sep (pre @ [x] @ post) = join sep (pre @ [y] @ post) \<Longrightarrow> x = y"
    for sep x y and pre post :: "string list"
  proof (induction pre)
    case Nil
    then show ?case by (cases post) auto
  next
    case (Cons p pre)
    then show ?case by (cases pre) auto
  qed
  have "label key x = label key y \<longleftrightarrow> x = y" for x y by (simp add: label_def)
  moreover have "label key (escape_label v) = label key (escape_label w)"
    if "sample_line metric (pre @ [label key (escape_label v)] @ post) n =
      sample_line metric (pre @ [label key (escape_label w)] @ post) n"
    by (rule join_mid [where sep = "'',''" and pre = pre and post = post])
      (use that in \<open>simp add: sample_line_def\<close>)
  ultimately have "(sample_line metric (pre @ [label key (escape_label v)] @ post) n =
      sample_line metric (pre @ [label key (escape_label w)] @ post) n) = (v = w)"
    using escape_label_inj by blast
  then show ?thesis using unescape_escape escape_label_no_newline by blast
qed

end
