(* ===== verification/Resilience.thy ===== *)
theory Resilience
  imports Fault_Audit Prometheus_Text
begin

text \<open>
  \<open>resilience.py\<close>: the N-1 audits of all single links and all transport nodes, built on
  the fault audit, and their metrics.
\<close>

section \<open>The audits\<close>

record LinkFailureScenario =
  lf_link_id :: string
  lf_endpoints :: "string \<times> string"
  lf_service_impact :: ServiceImpact
  lf_affected_nodes :: "string list"
  lf_affected_prefixes :: "string list"

record ResilienceAudit =
  link_scenarios :: "LinkFailureScenario list"

record NodeFailureScenario =
  nf_node_name :: string
  nf_role :: NodeRole
  nf_service_impact :: ServiceImpact
  nf_affected_nodes :: "string list"
  nf_affected_prefixes :: "string list"

record NodeResilienceAudit =
  node_scenarios :: "NodeFailureScenario list"

definition link_count :: "ResilienceAudit \<Rightarrow> ServiceImpact \<Rightarrow> nat" where
  "link_count a impact =
     sum_list (map (\<lambda>s. if lf_service_impact s = impact then 1 else 0) (link_scenarios a))"

definition link_passes :: "ResilienceAudit \<Rightarrow> bool" where
  "link_passes a = (link_count a OUTAGE = 0)"

definition node_count :: "NodeResilienceAudit \<Rightarrow> ServiceImpact \<Rightarrow> nat" where
  "node_count a impact =
     sum_list (map (\<lambda>s. if nf_service_impact s = impact then 1 else 0) (node_scenarios a))"

definition node_passes :: "NodeResilienceAudit \<Rightarrow> bool" where
  "node_passes a = (node_count a OUTAGE = 0)"

definition link_scenario :: "Topology \<Rightarrow> FaultScenarioResult \<Rightarrow> LinkFailureScenario result" where
  "link_scenario t r =
     (case excluded_links (fr_fault r) of
        [] \<Rightarrow> Inl (RuntimeError ''StopIteration'')
      | lid # _ \<Rightarrow>
          rbind (topo_link t lid) (\<lambda>l.
            Inr \<lparr>lf_link_id = lid, lf_endpoints = (endpoint_a l, endpoint_b l),
              lf_service_impact = fr_service_impact r, lf_affected_nodes = fr_affected_nodes r,
              lf_affected_prefixes = fr_affected_prefixes r\<rparr>))"

definition audit_single_link_failures :: "Topology \<Rightarrow> ResilienceAudit result" where
  "audit_single_link_failures t =
     rbind (link_failure_scenarios t) (\<lambda>faults.
     rbind (audit_fault_scenarios t faults) (\<lambda>audit.
     rbind (traverse (link_scenario t) (audit_scenarios audit)) (\<lambda>scenarios.
       Inr \<lparr>link_scenarios = scenarios\<rparr>)))"

definition node_scenario :: "Topology \<Rightarrow> FaultScenarioResult \<Rightarrow> NodeFailureScenario result" where
  "node_scenario t r =
     (case excluded_nodes (fr_fault r) of
        [] \<Rightarrow> Inl (RuntimeError ''StopIteration'')
      | name # _ \<Rightarrow>
          rbind (topo_node t name) (\<lambda>n.
            Inr \<lparr>nf_node_name = name, nf_role = node_role n,
              nf_service_impact = fr_service_impact r, nf_affected_nodes = fr_affected_nodes r,
              nf_affected_prefixes = fr_affected_prefixes r\<rparr>))"

definition audit_single_node_failures :: "Topology \<Rightarrow> NodeResilienceAudit result" where
  "audit_single_node_failures t =
     rbind (transport_node_failure_scenarios t) (\<lambda>faults.
     rbind (audit_fault_scenarios t faults) (\<lambda>audit.
     rbind (traverse (node_scenario t) (audit_scenarios audit)) (\<lambda>scenarios.
       Inr \<lparr>node_scenarios = scenarios\<rparr>)))"

section \<open>Metrics\<close>

definition n1_link_sample :: "LinkFailureScenario \<Rightarrow> string" where
  "n1_link_sample s =
     sample_line ''telconet_n1_link_impact''
       [label ''impact'' (impact_value (lf_service_impact s)),
        label ''link_id'' (escape_label (lf_link_id s))] ''1''"

definition render_resilience_metrics :: "ResilienceAudit \<Rightarrow> string" where
  "render_resilience_metrics a =
     joined_lines
       ([help_line ''telconet_n1_design_pass''
           ''Whether every simulated single-link failure preserves service reachability.'',
         gauge_line ''telconet_n1_design_pass'',
         sample_line ''telconet_n1_design_pass'' [] (bool_sample (link_passes a)),
         help_line ''telconet_n1_scenarios_total'' ''Simulated single-link failures by impact.'',
         gauge_line ''telconet_n1_scenarios_total''] @
        map (\<lambda>impact. sample_line ''telconet_n1_scenarios_total''
          [label ''impact'' (impact_value impact)] (nat_str (link_count a impact))) all_impacts @
        [help_line ''telconet_n1_link_impact''
           ''Impact classification for each simulated link failure.'',
         gauge_line ''telconet_n1_link_impact''] @
        map n1_link_sample (link_scenarios a))"

definition render_candidate_resilience_metrics :: "ResilienceAudit \<Rightarrow> string" where
  "render_candidate_resilience_metrics a =
     join [newline]
       [help_line ''telconet_n1_candidate_design_pass''
          ''Whether every modeled single-link failure preserves candidate service reachability.'',
        gauge_line ''telconet_n1_candidate_design_pass'',
        sample_line ''telconet_n1_candidate_design_pass'' [] (bool_sample (link_passes a)),
        help_line ''telconet_n1_candidate_outages_total''
          ''Modeled single-link failures causing candidate service outage.'',
        gauge_line ''telconet_n1_candidate_outages_total'',
        sample_line ''telconet_n1_candidate_outages_total'' [] (nat_str (link_count a OUTAGE)),
        []]"

definition render_node_resilience_metrics :: "NodeResilienceAudit \<Rightarrow> string \<Rightarrow> string result" where
  "render_node_resilience_metrics a design =
     (if design \<noteq> ''baseline'' \<and> design \<noteq> ''candidate''
      then Inl (ValueError (''unsupported design: '' @ design))
      else
        (let prefix = ''telconet_n1_node'' @ (if design = ''candidate'' then ''_candidate'' else [])
         in Inr (join [newline]
           [help_line (prefix @ ''_design_pass'')
              (''Whether every modeled transport-node failure preserves '' @ design @ '' service reachability.''),
            gauge_line (prefix @ ''_design_pass''),
            sample_line (prefix @ ''_design_pass'') [] (bool_sample (node_passes a)),
            help_line (prefix @ ''_outages_total'')
              (''Modeled transport-node failures causing '' @ design @ '' service outage.''),
            gauge_line (prefix @ ''_outages_total''),
            sample_line (prefix @ ''_outages_total'') [] (nat_str (node_count a OUTAGE)),
            []])))"

section \<open>The audits cover every component\<close>

definition link_fault_of :: "Link \<Rightarrow> FaultScenario" where
  "link_fault_of l = \<lparr>fault_id = ''link:'' @ link_id l, fault_kind = LINK,
     excluded_links = [link_id l], excluded_nodes = []\<rparr>"

definition node_fault_of :: "Node \<Rightarrow> FaultScenario" where
  "node_fault_of n = \<lparr>fault_id = ''node:'' @ node_name n, fault_kind = NODE,
     excluded_links = [], excluded_nodes = [node_name n]\<rparr>"

lemma link_faults_eq:
  "wf_topology t \<Longrightarrow> identifier_names t \<Longrightarrow> link_failure_scenarios t = Inr (map link_fault_of (topo_links t))"
  by (simp add: link_failure_scenarios_eq link_fault_of_def)

lemma link_faults_known:
  "wf_topology t \<Longrightarrow> l \<in> set (topo_links t) \<Longrightarrow> fault_known t (link_fault_of l)"
  using wf_link_values set_topo_links by (simp add: fault_known_def link_fault_of_def)

lemma node_faults_known:
  "wf_topology t \<Longrightarrow> n \<in> set (topo_nodes t) \<Longrightarrow> fault_known t (node_fault_of n)"
  using topo_node_names_known by (simp add: fault_known_def node_fault_of_def)

lemma distinct_link_faults:
  "wf_topology t \<Longrightarrow> distinct (map fault_id (map link_fault_of (topo_links t)))"
  using distinct_topo_links [of t] by (auto simp: distinct_map link_fault_of_def inj_on_def)

lemma distinct_node_faults:
  "wf_topology t \<Longrightarrow> distinct (map fault_id (map node_fault_of (filter P (topo_nodes t))))"
  using distinct_topo_nodes [of t] by (auto simp: distinct_map node_fault_of_def inj_on_def)

lemma link_scenario_of:
  assumes wf: "wf_topology t" and l: "l \<in> set (topo_links t)" and s: "result_of t (link_fault_of l) s"
  shows "link_scenario t s = Inr \<lparr>lf_link_id = link_id l, lf_endpoints = (endpoint_a l, endpoint_b l),
    lf_service_impact = fr_service_impact s, lf_affected_nodes = fr_affected_nodes s,
    lf_affected_prefixes = fr_affected_prefixes s\<rparr>"
  using s l in_topo_links [OF wf] by (simp add: link_scenario_def result_of_def link_fault_of_def)

lemma node_scenario_of:
  assumes wf: "wf_topology t" and n: "n \<in> set (topo_nodes t)" and s: "result_of t (node_fault_of n) s"
  shows "node_scenario t s = Inr \<lparr>nf_node_name = node_name n, nf_role = node_role n,
    nf_service_impact = fr_service_impact s, nf_affected_nodes = fr_affected_nodes s,
    nf_affected_prefixes = fr_affected_prefixes s\<rparr>"
  using s n in_topo_nodes [OF wf] by (simp add: node_scenario_def result_of_def node_fault_of_def)

text \<open>What a scenario's impact says about the surviving walks.\<close>

definition all_served :: "Topology \<Rightarrow> string list \<Rightarrow> string list \<Rightarrow> bool" where
  "all_served t el en =
     (\<forall>a \<in> set (access_names t). a \<notin> set en \<and>
        (\<exists>v \<in> set (service_names t). v \<notin> set en \<and> reachable t el en a v))"

lemma exact_outage:
  "exact_result t el en impact nodes prefixes \<Longrightarrow> impact = OUTAGE \<longleftrightarrow> \<not> all_served t el en"
  unfolding exact_result_def all_served_def cut_off_def by blast

lemma result_outage:
  assumes wf: "wf_topology t" and s: "result_of t f s"
  shows "fr_service_impact s = OUTAGE \<longleftrightarrow> \<not> all_served t (excluded_links f) (excluded_nodes f)"
  by (rule exact_outage [OF result_exact(1) [OF wf s]])

lemma link_audit_run:
  assumes wf: "wf_topology t" and ids: "identifier_names t" and served: "served t"
    and links: "topo_links t \<noteq> []"
  shows "\<exists>a. audit_single_link_failures t = Inr a \<and>
    list_all2 (\<lambda>l s. lf_link_id s = link_id l \<and> lf_endpoints s = (endpoint_a l, endpoint_b l) \<and>
      (lf_service_impact s = OUTAGE \<longleftrightarrow> \<not> all_served t [link_id l] [])) (topo_links t) (link_scenarios a)"
proof -
  let ?faults = "map link_fault_of (topo_links t)"
  obtain r where r: "audit_fault_scenarios t ?faults = Inr r"
    using audit_accepts [OF wf, of ?faults] served links distinct_link_faults [OF wf] link_faults_known [OF wf]
    by auto
  have res: "list_all2 (\<lambda>l s. result_of t (link_fault_of l) s) (topo_links t) (audit_scenarios r)"
    using audit_results [OF r] by (simp add: list_all2_map1)
  have scen: "list_all2 (\<lambda>l s. link_scenario t s = Inr \<lparr>lf_link_id = link_id l,
      lf_endpoints = (endpoint_a l, endpoint_b l), lf_service_impact = fr_service_impact s,
      lf_affected_nodes = fr_affected_nodes s, lf_affected_prefixes = fr_affected_prefixes s\<rparr> \<and>
      (fr_service_impact s = OUTAGE \<longleftrightarrow> \<not> all_served t [link_id l] [])) (topo_links t) (audit_scenarios r)"
    using res
  proof (rule list.rel_mono_strong)
    fix l s assume l: "l \<in> set (topo_links t)" and s: "result_of t (link_fault_of l) s"
    from link_scenario_of [OF wf l s] result_outage [OF wf s]
    show "link_scenario t s = Inr \<lparr>lf_link_id = link_id l, lf_endpoints = (endpoint_a l, endpoint_b l),
        lf_service_impact = fr_service_impact s, lf_affected_nodes = fr_affected_nodes s,
        lf_affected_prefixes = fr_affected_prefixes s\<rparr> \<and>
        (fr_service_impact s = OUTAGE \<longleftrightarrow> \<not> all_served t [link_id l] [])"
      by (simp add: link_fault_of_def)
  qed
  let ?out = "map2 (\<lambda>l s. \<lparr>lf_link_id = link_id l, lf_endpoints = (endpoint_a l, endpoint_b l),
      lf_service_impact = fr_service_impact s, lf_affected_nodes = fr_affected_nodes s,
      lf_affected_prefixes = fr_affected_prefixes s\<rparr>) (topo_links t) (audit_scenarios r)"
  have "traverse (link_scenario t) (audit_scenarios r) = Inr ?out"
    using scen unfolding traverse_eq_Inr by (auto simp: list_all2_conv_all_nth)
  then have "audit_single_link_failures t = Inr \<lparr>link_scenarios = ?out\<rparr>"
    using r by (simp add: audit_single_link_failures_def link_faults_eq [OF wf ids])
  with scen show ?thesis by (auto simp: list_all2_conv_all_nth)
qed

lemma node_audit_run:
  fixes t :: Topology
  defines "transport \<equiv> filter (\<lambda>n. transport_role (node_role n)) (topo_nodes t)"
  assumes wf: "wf_topology t" and ids: "identifier_names t" and served: "served t"
    and nodes: "transport \<noteq> []"
  shows "\<exists>a. audit_single_node_failures t = Inr a \<and>
    list_all2 (\<lambda>n s. nf_node_name s = node_name n \<and> nf_role s = node_role n \<and>
      (nf_service_impact s = OUTAGE \<longleftrightarrow> \<not> all_served t [] [node_name n])) transport (node_scenarios a)"
proof -
  let ?faults = "map node_fault_of transport"
  have sub: "set transport \<subseteq> set (topo_nodes t)" by (auto simp: transport_def)
  have faults: "transport_node_failure_scenarios t = Inr ?faults"
    using nodes transport_node_failure_scenarios_eq [OF wf ids]
    by (auto simp: transport_def node_fault_of_def filter_empty_conv)
  have "distinct (map fault_id ?faults)" unfolding transport_def using distinct_node_faults [OF wf] .
  then obtain r where r: "audit_fault_scenarios t ?faults = Inr r"
    using audit_accepts [OF wf, of ?faults] served nodes node_faults_known [OF wf] sub by auto
  have res: "list_all2 (\<lambda>n s. result_of t (node_fault_of n) s) transport (audit_scenarios r)"
    using audit_results [OF r] by (simp add: list_all2_map1)
  have scen: "list_all2 (\<lambda>n s. node_scenario t s = Inr \<lparr>nf_node_name = node_name n, nf_role = node_role n,
      nf_service_impact = fr_service_impact s, nf_affected_nodes = fr_affected_nodes s,
      nf_affected_prefixes = fr_affected_prefixes s\<rparr> \<and>
      (fr_service_impact s = OUTAGE \<longleftrightarrow> \<not> all_served t [] [node_name n])) transport (audit_scenarios r)"
    using res
  proof (rule list.rel_mono_strong)
    fix n s assume n: "n \<in> set transport" and s: "result_of t (node_fault_of n) s"
    have "n \<in> set (topo_nodes t)" using n sub by blast
    from node_scenario_of [OF wf this s] result_outage [OF wf s]
    show "node_scenario t s = Inr \<lparr>nf_node_name = node_name n, nf_role = node_role n,
        nf_service_impact = fr_service_impact s, nf_affected_nodes = fr_affected_nodes s,
        nf_affected_prefixes = fr_affected_prefixes s\<rparr> \<and>
        (fr_service_impact s = OUTAGE \<longleftrightarrow> \<not> all_served t [] [node_name n])"
      by (simp add: node_fault_of_def)
  qed
  let ?out = "map2 (\<lambda>n s. \<lparr>nf_node_name = node_name n, nf_role = node_role n,
      nf_service_impact = fr_service_impact s, nf_affected_nodes = fr_affected_nodes s,
      nf_affected_prefixes = fr_affected_prefixes s\<rparr>) transport (audit_scenarios r)"
  have "traverse (node_scenario t) (audit_scenarios r) = Inr ?out"
    using scen unfolding traverse_eq_Inr by (auto simp: list_all2_conv_all_nth)
  then have "audit_single_node_failures t = Inr \<lparr>node_scenarios = ?out\<rparr>"
    using r by (simp add: audit_single_node_failures_def faults)
  with scen show ?thesis by (auto simp: list_all2_conv_all_nth)
qed

lemma lab_served: "served lab_topology"
  using audit_accepts [OF wf_lab_topology] lab_audit_run by blast

section \<open>Property\<close>

text \<open>
  The N-1 audits are complete and exact: on a served topology with identifier names
  they succeed, report every link (every aggregation or core node) once and in order, call
  an outage exactly the failures that leave some access node without a walk to a service
  node, and pass exactly when no single failure does.
\<close>

theorem n_minus_one_audits:
  assumes t: "mk_topology ns ls = Inr t" and ids: "identifier_names t" and served: "served t"
    and links: "topo_links t \<noteq> []" and nodes: "\<exists>n \<in> set (topo_nodes t). transport_role (node_role n)"
  shows "\<exists>a b. audit_single_link_failures t = Inr a \<and> audit_single_node_failures t = Inr b \<and>
    map lf_link_id (link_scenarios a) = map link_id (topo_links t) \<and>
    (\<forall>s \<in> set (link_scenarios a). lf_service_impact s = OUTAGE \<longleftrightarrow> \<not> all_served t [lf_link_id s] []) \<and>
    (link_passes a \<longleftrightarrow> (\<forall>l \<in> set (topo_links t). all_served t [link_id l] [])) \<and>
    map nf_node_name (node_scenarios b) =
      map node_name (filter (\<lambda>n. transport_role (node_role n)) (topo_nodes t)) \<and>
    (\<forall>s \<in> set (node_scenarios b). nf_service_impact s = OUTAGE \<longleftrightarrow> \<not> all_served t [] [nf_node_name s]) \<and>
    (node_passes b \<longleftrightarrow> (\<forall>n \<in> set (topo_nodes t). transport_role (node_role n) \<longrightarrow>
      all_served t [] [node_name n]))"
proof -
  note wf = mk_topology_wf [OF t]
  let ?transport = "filter (\<lambda>n. transport_role (node_role n)) (topo_nodes t)"
  have nodes': "?transport \<noteq> []" using nodes by (simp add: filter_empty_conv)
  obtain a where a: "audit_single_link_failures t = Inr a" and la: "list_all2 (\<lambda>l s. lf_link_id s = link_id l \<and>
      lf_endpoints s = (endpoint_a l, endpoint_b l) \<and>
      (lf_service_impact s = OUTAGE \<longleftrightarrow> \<not> all_served t [link_id l] [])) (topo_links t) (link_scenarios a)"
    using link_audit_run [OF wf ids served links] by blast
  obtain b where b: "audit_single_node_failures t = Inr b" and lb: "list_all2 (\<lambda>n s. nf_node_name s = node_name n \<and>
      nf_role s = node_role n \<and> (nf_service_impact s = OUTAGE \<longleftrightarrow> \<not> all_served t [] [node_name n]))
      ?transport (node_scenarios b)"
    using node_audit_run [OF wf ids served nodes'] by blast
  have ids_a: "map lf_link_id (link_scenarios a) = map link_id (topo_links t)"
    using la by (rule list_all2_map_snd) simp
  have ids_b: "map nf_node_name (node_scenarios b) = map node_name ?transport"
    using lb by (rule list_all2_map_snd) simp
  have each_a: "\<forall>s \<in> set (link_scenarios a). lf_service_impact s = OUTAGE \<longleftrightarrow> \<not> all_served t [lf_link_id s] []"
    using list_all2_in_set2 [OF la] by fastforce
  have each_b: "\<forall>s \<in> set (node_scenarios b). nf_service_impact s = OUTAGE \<longleftrightarrow> \<not> all_served t [] [nf_node_name s]"
    using list_all2_in_set2 [OF lb] by fastforce
  have pass_a: "link_passes a \<longleftrightarrow> (\<forall>l \<in> set (topo_links t). all_served t [link_id l] [])"
    unfolding link_passes_def link_count_def sum_list_bool_eq_0
    using list_all2_in_set1 [OF la] list_all2_in_set2 [OF la] by metis
  have "node_passes b \<longleftrightarrow> (\<forall>n \<in> set ?transport. all_served t [] [node_name n])"
    unfolding node_passes_def node_count_def sum_list_bool_eq_0
    using list_all2_in_set1 [OF lb] list_all2_in_set2 [OF lb] by metis
  then show ?thesis using a b ids_a ids_b each_a each_b pass_a by auto
qed

theorem n_minus_one_audits_witness:
  "\<not> all_served lab_topology [''core1--service-host''] [] \<and>
   (\<exists>a b. audit_single_link_failures lab_topology = Inr a \<and>
      audit_single_node_failures lab_topology = Inr b \<and> \<not> link_passes a \<and> length (node_scenarios b) = 4)"
proof -
  have ids: "identifier_names lab_topology" by code_simp
  have links: "topo_links lab_topology \<noteq> []" by code_simp
  have nodes: "\<exists>n \<in> set (topo_nodes lab_topology). transport_role (node_role n)" by code_simp
  note served = lab_served
  have "\<exists>l \<in> set (topo_links lab_topology). link_id l = ''core1--service-host''" by code_simp
  then obtain l where l: "l \<in> set (topo_links lab_topology)" "link_id l = ''core1--service-host''" by blast
  have out: "case audit_single_link_failures lab_topology of Inl e \<Rightarrow> False | Inr a \<Rightarrow>
      \<exists>s \<in> set (link_scenarios a). lf_link_id s = ''core1--service-host'' \<and> lf_service_impact s = OUTAGE"
    by code_simp
  have four: "length (filter (\<lambda>n. transport_role (node_role n)) (topo_nodes lab_topology)) = 4"
    by code_simp
  from n_minus_one_audits [OF mk_lab_topology ids served links nodes] obtain a b where
    a: "audit_single_link_failures lab_topology = Inr a" and b: "audit_single_node_failures lab_topology = Inr b"
    and each: "\<forall>s \<in> set (link_scenarios a). lf_service_impact s = OUTAGE \<longleftrightarrow>
      \<not> all_served lab_topology [lf_link_id s] []"
    and pass: "link_passes a \<longleftrightarrow> (\<forall>l \<in> set (topo_links lab_topology). all_served lab_topology [link_id l] [])"
    and len: "map nf_node_name (node_scenarios b) =
      map node_name (filter (\<lambda>n. transport_role (node_role n)) (topo_nodes lab_topology))"
    by blast
  have cut: "\<not> all_served lab_topology [''core1--service-host''] []" using out a each by auto
  moreover from cut have "\<not> link_passes a" using pass l by metis
  ultimately show ?thesis using a b four arg_cong [OF len, of length] by auto
qed

end
