(* ===== verification/Canonical_Json.thy ===== *)
theory Canonical_Json
  imports Prometheus_Text Py_Datetime
begin

text \<open>
  The canonical JSON text \<open>json.dumps(document, sort_keys=True, separators=(",", ":"))\<close>
  for the documents that are hashed: strings (non-ASCII and control characters escaped),
  integers, arrays, and objects whose keys are written in sorted order. Each piece of text
  determines its value and where it ends (\<open>prefix_code\<close>), so a canonical text determines
  its document.
\<close>

section \<open>Texts\<close>

definition hex_digit :: "nat \<Rightarrow> char" where
  "hex_digit n = ''0123456789abcdef'' ! n"

definition json_char :: "char \<Rightarrow> string" where
  "json_char c =
     (if c = quote \<or> c = backslash then [backslash, c]
      else if c = newline then [backslash, CHR ''n'']
      else if c = CHR 0x0D then [backslash, CHR ''r'']
      else if c = CHR 0x09 then [backslash, CHR ''t'']
      else if c = CHR 0x08 then [backslash, CHR ''b'']
      else if c = CHR 0x0C then [backslash, CHR ''f'']
      else if CHR 0x20 \<le> c \<and> c \<le> CHR 0x7E then [c]
      else [backslash, CHR ''u'', CHR ''0'', CHR ''0'', hex_digit (of_char c div 16), hex_digit (of_char c mod 16)])"

definition json_string :: "string \<Rightarrow> string" where
  "json_string s = quote # concat (map json_char s) @ [quote]"

definition json_array :: "('a \<Rightarrow> string) \<Rightarrow> 'a list \<Rightarrow> string" where
  "json_array f xs = ''['' @ join '','' (map f xs) @ '']''"

text \<open>An object: its members with the keys already in sorted order.\<close>

definition json_member :: "string \<Rightarrow> string \<Rightarrow> string" where
  "json_member key v = json_string key @ '':'' @ v"

definition json_object :: "string list \<Rightarrow> string" where
  "json_object members = ''{'' @ join '','' members @ ''}''"

section \<open>Prefix codes\<close>

definition prefix_code :: "('a \<Rightarrow> string) \<Rightarrow> bool" where
  "prefix_code f = (\<forall>x y r r'. f x @ r = f y @ r' \<longrightarrow> x = y \<and> r = r')"

lemma prefix_codeD: "prefix_code f \<Longrightarrow> f x @ r = f y @ r' \<Longrightarrow> x = y \<and> r = r'"
  unfolding prefix_code_def by blast

lemma split_at_separator:
  "a @ c # r = b @ c # r' \<Longrightarrow> c \<notin> set a \<Longrightarrow> c \<notin> set b \<Longrightarrow> a = b \<and> r = r'"
  by (induction a arbitrary: b) (auto simp: Cons_eq_append_conv append_eq_Cons_conv)

lemma hex_digit_inj:
  assumes "m < 16" "n < 16" "hex_digit m = hex_digit n"
  shows "m = n"
proof -
  have "distinct ''0123456789abcdef''" by code_simp
  then show ?thesis using assms by (simp add: hex_digit_def nth_eq_iff_index_eq)
qed

lemma char_of_nibbles:
  assumes "of_char c div 16 = of_char d div (16 :: nat)" "of_char c mod 16 = of_char d mod (16 :: nat)"
  shows "c = d"
proof -
  have "of_char c = (of_char d :: nat)" using assms by (metis div_mult_mod_eq)
  then show ?thesis by simp
qed

lemma json_char_hex:
  assumes "hex_digit (of_char c div 16) = hex_digit (of_char d div 16)"
    and "hex_digit (of_char c mod 16) = hex_digit (of_char d mod 16)"
  shows "c = d"
proof (rule char_of_nibbles)
  have b: "of_char x div 16 < (16 :: nat)" "of_char x mod 16 < (16 :: nat)" for x :: char
    using nat_of_char_less_256 [of x] by (simp_all add: less_mult_imp_div_less)
  show "of_char c div 16 = of_char d div (16 :: nat)" using hex_digit_inj [OF b(1) b(1) assms(1)] .
  show "of_char c mod 16 = of_char d mod (16 :: nat)" using hex_digit_inj [OF b(2) b(2) assms(2)] .
qed

lemma json_char_code: "prefix_code json_char"
  unfolding prefix_code_def
proof (intro allI impI)
  fix c d r r' assume eq: "json_char c @ r = json_char d @ r'"
  have [simp]: "newline = CHR 0x0A" "backslash = CHR 0x5C" "quote = CHR 0x22"
    by (simp_all add: newline_def backslash_def quote_def)
  show "c = d \<and> r = r'"
    using eq json_char_hex [of c d] by (auto simp: json_char_def split: if_splits)
qed

lemma json_char_no_quote: "json_char c @ r \<noteq> quote # r'"
  by (auto simp: json_char_def)

lemma json_string_code: "prefix_code json_string"
proof -
  have "concat (map json_char s) @ quote # r = concat (map json_char s') @ quote # r' \<Longrightarrow> s = s' \<and> r = r'"
    for s s' r r'
  proof (induction s arbitrary: s')
    case Nil
    show ?case
    proof (cases s')
      case (Cons d t)
      then have "json_char d @ (concat (map json_char t) @ quote # r') = quote # r" using Nil by simp
      then show ?thesis using json_char_no_quote by blast
    qed (use Nil in simp)
  next
    case (Cons c s)
    show ?case
    proof (cases s')
      case Nil
      then show ?thesis using Cons.prems json_char_no_quote by simp
    next
      case s': (Cons d t)
      then have "json_char c @ (concat (map json_char s) @ quote # r) =
          json_char d @ (concat (map json_char t) @ quote # r')"
        using Cons.prems by simp
      from prefix_codeD [OF json_char_code this] Cons.IH show ?thesis unfolding s' by blast
    qed
  qed
  note core = this
  show ?thesis unfolding prefix_code_def
  proof (intro allI impI)
    fix s s' r r' assume "json_string s @ r = json_string s' @ r'"
    then have "concat (map json_char s) @ quote # r = concat (map json_char s') @ quote # r'"
      by (simp add: json_string_def)
    then show "s = s' \<and> r = r'" by (rule core)
  qed
qed

lemma join_Cons_sep: "join sep (x # y # xs) = x @ sep @ join sep (y # xs)"
  by simp

text \<open>Elements that never start with the closing bracket.\<close>

lemma json_array_code:
  assumes f: "prefix_code f" and start: "\<And>x. \<exists>c cs. f x = c # cs \<and> c \<noteq> CHR '']''"
  shows "prefix_code (json_array f)"
proof -
  have not_end: "f x @ r \<noteq> CHR '']'' # r'" for x r r' using start [of x] by auto
  have "join '','' (map f xs) @ CHR '']'' # r = join '','' (map f ys) @ CHR '']'' # r' \<Longrightarrow> xs = ys \<and> r = r'"
    for xs ys r r'
  proof (induction xs arbitrary: ys)
    case Nil
    show ?case
    proof (cases ys)
      case (Cons y ys')
      then show ?thesis using Nil not_end [of y] by (cases ys') (auto dest: sym)
    qed (use Nil in simp)
  next
    case (Cons x xs)
    show ?case
    proof (cases ys)
      case Nil
      then show ?thesis using Cons.prems not_end [of x] by (cases xs) auto
    next
      case ys: (Cons y ys')
      define tl where "tl zs q = (if zs = [] then CHR '']'' # q else CHR '','' # join '','' (map f zs) @ CHR '']'' # q)"
        for zs q
      have eq: "join '','' (map f (z # zs)) @ CHR '']'' # q = f z @ tl zs q" for z zs q
        by (cases zs) (simp_all add: tl_def)
      from Cons.prems have "f x @ tl xs r = f y @ tl ys' r'" unfolding ys eq .
      from prefix_codeD [OF f this] have "x = y" "tl xs r = tl ys' r'" by auto
      then show ?thesis
        using Cons.IH [of ys'] unfolding ys tl_def by (auto split: if_splits)
    qed
  qed
  note core = this
  show ?thesis unfolding prefix_code_def
  proof (intro allI impI)
    fix xs ys r r' assume "json_array f xs @ r = json_array f ys @ r'"
    then have "join '','' (map f xs) @ CHR '']'' # r = join '','' (map f ys) @ CHR '']'' # r'"
      by (simp add: json_array_def)
    then show "xs = ys \<and> r = r'" by (rule core)
  qed
qed

section \<open>Decimal texts\<close>

lemma nat_str_digits: "list_all is_digit (nat_str n)"
proof (induction n rule: nat_str.induct)
  case (1 n)
  then show ?case by (subst nat_str.simps) (auto simp: is_digit_digit_char)
qed

lemma read_nat_str: "read_digits 0 (nat_str n) = Some n"
proof (induction n rule: nat_str.induct)
  case (1 n)
  show ?case
  proof (cases "n < 10")
    case False
    then show ?thesis using 1 by (subst nat_str.simps) (simp add: read_digits_append)
  qed (subst nat_str.simps, simp)
qed

lemma nat_str_inj: "nat_str m = nat_str n \<longleftrightarrow> m = n"
  by (metis read_nat_str option.inject)

lemma int_str_inj: "int_str i = int_str j \<longleftrightarrow> i = j"
proof -
  have minus: "CHR ''-'' # s \<noteq> nat_str n" for s n
  proof
    assume "CHR ''-'' # s = nat_str n"
    with nat_str_digits [of n] have "list_all is_digit (CHR ''-'' # s)" by simp
    then have "is_digit (CHR ''-'')" by simp
    then show False by (simp add: is_digit_def less_eq_char_def)
  qed
  show ?thesis
    using minus minus [symmetric] by (auto simp: int_str_def nat_str_inj split: if_splits)
qed

lemma int_str_no_comma: "CHR '','' \<notin> set (int_str i)"
proof -
  have "CHR '','' \<notin> set (nat_str n)" for n
  proof
    assume "CHR '','' \<in> set (nat_str n)"
    with nat_str_digits [of n] have "is_digit (CHR '','')" by (simp add: list_all_iff)
    then show False by (simp add: is_digit_def less_eq_char_def)
  qed
  then show ?thesis by (simp add: int_str_def)
qed

end
