(* ===== verification/Failure_Domains.thy ===== *)
theory Failure_Domains
  imports Resilience Canonical_Json Design_Intent Json_Value
begin

text \<open>
  \<open>failure_domain.py\<close>: declared shared-risk groups, their validation, the topology
  fingerprint that ties a catalog to a design, the audit of all groups, and its metrics and
  evidence document. SHA-256 is the parameter \<open>sha256\<close>; the fingerprint's text is modelled
  in full and shown to determine the topology up to the order of a link's endpoints.
\<close>

section \<open>Declared domains\<close>

datatype FailureDomainType = SHARED_CONDUIT | POWER_DOMAIN | SITE

fun domain_type_value :: "FailureDomainType \<Rightarrow> string" where
  "domain_type_value SHARED_CONDUIT = ''shared_conduit''"
| "domain_type_value POWER_DOMAIN = ''power_domain''"
| "domain_type_value SITE = ''site''"

record FailureDomainIntent =
  fd_type :: FailureDomainType
  fd_links :: "string list"
  fd_nodes :: "string list"

record FailureDomainCatalog =
  fdc_version :: int
  fdc_design :: string
  fdc_topology_sha256 :: string
  fdc_failure_domains :: "FailureDomainIntent dict"

definition validate_components :: "FailureDomainIntent \<Rightarrow> unit result" where
  "validate_components d =
     rbind (ensure (length (fd_links d) \<le> 32) ''links: at most 32 items'') (\<lambda>_.
     rbind (ensure (length (fd_nodes d) \<le> 32) ''nodes: at most 32 items'') (\<lambda>_.
     rbind (ensure (distinct (fd_links d) \<and> distinct (fd_nodes d))
       ''failure domain components must be unique'') (\<lambda>_.
     rbind (ensure (2 \<le> length (fd_links d) + length (fd_nodes d))
       ''failure domain requires at least two components'') (\<lambda>_.
       each (\<lambda>c. ensure (is_identifier c) (''invalid failure domain component: '' @ c))
         (fd_links d @ fd_nodes d)))))"

definition validate_failure_domains :: "FailureDomainCatalog \<Rightarrow> FailureDomainCatalog result" where
  "validate_failure_domains c =
     rbind (ensure (fdc_version c = 1) ''unsupported schema version'') (\<lambda>_.
     rbind (ensure (short_identifier (fdc_design c)) ''design: string should match pattern'') (\<lambda>_.
     rbind (ensure (hex_of_length 64 (fdc_topology_sha256 c)) ''topology_sha256: string should match pattern'') (\<lambda>_.
     rbind (each validate_components (dict_values (fdc_failure_domains c))) (\<lambda>_.
     rbind (ensure (fdc_failure_domains c \<noteq> [] \<and> length (fdc_failure_domains c) \<le> 64)
       ''failure_domains: 1 to 64 items'') (\<lambda>_.
     rbind (each (\<lambda>i. ensure (short_identifier i) (''invalid failure domain id: '' @ i))
       (dict_keys (fdc_failure_domains c))) (\<lambda>_.
       Inr c))))))"

section \<open>The topology fingerprint\<close>

type_synonym link_view = "int \<times> string list \<times> string"
type_synonym node_view = "string \<times> string list \<times> string"

definition link_view :: "Link \<Rightarrow> link_view" where
  "link_view l = (link_cost l, sort [endpoint_a l, endpoint_b l], link_id l)"

definition node_view :: "Node \<Rightarrow> node_view" where
  "node_view n = (node_name n, node_prefixes n, role_value (node_role n))"

definition link_text :: "link_view \<Rightarrow> string" where
  "link_text v = (case v of (cost, ends, i) \<Rightarrow>
     json_object [json_member ''cost'' (int_str cost),
       json_member ''endpoints'' (json_array json_string ends), json_member ''id'' (json_string i)])"

definition node_text :: "node_view \<Rightarrow> string" where
  "node_text v = (case v of (name, prefixes, role) \<Rightarrow>
     json_object [json_member ''name'' (json_string name),
       json_member ''prefixes'' (json_array json_string prefixes), json_member ''role'' (json_string role)])"

definition topology_text :: "Topology \<Rightarrow> string" where
  "topology_text t =
     json_object [json_member ''links'' (json_array link_text (map link_view (topo_links t))),
       json_member ''nodes'' (json_array node_text (map node_view (topo_nodes t)))]"

definition topology_fingerprint :: "(string \<Rightarrow> string) \<Rightarrow> Topology \<Rightarrow> string" where
  "topology_fingerprint sha256 t = sha256 (topology_text t)"

definition validate_failure_domain_design ::
  "(string \<Rightarrow> string) \<Rightarrow> (string \<Rightarrow> NetworkIntent result) \<Rightarrow> FailureDomainCatalog \<Rightarrow> DesignCatalog \<Rightarrow>
   unit result" where
  "validate_failure_domain_design sha256 document c designs =
     (case map_of (catalog_designs designs) (fdc_design c) of
        None \<Rightarrow> Inl (ValueError (''failure-domain catalog must reference a candidate design: '' @ fdc_design c))
      | Some d \<Rightarrow>
          rbind (ensure (entry_role d = CANDIDATE)
            (''failure-domain catalog must reference a candidate design: '' @ fdc_design c)) (\<lambda>_.
          rbind (load_intent document (entry_intent d)) (\<lambda>i.
          rbind (to_topology i) (\<lambda>declared.
            ensure (topology_fingerprint sha256 declared = fdc_topology_sha256 c)
              ''failure-domain design catalog fingerprint mismatch''))))"

section \<open>The audit\<close>

record FailureDomainScenarioResult =
  fds_domain_id :: string
  fds_domain_type :: FailureDomainType
  fds_excluded_links :: "string list"
  fds_excluded_nodes :: "string list"
  fds_service_impact :: ServiceImpact
  fds_affected_nodes :: "string list"
  fds_affected_prefixes :: "string list"
  fds_paths :: "AccessPathResult list"

record FailureDomainAudit =
  fda_design :: string
  fda_topology_sha256 :: string
  fda_scenarios :: "FailureDomainScenarioResult list"

definition domain_count :: "FailureDomainAudit \<Rightarrow> ServiceImpact \<Rightarrow> nat" where
  "domain_count a impact =
     sum_list (map (\<lambda>s. if fds_service_impact s = impact then 1 else 0) (fda_scenarios a))"

definition passes_all :: "FailureDomainAudit \<Rightarrow> bool" where
  "passes_all a = (domain_count a OUTAGE = 0)"

definition domain_items :: "FailureDomainCatalog \<Rightarrow> (string \<times> FailureDomainIntent) list" where
  "domain_items c = sort_key fst (fdc_failure_domains c)"

definition domain_fault :: "string \<times> FailureDomainIntent \<Rightarrow> FaultScenario result" where
  "domain_fault item =
     (case item of (i, d) \<Rightarrow> mk_fault (''srlg:'' @ i) COMPOSITE (fd_links d) (fd_nodes d))"

definition domain_scenario ::
  "(string \<times> FailureDomainIntent) \<times> FaultScenarioResult \<Rightarrow> FailureDomainScenarioResult" where
  "domain_scenario p =
     (case p of ((i, d), r) \<Rightarrow>
        \<lparr>fds_domain_id = i, fds_domain_type = fd_type d,
         fds_excluded_links = sort (fd_links d), fds_excluded_nodes = sort (fd_nodes d),
         fds_service_impact = fr_service_impact r, fds_affected_nodes = fr_affected_nodes r,
         fds_affected_prefixes = fr_affected_prefixes r, fds_paths = fr_paths r\<rparr>)"

definition audit_failure_domains ::
  "(string \<Rightarrow> string) \<Rightarrow> Topology \<Rightarrow> FailureDomainCatalog \<Rightarrow> FailureDomainAudit result" where
  "audit_failure_domains sha256 t c =
     rbind (ensure (topology_fingerprint sha256 t = fdc_topology_sha256 c)
       ''failure-domain topology fingerprint mismatch'') (\<lambda>_.
     rbind (traverse domain_fault (domain_items c)) (\<lambda>faults.
     rbind (audit_fault_scenarios t faults) (\<lambda>audit.
     rbind (ensure (length (domain_items c) = length (audit_scenarios audit))
       ''zip() arguments have different lengths'') (\<lambda>_.
       Inr \<lparr>fda_design = fdc_design c, fda_topology_sha256 = fdc_topology_sha256 c,
         fda_scenarios = map domain_scenario (zip (domain_items c) (audit_scenarios audit))\<rparr>))))"

section \<open>Metrics and evidence\<close>

definition srlg_sample :: "FailureDomainScenarioResult \<Rightarrow> string" where
  "srlg_sample s =
     sample_line ''telconet_srlg_impact''
       [label ''domain_id'' (escape_label (fds_domain_id s)),
        label ''domain_type'' (domain_type_value (fds_domain_type s)),
        label ''impact'' (impact_value (fds_service_impact s))] ''1''"

definition render_failure_domain_metrics :: "FailureDomainAudit \<Rightarrow> string" where
  "render_failure_domain_metrics a =
     joined_lines
       ([help_line ''telconet_srlg_design_pass''
           ''Whether every declared shared-risk failure preserves service reachability.'',
         gauge_line ''telconet_srlg_design_pass'',
         sample_line ''telconet_srlg_design_pass'' [] (bool_sample (passes_all a)),
         help_line ''telconet_srlg_scenarios_total'' ''Declared shared-risk failures by impact.'',
         gauge_line ''telconet_srlg_scenarios_total''] @
        map (\<lambda>impact. sample_line ''telconet_srlg_scenarios_total''
          [label ''impact'' (impact_value impact)] (nat_str (domain_count a impact))) all_impacts @
        [help_line ''telconet_srlg_impact''
           ''Impact classification for each declared shared-risk failure.'',
         gauge_line ''telconet_srlg_impact''] @
        map srlg_sample (fda_scenarios a))"

definition path_json :: "AccessPathResult \<Rightarrow> json" where
  "path_json p = JObject
     [(''access_node'', JString (access_node p)), (''baseline_cost'', JInt (baseline_cost p)),
      (''post_fault_cost'', case post_fault_cost p of None \<Rightarrow> JNull | Some d \<Rightarrow> JInt d)]"

definition domain_json :: "FailureDomainScenarioResult \<Rightarrow> json" where
  "domain_json s = JObject
     [(''domain_id'', JString (fds_domain_id s)),
      (''domain_type'', JString (domain_type_value (fds_domain_type s))),
      (''excluded_links'', jstrings (fds_excluded_links s)),
      (''excluded_nodes'', jstrings (fds_excluded_nodes s)),
      (''service_impact'', JString (impact_value (fds_service_impact s))),
      (''affected_nodes'', jstrings (fds_affected_nodes s)),
      (''affected_prefixes'', jstrings (fds_affected_prefixes s)),
      (''paths'', JArray (map path_json (fds_paths s)))]"

definition build_failure_domain_evidence :: "FailureDomainAudit \<Rightarrow> json" where
  "build_failure_domain_evidence a = JObject
     [(''schema_version'', JInt 1), (''scope'', JString ''shared_risk_failure_domain''),
      (''source'', JString ''deterministic_graph_analysis''), (''measured'', JBool False),
      (''design'', JString (fda_design a)), (''topology_sha256'', JString (fda_topology_sha256 a)),
      (''passes_all'', JBool (passes_all a)),
      (''summary'', JObject
        [(''total'', JInt (int (length (fda_scenarios a)))),
         (''outage'', JInt (int (domain_count a OUTAGE))),
         (''degraded'', JInt (int (domain_count a DEGRADED))),
         (''redundancy_reduced'', JInt (int (domain_count a REDUNDANCY_REDUCED)))]),
      (''scenarios'', JArray (map domain_json (fda_scenarios a)))]"

section \<open>The fingerprint text determines the topology\<close>

lemma int_comma_code: "int_str i @ CHR '','' # r = int_str j @ CHR '','' # r' \<Longrightarrow> i = j \<and> r = r'"
  using split_at_separator [of "int_str i" "CHR '',''" r "int_str j" r'] int_str_no_comma int_str_inj
  by blast

lemma json_strings_code: "prefix_code (json_array json_string)"
  by (rule json_array_code [OF json_string_code]) (simp add: json_string_def quote_def)

lemma link_text_code: "prefix_code link_text"
  unfolding prefix_code_def
proof (intro allI impI)
  fix v w r r' assume eq: "link_text v @ r = link_text w @ r'"
  obtain c e i where v: "v = (c, e, i)" by (cases v)
  obtain d f j where w: "w = (d, f, j)" by (cases w)
  have "int_str c @ CHR '','' # json_string ''endpoints'' @ '':'' @ json_array json_string e @
      CHR '','' # json_string ''id'' @ '':'' @ json_string i @ ''}'' @ r =
    int_str d @ CHR '','' # json_string ''endpoints'' @ '':'' @ json_array json_string f @
      CHR '','' # json_string ''id'' @ '':'' @ json_string j @ ''}'' @ r'"
    using eq by (simp add: v w link_text_def json_object_def json_member_def)
  from int_comma_code [OF this] have c: "c = d"
    and rest: "json_array json_string e @ CHR '','' # json_string ''id'' @ '':'' @ json_string i @ ''}'' @ r =
      json_array json_string f @ CHR '','' # json_string ''id'' @ '':'' @ json_string j @ ''}'' @ r'"
    by simp_all
  from prefix_codeD [OF json_strings_code rest] have e: "e = f"
    and tail: "json_string i @ ''}'' @ r = json_string j @ ''}'' @ r'" by simp_all
  from prefix_codeD [OF json_string_code tail] show "v = w \<and> r = r'" by (simp add: v w c e)
qed

lemma node_text_code: "prefix_code node_text"
  unfolding prefix_code_def
proof (intro allI impI)
  fix v w r r' assume eq: "node_text v @ r = node_text w @ r'"
  obtain n p q where v: "v = (n, p, q)" by (cases v)
  obtain m p' q' where w: "w = (m, p', q')" by (cases w)
  have "json_string n @ CHR '','' # json_string ''prefixes'' @ '':'' @ json_array json_string p @
      CHR '','' # json_string ''role'' @ '':'' @ json_string q @ ''}'' @ r =
    json_string m @ CHR '','' # json_string ''prefixes'' @ '':'' @ json_array json_string p' @
      CHR '','' # json_string ''role'' @ '':'' @ json_string q' @ ''}'' @ r'"
    using eq by (simp add: v w node_text_def json_object_def json_member_def)
  from prefix_codeD [OF json_string_code this] have n: "n = m"
    and rest: "json_array json_string p @ CHR '','' # json_string ''role'' @ '':'' @ json_string q @ ''}'' @ r =
      json_array json_string p' @ CHR '','' # json_string ''role'' @ '':'' @ json_string q' @ ''}'' @ r'"
    by simp_all
  from prefix_codeD [OF json_strings_code rest] have p: "p = p'"
    and tail: "json_string q @ ''}'' @ r = json_string q' @ ''}'' @ r'" by simp_all
  from prefix_codeD [OF json_string_code tail] show "v = w \<and> r = r'" by (simp add: v w n p)
qed

lemma role_value_inj: "role_value r = role_value r' \<longleftrightarrow> r = r'"
  by (cases r; cases r') simp_all

lemma node_view_inj: "node_view n = node_view m \<longleftrightarrow> n = m"
  by (cases n; cases m) (auto simp: node_view_def role_value_inj)

lemma topology_text_determines:
  assumes "topology_text t = topology_text t'"
  shows "topo_nodes t = topo_nodes t' \<and> map link_view (topo_links t) = map link_view (topo_links t')"
proof -
  have links: "prefix_code (json_array link_text)" and nodes: "prefix_code (json_array node_text)"
    by (rule json_array_code [OF link_text_code] json_array_code [OF node_text_code];
      auto simp: link_text_def node_text_def json_object_def split: prod.splits)+
  have "json_array link_text (map link_view (topo_links t)) @ CHR '','' # json_string ''nodes'' @ '':'' @
      json_array node_text (map node_view (topo_nodes t)) @ ''}'' =
    json_array link_text (map link_view (topo_links t')) @ CHR '','' # json_string ''nodes'' @ '':'' @
      json_array node_text (map node_view (topo_nodes t')) @ ''}''"
    using assms by (simp add: topology_text_def json_object_def json_member_def)
  from prefix_codeD [OF links this] have l: "map link_view (topo_links t) = map link_view (topo_links t')"
    and rest: "json_array node_text (map node_view (topo_nodes t)) @ ''}'' =
      json_array node_text (map node_view (topo_nodes t')) @ ''}''" by simp_all
  have "map node_view (topo_nodes t) = map node_view (topo_nodes t')"
    using prefix_codeD [OF nodes rest] by simp
  then have "topo_nodes t = topo_nodes t'"
    by (rule map_injective) (simp add: inj_def node_view_inj)
  with l show ?thesis by simp
qed

section \<open>The audit of declared domains\<close>

lemma reachable_set_cong:
  "set el = set el' \<Longrightarrow> set en = set en' \<Longrightarrow> reachable t el en s v \<longleftrightarrow> reachable t el' en' s v"
  unfolding reachable_def using walk_mono by (metis order_refl)

lemma all_served_cong:
  "set el = set el' \<Longrightarrow> set en = set en' \<Longrightarrow> all_served t el en \<longleftrightarrow> all_served t el' en'"
  unfolding all_served_def using reachable_set_cong by metis

lemma validate_components_Inr:
  "validate_components d = Inr u \<longleftrightarrow>
   length (fd_links d) \<le> 32 \<and> length (fd_nodes d) \<le> 32 \<and> distinct (fd_links d) \<and> distinct (fd_nodes d) \<and>
   2 \<le> length (fd_links d) + length (fd_nodes d) \<and> (\<forall>c \<in> set (fd_links d) \<union> set (fd_nodes d). is_identifier c)"
  by (auto simp: validate_components_def rbind_eq_Inr each_eq_Inr)

lemma validate_failure_domains_Inr:
  "validate_failure_domains c = Inr c' \<longleftrightarrow>
   c' = c \<and> fdc_version c = 1 \<and> short_identifier (fdc_design c) \<and> hex_of_length 64 (fdc_topology_sha256 c) \<and>
   (\<forall>d \<in> snd ` set (fdc_failure_domains c). validate_components d = Inr ()) \<and>
   fdc_failure_domains c \<noteq> [] \<and> length (fdc_failure_domains c) \<le> 64 \<and>
   (\<forall>i \<in> fst ` set (fdc_failure_domains c). short_identifier i)"
  by (auto simp: validate_failure_domains_def rbind_eq_Inr each_eq_Inr)

definition domain_fault_of :: "string \<times> FailureDomainIntent \<Rightarrow> FaultScenario" where
  "domain_fault_of p =
     \<lparr>fault_id = ''srlg:'' @ fst p, fault_kind = COMPOSITE,
      excluded_links = fd_links (snd p), excluded_nodes = fd_nodes (snd p)\<rparr>"

lemma domain_fault_valid:
  assumes "short_identifier (fst p)" "validate_components (snd p) = Inr ()"
  shows "domain_fault p = Inr (domain_fault_of p)"
proof -
  have "is_fault_id (''srlg:'' @ fst p)"
    using fault_id_of_identifier short_identifier_is_identifier assms(1) by blast
  then show ?thesis
    using assms(2) by (simp add: domain_fault_def mk_fault_Inr fault_ok_def domain_fault_of_def
        validate_components_Inr split_beta distinct_remdups_id)
qed

definition domain_known :: "Topology \<Rightarrow> FailureDomainIntent \<Rightarrow> bool" where
  "domain_known t d = (set (fd_links d) \<subseteq> topo_ids t \<and> set (fd_nodes d) \<subseteq> topo_names t)"

lemma set_domain_items [simp]: "set (domain_items c) = set (fdc_failure_domains c)"
  by (simp add: domain_items_def)

lemma keys_domain_items:
  "map fst (domain_items c) = sort (dict_keys (fdc_failure_domains c))"
  by (rule sym, rule properties_for_sort) (simp_all add: domain_items_def)

text \<open>A scenario that states its domain and exactly what its joint failure does.\<close>

definition exact_domain :: "Topology \<Rightarrow> string \<times> FailureDomainIntent \<Rightarrow> FailureDomainScenarioResult \<Rightarrow> bool" where
  "exact_domain t item s =
     (case item of (i, d) \<Rightarrow>
        fds_domain_id s = i \<and> fds_domain_type s = fd_type d \<and>
        fds_excluded_links s = sort (fd_links d) \<and> fds_excluded_nodes s = sort (fd_nodes d) \<and>
        exact_result t (fd_links d) (fd_nodes d) (fds_service_impact s) (fds_affected_nodes s) (fds_affected_prefixes s) \<and>
        exact_paths t (fd_links d) (fd_nodes d) (fds_paths s))"

lemma domain_scenario_exact:
  assumes "wf_topology t" "result_of t (domain_fault_of p) s"
  shows "exact_domain t p (domain_scenario (p, s))"
  using result_exact [OF assms] by (cases p) (simp add: exact_domain_def domain_scenario_def domain_fault_of_def)

lemma exact_domain_id: "exact_domain t p s \<Longrightarrow> fds_domain_id s = fst p"
  by (cases p) (simp add: exact_domain_def)

lemma failure_domain_audit_run:
  assumes wf: "wf_topology t" and valid: "validate_failure_domains c = Inr c'"
    and keys: "distinct (dict_keys (fdc_failure_domains c))"
    and print: "topology_fingerprint sha256 t = fdc_topology_sha256 c" and served: "served t"
    and known: "\<forall>d \<in> set (dict_values (fdc_failure_domains c)). domain_known t d"
  shows "\<exists>a. audit_failure_domains sha256 t c = Inr a \<and>
    fda_design a = fdc_design c \<and> fda_topology_sha256 a = fdc_topology_sha256 c \<and>
    list_all2 (exact_domain t) (domain_items c) (fda_scenarios a)"
proof -
  note ok = valid [unfolded validate_failure_domains_Inr]
  let ?items = "domain_items c" and ?faults = "map domain_fault_of (domain_items c)"
  have "domain_fault p = Inr (domain_fault_of p)" if "p \<in> set ?items" for p
    using ok that by (intro domain_fault_valid) force+
  then have faults: "traverse domain_fault ?items = Inr ?faults" by (rule traverse_total)
  have "distinct (map fst ?items)" using keys by (simp add: keys_domain_items)
  then have dist: "distinct (map fault_id ?faults)"
    by (auto simp: distinct_map domain_fault_of_def inj_on_def)
  have all_known: "\<forall>f \<in> set ?faults. fault_known t f"
    using known by (force simp: domain_fault_of_def fault_known_def domain_known_def)
  have "?faults \<noteq> []" using ok set_domain_items [of c] by (metis map_is_Nil_conv set_empty)
  then obtain r where r: "audit_fault_scenarios t ?faults = Inr r"
    using audit_accepts [OF wf, of ?faults] served dist all_known by auto
  have res: "list_all2 (\<lambda>p s. result_of t (domain_fault_of p) s) ?items (audit_scenarios r)"
    using audit_results [OF r] by (simp add: list_all2_map1)
  then have len: "length ?items = length (audit_scenarios r)" by (rule list_all2_lengthD)
  let ?scen = "map domain_scenario (zip ?items (audit_scenarios r))"
  have out: "audit_failure_domains sha256 t c = Inr \<lparr>fda_design = fdc_design c,
      fda_topology_sha256 = fdc_topology_sha256 c, fda_scenarios = ?scen\<rparr>"
    using print faults r len by (simp add: audit_failure_domains_def)
  have "list_all2 (exact_domain t) ?items ?scen"
    using res domain_scenario_exact [OF wf] by (simp add: list_all2_conv_all_nth)
  with out show ?thesis by auto
qed

section \<open>Properties\<close>

text \<open>A catalog over the dual-homed lab topology, with a fingerprint function for examples.\<close>

definition example_sha :: "string \<Rightarrow> string" where
  "example_sha s = (if s = topology_text dual_topology then replicate 64 (CHR ''a'') else replicate 64 (CHR ''b''))"

definition lab_domains :: FailureDomainCatalog where
  "lab_domains = \<lparr>fdc_version = 1, fdc_design = ''service-dual-homed'',
     fdc_topology_sha256 = replicate 64 (CHR ''a''),
     fdc_failure_domains =
       [(''primary-site-power'', \<lparr>fd_type = POWER_DOMAIN, fd_links = [], fd_nodes = [''agg1'', ''core1'']\<rparr>),
        (''service-entry'', \<lparr>fd_type = SHARED_CONDUIT,
           fd_links = [''core1--service-host'', ''core2--service-host''], fd_nodes = []\<rparr>)]\<rparr>"

text \<open>
  C21: The shared-risk audit is total and exact on validated catalogs: with a matching
  fingerprint, a served topology and known components it reports every declared domain once,
  in the order of the ids, with its type and components, and says exactly what the joint
  failure does. It is an \<open>OUTAGE\<close> when some access node is left without a walk to a service
  node, \<open>DEGRADED\<close> when none is but some least cost grew, and \<open>REDUNDANCY_REDUCED\<close>
  otherwise; the affected nodes are the access nodes cut off or lengthened, in order, the
  prefixes are theirs, and the paths hold every access node's least costs before and after.
  The audit passes exactly when no domain is an outage, and its counters are those of the list.
\<close>

theorem failure_domain_audit:
  assumes t: "mk_topology ns ls = Inr t" and valid: "validate_failure_domains c = Inr c'"
    and keys: "distinct (dict_keys (fdc_failure_domains c))"
    and print: "topology_fingerprint sha256 t = fdc_topology_sha256 c" and served: "served t"
    and known: "\<forall>d \<in> set (dict_values (fdc_failure_domains c)). domain_known t d"
  shows "\<exists>a. audit_failure_domains sha256 t c = Inr a \<and>
    fda_design a = fdc_design c \<and> fda_topology_sha256 a = fdc_topology_sha256 c \<and>
    map fds_domain_id (fda_scenarios a) = sort (dict_keys (fdc_failure_domains c)) \<and>
    (\<forall>i d. (i, d) \<in> set (fdc_failure_domains c) \<longrightarrow>
      (\<exists>s \<in> set (fda_scenarios a). fds_domain_id s = i \<and> fds_domain_type s = fd_type d \<and>
        fds_excluded_links s = sort (fd_links d) \<and> fds_excluded_nodes s = sort (fd_nodes d) \<and>
        exact_result t (fd_links d) (fd_nodes d) (fds_service_impact s) (fds_affected_nodes s)
          (fds_affected_prefixes s) \<and>
        exact_paths t (fd_links d) (fd_nodes d) (fds_paths s))) \<and>
    (\<forall>impact. domain_count a impact = length (filter (\<lambda>s. fds_service_impact s = impact) (fda_scenarios a))) \<and>
    (passes_all a \<longleftrightarrow>
      (\<forall>d \<in> set (dict_values (fdc_failure_domains c)). all_served t (fd_links d) (fd_nodes d)))"
proof -
  note wf = mk_topology_wf [OF t]
  from failure_domain_audit_run [OF wf valid keys print served known] obtain a where
    a: "audit_failure_domains sha256 t c = Inr a" "fda_design a = fdc_design c"
      "fda_topology_sha256 a = fdc_topology_sha256 c"
    and l: "list_all2 (exact_domain t) (domain_items c) (fda_scenarios a)"
    by blast
  have "map fds_domain_id (fda_scenarios a) = map fst (domain_items c)"
    using l by (rule list_all2_map_snd) (rule exact_domain_id)
  then have ids: "map fds_domain_id (fda_scenarios a) = sort (dict_keys (fdc_failure_domains c))"
    by (simp add: keys_domain_items)
  have each: "\<exists>s \<in> set (fda_scenarios a). exact_domain t (i, d) s" if "(i, d) \<in> set (fdc_failure_domains c)" for i d
    using list_all2_in_set1 [OF l, of "(i, d)"] that by simp
  have origin: "\<exists>p \<in> set (fdc_failure_domains c). exact_domain t p s" if "s \<in> set (fda_scenarios a)" for s
    using list_all2_in_set2 [OF l that] by auto
  have outage: "fds_service_impact s = OUTAGE \<longleftrightarrow> \<not> all_served t (fd_links (snd p)) (fd_nodes (snd p))"
    if "exact_domain t p s" for p s
  proof -
    from that have "exact_result t (fd_links (snd p)) (fd_nodes (snd p)) (fds_service_impact s) (fds_affected_nodes s)
        (fds_affected_prefixes s)"
      by (cases p) (simp add: exact_domain_def)
    then show ?thesis by (rule exact_outage)
  qed
  have "passes_all a \<longleftrightarrow> (\<forall>s \<in> set (fda_scenarios a). fds_service_impact s \<noteq> OUTAGE)"
    unfolding passes_all_def domain_count_def sum_list_bool_eq_0 ..
  also have "\<dots> \<longleftrightarrow> (\<forall>d \<in> set (dict_values (fdc_failure_domains c)). all_served t (fd_links d) (fd_nodes d))"
    using each origin outage by fastforce
  finally show ?thesis using a ids each by (fastforce simp: exact_domain_def domain_count_def count_by_filter)
qed

theorem failure_domain_audit_witness:
  "\<exists>a. audit_failure_domains example_sha dual_topology lab_domains = Inr a \<and>
     map fds_domain_id (fda_scenarios a) = [''primary-site-power'', ''service-entry''] \<and>
     (\<exists>s \<in> set (fda_scenarios a). fds_domain_id s = ''service-entry'' \<and>
        exact_result dual_topology [''core1--service-host'', ''core2--service-host''] []
          (fds_service_impact s) (fds_affected_nodes s) (fds_affected_prefixes s))"
proof -
  have v: "validate_failure_domains lab_domains = Inr lab_domains" by code_simp
  have k: "distinct (dict_keys (fdc_failure_domains lab_domains))" by code_simp
  have p: "topology_fingerprint example_sha dual_topology = fdc_topology_sha256 lab_domains"
    by (simp add: topology_fingerprint_def example_sha_def lab_domains_def)
  have "case audit_fault_scenarios dual_topology [lab_link_fault] of Inl e \<Rightarrow> False | Inr r \<Rightarrow> True"
    by code_simp
  then have s: "served dual_topology"
    using audit_accepts [OF wf_dual_topology] by (auto split: sum.splits)
  have d: "\<forall>d \<in> set (dict_values (fdc_failure_domains lab_domains)). domain_known dual_topology d"
    by code_simp
  from failure_domain_audit [OF mk_dual_topology v k p s d] show ?thesis
    by (auto simp: lab_domains_def)
qed

text \<open>
  C22: The fingerprint ties an audit to its design: when the catalog was checked against the
  design files, and the audit accepts a topology, then - short of a collision of the hash on
  the two canonical texts, the audited one's and the declared one's - the audited topology has
  the declared design's nodes, roles and prefixes, and its links with the same ids, costs and
  endpoints.
\<close>

theorem audited_topology_is_declared:
  assumes "validate_failure_domain_design sha256 document c designs = Inr u"
    and "audit_failure_domains sha256 t c = Inr a"
  shows "\<exists>d i declared. map_of (catalog_designs designs) (fdc_design c) = Some d \<and>
    entry_role d = CANDIDATE \<and> load_intent document (entry_intent d) = Inr i \<and>
    to_topology i = Inr declared \<and>
    (inj_on sha256 {topology_text t, topology_text declared} \<longrightarrow>
      topo_nodes t = topo_nodes declared \<and>
      map (\<lambda>l. (link_id l, link_cost l, {endpoint_a l, endpoint_b l})) (topo_links t) =
        map (\<lambda>l. (link_id l, link_cost l, {endpoint_a l, endpoint_b l})) (topo_links declared))"
proof -
  from assms(1) obtain d i declared where d: "map_of (catalog_designs designs) (fdc_design c) = Some d"
    "entry_role d = CANDIDATE" "load_intent document (entry_intent d) = Inr i"
    "to_topology i = Inr declared" "topology_fingerprint sha256 declared = fdc_topology_sha256 c"
    by (auto simp: validate_failure_domain_design_def rbind_eq_Inr split: option.splits)
  have "topology_fingerprint sha256 t = fdc_topology_sha256 c"
    using assms(2) by (auto simp: audit_failure_domains_def rbind_eq_Inr)
  with d(5) have same: "sha256 (topology_text t) = sha256 (topology_text declared)"
    by (simp add: topology_fingerprint_def)
  define forget where "forget v = (snd (snd v), fst v, set (fst (snd v)))" for v :: link_view
  have "forget (link_view l) = (link_id l, link_cost l, {endpoint_a l, endpoint_b l})" for l
    by (simp add: forget_def link_view_def insert_commute)
  then have links: "map (\<lambda>l. (link_id l, link_cost l, {endpoint_a l, endpoint_b l})) ls = map forget (map link_view ls)" for ls
    by simp
  have "topo_nodes t = topo_nodes declared \<and> map link_view (topo_links t) = map link_view (topo_links declared)"
    if "inj_on sha256 {topology_text t, topology_text declared}"
    by (rule topology_text_determines, rule inj_onD [OF that same]) simp_all
  then show ?thesis using d(1-4) unfolding links by metis
qed

theorem audited_topology_is_declared_witness:
  "\<exists>d declared. map_of (catalog_designs lab_catalog) ''service-dual-homed'' = Some d \<and> entry_role d = CANDIDATE \<and>
     rbind (load_intent lab_documents (entry_intent d)) to_topology = Inr declared \<and>
     inj_on example_sha {topology_text dual_topology, topology_text declared} \<and>
     topo_nodes dual_topology = topo_nodes declared"
proof -
  define i where "i = lab_intent\<lparr>intent_links := intent_links lab_intent @
        [\<lparr>li_id = ''core2--service-host'', li_endpoints = (''core2'', ''service-host''), li_cost = 30\<rparr>]\<rparr>"
  have i: "load_intent lab_documents ''intent-dual-homed.yml'' = Inr i" "to_topology i = Inr dual_topology"
    unfolding i_def by code_simp+
  then have v: "validate_failure_domain_design example_sha lab_documents lab_domains lab_catalog = Inr ()"
    by (simp add: validate_failure_domain_design_def lab_domains_def lab_catalog_def
        topology_fingerprint_def example_sha_def)
  have k: "distinct (dict_keys (fdc_failure_domains lab_domains))" by code_simp
  have p: "topology_fingerprint example_sha dual_topology = fdc_topology_sha256 lab_domains"
    by (simp add: topology_fingerprint_def example_sha_def lab_domains_def)
  have val: "validate_failure_domains lab_domains = Inr lab_domains" by code_simp
  have d: "\<forall>d \<in> set (dict_values (fdc_failure_domains lab_domains)). domain_known dual_topology d"
    by code_simp
  have "case audit_fault_scenarios dual_topology [lab_link_fault] of Inl e \<Rightarrow> False | Inr r \<Rightarrow> True"
    by code_simp
  then have "served dual_topology"
    using audit_accepts [OF wf_dual_topology] by (auto split: sum.splits)
  from failure_domain_audit_run [OF wf_dual_topology val k p this d] obtain a where
    a: "audit_failure_domains example_sha dual_topology lab_domains = Inr a" by blast
  have entry: "entry_intent d = ''intent-dual-homed.yml''"
    if "map_of (catalog_designs lab_catalog) ''service-dual-homed'' = Some d" for d
    using that by (auto simp: lab_catalog_def)
  have design: "fdc_design lab_domains = ''service-dual-homed''" by (simp add: lab_domains_def)
  from audited_topology_is_declared [OF v a, unfolded design] obtain d j declared where
    t: "map_of (catalog_designs lab_catalog) ''service-dual-homed'' = Some d" "entry_role d = CANDIDATE"
      "load_intent lab_documents (entry_intent d) = Inr j" "to_topology j = Inr declared"
      "inj_on example_sha {topology_text dual_topology, topology_text declared} \<longrightarrow> topo_nodes dual_topology = topo_nodes declared"
    by blast
  have "declared = dual_topology" using t(3,4) i by (simp add: entry [OF t(1)])
  then show ?thesis using t by auto
qed

end
