(* ===== verification/Convergence_Runs.thy ===== *)
theory Convergence_Runs
  imports Py_Datetime Prometheus_Text
begin

text \<open>
  The data model of \<open>convergence.py\<close>: event kinds, profiles, runs, and the two validators.
  The repository protocol is an abstract store, a bounded list of runs from oldest to
  newest; \<open>convergence_repository\<close> is the interface a store implements when its
  operations refine the abstract ones, and what every store therefore guarantees is proved
  inside it. Theories \<open>Convergence_Memory\<close> and \<open>Convergence_Sqlite\<close> interpret it.
\<close>

section \<open>Events and runs\<close>

datatype ConvergenceEventKind =
  BLACKHOLE_INJECTED | BFD_DOWN | OSPF_NEIGHBOR_DOWN | ROUTE_FAILOVER | DATA_PLANE_RECOVERED

fun kind_value :: "ConvergenceEventKind \<Rightarrow> string" where
  "kind_value BLACKHOLE_INJECTED = ''blackhole_injected''"
| "kind_value BFD_DOWN = ''bfd_down''"
| "kind_value OSPF_NEIGHBOR_DOWN = ''ospf_neighbor_down''"
| "kind_value ROUTE_FAILOVER = ''route_failover''"
| "kind_value DATA_PLANE_RECOVERED = ''data_plane_recovered''"

definition all_kinds :: "ConvergenceEventKind list" where
  "all_kinds = [BLACKHOLE_INJECTED, BFD_DOWN, OSPF_NEIGHBOR_DOWN, ROUTE_FAILOVER, DATA_PLANE_RECOVERED]"

text \<open>\<open>ConvergenceEventKind(value)\<close>\<close>

definition kind_of_value :: "string \<Rightarrow> ConvergenceEventKind result" where
  "kind_of_value v =
     (case List.find (\<lambda>k. kind_value k = v) all_kinds of
        None \<Rightarrow> Inl (ValueError (v @ '' is not a valid ConvergenceEventKind''))
      | Some k \<Rightarrow> Inr k)"

definition required_events :: "string \<Rightarrow> ConvergenceEventKind list option" where
  "required_events profile =
     (if profile = ''ospf_only''
      then Some [BLACKHOLE_INJECTED, OSPF_NEIGHBOR_DOWN, ROUTE_FAILOVER, DATA_PLANE_RECOVERED]
      else if profile = ''bfd_100x3'' then Some all_kinds
      else None)"

record ConvergenceEvent =
  ev_kind :: ConvergenceEventKind
  ev_offset_ms :: int
  ev_observed_at :: datetime
  ev_route_metric :: "int option"
  ev_icmp_sequence :: "int option"

record ConvergenceRun =
  run_id :: string
  run_profile :: string
  run_source :: string
  run_target :: string
  run_started_at :: datetime
  run_events :: "ConvergenceEvent list"

definition run_status :: "ConvergenceRun \<Rightarrow> string result" where
  "run_status run =
     (case required_events (run_profile run) of
        None \<Rightarrow> Inl (KeyError (run_profile run))
      | Some required \<Rightarrow>
          Inr (if set (map ev_kind (run_events run)) = set required then ''complete'' else ''collecting''))"

section \<open>Validation\<close>

definition validate_run :: "string \<Rightarrow> string \<Rightarrow> string \<Rightarrow> datetime \<Rightarrow> unit result" where
  "validate_run profile source target started_at =
     rbind (ensure (required_events profile \<noteq> None) (''unsupported convergence profile: '' @ profile)) (\<lambda>_.
     rbind (ensure (source \<noteq> [] \<and> target \<noteq> []) ''convergence source and target must not be empty'') (\<lambda>_.
       ensure (aware started_at) ''convergence started_at must be timezone-aware''))"

definition validate_event :: "ConvergenceRun \<Rightarrow> ConvergenceEvent \<Rightarrow> unit result" where
  "validate_event run event =
     rbind (ensure (0 \<le> ev_offset_ms event) ''convergence event offset must be non-negative'') (\<lambda>_.
     rbind (ensure (aware (ev_observed_at event)) ''convergence event observed_at must be timezone-aware'') (\<lambda>_.
     rbind (ensure (\<not> (ev_kind event = ROUTE_FAILOVER \<and>
         (case ev_route_metric event of None \<Rightarrow> True | Some m \<Rightarrow> m < 1)))
       ''route_failover requires a positive route_metric'') (\<lambda>_.
     rbind (ensure (\<not> (ev_kind event = DATA_PLANE_RECOVERED \<and>
         (case ev_icmp_sequence event of None \<Rightarrow> True | Some n \<Rightarrow> n < 0)))
       ''data_plane_recovered requires a non-negative icmp_sequence'') (\<lambda>_.
     rbind (case required_events (run_profile run) of
              None \<Rightarrow> Inl (KeyError (run_profile run))
            | Some required \<Rightarrow>
                ensure (ev_kind event \<in> set required)
                  (''event '' @ kind_value (ev_kind event) @ '' is not valid for profile '' @ run_profile run)) (\<lambda>_.
     rbind (ensure (\<not> (run_events run = [] \<and> ev_kind event \<noteq> BLACKHOLE_INJECTED))
       ''first event must be blackhole_injected'') (\<lambda>_.
     rbind (ensure (ev_kind event \<notin> ev_kind ` set (run_events run))
       (''duplicate convergence event: '' @ kind_value (ev_kind event))) (\<lambda>_.
       ensure (\<not> (run_events run \<noteq> [] \<and> ev_offset_ms event < ev_offset_ms (last (run_events run))))
         ''convergence event offsets must be monotonic'')))))))"

section \<open>Timelines\<close>

text \<open>What validation keeps of every stored run.\<close>

definition event_ok :: "ConvergenceEvent \<Rightarrow> bool" where
  "event_ok e =
     (0 \<le> ev_offset_ms e \<and> aware (ev_observed_at e) \<and>
      (ev_kind e = ROUTE_FAILOVER \<longrightarrow> (\<exists>m. ev_route_metric e = Some m \<and> 1 \<le> m)) \<and>
      (ev_kind e = DATA_PLANE_RECOVERED \<longrightarrow> (\<exists>n. ev_icmp_sequence e = Some n \<and> 0 \<le> n)))"

definition timeline_ok :: "ConvergenceRun \<Rightarrow> bool" where
  "timeline_ok run =
     (run_source run \<noteq> [] \<and> run_target run \<noteq> [] \<and> aware (run_started_at run) \<and>
      list_all event_ok (run_events run) \<and>
      (\<exists>required. required_events (run_profile run) = Some required \<and>
         set (map ev_kind (run_events run)) \<subseteq> set required) \<and>
      distinct (map ev_kind (run_events run)) \<and>
      (case run_events run of [] \<Rightarrow> True | e # _ \<Rightarrow> ev_kind e = BLACKHOLE_INJECTED) \<and>
      sorted (map ev_offset_ms (run_events run)))"

definition add_event :: "ConvergenceRun \<Rightarrow> ConvergenceEvent \<Rightarrow> ConvergenceRun" where
  "add_event run event = run\<lparr>run_events := run_events run @ [event]\<rparr>"

lemma add_event_simps [simp]:
  "run_id (add_event run e) = run_id run" "run_profile (add_event run e) = run_profile run"
  "run_source (add_event run e) = run_source run" "run_target (add_event run e) = run_target run"
  "run_started_at (add_event run e) = run_started_at run"
  "run_events (add_event run e) = run_events run @ [e]"
  by (simp_all add: add_event_def)

lemma validate_event_Inr:
  "validate_event run e = Inr u \<longleftrightarrow>
   event_ok e \<and> (\<exists>required. required_events (run_profile run) = Some required \<and> ev_kind e \<in> set required) \<and>
   (run_events run = [] \<longrightarrow> ev_kind e = BLACKHOLE_INJECTED) \<and>
   ev_kind e \<notin> ev_kind ` set (run_events run) \<and>
   (run_events run \<noteq> [] \<longrightarrow> ev_offset_ms (last (run_events run)) \<le> ev_offset_ms e)"
  by (auto simp: validate_event_def event_ok_def rbind_eq_Inr not_less split: option.splits)

lemma validate_run_Inr:
  "validate_run profile source target started_at = Inr u \<longleftrightarrow>
   (\<exists>required. required_events profile = Some required) \<and> source \<noteq> [] \<and> target \<noteq> [] \<and> aware started_at"
  by (auto simp: validate_run_def rbind_eq_Inr)

lemma sorted_snoc: "sorted (xs @ [x]) \<longleftrightarrow> sorted xs \<and> (xs = [] \<or> last xs \<le> (x :: 'a :: linorder))"
proof (cases xs rule: rev_cases)
  case (snoc ys y)
  then show ?thesis by (auto simp: sorted_append intro: order_trans)
qed simp

lemma timeline_add_event:
  "timeline_ok run \<Longrightarrow> validate_event run e = Inr u \<Longrightarrow> timeline_ok (add_event run e)"
  by (cases "run_events run = []")
    (auto simp: timeline_ok_def validate_event_Inr sorted_snoc last_map split: list.splits)

lemma timeline_fresh:
  "validate_run p so ta at = Inr u \<Longrightarrow> timeline_ok \<lparr>run_id = i, run_profile = p, run_source = so,
     run_target = ta, run_started_at = at, run_events = []\<rparr>"
  by (auto simp: timeline_ok_def validate_run_Inr)

text \<open>A complete run takes no further event.\<close>

lemma complete_rejects:
  assumes "run_status run = Inr ''complete''"
  shows "\<exists>e'. validate_event run e = Inl e'"
proof (cases "validate_event run e")
  case (Inr u)
  then obtain required where "required_events (run_profile run) = Some required" "ev_kind e \<in> set required"
    and new: "ev_kind e \<notin> ev_kind ` set (run_events run)"
    by (auto simp: validate_event_Inr)
  with assms show ?thesis by (auto simp: run_status_def split: if_splits)
qed blast

section \<open>The repository protocol\<close>

definition mk_run :: "string \<Rightarrow> string \<Rightarrow> string \<Rightarrow> string \<Rightarrow> datetime \<Rightarrow> ConvergenceRun" where
  "mk_run uuid_hex profile source target started_at =
     \<lparr>run_id = ''run-'' @ uuid_hex, run_profile = profile, run_source = source,
      run_target = target, run_started_at = started_at, run_events = []\<rparr>"

definition newest_of :: "nat \<Rightarrow> 'a list \<Rightarrow> 'a list" where
  "newest_of n xs = drop (length xs - n) xs"

definition spec_create ::
  "nat \<Rightarrow> string \<Rightarrow> string \<Rightarrow> string \<Rightarrow> string \<Rightarrow> datetime \<Rightarrow> ConvergenceRun list \<Rightarrow>
   (ConvergenceRun \<times> ConvergenceRun list) result" where
  "spec_create capacity uuid_hex profile source target started_at runs =
     rbind (validate_run profile source target started_at) (\<lambda>_.
       Inr (mk_run uuid_hex profile source target started_at,
            newest_of capacity (runs @ [mk_run uuid_hex profile source target started_at])))"

definition spec_get :: "string \<Rightarrow> ConvergenceRun list \<Rightarrow> ConvergenceRun result" where
  "spec_get i runs =
     (case List.find (\<lambda>r. run_id r = i) runs of
        None \<Rightarrow> Inl (KeyError (''convergence run not found: '' @ i))
      | Some r \<Rightarrow> Inr r)"

definition spec_append ::
  "string \<Rightarrow> ConvergenceEvent \<Rightarrow> ConvergenceRun list \<Rightarrow> (ConvergenceRun \<times> ConvergenceRun list) result" where
  "spec_append i e runs =
     rbind (spec_get i runs) (\<lambda>run.
     rbind (validate_event run e) (\<lambda>_.
       Inr (add_event run e, map (\<lambda>r. if run_id r = i then add_event r e else r) runs)))"

definition spec_latest :: "ConvergenceRun list \<Rightarrow> ConvergenceRun option" where
  "spec_latest runs = (if runs = [] then None else Some (last runs))"

text \<open>Results of a store, seen through its abstraction.\<close>

definition seen_as :: "('s \<Rightarrow> 'a) \<Rightarrow> ('r \<times> 's) result \<Rightarrow> ('r \<times> 'a) result" where
  "seen_as view r = map_sum id (map_prod id view) r"

lemma seen_as_simps [simp]:
  "seen_as view (Inl e) = Inl e" "seen_as view (Inr (r, s)) = Inr (r, view s)"
  by (simp_all add: seen_as_def)

lemma seen_as_eq_Inr: "seen_as view x = Inr (r, a) \<longleftrightarrow> (\<exists>s. x = Inr (r, s) \<and> view s = a)"
  by (cases x) auto

lemma seen_as_eq_Inl: "seen_as view x = Inl e \<longleftrightarrow> x = Inl e"
  by (cases x) auto

definition fresh_run :: "string \<Rightarrow> ConvergenceRun list \<Rightarrow> bool" where
  "fresh_run uuid_hex runs = (''run-'' @ uuid_hex \<notin> run_id ` set runs)"

text \<open>
  Sequences of calls, for any implementation of the four operations: a call that raises
  answers with its error and leaves the store as it was.
\<close>

datatype store_op =
    OpCreate string string string string datetime
  | OpAppend string ConvergenceEvent
  | OpGet string
  | OpLatest

datatype store_response =
    RunResponse "ConvergenceRun result"
  | LatestResponse "ConvergenceRun option result"

definition answer :: "'s \<Rightarrow> (ConvergenceRun \<times> 's) result \<Rightarrow> store_response \<times> 's" where
  "answer s x =
     (case x of Inl e \<Rightarrow> (RunResponse (Inl e), s) | Inr (run, s') \<Rightarrow> (RunResponse (Inr run), s'))"

fun exec_ops ::
  "(string \<Rightarrow> string \<Rightarrow> string \<Rightarrow> string \<Rightarrow> datetime \<Rightarrow> 's \<Rightarrow> (ConvergenceRun \<times> 's) result) \<Rightarrow>
   (string \<Rightarrow> ConvergenceEvent \<Rightarrow> 's \<Rightarrow> (ConvergenceRun \<times> 's) result) \<Rightarrow>
   (string \<Rightarrow> 's \<Rightarrow> ConvergenceRun result) \<Rightarrow> ('s \<Rightarrow> ConvergenceRun option result) \<Rightarrow>
   store_op list \<Rightarrow> 's \<Rightarrow> store_response list" where
  "exec_ops c a g l [] s = []"
| "exec_ops c a g l (OpCreate u p so ta at # ops) s =
     (case answer s (c u p so ta at s) of (x, s') \<Rightarrow> x # exec_ops c a g l ops s')"
| "exec_ops c a g l (OpAppend i e # ops) s =
     (case answer s (a i e s) of (x, s') \<Rightarrow> x # exec_ops c a g l ops s')"
| "exec_ops c a g l (OpGet i # ops) s = RunResponse (g i s) # exec_ops c a g l ops s"
| "exec_ops c a g l (OpLatest # ops) s = LatestResponse (l s) # exec_ops c a g l ops s"

definition spec_ops :: "nat \<Rightarrow> store_op list \<Rightarrow> ConvergenceRun list \<Rightarrow> store_response list" where
  "spec_ops capacity =
     exec_ops (spec_create capacity) spec_append spec_get (\<lambda>runs. Inr (spec_latest runs))"

text \<open>
  Ids are fresh and times are valid, as \<open>uuid4\<close> and \<open>datetime\<close> make them, and the integers
  of an event fit the 64 bits of an SQLite column.
\<close>

definition representable :: "ConvergenceEvent \<Rightarrow> bool" where
  "representable e =
     (valid_datetime (ev_observed_at e) \<and> int64 (ev_offset_ms e) \<and>
      int64_option (ev_route_metric e) \<and> int64_option (ev_icmp_sequence e))"

fun admissible :: "store_op list \<Rightarrow> string set \<Rightarrow> bool" where
  "admissible [] used = True"
| "admissible (OpCreate u p so ta at # ops) used =
     (''run-'' @ u \<notin> used \<and> valid_datetime at \<and> admissible ops (insert (''run-'' @ u) used))"
| "admissible (OpAppend i e # ops) used = (representable e \<and> admissible ops used)"
| "admissible (op # ops) used = admissible ops used"

lemma spec_create_ids:
  "spec_create n u p so ta at runs = Inr (r, runs') \<Longrightarrow> run_id ` set runs' \<subseteq> insert (''run-'' @ u) (run_id ` set runs)"
proof -
  assume "spec_create n u p so ta at runs = Inr (r, runs')"
  then have "runs' = newest_of n (runs @ [mk_run u p so ta at])"
    by (auto simp: spec_create_def rbind_eq_Inr)
  then have "set runs' \<subseteq> set (runs @ [mk_run u p so ta at])"
    using set_drop_subset unfolding newest_of_def by metis
  moreover have "run_id (mk_run u p so ta at) = ''run-'' @ u" by (simp add: mk_run_def)
  ultimately show ?thesis by auto
qed

lemma spec_append_ids: "spec_append i e runs = Inr (r, runs') \<Longrightarrow> map run_id runs' = map run_id runs"
  by (auto simp: spec_append_def rbind_eq_Inr)

text \<open>Every run a call answers with, or the store keeps, has a valid timeline.\<close>

definition response_ok :: "store_response \<Rightarrow> bool" where
  "response_ok x =
     (case x of
        RunResponse (Inr r) \<Rightarrow> timeline_ok r
      | LatestResponse (Inr (Some r)) \<Rightarrow> timeline_ok r
      | _ \<Rightarrow> True)"

lemma spec_get_mem: "spec_get i runs = Inr r \<Longrightarrow> r \<in> set runs \<and> run_id r = i"
  by (auto simp: spec_get_def find_Some_iff split: option.splits)

lemma spec_create_timelines:
  assumes "spec_create n u p so ta at runs = Inr (r, runs')" "\<forall>r \<in> set runs. timeline_ok r"
  shows "timeline_ok r \<and> (\<forall>r \<in> set runs'. timeline_ok r)"
proof -
  have v: "validate_run p so ta at = Inr ()" and r: "r = mk_run u p so ta at"
    and runs: "runs' = newest_of n (runs @ [r])"
    using assms(1) by (auto simp: spec_create_def rbind_eq_Inr)
  have "timeline_ok r" unfolding r mk_run_def using timeline_fresh [OF v] .
  moreover have "set runs' \<subseteq> set (runs @ [r])" unfolding runs newest_of_def by (rule set_drop_subset)
  ultimately show ?thesis using assms(2) by auto
qed

lemma spec_append_timelines:
  assumes "spec_append i e runs = Inr (r, runs')" "\<forall>r \<in> set runs. timeline_ok r" "distinct (map run_id runs)"
  shows "timeline_ok r \<and> (\<forall>r \<in> set runs'. timeline_ok r)"
proof -
  obtain q where q: "spec_get i runs = Inr q" "validate_event q e = Inr ()" "r = add_event q e"
    and runs: "runs' = map (\<lambda>r. if run_id r = i then add_event r e else r) runs"
    using assms(1) by (auto simp: spec_append_def rbind_eq_Inr)
  note mem = spec_get_mem [OF q(1)]
  have add: "timeline_ok (add_event q e)" using timeline_add_event [OF _ q(2)] assms(2) mem by blast
  have "p = q" if "p \<in> set runs" "run_id p = i" for p
    using assms(3) that mem by (auto simp: distinct_map inj_on_def)
  then show ?thesis using add q(3) assms(2) unfolding runs by auto
qed

lemma spec_ops_timelines:
  assumes "\<forall>r \<in> set runs. timeline_ok r" "distinct (map run_id runs)"
    and "admissible ops used" "run_id ` set runs \<subseteq> used"
  shows "\<forall>x \<in> set (spec_ops n ops runs). response_ok x"
  using assms
proof (induction ops arbitrary: runs used)
  case (Cons op ops)
  show ?case
  proof (cases op)
    case (OpCreate u p so ta at)
    show ?thesis
    proof (cases "spec_create n u p so ta at runs")
      case (Inr q)
      then obtain r runs' where c: "spec_create n u p so ta at runs = Inr (r, runs')" by (cases q) simp
      have ids: "run_id ` set runs' \<subseteq> insert (''run-'' @ u) used"
        using spec_create_ids [OF c] Cons.prems(4) by blast
      have "''run-'' @ u \<notin> run_id ` set runs" using Cons.prems(3,4) OpCreate by auto
      then have "distinct (map run_id (runs @ [mk_run u p so ta at]))"
        using Cons.prems(2) by (simp add: mk_run_def)
      moreover have "runs' = newest_of n (runs @ [mk_run u p so ta at])"
        using c by (auto simp: spec_create_def rbind_eq_Inr)
      ultimately have "distinct (map run_id runs')"
        unfolding newest_of_def using distinct_drop drop_map by metis
      with spec_create_timelines [OF c Cons.prems(1)] Cons.IH [of runs' "insert (''run-'' @ u) used"] ids Cons.prems(3)
      show ?thesis by (simp add: OpCreate spec_ops_def c answer_def response_ok_def)
    qed (use Cons.IH [of runs "insert (''run-'' @ u) used"] Cons.prems OpCreate in
        \<open>auto simp: spec_ops_def answer_def response_ok_def\<close>)
  next
    case (OpAppend i e)
    show ?thesis
    proof (cases "spec_append i e runs")
      case (Inr q)
      then obtain r runs' where c: "spec_append i e runs = Inr (r, runs')" by (cases q) simp
      have "map run_id runs' = map run_id runs" using spec_append_ids [OF c] .
      then have "distinct (map run_id runs')" "run_id ` set runs' \<subseteq> used"
        using Cons.prems(2,4) by (metis, metis set_map)
      with spec_append_timelines [OF c Cons.prems(1,2)] Cons.IH [of runs' used] Cons.prems(3) OpAppend
      show ?thesis by (simp add: OpAppend spec_ops_def c answer_def response_ok_def)
    qed (use Cons.IH [of runs used] Cons.prems OpAppend in
        \<open>auto simp: spec_ops_def answer_def response_ok_def\<close>)
  next
    case (OpGet i)
    then show ?thesis
      using Cons.IH [of runs used] Cons.prems spec_get_mem [of i runs]
      by (auto simp: spec_ops_def response_ok_def split: sum.splits)
  next
    case OpLatest
    then show ?thesis
      using Cons.IH [of runs used] Cons.prems
      by (auto simp: spec_ops_def response_ok_def spec_latest_def)
  qed
qed (simp add: spec_ops_def)

locale convergence_repository =
  fixes ok :: "'s \<Rightarrow> bool" and capacity_of :: "'s \<Rightarrow> nat" and runs_of :: "'s \<Rightarrow> ConvergenceRun list"
    and create :: "string \<Rightarrow> string \<Rightarrow> string \<Rightarrow> string \<Rightarrow> datetime \<Rightarrow> 's \<Rightarrow> (ConvergenceRun \<times> 's) result"
    and append :: "string \<Rightarrow> ConvergenceEvent \<Rightarrow> 's \<Rightarrow> (ConvergenceRun \<times> 's) result"
    and get :: "string \<Rightarrow> 's \<Rightarrow> ConvergenceRun result"
    and latest :: "'s \<Rightarrow> ConvergenceRun option result"
  assumes create_spec: "ok s \<Longrightarrow> fresh_run u (runs_of s) \<Longrightarrow> valid_datetime at \<Longrightarrow>
      seen_as runs_of (create u p so ta at s) = spec_create (capacity_of s) u p so ta at (runs_of s)"
    and create_ok: "ok s \<Longrightarrow> fresh_run u (runs_of s) \<Longrightarrow> valid_datetime at \<Longrightarrow>
      create u p so ta at s = Inr (r, s') \<Longrightarrow> ok s' \<and> capacity_of s' = capacity_of s"
    and append_spec: "ok s \<Longrightarrow> representable e \<Longrightarrow>
      seen_as runs_of (append i e s) = spec_append i e (runs_of s)"
    and append_ok: "ok s \<Longrightarrow> representable e \<Longrightarrow> append i e s = Inr (r, s') \<Longrightarrow>
      ok s' \<and> capacity_of s' = capacity_of s"
    and get_spec: "ok s \<Longrightarrow> get i s = spec_get i (runs_of s)"
    and latest_spec: "ok s \<Longrightarrow> latest s = Inr (spec_latest (runs_of s))"
    and bounded: "ok s \<Longrightarrow> 1 \<le> capacity_of s \<and> length (runs_of s) \<le> capacity_of s"
    and ids_distinct: "ok s \<Longrightarrow> distinct (map run_id (runs_of s))"
begin

text \<open>Any sequence of calls answers as the abstract repository does.\<close>

lemma exec_spec:
  assumes "ok s" "admissible ops used" "run_id ` set (runs_of s) \<subseteq> used"
  shows "exec_ops create append get latest ops s = spec_ops (capacity_of s) ops (runs_of s)"
  using assms
proof (induction ops arbitrary: s used)
  case (Cons op ops)
  show ?case
  proof (cases op)
    case (OpCreate u p so ta at)
    have fresh: "fresh_run u (runs_of s)" and at: "valid_datetime at"
      using Cons.prems OpCreate by (auto simp: fresh_run_def)
    note spec = create_spec [OF Cons.prems(1) fresh at, of p so ta]
    show ?thesis
    proof (cases "create u p so ta at s")
      case (Inl e)
      then have "spec_create (capacity_of s) u p so ta at (runs_of s) = Inl e" using spec [symmetric] by simp
      with Inl Cons.IH [of s "insert (''run-'' @ u) used"] Cons.prems OpCreate
      show ?thesis by (auto simp: spec_ops_def answer_def)
    next
      case (Inr q)
      then obtain r s' where c: "create u p so ta at s = Inr (r, s')" by (cases q) simp
      then have sc: "spec_create (capacity_of s) u p so ta at (runs_of s) = Inr (r, runs_of s')"
        using spec by simp
      have "run_id ` set (runs_of s') \<subseteq> insert (''run-'' @ u) used"
        using spec_create_ids [OF sc] Cons.prems(3) by blast
      with Cons.IH [of s' "insert (''run-'' @ u) used"] create_ok [OF Cons.prems(1) fresh at c] Cons.prems(2)
      show ?thesis by (simp add: OpCreate c sc spec_ops_def answer_def)
    qed
  next
    case (OpAppend i e)
    have at: "representable e" using Cons.prems OpAppend by simp
    note spec = append_spec [OF Cons.prems(1) at, of i]
    show ?thesis
    proof (cases "append i e s")
      case (Inl x)
      then have "spec_append i e (runs_of s) = Inl x" using spec [symmetric] by simp
      with Inl Cons.IH [of s used] Cons.prems OpAppend
      show ?thesis by (auto simp: spec_ops_def answer_def)
    next
      case (Inr q)
      then obtain r s' where c: "append i e s = Inr (r, s')" by (cases q) simp
      then have sc: "spec_append i e (runs_of s) = Inr (r, runs_of s')" using spec by simp
      have "run_id ` set (runs_of s') \<subseteq> used" using spec_append_ids [OF sc] Cons.prems(3) by (metis set_map)
      with Cons.IH [of s' used] append_ok [OF Cons.prems(1) at c] Cons.prems(2) OpAppend
      show ?thesis by (simp add: c sc spec_ops_def answer_def)
    qed
  qed (use Cons.IH [of s used] Cons.prems get_spec latest_spec in \<open>auto simp: spec_ops_def\<close>)
qed (simp add: spec_ops_def)

lemma get_stored: "ok s \<Longrightarrow> get i s = Inr r \<longleftrightarrow> r \<in> set (runs_of s) \<and> run_id r = i"
proof -
  assume s: "ok s"
  have "List.find (\<lambda>r. run_id r = i) rs = Some r \<longleftrightarrow> r \<in> set rs \<and> run_id r = i"
    if "distinct (map run_id rs)" for rs
    using that by (induction rs) auto
  from this [OF ids_distinct [OF s]] show ?thesis
    unfolding get_spec [OF s] spec_get_def by (auto split: option.splits)
qed

lemma append_step:
  assumes "ok s" "representable e"
  shows "append i e s = Inr (r', s') \<Longrightarrow>
      \<exists>r. get i s = Inr r \<and> validate_event r e = Inr () \<and> r' = add_event r e \<and> get i s' = Inr r'"
    and "get i s = Inr r \<Longrightarrow> validate_event r e = Inr () \<Longrightarrow> \<exists>s'. append i e s = Inr (add_event r e, s')"
proof -
  show "\<exists>r. get i s = Inr r \<and> validate_event r e = Inr () \<and> r' = add_event r e \<and> get i s' = Inr r'"
    if a: "append i e s = Inr (r', s')"
  proof -
    have sp: "spec_append i e (runs_of s) = Inr (r', runs_of s')"
      using append_spec [OF assms, of i] a by simp
    then obtain r where r: "spec_get i (runs_of s) = Inr r" "validate_event r e = Inr ()" "r' = add_event r e"
      "runs_of s' = map (\<lambda>r. if run_id r = i then add_event r e else r) (runs_of s)"
      by (auto simp: spec_append_def rbind_eq_Inr)
    have ok': "ok s'" using append_ok [OF assms a] by blast
    have get: "get i s = Inr r" using r(1) get_spec [OF assms(1)] by simp
    then have stored: "r \<in> set (runs_of s)" "run_id r = i" using get_stored [OF assms(1)] by auto
    then have "r' \<in> set (runs_of s')" unfolding r(3,4) by force
    moreover have "run_id r' = i" using stored(2) r(3) by simp
    ultimately have "get i s' = Inr r'" using get_stored [OF ok'] by blast
    with get r(2,3) show ?thesis by blast
  qed
  show "\<exists>s'. append i e s = Inr (add_event r e, s')"
    if "get i s = Inr r" "validate_event r e = Inr ()"
  proof -
    have "spec_append i e (runs_of s) =
        Inr (add_event r e, map (\<lambda>r. if run_id r = i then add_event r e else r) (runs_of s))"
      using that get_spec [OF assms(1)] by (simp add: spec_append_def)
    with append_spec [OF assms, of i] show ?thesis by (auto simp: seen_as_eq_Inr)
  qed
qed

lemma complete_is_final:
  assumes "ok s" "representable e" "get i s = Inr r" "run_status r = Inr ''complete''"
  shows "\<exists>err. append i e s = Inl err"
proof (cases "append i e s")
  case (Inr p)
  then obtain r' s' where "append i e s = Inr (r', s')" by (cases p) simp
  from append_step(1) [OF assms(1,2) this] obtain q where "get i s = Inr q" "validate_event q e = Inr ()" by blast
  with assms(3) complete_rejects [OF assms(4), of e] show ?thesis by auto
qed blast

end

end
