(* ===== verification/Convergence_Memory.thy ===== *)
theory Convergence_Memory
  imports Convergence_Runs
begin

text \<open>
  \<open>ConvergenceStore\<close>: a dictionary of runs and the order of their creation, evicting the
  oldest beyond the capacity. It implements the repository protocol.
\<close>

record ConvergenceStore =
  cs_capacity :: int
  cs_runs :: "ConvergenceRun dict"
  cs_order :: "string list"

definition mk_convergence_store :: "int \<Rightarrow> ConvergenceStore result" where
  "mk_convergence_store capacity =
     rbind (ensure (1 \<le> capacity) ''convergence store capacity must be positive'') (\<lambda>_.
       Inr \<lparr>cs_capacity = capacity, cs_runs = [], cs_order = []\<rparr>)"

fun cs_expire :: "int \<Rightarrow> ConvergenceRun dict \<Rightarrow> string list \<Rightarrow> (ConvergenceRun dict \<times> string list) result" where
  "cs_expire capacity runs [] = Inr (runs, [])"
| "cs_expire capacity runs (expired # order) =
     (if int (length (expired # order)) \<le> capacity then Inr (runs, expired # order)
      else if map_of runs expired = None then Inl (KeyError expired)
      else cs_expire capacity (dict_del expired runs) order)"

definition cs_create_run ::
  "string \<Rightarrow> string \<Rightarrow> string \<Rightarrow> string \<Rightarrow> datetime \<Rightarrow> ConvergenceStore \<Rightarrow>
   (ConvergenceRun \<times> ConvergenceStore) result" where
  "cs_create_run uuid_hex profile source target timestamp s =
     rbind (validate_run profile source target timestamp) (\<lambda>_.
       let run = mk_run uuid_hex profile source target timestamp
       in rbind (cs_expire (cs_capacity s) (dict_set (run_id run) run (cs_runs s)) (cs_order s @ [run_id run]))
            (\<lambda>(runs, order). Inr (run, s\<lparr>cs_runs := runs, cs_order := order\<rparr>)))"

definition cs_lookup :: "string \<Rightarrow> ConvergenceStore \<Rightarrow> ConvergenceRun result" where
  "cs_lookup i s =
     (case map_of (cs_runs s) i of
        None \<Rightarrow> Inl (KeyError (''convergence run not found: '' @ i))
      | Some run \<Rightarrow> Inr run)"

definition cs_append_event ::
  "string \<Rightarrow> ConvergenceEvent \<Rightarrow> ConvergenceStore \<Rightarrow> (ConvergenceRun \<times> ConvergenceStore) result" where
  "cs_append_event i event s =
     rbind (cs_lookup i s) (\<lambda>run.
     rbind (validate_event run event) (\<lambda>_.
       let run' = add_event run event
       in Inr (run', s\<lparr>cs_runs := dict_set i run' (cs_runs s)\<rparr>)))"

definition cs_latest :: "ConvergenceStore \<Rightarrow> ConvergenceRun option result" where
  "cs_latest s =
     (if cs_order s = [] then Inr None
      else (case map_of (cs_runs s) (last (cs_order s)) of
              None \<Rightarrow> Inl (KeyError (last (cs_order s)))
            | Some run \<Rightarrow> Inr (Some run)))"

section \<open>Refinement\<close>

definition cs_ok :: "ConvergenceStore \<Rightarrow> bool" where
  "cs_ok s =
     (1 \<le> cs_capacity s \<and> int (length (cs_order s)) \<le> cs_capacity s \<and> distinct (cs_order s) \<and>
      set (cs_order s) = dom (map_of (cs_runs s)) \<and>
      (\<forall>i r. map_of (cs_runs s) i = Some r \<longrightarrow> run_id r = i))"

definition cs_view :: "ConvergenceStore \<Rightarrow> ConvergenceRun list" where
  "cs_view s = map (\<lambda>i. the (map_of (cs_runs s) i)) (cs_order s)"

lemma cs_okD:
  assumes "cs_ok s"
  shows "1 \<le> cs_capacity s" "int (length (cs_order s)) \<le> cs_capacity s" "distinct (cs_order s)"
    and "i \<in> set (cs_order s) \<longleftrightarrow> (\<exists>r. map_of (cs_runs s) i = Some r)"
    and "map_of (cs_runs s) i = Some r \<Longrightarrow> run_id r = i"
  using assms unfolding cs_ok_def by (simp_all add: domIff)

lemma cs_ok_init: "mk_convergence_store capacity = Inr s \<Longrightarrow> cs_ok s \<and> cs_view s = []"
  by (auto simp: mk_convergence_store_def rbind_eq_Inr cs_ok_def cs_view_def)

lemma cs_view_ids: "cs_ok s \<Longrightarrow> map run_id (cs_view s) = cs_order s"
proof -
  assume ok: "cs_ok s"
  have "run_id (the (map_of (cs_runs s) i)) = i" if "i \<in> set (cs_order s)" for i
    using cs_okD(4,5) [OF ok] that by force
  then show ?thesis by (simp add: cs_view_def map_idI)
qed

lemma cs_view_mem: "cs_ok s \<Longrightarrow> r \<in> set (cs_view s) \<longleftrightarrow> map_of (cs_runs s) (run_id r) = Some r"
proof
  assume ok: "cs_ok s" and "r \<in> set (cs_view s)"
  then obtain i where i: "i \<in> set (cs_order s)" "r = the (map_of (cs_runs s) i)" by (auto simp: cs_view_def)
  then obtain q where "map_of (cs_runs s) i = Some q" using cs_okD(4) [OF ok] by blast
  with cs_okD(5) [OF ok this] i(2) show "map_of (cs_runs s) (run_id r) = Some r" by simp
next
  assume ok: "cs_ok s" and r: "map_of (cs_runs s) (run_id r) = Some r"
  then have "run_id r \<in> set (cs_order s)" using cs_okD(4) [OF ok] by blast
  with r show "r \<in> set (cs_view s)" unfolding cs_view_def by force
qed

lemma find_id:
  assumes "distinct (map run_id rs)" "r \<in> set rs"
  shows "List.find (\<lambda>q. run_id q = run_id r) rs = Some r"
  using assms by (induction rs) auto

lemma cs_lookup_spec:
  assumes ok: "cs_ok s"
  shows "cs_lookup i s = spec_get i (cs_view s)"
proof (cases "map_of (cs_runs s) i")
  case None
  then have "i \<notin> set (map run_id (cs_view s))" unfolding cs_view_ids [OF ok] using cs_okD(4) [OF ok] by simp
  then have "List.find (\<lambda>r. run_id r = i) (cs_view s) = None" by (auto simp: find_None_iff)
  then show ?thesis using None by (simp add: cs_lookup_def spec_get_def)
next
  case (Some r)
  then have i: "run_id r = i" using cs_okD(5) [OF ok] by blast
  then have "r \<in> set (cs_view s)" using cs_view_mem [OF ok] Some by simp
  moreover have "distinct (map run_id (cs_view s))" unfolding cs_view_ids [OF ok] using ok by (simp add: cs_ok_def)
  ultimately have "List.find (\<lambda>q. run_id q = i) (cs_view s) = Some r" using find_id i by blast
  then show ?thesis using Some by (simp add: cs_lookup_def spec_get_def)
qed

lemma cs_latest_spec: "cs_ok s \<Longrightarrow> cs_latest s = Inr (spec_latest (cs_view s))"
proof -
  assume ok: "cs_ok s"
  show ?thesis
  proof (cases "cs_order s = []")
    case False
    then obtain r where "map_of (cs_runs s) (last (cs_order s)) = Some r"
      using cs_okD(4) [OF ok, of "last (cs_order s)"] by auto
    then show ?thesis using False by (simp add: cs_latest_def spec_latest_def cs_view_def last_map)
  qed (simp add: cs_latest_def spec_latest_def cs_view_def)
qed

text \<open>The eviction loop keeps the newest runs and never misses a key.\<close>

lemma cs_expire_eq:
  assumes "distinct order" "set order = dom (map_of runs)" "0 \<le> capacity"
  shows "\<exists>runs'. cs_expire capacity runs order = Inr (runs', newest_of (nat capacity) order) \<and>
    map_of runs' = map_of runs |` set (newest_of (nat capacity) order)"
  using assms
proof (induction capacity runs order rule: cs_expire.induct)
  case (2 capacity runs expired order)
  show ?case
  proof (cases "int (length (expired # order)) \<le> capacity")
    case True
    have "map_of runs |` dom (map_of runs) = map_of runs"
      by (rule ext) (simp add: restrict_map_def domIff)
    with 2(3) have "map_of runs |` set (expired # order) = map_of runs" by simp
    then show ?thesis using True by (simp add: newest_of_def)
  next
    case False
    have "expired \<in> dom (map_of runs)" using 2(3) by (metis list.set_intros(1))
    then have known: "map_of runs expired \<noteq> None" by (simp add: domIff)
    have drop: "newest_of (nat capacity) (expired # order) = newest_of (nat capacity) order"
      using False 2(4) by (simp add: newest_of_def Suc_diff_le)
    have del: "map_of (dict_del expired runs) = (map_of runs)(expired := None)" by (simp add: delete_conv')
    have "set order = dom (map_of (dict_del expired runs))" using 2(2,3) unfolding del by auto
    from 2(1) [OF False known _ this 2(4)] 2(2) obtain runs' where
      r: "cs_expire capacity (dict_del expired runs) order = Inr (runs', newest_of (nat capacity) order)"
      "map_of runs' = map_of (dict_del expired runs) |` set (newest_of (nat capacity) order)" by auto
    have "expired \<notin> set (newest_of (nat capacity) order)"
      using 2(2) set_drop_subset unfolding newest_of_def by fastforce
    then have "map_of runs' = map_of runs |` set (newest_of (nat capacity) order)"
      unfolding r(2) del by (auto simp: restrict_map_def)
    then show ?thesis using False known r(1) unfolding drop by simp
  qed
qed (simp add: newest_of_def dom_map_of_conv_image_fst)

lemma map_newest_of: "map f (newest_of n xs) = newest_of n (map f xs)"
  by (simp add: newest_of_def drop_map)

lemma cs_create_refines:
  assumes ok: "cs_ok s" and fresh: "fresh_run u (cs_view s)"
  shows "seen_as cs_view (cs_create_run u p so ta at s) =
      spec_create (nat (cs_capacity s)) u p so ta at (cs_view s)"
    and "cs_create_run u p so ta at s = Inr (r, s') \<Longrightarrow> cs_ok s' \<and> cs_capacity s' = cs_capacity s"
proof -
  define run where "run = mk_run u p so ta at"
  have id: "run_id run = ''run-'' @ u" by (simp add: run_def mk_run_def)
  have new: "run_id run \<notin> set (cs_order s)"
    using fresh unfolding fresh_run_def id [symmetric] cs_view_ids [OF ok, symmetric] by simp
  let ?runs = "dict_set (run_id run) run (cs_runs s)" and ?order = "cs_order s @ [run_id run]"
  have "distinct ?order" "set ?order = dom (map_of ?runs)" "0 \<le> cs_capacity s"
    using ok new unfolding cs_ok_def by simp_all
  from cs_expire_eq [OF this] obtain runs' where
    e: "cs_expire (cs_capacity s) ?runs ?order = Inr (runs', newest_of (nat (cs_capacity s)) ?order)"
    and r': "map_of runs' = map_of ?runs |` set (newest_of (nat (cs_capacity s)) ?order)" by blast
  define s1 where "s1 = s\<lparr>cs_runs := runs', cs_order := newest_of (nat (cs_capacity s)) ?order\<rparr>"
  have sub: "set (newest_of (nat (cs_capacity s)) ?order) \<subseteq> set ?order"
    unfolding newest_of_def by (rule set_drop_subset)
  have out: "cs_create_run u p so ta at s = rbind (validate_run p so ta at) (\<lambda>_. Inr (run, s1))"
    using e by (simp add: cs_create_run_def Let_def run_def [symmetric] s1_def)
  have ok1: "cs_ok s1"
  proof -
    have "distinct (newest_of (nat (cs_capacity s)) ?order)"
      using \<open>distinct ?order\<close> unfolding newest_of_def by (rule distinct_drop)
    moreover have "set (newest_of (nat (cs_capacity s)) ?order) = dom (map_of runs')"
      unfolding r' dom_restrict using sub \<open>set ?order = dom (map_of ?runs)\<close> by blast
    moreover have "run_id q = i" if "map_of runs' i = Some q" for i q
      using that cs_okD(5) [OF ok] unfolding r' restrict_map_def by (simp split: if_splits)
    moreover have "int (length (newest_of (nat (cs_capacity s)) ?order)) \<le> cs_capacity s"
      using cs_okD(1) [OF ok] by (simp add: newest_of_def)
    ultimately show ?thesis using cs_okD(1) [OF ok] unfolding s1_def cs_ok_def by simp
  qed
  have view1: "cs_view s1 = newest_of (nat (cs_capacity s)) (cs_view s @ [run])"
  proof -
    have "cs_view s1 = map (\<lambda>i. the (map_of ?runs i)) (newest_of (nat (cs_capacity s)) ?order)"
      unfolding cs_view_def s1_def using r' by simp
    also have "\<dots> = newest_of (nat (cs_capacity s)) (map (\<lambda>i. the (map_of ?runs i)) ?order)"
      by (rule map_newest_of)
    also have "map (\<lambda>i. the (map_of ?runs i)) ?order = cs_view s @ [run]"
      using new by (auto simp: cs_view_def)
    finally show ?thesis .
  qed
  show "seen_as cs_view (cs_create_run u p so ta at s) =
      spec_create (nat (cs_capacity s)) u p so ta at (cs_view s)"
    unfolding out spec_create_def by (cases "validate_run p so ta at") (simp_all add: view1 run_def [symmetric])
  show "cs_create_run u p so ta at s = Inr (r, s') \<Longrightarrow> cs_ok s' \<and> cs_capacity s' = cs_capacity s"
    using ok1 unfolding out by (auto simp: rbind_eq_Inr s1_def)
qed

lemma cs_append_refines:
  assumes ok: "cs_ok s"
  shows "seen_as cs_view (cs_append_event i e s) = spec_append i e (cs_view s)"
    and "cs_append_event i e s = Inr (r, s') \<Longrightarrow> cs_ok s' \<and> cs_capacity s' = cs_capacity s"
proof -
  have view: "cs_view (s\<lparr>cs_runs := dict_set i (add_event q e) (cs_runs s)\<rparr>) =
      map (\<lambda>r. if run_id r = i then add_event r e else r) (cs_view s)"
    if q: "map_of (cs_runs s) i = Some q" for q
  proof -
    have "the (((map_of (cs_runs s))(i \<mapsto> add_event q e)) j) =
        (if run_id (the (map_of (cs_runs s) j)) = i then add_event (the (map_of (cs_runs s) j)) e
         else the (map_of (cs_runs s) j))" if "j \<in> set (cs_order s)" for j
      using cs_okD(4,5) [OF ok] q that by force
    then show ?thesis by (simp add: cs_view_def)
  qed
  show "seen_as cs_view (cs_append_event i e s) = spec_append i e (cs_view s)"
  proof (cases "map_of (cs_runs s) i")
    case None
    then show ?thesis
      using cs_lookup_spec [OF ok, of i] by (simp add: cs_append_event_def spec_append_def cs_lookup_def flip: cs_lookup_spec [OF ok])
  next
    case (Some q)
    then have "spec_get i (cs_view s) = Inr q" using cs_lookup_spec [OF ok, of i] by (simp add: cs_lookup_def)
    with Some view [OF Some] show ?thesis
      by (cases "validate_event q e") (simp_all add: cs_append_event_def spec_append_def cs_lookup_def Let_def)
  qed
  show "cs_append_event i e s = Inr (r, s') \<Longrightarrow> cs_ok s' \<and> cs_capacity s' = cs_capacity s"
  proof -
    assume "cs_append_event i e s = Inr (r, s')"
    then obtain q where q: "map_of (cs_runs s) i = Some q"
      "s' = s\<lparr>cs_runs := dict_set i (add_event q e) (cs_runs s)\<rparr>"
      by (auto simp: cs_append_event_def rbind_eq_Inr cs_lookup_def Let_def split: option.splits)
    have "insert i (dom (map_of (cs_runs s))) = dom (map_of (cs_runs s))" using q(1) by auto
    then show "cs_ok s' \<and> cs_capacity s' = cs_capacity s"
      using ok cs_okD(5) [OF ok q(1)] unfolding q(2) cs_ok_def by simp
  qed
qed

interpretation memory_runs: convergence_repository cs_ok "\<lambda>s. nat (cs_capacity s)" cs_view
  cs_create_run cs_append_event cs_lookup cs_latest
proof unfold_locales
  show "distinct (map run_id (cs_view s))" if "cs_ok s" for s
    unfolding cs_view_ids [OF that] using that by (simp add: cs_ok_def)
  show "1 \<le> nat (cs_capacity s) \<and> length (cs_view s) \<le> nat (cs_capacity s)" if "cs_ok s" for s
    using that by (auto simp: cs_ok_def cs_view_def)
  show "cs_ok s' \<and> nat (cs_capacity s') = nat (cs_capacity s)"
    if "cs_ok s" "fresh_run u (cs_view s)" "valid_datetime at" "cs_create_run u p so ta at s = Inr (r, s')"
    for s u at p so ta r s'
    using cs_create_refines(2) [OF that(1,2,4)] by simp
  show "cs_ok s' \<and> nat (cs_capacity s') = nat (cs_capacity s)"
    if "cs_ok s" "representable e" "cs_append_event i e s = Inr (r, s')" for s e i r s'
    using cs_append_refines(2) [OF that(1,3)] by simp
qed (use cs_create_refines(1) cs_append_refines(1) cs_lookup_spec cs_latest_spec in blast)+

end
