(* ===== verification/Convergence_Sqlite.thy ===== *)
theory Convergence_Sqlite
  imports Convergence_Memory
begin

text \<open>
  \<open>SQLiteConvergenceStore\<close>: two tables with autoincremented sequence numbers, their
  constraints, and the SQL the store runs on them. A transaction that raises rolls back, so
  an error result carries no state. Times and kinds are stored as texts and parsed again
  when a run is loaded; the store implements the repository protocol because both parsers
  invert their printers.
\<close>

section \<open>Tables and operations\<close>

record RunRow =
  rr_sequence :: nat
  rr_id :: string
  rr_profile :: string
  rr_source :: string
  rr_target :: string
  rr_started_at :: string

record EventRow =
  er_sequence :: nat
  er_run_id :: string
  er_kind :: string
  er_offset_ms :: int
  er_observed_at :: string
  er_route_metric :: "int option"
  er_icmp_sequence :: "int option"

record SQLiteConvergenceStore =
  sq_capacity :: int
  sq_runs :: "RunRow list"
  sq_events :: "EventRow list"
  sq_run_counter :: nat
  sq_event_counter :: nat

text \<open>\<open>_prune\<close>: keep the rows with the highest sequence numbers; events cascade.\<close>

definition sq_prune :: "SQLiteConvergenceStore \<Rightarrow> SQLiteConvergenceStore" where
  "sq_prune s =
     (let keep = take (nat (sq_capacity s)) (rev (sort (map rr_sequence (sq_runs s))));
          deleted = map rr_id (filter (\<lambda>r. rr_sequence r \<notin> set keep) (sq_runs s))
      in s\<lparr>sq_runs := filter (\<lambda>r. rr_sequence r \<in> set keep) (sq_runs s),
           sq_events := filter (\<lambda>e. er_run_id e \<notin> set deleted) (sq_events s)\<rparr>)"

text \<open>The constructor on an existing (or empty) database.\<close>

definition sq_open :: "int \<Rightarrow> SQLiteConvergenceStore \<Rightarrow> SQLiteConvergenceStore result" where
  "sq_open capacity database =
     rbind (ensure (1 \<le> capacity) ''convergence store capacity must be positive'') (\<lambda>_.
     rbind (sq_bind [Some capacity]) (\<lambda>_.
       Inr (sq_prune (database\<lparr>sq_capacity := capacity\<rparr>))))"

definition sq_empty :: SQLiteConvergenceStore where
  "sq_empty = \<lparr>sq_capacity = 0, sq_runs = [], sq_events = [], sq_run_counter = 0, sq_event_counter = 0\<rparr>"

definition sq_insert_run :: "ConvergenceRun \<Rightarrow> SQLiteConvergenceStore \<Rightarrow> SQLiteConvergenceStore result" where
  "sq_insert_run run s =
     (if run_id run \<in> set (map rr_id (sq_runs s))
      then Inl (IntegrityError ''UNIQUE constraint failed: convergence_runs.id'')
      else Inr (s\<lparr>sq_run_counter := Suc (sq_run_counter s),
        sq_runs := sq_runs s @ [\<lparr>rr_sequence = Suc (sq_run_counter s), rr_id = run_id run,
          rr_profile = run_profile run, rr_source = run_source run, rr_target = run_target run,
          rr_started_at = isoformat (run_started_at run)\<rparr>]\<rparr>))"

definition sq_create_run ::
  "string \<Rightarrow> string \<Rightarrow> string \<Rightarrow> string \<Rightarrow> datetime \<Rightarrow> SQLiteConvergenceStore \<Rightarrow>
   (ConvergenceRun \<times> SQLiteConvergenceStore) result" where
  "sq_create_run uuid_hex profile source target timestamp s =
     rbind (validate_run profile source target timestamp) (\<lambda>_.
       let run = mk_run uuid_hex profile source target timestamp
       in rbind (sq_insert_run run s) (\<lambda>s'. Inr (run, sq_prune s')))"

definition parse_timestamp :: "string \<Rightarrow> datetime result" where
  "parse_timestamp text =
     (case fromisoformat text of
        None \<Rightarrow> Inl (ValueError (''Invalid isoformat string: '' @ text))
      | Some d \<Rightarrow> Inr d)"

definition event_of_row :: "EventRow \<Rightarrow> ConvergenceEvent result" where
  "event_of_row e =
     rbind (kind_of_value (er_kind e)) (\<lambda>kind.
     rbind (parse_timestamp (er_observed_at e)) (\<lambda>observed_at.
       Inr \<lparr>ev_kind = kind, ev_offset_ms = er_offset_ms e, ev_observed_at = observed_at,
         ev_route_metric = er_route_metric e, ev_icmp_sequence = er_icmp_sequence e\<rparr>))"

definition sq_load :: "string \<Rightarrow> SQLiteConvergenceStore \<Rightarrow> ConvergenceRun result" where
  "sq_load i s =
     (case List.find (\<lambda>r. rr_id r = i) (sq_runs s) of
        None \<Rightarrow> Inl (KeyError (''convergence run not found: '' @ i))
      | Some row \<Rightarrow>
          rbind (parse_timestamp (rr_started_at row)) (\<lambda>started_at.
          rbind (traverse event_of_row
              (sort_key er_sequence (filter (\<lambda>e. er_run_id e = i) (sq_events s)))) (\<lambda>events.
            Inr \<lparr>run_id = rr_id row, run_profile = rr_profile row, run_source = rr_source row,
              run_target = rr_target row, run_started_at = started_at, run_events = events\<rparr>)))"

definition sq_insert_event ::
  "string \<Rightarrow> ConvergenceEvent \<Rightarrow> SQLiteConvergenceStore \<Rightarrow> SQLiteConvergenceStore result" where
  "sq_insert_event i event s =
     rbind (sq_bind [Some (ev_offset_ms event), ev_route_metric event, ev_icmp_sequence event]) (\<lambda>_.
      if ev_offset_ms event < 0 then Inl (IntegrityError ''CHECK constraint failed: offset_ms >= 0'')
      else if (i, kind_value (ev_kind event)) \<in> set (map (\<lambda>e. (er_run_id e, er_kind e)) (sq_events s))
      then Inl (IntegrityError ''UNIQUE constraint failed: convergence_events.run_id, kind'')
      else if i \<notin> set (map rr_id (sq_runs s)) then Inl (IntegrityError ''FOREIGN KEY constraint failed'')
      else Inr (s\<lparr>sq_event_counter := Suc (sq_event_counter s),
        sq_events := sq_events s @ [\<lparr>er_sequence = Suc (sq_event_counter s), er_run_id = i,
          er_kind = kind_value (ev_kind event), er_offset_ms = ev_offset_ms event,
          er_observed_at = isoformat (ev_observed_at event),
          er_route_metric = ev_route_metric event, er_icmp_sequence = ev_icmp_sequence event\<rparr>]\<rparr>))"

definition sq_append_event ::
  "string \<Rightarrow> ConvergenceEvent \<Rightarrow> SQLiteConvergenceStore \<Rightarrow> (ConvergenceRun \<times> SQLiteConvergenceStore) result" where
  "sq_append_event i event s =
     rbind (sq_load i s) (\<lambda>run.
     rbind (validate_event run event) (\<lambda>_.
     rbind (sq_insert_event i event s) (\<lambda>s'.
       Inr (add_event run event, s'))))"

definition sq_latest :: "SQLiteConvergenceStore \<Rightarrow> ConvergenceRun option result" where
  "sq_latest s =
     (case rev (sort_key rr_sequence (sq_runs s)) of
        [] \<Rightarrow> Inr None
      | row # _ \<Rightarrow> rbind (sq_load (rr_id row) s) (\<lambda>run. Inr (Some run)))"

section \<open>The invariant and the view\<close>

definition event_row_ok :: "EventRow \<Rightarrow> bool" where
  "event_row_ok e =
     ((\<exists>k. er_kind e = kind_value k) \<and> (\<exists>d. valid_datetime d \<and> er_observed_at e = isoformat d))"

definition sq_tables_ok :: "SQLiteConvergenceStore \<Rightarrow> bool" where
  "sq_tables_ok s =
     (sorted_wrt (<) (map rr_sequence (sq_runs s)) \<and>
      (\<forall>r \<in> set (sq_runs s). rr_sequence r \<le> sq_run_counter s \<and>
         (\<exists>d. valid_datetime d \<and> rr_started_at r = isoformat d)) \<and>
      distinct (map rr_id (sq_runs s)) \<and>
      sorted_wrt (<) (map er_sequence (sq_events s)) \<and>
      (\<forall>e \<in> set (sq_events s). er_sequence e \<le> sq_event_counter s \<and>
         er_run_id e \<in> rr_id ` set (sq_runs s) \<and> event_row_ok e))"

definition sq_ok :: "SQLiteConvergenceStore \<Rightarrow> bool" where
  "sq_ok s = (1 \<le> sq_capacity s \<and> int (length (sq_runs s)) \<le> sq_capacity s \<and> sq_tables_ok s)"

definition row_event :: "EventRow \<Rightarrow> ConvergenceEvent" where
  "row_event e = projr (event_of_row e)"

definition row_run :: "EventRow list \<Rightarrow> RunRow \<Rightarrow> ConvergenceRun" where
  "row_run events row =
     \<lparr>run_id = rr_id row, run_profile = rr_profile row, run_source = rr_source row,
      run_target = rr_target row, run_started_at = the (fromisoformat (rr_started_at row)),
      run_events = map row_event (filter (\<lambda>e. er_run_id e = rr_id row) events)\<rparr>"

definition sq_view :: "SQLiteConvergenceStore \<Rightarrow> ConvergenceRun list" where
  "sq_view s = map (row_run (sq_events s)) (sq_runs s)"

lemma kind_of_value_inverse [simp]: "kind_of_value (kind_value k) = Inr k"
  by (cases k) (simp_all add: kind_of_value_def all_kinds_def)

lemma kind_value_inj: "kind_value k = kind_value k' \<longleftrightarrow> k = k'"
  by (metis Inr_inject kind_of_value_inverse)

lemma parse_isoformat [simp]: "valid_datetime d \<Longrightarrow> parse_timestamp (isoformat d) = Inr d"
  by (simp add: parse_timestamp_def fromisoformat_isoformat)

lemma event_of_row_ok: "event_row_ok e \<Longrightarrow> event_of_row e = Inr (row_event e)"
  by (auto simp: event_row_ok_def row_event_def event_of_row_def)

lemma row_event_kind: "event_row_ok e \<Longrightarrow> er_kind e = kind_value (ev_kind (row_event e))"
  by (auto simp: event_row_ok_def row_event_def event_of_row_def)

lemma sq_view_ids: "map run_id (sq_view s) = map rr_id (sq_runs s)"
  by (simp add: sq_view_def row_run_def comp_def)

lemma sorted_rows: "sorted_wrt (<) (map f xs) \<Longrightarrow> sort_key f xs = (xs :: 'a list)" for f :: "'a \<Rightarrow> nat"
  by (rule sort_key_id_if_sorted) (simp add: strict_sorted_imp_sorted)

lemma sorted_filter_rows:
  "sorted_wrt (<) (map f xs) \<Longrightarrow> sort_key f (filter P xs) = filter P xs" for f :: "'a \<Rightarrow> nat"
  by (rule sorted_rows) (simp add: sorted_wrt_map sorted_wrt_filter)

lemma sq_load_view:
  assumes ok: "sq_tables_ok s"
  shows "sq_load i s = spec_get i (sq_view s)"
proof -
  have traverse: "traverse event_of_row (sort_key er_sequence (filter (\<lambda>e. er_run_id e = j) (sq_events s))) =
      Inr (map row_event (filter (\<lambda>e. er_run_id e = j) (sq_events s)))" for j
    using ok event_of_row_ok unfolding sq_tables_ok_def
    by (subst sorted_filter_rows) (auto intro!: traverse_total)
  have row: "\<exists>d. parse_timestamp (rr_started_at r) = Inr d \<and> the (fromisoformat (rr_started_at r)) = d"
    if "r \<in> set (sq_runs s)" for r
    using ok that fromisoformat_isoformat unfolding sq_tables_ok_def by fastforce
  have "List.find (\<lambda>q. run_id q = i) (map (row_run es) rs) =
      map_option (row_run es) (List.find (\<lambda>r. rr_id r = i) rs)" for es rs
    by (induction rs) (auto simp: row_run_def)
  then have view: "List.find (\<lambda>q. run_id q = i) (sq_view s) =
      map_option (row_run (sq_events s)) (List.find (\<lambda>r. rr_id r = i) (sq_runs s))"
    by (simp add: sq_view_def)
  show ?thesis
  proof (cases "List.find (\<lambda>r. rr_id r = i) (sq_runs s)")
    case None
    then show ?thesis using view by (simp add: sq_load_def spec_get_def)
  next
    case (Some r)
    then have "r \<in> set (sq_runs s)" "rr_id r = i" by (auto simp: find_Some_iff)
    with row obtain d where "parse_timestamp (rr_started_at r) = Inr d" "the (fromisoformat (rr_started_at r)) = d"
      by blast
    with Some view \<open>rr_id r = i\<close> show ?thesis
      by (simp add: sq_load_def spec_get_def traverse row_run_def)
  qed
qed

lemma sq_latest_view:
  assumes ok: "sq_tables_ok s"
  shows "sq_latest s = Inr (spec_latest (sq_view s))"
proof (cases "sq_runs s" rule: rev_cases)
  case Nil
  then show ?thesis by (simp add: sq_latest_def spec_latest_def sq_view_def)
next
  case (snoc rs r)
  have sort: "sort_key rr_sequence (sq_runs s) = sq_runs s"
    using ok by (intro sorted_rows) (simp add: sq_tables_ok_def)
  have dist: "distinct (map run_id (sq_view s))" unfolding sq_view_ids using ok by (simp add: sq_tables_ok_def)
  have last: "last (sq_view s) = row_run (sq_events s) r" "sq_view s \<noteq> []" using snoc by (simp_all add: sq_view_def)
  then have "run_id (last (sq_view s)) = rr_id r" by (simp add: row_run_def)
  with find_id [OF dist last_in_set [OF last(2)]]
  have "spec_get (rr_id r) (sq_view s) = Inr (last (sq_view s))" by (simp add: spec_get_def)
  then have "sq_load (rr_id r) s = Inr (last (sq_view s))" using sq_load_view [OF ok] by simp
  moreover have "rev (sort_key rr_sequence (sq_runs s)) = r # rev rs" using sort snoc by simp
  ultimately show ?thesis using last(2) by (simp add: sq_latest_def spec_latest_def)
qed

section \<open>Pruning\<close>

lemma filter_newest:
  assumes "distinct (map f xs)"
  shows "filter (\<lambda>x. f x \<in> set (drop k (map f xs))) xs = drop k xs"
proof -
  have disj: "set (map f (take k xs)) \<inter> set (map f (drop k xs)) = {}"
    using assms by (metis append_take_drop_id distinct_append map_append)
  define P where "P x = (f x \<in> set (map f (drop k xs)))" for x
  have "filter P (take k xs) = []" using disj by (auto simp: P_def filter_empty_conv)
  moreover have "filter P (drop k xs) = drop k xs" by (simp add: P_def)
  ultimately have "filter P (take k xs @ drop k xs) = drop k xs" by (simp only: filter_append append_Nil)
  then have "filter P xs = drop k xs" by simp
  moreover have "P = (\<lambda>x. f x \<in> set (drop k (map f xs)))" by (rule ext) (simp add: P_def drop_map)
  ultimately show ?thesis by simp
qed

lemma in_newest:
  assumes "distinct (map f xs)"
  shows "x \<in> set (drop k xs) \<longleftrightarrow> x \<in> set xs \<and> f x \<in> set (drop k (map f xs))"
  by (subst filter_newest [OF assms, symmetric]) simp

lemma sq_prune_scalars [simp]:
  "sq_capacity (sq_prune s) = sq_capacity s" "sq_run_counter (sq_prune s) = sq_run_counter s"
  "sq_event_counter (sq_prune s) = sq_event_counter s"
  by (simp_all add: sq_prune_def Let_def)

lemma sq_prune_eq:
  assumes ok: "sq_tables_ok s" and cap: "1 \<le> sq_capacity s"
  shows "sq_runs (sq_prune s) = newest_of (nat (sq_capacity s)) (sq_runs s)"
    and "r \<in> set (newest_of (nat (sq_capacity s)) (sq_runs s)) \<Longrightarrow>
      filter (\<lambda>e. er_run_id e = rr_id r) (sq_events (sq_prune s)) =
      filter (\<lambda>e. er_run_id e = rr_id r) (sq_events s)"
    and "sq_ok (sq_prune s)"
proof -
  let ?n = "nat (sq_capacity s)" and ?k = "length (sq_runs s) - nat (sq_capacity s)"
  let ?keep = "take ?n (rev (sort (map rr_sequence (sq_runs s))))"
  have seq: "sorted_wrt (<) (map rr_sequence (sq_runs s))" and ids: "distinct (map rr_id (sq_runs s))"
    using ok by (simp_all add: sq_tables_ok_def)
  have dist: "distinct (map rr_sequence (sq_runs s))" using seq by (simp add: strict_sorted_iff)
  have "sort (map rr_sequence (sq_runs s)) = map rr_sequence (sq_runs s)"
    using seq by (simp add: sorted_sort_id strict_sorted_imp_sorted)
  then have keep: "set ?keep = set (drop ?k (map rr_sequence (sq_runs s)))"
    by (simp add: take_rev)
  show runs: "sq_runs (sq_prune s) = newest_of ?n (sq_runs s)"
    unfolding sq_prune_def Let_def keep newest_of_def using filter_newest [OF dist, of ?k] by simp
  define deleted where "deleted = map rr_id (filter (\<lambda>r. rr_sequence r \<notin> set ?keep) (sq_runs s))"
  have events: "sq_events (sq_prune s) = filter (\<lambda>e. er_run_id e \<notin> set deleted) (sq_events s)"
    by (simp add: sq_prune_def Let_def deleted_def)
  have kept: "rr_id r \<notin> set deleted" if r: "r \<in> set (newest_of ?n (sq_runs s))" for r
  proof
    assume "rr_id r \<in> set deleted"
    then obtain q where q: "q \<in> set (sq_runs s)" "rr_id q = rr_id r" "rr_sequence q \<notin> set ?keep"
      by (auto simp: deleted_def)
    have "r \<in> set (sq_runs s)" "rr_sequence r \<in> set ?keep"
      using r in_newest [OF dist] unfolding keep newest_of_def by blast+
    with q inj_onD [of rr_id "set (sq_runs s)" q r] ids show False by (auto simp: distinct_map)
  qed
  show "filter (\<lambda>e. er_run_id e = rr_id r) (sq_events (sq_prune s)) =
      filter (\<lambda>e. er_run_id e = rr_id r) (sq_events s)" if "r \<in> set (newest_of ?n (sq_runs s))"
    unfolding events filter_filter using kept [OF that] by (intro filter_cong) auto
  have sub: "set (newest_of ?n (sq_runs s)) \<subseteq> set (sq_runs s)" unfolding newest_of_def by (rule set_drop_subset)
  have fk: "er_run_id e \<in> rr_id ` set (newest_of ?n (sq_runs s))" if "e \<in> set (sq_events (sq_prune s))" for e
  proof -
    have e: "e \<in> set (sq_events s)" "er_run_id e \<notin> set deleted" using that events by auto
    then obtain r where r: "r \<in> set (sq_runs s)" "rr_id r = er_run_id e" using ok by (auto simp: sq_tables_ok_def)
    with e(2) have "rr_sequence r \<in> set ?keep" unfolding deleted_def by force
    with r have "r \<in> set (newest_of ?n (sq_runs s))"
      unfolding keep newest_of_def using in_newest [OF dist] by blast
    with r show ?thesis by force
  qed
  have seq': "sorted_wrt (<) (map rr_sequence (newest_of ?n (sq_runs s)))"
    unfolding newest_of_def drop_map [symmetric] using seq by (rule sorted_wrt_drop)
  have ids': "distinct (map rr_id (newest_of ?n (sq_runs s)))"
    unfolding newest_of_def drop_map [symmetric] using ids by (rule distinct_drop)
  have "sorted_wrt (<) (map er_sequence (sq_events (sq_prune s)))"
    unfolding events using ok by (simp add: sq_tables_ok_def sorted_wrt_map sorted_wrt_filter)
  moreover have "er_sequence e \<le> sq_event_counter s \<and> event_row_ok e" if "e \<in> set (sq_events (sq_prune s))" for e
    using that ok unfolding events sq_tables_ok_def by simp
  moreover have "rr_sequence r \<le> sq_run_counter s \<and> (\<exists>d. valid_datetime d \<and> rr_started_at r = isoformat d)"
    if "r \<in> set (newest_of ?n (sq_runs s))" for r
    using that sub ok unfolding sq_tables_ok_def by blast
  ultimately have "sq_tables_ok (sq_prune s)"
    unfolding sq_tables_ok_def runs sq_prune_scalars using seq' ids' fk by blast
  then show "sq_ok (sq_prune s)"
    using cap unfolding sq_ok_def runs by (simp add: newest_of_def)
qed

lemma sq_prune_view:
  assumes "sq_tables_ok s" "1 \<le> sq_capacity s"
  shows "sq_view (sq_prune s) = newest_of (nat (sq_capacity s)) (sq_view s)"
proof -
  have "sq_view (sq_prune s) = map (row_run (sq_events s)) (newest_of (nat (sq_capacity s)) (sq_runs s))"
    unfolding sq_view_def sq_prune_eq(1) [OF assms]
    by (rule map_cong) (simp_all add: row_run_def sq_prune_eq(2) [OF assms])
  then show ?thesis by (simp add: sq_view_def map_newest_of)
qed


section \<open>Refinement\<close>

lemma sq_insert_run_ok:
  assumes ok: "sq_ok s" and fresh: "run_id run \<notin> set (map rr_id (sq_runs s))"
    and d: "valid_datetime (run_started_at run)" and events: "run_events run = []"
  shows "\<exists>s'. sq_insert_run run s = Inr s' \<and> sq_tables_ok s' \<and> sq_capacity s' = sq_capacity s \<and>
    sq_view s' = sq_view s @ [run]"
proof -
  let ?row = "\<lparr>rr_sequence = Suc (sq_run_counter s), rr_id = run_id run, rr_profile = run_profile run,
    rr_source = run_source run, rr_target = run_target run, rr_started_at = isoformat (run_started_at run)\<rparr>"
  let ?s' = "s\<lparr>sq_run_counter := Suc (sq_run_counter s), sq_runs := sq_runs s @ [?row]\<rparr>"
  have tables: "sq_tables_ok s" using ok by (simp add: sq_ok_def)
  have "sq_insert_run run s = Inr ?s'" using fresh by (simp add: sq_insert_run_def)
  moreover have "sq_tables_ok ?s'"
    using tables fresh d unfolding sq_tables_ok_def by (auto simp: sorted_wrt_append intro: le_SucI)
  moreover have "sq_view ?s' = sq_view s @ [run]"
  proof -
    have none: "filter (\<lambda>e. er_run_id e = run_id run) (sq_events s) = []"
    proof -
      have "er_run_id e \<in> rr_id ` set (sq_runs s)" if "e \<in> set (sq_events s)" for e
        using tables that unfolding sq_tables_ok_def by blast
      then show ?thesis using fresh unfolding filter_empty_conv set_map by metis
    qed
    have "row_run (sq_events s) ?row = run"
      using d events none by (cases run) (simp add: row_run_def fromisoformat_isoformat)
    then show ?thesis by (simp add: sq_view_def)
  qed
  ultimately show ?thesis by auto
qed

lemma sq_create_refines:
  assumes ok: "sq_ok s" and fresh: "fresh_run u (sq_view s)" and d: "valid_datetime at"
  shows "seen_as sq_view (sq_create_run u p so ta at s) =
      spec_create (nat (sq_capacity s)) u p so ta at (sq_view s)"
    and "sq_create_run u p so ta at s = Inr (r, s') \<Longrightarrow> sq_ok s' \<and> sq_capacity s' = sq_capacity s"
proof -
  let ?run = "mk_run u p so ta at"
  have "run_id ?run \<notin> set (map rr_id (sq_runs s))"
    using fresh unfolding fresh_run_def sq_view_ids [symmetric] by (simp add: mk_run_def)
  from sq_insert_run_ok [OF ok this] d obtain s1 where s1: "sq_insert_run ?run s = Inr s1"
    "sq_tables_ok s1" "sq_capacity s1 = sq_capacity s" "sq_view s1 = sq_view s @ [?run]"
    by (auto simp: mk_run_def)
  have cap: "1 \<le> sq_capacity s1" using ok s1(3) by (simp add: sq_ok_def)
  have out: "sq_create_run u p so ta at s = rbind (validate_run p so ta at) (\<lambda>_. Inr (?run, sq_prune s1))"
    using s1(1) by (simp add: sq_create_run_def Let_def)
  show "seen_as sq_view (sq_create_run u p so ta at s) =
      spec_create (nat (sq_capacity s)) u p so ta at (sq_view s)"
    unfolding out spec_create_def
    by (cases "validate_run p so ta at") (simp_all add: sq_prune_view [OF s1(2) cap] s1(3,4))
  show "sq_create_run u p so ta at s = Inr (r, s') \<Longrightarrow> sq_ok s' \<and> sq_capacity s' = sq_capacity s"
    using sq_prune_eq(3) [OF s1(2) cap] s1(3) unfolding out by (auto simp: rbind_eq_Inr)
qed

text \<open>After validation the table constraints hold, so the insertion succeeds.\<close>

lemma sq_insert_event_ok:
  assumes ok: "sq_ok s" and run: "sq_load i s = Inr run" and v: "validate_event run e = Inr u"
    and d: "representable e"
  shows "\<exists>s'. sq_insert_event i e s = Inr s' \<and> sq_ok s' \<and> sq_capacity s' = sq_capacity s \<and>
    sq_view s' = map (\<lambda>r. if run_id r = i then add_event r e else r) (sq_view s)"
proof -
  have tables: "sq_tables_ok s" using ok by (simp add: sq_ok_def)
  let ?row = "\<lparr>er_sequence = Suc (sq_event_counter s), er_run_id = i, er_kind = kind_value (ev_kind e),
    er_offset_ms = ev_offset_ms e, er_observed_at = isoformat (ev_observed_at e),
    er_route_metric = ev_route_metric e, er_icmp_sequence = ev_icmp_sequence e\<rparr>"
  let ?s' = "s\<lparr>sq_event_counter := Suc (sq_event_counter s), sq_events := sq_events s @ [?row]\<rparr>"
  have "spec_get i (sq_view s) = Inr run" using run sq_load_view [OF tables] by simp
  then have stored: "run \<in> set (sq_view s)" "run_id run = i"
    unfolding spec_get_def by (auto simp: find_Some_iff split: option.splits)
  then obtain row where row: "row \<in> set (sq_runs s)" "run = row_run (sq_events s) row" "rr_id row = i"
    by (auto simp: sq_view_def row_run_def)
  have kinds: "(i, kind_value (ev_kind e)) \<notin> set (map (\<lambda>e. (er_run_id e, er_kind e)) (sq_events s))"
  proof
    assume "(i, kind_value (ev_kind e)) \<in> set (map (\<lambda>e. (er_run_id e, er_kind e)) (sq_events s))"
    then obtain q where q: "q \<in> set (sq_events s)" "er_run_id q = i" "er_kind q = kind_value (ev_kind e)" by auto
    then have "row_event q \<in> set (run_events run)" using row(2,3) by (simp add: row_run_def)
    moreover have "ev_kind (row_event q) = ev_kind e"
      using row_event_kind [of q] q tables kind_value_inj by (auto simp: sq_tables_ok_def)
    ultimately show False using v unfolding validate_event_Inr by (metis imageI)
  qed
  have known: "i \<in> set (map rr_id (sq_runs s))" using row by force
  have off: "0 \<le> ev_offset_ms e" using v by (simp add: validate_event_Inr event_ok_def)
  have ins: "sq_insert_event i e s = Inr ?s'" using kinds known off d
    by (simp add: sq_insert_event_def representable_def sq_bind_def int64_option_def)
  have row_ok: "event_row_ok ?row" using d by (auto simp: event_row_ok_def representable_def)
  have "sq_tables_ok ?s'"
    using tables known row_ok unfolding sq_tables_ok_def
    by (auto simp: sorted_wrt_append intro: le_SucI)
  then have "sq_ok ?s'" using ok by (simp add: sq_ok_def)
  moreover have "row_event ?row = e"
    using d by (cases e) (simp add: row_event_def event_of_row_def representable_def)
  then have "row_run (sq_events s @ [?row]) r =
      (if rr_id r = i then add_event (row_run (sq_events s) r) e else row_run (sq_events s) r)" for r
    by (simp add: row_run_def add_event_def)
  then have "sq_view ?s' = map (\<lambda>r. if run_id r = i then add_event r e else r) (sq_view s)"
    by (simp add: sq_view_def row_run_def)
  ultimately show ?thesis using ins by auto
qed

lemma sq_append_refines:
  assumes ok: "sq_ok s" and d: "representable e"
  shows "seen_as sq_view (sq_append_event i e s) = spec_append i e (sq_view s)"
    and "sq_append_event i e s = Inr (r, s') \<Longrightarrow> sq_ok s' \<and> sq_capacity s' = sq_capacity s"
proof -
  have tables: "sq_tables_ok s" using ok by (simp add: sq_ok_def)
  show "seen_as sq_view (sq_append_event i e s) = spec_append i e (sq_view s)"
  proof (cases "sq_load i s")
    case (Inl x)
    then show ?thesis using sq_load_view [OF tables, of i] by (simp add: sq_append_event_def spec_append_def)
  next
    case (Inr run)
    then have get: "spec_get i (sq_view s) = Inr run" using sq_load_view [OF tables, of i] by simp
    show ?thesis
    proof (cases "validate_event run e")
      case (Inl x)
      then show ?thesis using Inr get by (simp add: sq_append_event_def spec_append_def)
    next
      case v: (Inr u)
      from sq_insert_event_ok [OF ok Inr v d] show ?thesis
        using Inr get v by (auto simp: sq_append_event_def spec_append_def)
    qed
  qed
  assume "sq_append_event i e s = Inr (r, s')"
  then obtain run u where "sq_load i s = Inr run" "validate_event run e = Inr u" "sq_insert_event i e s = Inr s'"
    by (auto simp: sq_append_event_def rbind_eq_Inr)
  with sq_insert_event_ok [OF ok this(1,2) d] show "sq_ok s' \<and> sq_capacity s' = sq_capacity s" by auto
qed

interpretation sqlite_runs: convergence_repository sq_ok "\<lambda>s. nat (sq_capacity s)" sq_view
  sq_create_run sq_append_event sq_load sq_latest
proof unfold_locales
  show "distinct (map run_id (sq_view s))" if "sq_ok s" for s
    unfolding sq_view_ids using that by (simp add: sq_ok_def sq_tables_ok_def)
  show "1 \<le> nat (sq_capacity s) \<and> length (sq_view s) \<le> nat (sq_capacity s)" if "sq_ok s" for s
    using that by (auto simp: sq_ok_def sq_view_def)
  show "sq_load i s = spec_get i (sq_view s)" if "sq_ok s" for s i
    using that by (simp add: sq_ok_def sq_load_view)
  show "sq_latest s = Inr (spec_latest (sq_view s))" if "sq_ok s" for s
    using that by (simp add: sq_ok_def sq_latest_view)
  show "sq_ok s' \<and> nat (sq_capacity s') = nat (sq_capacity s)"
    if "sq_ok s" "fresh_run u (sq_view s)" "valid_datetime at" "sq_create_run u p so ta at s = Inr (r, s')"
    for s u at p so ta r s'
    using sq_create_refines(2) [OF that] by simp
  show "sq_ok s' \<and> nat (sq_capacity s') = nat (sq_capacity s)"
    if "sq_ok s" "representable e" "sq_append_event i e s = Inr (r, s')" for s e i r s'
    using sq_append_refines(2) [OF that] by simp
qed (use sq_create_refines(1) sq_append_refines(1) in blast)+

lemma sq_open_view:
  assumes "sq_tables_ok database" "sq_open capacity database = Inr s"
  shows "sq_ok s \<and> sq_capacity s = capacity \<and> sq_view s = newest_of (nat capacity) (sq_view database)"
proof -
  let ?d = "database\<lparr>sq_capacity := capacity\<rparr>"
  have s: "s = sq_prune ?d" "1 \<le> sq_capacity ?d"
    using assms(2) by (auto simp: sq_open_def rbind_eq_Inr)
  have t: "sq_tables_ok ?d" using assms(1) by (simp add: sq_tables_ok_def)
  from sq_prune_eq(3) [OF t s(2)] sq_prune_view [OF t s(2)] show ?thesis by (simp add: s(1) sq_view_def)
qed

end
