(* ===== verification/Convergence_Service.thy ===== *)
theory Convergence_Service
  imports Convergence_Sqlite Link_Impact
begin

text \<open>
  What the two stores promise their clients (\<open>convergence.py\<close>), and the HTTP handlers of
  \<open>api.py\<close> over either of them: request models, the statuses exceptions become, and the
  live metrics. The properties: the memory and the SQLite store answer every call
  sequence alike, every run they hand out has a valid timeline, a complete run is final,
  and a SQLite store reopened between two calls answers as if it had not been closed.
\<close>

section \<open>Call sequences on stores\<close>

fun after_ops ::
  "(string \<Rightarrow> string \<Rightarrow> string \<Rightarrow> string \<Rightarrow> datetime \<Rightarrow> 's \<Rightarrow> (ConvergenceRun \<times> 's) result) \<Rightarrow>
   (string \<Rightarrow> ConvergenceEvent \<Rightarrow> 's \<Rightarrow> (ConvergenceRun \<times> 's) result) \<Rightarrow> store_op list \<Rightarrow> 's \<Rightarrow> 's" where
  "after_ops c a [] s = s"
| "after_ops c a (OpCreate u p so ta tm # ops) s = after_ops c a ops (snd (answer s (c u p so ta tm s)))"
| "after_ops c a (OpAppend i e # ops) s = after_ops c a ops (snd (answer s (a i e s)))"
| "after_ops c a (op # ops) s = after_ops c a ops s"

lemma exec_ops_append:
  "exec_ops c a g l (ops @ ops') s = exec_ops c a g l ops s @ exec_ops c a g l ops' (after_ops c a ops s)"
  by (induction c a g l ops s rule: exec_ops.induct) (auto split: prod.splits)

context convergence_repository
begin

lemma created_run:
  assumes "ok s" "fresh_run u (runs_of s)" "valid_datetime tm" "create u p so ta tm s = Inr (r, s')"
  shows "r = mk_run u p so ta tm" "validate_run p so ta tm = Inr ()" "ok s'" "get (run_id r) s' = Inr r"
proof -
  have sp: "spec_create (capacity_of s) u p so ta tm (runs_of s) = Inr (r, runs_of s')"
    using create_spec [OF assms(1-3), of p so ta] assms(4) by simp
  then show r: "r = mk_run u p so ta tm" and "validate_run p so ta tm = Inr ()"
    by (auto simp: spec_create_def rbind_eq_Inr)
  show ok': "ok s'" using create_ok [OF assms] by blast
  have "runs_of s' = newest_of (capacity_of s) (runs_of s @ [r])"
    using sp by (auto simp: spec_create_def rbind_eq_Inr)
  moreover have "1 \<le> capacity_of s" using bounded [OF assms(1)] by blast
  ultimately have "r \<in> set (runs_of s')"
    by (simp add: newest_of_def Suc_diff_le)
  then show "get (run_id r) s' = Inr r" using get_stored [OF ok'] by blast
qed

lemma create_total:
  assumes "ok s" "fresh_run u (runs_of s)" "valid_datetime tm" "validate_run p so ta tm = Inr ()"
  shows "\<exists>s'. create u p so ta tm s = Inr (mk_run u p so ta tm, s')"
  using create_spec [OF assms(1-3), of p so ta] assms(4)
  by (cases "create u p so ta tm s") (auto simp: spec_create_def seen_as_eq_Inr)

text \<open>A sequence keeps the invariant and leaves the rest of the sequence admissible.\<close>

lemma after_ops_ok:
  assumes "ok s" "admissible (ops @ ops') used" "run_id ` set (runs_of s) \<subseteq> used"
  shows "\<exists>used'. ok (after_ops create append ops s) \<and> capacity_of (after_ops create append ops s) = capacity_of s \<and>
    admissible ops' used' \<and> run_id ` set (runs_of (after_ops create append ops s)) \<subseteq> used'"
  using assms
proof (induction ops arbitrary: s used)
  case (Cons op ops)
  show ?case
  proof (cases op)
    case (OpCreate u p so ta tm)
    have fresh: "fresh_run u (runs_of s)" and tm: "valid_datetime tm"
      using Cons.prems OpCreate by (auto simp: fresh_run_def)
    show ?thesis
    proof (cases "create u p so ta tm s")
      case (Inl e)
      with Cons.IH [of s "insert (''run-'' @ u) used"] Cons.prems OpCreate
      show ?thesis by (auto simp: answer_def)
    next
      case (Inr q)
      then obtain r s' where c: "create u p so ta tm s = Inr (r, s')" by (cases q) simp
      then have sc: "spec_create (capacity_of s) u p so ta tm (runs_of s) = Inr (r, runs_of s')"
        using create_spec [OF Cons.prems(1) fresh tm, of p so ta] by simp
      have "run_id ` set (runs_of s') \<subseteq> insert (''run-'' @ u) used"
        using spec_create_ids [OF sc] Cons.prems(3) by blast
      with Cons.IH [of s' "insert (''run-'' @ u) used"] create_ok [OF Cons.prems(1) fresh tm c] Cons.prems(2)
      show ?thesis by (simp add: OpCreate c answer_def)
    qed
  next
    case (OpAppend i e)
    have tm: "representable e" using Cons.prems OpAppend by simp
    show ?thesis
    proof (cases "append i e s")
      case (Inl x)
      with Cons.IH [of s used] Cons.prems OpAppend show ?thesis by (auto simp: answer_def)
    next
      case (Inr q)
      then obtain r s' where c: "append i e s = Inr (r, s')" by (cases q) simp
      then have sc: "spec_append i e (runs_of s) = Inr (r, runs_of s')"
        using append_spec [OF Cons.prems(1) tm, of i] by simp
      have "run_id ` set (runs_of s') \<subseteq> used" using spec_append_ids [OF sc] Cons.prems(3) by (metis set_map)
      with Cons.IH [of s' used] append_ok [OF Cons.prems(1) tm c] Cons.prems(2) OpAppend
      show ?thesis by (simp add: c answer_def)
    qed
  qed (use Cons.IH [of s used] Cons.prems in auto)
qed auto

lemma exec_timelines:
  assumes "ok s" "runs_of s = []" "admissible ops {}"
  shows "\<forall>x \<in> set (exec_ops create append get latest ops s). response_ok x"
  using spec_ops_timelines [OF _ _ assms(3), of "[]" "capacity_of s"] exec_spec [OF assms(1,3)] assms(2) by simp

end

section \<open>Properties of the stores\<close>

definition lab_bfd_event :: "ConvergenceEventKind \<Rightarrow> int \<Rightarrow> ConvergenceEvent" where
  "lab_bfd_event kind offset_ms =
     \<lparr>ev_kind = kind, ev_offset_ms = offset_ms, ev_observed_at = lab_instant,
      ev_route_metric = Some 140, ev_icmp_sequence = Some 7\<rparr>"

definition lab_recovery :: "int \<Rightarrow> ConvergenceEvent" where
  "lab_recovery sequence_number =
     \<lparr>ev_kind = DATA_PLANE_RECOVERED, ev_offset_ms = 400, ev_observed_at = lab_instant,
      ev_route_metric = Some 140, ev_icmp_sequence = Some sequence_number\<rparr>"

definition lab_run_ops :: "store_op list" where
  "lab_run_ops =
     [OpCreate ''a'' ''bfd_100x3'' ''access1'' ''10.20.0.10'' lab_instant,
      OpAppend ''run-a'' (lab_bfd_event BFD_DOWN 300),
      OpAppend ''run-a'' (lab_bfd_event BLACKHOLE_INJECTED 0), OpLatest,
      OpAppend ''run-a'' (lab_bfd_event BFD_DOWN 300), OpGet ''run-a'']"

lemma lab_run_ops_admissible: "admissible lab_run_ops {}"
  by (simp add: lab_run_ops_def lab_bfd_event_def representable_def int64_def int64_option_def
      valid_datetime_def lab_instant_def)

lemma sq_empty_ok: "sq_tables_ok sq_empty" "sq_view sq_empty = []"
  by (simp_all add: sq_tables_ok_def sq_empty_def sq_view_def)

lemma sq_fresh: "sq_open capacity sq_empty = Inr q \<Longrightarrow> sq_ok q \<and> sq_capacity q = capacity \<and> sq_view q = []"
  using sq_open_view [OF sq_empty_ok(1)] by (simp add: sq_empty_ok(2) newest_of_def)

lemma cs_fresh: "mk_convergence_store capacity = Inr m \<Longrightarrow> cs_ok m \<and> cs_capacity m = capacity \<and> cs_view m = []"
  using cs_ok_init by (auto simp: mk_convergence_store_def rbind_eq_Inr)

lemma stores_agree:
  assumes "mk_convergence_store capacity = Inr m" "sq_open capacity sq_empty = Inr q" "admissible ops {}"
  shows "exec_ops sq_create_run sq_append_event sq_load sq_latest ops q =
    exec_ops cs_create_run cs_append_event cs_lookup cs_latest ops m"
proof -
  have m: "cs_ok m" "cs_capacity m = capacity" "cs_view m = []" using cs_fresh [OF assms(1)] by auto
  have q: "sq_ok q" "sq_capacity q = capacity" "sq_view q = []" using sq_fresh [OF assms(2)] by auto
  show ?thesis
    using memory_runs.exec_spec [OF m(1) assms(3)] sqlite_runs.exec_spec [OF q(1) assms(3)] m(2,3) q(2,3)
    by simp
qed

lemma admissible_get: "admissible ops used \<Longrightarrow> admissible (ops @ [OpGet i]) used"
  by (induction ops used rule: admissible.induct) simp_all

lemma lookups_agree:
  assumes "mk_convergence_store capacity = Inr m" "sq_open capacity sq_empty = Inr q" "admissible ops {}"
  shows "sq_load i (after_ops sq_create_run sq_append_event ops q) = cs_lookup i (after_ops cs_create_run cs_append_event ops m)"
  using stores_agree [OF assms(1,2) admissible_get [OF assms(3)], of i] stores_agree [OF assms]
  by (simp add: exec_ops_append)

text \<open>Numbers that fit the columns.\<close>

definition event_fits :: "ConvergenceEvent \<Rightarrow> bool" where
  "event_fits e = (int64 (ev_offset_ms e) \<and> int64_option (ev_route_metric e) \<and> int64_option (ev_icmp_sequence e))"

lemma append_overflow:
  assumes "sq_load i s = Inr r" "validate_event r e = Inr ()" "\<not> event_fits e"
  shows "sq_append_event i e s = Inl (OverflowError ''Python int too large to convert to SQLite INTEGER'')"
  using assms by (simp add: sq_append_event_def sq_insert_event_def sq_bind_def event_fits_def int64_option_def)

text \<open>
  C6: The in-memory and the SQLite store are interchangeable as long as the numbers of the
  events fit an SQLite column: created with the same capacity and driven by the same sequence
  of create, append, get and latest calls, with fresh run ids, times that are values of
  \<open>datetime\<close>, and offsets, metrics and sequence numbers of at most 64 bits with sign, they give
  the same answers, errors included, although one keeps objects and the other rows it parses
  again. Beyond 64 bits they differ, after any such sequence: a valid event with a larger number
  is appended by the in-memory store, while the SQLite store raises an \<open>OverflowError\<close>.
\<close>

theorem stores_equivalent:
  assumes "mk_convergence_store capacity = Inr m" "sq_open capacity sq_empty = Inr q" "admissible ops {}"
  shows "exec_ops sq_create_run sq_append_event sq_load sq_latest ops q =
      exec_ops cs_create_run cs_append_event cs_lookup cs_latest ops m \<and>
    (\<forall>i e r. cs_lookup i (after_ops cs_create_run cs_append_event ops m) = Inr r \<and> validate_event r e = Inr () \<and>
        \<not> event_fits e \<longrightarrow>
      (\<exists>m'. cs_append_event i e (after_ops cs_create_run cs_append_event ops m) = Inr (add_event r e, m')) \<and>
      sq_append_event i e (after_ops sq_create_run sq_append_event ops q) =
        Inl (OverflowError ''Python int too large to convert to SQLite INTEGER''))"
  using stores_agree [OF assms] append_overflow [of _ "after_ops sq_create_run sq_append_event ops q"] lookups_agree [OF assms]
  by (simp add: cs_append_event_def Let_def)

theorem stores_equivalent_witness:
  "\<exists>m q. mk_convergence_store 2 = Inr m \<and> sq_open 2 sq_empty = Inr q \<and>
    exec_ops sq_create_run sq_append_event sq_load sq_latest lab_run_ops q =
    exec_ops cs_create_run cs_append_event cs_lookup cs_latest lab_run_ops m \<and>
    sq_append_event ''run-a'' (lab_recovery (2 ^ 63)) (after_ops sq_create_run sq_append_event lab_run_ops q) =
      Inl (OverflowError ''Python int too large to convert to SQLite INTEGER'')"
proof -
  have m: "mk_convergence_store 2 = Inr \<lparr>cs_capacity = 2, cs_runs = [], cs_order = []\<rparr>" (is "_ = Inr ?m")
    by (simp add: mk_convergence_store_def)
  have q: "sq_open 2 sq_empty = Inr (sq_prune (sq_empty\<lparr>sq_capacity := 2\<rparr>))" (is "_ = Inr ?q")
    by (simp add: sq_open_def sq_bind_def int64_option_def int64_def)
  have "case cs_lookup ''run-a'' (after_ops cs_create_run cs_append_event lab_run_ops ?m) of
      Inl e \<Rightarrow> False | Inr r \<Rightarrow> validate_event r (lab_recovery (2 ^ 63)) = Inr ()"
    by code_simp
  then obtain r where r: "cs_lookup ''run-a'' (after_ops cs_create_run cs_append_event lab_run_ops ?m) = Inr r"
      "validate_event r (lab_recovery (2 ^ 63)) = Inr ()"
    by (auto split: sum.splits)
  have "\<not> event_fits (lab_recovery (2 ^ 63))" by (simp add: lab_recovery_def event_fits_def int64_option_def int64_def)
  with stores_equivalent [OF m q lab_run_ops_admissible] m q r show ?thesis by blast
qed

text \<open>
  C20: Every run a store hands out - newly created, updated, fetched or latest - has a valid
  timeline: non-empty endpoints, aware times, events of its profile only, each kind at most
  once, the blackhole first, offsets non-negative and never decreasing, a positive metric on
  a failover and a sequence number on a recovery. Run ids are fresh, times are values of
  \<open>datetime\<close> and the events' numbers fit 64 bits.
\<close>

theorem stored_timelines_valid:
  assumes "sq_open capacity sq_empty = Inr q" "admissible ops {}"
  shows "\<forall>x \<in> set (exec_ops sq_create_run sq_append_event sq_load sq_latest ops q). response_ok x"
  using sqlite_runs.exec_timelines [of q, OF _ _ assms(2)] sq_fresh [OF assms(1)] by blast

theorem stored_timelines_valid_witness:
  "\<exists>q. sq_open 2 sq_empty = Inr q \<and>
    list_all response_ok (exec_ops sq_create_run sq_append_event sq_load sq_latest lab_run_ops q)"
proof -
  have q: "sq_open 2 sq_empty = Inr (sq_prune (sq_empty\<lparr>sq_capacity := 2\<rparr>))"
    by (simp add: sq_open_def sq_bind_def int64_option_def int64_def)
  from stored_timelines_valid [OF q lab_run_ops_admissible] q show ?thesis unfolding list_all_iff by blast
qed

text \<open>
  C7: The SQLite store is durable: closing it after any sequence of calls and opening the
  database again succeeds, and every later call answers exactly as it would have without
  the restart. Run ids are fresh, times are values of \<open>datetime\<close> and the events' numbers fit
  64 bits.
\<close>

theorem restart_transparent:
  assumes "sq_open capacity sq_empty = Inr q" "admissible (ops @ later) {}"
  shows "\<exists>q'. sq_open capacity (after_ops sq_create_run sq_append_event ops q) = Inr q' \<and>
    exec_ops sq_create_run sq_append_event sq_load sq_latest (ops @ later) q =
    exec_ops sq_create_run sq_append_event sq_load sq_latest ops q @
    exec_ops sq_create_run sq_append_event sq_load sq_latest later q'"
proof -
  have q: "sq_ok q" "sq_capacity q = capacity" "sq_view q = []" using sq_fresh [OF assms(1)] by auto
  let ?s = "after_ops sq_create_run sq_append_event ops q"
  obtain used where s: "sq_ok ?s" "nat (sq_capacity ?s) = nat (sq_capacity q)" "admissible later used"
    "run_id ` set (sq_view ?s) \<subseteq> used"
    using sqlite_runs.after_ops_ok [OF q(1) assms(2)] q(3) by auto
  have pos: "1 \<le> capacity" using q(1,2) unfolding sq_ok_def by simp
  then obtain q' where q': "sq_open capacity ?s = Inr q'"
    using assms(1) by (simp add: sq_open_def rbind_eq_Inr)
  have "sq_tables_ok ?s" using s(1) by (simp add: sq_ok_def)
  note reopened = sq_open_view [OF this q']
  have "length (sq_view ?s) \<le> nat capacity"
    using sqlite_runs.bounded [OF s(1)] s(2) q(2) by simp
  then have view: "sq_view q' = sq_view ?s" using reopened by (simp add: newest_of_def)
  have "exec_ops sq_create_run sq_append_event sq_load sq_latest later q' =
      exec_ops sq_create_run sq_append_event sq_load sq_latest later ?s"
    using sqlite_runs.exec_spec [OF s(1,3,4)] sqlite_runs.exec_spec [OF _ s(3), of q'] s(2,4) reopened view q(2)
    by simp
  then show ?thesis using q' by (simp add: exec_ops_append)
qed

theorem restart_transparent_witness:
  "\<exists>q q'. sq_open 2 sq_empty = Inr q \<and>
    sq_open 2 (after_ops sq_create_run sq_append_event (take 3 lab_run_ops) q) = Inr q' \<and>
    exec_ops sq_create_run sq_append_event sq_load sq_latest (take 3 lab_run_ops @ drop 3 lab_run_ops) q =
    exec_ops sq_create_run sq_append_event sq_load sq_latest (take 3 lab_run_ops) q @
    exec_ops sq_create_run sq_append_event sq_load sq_latest (drop 3 lab_run_ops) q'"
proof -
  have q: "sq_open 2 sq_empty = Inr (sq_prune (sq_empty\<lparr>sq_capacity := 2\<rparr>))"
    by (simp add: sq_open_def sq_bind_def int64_option_def int64_def)
  have "admissible (take 3 lab_run_ops @ drop 3 lab_run_ops) {}"
    using lab_run_ops_admissible by (simp only: append_take_drop_id)
  from restart_transparent [OF q this] q show ?thesis by blast
qed

text \<open>
  A complete run is final: once a stored run has every event its profile requires, each
  further append to it is rejected with an error, whatever the event; and until an append is
  rejected, it adds exactly its event to the run that the store then returns.
\<close>

theorem complete_run_final:
  assumes "sq_ok s" "representable e" "sq_load i s = Inr r"
  shows "(run_status r = Inr ''complete'' \<longrightarrow> (\<exists>err. sq_append_event i e s = Inl err)) \<and>
    (case sq_append_event i e s of
       Inl err \<Rightarrow> validate_event r e = Inl err
     | Inr (r', s') \<Rightarrow> validate_event r e = Inr () \<and> r' = add_event r e \<and> sq_load i s' = Inr r')"
proof -
  have "\<exists>err. sq_append_event i e s = Inl err" if "run_status r = Inr ''complete''"
    using sqlite_runs.complete_is_final [OF assms that] .
  moreover have "case sq_append_event i e s of
       Inl err \<Rightarrow> validate_event r e = Inl err
     | Inr (r', s') \<Rightarrow> validate_event r e = Inr () \<and> r' = add_event r e \<and> sq_load i s' = Inr r'"
  proof (cases "sq_append_event i e s")
    case (Inl err)
    have "spec_append i e (sq_view s) = Inl err"
      using sqlite_runs.append_spec [OF assms(1,2), of i] Inl by simp
    moreover have "spec_get i (sq_view s) = Inr r" using sqlite_runs.get_spec [OF assms(1), of i] assms(3) by simp
    ultimately show ?thesis using Inl by (simp add: spec_append_def rbind_eq_Inl)
  next
    case (Inr p)
    then obtain r' s' where p: "sq_append_event i e s = Inr (r', s')" by (cases p) simp
    from sqlite_runs.append_step(1) [OF assms(1,2) p] assms(3) p show ?thesis by auto
  qed
  ultimately show ?thesis by blast
qed

lemma lab_store:
  "\<exists>q s. sq_open 2 sq_empty = Inr q \<and>
    sq_create_run ''a'' ''bfd_100x3'' ''access1'' ''10.20.0.10'' lab_instant q =
      Inr (mk_run ''a'' ''bfd_100x3'' ''access1'' ''10.20.0.10'' lab_instant, s) \<and>
    sq_ok s \<and> sq_load ''run-a'' s = Inr (mk_run ''a'' ''bfd_100x3'' ''access1'' ''10.20.0.10'' lab_instant)"
proof -
  let ?run = "mk_run ''a'' ''bfd_100x3'' ''access1'' ''10.20.0.10'' lab_instant"
  have open2: "sq_open 2 sq_empty = Inr (sq_prune (sq_empty\<lparr>sq_capacity := 2\<rparr>))" (is "_ = Inr ?q")
    by (simp add: sq_open_def sq_bind_def int64_option_def int64_def)
  note q = sq_fresh [OF open2]
  have fresh: "fresh_run ''a'' (sq_view ?q)" using q by (simp add: fresh_run_def)
  have tm: "valid_datetime lab_instant" by (simp add: valid_datetime_def lab_instant_def)
  have "validate_run ''bfd_100x3'' ''access1'' ''10.20.0.10'' lab_instant = Inr ()"
    by (simp add: validate_run_Inr required_events_def aware_def lab_instant_def)
  from sqlite_runs.create_total [OF _ fresh tm this] q obtain s where
    s: "sq_create_run ''a'' ''bfd_100x3'' ''access1'' ''10.20.0.10'' lab_instant ?q = Inr (?run, s)" by blast
  have "run_id ?run = ''run-a''" by (simp add: mk_run_def)
  with sqlite_runs.created_run(3,4) [OF _ fresh tm s] q open2 s show ?thesis by force
qed

theorem complete_run_final_witness:
  "\<exists>s r. sq_load ''run-a'' s = Inr r \<and>
    (case sq_append_event ''run-a'' (lab_bfd_event BLACKHOLE_INJECTED 0) s of
       Inl err \<Rightarrow> validate_event r (lab_bfd_event BLACKHOLE_INJECTED 0) = Inl err
     | Inr (r', s') \<Rightarrow> validate_event r (lab_bfd_event BLACKHOLE_INJECTED 0) = Inr () \<and>
         r' = add_event r (lab_bfd_event BLACKHOLE_INJECTED 0) \<and> sq_load ''run-a'' s' = Inr r')"
proof -
  obtain s r where s: "sq_ok s" "sq_load ''run-a'' s = Inr r" using lab_store by blast
  have "representable (lab_bfd_event BLACKHOLE_INJECTED 0)"
    by (simp add: lab_bfd_event_def representable_def int64_def int64_option_def valid_datetime_def lab_instant_def)
  from complete_run_final [OF s(1) this s(2)] s(2) show ?thesis by blast
qed

end
