(* ===== verification/Convergence_Api.thy ===== *)
theory Convergence_Api
  imports Convergence_Service
begin

text \<open>
  The convergence endpoints of \<open>api.py\<close> over any store: the request models' constraints
  (status 422), the statuses that exceptions become, the responses, and the live metrics of
  \<open>render_live_metrics\<close>. Parameters: the store's operations, the texts of an address
  (\<open>IPvAnyAddress\<close>), \<open>repr\<close> of an exception's argument, and \<open>:g\<close> formatting of a float.
\<close>

section \<open>HTTP results\<close>

type_synonym 'a http = "(int \<times> string) + 'a"

text \<open>
  \<open>try: ... except KeyError: 404 ... except ValueError: n\<close>: an exception without a handler
  is answered with status 500.
\<close>

definition caught :: "(string \<Rightarrow> string) \<Rightarrow> int option \<Rightarrow> int option \<Rightarrow> 'a result \<Rightarrow> 'a http" where
  "caught repr key_status value_status r =
     (case r of
        Inr x \<Rightarrow> Inr x
      | Inl (KeyError m) \<Rightarrow>
          Inl (case key_status of Some n \<Rightarrow> (n, repr m) | None \<Rightarrow> (500, ''Internal Server Error''))
      | Inl (ValueError m) \<Rightarrow>
          Inl (case value_status of Some n \<Rightarrow> (n, m) | None \<Rightarrow> (500, ''Internal Server Error''))
      | Inl _ \<Rightarrow> Inl (500, ''Internal Server Error''))"

lemma caught_Inr [simp]: "caught repr k v (Inr x) = Inr x"
  "caught repr k v r = Inr x \<longleftrightarrow> r = Inr x"
  by (auto simp: caught_def split: sum.splits py_error.splits)

definition hbind :: "'a http \<Rightarrow> ('a \<Rightarrow> 'b http) \<Rightarrow> 'b http" where
  "hbind m f = (case m of Inl e \<Rightarrow> Inl e | Inr a \<Rightarrow> f a)"

lemma hbind_simps [simp]: "hbind (Inl e) f = Inl e" "hbind (Inr a) f = f a"
  by (simp_all add: hbind_def)

text \<open>A request model that fails validation.\<close>

definition valid_body :: "bool \<Rightarrow> unit http" where
  "valid_body b = (if b then Inr () else Inl (422, ''validation error''))"

lemma valid_body_simps [simp]: "valid_body True = Inr ()" "valid_body False = Inl (422, ''validation error'')"
  by (simp_all add: valid_body_def)

section \<open>Requests and responses\<close>

record ConvergenceRunRequest =
  rq_profile :: string
  rq_source :: string
  rq_target :: string
  rq_started_at :: "datetime option"

record ConvergenceEventRequest =
  rq_event :: string
  rq_offset_ms :: int
  rq_observed_at :: "datetime option"
  rq_route_metric :: "int option"
  rq_icmp_sequence :: "int option"

text \<open>\<open>^[a-z0-9-]+$\<close> with 1 to 64 characters\<close>

definition source_text :: "string \<Rightarrow> bool" where
  "source_text s = (s \<noteq> [] \<and> length s \<le> 64 \<and> list_all ident_char s)"

definition aware_or_absent :: "datetime option \<Rightarrow> bool" where
  "aware_or_absent d = (case d of None \<Rightarrow> True | Some t \<Rightarrow> aware t)"

definition run_request_ok :: "(string \<Rightarrow> string option) \<Rightarrow> ConvergenceRunRequest \<Rightarrow> bool" where
  "run_request_ok address q =
     (rq_profile q \<in> {''ospf_only'', ''bfd_100x3''} \<and> source_text (rq_source q) \<and>
      address (rq_target q) \<noteq> None \<and> aware_or_absent (rq_started_at q))"

definition event_request_ok :: "ConvergenceEventRequest \<Rightarrow> bool" where
  "event_request_ok q =
     (rq_event q \<in> set (map kind_value all_kinds) \<and>
      0 \<le> rq_offset_ms q \<and> rq_offset_ms q \<le> 60000 \<and> aware_or_absent (rq_observed_at q) \<and>
      (case rq_route_metric q of None \<Rightarrow> True | Some m \<Rightarrow> 1 \<le> m \<and> m \<le> 65535) \<and>
      (case rq_icmp_sequence q of None \<Rightarrow> True | Some n \<Rightarrow> 0 \<le> n))"

record ConvergenceEventResponse =
  rs_event :: string
  rs_offset_ms :: int
  rs_observed_at :: datetime
  rs_route_metric :: "int option"
  rs_icmp_sequence :: "int option"

record ConvergenceRunResponse =
  rs_id :: string
  rs_profile :: string
  rs_source :: string
  rs_target :: string
  rs_started_at :: datetime
  rs_status :: string
  rs_events :: "ConvergenceEventResponse list"

definition event_response :: "ConvergenceEvent \<Rightarrow> ConvergenceEventResponse" where
  "event_response e =
     \<lparr>rs_event = kind_value (ev_kind e), rs_offset_ms = ev_offset_ms e, rs_observed_at = ev_observed_at e,
      rs_route_metric = ev_route_metric e, rs_icmp_sequence = ev_icmp_sequence e\<rparr>"

definition convergence_response :: "ConvergenceRun \<Rightarrow> ConvergenceRunResponse result" where
  "convergence_response run =
     rbind (run_status run) (\<lambda>status.
       Inr \<lparr>rs_id = run_id run, rs_profile = run_profile run, rs_source = run_source run,
         rs_target = run_target run, rs_started_at = run_started_at run, rs_status = status,
         rs_events = map event_response (run_events run)\<rparr>)"

section \<open>Handlers\<close>

text \<open>
  Each handler is given the store's operations and returns the response and the store. The
  default times are what \<open>datetime.now(timezone.utc)\<close> reads.
\<close>

definition default_time :: "datetime option \<Rightarrow> datetime \<Rightarrow> datetime" where
  "default_time given now = (case given of None \<Rightarrow> now | Some t \<Rightarrow> t)"

definition create_convergence_run ::
  "(string \<Rightarrow> string \<Rightarrow> string \<Rightarrow> string \<Rightarrow> datetime \<Rightarrow> 's \<Rightarrow> (ConvergenceRun \<times> 's) result) \<Rightarrow>
   (string \<Rightarrow> string) \<Rightarrow> (string \<Rightarrow> string option) \<Rightarrow> string \<Rightarrow> datetime \<Rightarrow> ConvergenceRunRequest \<Rightarrow> 's \<Rightarrow>
   ConvergenceRunResponse http \<times> 's" where
  "create_convergence_run create repr address uuid_hex now q s =
     (if \<not> run_request_ok address q then (Inl (422, ''validation error''), s)
      else
        (case create uuid_hex (rq_profile q) (rq_source q) (the (address (rq_target q)))
                (default_time (rq_started_at q) now) s of
           Inl e \<Rightarrow> (caught repr None None (Inl e), s)
         | Inr (run, s') \<Rightarrow> (caught repr None None (convergence_response run), s')))"

definition record_convergence_event ::
  "(string \<Rightarrow> ConvergenceEvent \<Rightarrow> 's \<Rightarrow> (ConvergenceRun \<times> 's) result) \<Rightarrow> (string \<Rightarrow> string) \<Rightarrow>
   datetime \<Rightarrow> string \<Rightarrow> ConvergenceEventRequest \<Rightarrow> 's \<Rightarrow> ConvergenceRunResponse http \<times> 's" where
  "record_convergence_event append_event repr now i q s =
     (if \<not> event_request_ok q then (Inl (422, ''validation error''), s)
      else
        (case kind_of_value (rq_event q) of
           Inl e \<Rightarrow> (caught repr None None (Inl e), s)
         | Inr kind \<Rightarrow>
             (case append_event i
                 \<lparr>ev_kind = kind, ev_offset_ms = rq_offset_ms q,
                  ev_observed_at = default_time (rq_observed_at q) now,
                  ev_route_metric = rq_route_metric q, ev_icmp_sequence = rq_icmp_sequence q\<rparr> s of
                Inl e \<Rightarrow> (caught repr (Some 404) (Some 409) (Inl e), s)
              | Inr (run, s') \<Rightarrow> (caught repr None None (convergence_response run), s'))))"

definition get_convergence_run ::
  "(string \<Rightarrow> 's \<Rightarrow> ConvergenceRun result) \<Rightarrow> (string \<Rightarrow> string) \<Rightarrow> string \<Rightarrow> 's \<Rightarrow> ConvergenceRunResponse http" where
  "get_convergence_run get repr i s = caught repr (Some 404) None (rbind (get i s) convergence_response)"

definition get_latest_convergence_run ::
  "('s \<Rightarrow> ConvergenceRun option result) \<Rightarrow> (string \<Rightarrow> string) \<Rightarrow> 's \<Rightarrow> ConvergenceRunResponse http" where
  "get_latest_convergence_run latest repr s =
     hbind (caught repr None None (latest s)) (\<lambda>run.
       case run of
         None \<Rightarrow> Inl (404, ''convergence run not found'')
       | Some r \<Rightarrow> caught repr None None (convergence_response r))"

section \<open>Live metrics\<close>

definition find_event :: "ConvergenceEventKind \<Rightarrow> ConvergenceRun \<Rightarrow> ConvergenceEvent option" where
  "find_event kind run = map_of (dict_of_list ev_kind (run_events run)) kind"

definition optional_int :: "int option \<Rightarrow> string" where
  "optional_int v = (case v of None \<Rightarrow> ''None'' | Some i \<Rightarrow> int_str i)"

definition render_live_metrics :: "(rat \<Rightarrow> string) \<Rightarrow> ConvergenceRun option \<Rightarrow> string result" where
  "render_live_metrics format_g latest =
     (let header =
        [help_line ''telconet_live_run_complete'' ''Whether the latest live run recorded all stages.'',
         gauge_line ''telconet_live_run_complete'',
         help_line ''telconet_live_event_offset_seconds'' ''Observed offset from fault injection.'',
         gauge_line ''telconet_live_event_offset_seconds'',
         help_line ''telconet_live_bfd_peer_up'' ''Whether the observed BFD peer is up.'',
         gauge_line ''telconet_live_bfd_peer_up'',
         help_line ''telconet_live_ospf_neighbor_full'' ''Whether the observed OSPF neighbor is Full.'',
         gauge_line ''telconet_live_ospf_neighbor_full'',
         help_line ''telconet_live_route_metric'' ''Current observed service route metric.'',
         gauge_line ''telconet_live_route_metric'',
         help_line ''telconet_live_data_plane_reachable'' ''Whether the live ICMP probe is reachable.'',
         gauge_line ''telconet_live_data_plane_reachable'']
      in case latest of
           None \<Rightarrow> Inr (joined_lines header)
         | Some run \<Rightarrow>
             rbind (run_status run) (\<lambda>status.
               let profile_label = label ''profile'' (run_profile run);
                   seen = (\<lambda>kind. find_event kind run \<noteq> None);
                   metric = (case find_event ROUTE_FAILOVER run of
                       None \<Rightarrow> ''30'' | Some e \<Rightarrow> optional_int (ev_route_metric e));
                   reachable = (seen DATA_PLANE_RECOVERED \<or> \<not> seen BLACKHOLE_INJECTED)
               in Inr (joined_lines
                 (header @
                  [sample_line ''telconet_live_run_complete'' [profile_label] (bool_sample (status = ''complete''))] @
                  map (\<lambda>e. sample_line ''telconet_live_event_offset_seconds''
                     [label ''event'' (kind_value (ev_kind e)), profile_label]
                     (format_g (of_int (ev_offset_ms e) / 1000))) (run_events run) @
                  (if run_profile run = ''bfd_100x3''
                   then [sample_line ''telconet_live_bfd_peer_up'' [profile_label] (bool_sample (\<not> seen BFD_DOWN))]
                   else []) @
                  [sample_line ''telconet_live_ospf_neighbor_full'' [profile_label] (bool_sample (\<not> seen OSPF_NEIGHBOR_DOWN)),
                   sample_line ''telconet_live_route_metric'' [profile_label] metric,
                   sample_line ''telconet_live_data_plane_reachable'' [profile_label] (bool_sample reachable)]))))"

section \<open>No internal error\<close>

text \<open>
  For every store that implements the protocol, a handler answers with the response or with
  one of its documented statuses, never with 500.
\<close>

lemma run_status_total: "timeline_ok run \<Longrightarrow> \<exists>st. run_status run = Inr st"
  by (auto simp: timeline_ok_def run_status_def)

lemma convergence_response_total: "timeline_ok run \<Longrightarrow> \<exists>rs. convergence_response run = Inr rs \<and> rs_id rs = run_id run"
  using run_status_total [of run] by (auto simp: convergence_response_def)

lemma render_live_total: "(case latest of None \<Rightarrow> True | Some run \<Rightarrow> timeline_ok run) \<Longrightarrow> \<exists>t. render_live_metrics g latest = Inr t"
proof (cases latest)
  case (Some run)
  moreover assume "case latest of None \<Rightarrow> True | Some run \<Rightarrow> timeline_ok run"
  ultimately obtain st where "run_status run = Inr st" using run_status_total by auto
  then show ?thesis unfolding Some render_live_metrics_def Let_def by simp
qed (simp add: render_live_metrics_def)

lemma run_request_valid:
  assumes "run_request_ok address q" "\<forall>t a. address t = Some a \<longrightarrow> a \<noteq> []" "aware now"
  shows "validate_run (rq_profile q) (rq_source q) (the (address (rq_target q))) (default_time (rq_started_at q) now) = Inr ()"
proof -
  have "required_events (rq_profile q) \<noteq> None" using assms(1) by (auto simp: run_request_ok_def required_events_def)
  moreover have "aware (default_time (rq_started_at q) now)"
    using assms(1,3) by (auto simp: run_request_ok_def default_time_def aware_or_absent_def split: option.splits)
  ultimately show ?thesis
    using assms(1,2) by (auto simp: validate_run_Inr run_request_ok_def source_text_def)
qed

lemma event_request_kind: "event_request_ok q \<Longrightarrow> \<exists>k. kind_of_value (rq_event q) = Inr k \<and> rq_event q = kind_value k"
  unfolding event_request_ok_def by force

lemma validate_event_not_key:
  "timeline_ok run \<Longrightarrow> validate_event run e = Inl err \<Longrightarrow> \<exists>m. err = ValueError m"
  by (auto simp: validate_event_def rbind_eq_Inl timeline_ok_def split: option.splits)

definition all_timelines :: "ConvergenceRun list \<Rightarrow> bool" where
  "all_timelines runs = (\<forall>r \<in> set runs. timeline_ok r)"

context convergence_repository
begin

lemma created_handler:
  assumes "ok s" "fresh_run u (runs_of s)" "all_timelines (runs_of s)"
    and "\<forall>t a. address t = Some a \<longrightarrow> a \<noteq> []" "aware now" "valid_datetime (default_time (rq_started_at q) now)"
    and "create_convergence_run create repr address u now q s = (x, s')"
  shows "ok s' \<and> all_timelines (runs_of s') \<and>
    (if run_request_ok address q
     then \<exists>rs. x = Inr rs \<and> rs_id rs = ''run-'' @ u \<and> rs_status rs = ''collecting'' \<and>
       get (''run-'' @ u) s' = Inr (mk_run u (rq_profile q) (rq_source q) (the (address (rq_target q))) (default_time (rq_started_at q) now))
     else x = Inl (422, ''validation error'') \<and> s' = s)"
proof (cases "run_request_ok address q")
  case True
  define run where "run = mk_run u (rq_profile q) (rq_source q) (the (address (rq_target q))) (default_time (rq_started_at q) now)"
  note v = run_request_valid [OF True assms(4,5)]
  obtain s1 where c: "create u (rq_profile q) (rq_source q) (the (address (rq_target q))) (default_time (rq_started_at q) now) s = Inr (run, s1)"
    using create_total [OF assms(1,2,6) v] run_def by blast
  have sp: "spec_create (capacity_of s) u (rq_profile q) (rq_source q) (the (address (rq_target q)))
      (default_time (rq_started_at q) now) (runs_of s) = Inr (run, runs_of s1)"
    using create_spec [OF assms(1,2,6), of "rq_profile q" "rq_source q" "the (address (rq_target q))"] c by simp
  have "timeline_ok run" and t: "all_timelines (runs_of s1)"
    using spec_create_timelines [OF sp] assms(3) by (auto simp: all_timelines_def)
  then obtain rs where rs: "convergence_response run = Inr rs" "rs_id rs = run_id run"
    using convergence_response_total by blast
  have "required_events (run_profile run) = required_events (rq_profile q)" "run_events run = []"
    by (simp_all add: run_def mk_run_def)
  then have "run_status run = Inr ''collecting''"
    using True by (auto simp: run_status_def run_request_ok_def required_events_def all_kinds_def)
  then have "rs_status rs = ''collecting''" using rs(1) by (auto simp: convergence_response_def)
  moreover have "run_id run = ''run-'' @ u" by (simp add: run_def mk_run_def)
  moreover note created_run(3,4) [OF assms(1,2,6) c]
  ultimately show ?thesis
    using assms(7) True t rs c by (auto simp: create_convergence_run_def run_def [symmetric])
qed (use assms in \<open>auto simp: create_convergence_run_def\<close>)

lemma recorded_handler:
  assumes "ok s" "all_timelines (runs_of s)" "aware now" "valid_datetime (default_time (rq_observed_at q) now)"
    and "int64_option (rq_icmp_sequence q)" "record_convergence_event append repr now i q s = (x, s')"
  shows "ok s' \<and> all_timelines (runs_of s') \<and>
    (case x of Inr rs \<Rightarrow> rs_id rs = i | Inl (code, _) \<Rightarrow> code \<in> {404, 409, 422} \<and> s' = s)"
proof (cases "event_request_ok q")
  case True
  then obtain k where k: "kind_of_value (rq_event q) = Inr k" using event_request_kind by blast
  define e where "e = \<lparr>ev_kind = k, ev_offset_ms = rq_offset_ms q,
     ev_observed_at = default_time (rq_observed_at q) now,
     ev_route_metric = rq_route_metric q, ev_icmp_sequence = rq_icmp_sequence q\<rparr>"
  have tm: "representable e" using assms(4,5) True
    by (auto simp: e_def representable_def event_request_ok_def int64_option_def int64_def split: option.splits)
  note spec = append_spec [OF assms(1) tm, of i]
  show ?thesis
  proof (cases "append i e s")
    case (Inl err)
    then have "spec_append i e (runs_of s) = Inl err" using spec [symmetric] by simp
    then have "(\<exists>m. err = KeyError m) \<or> (\<exists>m. err = ValueError m)"
    proof (cases "spec_get i (runs_of s)")
      case (Inr run)
      then have "timeline_ok run" using spec_get_mem assms(2) unfolding all_timelines_def by blast
      moreover have "validate_event run e = Inl err"
        using \<open>spec_append i e (runs_of s) = Inl err\<close> Inr by (simp add: spec_append_def rbind_eq_Inl)
      ultimately show ?thesis using validate_event_not_key by blast
    qed (auto simp: spec_append_def spec_get_def split: option.splits)
    then show ?thesis using assms(1,2,6) True k Inl
      by (auto simp: record_convergence_event_def e_def [symmetric] caught_def)
  next
    case (Inr p)
    then obtain r s1 where c: "append i e s = Inr (r, s1)" by (cases p) simp
    then have sp: "spec_append i e (runs_of s) = Inr (r, runs_of s1)" using spec by simp
    have t: "timeline_ok r" "all_timelines (runs_of s1)"
      using spec_append_timelines [OF sp] assms(1,2) ids_distinct by (auto simp: all_timelines_def)
    have "run_id r = i" using append_step(1) [OF assms(1) tm c] get_stored append_ok [OF assms(1) tm c] by blast
    moreover obtain rs where "convergence_response r = Inr rs" "rs_id rs = run_id r"
      using convergence_response_total [OF t(1)] by blast
    moreover have "ok s1" using append_ok [OF assms(1) tm c] by blast
    ultimately show ?thesis using assms(6) True k c t
      by (auto simp: record_convergence_event_def e_def [symmetric])
  qed
qed (use assms in \<open>auto simp: record_convergence_event_def\<close>)

lemma read_handlers:
  assumes "ok s" "all_timelines (runs_of s)"
  shows "case get_convergence_run get repr i s of
      Inr rs \<Rightarrow> rs_id rs = i \<and> (\<exists>r. get i s = Inr r) | Inl (code, _) \<Rightarrow> code = 404 \<and> i \<notin> run_id ` set (runs_of s)"
    and "case get_latest_convergence_run latest repr s of
      Inr rs \<Rightarrow> runs_of s \<noteq> [] \<and> rs_id rs = run_id (last (runs_of s)) | Inl (code, _) \<Rightarrow> code = 404 \<and> runs_of s = []"
    and "\<exists>r t. latest s = Inr r \<and> render_live_metrics g r = Inr t"
proof -
  show "case get_convergence_run get repr i s of
      Inr rs \<Rightarrow> rs_id rs = i \<and> (\<exists>r. get i s = Inr r) | Inl (code, _) \<Rightarrow> code = 404 \<and> i \<notin> run_id ` set (runs_of s)"
  proof (cases "get i s")
    case (Inl e)
    then have "List.find (\<lambda>r. run_id r = i) (runs_of s) = None" and "\<exists>m. e = KeyError m"
      using get_spec [OF assms(1), of i] by (auto simp: spec_get_def split: option.splits)
    then show ?thesis using Inl by (auto simp: get_convergence_run_def caught_def find_None_iff)
  next
    case (Inr r)
    then have "r \<in> set (runs_of s)" "run_id r = i" using get_stored [OF assms(1)] by auto
    moreover obtain rs where "convergence_response r = Inr rs" "rs_id rs = run_id r"
      using convergence_response_total [of r] calculation(1) assms(2) by (auto simp: all_timelines_def)
    ultimately show ?thesis using Inr by (simp add: get_convergence_run_def)
  qed
  show "case get_latest_convergence_run latest repr s of
      Inr rs \<Rightarrow> runs_of s \<noteq> [] \<and> rs_id rs = run_id (last (runs_of s)) | Inl (code, _) \<Rightarrow> code = 404 \<and> runs_of s = []"
  proof (cases "runs_of s = []")
    case False
    then have "timeline_ok (last (runs_of s))" using assms(2) by (simp add: all_timelines_def)
    from convergence_response_total [OF this] False show ?thesis
      by (auto simp: get_latest_convergence_run_def latest_spec [OF assms(1)] spec_latest_def)
  qed (simp add: get_latest_convergence_run_def latest_spec [OF assms(1)] spec_latest_def)
  show "\<exists>r t. latest s = Inr r \<and> render_live_metrics g r = Inr t"
    using render_live_total [of "spec_latest (runs_of s)" g] assms
    by (auto simp: latest_spec spec_latest_def all_timelines_def)
qed

end

end
