(* ===== verification/Live_Detector.thy ===== *)
theory Live_Detector
  imports Convergence_Api
begin

text \<open>
  \<open>live_collector.py\<close>: reading FRR's JSON output, the ping recovery tracker, and the
  detector that turns polled samples into the ordered events of a run. The collector's main
  loop posts those events to a convergence store; that none of them is ever rejected, and
  that the run is complete once the detector has recorded all four, joins this component to
  the stores.

  Parsing JSON text is a parameter (the parsed document, or none), and so is Python's
  \<open>str\<close> of floats and containers; the processes and threads that feed the loop are not
  modelled.
\<close>

section \<open>FRR output\<close>

text \<open>\<open>_walk\<close>: every mapping of a document, outermost first.\<close>

fun json_walk :: "json \<Rightarrow> (string \<times> json) list list" where
  "json_walk (JObject d) = d # concat (map (\<lambda>(_, v). json_walk v) d)"
| "json_walk (JArray xs) = concat (map json_walk xs)"
| "json_walk _ = []"

text \<open>\<open>str(value)\<close>, with \<open>repr\<close> for floats and containers.\<close>

fun py_str :: "(json \<Rightarrow> string) \<Rightarrow> json \<Rightarrow> string" where
  "py_str repr JNull = ''None''"
| "py_str repr (JBool b) = (if b then ''True'' else ''False'')"
| "py_str repr (JInt i) = int_str i"
| "py_str repr (JString s) = s"
| "py_str repr j = repr j"

definition lower_char :: "char \<Rightarrow> char" where
  "lower_char c = (if is_upper c then char_of (of_char c + (32 :: nat)) else c)"

definition lower :: "string \<Rightarrow> string" where
  "lower s = map lower_char s"

text \<open>\<open>str(values.get(field, ""))\<close>\<close>

definition field_text :: "(json \<Rightarrow> string) \<Rightarrow> string \<Rightarrow> (string \<times> json) list \<Rightarrow> string" where
  "field_text repr field d = (case map_of d field of None \<Rightarrow> [] | Some v \<Rightarrow> py_str repr v)"

definition status_up :: "(json \<Rightarrow> string) \<Rightarrow> (string \<times> json) list \<Rightarrow> bool" where
  "status_up repr d = (lower (field_text repr ''status'' d) = ''up'')"

text \<open>The parsers get the parsed document; \<open>None\<close> stands for text that is not JSON.\<close>

definition load_json :: "json option \<Rightarrow> json result" where
  "load_json document =
     (case document of None \<Rightarrow> Inl (ValueError ''FRR output must be valid JSON'') | Some j \<Rightarrow> Inr j)"

definition parse_bfd_peer_up :: "(json \<Rightarrow> string) \<Rightarrow> json option \<Rightarrow> string \<Rightarrow> bool result" where
  "parse_bfd_peer_up repr document peer =
     rbind (load_json document) (\<lambda>j.
       Inr (list_ex (\<lambda>d.
         (jget ''peer'' d = JString peer \<and> status_up repr d) \<or>
         (case map_of d peer of
            None \<Rightarrow> False
          | Some v \<Rightarrow> list_ex (status_up repr) (json_walk v))) (json_walk j)))"

definition parse_ospf_neighbor_full :: "(json \<Rightarrow> string) \<Rightarrow> json option \<Rightarrow> string \<Rightarrow> bool result" where
  "parse_ospf_neighbor_full repr document peer =
     rbind (load_json document) (\<lambda>j.
       Inr (list_ex (\<lambda>d.
         peer \<in> set (map (\<lambda>f. field_text repr f d) [''address'', ''ifaceAddress'', ''neighborAddress'', ''peer'']) \<and>
         list_ex (\<lambda>f. starts_with ''full'' (lower (field_text repr f d))) [''nbrState'', ''state'']) (json_walk j)))"

text \<open>\<open>re.search(r"\bmetric\s+(\d+)\b", output)\<close>\<close>

definition word_char :: "char \<Rightarrow> bool" where
  "word_char c = (is_lower c \<or> is_upper c \<or> is_digit c \<or> c = CHR ''_'')"

definition space_char :: "char \<Rightarrow> bool" where
  "space_char c = (c \<in> {CHR '' '', CHR 0x09, CHR 0x0A, CHR 0x0B, CHR 0x0C, CHR 0x0D})"

definition metric_here :: "string \<Rightarrow> int option" where
  "metric_here s =
     (if \<not> starts_with ''metric'' s then None
      else
        (let rest = drop 6 s; body = dropWhile space_char rest; digits = takeWhile is_digit body;
             after = dropWhile is_digit body
         in if body = rest \<or> digits = [] \<or> (after \<noteq> [] \<and> word_char (hd after)) then None
            else map_option int (read_digits 0 digits)))"

fun search_metric :: "bool \<Rightarrow> string \<Rightarrow> int option" where
  "search_metric boundary [] = None"
| "search_metric boundary (c # s) =
     (case (if boundary then metric_here (c # s) else None) of
        Some m \<Rightarrow> Some m
      | None \<Rightarrow> search_metric (\<not> word_char c) s)"

definition route_candidates :: "json \<Rightarrow> ((string \<times> json) list \<times> int) list" where
  "route_candidates j =
     List.map_filter (\<lambda>d. map_option (Pair d) (jint (jget ''metric'' d))) (json_walk j)"

definition parse_route_metric :: "json option \<Rightarrow> string \<Rightarrow> int result" where
  "parse_route_metric document output =
     (let candidates = (case document of None \<Rightarrow> [] | Some j \<Rightarrow> route_candidates j)
      in case List.find (\<lambda>(d, _). jget ''selected'' d = JBool True) candidates of
           Some (_, m) \<Rightarrow> Inr m
         | None \<Rightarrow>
             (case candidates of
                (_, m) # _ \<Rightarrow> Inr m
              | [] \<Rightarrow>
                  (case search_metric True output of
                     Some m \<Rightarrow> Inr m
                   | None \<Rightarrow> Inl (ValueError ''FRR output does not contain a route metric''))))"

section \<open>Ping recovery\<close>

record PingRecovery =
  ping_sequence :: int
  ping_observed_ns :: int

record PingRecoveryTracker =
  last_sequence :: "int option"
  injected_ns :: "int option"

definition mk_tracker :: PingRecoveryTracker where
  "mk_tracker = \<lparr>last_sequence = None, injected_ns = None\<rparr>"

text \<open>\<open>reply\<close> is what the reply pattern captures in the line, if it matches.\<close>

definition observe_reply ::
  "nat option \<Rightarrow> int \<Rightarrow> PingRecoveryTracker \<Rightarrow> PingRecovery option \<times> PingRecoveryTracker" where
  "observe_reply reply observed t =
     (case reply of
        None \<Rightarrow> (None, t)
      | Some sequence \<Rightarrow>
          (let t' = t\<lparr>last_sequence := Some (int sequence)\<rparr>
           in case injected_ns t of
                None \<Rightarrow> (None, t')
              | Some injected \<Rightarrow>
                  if observed < injected then (None, t')
                  else (Some \<lparr>ping_sequence = int sequence, ping_observed_ns = observed\<rparr>, t')))"

definition mark_injected :: "int \<Rightarrow> PingRecoveryTracker \<Rightarrow> PingRecoveryTracker" where
  "mark_injected observed t = t\<lparr>injected_ns := Some observed\<rparr>"

text \<open>\<open>_drain_ping\<close> on the lines queued so far: the last recovery wins.\<close>

fun drain_ping ::
  "(nat option \<times> int) list \<Rightarrow> PingRecovery option \<Rightarrow> PingRecoveryTracker \<Rightarrow>
   PingRecovery option \<times> PingRecoveryTracker" where
  "drain_ping [] recovery t = (recovery, t)"
| "drain_ping ((reply, observed) # lines) recovery t =
     (case observe_reply reply observed t of
        (None, t') \<Rightarrow> drain_ping lines recovery t'
      | (Some detected, t') \<Rightarrow> drain_ping lines (Some detected) t')"

section \<open>The transition detector\<close>

record LiveSample =
  bfd_up :: bool
  ospf_full :: bool
  route_metric :: "int option"
  icmp_sequence :: "int option"

record LiveTransition =
  lt_event :: string
  lt_offset_ms :: int
  lt_route_metric :: "int option"
  lt_icmp_sequence :: "int option"

record LiveTransitionDetector =
  failover_metric :: int
  recorded_events :: "string list"

definition mk_detector :: "int \<Rightarrow> LiveTransitionDetector" where
  "mk_detector metric = \<lparr>failover_metric = metric, recorded_events = []\<rparr>"

definition transition :: "string \<Rightarrow> int \<Rightarrow> LiveTransition" where
  "transition event offset_ms =
     \<lparr>lt_event = event, lt_offset_ms = offset_ms, lt_route_metric = None, lt_icmp_sequence = None\<rparr>"

definition transition_candidates :: "int \<Rightarrow> LiveSample \<Rightarrow> int \<Rightarrow> (bool \<times> LiveTransition) list" where
  "transition_candidates metric sample offset_ms =
     [(\<not> bfd_up sample, transition ''bfd_down'' offset_ms),
      (\<not> ospf_full sample, transition ''ospf_neighbor_down'' offset_ms),
      (route_metric sample = Some metric,
       (transition ''route_failover'' offset_ms)\<lparr>lt_route_metric := route_metric sample\<rparr>),
      (icmp_sequence sample \<noteq> None,
       (transition ''data_plane_recovered'' offset_ms)\<lparr>lt_icmp_sequence := icmp_sequence sample\<rparr>)]"

fun observe_candidates ::
  "(bool \<times> LiveTransition) list \<Rightarrow> string list \<Rightarrow> LiveTransition list \<times> string list" where
  "observe_candidates [] recorded = ([], recorded)"
| "observe_candidates ((observed, candidate) # cs) recorded =
     (if lt_event candidate \<in> set recorded then observe_candidates cs recorded
      else if \<not> observed then ([], recorded)
      else (case observe_candidates cs (recorded @ [lt_event candidate]) of
              (ts, recorded') \<Rightarrow> (candidate # ts, recorded')))"

definition observe ::
  "LiveSample \<Rightarrow> int \<Rightarrow> LiveTransitionDetector \<Rightarrow> LiveTransition list \<times> LiveTransitionDetector" where
  "observe sample offset_ms det =
     (case observe_candidates (transition_candidates (failover_metric det) sample offset_ms) (recorded_events det) of
        (ts, recorded) \<Rightarrow> (ts, det\<lparr>recorded_events := recorded\<rparr>))"

section \<open>Order and uniqueness\<close>

definition stage_order :: "string list" where
  "stage_order = [''bfd_down'', ''ospf_neighbor_down'', ''route_failover'', ''data_plane_recovered'']"

text \<open>Recorded candidates are skipped; of the others, the observed prefix is recorded.\<close>

lemma observe_candidates_skip:
  "(\<forall>c \<in> set ds. lt_event (snd c) \<in> set recorded) \<Longrightarrow>
   observe_candidates (ds @ cs) recorded = observe_candidates cs recorded"
  by (induction ds) auto

lemma observe_candidates_fresh:
  "distinct (map (lt_event \<circ> snd) cs) \<Longrightarrow> (\<forall>c \<in> set cs. lt_event (snd c) \<notin> set recorded) \<Longrightarrow>
   observe_candidates cs recorded =
     (map snd (takeWhile fst cs), recorded @ map (lt_event \<circ> snd) (takeWhile fst cs))"
proof (induction cs arbitrary: recorded)
  case (Cons c cs)
  have "\<forall>d \<in> set cs. lt_event (snd d) \<notin> set (recorded @ [lt_event (snd c)])"
    using Cons.prems by (auto simp: image_iff)
  with Cons.prems Cons.IH [of "recorded @ [lt_event (snd c)]"] show ?case
    by (cases c) simp
qed simp

lemma candidate_events: "map (lt_event \<circ> snd) (transition_candidates metric sample offset_ms) = stage_order"
  by (simp add: transition_candidates_def transition_def stage_order_def)

lemma stage_order_distinct: "distinct stage_order" "length stage_order = 4"
  by (simp_all add: stage_order_def)

lemma observe_stages:
  fixes sample :: LiveSample and offset_ms :: int
  assumes "recorded_events det = take k stage_order"
  defines "ts \<equiv> map snd (takeWhile fst (drop k (transition_candidates (failover_metric det) sample offset_ms)))"
  shows "observe sample offset_ms det = (ts, det\<lparr>recorded_events := take (k + length ts) stage_order\<rparr>)"
    and "map lt_event ts = take (length ts) (drop k stage_order)"
proof -
  let ?cs = "transition_candidates (failover_metric det) sample offset_ms"
  have ev: "map (lt_event \<circ> snd) (drop k ?cs) = drop k stage_order"
    "map (lt_event \<circ> snd) (take k ?cs) = take k stage_order"
    unfolding drop_map [symmetric] take_map [symmetric] candidate_events by simp_all
  have "lt_event (snd c) \<in> set (recorded_events det)" if "c \<in> set (take k ?cs)" for c
    unfolding assms(1) ev(2) [symmetric] using that by simp
  then have skip: "observe_candidates (take k ?cs @ drop k ?cs) (recorded_events det) =
      observe_candidates (drop k ?cs) (recorded_events det)"
    by (intro observe_candidates_skip) blast
  have "set (take k stage_order) \<inter> set (drop k stage_order) = {}"
    using stage_order_distinct(1) by (metis append_take_drop_id distinct_append)
  moreover have "lt_event (snd c) \<in> set (drop k stage_order)" if "c \<in> set (drop k ?cs)" for c
    unfolding ev(1) [symmetric] using that by simp
  moreover have "distinct (map (lt_event \<circ> snd) (drop k ?cs))"
    unfolding ev(1) using stage_order_distinct(1) by (rule distinct_drop)
  ultimately have fresh: "observe_candidates (drop k ?cs) (recorded_events det) =
      (ts, recorded_events det @ map (lt_event \<circ> snd) (takeWhile fst (drop k ?cs)))"
    unfolding ts_def by (intro observe_candidates_fresh) (auto simp: assms(1))
  have "takeWhile fst (drop k ?cs) = take (length ts) (drop k ?cs)"
    unfolding ts_def by (simp add: takeWhile_eq_take [symmetric])
  then have taken: "map (lt_event \<circ> snd) (takeWhile fst (drop k ?cs)) = take (length ts) (drop k stage_order)"
    by (simp add: take_map [symmetric] ev(1))
  then show "map lt_event ts = take (length ts) (drop k stage_order)" by (simp add: ts_def)
  show "observe sample offset_ms det = (ts, det\<lparr>recorded_events := take (k + length ts) stage_order\<rparr>)"
    using skip fresh taken by (simp add: observe_def assms(1) take_add)
qed

text \<open>What a transition carries.\<close>

definition transition_ok :: "int \<Rightarrow> LiveSample \<Rightarrow> int \<Rightarrow> LiveTransition \<Rightarrow> bool" where
  "transition_ok metric sample offset_ms t =
     (lt_offset_ms t = offset_ms \<and>
      lt_route_metric t = (if lt_event t = ''route_failover'' then Some metric else None) \<and>
      lt_icmp_sequence t = (if lt_event t = ''data_plane_recovered'' then icmp_sequence sample else None) \<and>
      (lt_event t = ''data_plane_recovered'' \<longrightarrow> icmp_sequence sample \<noteq> None))"

lemma candidate_ok:
  "(True, t) \<in> set (transition_candidates metric sample offset_ms) \<Longrightarrow> transition_ok metric sample offset_ms t"
  by (auto simp: transition_candidates_def transition_def transition_ok_def)

lemma observe_ok:
  assumes "recorded_events det = take k stage_order" "observe sample offset_ms det = (ts, det')" "t \<in> set ts"
  shows "transition_ok (failover_metric det) sample offset_ms t"
proof -
  let ?cs = "transition_candidates (failover_metric det) sample offset_ms"
  have "t \<in> snd ` set (takeWhile fst (drop k ?cs))" using observe_stages(1) [OF assms(1)] assms(2,3) by auto
  then have "(True, t) \<in> set (drop k ?cs)" by (auto dest: set_takeWhileD)
  then show ?thesis using candidate_ok in_set_dropD by metis
qed

section \<open>The collector\<close>

text \<open>
  \<open>collect_live_convergence\<close> against the API's handlers over a store. Parameters: what the
  probe and the ping process deliver (the baseline sample, the lines before the fault, one
  \<open>Poll\<close> for each turn of the loop before the deadline), the clock, read once for each
  posted document, and the text of an error response.
\<close>

record Poll =
  poll_lines :: "(nat option \<times> int) list"
  poll_bfd_up :: bool
  poll_ospf_full :: bool
  poll_route_metric :: "int option"
  poll_elapsed_ms :: int

fun wait_for_ping_baseline ::
  "(nat option \<times> int) list list \<Rightarrow> PingRecoveryTracker \<Rightarrow> PingRecoveryTracker result" where
  "wait_for_ping_baseline [] t = Inl (RuntimeError ''ICMP baseline was not observed before fault injection'')"
| "wait_for_ping_baseline (lines # rest) t =
     (let t' = snd (drain_ping lines None t)
      in if last_sequence t' \<noteq> None then Inr t' else wait_for_ping_baseline rest t')"

definition event_request :: "LiveTransition \<Rightarrow> datetime \<Rightarrow> ConvergenceEventRequest" where
  "event_request t now =
     \<lparr>rq_event = lt_event t, rq_offset_ms = lt_offset_ms t, rq_observed_at = Some now,
      rq_route_metric = lt_route_metric t, rq_icmp_sequence = lt_icmp_sequence t\<rparr>"

definition client_error :: "(int \<times> string \<Rightarrow> string) \<Rightarrow> string \<Rightarrow> 'a http \<Rightarrow> 'a result" where
  "client_error body request x =
     (case x of Inl e \<Rightarrow> Inl (RuntimeError (''live API rejected '' @ request @ '': '' @ body e)) | Inr a \<Rightarrow> Inr a)"

definition record_event ::
  "(string \<Rightarrow> ConvergenceEvent \<Rightarrow> 's \<Rightarrow> (ConvergenceRun \<times> 's) result) \<Rightarrow> (string \<Rightarrow> string) \<Rightarrow>
   (int \<times> string \<Rightarrow> string) \<Rightarrow> (string \<Rightarrow> datetime) \<Rightarrow> string \<Rightarrow> LiveTransition \<Rightarrow> 's \<Rightarrow>
   ConvergenceRunResponse result \<times> 's" where
  "record_event app repr body clock i t s =
     (let now = clock (lt_event t)
      in map_prod (client_error body (''POST /api/convergence-runs/'' @ i @ ''/events'')) id
           (record_convergence_event app repr now i (event_request t now) s))"

fun post_transitions ::
  "(LiveTransition \<Rightarrow> 's \<Rightarrow> 'r result \<times> 's) \<Rightarrow> LiveTransition list \<Rightarrow> string list \<Rightarrow> 's \<Rightarrow>
   string list result \<times> 's" where
  "post_transitions post [] recorded s = (Inr recorded, s)"
| "post_transitions post (t # ts) recorded s =
     (case post t s of
        (Inl e, s') \<Rightarrow> (Inl e, s')
      | (Inr _, s') \<Rightarrow> post_transitions post ts (recorded @ [lt_event t]) s')"

definition missing_events :: "string list \<Rightarrow> string list" where
  "missing_events recorded = sort (filter (\<lambda>e. e \<notin> set recorded) stage_order)"

definition timed_out :: "string list \<Rightarrow> py_error" where
  "timed_out recorded =
     RuntimeError (''live convergence timed out; missing events: '' @ join '', '' (missing_events recorded))"

definition completed_run ::
  "(string \<Rightarrow> 's \<Rightarrow> ConvergenceRun result) \<Rightarrow> (string \<Rightarrow> string) \<Rightarrow> (int \<times> string \<Rightarrow> string) \<Rightarrow> string \<Rightarrow> 's \<Rightarrow>
   ConvergenceRunResponse result" where
  "completed_run get repr body i s =
     rbind (client_error body (''GET /api/convergence-runs/'' @ i) (get_convergence_run get repr i s)) (\<lambda>rs.
       if rs_status rs \<noteq> ''complete''
       then Inl (RuntimeError ''live API did not mark the convergence run complete'') else Inr rs)"

definition poll_sample :: "PingRecovery option \<Rightarrow> Poll \<Rightarrow> LiveSample" where
  "poll_sample recovery p =
     \<lparr>bfd_up = poll_bfd_up p, ospf_full = poll_ospf_full p, route_metric = poll_route_metric p,
      icmp_sequence = map_option ping_sequence recovery\<rparr>"

fun collect_polls ::
  "(LiveTransition \<Rightarrow> 's \<Rightarrow> ConvergenceRunResponse result \<times> 's) \<Rightarrow>
   ('s \<Rightarrow> ConvergenceRunResponse result) \<Rightarrow> Poll list \<Rightarrow> PingRecoveryTracker \<Rightarrow> LiveTransitionDetector \<Rightarrow>
   string list \<Rightarrow> 's \<Rightarrow> ConvergenceRunResponse result \<times> 's" where
  "collect_polls post finish [] tracker det recorded s = (Inl (timed_out recorded), s)"
| "collect_polls post finish (p # ps) tracker det recorded s =
     (case drain_ping (poll_lines p) None tracker of
        (recovery, tracker') \<Rightarrow>
          (case observe (poll_sample recovery p) (max 0 (poll_elapsed_ms p)) det of
             (ts, det') \<Rightarrow>
               (case post_transitions post ts recorded s of
                  (Inl e, s') \<Rightarrow> (Inl e, s')
                | (Inr recorded', s') \<Rightarrow>
                    if set recorded' = set stage_order then (finish s', s')
                    else collect_polls post finish ps tracker' det' recorded' s')))"

definition collect_live_convergence ::
  "(string \<Rightarrow> string \<Rightarrow> string \<Rightarrow> string \<Rightarrow> datetime \<Rightarrow> 's \<Rightarrow> (ConvergenceRun \<times> 's) result) \<Rightarrow>
   (string \<Rightarrow> ConvergenceEvent \<Rightarrow> 's \<Rightarrow> (ConvergenceRun \<times> 's) result) \<Rightarrow>
   (string \<Rightarrow> 's \<Rightarrow> ConvergenceRun result) \<Rightarrow>
   (string \<Rightarrow> string) \<Rightarrow> (int \<times> string \<Rightarrow> string) \<Rightarrow> (string \<Rightarrow> string option) \<Rightarrow> (string \<Rightarrow> datetime) \<Rightarrow>
   string \<Rightarrow> string \<Rightarrow> string \<Rightarrow> LiveSample \<Rightarrow> (nat option \<times> int) list list \<Rightarrow> int \<Rightarrow> Poll list \<Rightarrow> 's \<Rightarrow>
   ConvergenceRunResponse result \<times> 's" where
  "collect_live_convergence create app get repr body address clock uuid_hex source target
      baseline baseline_lines fault_ns polls s =
     (if \<not> bfd_up baseline \<or> \<not> ospf_full baseline \<or> route_metric baseline \<noteq> Some 30
      then (Inl (RuntimeError ''live baseline requires BFD up, OSPF Full, and service route metric 30''), s)
      else
        (case wait_for_ping_baseline baseline_lines mk_tracker of
           Inl e \<Rightarrow> (Inl e, s)
         | Inr tracker \<Rightarrow>
             (let now = clock ''started_at''
              in case create_convergence_run create repr address uuid_hex now
                   \<lparr>rq_profile = ''bfd_100x3'', rq_source = source, rq_target = target, rq_started_at = Some now\<rparr> s of
                   (Inl e, s1) \<Rightarrow> (client_error body ''POST /api/convergence-runs'' (Inl e), s1)
                 | (Inr rs, s1) \<Rightarrow>
                     (case record_event app repr body clock (rs_id rs) (transition ''blackhole_injected'' 0) s1 of
                        (Inl e, s2) \<Rightarrow> (Inl e, s2)
                      | (Inr _, s2) \<Rightarrow>
                          collect_polls (record_event app repr body clock (rs_id rs))
                            (completed_run get repr body (rs_id rs)) polls (mark_injected fault_ns tracker)
                            (mk_detector 140) [] s2))))"

section \<open>The collector and the store agree\<close>

text \<open>What the loop keeps: the run holds the fault and the first \<open>k\<close> stages, in order.\<close>

definition stages_recorded :: "nat \<Rightarrow> int \<Rightarrow> ConvergenceRun \<Rightarrow> bool" where
  "stages_recorded k offset_ms run =
     (run_profile run = ''bfd_100x3'' \<and> map ev_kind (run_events run) = take (Suc k) all_kinds \<and>
      ev_offset_ms (last (run_events run)) \<le> offset_ms)"

lemma stage_kinds: "stage_order = map kind_value (tl all_kinds)"
  by (simp add: stage_order_def all_kinds_def)

lemma all_kinds_distinct: "distinct all_kinds" "length all_kinds = 5"
  by (simp_all add: all_kinds_def)

lemma stage_kind: "k < 4 \<Longrightarrow> stage_order ! k = kind_value (all_kinds ! Suc k)"
  unfolding stage_kinds using all_kinds_distinct by (simp add: nth_tl)

text \<open>Sequence numbers of replies: a store column holds them.\<close>

definition small_replies :: "(nat option \<times> int) list \<Rightarrow> bool" where
  "small_replies lines = list_all (\<lambda>(reply, _). case reply of None \<Rightarrow> True | Some n \<Rightarrow> n < 2 ^ 63) lines"

lemma observe_reply_small:
  "observe_reply reply observed t = (Some d, t') \<Longrightarrow> reply = Some n \<Longrightarrow> n < 2 ^ 63 \<Longrightarrow>
   0 \<le> ping_sequence d \<and> ping_sequence d < 2 ^ 63"
  by (auto simp: observe_reply_def Let_def split: option.splits if_splits)

lemma drain_ping_small:
  "drain_ping lines r t = (Some d, t') \<Longrightarrow> small_replies lines \<Longrightarrow>
   (\<forall>x. r = Some x \<longrightarrow> 0 \<le> ping_sequence x \<and> ping_sequence x < 2 ^ 63) \<Longrightarrow>
   0 \<le> ping_sequence d \<and> ping_sequence d < 2 ^ 63"
proof (induction lines r t rule: drain_ping.induct)
  case (2 reply observed lines recovery t)
  obtain e t1 where o: "observe_reply reply observed t = (e, t1)" by fastforce
  have small: "small_replies lines" using 2(4) by (simp add: small_replies_def)
  show ?case
  proof (cases e)
    case None
    then show ?thesis using 2(1) [OF o [symmetric] None _ small 2(5)] 2(3) o by simp
  next
    case (Some x)
    then obtain n where "reply = Some n" using o by (cases reply) (auto simp: observe_reply_def)
    with 2(4) observe_reply_small [of reply observed t x t1 n] o Some
    have "0 \<le> ping_sequence x \<and> ping_sequence x < 2 ^ 63" by (simp add: small_replies_def)
    then show ?thesis using 2(2) [OF o [symmetric] Some _ small] 2(3) o Some by simp
  qed
qed auto

lemma observe_reply_keeps: "injected_ns (snd (observe_reply r observed t)) = injected_ns t"
  by (auto simp: observe_reply_def Let_def split: option.splits)

lemma drain_ping_keeps: "injected_ns (snd (drain_ping lines r t)) = injected_ns t"
proof (induction lines r t rule: drain_ping.induct)
  case (2 reply observed lines recovery t)
  show ?case
    using 2 observe_reply_keeps [of reply observed t]
    by (cases "observe_reply reply observed t" rule: prod.exhaust) (auto split: option.splits)
qed simp

lemma drain_ping_recovers:
  "injected_ns t = Some f \<Longrightarrow> r \<noteq> None \<or> (\<exists>(reply, observed) \<in> set lines. reply \<noteq> None \<and> f \<le> observed) \<Longrightarrow>
   fst (drain_ping lines r t) \<noteq> None"
proof (induction lines r t rule: drain_ping.induct)
  case (2 reply observed lines recovery t)
  obtain d t' where o: "observe_reply reply observed t = (d, t')" by fastforce
  have t': "injected_ns t' = Some f" using observe_reply_keeps [of reply observed t] o 2(3) by simp
  show ?case
  proof (cases d)
    case None
    then have "\<not> (reply \<noteq> None \<and> f \<le> observed)" using o 2(3) by (auto simp: observe_reply_def Let_def)
    then show ?thesis using 2(1) [OF o [symmetric] None t'] o None 2(4) by auto
  next
    case (Some x)
    then show ?thesis using 2(2) [OF o [symmetric] Some t'] o by auto
  qed
qed simp

text \<open>A poll that shows every stage at once.\<close>

definition decisive :: "int \<Rightarrow> Poll \<Rightarrow> bool" where
  "decisive fault_ns p =
     (\<not> poll_bfd_up p \<and> \<not> poll_ospf_full p \<and> poll_route_metric p = Some 140 \<and>
      list_ex (\<lambda>(reply, observed). reply \<noteq> None \<and> fault_ns \<le> observed) (poll_lines p))"

lemma decisive_candidates:
  assumes "decisive f p" "injected_ns t = Some f" "drain_ping (poll_lines p) None t = (recovery, t')"
  shows "takeWhile fst (drop k (transition_candidates 140 (poll_sample recovery p) offset_ms)) =
    drop k (transition_candidates 140 (poll_sample recovery p) offset_ms)"
proof -
  have "recovery \<noteq> None"
    using drain_ping_recovers [OF assms(2), of None "poll_lines p"] assms(1,3)
    by (auto simp: decisive_def list_ex_iff)
  then have "\<forall>c \<in> set (transition_candidates 140 (poll_sample recovery p) offset_ms). fst c"
    using assms(1) by (auto simp: transition_candidates_def poll_sample_def decisive_def)
  then show ?thesis by (auto simp: takeWhile_eq_all_conv dest: in_set_dropD)
qed

text \<open>The event a stage's request stands for, and that the run accepts it.\<close>

definition stage_event :: "LiveTransition \<Rightarrow> ConvergenceEventKind \<Rightarrow> datetime \<Rightarrow> ConvergenceEvent" where
  "stage_event t kind now =
     \<lparr>ev_kind = kind, ev_offset_ms = lt_offset_ms t, ev_observed_at = now,
      ev_route_metric = lt_route_metric t, ev_icmp_sequence = lt_icmp_sequence t\<rparr>"

lemma stage_request_ok:
  assumes "transition_ok 140 sample offset_ms t" "lt_event t = kind_value kind" "aware now"
    and "0 \<le> offset_ms" "offset_ms \<le> 60000" "\<forall>n. icmp_sequence sample = Some n \<longrightarrow> 0 \<le> n"
  shows "event_request_ok (event_request t now)" "event_ok (stage_event t kind now)"
proof -
  have "kind \<in> set all_kinds" by (cases kind) (simp_all add: all_kinds_def)
  then show "event_request_ok (event_request t now)"
    using assms by (auto simp: event_request_ok_def event_request_def aware_or_absent_def transition_ok_def)
  show "event_ok (stage_event t kind now)"
    using assms by (auto simp: event_ok_def stage_event_def transition_ok_def)
qed

lemma stage_accepted:
  assumes "stages_recorded k offset_ms run" "k < 4" "event_ok (stage_event t (all_kinds ! Suc k) now)"
    and "offset_ms \<le> lt_offset_ms t"
  shows "validate_event run (stage_event t (all_kinds ! Suc k) now) = Inr ()"
    and "stages_recorded (Suc k) (lt_offset_ms t) (add_event run (stage_event t (all_kinds ! Suc k) now))"
proof -
  have kinds: "map ev_kind (run_events run) = take (Suc k) all_kinds" using assms(1) by (simp add: stages_recorded_def)
  then have "run_events run \<noteq> []" using all_kinds_distinct by auto
  moreover have "all_kinds ! Suc k \<notin> set (take (Suc k) all_kinds)"
    using all_kinds_distinct assms(2) by (auto simp: in_set_conv_nth nth_eq_iff_index_eq)
  then have "all_kinds ! Suc k \<notin> ev_kind ` set (run_events run)" unfolding kinds [symmetric] by simp
  moreover have "all_kinds ! Suc k \<in> set all_kinds" using all_kinds_distinct assms(2) by simp
  ultimately show "validate_event run (stage_event t (all_kinds ! Suc k) now) = Inr ()"
    using assms by (auto simp: validate_event_Inr stages_recorded_def required_events_def stage_event_def)
  show "stages_recorded (Suc k) (lt_offset_ms t) (add_event run (stage_event t (all_kinds ! Suc k) now))"
    using assms(1,2) all_kinds_distinct by (simp add: stages_recorded_def stage_event_def take_Suc_conv_app_nth)
qed

text \<open>The state of the loop, for any store.\<close>

definition tracked ::
  "('s \<Rightarrow> bool) \<Rightarrow> ('s \<Rightarrow> ConvergenceRun list) \<Rightarrow> (string \<Rightarrow> 's \<Rightarrow> ConvergenceRun result) \<Rightarrow>
   string \<Rightarrow> nat \<Rightarrow> int \<Rightarrow> 's \<Rightarrow> bool" where
  "tracked ok runs_of get i k offset_ms s =
     (ok s \<and> all_timelines (runs_of s) \<and> (\<exists>run. get i s = Inr run \<and> stages_recorded k offset_ms run))"

definition clock_ok :: "(string \<Rightarrow> datetime) \<Rightarrow> bool" where
  "clock_ok clock = (\<forall>e. aware (clock e) \<and> valid_datetime (clock e))"

context convergence_repository
begin

lemma post_accepted:
  assumes "ok s" "all_timelines (runs_of s)" "get i s = Inr run" "clock_ok clock"
    and "lt_event t = kind_value kind" "event_request_ok (event_request t (clock (lt_event t)))"
    and seq: "int64_option (lt_icmp_sequence t)"
    and "validate_event run (stage_event t kind (clock (lt_event t))) = Inr ()"
  shows "\<exists>rs s'. record_event append repr body clock i t s = (Inr rs, s') \<and> ok s' \<and> all_timelines (runs_of s') \<and>
    get i s' = Inr (add_event run (stage_event t kind (clock (lt_event t))))"
proof -
  define now where "now = clock (lt_event t)"
  have tm: "aware now" "valid_datetime now" using assms(4) by (auto simp: clock_ok_def now_def)
  let ?e = "stage_event t kind now"
  have e: "representable ?e"
    using tm assms(6) seq by (auto simp: stage_event_def representable_def event_request_ok_def event_request_def
      int64_option_def int64_def split: option.splits)
  obtain s' where a: "append i ?e s = Inr (add_event run ?e, s')"
    using append_step(2) [OF assms(1) e assms(3)] assms(8) now_def by blast
  then have get: "get i s' = Inr (add_event run ?e)" using append_step(1) [OF assms(1) e a] by blast
  define x where "x = record_convergence_event append repr now i (event_request t now) s"
  have kind: "kind_of_value (rq_event (event_request t now)) = Inr kind"
    using assms(5) by (simp add: event_request_def)
  have x: "x = (caught repr None None (convergence_response (add_event run ?e)), s')"
    using assms(6) kind a
    by (simp add: x_def record_convergence_event_def now_def [symmetric] event_request_def stage_event_def default_time_def)
  have "all_timelines (runs_of s') \<and> ok s'"
    using recorded_handler [OF assms(1,2) tm(1), where q = "event_request t now" and i = i and repr = repr, OF _ _ x [unfolded x_def]]
      tm(2) seq by (simp add: event_request_def default_time_def)
  moreover have "timeline_ok (add_event run ?e)"
    using get get_stored calculation by (auto simp: all_timelines_def)
  then obtain rs where "convergence_response (add_event run ?e) = Inr rs" using convergence_response_total by blast
  ultimately show ?thesis
    using get x by (simp add: record_event_def now_def [symmetric] x_def [symmetric] client_error_def)
qed

lemma post_stages:
  assumes "tracked ok runs_of get i k lo s" "clock_ok clock" "map lt_event ts = take (length ts) (drop k stage_order)"
    and "\<forall>t \<in> set ts. transition_ok 140 sample offset_ms t" "lo \<le> offset_ms" "0 \<le> offset_ms" "offset_ms \<le> 60000"
    and "\<forall>n. icmp_sequence sample = Some n \<longrightarrow> 0 \<le> n \<and> n < 2 ^ 63"
  shows "\<exists>s'. post_transitions (record_event append repr body clock i) ts (take k stage_order) s =
      (Inr (take (k + length ts) stage_order), s') \<and> tracked ok runs_of get i (k + length ts) offset_ms s'"
  using assms(1,3,4,5)
proof (induction ts arbitrary: k lo s)
  case Nil
  then show ?case by (force simp: tracked_def stages_recorded_def)
next
  case (Cons t ts)
  have k: "k < 4"
  proof (rule ccontr)
    assume "\<not> k < 4"
    then have "drop k stage_order = []" by (simp add: stage_order_distinct)
    with Cons.prems(2) show False by simp
  qed
  then have split: "drop k stage_order = stage_order ! k # drop (Suc k) stage_order"
    by (simp add: Cons_nth_drop_Suc stage_order_distinct)
  then have t: "lt_event t = stage_order ! k" and ts: "map lt_event ts = take (length ts) (drop (Suc k) stage_order)"
    using Cons.prems(2) by auto
  note kind = t [unfolded stage_kind [OF k]]
  have tr: "transition_ok 140 sample offset_ms t" using Cons.prems(3) by simp
  have now: "aware (clock (lt_event t))" using assms(2) by (simp add: clock_ok_def)
  have off: "lt_offset_ms t = offset_ms" using tr by (simp add: transition_ok_def)
  have seq: "\<forall>n. icmp_sequence sample = Some n \<longrightarrow> 0 \<le> n" "int64_option (lt_icmp_sequence t)"
    using assms(8) tr by (auto simp: transition_ok_def int64_option_def int64_def split: option.splits)
  note req = stage_request_ok [OF tr kind now assms(6,7) seq(1)]
  obtain run where run: "ok s" "all_timelines (runs_of s)" "get i s = Inr run" "stages_recorded k lo run"
    using Cons.prems(1) by (auto simp: tracked_def)
  note acc = stage_accepted [OF run(4) k req(2)]
  obtain rs s' where s': "record_event append repr body clock i t s = (Inr rs, s')" "ok s'" "all_timelines (runs_of s')"
    "get i s' = Inr (add_event run (stage_event t (all_kinds ! Suc k) (clock (lt_event t))))"
    using post_accepted [OF run(1-3) assms(2) kind req(1) seq(2) acc(1)] Cons.prems(4) off by blast
  have "tracked ok runs_of get i (Suc k) offset_ms s'"
    using s'(2-4) acc(2) Cons.prems(4) off by (simp add: tracked_def)
  from Cons.IH [OF this ts] Cons.prems(3) s'(1) t k show ?case
    by (simp add: take_Suc_conv_app_nth stage_order_distinct)
qed

lemma finish_complete:
  assumes "tracked ok runs_of get i 4 lo s"
  shows "\<exists>rs. completed_run get repr body i s = Inr rs \<and> rs_id rs = i \<and> rs_status rs = ''complete''"
proof -
  obtain run where run: "ok s" "all_timelines (runs_of s)" "get i s = Inr run" "stages_recorded 4 lo run"
    using assms by (auto simp: tracked_def)
  then have "timeline_ok run" "run_id run = i" using get_stored [OF run(1)] by (auto simp: all_timelines_def)
  moreover have "run_status run = Inr ''complete''"
    using run(4) all_kinds_distinct by (simp add: run_status_def stages_recorded_def required_events_def flip: list.set_map)
  ultimately show ?thesis
    using run(3) by (simp add: completed_run_def client_error_def get_convergence_run_def convergence_response_def)
qed

lemma collect_stages:
  assumes "tracked ok runs_of get i k lo s" "clock_ok clock" "k < 4"
    and "recorded_events det = take k stage_order" "failover_metric det = 140"
    and "\<forall>p \<in> set polls. lo \<le> max 0 (poll_elapsed_ms p) \<and> poll_elapsed_ms p \<le> 60000 \<and> small_replies (poll_lines p)"
    and "sorted (map poll_elapsed_ms polls)"
  shows "\<exists>x k' lo' s'. collect_polls (record_event append repr body clock i) (completed_run get repr body i)
      polls tracker det (take k stage_order) s = (x, s') \<and>
    k' \<le> 4 \<and> tracked ok runs_of get i k' lo' s' \<and>
    (injected_ns tracker = Some f \<and> list_ex (decisive f) polls \<longrightarrow> k' = 4) \<and>
    (if k' = 4 then \<exists>rs. x = Inr rs \<and> rs_id rs = i \<and> rs_status rs = ''complete''
     else x = Inl (timed_out (take k' stage_order)))"
  using assms(1,3-7)
proof (induction polls arbitrary: k lo s det tracker)
  case Nil
  then show ?case by (intro exI [of _ "Inl (timed_out (take k stage_order))"] exI [of _ k] exI [of _ lo] exI [of _ s]) simp
next
  case (Cons p polls)
  obtain recovery tracker' where dr: "drain_ping (poll_lines p) None tracker = (recovery, tracker')" by fastforce
  define sample where "sample = poll_sample recovery p"
  define off where "off = max 0 (poll_elapsed_ms p)"
  define ts where "ts = map snd (takeWhile fst (drop k (transition_candidates (failover_metric det) sample off)))"
  note obs = observe_stages [OF Cons.prems(3), of sample off, folded ts_def]
  let ?det = "det\<lparr>recorded_events := take (k + length ts) stage_order\<rparr>"
  have oks: "\<forall>t \<in> set ts. transition_ok 140 sample off t"
    using observe_ok [OF Cons.prems(3) obs(1)] unfolding Cons.prems(4) by blast
  have seq: "\<forall>n. icmp_sequence sample = Some n \<longrightarrow> 0 \<le> n \<and> n < 2 ^ 63"
    using drain_ping_small [of "poll_lines p" None tracker] dr Cons.prems(5)
    unfolding sample_def poll_sample_def by (cases recovery) auto
  have offs: "lo \<le> off" "0 \<le> off" "off \<le> 60000" using Cons.prems(5) unfolding off_def by simp_all
  obtain s1 where s1: "post_transitions (record_event append repr body clock i) ts (take k stage_order) s =
      (Inr (take (k + length ts) stage_order), s1)" "tracked ok runs_of get i (k + length ts) off s1"
    using post_stages [OF Cons.prems(1) assms(2) obs(2) oks offs seq] by blast
  have "length ts \<le> length (drop k stage_order)" using obs(2) by (metis length_map length_take min.cobounded1)
  then have bound: "k + length ts \<le> 4" using Cons.prems(2) by (simp add: stage_order_distinct)
  have all: "set (take (k + length ts) stage_order) = set stage_order \<longleftrightarrow> k + length ts = 4"
  proof
    assume "set (take (k + length ts) stage_order) = set stage_order"
    then have "card (set (take (k + length ts) stage_order)) = 4"
      using stage_order_distinct by (simp add: distinct_card)
    then show "k + length ts = 4"
      using distinct_card [OF distinct_take [OF stage_order_distinct(1)], of "k + length ts"] bound
      by (simp add: stage_order_distinct)
  qed (simp add: stage_order_distinct)
  have dec: "k + length ts = 4" if "injected_ns tracker = Some f" "decisive f p"
  proof -
    have "length ts = length (drop k stage_order)"
      unfolding ts_def sample_def Cons.prems(4) decisive_candidates [OF that(2,1) dr]
      by (simp add: transition_candidates_def stage_order_def)
    then show ?thesis using Cons.prems(2) by (simp add: stage_order_distinct)
  qed
  have keep: "injected_ns tracker' = injected_ns tracker"
    using drain_ping_keeps [of "poll_lines p" None tracker] dr by simp
  have step: "collect_polls (record_event append repr body clock i) (completed_run get repr body i)
      (p # polls) tracker det (take k stage_order) s =
    (if k + length ts = 4 then (completed_run get repr body i s1, s1)
     else collect_polls (record_event append repr body clock i) (completed_run get repr body i)
       polls tracker' ?det (take (k + length ts) stage_order) s1)"
    using dr obs(1) s1(1) all by (simp add: sample_def off_def)
  show ?case
  proof (cases "k + length ts = 4")
    case True
    then have four: "tracked ok runs_of get i 4 off s1" using s1(2) by simp
    from finish_complete [OF this, of repr body] obtain rs where
      "completed_run get repr body i s1 = Inr rs" "rs_id rs = i" "rs_status rs = ''complete''" by blast
    with four show ?thesis unfolding step if_P [OF True]
      by (intro exI [of _ "Inr rs"] exI [of _ 4] exI [of _ off] exI [of _ s1]) simp
  next
    case False
    have "\<forall>p \<in> set polls. off \<le> max 0 (poll_elapsed_ms p) \<and> poll_elapsed_ms p \<le> 60000 \<and>
        small_replies (poll_lines p)"
      using Cons.prems(5,6) by (auto simp: off_def)
    note ih = Cons.IH [OF s1(2) _ _ _ this, of ?det tracker']
    have "(injected_ns tracker = Some f \<and> list_ex (decisive f) (p # polls) \<longrightarrow> k' = 4) =
        (injected_ns tracker' = Some f \<and> list_ex (decisive f) polls \<longrightarrow> k' = 4)" for k' :: nat
      using dec False keep by auto
    then show ?thesis unfolding step if_not_P [OF False]
      using ih False bound Cons.prems(4,6) by (simp only: list.map sorted_simps) simp
  qed
qed

text \<open>The whole collection, from the baseline to the verdict.\<close>

lemma collection:
  assumes "ok s" "fresh_run u (runs_of s)" "all_timelines (runs_of s)" "clock_ok clock"
    and "\<forall>t a. address t = Some a \<longrightarrow> a \<noteq> []" "source_text source" "address target \<noteq> None"
    and "bfd_up baseline" "ospf_full baseline" "route_metric baseline = Some 30"
    and "wait_for_ping_baseline lines mk_tracker = Inr tracker"
    and "\<forall>p \<in> set polls. poll_elapsed_ms p \<le> 60000 \<and> small_replies (poll_lines p)" "sorted (map poll_elapsed_ms polls)"
  shows "\<exists>x k lo s'. collect_live_convergence create append get repr body address clock u source target
      baseline lines fault_ns polls s = (x, s') \<and>
    k \<le> 4 \<and> tracked ok runs_of get (''run-'' @ u) k lo s' \<and>
    (list_ex (decisive fault_ns) polls \<longrightarrow> k = 4) \<and>
    (if k = 4 then \<exists>rs. x = Inr rs \<and> rs_id rs = ''run-'' @ u \<and> rs_status rs = ''complete''
     else x = Inl (timed_out (take k stage_order)))"
proof -
  define i where "i = ''run-'' @ u"
  define now where "now = clock ''started_at''"
  have now: "aware now" "valid_datetime now" using assms(4) by (auto simp: clock_ok_def now_def)
  let ?q = "\<lparr>rq_profile = ''bfd_100x3'', rq_source = source, rq_target = target, rq_started_at = Some now\<rparr>"
  have "run_request_ok address ?q"
    using assms(6,7) now(1) by (simp add: run_request_ok_def aware_or_absent_def)
  moreover have "valid_datetime (default_time (rq_started_at ?q) now)" using now by (simp add: default_time_def)
  moreover obtain y s1 where c: "create_convergence_run create repr address u now ?q s = (y, s1)" by fastforce
  ultimately obtain rs where rs: "y = Inr rs" "rs_id rs = i" "ok s1" "all_timelines (runs_of s1)"
    "get i s1 = Inr (mk_run u ''bfd_100x3'' source (the (address target)) now)"
    using created_handler [OF assms(1-3,5) now(1), of ?q, OF _ c] by (auto simp: default_time_def i_def)
  define run where "run = mk_run u ''bfd_100x3'' source (the (address target)) now"
  define t where "t = transition ''blackhole_injected'' 0"
  have run: "run_events run = []" "run_profile run = ''bfd_100x3''" by (simp_all add: run_def mk_run_def)
  have tt: "lt_event t = kind_value BLACKHOLE_INJECTED" "lt_offset_ms t = 0" "lt_route_metric t = None" "lt_icmp_sequence t = None"
    by (simp_all add: t_def transition_def)
  have tnow: "aware (clock (lt_event t))" using assms(4) by (simp add: clock_ok_def)
  have req: "event_request_ok (event_request t (clock (lt_event t)))"
    using tt tnow by (simp add: event_request_ok_def event_request_def aware_or_absent_def all_kinds_def)
  have "validate_event run (stage_event t BLACKHOLE_INJECTED (clock (lt_event t))) = Inr ()"
    using tt tnow run
    by (simp add: validate_event_Inr stage_event_def event_ok_def required_events_def all_kinds_def)
  from post_accepted [OF rs(3,4) rs(5) [folded run_def] assms(4) tt(1) req _ this, of repr body] tt(4) obtain rs' s2 where
    s2: "record_event append repr body clock i t s1 = (Inr rs', s2)" "ok s2" "all_timelines (runs_of s2)"
    "get i s2 = Inr (add_event run (stage_event t BLACKHOLE_INJECTED (clock (lt_event t))))"
    by (auto simp: int64_option_def)
  have "stages_recorded 0 0 (add_event run (stage_event t BLACKHOLE_INJECTED (clock (lt_event t))))"
    using run tt by (simp add: stages_recorded_def stage_event_def all_kinds_def)
  then have "tracked ok runs_of get i 0 0 s2" using s2 by (auto simp: tracked_def)
  moreover have "\<forall>p \<in> set polls. 0 \<le> max 0 (poll_elapsed_ms p) \<and> poll_elapsed_ms p \<le> 60000 \<and>
      small_replies (poll_lines p)"
    using assms(12) by simp
  ultimately obtain x k lo s' where
    "collect_polls (record_event append repr body clock i) (completed_run get repr body i) polls
      (mark_injected fault_ns tracker) (mk_detector 140) [] s2 = (x, s') \<and>
    k \<le> 4 \<and> tracked ok runs_of get i k lo s' \<and>
    (list_ex (decisive fault_ns) polls \<longrightarrow> k = 4) \<and>
    (if k = 4 then \<exists>rs. x = Inr rs \<and> rs_id rs = i \<and> rs_status rs = ''complete''
     else x = Inl (timed_out (take k stage_order)))"
    using collect_stages [where f = fault_ns, of i 0 0 s2 clock "mk_detector 140" polls repr body "mark_injected fault_ns tracker",
        OF _ assms(4) _ _ _ _ assms(13)]
    by (auto simp: mk_detector_def mark_injected_def)
  moreover have "collect_live_convergence create append get repr body address clock u source target
      baseline lines fault_ns polls s =
    collect_polls (record_event append repr body clock i) (completed_run get repr body i) polls
      (mark_injected fault_ns tracker) (mk_detector 140) [] s2"
    using assms(8-11) c rs(1,2) s2(1)
    by (simp add: collect_live_convergence_def Let_def now_def [symmetric] t_def [symmetric])
  ultimately show ?thesis unfolding i_def by metis
qed

end

section \<open>Properties\<close>

text \<open>
  C5: The live collector and the convergence API never disagree. From a healthy baseline with
  a ping baseline, with polls in time order within a minute of the fault (the API refuses later
  offsets, though the program's \<open>--timeout\<close> has no upper limit) and reply numbers an SQLite
  column holds, every document the collector posts is accepted: it returns the complete run, or times out naming exactly the
  stages it has not seen; either way the stored run holds the fault and the first \<open>k\<close>
  stages in order, with a valid timeline, and one poll that shows all stages is enough to
  complete it.
\<close>

theorem collector_outcome:
  assumes "sq_ok s" "fresh_run u (sq_view s)" "all_timelines (sq_view s)" "clock_ok clock"
    and "\<forall>t a. address t = Some a \<longrightarrow> a \<noteq> []" "source_text source" "address target \<noteq> None"
    and "bfd_up baseline" "ospf_full baseline" "route_metric baseline = Some 30"
    and "wait_for_ping_baseline lines mk_tracker = Inr tracker"
    and "\<forall>p \<in> set polls. poll_elapsed_ms p \<le> 60000 \<and> small_replies (poll_lines p)" "sorted (map poll_elapsed_ms polls)"
  shows "\<exists>x k run s'. collect_live_convergence sq_create_run sq_append_event sq_load repr body address clock u
      source target baseline lines fault_ns polls s = (x, s') \<and>
    sq_load (''run-'' @ u) s' = Inr run \<and> timeline_ok run \<and> map ev_kind (run_events run) = take (Suc k) all_kinds \<and>
    k \<le> 4 \<and> (k = 4 \<or> \<not> list_ex (decisive fault_ns) polls) \<and>
    (if k = 4 then \<exists>rs. x = Inr rs \<and> rs_id rs = ''run-'' @ u \<and> rs_status rs = ''complete''
     else x = Inl (timed_out (take k stage_order)))"
proof -
  obtain x k lo s' where r: "collect_live_convergence sq_create_run sq_append_event sq_load repr body address clock u
      source target baseline lines fault_ns polls s = (x, s')"
    "k \<le> 4" "tracked sq_ok sq_view sq_load (''run-'' @ u) k lo s'"
    "list_ex (decisive fault_ns) polls \<longrightarrow> k = 4"
    "if k = 4 then \<exists>rs. x = Inr rs \<and> rs_id rs = ''run-'' @ u \<and> rs_status rs = ''complete''
     else x = Inl (timed_out (take k stage_order))"
    using sqlite_runs.collection [OF assms] by blast
  then obtain run where run: "sq_ok s'" "all_timelines (sq_view s')" "sq_load (''run-'' @ u) s' = Inr run"
    "stages_recorded k lo run" by (auto simp: tracked_def)
  then have "timeline_ok run" using sqlite_runs.get_stored [OF run(1)] by (auto simp: all_timelines_def)
  then show ?thesis using r(1,2,4,5) run(3,4) unfolding stages_recorded_def by blast
qed

definition lab_sample :: LiveSample where
  "lab_sample = \<lparr>bfd_up = True, ospf_full = True, route_metric = Some 30, icmp_sequence = None\<rparr>"

definition lab_poll :: Poll where
  "lab_poll = \<lparr>poll_lines = [(Some 8, 1500)], poll_bfd_up = False, poll_ospf_full = False,
     poll_route_metric = Some 140, poll_elapsed_ms = 412\<rparr>"

theorem collector_outcome_witness:
  "\<exists>q x run s'. sq_open 2 sq_empty = Inr q \<and>
    collect_live_convergence sq_create_run sq_append_event sq_load id snd
      (\<lambda>t. if t = [] then None else Some t) (\<lambda>_. lab_instant) ''a''
      ''access1'' ''10.20.0.10'' lab_sample [[(Some 7, 500)]] 1000 [lab_poll] q = (x, s') \<and>
    sq_load ''run-a'' s' = Inr run \<and> map ev_kind (run_events run) = all_kinds \<and>
    (\<exists>rs. x = Inr rs \<and> rs_status rs = ''complete'')"
proof -
  have q: "sq_open 2 sq_empty = Inr (sq_prune (sq_empty\<lparr>sq_capacity := 2\<rparr>))" (is "_ = Inr ?q")
    by (simp add: sq_open_def sq_bind_def int64_option_def int64_def)
  note ok = sq_fresh [OF q]
  let ?addr = "\<lambda>t. if t = [] then None else Some t :: string option"
  have clock: "clock_ok (\<lambda>_. lab_instant)"
    by (simp add: clock_ok_def valid_datetime_def lab_instant_def aware_def)
  have ping: "wait_for_ping_baseline [[(Some 7, 500)]] mk_tracker = Inr \<lparr>last_sequence = Some 7, injected_ns = None\<rparr>"
    by (simp add: mk_tracker_def observe_reply_def)
  have dec: "list_ex (decisive 1000) [lab_poll]" by (simp add: decisive_def lab_poll_def)
  have "\<exists>x k run s'. collect_live_convergence sq_create_run sq_append_event sq_load id snd ?addr (\<lambda>_. lab_instant) ''a''
      ''access1'' ''10.20.0.10'' lab_sample [[(Some 7, 500)]] 1000 [lab_poll] ?q = (x, s') \<and>
    sq_load (''run-'' @ ''a'') s' = Inr run \<and> timeline_ok run \<and> map ev_kind (run_events run) = take (Suc k) all_kinds \<and>
    k \<le> 4 \<and> (k = 4 \<or> \<not> list_ex (decisive 1000) [lab_poll]) \<and>
    (if k = 4 then \<exists>rs. x = Inr rs \<and> rs_id rs = ''run-'' @ ''a'' \<and> rs_status rs = ''complete''
     else x = Inl (timed_out (take k stage_order)))"
    by (rule collector_outcome [OF _ _ _ clock _ _ _ _ _ _ ping])
      (use ok in \<open>simp_all add: fresh_run_def all_timelines_def source_text_def ident_char_def is_lower_def
         is_digit_def lab_sample_def lab_poll_def less_eq_char_def small_replies_def\<close>)
  then show ?thesis using q dec all_kinds_distinct by fastforce
qed

end
