(* ===== verification/Py_Calendar.thy ===== *)
theory Py_Calendar
  imports Py_Datetime
begin

text \<open>
  Calendar arithmetic on \<open>datetime\<close>: adding less than a day of seconds, and conversion to
  UTC (\<open>astimezone(timezone.utc)\<close>). An offset is smaller than a day, so the date moves by
  at most one day; leaving the years 1 to 9999 is an \<open>OverflowError\<close>.
\<close>

definition leap_year :: "nat \<Rightarrow> bool" where
  "leap_year y = (y mod 4 = 0 \<and> (y mod 100 \<noteq> 0 \<or> y mod 400 = 0))"

definition days_in_month :: "nat \<Rightarrow> nat \<Rightarrow> nat" where
  "days_in_month y m =
     (if m = 2 then (if leap_year y then 29 else 28)
      else if m = 4 \<or> m = 6 \<or> m = 9 \<or> m = 11 then 30 else 31)"

definition civil_datetime :: "datetime \<Rightarrow> bool" where
  "civil_datetime d = (valid_datetime d \<and> dt_day d \<le> days_in_month (dt_year d) (dt_month d))"

type_synonym date = "nat \<times> nat \<times> nat"

fun next_day :: "date \<Rightarrow> date" where
  "next_day (y, m, d) =
     (if d < days_in_month y m then (y, m, d + 1)
      else if m < 12 then (y, m + 1, 1)
      else (y + 1, 1, 1))"

fun prev_day :: "date \<Rightarrow> date" where
  "prev_day (y, m, d) =
     (if 1 < d then (y, m, d - 1)
      else if 1 < m then (y, m - 1, days_in_month y (m - 1))
      else (y - 1, 12, 31))"

text \<open>The date \<open>k\<close> days later, for \<open>k\<close> in -1, 0, 1; it may leave the calendar.\<close>

definition shift_date :: "int \<Rightarrow> date \<Rightarrow> date" where
  "shift_date k d = (if k < 0 then prev_day d else if 0 < k then next_day d else d)"

definition date_ok :: "date \<Rightarrow> bool" where
  "date_ok t = (case t of (y, m, d) \<Rightarrow>
     1 \<le> y \<and> y \<le> 9999 \<and> 1 \<le> m \<and> m \<le> 12 \<and> 1 \<le> d \<and> d \<le> days_in_month y m)"

definition seconds_of_day :: "datetime \<Rightarrow> int" where
  "seconds_of_day d = int (dt_hour d * 3600 + dt_minute d * 60 + dt_second d)"

text \<open>The instant \<open>k\<close> seconds later (less than a day), in UTC.\<close>

definition shift_utc :: "int \<Rightarrow> datetime \<Rightarrow> datetime result" where
  "shift_utc k d =
     (let total = seconds_of_day d + k; rest = nat (total mod 86400)
      in case shift_date (total div 86400) (dt_year d, dt_month d, dt_day d) of
           (y, m, da) \<Rightarrow>
             if 1 \<le> y \<and> y \<le> 9999
             then Inr \<lparr>dt_year = y, dt_month = m, dt_day = da, dt_hour = rest div 3600,
                dt_minute = rest div 60 mod 60, dt_second = rest mod 60,
                dt_microsecond = dt_microsecond d, dt_offset = Some 0\<rparr>
             else Inl (OverflowError ''date value out of range''))"

text \<open>\<open>astimezone(timezone.utc)\<close> of an aware value.\<close>

definition to_utc :: "datetime \<Rightarrow> datetime result" where
  "to_utc d =
     (case dt_offset d of
        None \<Rightarrow> Inl (ValueError ''naive datetime'')
      | Some z \<Rightarrow> if z = 0 then Inr d else shift_utc (- z) d)"

lemma days_in_month_bounds: "28 \<le> days_in_month y m" "days_in_month y m \<le> 31"
  by (simp_all add: days_in_month_def)

lemma next_day_ok:
  assumes "date_ok t"
  shows "date_ok (next_day t) \<or> fst (next_day t) = 10000"
proof (cases t)
  case (fields y m d)
  have "1 \<le> days_in_month y n" for n using days_in_month_bounds(1) [of y n] by simp
  moreover have "days_in_month z 1 = 31" for z by (simp add: days_in_month_def)
  ultimately show ?thesis using assms unfolding fields by (auto simp: date_ok_def)
qed

lemma prev_day_ok:
  assumes "date_ok t"
  shows "date_ok (prev_day t) \<or> fst (prev_day t) = 0"
proof (cases t)
  case (fields y m d)
  have "1 \<le> days_in_month y n" for n using days_in_month_bounds(1) [of y n] by simp
  moreover have "days_in_month z 12 = 31" for z by (simp add: days_in_month_def)
  ultimately show ?thesis using assms unfolding fields by (auto simp: date_ok_def)
qed

lemma shift_date_ok: "date_ok t \<Longrightarrow> 1 \<le> fst (shift_date k t) \<Longrightarrow> fst (shift_date k t) \<le> 9999 \<Longrightarrow> date_ok (shift_date k t)"
  using next_day_ok [of t] prev_day_ok [of t] by (auto simp: shift_date_def split: if_splits)

lemma shift_utc_ok:
  assumes "civil_datetime d" "shift_utc k d = Inr e"
  shows "civil_datetime e \<and> is_utc e"
proof -
  obtain y m da where t: "shift_date ((seconds_of_day d + k) div 86400) (dt_year d, dt_month d, dt_day d) = (y, m, da)"
    using prod_cases3 by blast
  have "date_ok (dt_year d, dt_month d, dt_day d)"
    using assms(1) by (simp add: civil_datetime_def valid_datetime_def date_ok_def)
  note shifted = shift_date_ok [OF this, of "(seconds_of_day d + k) div 86400"]
  define rest where "rest = nat ((seconds_of_day d + k) mod 86400)"
  have y: "1 \<le> y \<and> y \<le> 9999"
    and e: "e = \<lparr>dt_year = y, dt_month = m, dt_day = da, dt_hour = rest div 3600,
      dt_minute = rest div 60 mod 60, dt_second = rest mod 60, dt_microsecond = dt_microsecond d, dt_offset = Some 0\<rparr>"
    using assms(2) t unfolding shift_utc_def Let_def rest_def [symmetric] by (simp_all split: if_splits)
  have ok: "date_ok (y, m, da)" using shifted t y by simp
  have "rest < 86400" by (simp add: rest_def)
  then have "rest div 3600 < 24" by (simp add: less_mult_imp_div_less)
  moreover have "dt_microsecond d < 1000000" using assms(1) by (simp add: civil_datetime_def valid_datetime_def)
  moreover have "da \<le> 31" using ok days_in_month_bounds(2) [of y m] by (simp add: date_ok_def)
  ultimately show ?thesis
    using ok unfolding e by (simp add: civil_datetime_def valid_datetime_def is_utc_def date_ok_def)
qed

lemma to_utc_ok: "civil_datetime d \<Longrightarrow> to_utc d = Inr e \<Longrightarrow> civil_datetime e \<and> is_utc e"
  using shift_utc_ok [of d _ e] by (auto simp: to_utc_def is_utc_def split: option.splits if_splits)

lemma to_utc_utc [simp]: "is_utc d \<Longrightarrow> to_utc d = Inr d"
  by (simp add: to_utc_def is_utc_def)

end
