(* ===== verification/Telemetry_Models.thy ===== *)
theory Telemetry_Models
  imports Py_Calendar Ip_Address
begin

text \<open>
  \<open>telemetry_models.py\<close>: the typed snapshot of the six baseline routers and its pydantic
  validators. A model's constructor is its \<open>validate_\<close> function, returning the value or the
  first error; a nested model is validated before the one that holds it. The snapshot's
  time is stored in UTC.
\<close>

datatype TelemetryState = UP | DOWN | UNKNOWN

definition BASELINE_ROUTERS :: "string list" where
  "BASELINE_ROUTERS = [''access1'', ''access2'', ''agg1'', ''agg2'', ''core1'', ''core2'']"

text \<open>\<open>^[A-Za-z0-9][A-Za-z0-9_.:-]{0,n}$\<close> with \<open>n\<close> 63 (snapshots) or 127 (configuration)\<close>

definition alnum_char :: "char \<Rightarrow> bool" where
  "alnum_char c = (is_lower c \<or> is_upper c \<or> is_digit c)"

definition name_char :: "char \<Rightarrow> bool" where
  "name_char c = (alnum_char c \<or> c \<in> set ''_.:-'')"

definition telemetry_identifier :: "string \<Rightarrow> bool" where
  "telemetry_identifier s = matches alnum_char name_char 63 s"

definition config_identifier :: "string \<Rightarrow> bool" where
  "config_identifier s = matches alnum_char name_char 127 s"

definition counter :: "int \<Rightarrow> bool" where
  "counter n = (0 \<le> n \<and> n \<le> 2 ^ 64 - 1)"

lemma telemetry_identifier_config: "telemetry_identifier s \<Longrightarrow> config_identifier s"
  by (auto simp: telemetry_identifier_def config_identifier_def matches_def split: list.splits)

record InterfaceTelemetry =
  it_name :: string
  it_state :: TelemetryState
  it_rx_bytes :: int
  it_tx_bytes :: int
  it_rx_drops :: int
  it_tx_drops :: int

record OspfNeighborTelemetry =
  on_neighbor :: string
  on_interface :: string
  on_state :: TelemetryState

record BfdPeerTelemetry =
  bp_peer :: string
  bp_interface :: string
  bp_configured :: bool
  bp_state :: TelemetryState

record RouteTelemetry =
  rt_prefix :: string
  rt_present :: bool
  rt_metric :: "int option"
  rt_egress_interface :: "string option"

record RouterTelemetry =
  router_name :: string
  collection_success :: bool
  router_state :: TelemetryState
  collection_error :: "string option"
  interfaces :: "InterfaceTelemetry list"
  ospf_neighbors :: "OspfNeighborTelemetry list"
  bfd_peers :: "BfdPeerTelemetry list"
  routes :: "RouteTelemetry list"

record TelemetrySnapshot =
  snapshot_id :: string
  snapshot_observed_at :: datetime
  topology_fp :: string
  snapshot_routers :: "RouterTelemetry list"

section \<open>Validators\<close>

definition is_some_and :: "('a \<Rightarrow> bool) \<Rightarrow> 'a option \<Rightarrow> bool" where
  "is_some_and P v = (case v of None \<Rightarrow> True | Some x \<Rightarrow> P x)"

definition validate_interface :: "InterfaceTelemetry \<Rightarrow> InterfaceTelemetry result" where
  "validate_interface i =
     rbind (ensure (telemetry_identifier (it_name i)) ''name: string should match pattern'') (\<lambda>_.
     rbind (ensure (list_all counter [it_rx_bytes i, it_tx_bytes i, it_rx_drops i, it_tx_drops i])
       ''counter out of range'') (\<lambda>_.
       Inr i))"

definition validate_ospf_neighbor :: "OspfNeighborTelemetry \<Rightarrow> OspfNeighborTelemetry result" where
  "validate_ospf_neighbor n =
     rbind (ensure (telemetry_identifier (on_neighbor n) \<and> telemetry_identifier (on_interface n))
       ''string should match pattern'') (\<lambda>_.
       Inr n)"

definition validate_bfd_peer :: "BfdPeerTelemetry \<Rightarrow> BfdPeerTelemetry result" where
  "validate_bfd_peer p =
     rbind (ensure (telemetry_identifier (bp_peer p) \<and> telemetry_identifier (bp_interface p))
       ''string should match pattern'') (\<lambda>_.
     rbind (ensure (\<not> (\<not> bp_configured p \<and> bp_state p \<noteq> UNKNOWN))
       ''unconfigured BFD peer state must be unknown'') (\<lambda>_.
       Inr p))"

definition validate_route :: "RouteTelemetry \<Rightarrow> RouteTelemetry result" where
  "validate_route r =
     rbind (ensure (3 \<le> length (rt_prefix r) \<and> length (rt_prefix r) \<le> 64) ''prefix: string length'') (\<lambda>_.
     rbind (ensure (canonical_prefix (rt_prefix r)) (''invalid canonical route prefix: '' @ rt_prefix r)) (\<lambda>_.
     rbind (ensure (is_some_and counter (rt_metric r) \<and> is_some_and telemetry_identifier (rt_egress_interface r))
       ''route field out of range'') (\<lambda>_.
     rbind (ensure (\<not> (rt_present r \<and> (rt_metric r = None \<or> rt_egress_interface r = None)))
       ''present route requires metric and egress_interface'') (\<lambda>_.
     rbind (ensure (\<not> (\<not> rt_present r \<and> (rt_metric r \<noteq> None \<or> rt_egress_interface r \<noteq> None)))
       ''absent route cannot define metric or egress_interface'') (\<lambda>_.
       Inr r)))))"

definition single_line :: "string \<Rightarrow> bool" where
  "single_line e = (1 \<le> length e \<and> length e \<le> 256 \<and> newline \<notin> set e \<and> CHR 0x0D \<notin> set e)"

definition validate_observation :: "RouterTelemetry \<Rightarrow> unit result" where
  "validate_observation r =
     (if collection_success r then
        rbind (ensure (collection_error r = None) ''successful collection cannot include collection_error'') (\<lambda>_.
          ensure (router_state r = UP) ''successful collection requires up state'')
      else
        rbind (ensure (router_state r = UNKNOWN \<and> collection_error r \<noteq> None)
          ''failed collection requires unknown state and collection_error'') (\<lambda>_.
          ensure (interfaces r = [] \<and> ospf_neighbors r = [] \<and> bfd_peers r = [] \<and> routes r = [])
            ''failed collection cannot include partial observations''))"

definition interface_references :: "RouterTelemetry \<Rightarrow> string list" where
  "interface_references r =
     map on_interface (ospf_neighbors r) @ map bp_interface (bfd_peers r) @
     List.map_filter rt_egress_interface (routes r)"

definition validate_router :: "RouterTelemetry \<Rightarrow> RouterTelemetry result" where
  "validate_router r =
     rbind (ensure (telemetry_identifier (router_name r)) ''name: string should match pattern'') (\<lambda>_.
     rbind (ensure (is_some_and single_line (collection_error r))
       ''collection_error must be a bounded single-line value'') (\<lambda>_.
     rbind (each (\<lambda>i. rbind (validate_interface i) (\<lambda>_. Inr ())) (interfaces r)) (\<lambda>_.
     rbind (each (\<lambda>n. rbind (validate_ospf_neighbor n) (\<lambda>_. Inr ())) (ospf_neighbors r)) (\<lambda>_.
     rbind (each (\<lambda>p. rbind (validate_bfd_peer p) (\<lambda>_. Inr ())) (bfd_peers r)) (\<lambda>_.
     rbind (each (\<lambda>t. rbind (validate_route t) (\<lambda>_. Inr ())) (routes r)) (\<lambda>_.
     rbind (ensure (length (interfaces r) \<le> 64 \<and> length (ospf_neighbors r) \<le> 128 \<and>
       length (bfd_peers r) \<le> 128 \<and> length (routes r) \<le> 256) ''tuple should have fewer items'') (\<lambda>_.
     rbind (validate_observation r) (\<lambda>_.
     rbind (ensure (distinct (map it_name (interfaces r))) ''router interfaces must be unique'') (\<lambda>_.
     rbind (ensure (distinct (map (\<lambda>n. (on_neighbor n, on_interface n)) (ospf_neighbors r)))
       ''OSPF neighbors must be unique'') (\<lambda>_.
     rbind (ensure (distinct (map (\<lambda>p. (bp_peer p, bp_interface p)) (bfd_peers r)))
       ''BFD peers must be unique'') (\<lambda>_.
     rbind (ensure (distinct (map rt_prefix (routes r))) ''router routes must be unique'') (\<lambda>_.
       let unknown = sort (remdups (filter (\<lambda>i. i \<notin> set (map it_name (interfaces r))) (interface_references r)))
       in rbind (ensure (unknown = []) (''observation references unknown interface: '' @ join '', '' unknown)) (\<lambda>_.
         Inr r)))))))))))))"

text \<open>
  The \<open>ValueError\<close>s of all fields are collected into one, but an \<open>OverflowError\<close> of
  \<open>astimezone\<close> leaves the validation at once, whatever else is wrong: the time comes first.
\<close>

definition validate_snapshot :: "TelemetrySnapshot \<Rightarrow> TelemetrySnapshot result" where
  "validate_snapshot s =
     rbind (ensure (aware (snapshot_observed_at s)) ''telemetry observed_at must be timezone-aware'') (\<lambda>_.
     rbind (to_utc (snapshot_observed_at s)) (\<lambda>observed_at.
     rbind (ensure (telemetry_identifier (snapshot_id s)) ''snapshot_id: string should match pattern'') (\<lambda>_.
     rbind (ensure (hex_of_length 64 (topology_fp s)) ''topology_fingerprint: string should match pattern'') (\<lambda>_.
     rbind (each (\<lambda>r. rbind (validate_router r) (\<lambda>_. Inr ())) (snapshot_routers s)) (\<lambda>_.
     rbind (ensure (distinct (map router_name (snapshot_routers s))) ''telemetry snapshot routers must be unique'') (\<lambda>_.
     rbind (ensure (set (map router_name (snapshot_routers s)) = set BASELINE_ROUTERS)
       ''telemetry snapshot must contain exactly the six baseline routers'') (\<lambda>_.
       Inr (s\<lparr>snapshot_observed_at := observed_at\<rparr>))))))))"

section \<open>What validation establishes\<close>

definition interface_ok :: "InterfaceTelemetry \<Rightarrow> bool" where
  "interface_ok i =
     (telemetry_identifier (it_name i) \<and> counter (it_rx_bytes i) \<and> counter (it_tx_bytes i) \<and>
      counter (it_rx_drops i) \<and> counter (it_tx_drops i))"

definition neighbor_ok :: "OspfNeighborTelemetry \<Rightarrow> bool" where
  "neighbor_ok n = (telemetry_identifier (on_neighbor n) \<and> telemetry_identifier (on_interface n))"

definition peer_ok :: "BfdPeerTelemetry \<Rightarrow> bool" where
  "peer_ok p =
     (telemetry_identifier (bp_peer p) \<and> telemetry_identifier (bp_interface p) \<and>
      (bp_configured p \<or> bp_state p = UNKNOWN))"

definition route_ok :: "RouteTelemetry \<Rightarrow> bool" where
  "route_ok r =
     (3 \<le> length (rt_prefix r) \<and> length (rt_prefix r) \<le> 64 \<and> canonical_prefix (rt_prefix r) \<and>
      (if rt_present r
       then \<exists>m i. rt_metric r = Some m \<and> counter m \<and> rt_egress_interface r = Some i \<and> telemetry_identifier i
       else rt_metric r = None \<and> rt_egress_interface r = None))"

definition router_ok :: "RouterTelemetry \<Rightarrow> bool" where
  "router_ok r =
     (telemetry_identifier (router_name r) \<and>
      list_all interface_ok (interfaces r) \<and> list_all neighbor_ok (ospf_neighbors r) \<and>
      list_all peer_ok (bfd_peers r) \<and> list_all route_ok (routes r) \<and>
      length (interfaces r) \<le> 64 \<and> length (ospf_neighbors r) \<le> 128 \<and>
      length (bfd_peers r) \<le> 128 \<and> length (routes r) \<le> 256 \<and>
      (if collection_success r then collection_error r = None \<and> router_state r = UP
       else router_state r = UNKNOWN \<and> (\<exists>e. collection_error r = Some e \<and> single_line e) \<and>
         interfaces r = [] \<and> ospf_neighbors r = [] \<and> bfd_peers r = [] \<and> routes r = []) \<and>
      distinct (map it_name (interfaces r)) \<and>
      distinct (map (\<lambda>n. (on_neighbor n, on_interface n)) (ospf_neighbors r)) \<and>
      distinct (map (\<lambda>p. (bp_peer p, bp_interface p)) (bfd_peers r)) \<and>
      distinct (map rt_prefix (routes r)) \<and>
      set (interface_references r) \<subseteq> it_name ` set (interfaces r))"

definition snapshot_ok :: "TelemetrySnapshot \<Rightarrow> bool" where
  "snapshot_ok s =
     (telemetry_identifier (snapshot_id s) \<and> civil_datetime (snapshot_observed_at s) \<and>
      is_utc (snapshot_observed_at s) \<and> hex_of_length 64 (topology_fp s) \<and>
      list_all router_ok (snapshot_routers s) \<and> distinct (map router_name (snapshot_routers s)) \<and>
      set (map router_name (snapshot_routers s)) = set BASELINE_ROUTERS)"

lemma validate_interface_Inr: "validate_interface i = Inr j \<longleftrightarrow> j = i \<and> interface_ok i"
  by (auto simp: validate_interface_def interface_ok_def rbind_eq_Inr)

lemma validate_ospf_neighbor_Inr: "validate_ospf_neighbor n = Inr m \<longleftrightarrow> m = n \<and> neighbor_ok n"
  by (auto simp: validate_ospf_neighbor_def neighbor_ok_def rbind_eq_Inr)

lemma validate_bfd_peer_Inr: "validate_bfd_peer p = Inr q \<longleftrightarrow> q = p \<and> peer_ok p"
  by (auto simp: validate_bfd_peer_def peer_ok_def rbind_eq_Inr)

lemma validate_route_Inr: "validate_route r = Inr q \<longleftrightarrow> q = r \<and> route_ok r"
  by (auto simp: validate_route_def route_ok_def rbind_eq_Inr is_some_and_def split: option.splits)

lemma each_validated:
  "(\<And>x y. f x = Inr y \<longleftrightarrow> y = x \<and> P x) \<Longrightarrow> each (\<lambda>x. rbind (f x) (\<lambda>_. Inr ())) xs = Inr u \<longleftrightarrow> list_all P xs"
  by (auto simp: each_eq_Inr rbind_eq_Inr list_all_iff)

lemmas each_validated_simps =
  each_validated [of validate_interface, OF validate_interface_Inr]
  each_validated [of validate_ospf_neighbor, OF validate_ospf_neighbor_Inr]
  each_validated [of validate_bfd_peer, OF validate_bfd_peer_Inr]
  each_validated [of validate_route, OF validate_route_Inr]

lemma validate_observation_Inr:
  "validate_observation r = Inr u \<longleftrightarrow>
   (if collection_success r then collection_error r = None \<and> router_state r = UP
    else router_state r = UNKNOWN \<and> collection_error r \<noteq> None \<and>
      interfaces r = [] \<and> ospf_neighbors r = [] \<and> bfd_peers r = [] \<and> routes r = [])"
  by (auto simp: validate_observation_def rbind_eq_Inr)

lemma sort_remdups_filter_Nil: "sort (remdups (filter P xs)) = [] \<longleftrightarrow> (\<forall>x \<in> set xs. \<not> P x)"
  by (metis empty_filter_conv set_empty set_sort_remdups)

lemma validate_router_Inr: "validate_router r = Inr q \<longleftrightarrow> q = r \<and> router_ok r"
proof -
  have refs: "sort (remdups (filter (\<lambda>i. i \<notin> set (map it_name (interfaces r))) (interface_references r))) = [] \<longleftrightarrow>
      set (interface_references r) \<subseteq> it_name ` set (interfaces r)"
    unfolding sort_remdups_filter_Nil by auto
  show ?thesis
    unfolding validate_router_def router_ok_def Let_def rbind_eq_Inr ensure_simps each_validated_simps
      validate_observation_Inr refs
    by (cases "collection_success r"; cases "collection_error r") (auto simp: is_some_and_def)
qed

lemma validate_snapshot_Inr:
  assumes "civil_datetime (snapshot_observed_at s)" "validate_snapshot s = Inr t"
  shows "snapshot_ok t"
    and "\<exists>u. to_utc (snapshot_observed_at s) = Inr u \<and> t = s\<lparr>snapshot_observed_at := u\<rparr>"
proof -
  from assms(2) obtain u where u: "to_utc (snapshot_observed_at s) = Inr u" "t = s\<lparr>snapshot_observed_at := u\<rparr>"
    and rest: "telemetry_identifier (snapshot_id s)" "hex_of_length 64 (topology_fp s)"
      "list_all router_ok (snapshot_routers s)" "distinct (map router_name (snapshot_routers s))"
      "set (map router_name (snapshot_routers s)) = set BASELINE_ROUTERS"
    unfolding validate_snapshot_def rbind_eq_Inr ensure_simps each_validated [of validate_router, OF validate_router_Inr]
    by auto
  show "\<exists>u. to_utc (snapshot_observed_at s) = Inr u \<and> t = s\<lparr>snapshot_observed_at := u\<rparr>" using u by blast
  show "snapshot_ok t" using rest to_utc_ok [OF assms(1) u(1)] unfolding u(2) snapshot_ok_def by simp
qed

lemma validate_snapshot_fixed:
  assumes "snapshot_ok s"
  shows "validate_snapshot s = Inr s"
proof -
  have "each (\<lambda>r. rbind (validate_router r) (\<lambda>_. Inr ())) (snapshot_routers s) = Inr ()"
    using assms each_validated [of validate_router, OF validate_router_Inr] by (simp add: snapshot_ok_def)
  then show ?thesis
    using assms unfolding validate_snapshot_def snapshot_ok_def by (simp add: is_utc_def aware_def to_utc_def)
qed

end
