(* ===== verification/Telemetry_Repository.thy ===== *)
theory Telemetry_Repository
  imports Telemetry_Models
begin

text \<open>
  The repository protocol of \<open>telemetry_store.py\<close>: an abstract store is the list of the
  retained snapshots from newest to oldest. \<open>telemetry_repository\<close> is the interface of a
  store that refines it; inside it is proved what every store guarantees, above all that it
  retains the newest snapshots whatever the order in which they arrive.
\<close>

type_synonym snapshot_order = "nat list \<times> string"

text \<open>\<open>_sort_key\<close>; UTC values are compared field by field.\<close>

definition snapshot_key :: "TelemetrySnapshot \<Rightarrow> snapshot_order" where
  "snapshot_key s = (dt_key (snapshot_observed_at s), snapshot_id s)"

definition conflict_message :: string where
  "conflict_message = ''telemetry snapshot id already exists with a different payload''"

definition with_fingerprint :: "string option \<Rightarrow> TelemetrySnapshot \<Rightarrow> bool" where
  "with_fingerprint fp s = (case fp of None \<Rightarrow> True | Some f \<Rightarrow> topology_fp s = f)"

definition spec_save ::
  "nat \<Rightarrow> TelemetrySnapshot \<Rightarrow> TelemetrySnapshot list \<Rightarrow> (bool \<times> TelemetrySnapshot list) result" where
  "spec_save capacity s retained =
     (case List.find (\<lambda>x. snapshot_id x = snapshot_id s) retained of
        Some existing \<Rightarrow>
          if existing \<noteq> s then Inl (ValueError conflict_message) else Inr (False, retained)
      | None \<Rightarrow>
          if capacity \<le> length retained \<and> snapshot_key s \<le> snapshot_key (last retained)
          then Inr (False, retained)
          else Inr (True, take capacity (sorted_desc snapshot_key (s # retained))))"

definition spec_recent :: "string option \<Rightarrow> TelemetrySnapshot list \<Rightarrow> TelemetrySnapshot list" where
  "spec_recent fp retained = filter (with_fingerprint fp) retained"

definition spec_newest :: "string option \<Rightarrow> TelemetrySnapshot list \<Rightarrow> TelemetrySnapshot option" where
  "spec_newest fp retained = (case spec_recent fp retained of [] \<Rightarrow> None | s # _ \<Rightarrow> Some s)"

section \<open>Retention\<close>

lemma snapshot_key_inj:
  "snapshot_key s = snapshot_key t \<Longrightarrow> snapshot_id s = snapshot_id t"
  by (simp add: snapshot_key_def)

lemma distinct_keys: "distinct (map snapshot_id xs) \<Longrightarrow> distinct (map snapshot_key xs)"
  by (induction xs) (auto simp: image_iff dest: snapshot_key_inj)

definition retained_ok :: "nat \<Rightarrow> TelemetrySnapshot list \<Rightarrow> bool" where
  "retained_ok capacity xs =
     (descending snapshot_key xs \<and> distinct (map snapshot_id xs) \<and> length xs \<le> capacity)"

lemma spec_save_ok:
  assumes "retained_ok capacity xs" "spec_save capacity s xs = Inr (created, ys)"
  shows "retained_ok capacity ys" "set ys \<subseteq> insert s (set xs)"
proof -
  have both: "retained_ok capacity ys \<and> set ys \<subseteq> insert s (set xs)"
  proof (cases "List.find (\<lambda>x. snapshot_id x = snapshot_id s) xs")
    case None
    then have new: "snapshot_id s \<notin> snapshot_id ` set xs" by (auto simp: find_None_iff)
    show ?thesis
    proof (cases "capacity \<le> length xs \<and> snapshot_key s \<le> snapshot_key (last xs)")
      case False
      then have ys: "ys = take capacity (sorted_desc snapshot_key (s # xs))"
        using assms(2) None by (auto simp: spec_save_def)
      have d: "distinct (map snapshot_id (s # xs))" using new assms(1) by (simp add: retained_ok_def)
      have "descending snapshot_key ys"
        unfolding ys using descending_sorted_desc [OF distinct_keys [OF d]] by (rule descending_take)
      moreover have "mset (map snapshot_id (sorted_desc snapshot_key (s # xs))) = mset (map snapshot_id (s # xs))"
        by (metis mset_map mset_sorted_desc)
      then have "distinct (map snapshot_id (sorted_desc snapshot_key (s # xs)))"
        using d by (metis mset_eq_imp_distinct_iff)
      then have "distinct (map snapshot_id ys)" unfolding ys by (simp add: take_map [symmetric])
      moreover have "set ys \<subseteq> insert s (set xs)"
        unfolding ys using set_take_subset set_sorted_desc by (metis list.simps(15))
      ultimately show ?thesis unfolding ys retained_ok_def by simp
    qed (use assms None in \<open>auto simp: spec_save_def\<close>)
  qed (use assms in \<open>auto simp: spec_save_def split: if_splits\<close>)
  then show "retained_ok capacity ys" "set ys \<subseteq> insert s (set xs)" by auto
qed

lemma descending_last: "descending key xs \<Longrightarrow> x \<in> set xs \<Longrightarrow> key (last xs) \<le> key x"
  by (induction xs) (auto intro: less_imp_le)

lemma find_by_id:
  "x \<in> set xs \<Longrightarrow> distinct (map snapshot_id xs) \<Longrightarrow>
   List.find (\<lambda>y. snapshot_id y = snapshot_id x) xs = Some x"
  by (induction xs) auto

text \<open>Taking the newest after inserting forgets nothing that taking them before kept.\<close>

lemma sorted_desc_Cons_split:
  assumes "descending key xs" "key s \<notin> key ` set xs"
  shows "sorted_desc key (s # xs) =
    takeWhile (\<lambda>x. key s < key x) xs @ s # dropWhile (\<lambda>x. key s < key x) xs"
proof (rule descending_unique)
  have "distinct (map key (s # xs))" using assms descending_distinct [OF assms(1)] by auto
  then show "descending key (sorted_desc key (s # xs))" by (rule descending_sorted_desc)
  show "set (sorted_desc key (s # xs)) = set (takeWhile (\<lambda>x. key s < key x) xs @ s # dropWhile (\<lambda>x. key s < key x) xs)"
    using set_append [of "takeWhile (\<lambda>x. key s < key x) xs" "dropWhile (\<lambda>x. key s < key x) xs"]
    by auto
  show "descending key (takeWhile (\<lambda>x. key s < key x) xs @ s # dropWhile (\<lambda>x. key s < key x) xs)"
    using assms
  proof (induction xs)
    case (Cons x xs)
    let ?P = "\<lambda>y. key s < key y"
    have rest: "\<forall>y \<in> set xs. key y < key x" "descending key xs" using Cons.prems(1) by auto
    show ?case
    proof (cases "?P x")
      case True
      have "set (takeWhile ?P xs @ s # dropWhile ?P xs) \<subseteq> insert s (set xs)"
        by (auto dest: set_takeWhileD set_dropWhileD)
      then have "\<forall>y \<in> set (takeWhile ?P xs @ s # dropWhile ?P xs). key y < key x" using rest(1) True by blast
      then show ?thesis using Cons.IH [OF rest(2)] Cons.prems(2) True by simp
    next
      case False
      then have "key x < key s" using Cons.prems(2) by (auto simp: not_less order_le_less)
      then have "\<forall>y \<in> set (x # xs). key y < key s" using rest(1) by (auto intro: less_trans)
      then show ?thesis using Cons.prems(1) False by simp
    qed
  qed simp
qed

lemma take_sorted_desc_Cons:
  assumes "descending key xs" "key s \<notin> key ` set xs"
  shows "take n (sorted_desc key (s # take n xs)) = take n (sorted_desc key (s # xs))"
proof -
  have t: "descending key (take n xs)" using assms(1) by (rule descending_take)
  have "key s \<notin> key ` set (take n xs)" using assms(2) set_take_subset by fastforce
  note left = sorted_desc_Cons_split [OF t this] and right = sorted_desc_Cons_split [OF assms]
  let ?P = "\<lambda>x. key s < key x"
  have "take n (takeWhile ?P (take n xs) @ s # dropWhile ?P (take n xs)) =
      take n (takeWhile ?P xs @ s # dropWhile ?P xs)" for n
  proof (induction xs arbitrary: n)
    case (Cons x xs)
    show ?case
    proof (cases n)
      case (Suc m)
      show ?thesis
      proof (cases "?P x")
        case True
        then show ?thesis using Cons [of m] Suc by simp
      next
        case False
        then show ?thesis using Suc by (cases m) (simp_all add: take_Cons')
      qed
    qed simp
  qed simp
  then show ?thesis unfolding left right .
qed

text \<open>Saves of snapshots with distinct ids, in any order, retain the newest of all of them.\<close>

fun spec_saves :: "nat \<Rightarrow> TelemetrySnapshot list \<Rightarrow> TelemetrySnapshot list \<Rightarrow> TelemetrySnapshot list" where
  "spec_saves capacity [] retained = retained"
| "spec_saves capacity (s # ss) retained =
     spec_saves capacity ss (case spec_save capacity s retained of Inl _ \<Rightarrow> retained | Inr (_, r) \<Rightarrow> r)"

lemma spec_saves_newest:
  assumes "distinct (map snapshot_id (all @ ss))" "1 \<le> capacity"
  shows "spec_saves capacity ss (take capacity (sorted_desc snapshot_key all)) =
    take capacity (sorted_desc snapshot_key (all @ ss))"
  using assms(1)
proof (induction ss arbitrary: all)
  case (Cons s ss)
  let ?sorted = "sorted_desc snapshot_key all"
  let ?r = "take capacity ?sorted"
  have d: "distinct (map snapshot_key all)" using Cons.prems by (intro distinct_keys) simp
  have desc: "descending snapshot_key ?sorted" using descending_sorted_desc [OF d] .
  have fresh: "snapshot_id s \<notin> snapshot_id ` set all" using Cons.prems by auto
  then have fresh_key: "snapshot_key s \<notin> snapshot_key ` set ?sorted" by (auto dest: snapshot_key_inj)
  have sub: "set ?r \<subseteq> set all" using set_take_subset [of capacity ?sorted] by simp
  then have none: "List.find (\<lambda>x. snapshot_id x = snapshot_id s) ?r = None"
    unfolding find_None_iff using fresh by (metis imageI subsetD)
  have grow: "take capacity (sorted_desc snapshot_key (s # ?r)) = take capacity (sorted_desc snapshot_key (all @ [s]))"
  proof -
    have "take capacity (sorted_desc snapshot_key (s # ?r)) = take capacity (sorted_desc snapshot_key (s # ?sorted))"
      by (rule take_sorted_desc_Cons [OF desc fresh_key])
    also have "sorted_desc snapshot_key (s # ?sorted) = sorted_desc snapshot_key (all @ [s])"
      using fresh_key d descending_distinct [OF desc] by (intro sorted_desc_set) auto
    finally show ?thesis .
  qed
  have "(case spec_save capacity s ?r of Inl _ \<Rightarrow> ?r | Inr (_, r) \<Rightarrow> r) =
      take capacity (sorted_desc snapshot_key (all @ [s]))"
  proof (cases "capacity \<le> length ?r \<and> snapshot_key s \<le> snapshot_key (last ?r)")
    case True
    then have len: "length ?r = capacity" by simp
    then have "?r \<noteq> []" using assms(2) by (metis list.size(3) not_one_le_zero)
    have "descending snapshot_key ?r" using desc by (rule descending_take)
    then have small: "\<forall>x \<in> set ?r. snapshot_key s < snapshot_key x"
    proof (intro ballI)
      fix x assume x: "x \<in> set ?r" and d: "descending snapshot_key ?r"
      have "snapshot_key (last ?r) \<le> snapshot_key x" using d x by (rule descending_last)
      moreover have "snapshot_key s \<noteq> snapshot_key x" using fresh_key x by (metis imageI in_set_takeD)
      ultimately show "snapshot_key s < snapshot_key x"
        using True by (metis order.not_eq_order_implies_strict order.trans)
    qed
    have "snapshot_key s \<notin> snapshot_key ` set ?r" using small by auto
    then have "sorted_desc snapshot_key (s # ?r) = ?r @ [s]"
      using small by (subst sorted_desc_Cons_split [OF descending_take [OF desc]]) (simp_all add: takeWhile_eq_all_conv [THEN iffD2] dropWhile_eq_Nil_conv [THEN iffD2])
    then have "take capacity (sorted_desc snapshot_key (s # ?r)) = ?r" using len by simp
    then show ?thesis using True none grow by (simp add: spec_save_def)
  next
    case False
    have "spec_save capacity s ?r = Inr (True, take capacity (sorted_desc snapshot_key (s # ?r)))"
      unfolding spec_save_def none option.case if_not_P [OF False] ..
    then show ?thesis using grow by simp
  qed
  then show ?case using Cons.IH [of "all @ [s]"] Cons.prems by simp
qed simp

section \<open>Sequences of operations\<close>

datatype telemetry_op = SaveOp TelemetrySnapshot | LatestOp "string option" | RecentOp "string option"

datatype telemetry_answer =
    Created bool
  | Newest "TelemetrySnapshot option"
  | Listed "TelemetrySnapshot list"
  | Refused py_error

definition answered :: "('a \<Rightarrow> telemetry_answer) \<Rightarrow> 'a result \<Rightarrow> telemetry_answer" where
  "answered f r = (case r of Inl e \<Rightarrow> Refused e | Inr x \<Rightarrow> f x)"

text \<open>A refused operation leaves the store as it was.\<close>

fun telemetry_answers ::
  "(TelemetrySnapshot \<Rightarrow> 's \<Rightarrow> (bool \<times> 's) result) \<Rightarrow>
   (string option \<Rightarrow> 's \<Rightarrow> TelemetrySnapshot option result) \<Rightarrow>
   (string option \<Rightarrow> 's \<Rightarrow> TelemetrySnapshot list result) \<Rightarrow> telemetry_op list \<Rightarrow> 's \<Rightarrow> telemetry_answer list" where
  "telemetry_answers save latest recent [] s = []"
| "telemetry_answers save latest recent (SaveOp x # ops) s =
     (case save x s of
        Inl e \<Rightarrow> Refused e # telemetry_answers save latest recent ops s
      | Inr (created, s') \<Rightarrow> Created created # telemetry_answers save latest recent ops s')"
| "telemetry_answers save latest recent (LatestOp fp # ops) s =
     answered Newest (latest fp s) # telemetry_answers save latest recent ops s"
| "telemetry_answers save latest recent (RecentOp fp # ops) s =
     answered Listed (recent fp s) # telemetry_answers save latest recent ops s"

fun after_saves :: "(TelemetrySnapshot \<Rightarrow> 's \<Rightarrow> (bool \<times> 's) result) \<Rightarrow> TelemetrySnapshot list \<Rightarrow> 's \<Rightarrow> 's" where
  "after_saves save [] s = s"
| "after_saves save (x # xs) s = after_saves save xs (case save x s of Inl _ \<Rightarrow> s | Inr (_, s') \<Rightarrow> s')"

fun op_snapshot_ok :: "telemetry_op \<Rightarrow> bool" where
  "op_snapshot_ok (SaveOp x) = snapshot_ok x"
| "op_snapshot_ok _ = True"

section \<open>The interface\<close>

locale telemetry_repository =
  fixes ok :: "'s \<Rightarrow> bool" and capacity_of :: "'s \<Rightarrow> nat" and retained :: "'s \<Rightarrow> TelemetrySnapshot list"
    and save :: "TelemetrySnapshot \<Rightarrow> 's \<Rightarrow> (bool \<times> 's) result"
    and latest :: "string option \<Rightarrow> 's \<Rightarrow> TelemetrySnapshot option result"
    and recent :: "string option \<Rightarrow> 's \<Rightarrow> TelemetrySnapshot list result"
  assumes save_error: "ok s \<Longrightarrow> snapshot_ok x \<Longrightarrow> save x s = Inl e \<longleftrightarrow> spec_save (capacity_of s) x (retained s) = Inl e"
    and save_refines: "ok s \<Longrightarrow> snapshot_ok x \<Longrightarrow> save x s = Inr (created, s') \<Longrightarrow>
      ok s' \<and> capacity_of s' = capacity_of s \<and>
      spec_save (capacity_of s) x (retained s) = Inr (created, retained s')"
    and latest_spec: "ok s \<Longrightarrow> latest fp s = Inr (spec_newest fp (retained s))"
    and recent_spec: "ok s \<Longrightarrow> recent fp s = Inr (spec_recent fp (retained s))"
    and retained_ok: "ok s \<Longrightarrow> 1 \<le> capacity_of s \<and> retained_ok (capacity_of s) (retained s)"
begin

lemma after_saves_spec:
  "ok s \<Longrightarrow> list_all snapshot_ok xs \<Longrightarrow>
   ok (after_saves save xs s) \<and> capacity_of (after_saves save xs s) = capacity_of s \<and>
   retained (after_saves save xs s) = spec_saves (capacity_of s) xs (retained s)"
proof (induction xs arbitrary: s)
  case (Cons x xs)
  show ?case
  proof (cases "save x s")
    case (Inl e)
    then have "spec_save (capacity_of s) x (retained s) = Inl e" using save_error Cons.prems by simp
    then show ?thesis using Cons Inl by simp
  next
    case (Inr p)
    then obtain created s' where "save x s = Inr (created, s')" by (cases p) simp
    with save_refines [OF Cons.prems(1) _ this] Cons.prems Cons.IH [of s'] show ?thesis by simp
  qed
qed simp

lemma newest_retained:
  assumes "ok s" "retained s = []" "list_all snapshot_ok xs" "distinct (map snapshot_id xs)"
  shows "recent None (after_saves save xs s) = Inr (take (capacity_of s) (sorted_desc snapshot_key xs))"
proof -
  have "1 \<le> capacity_of s" using retained_ok [OF assms(1)] by blast
  from spec_saves_newest [of "[]" xs, OF _ this] assms(4)
  have "spec_saves (capacity_of s) xs [] = take (capacity_of s) (sorted_desc snapshot_key xs)"
    by (simp add: sorted_desc_def)
  then show ?thesis
    using after_saves_spec [OF assms(1,3)] recent_spec [of "after_saves save xs s" None] assms(2)
    by (simp add: spec_recent_def with_fingerprint_def)
qed

lemma answers_spec:
  "ok s \<Longrightarrow> list_all op_snapshot_ok ops \<Longrightarrow>
   telemetry_answers save latest recent ops s =
   telemetry_answers (spec_save (capacity_of s)) (\<lambda>fp r. Inr (spec_newest fp r)) (\<lambda>fp r. Inr (spec_recent fp r))
     ops (retained s)"
proof (induction ops arbitrary: s)
  case (Cons op ops)
  show ?case
  proof (cases op)
    case (SaveOp x)
    then have x: "snapshot_ok x" using Cons.prems by simp
    show ?thesis
    proof (cases "save x s")
      case (Inl e)
      with save_error [OF Cons.prems(1) x] have "spec_save (capacity_of s) x (retained s) = Inl e" by blast
      then show ?thesis using Cons SaveOp Inl by simp
    next
      case (Inr p)
      then obtain created s' where "save x s = Inr (created, s')" by (cases p) simp
      with save_refines [OF Cons.prems(1) x this] Cons.prems Cons.IH [of s'] SaveOp show ?thesis by simp
    qed
  qed (use Cons latest_spec recent_spec in simp_all)
qed simp

text \<open>A created snapshot is retained, the rest of the store loses at most its oldest.\<close>

lemma created_retained:
  assumes "ok s" "snapshot_ok x" "save x s = Inr (True, s')"
  shows "x \<in> set (retained s')" "set (retained s') \<subseteq> insert x (set (retained s))"
    and "snapshot_id x \<notin> snapshot_id ` set (retained s)"
proof -
  note r = save_refines [OF assms]
  have none: "List.find (\<lambda>y. snapshot_id y = snapshot_id x) (retained s) = None"
    and ret: "retained s' = take (capacity_of s) (sorted_desc snapshot_key (x # retained s))"
    and kept: "\<not> (capacity_of s \<le> length (retained s) \<and> snapshot_key x \<le> snapshot_key (last (retained s)))"
    using r by (auto simp: spec_save_def split: option.splits if_splits)
  note ro = retained_ok [OF assms(1), THEN conjunct2]
  have fresh: "snapshot_key x \<notin> snapshot_key ` set (retained s)"
  proof
    assume "snapshot_key x \<in> snapshot_key ` set (retained s)"
    then obtain y where "y \<in> set (retained s)" "snapshot_id x = snapshot_id y"
      using snapshot_key_inj by (elim imageE) blast
    with none show False by (auto simp: find_None_iff)
  qed
  show "snapshot_id x \<notin> snapshot_id ` set (retained s)" using none by (auto simp: find_None_iff)
  show "set (retained s') \<subseteq> insert x (set (retained s))"
    using spec_save_ok(2) [OF ro] r by blast
  have desc: "descending snapshot_key (retained s)" using ro by (simp add: retained_ok_def)
  let ?P = "\<lambda>y. snapshot_key x < snapshot_key y"
  have "length (takeWhile ?P (retained s)) < capacity_of s"
  proof (rule ccontr)
    assume "\<not> length (takeWhile ?P (retained s)) < capacity_of s"
    then have big: "capacity_of s \<le> length (takeWhile ?P (retained s))" by simp
    then have full: "takeWhile ?P (retained s) = retained s"
      using ro by (metis retained_ok_def length_takeWhile_le le_antisym le_trans takeWhile_eq_take take_all)
    then have "retained s \<noteq> []" using big retained_ok [OF assms(1)] by auto
    then have "?P (last (retained s))" using full by (metis last_in_set set_takeWhileD)
    then show False using kept big full by simp
  qed
  then show "x \<in> set (retained s')"
    unfolding ret sorted_desc_Cons_split [OF desc fresh]
    by (cases "capacity_of s - length (takeWhile ?P (retained s))") simp_all
qed

text \<open>A snapshot is stored once: saving it again changes nothing.\<close>

lemma save_idempotent:
  assumes "ok s" "snapshot_ok x" "save x s = Inr (True, s')"
  shows "\<exists>s''. save x s' = Inr (False, s'') \<and> retained s'' = retained s'"
proof -
  note r = save_refines [OF assms] and in_retained = created_retained(1) [OF assms]
  have "distinct (map snapshot_id (retained s'))"
    using retained_ok [of s'] r by (simp add: retained_ok_def)
  with in_retained have "List.find (\<lambda>y. snapshot_id y = snapshot_id x) (retained s') = Some x"
    by (rule find_by_id)
  then have sp: "spec_save (capacity_of s') x (retained s') = Inr (False, retained s')"
    by (simp add: spec_save_def)
  show ?thesis
  proof (cases "save x s'")
    case (Inl e)
    then show ?thesis using save_error [of s' x e] r sp assms(2) by simp
  next
    case (Inr p)
    then obtain c s'' where "save x s' = Inr (c, s'')" by (cases p) simp
    with save_refines [of s' x c s''] r sp assms(2) show ?thesis by simp
  qed
qed

end

end
