(* ===== verification/Telemetry_Memory.thy ===== *)
theory Telemetry_Memory
  imports Telemetry_Repository
begin

text \<open>
  \<open>TelemetryStore\<close>: a dictionary of snapshots by id, rebuilt from newest to oldest by each
  successful save.
\<close>

record TelemetryStore =
  ts_capacity :: int
  ts_snapshots :: "TelemetrySnapshot dict"

definition mk_telemetry_store :: "int \<Rightarrow> TelemetryStore result" where
  "mk_telemetry_store capacity =
     rbind (ensure (1 \<le> capacity) ''telemetry store capacity must be positive'') (\<lambda>_.
       Inr \<lparr>ts_capacity = capacity, ts_snapshots = []\<rparr>)"

text \<open>\<open>min(values, key=_sort_key)\<close>: the first of the smallest.\<close>

definition oldest_snapshot :: "TelemetrySnapshot list \<Rightarrow> TelemetrySnapshot result" where
  "oldest_snapshot xs =
     (case sort_key snapshot_key xs of [] \<Rightarrow> Inl (ValueError ''min() iterable argument is empty'') | x # _ \<Rightarrow> Inr x)"

definition ts_retain :: "TelemetrySnapshot \<Rightarrow> TelemetryStore \<Rightarrow> bool \<times> TelemetryStore" where
  "ts_retain snapshot s =
     (let snapshots = dict_set (snapshot_id snapshot) snapshot (ts_snapshots s);
          retained = take (nat (ts_capacity s)) (sorted_desc snapshot_key (dict_values snapshots))
      in (True, s\<lparr>ts_snapshots := dict_of_list snapshot_id retained\<rparr>))"

definition ts_save :: "TelemetrySnapshot \<Rightarrow> TelemetryStore \<Rightarrow> (bool \<times> TelemetryStore) result" where
  "ts_save snapshot s =
     (case map_of (ts_snapshots s) (snapshot_id snapshot) of
        Some existing \<Rightarrow>
          if existing \<noteq> snapshot then Inl (ValueError conflict_message) else Inr (False, s)
      | None \<Rightarrow>
          if ts_capacity s \<le> int (length (ts_snapshots s)) then
            rbind (oldest_snapshot (dict_values (ts_snapshots s))) (\<lambda>oldest_retained.
              if snapshot_key snapshot \<le> snapshot_key oldest_retained then Inr (False, s)
              else Inr (ts_retain snapshot s))
          else Inr (ts_retain snapshot s))"

definition ts_candidates :: "string option \<Rightarrow> TelemetryStore \<Rightarrow> TelemetrySnapshot list" where
  "ts_candidates fp s = filter (with_fingerprint fp) (dict_values (ts_snapshots s))"

text \<open>\<open>max(candidates, key=_sort_key)\<close>: the first of the largest.\<close>

definition ts_latest :: "string option \<Rightarrow> TelemetryStore \<Rightarrow> TelemetrySnapshot option result" where
  "ts_latest fp s =
     Inr (case sorted_desc snapshot_key (ts_candidates fp s) of [] \<Rightarrow> None | x # _ \<Rightarrow> Some x)"

definition ts_recent :: "string option \<Rightarrow> TelemetryStore \<Rightarrow> TelemetrySnapshot list result" where
  "ts_recent fp s = Inr (sorted_desc snapshot_key (ts_candidates fp s))"

section \<open>Refinement\<close>

definition ts_view :: "TelemetryStore \<Rightarrow> TelemetrySnapshot list" where
  "ts_view s = dict_values (ts_snapshots s)"

definition ts_ok :: "TelemetryStore \<Rightarrow> bool" where
  "ts_ok s =
     (1 \<le> ts_capacity s \<and> retained_ok (nat (ts_capacity s)) (ts_view s) \<and>
      dict_keys (ts_snapshots s) = map snapshot_id (ts_view s))"

lemma ts_fresh:
  "mk_telemetry_store capacity = Inr s \<Longrightarrow> ts_ok s \<and> ts_capacity s = capacity \<and> ts_view s = []"
  by (auto simp: mk_telemetry_store_def rbind_eq_Inr ts_ok_def ts_view_def retained_ok_def)

lemma ts_dict:
  assumes "ts_ok s"
  shows "ts_snapshots s = map (\<lambda>x. (snapshot_id x, x)) (ts_view s)"
proof -
  have "ts_snapshots s = zip (dict_keys (ts_snapshots s)) (dict_values (ts_snapshots s))"
    by (simp add: zip_map_fst_snd)
  also have "\<dots> = zip (map snapshot_id (ts_view s)) (ts_view s)"
    using assms unfolding ts_ok_def ts_view_def by metis
  finally show ?thesis by (simp add: zip_map1 zip_same_conv_map)
qed

lemma ts_lookup:
  assumes "ts_ok s"
  shows "map_of (ts_snapshots s) i = List.find (\<lambda>x. snapshot_id x = i) (ts_view s)"
proof -
  have "map_of (map (\<lambda>x. (snapshot_id x, x)) xs) i = List.find (\<lambda>x. snapshot_id x = i) xs" for xs
    by (induction xs) auto
  then show ?thesis using ts_dict [OF assms] by metis
qed

text \<open>The oldest of a descending list is its last.\<close>

lemma oldest_descending: "descending snapshot_key xs \<Longrightarrow> xs \<noteq> [] \<Longrightarrow> oldest_snapshot xs = Inr (last xs)"
proof -
  assume d: "descending snapshot_key xs" and ne: "xs \<noteq> []"
  have "sorted (map snapshot_key (rev xs))"
    using d by (simp add: sorted_wrt_rev sorted_wrt_map sorted_wrt_mono_rel [where P = "\<lambda>x y. snapshot_key y < snapshot_key x"] less_imp_le)
  then have "sort_key snapshot_key (rev xs) = rev xs" by (simp add: sort_key_id_if_sorted)
  moreover have "sort_key snapshot_key xs = sort_key snapshot_key (rev xs)"
    using descending_distinct [OF d] by (intro sort_key_inj_key_eq) (simp_all add: distinct_map)
  ultimately show ?thesis using ne by (cases xs rule: rev_cases) (simp_all add: oldest_snapshot_def)
qed

lemma ts_retain_view:
  assumes "ts_ok s" "snapshot_id x \<notin> snapshot_id ` set (ts_view s)"
  shows "ts_view (snd (ts_retain x s)) = take (nat (ts_capacity s)) (sorted_desc snapshot_key (x # ts_view s))"
    and "dict_keys (ts_snapshots (snd (ts_retain x s))) = map snapshot_id (ts_view (snd (ts_retain x s)))"
    and "ts_capacity (snd (ts_retain x s)) = ts_capacity s"
proof -
  have d: "distinct (map snapshot_id (ts_view s))" using assms(1) by (simp add: ts_ok_def retained_ok_def)
  have "snapshot_id x \<notin> fst ` set (ts_snapshots s)"
    using assms ts_dict [OF assms(1)] by (simp add: image_image)
  then have set: "dict_values (dict_set (snapshot_id x) x (ts_snapshots s)) = ts_view s @ [x]"
    by (simp add: dict_set_new ts_view_def)
  have d1: "distinct (map snapshot_id (ts_view s @ [x]))" "distinct (map snapshot_id (x # ts_view s))"
    using d assms(2) by auto
  have eq: "sorted_desc snapshot_key (ts_view s @ [x]) = sorted_desc snapshot_key (x # ts_view s)"
    using d1 by (intro sorted_desc_set distinct_keys) auto
  let ?r = "take (nat (ts_capacity s)) (sorted_desc snapshot_key (x # ts_view s))"
  have "mset (map snapshot_id (sorted_desc snapshot_key (x # ts_view s))) = mset (map snapshot_id (x # ts_view s))"
    by (metis mset_map mset_sorted_desc)
  then have "distinct (map snapshot_id (sorted_desc snapshot_key (x # ts_view s)))"
    using d1(2) by (metis mset_eq_imp_distinct_iff)
  then have "distinct (map snapshot_id ?r)" by (simp add: take_map [symmetric])
  then have out: "ts_snapshots (snd (ts_retain x s)) = map (\<lambda>x. (snapshot_id x, x)) ?r"
    by (simp add: ts_retain_def Let_def set eq dict_of_list_distinct)
  then show "ts_view (snd (ts_retain x s)) = ?r" by (simp add: ts_view_def comp_def)
  then show "dict_keys (ts_snapshots (snd (ts_retain x s))) = map snapshot_id (ts_view (snd (ts_retain x s)))"
    using out by (simp add: comp_def)
  show "ts_capacity (snd (ts_retain x s)) = ts_capacity s" by (simp add: ts_retain_def Let_def)
qed

lemma ts_save_view:
  assumes ok: "ts_ok s"
  shows "map_sum id (map_prod id ts_view) (ts_save x s) = spec_save (nat (ts_capacity s)) x (ts_view s)"
    and "ts_save x s = Inr (c, s') \<Longrightarrow> ts_capacity s' = ts_capacity s \<and>
      dict_keys (ts_snapshots s') = map snapshot_id (ts_view s')"
proof -
  have len: "length (ts_snapshots s) = length (ts_view s)" by (simp add: ts_view_def)
  have desc: "descending snapshot_key (ts_view s)" and cap: "1 \<le> ts_capacity s"
    using ok by (simp_all add: ts_ok_def retained_ok_def)
  have both: "map_sum id (map_prod id ts_view) (ts_save x s) = spec_save (nat (ts_capacity s)) x (ts_view s) \<and>
    (ts_save x s = Inr (c, s') \<longrightarrow> ts_capacity s' = ts_capacity s \<and>
      dict_keys (ts_snapshots s') = map snapshot_id (ts_view s'))"
  proof (cases "List.find (\<lambda>y. snapshot_id y = snapshot_id x) (ts_view s)")
    case (Some e)
    then show ?thesis using ok by (auto simp: ts_save_def ts_lookup [OF ok] spec_save_def ts_ok_def)
  next
    case None
    then have new: "snapshot_id x \<notin> snapshot_id ` set (ts_view s)" by (auto simp: find_None_iff)
    obtain s1 where keep: "ts_retain x s = (True, s1)" by (simp add: ts_retain_def Let_def)
    note retain = ts_retain_view [OF ok new, unfolded keep snd_conv]
    show ?thesis
    proof (cases "ts_capacity s \<le> int (length (ts_view s))")
      case True
      then have "ts_view s \<noteq> []" using cap by auto
      note old = oldest_descending [OF desc this]
      have full: "nat (ts_capacity s) \<le> length (ts_view s)" using True by simp
      show ?thesis
      proof (cases "snapshot_key x \<le> snapshot_key (last (ts_view s))")
        case le: True
        then have "ts_save x s = Inr (False, s)"
          using None True old len by (simp add: ts_save_def ts_lookup [OF ok] flip: ts_view_def)
        then show ?thesis using None full le ok by (auto simp: spec_save_def ts_ok_def)
      next
        case gt: False
        then have "ts_save x s = Inr (ts_retain x s)"
          using None True old len by (simp add: ts_save_def ts_lookup [OF ok] flip: ts_view_def)
        then show ?thesis using None full gt retain keep by (auto simp: spec_save_def)
      qed
    next
      case False
      then have "ts_save x s = Inr (ts_retain x s)"
        using None len by (simp add: ts_save_def ts_lookup [OF ok] flip: ts_view_def)
      moreover have "\<not> nat (ts_capacity s) \<le> length (ts_view s)" using False by simp
      ultimately show ?thesis using None retain keep by (auto simp: spec_save_def)
    qed
  qed
  then show "map_sum id (map_prod id ts_view) (ts_save x s) = spec_save (nat (ts_capacity s)) x (ts_view s)"
    and "ts_save x s = Inr (c, s') \<Longrightarrow> ts_capacity s' = ts_capacity s \<and>
      dict_keys (ts_snapshots s') = map snapshot_id (ts_view s')" by auto
qed

lemma ts_candidates_desc: "ts_ok s \<Longrightarrow> sorted_desc snapshot_key (ts_candidates fp s) = spec_recent fp (ts_view s)"
proof -
  assume "ts_ok s"
  then have "descending snapshot_key (filter (with_fingerprint fp) (ts_view s))"
    by (simp add: ts_ok_def retained_ok_def sorted_wrt_filter)
  then show ?thesis by (simp add: ts_candidates_def ts_view_def spec_recent_def sorted_desc_fixed)
qed

interpretation memory_snapshots: telemetry_repository ts_ok "\<lambda>s. nat (ts_capacity s)" ts_view ts_save ts_latest ts_recent
proof unfold_locales
  fix s x e assume ok: "ts_ok s"
  show "ts_save x s = Inl e \<longleftrightarrow> spec_save (nat (ts_capacity s)) x (ts_view s) = Inl e"
    unfolding ts_save_view(1) [OF ok, of x, symmetric] by (cases "ts_save x s") auto
next
  fix s x created s' assume ok: "ts_ok s" and save: "ts_save x s = Inr (created, s')"
  have sp: "spec_save (nat (ts_capacity s)) x (ts_view s) = Inr (created, ts_view s')"
    using ts_save_view(1) [OF ok, of x] save by simp
  have "retained_ok (nat (ts_capacity s)) (ts_view s)" using ok by (simp add: ts_ok_def)
  from spec_save_ok(1) [OF this sp] ts_save_view(2) [OF ok save] ok
  show "ts_ok s' \<and> nat (ts_capacity s') = nat (ts_capacity s) \<and>
    spec_save (nat (ts_capacity s)) x (ts_view s) = Inr (created, ts_view s')"
    using sp by (simp add: ts_ok_def)
next
  fix s fp assume "ts_ok s"
  then show "ts_latest fp s = Inr (spec_newest fp (ts_view s))"
    by (simp add: ts_latest_def ts_candidates_desc spec_newest_def)
next
  fix s fp assume "ts_ok s"
  then show "ts_recent fp s = Inr (spec_recent fp (ts_view s))" by (simp add: ts_recent_def ts_candidates_desc)
next
  fix s assume "ts_ok s"
  then show "1 \<le> nat (ts_capacity s) \<and> retained_ok (nat (ts_capacity s)) (ts_view s)" by (auto simp: ts_ok_def)
qed

end
