(* ===== verification/Telemetry_Sqlite.thy ===== *)
theory Telemetry_Sqlite
  imports Telemetry_Memory
begin

text \<open>
  \<open>SQLiteTelemetryStore\<close>: one table of ids, times as texts and JSON payloads. The payload
  codec is pydantic's (\<open>model_dump_json\<close>, \<open>model_validate_json\<close>), a pair of parameters of
  which only the documented round trip is used (\<open>codec_ok\<close>). Ordering rows by their texts
  is ordering snapshots by time and id, because the stored times are all in UTC.
\<close>

section \<open>The table and the operations\<close>

record TelemetryRow =
  tr_id :: string
  tr_observed_at :: string
  tr_payload :: string

record SQLiteTelemetryStore =
  tq_capacity :: int
  tq_rows :: "TelemetryRow list"

definition row_key :: "TelemetryRow \<Rightarrow> string \<times> string" where
  "row_key r = (tr_observed_at r, tr_id r)"

definition tq_prune :: "SQLiteTelemetryStore \<Rightarrow> SQLiteTelemetryStore" where
  "tq_prune s =
     (let keep = take (nat (tq_capacity s)) (map tr_id (sorted_desc row_key (tq_rows s)))
      in s\<lparr>tq_rows := filter (\<lambda>r. tr_id r \<in> set keep) (tq_rows s)\<rparr>)"

definition tq_empty :: SQLiteTelemetryStore where
  "tq_empty = \<lparr>tq_capacity = 0, tq_rows = []\<rparr>"

definition tq_open :: "int \<Rightarrow> SQLiteTelemetryStore \<Rightarrow> SQLiteTelemetryStore result" where
  "tq_open capacity database =
     rbind (ensure (1 \<le> capacity) ''telemetry store capacity must be positive'') (\<lambda>_.
     rbind (sq_bind [Some capacity]) (\<lambda>_.
       Inr (tq_prune (database\<lparr>tq_capacity := capacity\<rparr>))))"

definition tq_row :: "(TelemetrySnapshot \<Rightarrow> string) \<Rightarrow> TelemetrySnapshot \<Rightarrow> TelemetryRow" where
  "tq_row dump x =
     \<lparr>tr_id = snapshot_id x, tr_observed_at = isoformat (snapshot_observed_at x), tr_payload = dump x\<rparr>"

definition tq_insert ::
  "(TelemetrySnapshot \<Rightarrow> string) \<Rightarrow> TelemetrySnapshot \<Rightarrow> SQLiteTelemetryStore \<Rightarrow> SQLiteTelemetryStore result" where
  "tq_insert dump x s =
     (if snapshot_id x \<in> set (map tr_id (tq_rows s))
      then Inl (IntegrityError ''UNIQUE constraint failed: telemetry_snapshots.snapshot_id'')
      else Inr (tq_prune (s\<lparr>tq_rows := tq_rows s @ [tq_row dump x]\<rparr>)))"

definition tq_save ::
  "(TelemetrySnapshot \<Rightarrow> string) \<Rightarrow> (string \<Rightarrow> TelemetrySnapshot result) \<Rightarrow> TelemetrySnapshot \<Rightarrow>
   SQLiteTelemetryStore \<Rightarrow> (bool \<times> SQLiteTelemetryStore) result" where
  "tq_save dump load x s =
     (case List.find (\<lambda>r. tr_id r = snapshot_id x) (tq_rows s) of
        Some row \<Rightarrow>
          rbind (load (tr_payload row)) (\<lambda>existing.
            if existing \<noteq> x then Inl (ValueError conflict_message) else Inr (False, s))
      | None \<Rightarrow>
          if tq_capacity s \<le> int (length (tq_rows s)) then
            (case sort_key row_key (tq_rows s) of
               [] \<Rightarrow> Inl (RuntimeError ''AssertionError'')
             | oldest # _ \<Rightarrow>
                 if row_key (tq_row dump x) \<le> row_key oldest then Inr (False, s)
                 else rbind (tq_insert dump x s) (\<lambda>s'. Inr (True, s')))
          else rbind (tq_insert dump x s) (\<lambda>s'. Inr (True, s')))"

definition tq_load_recent ::
  "(string \<Rightarrow> TelemetrySnapshot result) \<Rightarrow> int \<Rightarrow> string option \<Rightarrow> SQLiteTelemetryStore \<Rightarrow>
   TelemetrySnapshot list result" where
  "tq_load_recent load limit fp s =
     rbind (traverse (\<lambda>r. load (tr_payload r)) (sorted_desc row_key (tq_rows s))) (\<lambda>snapshots.
       Inr (take (nat limit) (filter (with_fingerprint fp) snapshots)))"

definition tq_latest ::
  "(string \<Rightarrow> TelemetrySnapshot result) \<Rightarrow> string option \<Rightarrow> SQLiteTelemetryStore \<Rightarrow>
   TelemetrySnapshot option result" where
  "tq_latest load fp s =
     rbind (tq_load_recent load 1 fp s) (\<lambda>snapshots.
       Inr (case snapshots of [] \<Rightarrow> None | x # _ \<Rightarrow> Some x))"

definition tq_recent ::
  "(string \<Rightarrow> TelemetrySnapshot result) \<Rightarrow> string option \<Rightarrow> SQLiteTelemetryStore \<Rightarrow>
   TelemetrySnapshot list result" where
  "tq_recent load fp s = tq_load_recent load (tq_capacity s) fp s"

section \<open>Refinement\<close>

definition codec_ok :: "(TelemetrySnapshot \<Rightarrow> string) \<Rightarrow> (string \<Rightarrow> TelemetrySnapshot result) \<Rightarrow> bool" where
  "codec_ok dump load = (\<forall>x. snapshot_ok x \<longrightarrow> load (dump x) = Inr x)"

definition tq_loaded :: "(string \<Rightarrow> TelemetrySnapshot result) \<Rightarrow> SQLiteTelemetryStore \<Rightarrow> TelemetrySnapshot list" where
  "tq_loaded load s = map (\<lambda>r. projr (load (tr_payload r))) (tq_rows s)"

definition tq_view :: "(string \<Rightarrow> TelemetrySnapshot result) \<Rightarrow> SQLiteTelemetryStore \<Rightarrow> TelemetrySnapshot list" where
  "tq_view load s = sorted_desc snapshot_key (tq_loaded load s)"

definition tq_table_ok ::
  "(TelemetrySnapshot \<Rightarrow> string) \<Rightarrow> (string \<Rightarrow> TelemetrySnapshot result) \<Rightarrow> SQLiteTelemetryStore \<Rightarrow> bool" where
  "tq_table_ok dump load s =
     (codec_ok dump load \<and> list_all snapshot_ok (tq_loaded load s) \<and>
      tq_rows s = map (tq_row dump) (tq_loaded load s) \<and> distinct (map snapshot_id (tq_loaded load s)))"

definition tq_ok ::
  "(TelemetrySnapshot \<Rightarrow> string) \<Rightarrow> (string \<Rightarrow> TelemetrySnapshot result) \<Rightarrow> SQLiteTelemetryStore \<Rightarrow> bool" where
  "tq_ok dump load s =
     (1 \<le> tq_capacity s \<and> int (length (tq_rows s)) \<le> tq_capacity s \<and> tq_table_ok dump load s)"

lemma tq_loaded_row:
  "codec_ok dump load \<Longrightarrow> list_all snapshot_ok xs \<Longrightarrow> tq_rows s = map (tq_row dump) xs \<Longrightarrow> tq_loaded load s = xs"
  by (auto simp: tq_loaded_def codec_ok_def list_all_iff tq_row_def intro!: map_idI)

text \<open>Rows compare as snapshots do.\<close>

lemma row_key_le:
  assumes "snapshot_ok x" "snapshot_ok y"
  shows "row_key (tq_row dump x) \<le> row_key (tq_row dump y) \<longleftrightarrow> snapshot_key x \<le> snapshot_key y"
    and "row_key (tq_row dump x) < row_key (tq_row dump y) \<longleftrightarrow> snapshot_key x < snapshot_key y"
proof -
  have v: "valid_datetime (snapshot_observed_at x)" "valid_datetime (snapshot_observed_at y)"
    "is_utc (snapshot_observed_at x)" "is_utc (snapshot_observed_at y)"
    using assms by (auto simp: snapshot_ok_def civil_datetime_def)
  note lt = isoformat_less [OF v] and le = isoformat_le [OF v]
  show "row_key (tq_row dump x) \<le> row_key (tq_row dump y) \<longleftrightarrow> snapshot_key x \<le> snapshot_key y"
    "row_key (tq_row dump x) < row_key (tq_row dump y) \<longleftrightarrow> snapshot_key x < snapshot_key y"
    by (auto simp: row_key_def snapshot_key_def tq_row_def less_eq_prod_def less_prod_def lt le)
qed

lemma sorted_rows_desc:
  assumes "list_all snapshot_ok xs" "distinct (map snapshot_id xs)"
  shows "sorted_desc row_key (map (tq_row dump) xs) = map (tq_row dump) (sorted_desc snapshot_key xs)"
proof (rule descending_unique [of row_key])
  have "distinct (map row_key (map (tq_row dump) xs))"
    using assms(2) by (auto simp: distinct_map inj_on_def row_key_def tq_row_def)
  then show "descending row_key (sorted_desc row_key (map (tq_row dump) xs))" by (rule descending_sorted_desc)
  have d: "descending snapshot_key (sorted_desc snapshot_key xs)"
    using distinct_keys [OF assms(2)] by (rule descending_sorted_desc)
  show "descending row_key (map (tq_row dump) (sorted_desc snapshot_key xs))"
    unfolding sorted_wrt_map
    by (rule sorted_wrt_mono_rel [OF _ d]) (use assms(1) row_key_le(2) in \<open>simp add: list_all_iff\<close>)
qed simp

lemma tq_prune_view:
  assumes "tq_table_ok dump load s"
  shows "tq_table_ok dump load (tq_prune s)" "tq_view load (tq_prune s) = take (nat (tq_capacity s)) (tq_view load s)"
    and "tq_capacity (tq_prune s) = tq_capacity s"
    and "length (tq_rows (tq_prune s)) \<le> nat (tq_capacity s)"
proof -
  define xs where "xs = tq_loaded load s"
  define n where "n = nat (tq_capacity s)"
  define ys where "ys = filter (\<lambda>x. x \<in> set (take n (sorted_desc snapshot_key xs))) xs"
  have xs: "codec_ok dump load" "list_all snapshot_ok xs" "tq_rows s = map (tq_row dump) xs" "distinct (map snapshot_id xs)"
    using assms by (simp_all add: tq_table_ok_def xs_def)
  have inj: "inj_on snapshot_id (set xs)" using xs(4) by (simp add: distinct_map)
  have sub: "set (take n (sorted_desc snapshot_key xs)) \<subseteq> set xs"
    using set_take_subset [of n "sorted_desc snapshot_key xs"] by simp
  have keep: "take n (map tr_id (sorted_desc row_key (tq_rows s))) = map snapshot_id (take n (sorted_desc snapshot_key xs))"
    unfolding xs(3) sorted_rows_desc [OF xs(2,4)] by (simp add: take_map tq_row_def comp_def)
  have "tr_id (tq_row dump x) \<in> set (map snapshot_id (take n (sorted_desc snapshot_key xs))) \<longleftrightarrow>
      x \<in> set (take n (sorted_desc snapshot_key xs))" if "x \<in> set xs" for x
    using inj sub that by (auto simp: tq_row_def inj_on_def)
  then have rows: "tq_rows (tq_prune s) = map (tq_row dump) ys"
    unfolding tq_prune_def Let_def n_def [symmetric] keep
    by (simp add: xs(3) filter_map ys_def comp_def cong: filter_cong)
  have ys_ok: "list_all snapshot_ok ys" "distinct (map snapshot_id ys)"
    using xs(2,4) by (auto simp: ys_def list_all_iff intro: distinct_map_filter)
  have loaded: "tq_loaded load (tq_prune s) = ys" using tq_loaded_row [OF xs(1) ys_ok(1) rows] .
  show "tq_table_ok dump load (tq_prune s)" unfolding tq_table_ok_def loaded using xs(1) ys_ok rows by simp
  have set: "set ys = set (take n (sorted_desc snapshot_key xs))" using sub by (auto simp: ys_def)
  have desc: "descending snapshot_key (take n (sorted_desc snapshot_key xs))"
    by (intro descending_take descending_sorted_desc distinct_keys xs(4))
  have "sorted_desc snapshot_key ys = take n (sorted_desc snapshot_key xs)"
    using set by (intro descending_unique [OF _ desc] descending_sorted_desc distinct_keys ys_ok(2)) simp
  then show view: "tq_view load (tq_prune s) = take (nat (tq_capacity s)) (tq_view load s)"
    by (simp add: tq_view_def loaded xs_def n_def)
  have "length (tq_rows (tq_prune s)) = length (sorted_desc snapshot_key ys)" by (simp add: rows)
  also have "\<dots> \<le> n" using \<open>sorted_desc snapshot_key ys = take n (sorted_desc snapshot_key xs)\<close> by simp
  finally show "length (tq_rows (tq_prune s)) \<le> nat (tq_capacity s)" by (simp add: n_def)
  show "tq_capacity (tq_prune s) = tq_capacity s" by (simp add: tq_prune_def Let_def)
qed

lemma tq_view_ok: "tq_ok dump load s \<Longrightarrow> retained_ok (nat (tq_capacity s)) (tq_view load s)"
proof -
  assume ok: "tq_ok dump load s"
  then have d: "distinct (map snapshot_id (tq_loaded load s))" "length (tq_loaded load s) \<le> nat (tq_capacity s)"
    by (auto simp: tq_ok_def tq_table_ok_def tq_loaded_def)
  have "mset (map snapshot_id (tq_view load s)) = mset (map snapshot_id (tq_loaded load s))"
    by (metis tq_view_def mset_map mset_sorted_desc)
  then have "distinct (map snapshot_id (tq_view load s))" using d(1) by (metis mset_eq_imp_distinct_iff)
  then show ?thesis
    using d descending_sorted_desc [OF distinct_keys [OF d(1)]] by (simp add: retained_ok_def tq_view_def)
qed

lemma tq_load_all:
  assumes "tq_table_ok dump load s"
  shows "traverse (\<lambda>r. load (tr_payload r)) (sorted_desc row_key (tq_rows s)) = Inr (tq_view load s)"
proof -
  let ?xs = "tq_loaded load s"
  have t: "codec_ok dump load" "list_all snapshot_ok ?xs" "tq_rows s = map (tq_row dump) ?xs" "distinct (map snapshot_id ?xs)"
    using assms by (simp_all add: tq_table_ok_def)
  have "\<forall>x \<in> set (tq_view load s). snapshot_ok x" using t(2) by (simp add: tq_view_def list_all_iff)
  then have "traverse (\<lambda>r. load (tr_payload r)) (map (tq_row dump) (tq_view load s)) =
      Inr (map (\<lambda>r. projr (load (tr_payload r))) (map (tq_row dump) (tq_view load s)))"
    using t(1) by (intro traverse_total) (auto simp: tq_row_def codec_ok_def)
  moreover have "map (\<lambda>r. projr (load (tr_payload r))) (map (tq_row dump) (tq_view load s)) = tq_view load s"
    using t(1) \<open>\<forall>x \<in> set (tq_view load s). snapshot_ok x\<close>
    by (auto simp: tq_row_def codec_ok_def comp_def intro!: map_idI)
  moreover have "sorted_desc row_key (tq_rows s) = map (tq_row dump) (tq_view load s)"
    using sorted_rows_desc [OF t(2,4)] t(3) by (simp add: tq_view_def)
  ultimately show ?thesis by simp
qed

lemma find_map: "List.find P (map f xs) = map_option f (List.find (P \<circ> f) xs)"
  by (induction xs) auto

text \<open>Looking a snapshot up by its id does not depend on the order of the rows.\<close>

lemma tq_find:
  assumes "tq_table_ok dump load s"
  shows "List.find (\<lambda>r. tr_id r = i) (tq_rows s) =
    map_option (tq_row dump) (List.find (\<lambda>x. snapshot_id x = i) (tq_view load s))"
proof -
  let ?xs = "tq_loaded load s"
  have t: "tq_rows s = map (tq_row dump) ?xs" "distinct (map snapshot_id ?xs)"
    using assms by (simp_all add: tq_table_ok_def)
  have "mset (map snapshot_id (tq_view load s)) = mset (map snapshot_id ?xs)"
    by (metis tq_view_def mset_map mset_sorted_desc)
  then have d: "distinct (map snapshot_id (tq_view load s))" using t(2) by (metis mset_eq_imp_distinct_iff)
  have "List.find (\<lambda>x. snapshot_id x = i) ?xs = List.find (\<lambda>x. snapshot_id x = i) (tq_view load s)"
  proof (cases "i \<in> snapshot_id ` set ?xs")
    case True
    then obtain x where "x \<in> set ?xs" "snapshot_id x = i" by blast
    with find_by_id [OF _ t(2), of x] find_by_id [OF _ d, of x] show ?thesis by (simp add: tq_view_def)
  next
    case False
    then have "List.find (\<lambda>x. snapshot_id x = i) ?xs = None"
      "List.find (\<lambda>x. snapshot_id x = i) (tq_view load s) = None"
      by (auto simp: find_None_iff tq_view_def)
    then show ?thesis by simp
  qed
  then show ?thesis unfolding t(1) find_map by (simp add: comp_def tq_row_def)
qed

lemma tq_insert_view:
  assumes ok: "tq_ok dump load s" and x: "snapshot_ok x" and new: "snapshot_id x \<notin> snapshot_id ` set (tq_view load s)"
  shows "\<exists>s'. tq_insert dump x s = Inr s' \<and> tq_ok dump load s' \<and> tq_capacity s' = tq_capacity s \<and>
    tq_view load s' = take (nat (tq_capacity s)) (sorted_desc snapshot_key (x # tq_view load s))"
proof -
  let ?xs = "tq_loaded load s" and ?s = "s\<lparr>tq_rows := tq_rows s @ [tq_row dump x]\<rparr>"
  have t: "codec_ok dump load" "list_all snapshot_ok ?xs" "tq_rows s = map (tq_row dump) ?xs" "distinct (map snapshot_id ?xs)"
    using ok by (simp_all add: tq_ok_def tq_table_ok_def)
  have newx: "snapshot_id x \<notin> snapshot_id ` set ?xs" using new by (simp add: tq_view_def)
  have "tq_loaded load ?s = ?xs @ [x]"
    using t x by (intro tq_loaded_row [OF t(1)]) simp_all
  then have table: "tq_table_ok dump load ?s" using t x newx unfolding tq_table_ok_def by simp
  have "snapshot_id x \<notin> set (map tr_id (tq_rows s))"
    using newx t(3) by (metis (no_types, lifting) TelemetryRow.select_convs(1) image_set list.map_comp list.map_cong tq_row_def comp_apply)
  then have ins: "tq_insert dump x s = Inr (tq_prune ?s)" by (simp add: tq_insert_def)
  have view: "tq_view load ?s = sorted_desc snapshot_key (x # tq_view load s)"
    unfolding tq_view_def \<open>tq_loaded load ?s = ?xs @ [x]\<close>
  proof (rule sorted_desc_set)
    have "distinct (map snapshot_key ?xs)" using t(4) by (rule distinct_keys)
    then show "distinct (map snapshot_key (?xs @ [x]))"
      "distinct (map snapshot_key (x # sorted_desc snapshot_key ?xs))"
      using newx descending_distinct [OF descending_sorted_desc, of snapshot_key ?xs]
      by (auto dest: snapshot_key_inj [THEN sym] snapshot_key_inj)
  qed auto
  have "tq_ok dump load (tq_prune ?s)"
    using tq_prune_view [OF table] ok by (auto simp: tq_ok_def le_nat_iff)
  then show ?thesis using ins tq_prune_view [OF table] view by simp
qed

lemma tq_oldest:
  assumes ok: "tq_ok dump load s" and ne: "tq_rows s \<noteq> []"
  shows "\<exists>rest. sort_key row_key (tq_rows s) = tq_row dump (last (tq_view load s)) # rest"
proof -
  let ?xs = "tq_loaded load s"
  have t: "list_all snapshot_ok ?xs" "tq_rows s = map (tq_row dump) ?xs" "distinct (map snapshot_id ?xs)"
    using ok by (simp_all add: tq_ok_def tq_table_ok_def)
  have d: "distinct (map row_key (tq_rows s))"
    using t(2,3) by (auto simp: distinct_map inj_on_def row_key_def tq_row_def)
  have "sort_key row_key (tq_rows s) = sort_key row_key (rev (tq_rows s))"
    using d by (intro sort_key_inj_key_eq) (simp_all add: distinct_map)
  also have "\<dots> = rev (sorted_desc row_key (tq_rows s))" by (simp add: sorted_desc_def)
  also have "sorted_desc row_key (tq_rows s) = map (tq_row dump) (tq_view load s)"
    using sorted_rows_desc [OF t(1,3)] t(2) by (simp add: tq_view_def)
  finally have "sort_key row_key (tq_rows s) = rev (map (tq_row dump) (tq_view load s))" .
  moreover have "tq_view load s \<noteq> []"
    using ne t(2) by (metis length_0_conv length_sorted_desc list.simps(8) tq_view_def)
  ultimately show ?thesis by (cases "tq_view load s" rule: rev_cases) auto
qed

lemma tq_save_view:
  assumes ok: "tq_ok dump load s" and x: "snapshot_ok x"
  shows "(\<exists>e. tq_save dump load x s = Inl e \<and> spec_save (nat (tq_capacity s)) x (tq_view load s) = Inl e) \<or>
    (\<exists>c s'. tq_save dump load x s = Inr (c, s') \<and> tq_ok dump load s' \<and> tq_capacity s' = tq_capacity s \<and>
      spec_save (nat (tq_capacity s)) x (tq_view load s) = Inr (c, tq_view load s'))"
proof -
  have table: "tq_table_ok dump load s" and codec: "codec_ok dump load" and cap: "1 \<le> tq_capacity s"
    using ok by (simp_all add: tq_ok_def tq_table_ok_def)
  have len: "length (tq_rows s) = length (tq_view load s)" by (simp add: tq_view_def tq_loaded_def)
  show ?thesis
  proof (cases "List.find (\<lambda>y. snapshot_id y = snapshot_id x) (tq_view load s)")
    case (Some e)
    then have "e \<in> set (tq_view load s)" by (auto simp: find_Some_iff)
    then have "snapshot_ok e" using table by (simp add: tq_table_ok_def tq_view_def list_all_iff)
    then have "load (tr_payload (tq_row dump e)) = Inr e" using codec by (simp add: codec_ok_def tq_row_def)
    then show ?thesis using Some ok by (auto simp: tq_save_def tq_find [OF table] spec_save_def)
  next
    case None
    then have new: "snapshot_id x \<notin> snapshot_id ` set (tq_view load s)" by (auto simp: find_None_iff)
    obtain s1 where s1: "tq_insert dump x s = Inr s1" "tq_ok dump load s1" "tq_capacity s1 = tq_capacity s"
      "tq_view load s1 = take (nat (tq_capacity s)) (sorted_desc snapshot_key (x # tq_view load s))"
      using tq_insert_view [OF ok x new] by blast
    show ?thesis
    proof (cases "tq_capacity s \<le> int (length (tq_rows s))")
      case True
      then have ne: "tq_rows s \<noteq> []" using cap by auto
      obtain rest where old: "sort_key row_key (tq_rows s) = tq_row dump (last (tq_view load s)) # rest"
        using tq_oldest [OF ok ne] by blast
      have full: "nat (tq_capacity s) \<le> length (tq_view load s)" using True len by simp
      have "tq_view load s \<noteq> []" using ne len by auto
      then have "snapshot_ok (last (tq_view load s))"
        using table by (metis last_in_set list_all_iff set_sorted_desc tq_table_ok_def tq_view_def)
      note le = row_key_le(1) [OF x this, of dump]
      show ?thesis
        using None True old full le s1 ok by (auto simp: tq_save_def tq_find [OF table] spec_save_def)
    next
      case False
      then have "\<not> nat (tq_capacity s) \<le> length (tq_view load s)" using len by simp
      then show ?thesis using None False s1 by (auto simp: tq_save_def tq_find [OF table] spec_save_def)
    qed
  qed
qed

interpretation sqlite_snapshots: telemetry_repository "tq_ok dump load" "\<lambda>s. nat (tq_capacity s)" "tq_view load"
  "tq_save dump load" "tq_latest load" "tq_recent load" for dump load
proof unfold_locales
  fix s x e assume "tq_ok dump load s" "snapshot_ok x"
  from tq_save_view [OF this]
  show "tq_save dump load x s = Inl e \<longleftrightarrow> spec_save (nat (tq_capacity s)) x (tq_view load s) = Inl e" by auto
next
  fix s x created s' assume a: "tq_ok dump load s" "snapshot_ok x" and save: "tq_save dump load x s = Inr (created, s')"
  from tq_save_view [OF a] save
  show "tq_ok dump load s' \<and> nat (tq_capacity s') = nat (tq_capacity s) \<and>
    spec_save (nat (tq_capacity s)) x (tq_view load s) = Inr (created, tq_view load s')" by auto
next
  fix s fp assume ok: "tq_ok dump load s"
  then have "tq_table_ok dump load s" by (simp add: tq_ok_def)
  note all = tq_load_all [OF this]
  show "tq_latest load fp s = Inr (spec_newest fp (tq_view load s))"
    unfolding tq_latest_def tq_load_recent_def all
    by (cases "filter (with_fingerprint fp) (tq_view load s)") (simp_all add: spec_newest_def spec_recent_def)
  have "length (filter (with_fingerprint fp) (tq_view load s)) \<le> nat (tq_capacity s)"
    using tq_view_ok [OF ok] length_filter_le order_trans unfolding retained_ok_def by blast
  then show "tq_recent load fp s = Inr (spec_recent fp (tq_view load s))"
    unfolding tq_recent_def tq_load_recent_def all by (simp add: spec_recent_def)
next
  fix s assume ok: "tq_ok dump load s"
  then have "1 \<le> tq_capacity s" by (simp add: tq_ok_def)
  then show "1 \<le> nat (tq_capacity s) \<and> retained_ok (nat (tq_capacity s)) (tq_view load s)"
    using tq_view_ok [OF ok] by simp
qed

text \<open>Opening a database keeps the newest snapshots.\<close>

lemma tq_open_view:
  assumes "tq_table_ok dump load database" "tq_open capacity database = Inr s"
  shows "tq_ok dump load s \<and> tq_capacity s = capacity \<and> tq_view load s = take (nat capacity) (tq_view load database)"
proof -
  let ?d = "database\<lparr>tq_capacity := capacity\<rparr>"
  have s: "s = tq_prune ?d" "1 \<le> capacity" using assms(2) by (auto simp: tq_open_def rbind_eq_Inr)
  have "tq_loaded load ?d = tq_loaded load database" by (simp add: tq_loaded_def)
  then have t: "tq_table_ok dump load ?d" and v: "tq_view load ?d = tq_view load database"
    using assms(1) by (simp_all add: tq_table_ok_def tq_view_def)
  from tq_prune_view [OF t] s v show ?thesis by (auto simp: tq_ok_def)
qed

lemma tq_fresh:
  assumes "codec_ok dump load" "tq_open capacity tq_empty = Inr s"
  shows "tq_ok dump load s \<and> tq_capacity s = capacity \<and> tq_view load s = []"
proof -
  have "tq_table_ok dump load tq_empty" "tq_view load tq_empty = []"
    using assms(1) by (simp_all add: tq_table_ok_def tq_empty_def tq_loaded_def tq_view_def sorted_desc_def)
  with tq_open_view [OF _ assms(2)] show ?thesis by simp
qed

end
