(* ===== verification/Telemetry_Stores.thy ===== *)
theory Telemetry_Stores
  imports Telemetry_Sqlite Canonical_Json
begin

text \<open>
  What the two telemetry stores guarantee together, and an instance of the payload codec
  that satisfies \<open>codec_ok\<close>: a prefix code for every part of a snapshot.
\<close>

section \<open>A codec\<close>

fun code_list :: "('a \<Rightarrow> string) \<Rightarrow> 'a list \<Rightarrow> string" where
  "code_list f [] = ''0''"
| "code_list f (x # xs) = ''1'' @ f x @ code_list f xs"

definition code_pair :: "('a \<Rightarrow> string) \<Rightarrow> ('b \<Rightarrow> string) \<Rightarrow> 'a \<times> 'b \<Rightarrow> string" where
  "code_pair f g p = f (fst p) @ g (snd p)"

definition code_option :: "('a \<Rightarrow> string) \<Rightarrow> 'a option \<Rightarrow> string" where
  "code_option f v = code_list f (case v of None \<Rightarrow> [] | Some x \<Rightarrow> [x])"

definition code_char :: "char \<Rightarrow> string" where
  "code_char c = [c]"

definition code_bool :: "bool \<Rightarrow> string" where
  "code_bool b = (if b then ''1'' else ''0'')"

definition code_nat :: "nat \<Rightarrow> string" where
  "code_nat n = code_list code_bool (replicate n True)"

definition code_int :: "int \<Rightarrow> string" where
  "code_int i = code_pair code_bool code_nat (i < 0, nat \<bar>i\<bar>)"

abbreviation code_string :: "string \<Rightarrow> string" where
  "code_string \<equiv> code_list code_char"

lemma code_list_code: "prefix_code f \<Longrightarrow> prefix_code (code_list f)"
proof -
  assume f: "prefix_code f"
  have "code_list f xs @ r = code_list f ys @ r' \<Longrightarrow> xs = ys \<and> r = r'" for xs ys r r'
  proof (induction xs arbitrary: ys)
    case Nil
    then show ?case by (cases ys) auto
  next
    case (Cons x xs)
    show ?case
    proof (cases ys)
      case (Cons y ys')
      with Cons.prems have "f x @ code_list f xs @ r = f y @ code_list f ys' @ r'" by simp
      from prefix_codeD [OF f this] Cons.IH [of ys'] Cons show ?thesis by blast
    qed (use Cons.prems in simp)
  qed
  then show ?thesis unfolding prefix_code_def by blast
qed

lemma code_pair_code: "prefix_code f \<Longrightarrow> prefix_code g \<Longrightarrow> prefix_code (code_pair f g)"
  unfolding prefix_code_def code_pair_def by (metis append.assoc prod.expand)

text \<open>A code of an injective view is a code.\<close>

lemma code_view:
  assumes "prefix_code f" "\<And>x y. view x = view y \<Longrightarrow> x = y" "\<And>x. g x = f (view x)"
  shows "prefix_code g"
  using assms unfolding prefix_code_def by metis

lemma code_basics: "prefix_code code_char" "prefix_code code_bool"
  by (auto simp: prefix_code_def code_char_def code_bool_def)

lemma code_nat_code: "prefix_code code_nat"
  by (rule code_view [OF code_list_code [OF code_basics(2)] _ code_nat_def])
    (simp add: replicate_eq_replicate)

lemma code_int_code: "prefix_code code_int"
  by (rule code_view [OF code_pair_code [OF code_basics(2) code_nat_code] _ code_int_def]) auto

lemma code_option_code: "prefix_code f \<Longrightarrow> prefix_code (code_option f)"
  by (rule code_view [OF code_list_code _ code_option_def]) (auto split: option.splits)

definition code_state :: "TelemetryState \<Rightarrow> string" where
  "code_state s = code_nat (case s of UP \<Rightarrow> 0 | DOWN \<Rightarrow> 1 | UNKNOWN \<Rightarrow> 2)"

definition code_time :: "datetime \<Rightarrow> string" where
  "code_time t = code_pair (code_list code_nat) (code_option code_int) (dt_key t, dt_offset t)"

definition code_interface :: "InterfaceTelemetry \<Rightarrow> string" where
  "code_interface i = code_pair code_string (code_pair code_state (code_list code_int))
     (it_name i, it_state i, [it_rx_bytes i, it_tx_bytes i, it_rx_drops i, it_tx_drops i])"

definition code_neighbor :: "OspfNeighborTelemetry \<Rightarrow> string" where
  "code_neighbor n = code_pair code_string (code_pair code_string code_state) (on_neighbor n, on_interface n, on_state n)"

definition code_peer :: "BfdPeerTelemetry \<Rightarrow> string" where
  "code_peer p = code_pair code_string (code_pair code_string (code_pair code_bool code_state))
     (bp_peer p, bp_interface p, bp_configured p, bp_state p)"

definition code_route :: "RouteTelemetry \<Rightarrow> string" where
  "code_route r = code_pair code_string (code_pair code_bool (code_pair (code_option code_int) (code_option code_string)))
     (rt_prefix r, rt_present r, rt_metric r, rt_egress_interface r)"

definition code_router :: "RouterTelemetry \<Rightarrow> string" where
  "code_router r = code_pair code_string (code_pair code_bool (code_pair code_state (code_pair (code_option code_string)
     (code_pair (code_list code_interface) (code_pair (code_list code_neighbor)
       (code_pair (code_list code_peer) (code_list code_route)))))))
     (router_name r, collection_success r, router_state r, collection_error r, interfaces r, ospf_neighbors r,
      bfd_peers r, routes r)"

definition dump_snapshot :: "TelemetrySnapshot \<Rightarrow> string" where
  "dump_snapshot s = code_pair code_string (code_pair code_time (code_pair code_string (code_list code_router)))
     (snapshot_id s, snapshot_observed_at s, topology_fp s, snapshot_routers s)"

definition load_snapshot :: "string \<Rightarrow> TelemetrySnapshot result" where
  "load_snapshot text =
     (if text \<in> range dump_snapshot then Inr (inv dump_snapshot text) else Inl (ValueError ''invalid payload''))"

lemma code_string_code: "prefix_code code_string"
  by (rule code_list_code [OF code_basics(1)])

lemma code_state_code: "prefix_code code_state"
  by (rule code_view [OF code_nat_code _ code_state_def]) (auto split: TelemetryState.splits)

lemma code_time_code: "prefix_code code_time"
  by (rule code_view [OF code_pair_code [OF code_list_code [OF code_nat_code] code_option_code [OF code_int_code]]
      _ code_time_def]) (simp add: dt_key_def)

lemma code_interface_code: "prefix_code code_interface"
  by (rule code_view [OF code_pair_code [OF code_string_code code_pair_code [OF code_state_code code_list_code [OF code_int_code]]] _ code_interface_def]) simp

lemma code_neighbor_code: "prefix_code code_neighbor"
  by (rule code_view [OF code_pair_code [OF code_string_code code_pair_code [OF code_string_code code_state_code]] _ code_neighbor_def]) simp

lemma code_peer_code: "prefix_code code_peer"
  by (rule code_view [OF code_pair_code [OF code_string_code code_pair_code [OF code_string_code code_pair_code [OF code_basics(2) code_state_code]]] _ code_peer_def]) simp

lemma code_route_code: "prefix_code code_route"
  by (rule code_view [OF code_pair_code [OF code_string_code code_pair_code [OF code_basics(2) code_pair_code [OF code_option_code [OF code_int_code] code_option_code [OF code_string_code]]]] _ code_route_def]) simp

lemma code_router_code: "prefix_code code_router"
  by (rule code_view [OF code_pair_code [OF code_string_code code_pair_code [OF code_basics(2) code_pair_code [OF code_state_code code_pair_code [OF code_option_code [OF code_string_code] code_pair_code [OF code_list_code [OF code_interface_code] code_pair_code [OF code_list_code [OF code_neighbor_code] code_pair_code [OF code_list_code [OF code_peer_code] code_list_code [OF code_route_code]]]]]]]] _ code_router_def]) simp

lemma dump_snapshot_inj: "inj dump_snapshot"
proof -
  have "prefix_code dump_snapshot"
    by (rule code_view [OF code_pair_code [OF code_string_code code_pair_code [OF code_time_code code_pair_code [OF code_string_code code_list_code [OF code_router_code]]]] _ dump_snapshot_def]) simp
  then show ?thesis unfolding inj_def prefix_code_def by (metis append_Nil2)
qed

lemma snapshot_codec: "codec_ok dump_snapshot load_snapshot"
  by (simp add: codec_ok_def load_snapshot_def inv_f_f [OF dump_snapshot_inj])

lemma memory_opens: "1 \<le> capacity \<Longrightarrow> \<exists>m. mk_telemetry_store capacity = Inr m"
  by (simp add: mk_telemetry_store_def)

lemma sqlite_opens: "1 \<le> capacity \<Longrightarrow> capacity < 2 ^ 63 \<Longrightarrow> \<exists>q. tq_open capacity database = Inr q"
  by (simp add: tq_open_def sq_bind_def int64_option_def int64_def)

section \<open>Example snapshots\<close>

definition example_routers :: "RouterTelemetry list" where
  "example_routers =
     map (\<lambda>n. \<lparr>router_name = n, collection_success = False, router_state = UNKNOWN,
       collection_error = Some ''collection timed out'', interfaces = [], ospf_neighbors = [], bfd_peers = [],
       routes = []\<rparr>) BASELINE_ROUTERS"

definition example_fp :: string where
  "example_fp = replicate 64 (CHR ''a'')"

definition example_snapshot :: "string \<Rightarrow> nat \<Rightarrow> TelemetrySnapshot" where
  "example_snapshot i minute =
     \<lparr>snapshot_id = i, snapshot_observed_at = \<lparr>dt_year = 2026, dt_month = 7, dt_day = 1, dt_hour = 12,
        dt_minute = minute, dt_second = 0, dt_microsecond = 0, dt_offset = Some 0\<rparr>,
      topology_fp = example_fp, snapshot_routers = example_routers\<rparr>"

lemma example_routers_ok:
  "list_all router_ok example_routers" "distinct (map router_name example_routers)"
  "set (map router_name example_routers) = set BASELINE_ROUTERS" "hex_of_length 64 example_fp"
proof -
  have "list_all (\<lambda>r. isl (validate_router r) = False) example_routers" by code_simp
  then show "list_all router_ok example_routers"
    unfolding list_all_iff by (metis isl_def sum.collapse(2) validate_router_Inr)
  show "distinct (map router_name example_routers)" "hex_of_length 64 example_fp" by code_simp+
  show "set (map router_name example_routers) = set BASELINE_ROUTERS" by (simp add: example_routers_def comp_def)
qed

lemma example_snapshot_ok: "telemetry_identifier i \<Longrightarrow> minute < 60 \<Longrightarrow> snapshot_ok (example_snapshot i minute)"
  using example_routers_ok
  by (simp add: snapshot_ok_def example_snapshot_def civil_datetime_def valid_datetime_def days_in_month_def is_utc_def)

section \<open>Properties\<close>

text \<open>
  C15: Snapshot validation is exact: a snapshot is accepted if and only if its time has an
  offset, converts to UTC, and the snapshot with that time meets every constraint of the
  models - identifiers, counters of 64 bits, canonical prefixes, no partial observations of a
  failed router, references to known interfaces only, each baseline router exactly once.
  The accepted value is that snapshot, and validating it again changes nothing.
\<close>

theorem snapshot_validation_exact:
  assumes "civil_datetime (snapshot_observed_at s)"
  shows "(validate_snapshot s = Inr t) =
      (\<exists>u. aware (snapshot_observed_at s) \<and> to_utc (snapshot_observed_at s) = Inr u \<and>
        t = s\<lparr>snapshot_observed_at := u\<rparr> \<and> snapshot_ok t \<and> validate_snapshot t = Inr t)"
proof
  assume v: "validate_snapshot s = Inr t"
  then have "aware (snapshot_observed_at s)" by (auto simp: validate_snapshot_def rbind_eq_Inr)
  then show "\<exists>u. aware (snapshot_observed_at s) \<and> to_utc (snapshot_observed_at s) = Inr u \<and>
        t = s\<lparr>snapshot_observed_at := u\<rparr> \<and> snapshot_ok t \<and> validate_snapshot t = Inr t"
    using validate_snapshot_Inr [OF assms v] validate_snapshot_fixed by blast
next
  assume "\<exists>u. aware (snapshot_observed_at s) \<and> to_utc (snapshot_observed_at s) = Inr u \<and>
        t = s\<lparr>snapshot_observed_at := u\<rparr> \<and> snapshot_ok t \<and> validate_snapshot t = Inr t"
  then obtain u where u: "aware (snapshot_observed_at s)" "to_utc (snapshot_observed_at s) = Inr u"
    "t = s\<lparr>snapshot_observed_at := u\<rparr>" "snapshot_ok t" by blast
  then have "each (\<lambda>r. rbind (validate_router r) (\<lambda>_. Inr ())) (snapshot_routers s) = Inr ()"
    unfolding each_validated [of validate_router, OF validate_router_Inr] by (simp add: snapshot_ok_def)
  with u show "validate_snapshot s = Inr t" unfolding validate_snapshot_def snapshot_ok_def by simp
qed

theorem snapshot_validation_exact_witness:
  "validate_snapshot ((example_snapshot ''a'' 30)\<lparr>snapshot_observed_at :=
      (snapshot_observed_at (example_snapshot ''a'' 30))\<lparr>dt_hour := 13, dt_offset := Some 3600\<rparr>\<rparr>) =
    Inr (example_snapshot ''a'' 30)"
proof -
  let ?t = "(snapshot_observed_at (example_snapshot ''a'' 30))\<lparr>dt_hour := 13, dt_offset := Some 3600\<rparr>"
  let ?s = "(example_snapshot ''a'' 30)\<lparr>snapshot_observed_at := ?t\<rparr>"
  have civil: "civil_datetime (snapshot_observed_at ?s)"
    by (simp add: example_snapshot_def civil_datetime_def valid_datetime_def days_in_month_def)
  have "telemetry_identifier ''a''" by code_simp
  then have ok: "snapshot_ok (example_snapshot ''a'' 30)" by (simp add: example_snapshot_ok)
  have "to_utc ?t = Inr (snapshot_observed_at (example_snapshot ''a'' 30))" "aware ?t"
    by (simp_all add: to_utc_def aware_def example_snapshot_def shift_utc_def shift_date_def Let_def seconds_of_day_def)
  then show ?thesis
    using snapshot_validation_exact [OF civil, of "example_snapshot ''a'' 30"] ok validate_snapshot_fixed [OF ok] by simp
qed

text \<open>
  C10: Retention is by age, not by arrival. From a fresh store of either kind, whatever the
  order in which snapshots with distinct ids are saved, what is retained is exactly the
  newest \<open>capacity\<close> of all of them, listed from newest to oldest (by time, then id).
\<close>

theorem telemetry_retention:
  assumes "codec_ok dump load" "mk_telemetry_store capacity = Inr m" "tq_open capacity tq_empty = Inr q"
    and "list_all snapshot_ok xs" "distinct (map snapshot_id xs)"
  shows "ts_recent None (after_saves ts_save xs m) = Inr (take (nat capacity) (sorted_desc snapshot_key xs)) \<and>
    tq_recent load None (after_saves (tq_save dump load) xs q) = Inr (take (nat capacity) (sorted_desc snapshot_key xs))"
proof -
  have m: "ts_ok m" "ts_view m = []" "ts_capacity m = capacity" using ts_fresh [OF assms(2)] by blast+
  have q: "tq_ok dump load q" "tq_view load q = []" "tq_capacity q = capacity"
    using tq_fresh [OF assms(1,3)] by blast+
  from memory_snapshots.newest_retained [OF m(1,2) assms(4,5)] m(3)
    sqlite_snapshots.newest_retained [OF q(1,2) assms(4,5)] q(3)
  show ?thesis by simp
qed

theorem telemetry_retention_witness:
  "\<exists>m q. mk_telemetry_store 1 = Inr m \<and> tq_open 1 tq_empty = Inr q \<and>
    ts_recent None (after_saves ts_save [example_snapshot ''b'' 5, example_snapshot ''a'' 3] m) =
      Inr (take (nat 1) (sorted_desc snapshot_key [example_snapshot ''b'' 5, example_snapshot ''a'' 3])) \<and>
    tq_recent load_snapshot None (after_saves (tq_save dump_snapshot load_snapshot)
        [example_snapshot ''b'' 5, example_snapshot ''a'' 3] q) =
      Inr (take (nat 1) (sorted_desc snapshot_key [example_snapshot ''b'' 5, example_snapshot ''a'' 3]))"
proof -
  obtain m q where "mk_telemetry_store 1 = Inr m" "tq_open 1 tq_empty = Inr q"
    using memory_opens sqlite_opens by fastforce
  moreover have "telemetry_identifier ''a''" "telemetry_identifier ''b''" by code_simp+
  then have "list_all snapshot_ok [example_snapshot ''b'' 5, example_snapshot ''a'' 3]"
    by (simp add: example_snapshot_ok)
  moreover have "distinct (map snapshot_id [example_snapshot ''b'' 5, example_snapshot ''a'' 3])"
    by (simp add: example_snapshot_def)
  ultimately show ?thesis using telemetry_retention [OF snapshot_codec, of 1 m q] by blast
qed

text \<open>
  C11: The SQLite and the in-memory telemetry store are interchangeable: opened fresh with
  the same capacity, they give the same answer to every operation of every sequence of
  saves and queries of valid snapshots, refusals included.
\<close>

theorem telemetry_stores_equivalent:
  assumes "codec_ok dump load" "mk_telemetry_store capacity = Inr m" "tq_open capacity tq_empty = Inr q"
    and "list_all op_snapshot_ok ops"
  shows "telemetry_answers ts_save ts_latest ts_recent ops m =
    telemetry_answers (tq_save dump load) (tq_latest load) (tq_recent load) ops q"
proof -
  have m: "ts_ok m" "ts_view m = []" "ts_capacity m = capacity" using ts_fresh [OF assms(2)] by blast+
  have q: "tq_ok dump load q" "tq_view load q = []" "tq_capacity q = capacity"
    using tq_fresh [OF assms(1,3)] by blast+
  show ?thesis
    unfolding memory_snapshots.answers_spec [OF m(1) assms(4)] sqlite_snapshots.answers_spec [OF q(1) assms(4)] m q ..
qed

theorem telemetry_stores_equivalent_witness:
  "\<exists>m q. mk_telemetry_store 2 = Inr m \<and> tq_open 2 tq_empty = Inr q \<and>
    telemetry_answers ts_save ts_latest ts_recent
      [SaveOp (example_snapshot ''b'' 5), SaveOp (example_snapshot ''b'' 6), LatestOp None, RecentOp (Some example_fp)] m =
    telemetry_answers (tq_save dump_snapshot load_snapshot) (tq_latest load_snapshot) (tq_recent load_snapshot)
      [SaveOp (example_snapshot ''b'' 5), SaveOp (example_snapshot ''b'' 6), LatestOp None, RecentOp (Some example_fp)] q"
proof -
  obtain m q where "mk_telemetry_store 2 = Inr m" "tq_open 2 tq_empty = Inr q"
    using memory_opens sqlite_opens by fastforce
  moreover have "telemetry_identifier ''b''" by code_simp
  then have "list_all op_snapshot_ok
      [SaveOp (example_snapshot ''b'' 5), SaveOp (example_snapshot ''b'' 6), LatestOp None, RecentOp (Some example_fp)]"
    by (simp add: example_snapshot_ok)
  ultimately show ?thesis using telemetry_stores_equivalent [OF snapshot_codec, of 2 m q] by blast
qed

text \<open>
  Restarting keeps the newest snapshots: reopening a telemetry database with a capacity
  of one's own answers as before, except that the snapshots beyond the new capacity are
  gone, oldest first; with a capacity that is not smaller nothing changes.
\<close>

theorem telemetry_restart:
  assumes "codec_ok dump load" "tq_open capacity tq_empty = Inr q" "list_all snapshot_ok xs"
    and "tq_open capacity' (after_saves (tq_save dump load) xs q) = Inr q'"
  shows "\<exists>kept. tq_recent load None (after_saves (tq_save dump load) xs q) = Inr kept \<and>
    tq_recent load None q' = Inr (take (nat capacity') kept) \<and>
    tq_latest load None q' = tq_latest load None (after_saves (tq_save dump load) xs q) \<and>
    (capacity \<le> capacity' \<longrightarrow> tq_recent load None q' = Inr kept)"
proof -
  let ?s = "after_saves (tq_save dump load) xs q"
  have q: "tq_ok dump load q" "tq_capacity q = capacity" using tq_fresh [OF assms(1,2)] by blast+
  have s: "tq_ok dump load ?s" "tq_capacity ?s = capacity"
    using sqlite_snapshots.after_saves_spec [OF q(1) assms(3)] q(1,2) tq_ok_def
    by (auto simp: tq_ok_def nat_eq_iff)
  then have "tq_table_ok dump load ?s" by (simp add: tq_ok_def)
  note open' = tq_open_view [OF this assms(4)]
  have len: "length (tq_view load ?s) \<le> nat capacity" using tq_view_ok [OF s(1)] s(2) by (simp add: retained_ok_def)
  have pos: "1 \<le> capacity'" using open' by (auto simp: tq_ok_def)
  have view: "tq_view load q' = take (nat capacity') (tq_view load ?s)" "tq_ok dump load q'" using open' by blast+
  have all: "spec_recent None r = r" for r by (simp add: spec_recent_def with_fingerprint_def)
  have newest: "spec_newest None (take (nat capacity') r) = spec_newest None r" for r
    using pos by (cases r) (simp_all add: spec_newest_def all take_Cons')
  show ?thesis
    using sqlite_snapshots.recent_spec [OF s(1), of None] sqlite_snapshots.recent_spec [OF view(2), of None]
      sqlite_snapshots.latest_spec [OF s(1), of None] sqlite_snapshots.latest_spec [OF view(2), of None] len
    by (auto simp: all view(1) newest)
qed

theorem telemetry_restart_witness:
  "\<exists>q q' kept. tq_open 2 tq_empty = Inr q \<and>
    tq_open 1 (after_saves (tq_save dump_snapshot load_snapshot) [example_snapshot ''b'' 5, example_snapshot ''a'' 3] q) = Inr q' \<and>
    tq_recent load_snapshot None q' = Inr (take 1 kept) \<and>
    tq_latest load_snapshot None q' = tq_latest load_snapshot None
      (after_saves (tq_save dump_snapshot load_snapshot) [example_snapshot ''b'' 5, example_snapshot ''a'' 3] q)"
proof -
  let ?xs = "[example_snapshot ''b'' 5, example_snapshot ''a'' 3]"
  obtain q where q: "tq_open 2 tq_empty = Inr q" using sqlite_opens [of 2] by auto
  obtain q' where q': "tq_open 1 (after_saves (tq_save dump_snapshot load_snapshot) ?xs q) = Inr q'"
    using sqlite_opens [of 1] by auto
  have "telemetry_identifier ''a''" "telemetry_identifier ''b''" by code_simp+
  then have "list_all snapshot_ok ?xs" by (simp add: example_snapshot_ok)
  from telemetry_restart [OF snapshot_codec q this q'] q q' show ?thesis by auto
qed

end
