(* ===== verification/Telemetry_Binding.thy ===== *)
theory Telemetry_Binding
  imports Telemetry_Models Design_Intent Json_Value
begin

text \<open>
  \<open>telemetry_config.py\<close>: the telemetry configuration, the containerlab topology, and the
  binding that joins both with the network intent, which snapshots are then checked
  against. YAML parsing is a parameter: the containerlab file is the document it yields
  (with string keys), the configuration and the intent are their typed models before
  validation. SHA-256 is a parameter too; file contents are byte strings.
\<close>

section \<open>Configuration models\<close>

record TelemetryTarget =
  tt_node :: string
  tt_container :: string

record TelemetryConfig =
  tc_version :: int
  tc_poll_interval_seconds :: int
  tc_service_prefix :: string
  tc_routers :: "TelemetryTarget list"

definition validate_telemetry_config :: "TelemetryConfig \<Rightarrow> TelemetryConfig result" where
  "validate_telemetry_config c =
     rbind (ensure (tc_version c = 1) ''unsupported telemetry configuration version'') (\<lambda>_.
     rbind (ensure (1 \<le> tc_poll_interval_seconds c \<and> tc_poll_interval_seconds c \<le> 60)
       ''poll_interval_seconds out of range'') (\<lambda>_.
     rbind (ensure (3 \<le> length (tc_service_prefix c) \<and> length (tc_service_prefix c) \<le> 64)
       ''service_prefix: string length'') (\<lambda>_.
     rbind (ensure (canonical_prefix (tc_service_prefix c))
       (''invalid canonical service prefix: '' @ tc_service_prefix c)) (\<lambda>_.
     rbind (each (\<lambda>t. ensure (config_identifier (tt_node t) \<and> config_identifier (tt_container t))
       ''string should match pattern'') (tc_routers c)) (\<lambda>_.
     rbind (ensure (distinct (map tt_node (tc_routers c)) \<and> distinct (map tt_container (tc_routers c)))
       ''telemetry router nodes and containers must be unique'') (\<lambda>_.
     rbind (ensure (set (map tt_node (tc_routers c)) = set BASELINE_ROUTERS)
       ''telemetry config must contain exactly the baseline routers'') (\<lambda>_.
       Inr c)))))))"

record BoundTelemetryPeer =
  btp_peer :: string
  btp_interface :: string

record BoundTelemetryTarget =
  btt_node :: string
  btt_container :: string
  btt_role :: NodeRole
  btt_interfaces :: "string list"
  btt_protocol_peers :: "BoundTelemetryPeer list"

record TelemetryLink =
  tl_id :: string
  tl_source :: string
  tl_source_interface :: string
  tl_target :: string
  tl_target_interface :: string

record TelemetryTopologyBinding =
  binding_config :: TelemetryConfig
  binding_fp :: string
  binding_targets :: "BoundTelemetryTarget list"
  binding_links :: "TelemetryLink list"

definition peer_pair :: "BoundTelemetryPeer \<Rightarrow> string \<times> string" where
  "peer_pair p = (btp_peer p, btp_interface p)"

definition validate_bound_peer :: "BoundTelemetryPeer \<Rightarrow> BoundTelemetryPeer result" where
  "validate_bound_peer p =
     rbind (ensure (config_identifier (btp_peer p) \<and> config_identifier (btp_interface p))
       ''string should match pattern'') (\<lambda>_. Inr p)"

definition validate_bound_target :: "BoundTelemetryTarget \<Rightarrow> BoundTelemetryTarget result" where
  "validate_bound_target t =
     rbind (ensure (config_identifier (btt_node t) \<and> config_identifier (btt_container t) \<and>
       list_all config_identifier (btt_interfaces t)) ''string should match pattern'') (\<lambda>_.
     rbind (ensure (1 \<le> length (btt_interfaces t) \<and> length (btt_interfaces t) \<le> 64 \<and>
       length (btt_protocol_peers t) \<le> 64) ''tuple length'') (\<lambda>_.
     rbind (ensure (distinct (btt_interfaces t)) ''bound target interfaces must be unique'') (\<lambda>_.
     rbind (ensure (distinct (map peer_pair (btt_protocol_peers t)))
       ''bound target protocol peers must be unique'') (\<lambda>_.
     rbind (ensure (\<forall>p \<in> set (btt_protocol_peers t). btp_interface p \<in> set (btt_interfaces t))
       ''bound protocol peer references unknown interface'') (\<lambda>_.
       Inr t)))))"

definition validate_telemetry_link :: "TelemetryLink \<Rightarrow> TelemetryLink result" where
  "validate_telemetry_link l =
     rbind (ensure (list_all config_identifier
       [tl_id l, tl_source l, tl_source_interface l, tl_target l, tl_target_interface l])
       ''string should match pattern'') (\<lambda>_. Inr l)"

definition validate_binding :: "TelemetryTopologyBinding \<Rightarrow> TelemetryTopologyBinding result" where
  "validate_binding b =
     rbind (ensure (hex_of_length 64 (binding_fp b)) ''fingerprint: string should match pattern'') (\<lambda>_.
     rbind (ensure (length (binding_targets b) = 6) ''targets: tuple length'') (\<lambda>_.
     rbind (ensure (1 \<le> length (binding_links b) \<and> length (binding_links b) \<le> 64) ''links: tuple length'') (\<lambda>_.
       Inr b)))"

definition binding_target :: "TelemetryTopologyBinding \<Rightarrow> string \<Rightarrow> BoundTelemetryTarget result" where
  "binding_target b node =
     (case List.find (\<lambda>t. btt_node t = node) (binding_targets b) of
        None \<Rightarrow> Inl (KeyError (''unknown telemetry target: '' @ node))
      | Some t \<Rightarrow> Inr t)"

definition interface_link_id :: "TelemetryTopologyBinding \<Rightarrow> string \<Rightarrow> string \<Rightarrow> string option" where
  "interface_link_id b node interface =
     map_option tl_id (List.find (\<lambda>l.
       tl_source l = node \<and> tl_source_interface l = interface \<or>
       tl_target l = node \<and> tl_target_interface l = interface) (binding_links b))"

section \<open>The containerlab topology\<close>

type_synonym endpoint = "string \<times> string"
type_synonym clab_links = "(string list \<times> endpoint \<times> endpoint) list"

definition clab_mapping :: "json \<Rightarrow> string \<Rightarrow> (string \<times> json) list result" where
  "clab_mapping value context_text =
     (case value of JObject d \<Rightarrow> Inr d | _ \<Rightarrow> Inl (ValueError (context_text @ '' must be a mapping'')))"

definition clab_sequence :: "json \<Rightarrow> string \<Rightarrow> json list result" where
  "clab_sequence value context_text =
     (case value of JArray xs \<Rightarrow> Inr xs | _ \<Rightarrow> Inl (ValueError (context_text @ '' must be a list'')))"

definition parse_endpoint :: "json \<Rightarrow> endpoint result" where
  "parse_endpoint value =
     (case value of
        JString s \<Rightarrow>
          (case split_char (CHR '':'') s of
             [node, interface] \<Rightarrow>
               if node = [] \<or> interface = [] then Inl (ValueError ''invalid containerlab endpoint'')
               else Inr (node, interface)
           | _ \<Rightarrow> Inl (ValueError ''invalid containerlab endpoint''))
      | _ \<Rightarrow> Inl (ValueError ''invalid containerlab endpoint''))"

text \<open>A node pair, as the sorted list of its members.\<close>

definition node_pair :: "string \<Rightarrow> string \<Rightarrow> string list" where
  "node_pair a b = sort (remdups [a, b])"

definition use_endpoint :: "string list \<Rightarrow> endpoint list \<Rightarrow> endpoint \<Rightarrow> endpoint list result" where
  "use_endpoint nodes used e =
     rbind (ensure (fst e \<in> set nodes) (''containerlab link references unknown node: '' @ fst e)) (\<lambda>_.
     rbind (ensure (e \<notin> set used)
       (''containerlab interface is used by multiple links: '' @ fst e @ '':'' @ snd e)) (\<lambda>_.
       Inr (used @ [e])))"

definition join_endpoints ::
  "string list \<Rightarrow> clab_links \<times> endpoint list \<Rightarrow> json list \<Rightarrow> (clab_links \<times> endpoint list) result" where
  "join_endpoints nodes st endpoints =
     (case endpoints of
        [a, b] \<Rightarrow>
          rbind (parse_endpoint a) (\<lambda>ea.
          rbind (parse_endpoint b) (\<lambda>eb.
          rbind (fold_res (use_endpoint nodes) (snd st) [ea, eb]) (\<lambda>used.
          rbind (ensure (fst ea \<noteq> fst eb \<and> map_of (fst st) (node_pair (fst ea) (fst eb)) = None)
            ''containerlab node pairs must be unique and non-reflexive'') (\<lambda>_.
            Inr (fst st @ [(node_pair (fst ea) (fst eb), ea, eb)], used)))))
      | _ \<Rightarrow> Inl (ValueError ''containerlab links must contain exactly two endpoints''))"

definition add_clab_link ::
  "string list \<Rightarrow> clab_links \<times> endpoint list \<Rightarrow> nat \<times> json \<Rightarrow> (clab_links \<times> endpoint list) result" where
  "add_clab_link nodes st raw =
     (let name = ''containerlab link '' @ nat_str (fst raw) in
      rbind (clab_mapping (snd raw) name) (\<lambda>link.
      rbind (clab_sequence (jget ''endpoints'' link) (name @ '' endpoints'')) (join_endpoints nodes st)))"

definition load_clab_topology :: "json \<Rightarrow> (string \<times> string list \<times> clab_links) result" where
  "load_clab_topology value =
     rbind (clab_mapping value ''containerlab document'') (\<lambda>document.
     rbind (case jget ''name'' document of
         JString s \<Rightarrow> if s = [] then Inl (ValueError ''containerlab name must be a non-empty string'') else Inr s
       | _ \<Rightarrow> Inl (ValueError ''containerlab name must be a non-empty string'')) (\<lambda>name.
     rbind (clab_mapping (jget ''topology'' document) ''containerlab topology'') (\<lambda>topology.
     rbind (clab_mapping (jget ''nodes'' topology) ''containerlab nodes'') (\<lambda>nodes.
     rbind (clab_sequence (jget ''links'' topology) ''containerlab links'') (\<lambda>links.
     rbind (fold_res (add_clab_link (dict_keys nodes)) ([], []) (zip [1..<Suc (length links)] links)) (\<lambda>st.
       Inr (name, dict_keys nodes, fst st)))))))"

section \<open>The fingerprint\<close>

definition carriage_return :: char where
  "carriage_return = CHR 0x0D"

text \<open>\<open>content.replace(b"\r\n", b"\n").replace(b"\r", b"\n")\<close>\<close>

fun normalize_newlines :: "string \<Rightarrow> string" where
  "normalize_newlines [] = []"
| "normalize_newlines [c] = [if c = carriage_return then newline else c]"
| "normalize_newlines (c # d # s) =
     (if c = carriage_return
      then (if d = newline then newline # normalize_newlines s else newline # normalize_newlines (d # s))
      else c # normalize_newlines (d # s))"

definition fingerprint_labels :: "string list" where
  "fingerprint_labels = [''telemetry-targets.yml'', ''intent.yml'', ''telconet.clab.yml'']"

definition files_fingerprint :: "(string \<Rightarrow> string) \<Rightarrow> string list \<Rightarrow> string" where
  "files_fingerprint sha256 contents =
     sha256 (concat (map (\<lambda>(name, content).
       name @ [CHR 0x00] @ sha256 (normalize_newlines content) @ [newline]) (zip fingerprint_labels contents)))"

section \<open>The binding\<close>

definition bound_interfaces :: "clab_links \<Rightarrow> string \<Rightarrow> string list" where
  "bound_interfaces clab node =
     sort (remdups (map snd (filter (\<lambda>e. fst e = node) (concat (map (\<lambda>(_, a, b). [a, b]) clab)))))"

definition bind_link :: "clab_links \<Rightarrow> LinkIntent \<Rightarrow> TelemetryLink result" where
  "bind_link clab l =
     (case li_endpoints l of (source, target) \<Rightarrow>
        (case map_of clab (node_pair source target) of
           None \<Rightarrow> Inl (ValueError (''intent link missing from containerlab: '' @ li_id l))
         | Some (ea, eb) \<Rightarrow>
             (let by_node = map_of [eb, ea] in
              case (by_node source, by_node target) of
                (Some si, Some ti) \<Rightarrow>
                  validate_telemetry_link \<lparr>tl_id = li_id l, tl_source = source, tl_source_interface = si,
                    tl_target = target, tl_target_interface = ti\<rparr>
              | (None, _) \<Rightarrow> Inl (KeyError source)
              | (_, None) \<Rightarrow> Inl (KeyError target))))"

definition link_peers :: "string list \<Rightarrow> string \<Rightarrow> TelemetryLink \<Rightarrow> BoundTelemetryPeer list" where
  "link_peers targets node l =
     (if tl_source l \<in> set targets \<and> tl_target l \<in> set targets then
        (if tl_source l = node then [\<lparr>btp_peer = tl_target l, btp_interface = tl_source_interface l\<rparr>] else []) @
        (if tl_target l = node then [\<lparr>btp_peer = tl_source l, btp_interface = tl_target_interface l\<rparr>] else [])
      else [])"

definition bound_peers :: "string list \<Rightarrow> TelemetryLink list \<Rightarrow> string \<Rightarrow> BoundTelemetryPeer list" where
  "bound_peers targets links node =
     sort_key (\<lambda>p. (btp_interface p, btp_peer p)) (concat (map (link_peers targets node) links))"

definition bind_target ::
  "NetworkIntent \<Rightarrow> clab_links \<Rightarrow> string list \<Rightarrow> TelemetryLink list \<Rightarrow> TelemetryTarget \<Rightarrow> BoundTelemetryTarget result" where
  "bind_target i clab targets links t =
     (case map_of (intent_nodes i) (tt_node t) of
        None \<Rightarrow> Inl (KeyError (tt_node t))
      | Some n \<Rightarrow>
          rbind (each (\<lambda>p. rbind (validate_bound_peer p) (\<lambda>_. Inr ())) (bound_peers targets links (tt_node t))) (\<lambda>_.
          validate_bound_target \<lparr>btt_node = tt_node t, btt_container = tt_container t, btt_role = ni_role n,
            btt_interfaces = bound_interfaces clab (tt_node t),
            btt_protocol_peers = bound_peers targets links (tt_node t)\<rparr>))"

definition service_owners :: "string \<Rightarrow> NetworkIntent \<Rightarrow> string list" where
  "service_owners prefix i = map fst (filter (\<lambda>(_, n). prefix \<in> set (ni_prefixes n)) (intent_nodes i))"

definition undeclared_pairs :: "NetworkIntent \<Rightarrow> clab_links \<Rightarrow> string list list" where
  "undeclared_pairs i clab =
     filter (\<lambda>p. set p \<subseteq> set (dict_keys (intent_nodes i)) \<and>
       p \<notin> set (map (\<lambda>l. node_pair (fst (li_endpoints l)) (snd (li_endpoints l))) (intent_links i))) (map fst clab)"

definition bind_topology ::
  "TelemetryConfig \<Rightarrow> NetworkIntent \<Rightarrow> string \<times> string list \<times> clab_links \<Rightarrow> string \<Rightarrow>
   TelemetryTopologyBinding result" where
  "bind_topology config i lab fp =
     (case lab of (clab_name, clab_nodes, clab) \<Rightarrow>
      let target_nodes = map tt_node (tc_routers config);
          missing_from_intent = filter (\<lambda>n. n \<notin> set (dict_keys (intent_nodes i))) target_nodes;
          missing_from_clab = filter (\<lambda>n. n \<notin> set clab_nodes) target_nodes in
      rbind (ensure (missing_from_intent = [])
        (''telemetry targets missing from intent: '' @ join '', '' (sort missing_from_intent))) (\<lambda>_.
      rbind (ensure (missing_from_clab = [])
        (''telemetry targets missing from containerlab: '' @ join '', '' (sort missing_from_clab))) (\<lambda>_.
      rbind (each (\<lambda>t. ensure (tt_container t = ''clab-'' @ clab_name @ ''-'' @ tt_node t)
        (''telemetry container name for '' @ tt_node t @ '' must be clab-'' @ clab_name @ ''-'' @ tt_node t))
        (tc_routers config)) (\<lambda>_.
      rbind (ensure (set (service_owners (tc_service_prefix config) i) = {''service-host''})
        ''telemetry service_prefix must be owned by service-host in network intent'') (\<lambda>_.
      rbind (ensure (undeclared_pairs i clab = [])
        (''containerlab managed link not declared in intent: '' @
         join '', '' (map (join ''--'') (sort (undeclared_pairs i clab))))) (\<lambda>_.
      rbind (traverse (bind_link clab) (intent_links i)) (\<lambda>links.
      rbind (traverse (bind_target i clab target_nodes links) (tc_routers config)) (\<lambda>targets.
        validate_binding \<lparr>binding_config = config, binding_fp = fp, binding_targets = targets,
          binding_links = links\<rparr>))))))))"

text \<open>\<open>contents\<close>: the bytes of the configuration, intent and containerlab files.\<close>

definition load_telemetry_binding ::
  "(string \<Rightarrow> string) \<Rightarrow> (string \<Rightarrow> TelemetryConfig result) \<Rightarrow> (string \<Rightarrow> NetworkIntent result) \<Rightarrow>
   (string \<Rightarrow> json result) \<Rightarrow> (string \<Rightarrow> string) \<Rightarrow> string \<Rightarrow> string \<Rightarrow> string \<Rightarrow> TelemetryTopologyBinding result" where
  "load_telemetry_binding sha256 config_document intent_document clab_document content
      config_path intent_path clab_path =
     rbind (rbind (config_document config_path) validate_telemetry_config) (\<lambda>config.
     rbind (load_intent intent_document intent_path) (\<lambda>i.
     rbind (rbind (clab_document clab_path) load_clab_topology) (\<lambda>lab.
       bind_topology config i lab
         (files_fingerprint sha256 (map content [config_path, intent_path, clab_path])))))"

section \<open>Checking snapshots\<close>

definition neighbor_pair :: "OspfNeighborTelemetry \<Rightarrow> string \<times> string" where
  "neighbor_pair n = (on_neighbor n, on_interface n)"

definition bfd_pair :: "BfdPeerTelemetry \<Rightarrow> string \<times> string" where
  "bfd_pair p = (bp_peer p, bp_interface p)"

definition validate_bound_router :: "TelemetryTopologyBinding \<Rightarrow> RouterTelemetry \<Rightarrow> unit result" where
  "validate_bound_router b r =
     (case map_of (dict_of_list btt_node (binding_targets b)) (router_name r) of
        None \<Rightarrow> Inl (KeyError (router_name r))
      | Some t \<Rightarrow>
          (let observed = map it_name (interfaces r);
               unexpected = filter (\<lambda>i. i \<notin> set (btt_interfaces t)) observed;
               expected_peers = set (map peer_pair (btt_protocol_peers t)) in
           rbind (ensure (unexpected = [])
             (''telemetry snapshot contains interfaces outside topology binding for '' @ router_name r @ '': '' @
              join '', '' (sort (remdups unexpected)))) (\<lambda>_.
           rbind (ensure (\<not> (collection_success r \<and> set observed \<noteq> set (btt_interfaces t)))
             (''successful telemetry collection for '' @ router_name r @
              '' must contain the complete bound interface set'')) (\<lambda>_.
           rbind (ensure (\<forall>x \<in> set (routes r). rt_prefix x = tc_service_prefix (binding_config b))
             ''telemetry snapshot contains routes outside service prefix allowlist'') (\<lambda>_.
           rbind (ensure (\<not> (collection_success r \<and> length (routes r) \<noteq> 1))
             (''successful telemetry collection for '' @ router_name r @
              '' must contain exactly one service route observation'')) (\<lambda>_.
           if collection_success r then
             rbind (ensure (set (map neighbor_pair (ospf_neighbors r)) = expected_peers)
               (''successful telemetry collection for '' @ router_name r @
                '' must contain the complete topology-bound OSPF peer set'')) (\<lambda>_.
               ensure (set (map bfd_pair (bfd_peers r)) = expected_peers)
                 (''successful telemetry collection for '' @ router_name r @
                  '' must contain the complete topology-bound BFD peer set''))
           else Inr ()))))))"

definition validate_telemetry_snapshot :: "TelemetrySnapshot \<Rightarrow> TelemetryTopologyBinding \<Rightarrow> unit result" where
  "validate_telemetry_snapshot s b =
     rbind (ensure (topology_fp s = binding_fp b)
       ''telemetry snapshot topology fingerprint does not match binding'') (\<lambda>_.
       each (validate_bound_router b) (snapshot_routers s))"

definition validate_telemetry_ingest ::
  "TelemetrySnapshot \<Rightarrow> TelemetryTopologyBinding \<Rightarrow> datetime \<Rightarrow> unit result" where
  "validate_telemetry_ingest s b server_now =
     rbind (ensure (aware server_now) ''telemetry validation clock must be timezone-aware'') (\<lambda>_.
     rbind (to_utc server_now) (\<lambda>utc_now.
     rbind (shift_utc 60 utc_now) (\<lambda>future_limit.
     rbind (ensure (\<not> dt_key future_limit < dt_key (snapshot_observed_at s))
       ''telemetry snapshot exceeds allowed future skew'') (\<lambda>_.
       validate_telemetry_snapshot s b))))"

section \<open>What a loaded binding is\<close>

definition bound_target_ok :: "BoundTelemetryTarget \<Rightarrow> bool" where
  "bound_target_ok t =
     (1 \<le> length (btt_interfaces t) \<and> length (btt_interfaces t) \<le> 64 \<and> length (btt_protocol_peers t) \<le> 64 \<and>
      distinct (btt_interfaces t) \<and> distinct (map peer_pair (btt_protocol_peers t)) \<and>
      (\<forall>p \<in> set (btt_protocol_peers t). btp_interface p \<in> set (btt_interfaces t)))"

definition binding_ok :: "TelemetryTopologyBinding \<Rightarrow> bool" where
  "binding_ok b =
     (hex_of_length 64 (binding_fp b) \<and> canonical_prefix (tc_service_prefix (binding_config b)) \<and>
      3 \<le> length (tc_service_prefix (binding_config b)) \<and> length (tc_service_prefix (binding_config b)) \<le> 64 \<and>
      map btt_node (binding_targets b) = map tt_node (tc_routers (binding_config b)) \<and>
      distinct (map btt_node (binding_targets b)) \<and> set (map btt_node (binding_targets b)) = set BASELINE_ROUTERS \<and>
      list_all bound_target_ok (binding_targets b) \<and> distinct (map tl_id (binding_links b)))"

definition clab_ok :: "clab_links \<Rightarrow> bool" where
  "clab_ok clab = list_all (\<lambda>(p, a, b). p = node_pair (fst a) (fst b) \<and> fst a \<noteq> fst b) clab"

lemma fold_res_invariant:
  "fold_res f s xs = Inr s' \<Longrightarrow> P s \<Longrightarrow> (\<And>s x s'. P s \<Longrightarrow> f s x = Inr s' \<Longrightarrow> P s') \<Longrightarrow> P s'"
proof (induction xs arbitrary: s)
  case (Cons x xs)
  then obtain t where t: "f s x = Inr t" "fold_res f t xs = Inr s'" by (auto simp: rbind_eq_Inr)
  show ?case by (rule Cons.IH [OF t(2) Cons.prems(3) [OF Cons.prems(2) t(1)] Cons.prems(3)])
qed simp

lemma add_clab_link_ok:
  assumes "clab_ok (fst st)" "add_clab_link nodes st raw = Inr st'"
  shows "clab_ok (fst st')"
proof -
  from assms(2) obtain endpoints where e: "join_endpoints nodes st endpoints = Inr st'"
    unfolding add_clab_link_def Let_def rbind_eq_Inr by blast
  then obtain a b where "endpoints = [a, b]" by (auto simp: join_endpoints_def split: list.splits)
  with e assms(1) show ?thesis by (auto simp: join_endpoints_def rbind_eq_Inr clab_ok_def)
qed

lemma load_clab_ok:
  assumes "load_clab_topology value = Inr (name, nodes, clab)"
  shows "clab_ok clab"
proof -
  from assms obtain links st where
    st: "fold_res (add_clab_link nodes) ([], []) (zip [1..<Suc (length links)] links) = Inr st" "clab = fst st"
    by (auto simp: load_clab_topology_def rbind_eq_Inr)
  have "clab_ok (fst st)"
    by (rule fold_res_invariant [where P = "\<lambda>s. clab_ok (fst s)", OF st(1)])
      (auto simp: clab_ok_def intro: add_clab_link_ok [unfolded clab_ok_def])
  then show ?thesis using st(2) by simp
qed

lemma in_bound_interfaces:
  assumes "(p, a, b) \<in> set clab" "(n, i) \<in> {b, a}"
  shows "i \<in> set (bound_interfaces clab n)"
proof -
  have "\<exists>q \<in> set clab. (n, i) \<in> set (case q of (_, a, b) \<Rightarrow> [a, b])" using assms by (intro bexI [of _ "(p, a, b)"]) auto
  then have "(n, i) \<in> set (concat (map (\<lambda>(_, a, b). [a, b]) clab))" by simp
  then show ?thesis unfolding bound_interfaces_def by (force intro: image_eqI [of _ snd "(n, i)"])
qed

lemma bind_link_Inr:
  assumes "clab_ok clab" "bind_link clab l = Inr t"
  shows "tl_id t = li_id l \<and> (tl_source t, tl_target t) = li_endpoints l \<and>
    tl_source_interface t \<in> set (bound_interfaces clab (tl_source t)) \<and>
    tl_target_interface t \<in> set (bound_interfaces clab (tl_target t))"
proof -
  obtain source target where ends: "li_endpoints l = (source, target)" by (cases "li_endpoints l")
  from assms(2) obtain ea eb where m: "map_of clab (node_pair source target) = Some (ea, eb)"
    by (auto simp: bind_link_def ends split: option.splits)
  then have mem: "(node_pair source target, ea, eb) \<in> set clab" by (rule map_of_SomeD)
  have eb: "(fst eb, snd eb) = eb" "(fst ea, snd ea) = ea" by simp_all
  from assms(2) m obtain si ti where i: "map_of [eb, ea] source = Some si" "map_of [eb, ea] target = Some ti"
    and t: "t = \<lparr>tl_id = li_id l, tl_source = source, tl_source_interface = si, tl_target = target,
      tl_target_interface = ti\<rparr>"
    by (auto simp: bind_link_def ends Let_def validate_telemetry_link_def rbind_eq_Inr split: option.splits)
  have "(source, si) \<in> {eb, ea}" "(target, ti) \<in> {eb, ea}"
    using i [THEN map_of_SomeD] by simp_all
  then have "si \<in> set (bound_interfaces clab source)" "ti \<in> set (bound_interfaces clab target)"
    using in_bound_interfaces [OF mem] by blast+
  then show ?thesis using t ends by simp
qed

lemma validate_telemetry_config_Inr:
  "validate_telemetry_config c = Inr d \<Longrightarrow> d = c \<and> canonical_prefix (tc_service_prefix c) \<and>
    3 \<le> length (tc_service_prefix c) \<and> length (tc_service_prefix c) \<le> 64 \<and>
    distinct (map tt_node (tc_routers c)) \<and> set (map tt_node (tc_routers c)) = set BASELINE_ROUTERS"
  by (auto simp: validate_telemetry_config_def rbind_eq_Inr)

lemma bind_target_Inr:
  assumes "bind_target i clab nodes links c = Inr t"
  shows "btt_node t = tt_node c \<and> btt_container t = tt_container c \<and>
    btt_interfaces t = bound_interfaces clab (tt_node c) \<and>
    btt_protocol_peers t = bound_peers nodes links (tt_node c) \<and> bound_target_ok t \<and>
    map_option ni_role (map_of (intent_nodes i) (tt_node c)) = Some (btt_role t)"
proof -
  from assms obtain n where n: "map_of (intent_nodes i) (tt_node c) = Some n"
    by (auto simp: bind_target_def split: option.splits)
  with assms show ?thesis
    by (auto simp: bind_target_def rbind_eq_Inr validate_bound_target_def bound_target_ok_def)
qed

lemma set_bound_peers:
  "(m, i) \<in> set (map peer_pair (bound_peers nodes links n)) \<longleftrightarrow>
   (\<exists>l \<in> set links. tl_source l \<in> set nodes \<and> tl_target l \<in> set nodes \<and>
     (tl_source l = n \<and> tl_target l = m \<and> tl_source_interface l = i \<or>
      tl_target l = n \<and> tl_source l = m \<and> tl_target_interface l = i))"
  by (auto simp: bound_peers_def link_peers_def peer_pair_def split: if_splits) force+

lemma loaded_link_ids: "load_intent documents path = Inr i \<Longrightarrow> distinct (map li_id (intent_links i))"
  by (auto simp: load_intent_def rbind_eq_Inr validate_intent_Inr intent_ok_def)

lemma bind_topology_Inr:
  assumes "bind_topology config i (name, nodes, clab) fp = Inr b" "clab_ok clab"
    and "validate_telemetry_config c0 = Inr config" "distinct (map li_id (intent_links i))"
  shows "binding_ok b \<and> binding_config b = config \<and> binding_fp b = fp \<and>
    list_all2 (\<lambda>l t. tl_id t = li_id l \<and> (tl_source t, tl_target t) = li_endpoints l \<and>
      tl_source_interface t \<in> set (bound_interfaces clab (tl_source t)) \<and>
      tl_target_interface t \<in> set (bound_interfaces clab (tl_target t))) (intent_links i) (binding_links b) \<and>
    list_all2 (\<lambda>c t. btt_node t = tt_node c \<and> btt_container t = ''clab-'' @ name @ ''-'' @ tt_node c \<and>
      btt_interfaces t = bound_interfaces clab (tt_node c) \<and>
      btt_protocol_peers t = bound_peers (map tt_node (tc_routers config)) (binding_links b) (tt_node c) \<and>
      bound_target_ok t) (tc_routers config) (binding_targets b)"
proof -
  from assms(1) obtain links targets where
    cont: "\<forall>t \<in> set (tc_routers config). tt_container t = ''clab-'' @ name @ ''-'' @ tt_node t"
    and links: "list_all2 (\<lambda>x y. bind_link clab x = Inr y) (intent_links i) links"
    and targets: "list_all2 (\<lambda>x y. bind_target i clab (map tt_node (tc_routers config)) links x = Inr y)
      (tc_routers config) targets"
    and b: "validate_binding \<lparr>binding_config = config, binding_fp = fp, binding_targets = targets,
          binding_links = links\<rparr> = Inr b"
    by (auto simp: bind_topology_def Let_def rbind_eq_Inr traverse_eq_Inr each_eq_Inr)
  have b': "b = \<lparr>binding_config = config, binding_fp = fp, binding_targets = targets, binding_links = links\<rparr>"
    "hex_of_length 64 fp" using b by (auto simp: validate_binding_def rbind_eq_Inr)
  have l: "list_all2 (\<lambda>l t. tl_id t = li_id l \<and> (tl_source t, tl_target t) = li_endpoints l \<and>
      tl_source_interface t \<in> set (bound_interfaces clab (tl_source t)) \<and>
      tl_target_interface t \<in> set (bound_interfaces clab (tl_target t))) (intent_links i) links"
    using links by (rule list_all2_mono) (rule bind_link_Inr [OF assms(2)])
  have "list_all2 (\<lambda>c t. c \<in> set (tc_routers config) \<and> bind_target i clab (map tt_node (tc_routers config)) links c = Inr t)
      (tc_routers config) targets"
    using targets by (auto simp: list_all2_conv_all_nth)
  then have t: "list_all2 (\<lambda>c t. btt_node t = tt_node c \<and> btt_container t = ''clab-'' @ name @ ''-'' @ tt_node c \<and>
      btt_interfaces t = bound_interfaces clab (tt_node c) \<and>
      btt_protocol_peers t = bound_peers (map tt_node (tc_routers config)) links (tt_node c) \<and>
      bound_target_ok t) (tc_routers config) targets"
    by (rule list_all2_mono) (use bind_target_Inr cont in metis)
  then have "map btt_node targets = map tt_node (tc_routers config)" "list_all bound_target_ok targets"
    by (auto simp: list_all2_conv_all_nth list_all_length intro: nth_equalityI)
  moreover have "map tl_id links = map li_id (intent_links i)"
    using l by (auto simp: list_all2_conv_all_nth intro: nth_equalityI)
  then have "distinct (map tl_id links)" using assms(4) by simp
  ultimately have "binding_ok b"
    using validate_telemetry_config_Inr [OF assms(3)] b' by (simp add: binding_ok_def)
  with l t b' show ?thesis by simp
qed

section \<open>The lab's binding\<close>

definition lab_router_names :: "string list" where
  "lab_router_names = BASELINE_ROUTERS"

definition lab_telemetry_config :: TelemetryConfig where
  "lab_telemetry_config =
     \<lparr>tc_version = 1, tc_poll_interval_seconds = 1, tc_service_prefix = ''10.20.0.0/24'',
      tc_routers = map (\<lambda>n. \<lparr>tt_node = n, tt_container = ''clab-telconet-sentinel-'' @ n\<rparr>) lab_router_names\<rparr>"

definition lab_clab_link :: "string \<Rightarrow> string \<Rightarrow> json" where
  "lab_clab_link a b = JObject [(''endpoints'', JArray [JString a, JString b])]"

definition lab_clab :: json where
  "lab_clab =
     JObject [(''name'', JString ''telconet-sentinel''),
       (''topology'', JObject [
         (''nodes'', JObject (map (\<lambda>n. (n, JNull))
            [''core1'', ''core2'', ''agg1'', ''agg2'', ''access1'', ''access2'', ''client-a'', ''client-b'', ''service-host''])),
         (''links'', JArray [
            lab_clab_link ''access1:eth1'' ''agg1:eth1'', lab_clab_link ''access1:eth2'' ''agg2:eth1'',
            lab_clab_link ''access2:eth1'' ''agg1:eth2'', lab_clab_link ''access2:eth2'' ''agg2:eth2'',
            lab_clab_link ''agg1:eth3'' ''core1:eth1'', lab_clab_link ''agg1:eth4'' ''core2:eth1'',
            lab_clab_link ''agg2:eth3'' ''core1:eth2'', lab_clab_link ''agg2:eth4'' ''core2:eth2'',
            lab_clab_link ''core1:eth3'' ''core2:eth3'', lab_clab_link ''client-a:eth1'' ''access1:eth3'',
            lab_clab_link ''client-b:eth1'' ''access2:eth3'', lab_clab_link ''core1:eth4'' ''service-host:eth1''])])]"

definition constant_sha :: "string \<Rightarrow> string" where
  "constant_sha s = replicate 64 (CHR ''a'')"

definition lab_binding :: "TelemetryTopologyBinding result" where
  "lab_binding = load_telemetry_binding constant_sha (\<lambda>_. Inr lab_telemetry_config) (\<lambda>_. Inr lab_intent)
     (\<lambda>_. Inr lab_clab) (\<lambda>_. []) [] [] []"

lemma is_Inr: "isl x = False \<Longrightarrow> \<exists>b. x = Inr b"
  by (cases x) simp_all

lemma lab_binding_loads: "isl lab_binding = False"
  by code_simp

lemma load_binding_ok:
  assumes "load_telemetry_binding sha256 config_document intent_document clab_document content
      config_path intent_path clab_path = Inr b"
  shows "binding_ok b"
proof -
  from assms obtain config i lab document c0 fp where
    l: "load_clab_topology document = Inr lab" "bind_topology config i lab fp = Inr b"
      "validate_telemetry_config c0 = Inr config" and i: "load_intent intent_document intent_path = Inr i"
    unfolding load_telemetry_binding_def rbind_eq_Inr by blast
  obtain name nodes clab where "lab = (name, nodes, clab)" by (cases lab)
  then show ?thesis using bind_topology_Inr [OF _ _ l(3) loaded_link_ids [OF i]] load_clab_ok l by blast
qed

lemma lab_binding_ok: "\<exists>b. lab_binding = Inr b \<and> binding_ok b"
proof -
  obtain b where b: "lab_binding = Inr b" using lab_binding_loads is_Inr by blast
  then show ?thesis using load_binding_ok unfolding lab_binding_def by blast
qed

section \<open>Properties\<close>

text \<open>
  C12: A telemetry binding that loads is well formed and mirrors its three inputs: the targets
  are exactly the configured baseline routers, in their order, each with the containers'
  names and with exactly the interfaces the containerlab file wires; every link carries the
  intent's id and endpoints and wired interfaces; and protocol peering is symmetric - if one
  router expects a peer on an interface, that peer is a target and expects it back.
\<close>

theorem binding_mirrors_inputs:
  assumes "load_telemetry_binding sha256 config_document intent_document clab_document content
      config_path intent_path clab_path = Inr b"
  shows "\<exists>i name nodes clab. load_intent intent_document intent_path = Inr i \<and>
    rbind (clab_document clab_path) load_clab_topology = Inr (name, nodes, clab) \<and>
    config_document config_path = Inr (binding_config b) \<and> binding_ok b \<and>
    list_all2 (\<lambda>c t. btt_node t = tt_node c \<and> btt_container t = ''clab-'' @ name @ ''-'' @ tt_node c \<and>
      btt_interfaces t = bound_interfaces clab (tt_node c)) (tc_routers (binding_config b)) (binding_targets b) \<and>
    list_all2 (\<lambda>l t. tl_id t = li_id l \<and> (tl_source t, tl_target t) = li_endpoints l \<and>
      tl_source_interface t \<in> set (bound_interfaces clab (tl_source t)) \<and>
      tl_target_interface t \<in> set (bound_interfaces clab (tl_target t))) (intent_links i) (binding_links b) \<and>
    (\<forall>t \<in> set (binding_targets b). \<forall>p \<in> set (btt_protocol_peers t).
       \<exists>t' \<in> set (binding_targets b). btt_node t' = btp_peer p \<and>
         (\<exists>p' \<in> set (btt_protocol_peers t'). btp_peer p' = btt_node t))"
proof -
  from assms obtain config i name nodes clab where
    l: "rbind (config_document config_path) validate_telemetry_config = Inr config"
      "load_intent intent_document intent_path = Inr i"
      "rbind (clab_document clab_path) load_clab_topology = Inr (name, nodes, clab)"
    and b: "bind_topology config i (name, nodes, clab)
      (files_fingerprint sha256 (map content [config_path, intent_path, clab_path])) = Inr b"
    by (auto simp: load_telemetry_binding_def rbind_eq_Inr)
  from l(1) obtain c0 where c0: "config_document config_path = Inr c0" "validate_telemetry_config c0 = Inr config"
    by (auto simp: rbind_eq_Inr)
  then have same: "config_document config_path = Inr config" using validate_telemetry_config_Inr by fastforce
  have "clab_ok clab" using l(3) load_clab_ok by (auto simp: rbind_eq_Inr)
  note bound = bind_topology_Inr [OF b this c0(2) loaded_link_ids [OF l(2)]]
  let ?names = "map tt_node (tc_routers config)"
  have targets: "list_all2 (\<lambda>c t. btt_node t = tt_node c \<and> btt_container t = ''clab-'' @ name @ ''-'' @ tt_node c \<and>
      btt_interfaces t = bound_interfaces clab (tt_node c) \<and>
      btt_protocol_peers t = bound_peers ?names (binding_links b) (tt_node c) \<and> bound_target_ok t)
      (tc_routers config) (binding_targets b)" using bound by blast
  have peers: "btt_protocol_peers t = bound_peers ?names (binding_links b) (btt_node t)"
    if "t \<in> set (binding_targets b)" for t
    using list_all2_in_set2 [OF targets that] by auto
  have mutual: "\<exists>t' \<in> set (binding_targets b). btt_node t' = btp_peer p \<and>
      (\<exists>p' \<in> set (btt_protocol_peers t'). btp_peer p' = btt_node t)"
    if t: "t \<in> set (binding_targets b)" and p: "p \<in> set (btt_protocol_peers t)" for t p
  proof -
    have "(btp_peer p, btp_interface p) \<in> set (map peer_pair (bound_peers ?names (binding_links b) (btt_node t)))"
      using p peers [OF t] by (force simp: peer_pair_def)
    then obtain l where l: "l \<in> set (binding_links b)" "tl_source l \<in> set ?names" "tl_target l \<in> set ?names"
      "tl_source l = btt_node t \<and> tl_target l = btp_peer p \<or> tl_target l = btt_node t \<and> tl_source l = btp_peer p"
      unfolding set_bound_peers by blast
    then have "btp_peer p \<in> set ?names" by auto
    then obtain c where "c \<in> set (tc_routers config)" "tt_node c = btp_peer p" by auto
    with list_all2_in_set1 [OF targets] obtain t' where t': "t' \<in> set (binding_targets b)" "btt_node t' = btp_peer p"
      by metis
    have "\<exists>j. (btt_node t, j) \<in> set (map peer_pair (bound_peers ?names (binding_links b) (btp_peer p)))"
      unfolding set_bound_peers using l by blast
    then have "\<exists>p' \<in> set (btt_protocol_peers t'). btp_peer p' = btt_node t"
      using peers [OF t'(1)] t'(2) by (auto simp: peer_pair_def)
    with t' show ?thesis by blast
  qed
  have "list_all2 (\<lambda>c t. btt_node t = tt_node c \<and> btt_container t = ''clab-'' @ name @ ''-'' @ tt_node c \<and>
      btt_interfaces t = bound_interfaces clab (tt_node c)) (tc_routers config) (binding_targets b)"
    using targets by (rule list_all2_mono) simp
  then show ?thesis using l(2,3) same bound mutual by blast
qed

theorem binding_mirrors_inputs_witness:
  "\<exists>b (i :: NetworkIntent) name nodes clab. lab_binding = Inr b \<and> load_clab_topology lab_clab = Inr (name, nodes, clab) \<and> binding_ok b \<and>
    list_all2 (\<lambda>c t. btt_node t = tt_node c \<and> btt_container t = ''clab-'' @ name @ ''-'' @ tt_node c \<and>
      btt_interfaces t = bound_interfaces clab (tt_node c)) (tc_routers (binding_config b)) (binding_targets b) \<and>
    list_all2 (\<lambda>l t. tl_id t = li_id l \<and> (tl_source t, tl_target t) = li_endpoints l \<and>
      tl_source_interface t \<in> set (bound_interfaces clab (tl_source t)) \<and>
      tl_target_interface t \<in> set (bound_interfaces clab (tl_target t))) (intent_links i) (binding_links b)"
proof -
  obtain b where b: "lab_binding = Inr b" using lab_binding_loads is_Inr by blast
  from binding_mirrors_inputs [OF b [unfolded lab_binding_def], unfolded rbind_simps]
  show ?thesis using b by blast
qed

lemma normalize_newlines_Cons:
  "c \<noteq> carriage_return \<Longrightarrow> normalize_newlines (c # s) = c # normalize_newlines s"
  by (cases s) auto

lemma crlf_distinct [simp]: "newline \<noteq> carriage_return" "carriage_return \<noteq> newline"
  by (simp_all add: newline_def carriage_return_def)

lemma normalize_crlf:
  "carriage_return \<notin> set s \<Longrightarrow> normalize_newlines (replace_char newline [carriage_return, newline] s) = s"
  by (induction s) (auto simp: replace_char_def normalize_newlines_Cons)

lemma normalize_cr:
  "carriage_return \<notin> set s \<Longrightarrow> normalize_newlines (replace_char newline [carriage_return] s) = s"
proof (induction s)
  case (Cons c s)
  have "newline \<notin> set (replace_char newline [carriage_return] s)"
    by (auto simp: replace_char_def split: if_splits)
  then have "normalize_newlines (carriage_return # replace_char newline [carriage_return] s) =
      newline # normalize_newlines (replace_char newline [carriage_return] s)"
    by (cases "replace_char newline [carriage_return] s") auto
  with Cons show ?case by (auto simp: replace_char_def normalize_newlines_Cons)
qed (simp add: replace_char_def)

lemma normalize_clean: "carriage_return \<notin> set s \<Longrightarrow> normalize_newlines s = s"
  by (induction s) (auto simp: normalize_newlines_Cons)

text \<open>
  The binding's fingerprint does not depend on how a checkout writes line ends: files
  with CRLF or CR line ends have the fingerprint of the same files with LF.
\<close>

theorem fingerprint_line_ends:
  assumes "carriage_return \<notin> set (concat contents)" "eol \<in> {[newline], [carriage_return, newline], [carriage_return]}"
  shows "files_fingerprint sha256 (map (replace_char newline eol) contents) = files_fingerprint sha256 contents"
proof -
  have "normalize_newlines (replace_char newline eol s) = normalize_newlines s" if "s \<in> set contents" for s
  proof -
    have cr: "carriage_return \<notin> set s" using assms(1) that by auto
    have "replace_char newline [newline] s = s" by (induction s) (auto simp: replace_char_def)
    then show ?thesis using assms(2) normalize_crlf [OF cr] normalize_cr [OF cr] normalize_clean [OF cr] by auto
  qed
  then have "map (\<lambda>(name, content). name @ [CHR 0x00] @ sha256 (normalize_newlines content) @ [newline])
      (zip ls (map (replace_char newline eol) contents)) =
    map (\<lambda>(name, content). name @ [CHR 0x00] @ sha256 (normalize_newlines content) @ [newline]) (zip ls contents)" for ls
    by (auto simp: zip_map2 dest: set_zip_rightD)
  then show ?thesis by (simp add: files_fingerprint_def)
qed

theorem fingerprint_line_ends_witness:
  "files_fingerprint rev (map (replace_char newline [carriage_return, newline]) [''a'' @ [newline], ''b'', []]) =
   files_fingerprint rev [''a'' @ [newline], ''b'', []]"
  by (rule fingerprint_line_ends) (simp_all add: newline_def carriage_return_def)

end
