(* ===== verification/Telemetry_Collector.thy ===== *)
theory Telemetry_Collector
  imports Telemetry_Binding Live_Detector
begin

text \<open>
  \<open>telemetry_collector.py\<close>: parsing the routers' JSON output into typed observations, the
  collection of one router and of a snapshot, and the collector's loop. Running a command in
  a container is a parameter that yields its output or raises; so is parsing JSON text. The
  main result is that no output of a router can spoil a snapshot: whatever the routers
  answer, the snapshot is well formed and passes the checks the server makes on ingestion.
\<close>

section \<open>Parsing\<close>

text \<open>\<open>_load_json\<close>: a decoding error becomes a \<open>ValueError\<close> of its own.\<close>

definition load_telemetry_json :: "(string \<Rightarrow> json result) \<Rightarrow> string \<Rightarrow> json result" where
  "load_telemetry_json loads output =
     (case loads output of
        Inl (ValueError _) \<Rightarrow> Inl (ValueError ''telemetry command returned invalid JSON'')
      | r \<Rightarrow> r)"

definition mapping_of :: "json \<Rightarrow> (string \<times> json) list" where
  "mapping_of j = (case j of JObject d \<Rightarrow> d | _ \<Rightarrow> [])"

definition sequence_of :: "json \<Rightarrow> json list" where
  "sequence_of j = (case j of JArray xs \<Rightarrow> xs | _ \<Rightarrow> [])"

definition nonnegative_int :: "json \<Rightarrow> int" where
  "nonnegative_int j = (case j of JInt i \<Rightarrow> if 0 \<le> i then i else 0 | _ \<Rightarrow> 0)"

definition strip_char :: "char \<Rightarrow> bool" where
  "strip_char c = (space_char c \<or> c \<in> {CHR 0x1C, CHR 0x1D, CHR 0x1E, CHR 0x1F, CHR 0x85, CHR 0xA0})"

definition strip :: "string \<Rightarrow> string" where
  "strip s = rev (dropWhile strip_char (rev (dropWhile strip_char s)))"

definition state_of :: "(json \<Rightarrow> string) \<Rightarrow> string list \<Rightarrow> json \<Rightarrow> TelemetryState" where
  "state_of repr up_values value =
     (let normalized = lower (strip (py_str repr value)) in
      if list_ex (\<lambda>expected. starts_with expected normalized) up_values then UP
      else if normalized \<in> {[], ''unknown''} then UNKNOWN
      else DOWN)"

definition interface_entries :: "json list \<Rightarrow> (string \<times> (string \<times> json) list) list" where
  "interface_entries document =
     foldl (\<lambda>entries value. let entry = mapping_of value in
        case jget ''ifname'' entry of JString name \<Rightarrow> dict_set name entry entries | _ \<Rightarrow> entries) [] document"

definition interface_observation ::
  "(json \<Rightarrow> string) \<Rightarrow> (string \<times> (string \<times> json) list) list \<Rightarrow> string \<Rightarrow> InterfaceTelemetry" where
  "interface_observation repr entries name =
     (case map_of entries name of
        None \<Rightarrow> \<lparr>it_name = name, it_state = UNKNOWN, it_rx_bytes = 0, it_tx_bytes = 0, it_rx_drops = 0, it_tx_drops = 0\<rparr>
      | Some entry \<Rightarrow>
          (let stats = mapping_of (jget ''stats64'' entry);
               rx = mapping_of (jget ''rx'' stats);
               tx = mapping_of (jget ''tx'' stats) in
           \<lparr>it_name = name, it_state = state_of repr [''up''] (jget ''operstate'' entry),
            it_rx_bytes = nonnegative_int (jget ''bytes'' rx), it_tx_bytes = nonnegative_int (jget ''bytes'' tx),
            it_rx_drops = nonnegative_int (jget ''dropped'' rx), it_tx_drops = nonnegative_int (jget ''dropped'' tx)\<rparr>))"

definition parse_interface_telemetry ::
  "(json \<Rightarrow> string) \<Rightarrow> (string \<Rightarrow> json result) \<Rightarrow> string \<Rightarrow> string list \<Rightarrow> InterfaceTelemetry list result" where
  "parse_interface_telemetry repr loads output expected_interfaces =
     rbind (load_telemetry_json loads output) (\<lambda>document.
       case document of
         JArray values \<Rightarrow>
           traverse (\<lambda>name. validate_interface (interface_observation repr (interface_entries values) name))
             expected_interfaces
       | _ \<Rightarrow> Inl (ValueError ''interface telemetry must be a JSON array''))"

definition expected_peers_by_interface :: "BoundTelemetryPeer list \<Rightarrow> (string \<times> BoundTelemetryPeer) list" where
  "expected_peers_by_interface expected_peers = dict_of_list btp_interface expected_peers"

definition reject_unexpected_interface :: "string \<Rightarrow> (string \<times> BoundTelemetryPeer) list \<Rightarrow> unit result" where
  "reject_unexpected_interface interface expected_by_interface =
     ensure (interface \<in> set (dict_keys expected_by_interface)) (''unexpected protocol interface: '' @ interface)"

type_synonym interface_states = "(string \<times> TelemetryState) list"

text \<open>The part the OSPF and the BFD loops share: a state per expected interface, set once.\<close>

definition record_state ::
  "BoundTelemetryPeer list \<Rightarrow> string \<Rightarrow> TelemetryState \<Rightarrow> interface_states \<Rightarrow> interface_states result" where
  "record_state expected_peers interface state states =
     rbind (reject_unexpected_interface interface (expected_peers_by_interface expected_peers)) (\<lambda>_.
     rbind (ensure (interface \<notin> set (dict_keys states)) (''duplicate protocol interface: '' @ interface)) (\<lambda>_.
       Inr (dict_set interface state states)))"

definition add_ospf_neighbor ::
  "(json \<Rightarrow> string) \<Rightarrow> BoundTelemetryPeer list \<Rightarrow> interface_states \<Rightarrow> json \<Rightarrow> interface_states result" where
  "add_ospf_neighbor repr expected_peers states value =
     (let entry = mapping_of value in
      case jget ''ifaceName'' entry of
        JString raw_interface \<Rightarrow>
          if raw_interface = [] then Inr states
          else
            (let interface = takeWhile (\<lambda>c. c \<noteq> CHR '':'') raw_interface;
                 raw_state = (case map_of entry ''converged'' of Some v \<Rightarrow> v | None \<Rightarrow> jget ''nbrState'' entry) in
             record_state expected_peers interface (state_of repr [''full''] raw_state) states)
      | _ \<Rightarrow> Inr states)"

definition parse_ospf_neighbors ::
  "(json \<Rightarrow> string) \<Rightarrow> (string \<Rightarrow> json result) \<Rightarrow> string \<Rightarrow> BoundTelemetryPeer list \<Rightarrow> OspfNeighborTelemetry list result" where
  "parse_ospf_neighbors repr loads output expected_peers =
     rbind (load_telemetry_json loads output) (\<lambda>document.
       let neighbors = mapping_of (jget ''neighbors'' (mapping_of document)) in
       rbind (fold_res (add_ospf_neighbor repr expected_peers) [] (concat (map sequence_of (dict_values neighbors)))) (\<lambda>states.
       traverse (\<lambda>expected. validate_ospf_neighbor
           \<lparr>on_neighbor = btp_peer expected, on_interface = btp_interface expected,
            on_state = (case map_of states (btp_interface expected) of Some s \<Rightarrow> s | None \<Rightarrow> DOWN)\<rparr>) expected_peers))"

definition add_bfd_peer ::
  "(json \<Rightarrow> string) \<Rightarrow> BoundTelemetryPeer list \<Rightarrow> interface_states \<Rightarrow> (string \<times> json) list \<Rightarrow> interface_states result" where
  "add_bfd_peer repr expected_peers states entry =
     (case jget ''interface'' entry of
        JString interface \<Rightarrow>
          if \<not> (''peer'' \<in> set (dict_keys entry) \<or> ''status'' \<in> set (dict_keys entry)) then Inr states
          else record_state expected_peers interface (state_of repr [''up''] (jget ''status'' entry)) states
      | _ \<Rightarrow> Inr states)"

definition parse_bfd_peers ::
  "(json \<Rightarrow> string) \<Rightarrow> (string \<Rightarrow> json result) \<Rightarrow> string \<Rightarrow> BoundTelemetryPeer list \<Rightarrow> BfdPeerTelemetry list result" where
  "parse_bfd_peers repr loads output expected_peers =
     rbind (load_telemetry_json loads output) (\<lambda>document.
     rbind (fold_res (add_bfd_peer repr expected_peers) [] (json_walk document)) (\<lambda>states.
       traverse (\<lambda>expected. validate_bfd_peer
           \<lparr>bp_peer = btp_peer expected, bp_interface = btp_interface expected,
            bp_configured = (btp_interface expected \<in> set (dict_keys states)),
            bp_state = (case map_of states (btp_interface expected) of Some s \<Rightarrow> s | None \<Rightarrow> UNKNOWN)\<rparr>) expected_peers))"

definition selected_entry :: "json list \<Rightarrow> (string \<times> json) list option" where
  "selected_entry entries =
     List.find (\<lambda>d. jget ''selected'' d = JBool True \<and> jget ''installed'' d = JBool True) (map mapping_of entries)"

definition next_hop_interface :: "json \<Rightarrow> string option" where
  "next_hop_interface value =
     (let next_hop = mapping_of value in
      if jget ''active'' next_hop = JBool True \<and> jget ''fib'' next_hop = JBool True
      then jstring (jget ''interfaceName'' next_hop) else None)"

definition parse_selected_route :: "(string \<Rightarrow> json result) \<Rightarrow> string \<Rightarrow> string \<Rightarrow> RouteTelemetry result" where
  "parse_selected_route loads output prefix =
     rbind (load_telemetry_json loads output) (\<lambda>document.
       let entries = sequence_of (jget prefix (mapping_of document)) in
       case selected_entry entries of
         None \<Rightarrow> validate_route \<lparr>rt_prefix = prefix, rt_present = False, rt_metric = None, rt_egress_interface = None\<rparr>
       | Some selected \<Rightarrow>
           (let metric = (case jget ''metric'' selected of JInt i \<Rightarrow> if 0 \<le> i then Some i else None | _ \<Rightarrow> None);
                active = List.map_filter next_hop_interface (sequence_of (jget ''nexthops'' selected));
                egress_interface = (case active of [] \<Rightarrow> None | i # _ \<Rightarrow> Some i) in
            validate_route \<lparr>rt_prefix = prefix, rt_present = True, rt_metric = metric,
              rt_egress_interface = egress_interface\<rparr>))"

section \<open>Collecting\<close>

definition failed_router_telemetry :: "string \<Rightarrow> string \<Rightarrow> RouterTelemetry result" where
  "failed_router_telemetry name error =
     validate_router \<lparr>router_name = name, collection_success = False, router_state = UNKNOWN,
       collection_error = Some (take 200 error), interfaces = [], ospf_neighbors = [], bfd_peers = [], routes = []\<rparr>"

definition INTERFACE_COMMAND :: "string list" where
  "INTERFACE_COMMAND = [''ip'', ''-s'', ''-j'', ''link'', ''show'']"

definition OSPF_COMMAND :: "string list" where
  "OSPF_COMMAND = [''vtysh'', ''-c'', ''show ip ospf neighbor json'']"

definition BFD_COMMAND :: "string list" where
  "BFD_COMMAND = [''vtysh'', ''-c'', ''show bfd peers json'']"

definition route_command :: "string \<Rightarrow> string list" where
  "route_command service_prefix = [''vtysh'', ''-c'', ''show ip route '' @ service_prefix @ '' json'']"

text \<open>The body of the \<open>try\<close>; \<open>run\<close> is \<open>_run_in_container\<close>.\<close>

definition router_observations ::
  "(json \<Rightarrow> string) \<Rightarrow> (string \<Rightarrow> json result) \<Rightarrow> (string \<Rightarrow> string list \<Rightarrow> string result) \<Rightarrow>
   BoundTelemetryTarget \<Rightarrow> string \<Rightarrow>
   (InterfaceTelemetry list \<times> OspfNeighborTelemetry list \<times> BfdPeerTelemetry list \<times> RouteTelemetry) result" where
  "router_observations repr loads run target service_prefix =
     rbind (rbind (run (btt_container target) INTERFACE_COMMAND) (\<lambda>output.
       parse_interface_telemetry repr loads output (btt_interfaces target))) (\<lambda>is.
     rbind (rbind (run (btt_container target) OSPF_COMMAND) (\<lambda>output.
       parse_ospf_neighbors repr loads output (btt_protocol_peers target))) (\<lambda>ns.
     rbind (rbind (run (btt_container target) BFD_COMMAND) (\<lambda>output.
       parse_bfd_peers repr loads output (btt_protocol_peers target))) (\<lambda>ps.
     rbind (rbind (run (btt_container target) (route_command service_prefix)) (\<lambda>output.
       parse_selected_route loads output service_prefix)) (\<lambda>route.
       Inr (is, ns, ps, route)))))"

definition collect_router ::
  "(json \<Rightarrow> string) \<Rightarrow> (string \<Rightarrow> json result) \<Rightarrow> (string \<Rightarrow> string list \<Rightarrow> string result) \<Rightarrow>
   BoundTelemetryTarget \<Rightarrow> string \<Rightarrow> RouterTelemetry result" where
  "collect_router repr loads run target service_prefix =
     (case router_observations repr loads run target service_prefix of
        Inr (is, ns, ps, route) \<Rightarrow>
          validate_router \<lparr>router_name = btt_node target, collection_success = True, router_state = UP,
            collection_error = None, interfaces = is, ospf_neighbors = ns, bfd_peers = ps, routes = [route]\<rparr>
      | Inl TimeoutExpired \<Rightarrow> failed_router_telemetry (btt_node target) ''collection timed out''
      | Inl CalledProcessError \<Rightarrow> failed_router_telemetry (btt_node target) ''collection command failed''
      | Inl (OSError _) \<Rightarrow> failed_router_telemetry (btt_node target) ''invalid telemetry response''
      | Inl (ValueError _) \<Rightarrow> failed_router_telemetry (btt_node target) ''invalid telemetry response''
      | Inl e \<Rightarrow> Inl e)"

definition collect_isolated ::
  "(json \<Rightarrow> string) \<Rightarrow> (string \<Rightarrow> json result) \<Rightarrow> (string \<Rightarrow> string list \<Rightarrow> string result) \<Rightarrow> string \<Rightarrow>
   BoundTelemetryTarget \<Rightarrow> RouterTelemetry result" where
  "collect_isolated repr loads run service_prefix target =
     (case collect_router repr loads run target service_prefix of
        Inr router \<Rightarrow> Inr router
      | Inl _ \<Rightarrow> failed_router_telemetry (btt_node target) ''collector error'')"

text \<open>\<open>new_id\<close> and \<open>now\<close> are what \<open>uuid4\<close> and the clock give.\<close>

definition collect_snapshot ::
  "(json \<Rightarrow> string) \<Rightarrow> (string \<Rightarrow> json result) \<Rightarrow> (string \<Rightarrow> string list \<Rightarrow> string result) \<Rightarrow>
   string \<Rightarrow> datetime \<Rightarrow> TelemetryTopologyBinding \<Rightarrow> TelemetrySnapshot result" where
  "collect_snapshot repr loads run new_id now b =
     rbind (traverse (collect_isolated repr loads run (tc_service_prefix (binding_config b))) (binding_targets b)) (\<lambda>routers.
       validate_snapshot \<lparr>snapshot_id = new_id, snapshot_observed_at = now, topology_fp = binding_fp b,
         snapshot_routers = routers\<rparr>)"

section \<open>What collecting yields\<close>

lemma traverse_validated:
  "(\<And>x y. f x = Inr y \<longleftrightarrow> y = x \<and> P x) \<Longrightarrow>
   traverse (\<lambda>x. f (g x)) xs = Inr ys \<longleftrightarrow> ys = map g xs \<and> list_all P ys"
  by (induction xs arbitrary: ys) (auto simp: rbind_eq_Inr)

lemmas traverse_validated_simps =
  traverse_validated [of validate_interface, OF validate_interface_Inr]
  traverse_validated [of validate_ospf_neighbor, OF validate_ospf_neighbor_Inr]
  traverse_validated [of validate_bfd_peer, OF validate_bfd_peer_Inr]

lemma observation_name [simp]: "it_name (interface_observation repr entries name) = name"
  by (simp add: interface_observation_def Let_def split: option.splits)

lemma parsed_interfaces:
  assumes "parse_interface_telemetry repr loads output names = Inr obs"
  shows "map it_name obs = names"
proof -
  from assms obtain document where
    "(case document of JArray values' \<Rightarrow>
        traverse (\<lambda>name. validate_interface (interface_observation repr (interface_entries values') name)) names
      | _ \<Rightarrow> Inl (ValueError ''interface telemetry must be a JSON array'')) = Inr obs"
    unfolding parse_interface_telemetry_def rbind_eq_Inr by blast
  then show ?thesis
    by (cases document) (auto simp: traverse_validated_simps comp_def simp del: traverse_eq_Inr)
qed

lemma parsed_neighbors:
  "parse_ospf_neighbors repr loads output peers = Inr ns \<Longrightarrow> map neighbor_pair ns = map peer_pair peers"
  by (auto simp: parse_ospf_neighbors_def Let_def rbind_eq_Inr traverse_validated_simps neighbor_pair_def peer_pair_def)

lemma parsed_bfd_peers:
  "parse_bfd_peers repr loads output peers = Inr ps \<Longrightarrow> map bfd_pair ps = map peer_pair peers"
  by (auto simp: parse_bfd_peers_def rbind_eq_Inr traverse_validated_simps bfd_pair_def peer_pair_def)

lemma parsed_route: "parse_selected_route loads output prefix = Inr r \<Longrightarrow> rt_prefix r = prefix"
  by (auto simp: parse_selected_route_def Let_def rbind_eq_Inr validate_route_Inr split: option.splits)

definition failed_router :: "string \<Rightarrow> string \<Rightarrow> RouterTelemetry" where
  "failed_router name error =
     \<lparr>router_name = name, collection_success = False, router_state = UNKNOWN, collection_error = Some error,
      interfaces = [], ospf_neighbors = [], bfd_peers = [], routes = []\<rparr>"

definition collector_errors :: "string list" where
  "collector_errors =
     [''collection timed out'', ''collection command failed'', ''invalid telemetry response'', ''collector error'']"

lemma failed_router_valid:
  assumes "telemetry_identifier name" "error \<in> set collector_errors"
  shows "failed_router_telemetry name error = Inr (failed_router name error)"
proof -
  have "single_line error" "length error \<le> 200"
    using assms(2) by (auto simp: collector_errors_def single_line_def newline_def)
  then show ?thesis
    using assms(1) unfolding failed_router_telemetry_def failed_router_def validate_router_Inr
    by (simp add: router_ok_def interface_references_def)
qed

text \<open>A router's entry: the complete observation of its target, or a failure without any.\<close>

definition complete_entry :: "string \<Rightarrow> BoundTelemetryTarget \<Rightarrow> RouterTelemetry \<Rightarrow> bool" where
  "complete_entry prefix t r =
     (router_name r = btt_node t \<and> collection_success r \<and> map it_name (interfaces r) = btt_interfaces t \<and>
      map neighbor_pair (ospf_neighbors r) = map peer_pair (btt_protocol_peers t) \<and>
      map bfd_pair (bfd_peers r) = map peer_pair (btt_protocol_peers t) \<and> map rt_prefix (routes r) = [prefix])"

definition failed_entry :: "BoundTelemetryTarget \<Rightarrow> RouterTelemetry \<Rightarrow> bool" where
  "failed_entry t r = (\<exists>e \<in> set collector_errors. r = failed_router (btt_node t) e)"

lemma collect_router_entry:
  assumes "telemetry_identifier (btt_node t)" "collect_router repr loads run t prefix = Inr r"
  shows "router_ok r \<and> (complete_entry prefix t r \<or> failed_entry t r)"
proof (cases "router_observations repr loads run t prefix")
  case (Inr obs)
  obtain ifs ns ps route where obs: "obs = (ifs, ns, ps, route)" by (cases obs)
  with Inr have "map it_name ifs = btt_interfaces t" "map neighbor_pair ns = map peer_pair (btt_protocol_peers t)"
    "map bfd_pair ps = map peer_pair (btt_protocol_peers t)" "rt_prefix route = prefix"
    by (auto simp: router_observations_def rbind_eq_Inr dest: parsed_interfaces parsed_neighbors parsed_bfd_peers parsed_route)
  with assms(2) Inr obs show ?thesis
    by (auto simp: collect_router_def validate_router_Inr complete_entry_def)
next
  case (Inl e)
  have "\<exists>m \<in> set collector_errors. failed_router_telemetry (btt_node t) m = Inr r"
    using assms(2) Inl by (auto simp: collect_router_def collector_errors_def split: py_error.splits)
  then obtain m where m: "m \<in> set collector_errors" "failed_router_telemetry (btt_node t) m = Inr r" by blast
  then have "r = failed_router (btt_node t) m" using failed_router_valid [OF assms(1) m(1)] by simp
  moreover have "router_ok r" using m(2) by (simp add: failed_router_telemetry_def validate_router_Inr)
  ultimately show ?thesis using m(1) unfolding failed_entry_def by blast
qed

lemma collect_isolated_entry:
  assumes "telemetry_identifier (btt_node t)"
  shows "\<exists>r. collect_isolated repr loads run prefix t = Inr r \<and> router_ok r \<and>
    (complete_entry prefix t r \<or> failed_entry t r)"
proof (cases "collect_router repr loads run t prefix")
  case (Inr r)
  with collect_router_entry [OF assms] show ?thesis by (auto simp: collect_isolated_def)
next
  case (Inl e)
  have err: "''collector error'' \<in> set collector_errors" by (simp add: collector_errors_def)
  note f = failed_router_valid [OF assms err]
  then have "router_ok (failed_router (btt_node t) ''collector error'')"
    by (simp add: failed_router_telemetry_def validate_router_Inr)
  then show ?thesis using Inl f err by (auto simp: collect_isolated_def failed_entry_def)
qed

lemma entry_name: "complete_entry prefix t r \<or> failed_entry t r \<Longrightarrow> router_name r = btt_node t"
  by (auto simp: complete_entry_def failed_entry_def failed_router_def)

text \<open>Both kinds of entry pass the checks on ingestion.\<close>

lemma entry_bound:
  assumes "distinct (map btt_node (binding_targets b))" "t \<in> set (binding_targets b)"
    and "complete_entry (tc_service_prefix (binding_config b)) t r \<or> failed_entry t r"
  shows "validate_bound_router b r = Inr ()"
proof -
  have "map_of (dict_of_list btt_node (binding_targets b)) (router_name r) = Some t"
    using assms(1,2) entry_name [OF assms(3)] by (simp add: dict_of_list_distinct map_of_key_pairs)
  note lookup = this
  show ?thesis
  proof (cases "complete_entry (tc_service_prefix (binding_config b)) t r")
    case True
    then have eq: "map it_name (interfaces r) = btt_interfaces t"
      "map neighbor_pair (ospf_neighbors r) = map peer_pair (btt_protocol_peers t)"
      "map bfd_pair (bfd_peers r) = map peer_pair (btt_protocol_peers t)"
      "map rt_prefix (routes r) = [tc_service_prefix (binding_config b)]" "collection_success r"
      by (simp_all add: complete_entry_def)
    then obtain route where "routes r = [route]" "rt_prefix route = tc_service_prefix (binding_config b)" by auto
    then show ?thesis unfolding validate_bound_router_def lookup by (simp add: Let_def eq(1-3,5))
  next
    case False
    with assms(3) have "failed_entry t r" by blast
    then show ?thesis unfolding validate_bound_router_def lookup
      by (auto simp: failed_entry_def failed_router_def)
  qed
qed

lemma baseline_names: "list_all telemetry_identifier BASELINE_ROUTERS"
  by code_simp

lemma collect_snapshot_entries:
  assumes "binding_ok b" "telemetry_identifier new_id" "civil_datetime now" "is_utc now"
  shows "\<exists>rs. collect_snapshot repr loads run new_id now b =
      Inr \<lparr>snapshot_id = new_id, snapshot_observed_at = now, topology_fp = binding_fp b, snapshot_routers = rs\<rparr> \<and>
    snapshot_ok \<lparr>snapshot_id = new_id, snapshot_observed_at = now, topology_fp = binding_fp b, snapshot_routers = rs\<rparr> \<and>
    list_all2 (\<lambda>t r. complete_entry (tc_service_prefix (binding_config b)) t r \<or> failed_entry t r)
      (binding_targets b) rs"
proof -
  let ?prefix = "tc_service_prefix (binding_config b)"
  let ?f = "\<lambda>t. projr (collect_isolated repr loads run ?prefix t)"
  let ?rs = "map ?f (binding_targets b)"
  let ?s = "\<lparr>snapshot_id = new_id, snapshot_observed_at = now, topology_fp = binding_fp b, snapshot_routers = ?rs\<rparr>"
  have names: "set (map btt_node (binding_targets b)) = set BASELINE_ROUTERS"
    "distinct (map btt_node (binding_targets b))" "hex_of_length 64 (binding_fp b)"
    using assms(1) unfolding binding_ok_def by blast+
  have entry: "collect_isolated repr loads run ?prefix t = Inr (?f t) \<and> router_ok (?f t) \<and>
      (complete_entry ?prefix t (?f t) \<or> failed_entry t (?f t))" if "t \<in> set (binding_targets b)" for t
  proof -
    have "btt_node t \<in> set BASELINE_ROUTERS" using names(1) that by auto
    then have "telemetry_identifier (btt_node t)" using baseline_names by (simp add: list_all_iff)
    from collect_isolated_entry [OF this, of repr loads run ?prefix] show ?thesis by auto
  qed
  have same: "map router_name ?rs = map btt_node (binding_targets b)"
    using entry entry_name by (auto simp: comp_def)
  have "\<forall>r \<in> set ?rs. router_ok r" using entry by auto
  then have ok: "snapshot_ok ?s"
    using assms(2-4) names same unfolding snapshot_ok_def by (simp add: list_all_iff del: map_map set_map)
  have "traverse (collect_isolated repr loads run ?prefix) (binding_targets b) = Inr ?rs"
    by (rule traverse_total) (use entry in blast)
  then have "collect_snapshot repr loads run new_id now b = Inr ?s"
    using validate_snapshot_fixed [OF ok] by (simp add: collect_snapshot_def)
  moreover have "list_all2 (\<lambda>t r. complete_entry ?prefix t r \<or> failed_entry t r) (binding_targets b) ?rs"
    using entry by (auto simp: list_all2_conv_all_nth)
  ultimately show ?thesis using ok by blast
qed

lemma collected_bound:
  assumes "binding_ok b" "list_all2 (\<lambda>t r. complete_entry (tc_service_prefix (binding_config b)) t r \<or> failed_entry t r)
      (binding_targets b) rs"
    and "topology_fp s = binding_fp b" "snapshot_routers s = rs"
  shows "validate_telemetry_snapshot s b = Inr ()"
proof -
  have d: "distinct (map btt_node (binding_targets b))" using assms(1) unfolding binding_ok_def by blast
  have "validate_bound_router b r = Inr ()" if "r \<in> set rs" for r
  proof -
    from list_all2_in_set2 [OF assms(2) that] obtain t where "t \<in> set (binding_targets b)"
      "complete_entry (tc_service_prefix (binding_config b)) t r \<or> failed_entry t r" by blast
    then show ?thesis using entry_bound [OF d] by blast
  qed
  then show ?thesis using assms(3,4) by (simp add: validate_telemetry_snapshot_def each_eq_Inr)
qed

section \<open>Properties\<close>

definition lab_run :: "string \<Rightarrow> string list \<Rightarrow> string result" where
  "lab_run container command =
     (if container = ''clab-telconet-sentinel-core2'' then Inl TimeoutExpired else Inr (join '' '' command))"

definition lab_loads :: "string \<Rightarrow> json result" where
  "lab_loads output = (if starts_with ''ip'' output then Inr (JArray []) else Inr (JObject []))"

definition lab_now :: datetime where
  "lab_now = \<lparr>dt_year = 2026, dt_month = 7, dt_day = 1, dt_hour = 12, dt_minute = 0, dt_second = 0,
     dt_microsecond = 0, dt_offset = Some 0\<rparr>"

lemma lab_now_ok: "civil_datetime lab_now" "is_utc lab_now"
  by (simp_all add: lab_now_def civil_datetime_def valid_datetime_def days_in_month_def is_utc_def)

text \<open>
  C9: Collection never yields an invalid snapshot. Whatever the routers' commands output or
  raise, whatever the parser makes of it, the collector returns a snapshot of all bound
  routers in their order, valid under every model constraint and accepted by the binding's
  checks; each router's entry is either its target's complete observation or a failure that
  carries no partial data.
\<close>

theorem collected_snapshot_valid:
  assumes "binding_ok b" "telemetry_identifier new_id" "civil_datetime now" "is_utc now"
  shows "\<exists>s. collect_snapshot repr loads run new_id now b = Inr s \<and> snapshot_ok s \<and>
    snapshot_id s = new_id \<and> snapshot_observed_at s = now \<and>
    list_all2 (\<lambda>t r. complete_entry (tc_service_prefix (binding_config b)) t r \<or> failed_entry t r)
      (binding_targets b) (snapshot_routers s) \<and>
    validate_telemetry_snapshot s b = Inr ()"
proof -
  from collect_snapshot_entries [OF assms, of repr loads run] obtain s where
    s: "collect_snapshot repr loads run new_id now b = Inr s" "snapshot_ok s"
      "snapshot_id s = new_id" "snapshot_observed_at s = now" "topology_fp s = binding_fp b"
      "list_all2 (\<lambda>t r. complete_entry (tc_service_prefix (binding_config b)) t r \<or> failed_entry t r)
        (binding_targets b) (snapshot_routers s)" by force
  with collected_bound [OF assms(1) s(6,5)] show ?thesis by blast
qed

theorem collected_snapshot_valid_witness:
  "\<exists>b s. lab_binding = Inr b \<and>
    collect_snapshot (\<lambda>_. []) lab_loads lab_run ''snapshot-1'' lab_now b = Inr s \<and> snapshot_ok s \<and>
    validate_telemetry_snapshot s b = Inr ()"
proof -
  obtain b where b: "lab_binding = Inr b" "binding_ok b" using lab_binding_ok by blast
  have "telemetry_identifier ''snapshot-1''" by code_simp
  from collected_snapshot_valid [OF b(2) this lab_now_ok] b(1) show ?thesis by blast
qed

text \<open>
  One router's failure is isolated and named by its cause. A timeout, a failing command
  and an unreadable answer (an I/O error, or any value a parser or a model rejects) each give
  their own error; any other exception, and observations that contradict each other, give
  \<open>collector error\<close>; no exception leaves the collection of a router.
\<close>

theorem router_failure_isolated:
  assumes "telemetry_identifier (btt_node t)"
  shows "collect_isolated repr loads run prefix t =
    Inr (case router_observations repr loads run t prefix of
        Inr (ifs, ns, ps, route) \<Rightarrow>
          (let r = \<lparr>router_name = btt_node t, collection_success = True, router_state = UP,
             collection_error = None, interfaces = ifs, ospf_neighbors = ns, bfd_peers = ps, routes = [route]\<rparr>
           in if router_ok r then r else failed_router (btt_node t) ''collector error'')
      | Inl e \<Rightarrow> failed_router (btt_node t)
          (case e of TimeoutExpired \<Rightarrow> ''collection timed out''
           | CalledProcessError \<Rightarrow> ''collection command failed''
           | OSError _ \<Rightarrow> ''invalid telemetry response''
           | ValueError _ \<Rightarrow> ''invalid telemetry response''
           | _ \<Rightarrow> ''collector error''))"
proof -
  have failed: "failed_router_telemetry (btt_node t) m = Inr (failed_router (btt_node t) m)"
    if "m \<in> set collector_errors" for m
    using failed_router_valid [OF assms that] .
  show ?thesis
  proof (cases "router_observations repr loads run t prefix")
    case (Inl e)
    then show ?thesis
      by (cases e) (simp_all add: collect_isolated_def collect_router_def failed collector_errors_def)
  next
    case (Inr obs)
    obtain ifs ns ps route where obs: "obs = (ifs, ns, ps, route)" by (cases obs)
    define r where "r = \<lparr>router_name = btt_node t, collection_success = True, router_state = UP,
      collection_error = None, interfaces = ifs, ospf_neighbors = ns, bfd_peers = ps, routes = [route]\<rparr>"
    have "collect_isolated repr loads run prefix t =
        Inr (if router_ok r then r else failed_router (btt_node t) ''collector error'')"
      using validate_router_Inr [of r] Inr obs
      by (cases "validate_router r")
        (auto simp: collect_isolated_def collect_router_def r_def [symmetric] failed collector_errors_def)
    then show ?thesis using Inr obs by (simp add: r_def [symmetric])
  qed
qed

theorem router_failure_isolated_witness:
  "collect_isolated (\<lambda>_. []) lab_loads lab_run ''10.20.0.0/24''
     \<lparr>btt_node = ''core2'', btt_container = ''clab-telconet-sentinel-core2'', btt_role = CORE,
      btt_interfaces = [''eth1''], btt_protocol_peers = []\<rparr> =
   Inr (failed_router ''core2'' ''collection timed out'')"
proof -
  let ?t = "\<lparr>btt_node = ''core2'', btt_container = ''clab-telconet-sentinel-core2'', btt_role = CORE,
      btt_interfaces = [''eth1''], btt_protocol_peers = []\<rparr>"
  have "telemetry_identifier (btt_node ?t)" by code_simp
  note isolated = router_failure_isolated [OF this, of "\<lambda>_. []" lab_loads lab_run "''10.20.0.0/24''"]
  have "router_observations (\<lambda>_. []) lab_loads lab_run ?t ''10.20.0.0/24'' = Inl TimeoutExpired"
    by (simp add: router_observations_def lab_run_def)
  then show ?thesis using isolated by simp
qed

end
