(* ===== verification/Telemetry_Metrics.thy ===== *)
theory Telemetry_Metrics
  imports Telemetry_Collector Prometheus_Text
begin

text \<open>
  \<open>telemetry_metrics.py\<close>: the Prometheus text of the latest snapshot. A line of it is a
  sample: a metric, its labels and a value; the exposition format requires that no two
  samples have the same metric and labels, which is what the first property shows. Formatting
  the timestamp with six decimals is a parameter.
\<close>

section \<open>Rendering\<close>

definition telemetry_metrics :: "(string \<times> string \<times> string) list" where
  "telemetry_metrics =
     [(''telconet_telemetry_snapshot_timestamp_seconds'', ''Unix timestamp of the latest validated telemetry snapshot.'', ''gauge''),
      (''telconet_router_collection_success'', ''Whether telemetry collection succeeded for the router.'', ''gauge''),
      (''telconet_interface_oper_up'', ''Interface operational state: up=1, down=0, unknown=-1.'', ''gauge''),
      (''telconet_interface_receive_bytes_total'', ''Bytes received by the interface.'', ''counter''),
      (''telconet_interface_transmit_bytes_total'', ''Bytes transmitted by the interface.'', ''counter''),
      (''telconet_interface_receive_drops_total'', ''Packets dropped while receiving on the interface.'', ''counter''),
      (''telconet_interface_transmit_drops_total'', ''Packets dropped while transmitting on the interface.'', ''counter''),
      (''telconet_ospf_neighbor_full'', ''OSPF neighbor state: full=1, down=0, unknown=-1.'', ''gauge''),
      (''telconet_bfd_peer_configured'', ''Whether BFD is configured for the peer.'', ''gauge''),
      (''telconet_bfd_peer_up'', ''Configured BFD peer state: up=1, down=0, unknown or absent=-1.'', ''gauge''),
      (''telconet_selected_route_present'', ''Whether the selected service route is present.'', ''gauge''),
      (''telconet_selected_route_metric'', ''Metric of the selected service route.'', ''gauge''),
      (''telconet_selected_route_egress'', ''Selected egress link for the service route.'', ''gauge''),
      (''telconet_topology_node_info'', ''Static node and role information from validated topology binding.'', ''gauge''),
      (''telconet_topology_link_oper_up'', ''Combined endpoint state: up=1, down=0, unknown=-1.'', ''gauge'')]"

definition header_lines :: "string list" where
  "header_lines =
     concat (map (\<lambda>(name, help_text, metric_type).
       [''# HELP '' @ name @ '' '' @ help_text, ''# TYPE '' @ name @ '' '' @ metric_type]) telemetry_metrics)"

type_synonym labels = "(string \<times> string) list"
type_synonym sample = "string \<times> labels \<times> string"

definition labels_text :: "labels \<Rightarrow> string" where
  "labels_text items = ''{'' @ join '','' (map (\<lambda>(name, value). label name (escape_label value)) items) @ ''}''"

definition sample_text :: "sample \<Rightarrow> string" where
  "sample_text s = (case s of (name, items, value) \<Rightarrow> name @ labels_text items @ '' '' @ value)"

definition state_value :: "TelemetryState \<Rightarrow> int" where
  "state_value state = (case state of UP \<Rightarrow> 1 | DOWN \<Rightarrow> 0 | UNKNOWN \<Rightarrow> - 1)"

definition router_map :: "TelemetrySnapshot \<Rightarrow> (string \<times> RouterTelemetry) list" where
  "router_map snapshot = dict_of_list router_name (snapshot_routers snapshot)"

definition interface_state :: "(string \<times> RouterTelemetry) list \<Rightarrow> string \<Rightarrow> string \<Rightarrow> TelemetryState" where
  "interface_state routers node interface_name =
     (case map_of routers node of
        None \<Rightarrow> UNKNOWN
      | Some router \<Rightarrow>
          if \<not> collection_success router then UNKNOWN
          else (case List.find (\<lambda>i. it_name i = interface_name) (interfaces router) of
                  Some i \<Rightarrow> it_state i | None \<Rightarrow> UNKNOWN))"

definition link_state :: "TelemetryState \<Rightarrow> TelemetryState \<Rightarrow> int" where
  "link_state source target =
     (if DOWN \<in> {source, target} then 0 else if source = UP \<and> target = UP then 1 else - 1)"

text \<open>\<open>binding.interface_link_id(node, interface) or "unmanaged"\<close>\<close>

definition link_label :: "TelemetryTopologyBinding \<Rightarrow> string \<Rightarrow> string \<Rightarrow> string" where
  "link_label b node interface =
     (case interface_link_id b node interface of
        Some i \<Rightarrow> if i = [] then ''unmanaged'' else i
      | None \<Rightarrow> ''unmanaged'')"

definition interface_samples :: "TelemetryTopologyBinding \<Rightarrow> string \<Rightarrow> InterfaceTelemetry \<Rightarrow> sample list" where
  "interface_samples b node i =
     (let labels = [(''node'', node), (''interface'', it_name i), (''link_id'', link_label b node (it_name i))] in
      [(''telconet_interface_oper_up'', labels, int_str (state_value (it_state i))),
       (''telconet_interface_receive_bytes_total'', labels, int_str (it_rx_bytes i)),
       (''telconet_interface_transmit_bytes_total'', labels, int_str (it_tx_bytes i)),
       (''telconet_interface_receive_drops_total'', labels, int_str (it_rx_drops i)),
       (''telconet_interface_transmit_drops_total'', labels, int_str (it_tx_drops i))])"

definition neighbor_samples :: "string \<Rightarrow> OspfNeighborTelemetry \<Rightarrow> sample list" where
  "neighbor_samples node n =
     [(''telconet_ospf_neighbor_full'',
       [(''node'', node), (''neighbor'', on_neighbor n), (''interface'', on_interface n)],
       int_str (state_value (on_state n)))]"

definition peer_samples :: "string \<Rightarrow> BfdPeerTelemetry \<Rightarrow> sample list" where
  "peer_samples node p =
     (let labels = [(''node'', node), (''peer'', bp_peer p), (''interface'', bp_interface p)] in
      [(''telconet_bfd_peer_configured'', labels, bool_sample (bp_configured p)),
       (''telconet_bfd_peer_up'', labels, int_str (state_value (bp_state p)))])"

definition route_samples :: "TelemetryTopologyBinding \<Rightarrow> string \<Rightarrow> RouteTelemetry \<Rightarrow> sample list result" where
  "route_samples b node r =
     (let labels = [(''node'', node), (''prefix'', rt_prefix r)];
          present = (''telconet_selected_route_present'', labels, bool_sample (rt_present r)) in
      if rt_present r then
        (case (rt_metric r, rt_egress_interface r) of
           (Some metric, Some egress) \<Rightarrow>
             Inr [present, (''telconet_selected_route_metric'', labels, int_str metric),
               (''telconet_selected_route_egress'', labels @ [(''link_id'', link_label b node egress)], ''1'')]
         | _ \<Rightarrow> Inl (RuntimeError ''AssertionError''))
      else Inr [present])"

definition router_samples :: "TelemetryTopologyBinding \<Rightarrow> RouterTelemetry \<Rightarrow> sample list result" where
  "router_samples b router =
     (let node = router_name router in
      rbind (traverse (route_samples b node) (sort_key rt_prefix (routes router))) (\<lambda>rs.
        Inr ((''telconet_router_collection_success'', [(''node'', node)], bool_sample (collection_success router)) #
          concat (map (interface_samples b node) (sort_key it_name (interfaces router))) @
          concat (map (neighbor_samples node) (sort_key neighbor_pair (ospf_neighbors router))) @
          concat (map (peer_samples node) (sort_key bfd_pair (bfd_peers router))) @ concat rs)))"

definition target_samples ::
  "TelemetryTopologyBinding \<Rightarrow> (string \<times> RouterTelemetry) list \<Rightarrow> BoundTelemetryTarget \<Rightarrow> sample list result" where
  "target_samples b routers target =
     (case map_of routers (btt_node target) of
        None \<Rightarrow> Inl (KeyError (btt_node target))
      | Some router \<Rightarrow> router_samples b router)"

definition link_sample :: "(string \<times> RouterTelemetry) list \<Rightarrow> TelemetryLink \<Rightarrow> sample" where
  "link_sample routers l =
     (''telconet_topology_link_oper_up'',
      [(''link_id'', tl_id l), (''source'', tl_source l), (''target'', tl_target l)],
      int_str (link_state (interface_state routers (tl_source l) (tl_source_interface l))
        (interface_state routers (tl_target l) (tl_target_interface l))))"

definition link_samples :: "TelemetryTopologyBinding \<Rightarrow> (string \<times> RouterTelemetry) list \<Rightarrow> sample list" where
  "link_samples b routers =
     map (link_sample routers)
       (filter (\<lambda>l. tl_source l \<in> set (dict_keys routers) \<and> tl_target l \<in> set (dict_keys routers)) (binding_links b))"

definition snapshot_samples :: "TelemetryTopologyBinding \<Rightarrow> TelemetrySnapshot \<Rightarrow> sample list result" where
  "snapshot_samples b snapshot =
     (let routers = router_map snapshot in
      rbind (traverse (target_samples b routers) (binding_targets b)) (\<lambda>ss.
        Inr (concat ss @ link_samples b routers)))"

definition node_samples :: "TelemetryTopologyBinding \<Rightarrow> sample list" where
  "node_samples b =
     map (\<lambda>t. (''telconet_topology_node_info'', [(''node'', btt_node t), (''role'', role_value (btt_role t))], ''1''))
       (binding_targets b)"

definition rstrip :: "char \<Rightarrow> string \<Rightarrow> string" where
  "rstrip c s = rev (dropWhile (\<lambda>x. x = c) (rev s))"

text \<open>\<open>six_decimals\<close>: \<open>f"{observed_at.timestamp():.6f}"\<close>\<close>

definition render_telemetry_metrics ::
  "(datetime \<Rightarrow> string) \<Rightarrow> TelemetrySnapshot option \<Rightarrow> TelemetryTopologyBinding \<Rightarrow> string result" where
  "render_telemetry_metrics six_decimals latest b =
     (let start = header_lines @ map sample_text (node_samples b) in
      case latest of
        None \<Rightarrow> Inr (joined_lines start)
      | Some snapshot \<Rightarrow>
          rbind (validate_telemetry_snapshot snapshot b) (\<lambda>_.
          rbind (snapshot_samples b snapshot) (\<lambda>samples.
            Inr (joined_lines (start @
              [''telconet_telemetry_snapshot_timestamp_seconds '' @
               rstrip (CHR ''.'') (rstrip (CHR ''0'') (six_decimals (snapshot_observed_at snapshot)))] @
              map sample_text samples)))))"

section \<open>Series\<close>

definition series :: "sample \<Rightarrow> string \<times> labels" where
  "series s = (fst s, fst (snd s))"

lemma series_simps [simp]: "series (name, items, value) = (name, items)"
  by (simp add: series_def)

text \<open>Lists whose elements reveal which part they are from.\<close>

lemma distinct_concat_tagged:
  assumes "distinct (map g xs)" "\<And>x. x \<in> set xs \<Longrightarrow> distinct (f x)"
    and "\<And>x k. x \<in> set xs \<Longrightarrow> k \<in> set (f x) \<Longrightarrow> tag k = g x"
  shows "distinct (concat (map f xs))"
  using assms
proof (induction xs)
  case (Cons x xs)
  have "distinct (concat (map f xs))" using Cons.prems by (intro Cons.IH) auto
  moreover have False if "k \<in> set (f x)" "y \<in> set xs" "k \<in> set (f y)" for k y
  proof -
    have "g x = g y" using Cons.prems(3) [of x k] Cons.prems(3) [of y k] that by simp
    then show False using Cons.prems(1) that(2) by auto
  qed
  ultimately show ?case using Cons.prems(2) [of x] by auto
qed simp

lemma distinct_map_sort_key: "distinct (map f (sort_key k xs)) = distinct (map f xs)"
  by (metis distinct_map distinct_sort set_sort)

lemma interface_series:
  assumes "distinct (map it_name is)"
  shows "distinct (map series (concat (map (interface_samples b node) is)))"
proof -
  have "distinct (concat (map (\<lambda>i. map series (interface_samples b node i)) is))"
    by (rule distinct_concat_tagged [where tag = "\<lambda>k. snd (snd k ! 1)", OF assms])
      (auto simp: interface_samples_def Let_def)
  then show ?thesis by (simp add: map_concat comp_def)
qed

lemma neighbor_series:
  assumes "distinct (map neighbor_pair ns)"
  shows "distinct (map series (concat (map (neighbor_samples node) ns)))"
proof -
  have "distinct (concat (map (\<lambda>n. map series (neighbor_samples node n)) ns))"
    by (rule distinct_concat_tagged [where tag = "\<lambda>k. (snd (snd k ! 1), snd (snd k ! 2))", OF assms])
      (auto simp: neighbor_samples_def neighbor_pair_def)
  then show ?thesis by (simp add: map_concat comp_def)
qed

lemma peer_series:
  assumes "distinct (map bfd_pair ps)"
  shows "distinct (map series (concat (map (peer_samples node) ps)))"
proof -
  have "distinct (concat (map (\<lambda>p. map series (peer_samples node p)) ps))"
    by (rule distinct_concat_tagged [where tag = "\<lambda>k. (snd (snd k ! 1), snd (snd k ! 2))", OF assms])
      (auto simp: peer_samples_def bfd_pair_def Let_def)
  then show ?thesis by (simp add: map_concat comp_def)
qed

text \<open>The samples of a valid route, without the assertions.\<close>

definition valid_route_samples :: "TelemetryTopologyBinding \<Rightarrow> string \<Rightarrow> RouteTelemetry \<Rightarrow> sample list" where
  "valid_route_samples b node r = projr (route_samples b node r)"

lemma route_samples_valid:
  "route_ok r \<Longrightarrow> route_samples b node r = Inr (valid_route_samples b node r)"
  by (auto simp: route_ok_def route_samples_def valid_route_samples_def Let_def)

lemma valid_route_form:
  assumes "route_ok r"
  shows "let labels = [(''node'', node), (''prefix'', rt_prefix r)] in \<exists>v m e.
    valid_route_samples b node r = [(''telconet_selected_route_present'', labels, v)] \<or>
    valid_route_samples b node r = [(''telconet_selected_route_present'', labels, v),
      (''telconet_selected_route_metric'', labels, m),
      (''telconet_selected_route_egress'', labels @ [(''link_id'', e)], ''1'')]"
proof (cases "rt_present r")
  case True
  then obtain m i where "rt_metric r = Some m" "rt_egress_interface r = Some i"
    using assms by (auto simp: route_ok_def)
  with True show ?thesis by (simp add: valid_route_samples_def route_samples_def Let_def)
qed (simp add: valid_route_samples_def route_samples_def Let_def)

lemma route_series:
  assumes "distinct (map rt_prefix rs)" "list_all route_ok rs"
  shows "distinct (map series (concat (map (valid_route_samples b node) rs)))"
proof -
  have "distinct (concat (map (\<lambda>r. map series (valid_route_samples b node r)) rs))"
  proof (rule distinct_concat_tagged [where tag = "\<lambda>k. snd (snd k ! 1)", OF assms(1)])
    fix r assume "r \<in> set rs"
    then have "route_ok r" using assms(2) by (simp add: list_all_iff)
    note form = valid_route_form [OF this, of node b, unfolded Let_def]
    then show "distinct (map series (valid_route_samples b node r))" by (elim exE disjE) simp_all
    fix k assume "k \<in> set (map series (valid_route_samples b node r))"
    with form show "snd (snd k ! 1) = rt_prefix r" by (elim exE disjE) auto
  qed
  then show ?thesis by (simp add: map_concat comp_def)
qed

definition valid_router_samples :: "TelemetryTopologyBinding \<Rightarrow> RouterTelemetry \<Rightarrow> sample list" where
  "valid_router_samples b router = projr (router_samples b router)"

lemma router_samples_valid:
  assumes "router_ok r"
  shows "router_samples b r = Inr (valid_router_samples b r)"
    and "valid_router_samples b r =
      (''telconet_router_collection_success'', [(''node'', router_name r)], bool_sample (collection_success r)) #
        concat (map (interface_samples b (router_name r)) (sort_key it_name (interfaces r))) @
        concat (map (neighbor_samples (router_name r)) (sort_key neighbor_pair (ospf_neighbors r))) @
        concat (map (peer_samples (router_name r)) (sort_key bfd_pair (bfd_peers r))) @
        concat (map (valid_route_samples b (router_name r)) (sort_key rt_prefix (routes r)))"
proof -
  have "traverse (route_samples b (router_name r)) (sort_key rt_prefix (routes r)) =
      Inr (map (valid_route_samples b (router_name r)) (sort_key rt_prefix (routes r)))"
    using assms by (intro traverse_total route_samples_valid) (simp add: router_ok_def list_all_iff)
  then show "router_samples b r = Inr (valid_router_samples b r)"
    and "valid_router_samples b r =
      (''telconet_router_collection_success'', [(''node'', router_name r)], bool_sample (collection_success r)) #
        concat (map (interface_samples b (router_name r)) (sort_key it_name (interfaces r))) @
        concat (map (neighbor_samples (router_name r)) (sort_key neighbor_pair (ospf_neighbors r))) @
        concat (map (peer_samples (router_name r)) (sort_key bfd_pair (bfd_peers r))) @
        concat (map (valid_route_samples b (router_name r)) (sort_key rt_prefix (routes r)))"
    by (simp_all add: router_samples_def valid_router_samples_def Let_def)
qed

text \<open>Metrics of each group, and the node label every sample of a router starts with.\<close>

definition labelled :: "string \<Rightarrow> sample \<Rightarrow> bool" where
  "labelled node s =
     (case fst (snd s) of
        [] \<Rightarrow> False
      | (k, v) # rest \<Rightarrow> k = ''node'' \<and> v = node \<and> ''node'' \<notin> set (map fst rest))"

lemma labelled_hd: "labelled node s \<Longrightarrow> hd (fst (snd s)) = (''node'', node)"
  by (auto simp: labelled_def split: list.splits)


lemma group_names:
  "s \<in> set (interface_samples b node i) \<Longrightarrow> fst s \<in> {''telconet_interface_oper_up'',
     ''telconet_interface_receive_bytes_total'', ''telconet_interface_transmit_bytes_total'',
     ''telconet_interface_receive_drops_total'', ''telconet_interface_transmit_drops_total''} \<and>
     labelled node s"
  "s \<in> set (neighbor_samples node n) \<Longrightarrow> fst s = ''telconet_ospf_neighbor_full'' \<and> labelled node s"
  "s \<in> set (peer_samples node p) \<Longrightarrow> fst s \<in> {''telconet_bfd_peer_configured'', ''telconet_bfd_peer_up''} \<and>
     labelled node s"
  "route_ok r \<Longrightarrow> s \<in> set (valid_route_samples b node r) \<Longrightarrow> fst s \<in> {''telconet_selected_route_present'',
     ''telconet_selected_route_metric'', ''telconet_selected_route_egress''} \<and> labelled node s"
proof -
  assume "route_ok r" and s: "s \<in> set (valid_route_samples b node r)"
  from valid_route_form [OF this(1), of node b, unfolded Let_def] s
  show "fst s \<in> {''telconet_selected_route_present'',
     ''telconet_selected_route_metric'', ''telconet_selected_route_egress''} \<and> labelled node s"
    by (elim exE disjE) (auto simp: labelled_def)
qed (auto simp: interface_samples_def neighbor_samples_def peer_samples_def Let_def labelled_def)

lemma sorted_groups:
  "s \<in> set (concat (map (interface_samples b node) (sort_key k is))) \<Longrightarrow> \<exists>i. s \<in> set (interface_samples b node i)"
  "s \<in> set (concat (map (neighbor_samples node) (sort_key k' ns))) \<Longrightarrow> \<exists>n. s \<in> set (neighbor_samples node n)"
  "s \<in> set (concat (map (peer_samples node) (sort_key k'' ps))) \<Longrightarrow> \<exists>p. s \<in> set (peer_samples node p)"
  "list_all route_ok rs \<Longrightarrow> s \<in> set (concat (map (valid_route_samples b node) (sort_key k3 rs))) \<Longrightarrow>
     \<exists>r. route_ok r \<and> s \<in> set (valid_route_samples b node r)"
  by (auto simp: list_all_iff)

lemma router_series:
  assumes "router_ok r"
  shows "distinct (map series (valid_router_samples b r))"
    and "s \<in> set (valid_router_samples b r) \<Longrightarrow> labelled (router_name r) s"
proof -
  let ?n = "router_name r"
  let ?A = "concat (map (interface_samples b ?n) (sort_key it_name (interfaces r)))"
  let ?B = "concat (map (neighbor_samples ?n) (sort_key neighbor_pair (ospf_neighbors r)))"
  let ?C = "concat (map (peer_samples ?n) (sort_key bfd_pair (bfd_peers r)))"
  let ?D = "concat (map (valid_route_samples b ?n) (sort_key rt_prefix (routes r)))"
  have ok: "distinct (map it_name (interfaces r))" "distinct (map neighbor_pair (ospf_neighbors r))"
    "distinct (map bfd_pair (bfd_peers r))" "distinct (map rt_prefix (routes r))" "list_all route_ok (routes r)"
    using assms unfolding router_ok_def neighbor_pair_def bfd_pair_def by blast+
  have d: "distinct (map series ?A)" "distinct (map series ?B)" "distinct (map series ?C)" "distinct (map series ?D)"
    using ok by (auto intro!: interface_series neighbor_series peer_series route_series
      simp: distinct_map_sort_key list_all_iff)
  have A: "fst s \<in> {''telconet_interface_oper_up'', ''telconet_interface_receive_bytes_total'',
      ''telconet_interface_transmit_bytes_total'', ''telconet_interface_receive_drops_total'',
      ''telconet_interface_transmit_drops_total''}" "labelled ?n s" if "s \<in> set ?A" for s
    using sorted_groups(1) [OF that] group_names(1) by blast+
  have B: "fst s = ''telconet_ospf_neighbor_full''" "labelled ?n s" if "s \<in> set ?B" for s
    using sorted_groups(2) [OF that] group_names(2) by blast+
  have C: "fst s \<in> {''telconet_bfd_peer_configured'', ''telconet_bfd_peer_up''}" "labelled ?n s"
    if "s \<in> set ?C" for s
    using sorted_groups(3) [OF that] group_names(3) by blast+
  have D: "fst s \<in> {''telconet_selected_route_present'', ''telconet_selected_route_metric'',
      ''telconet_selected_route_egress''}" "labelled ?n s" if "s \<in> set ?D" for s
    using sorted_groups(4) [OF ok(5) that] group_names(4) by blast+
  have apart: "set (map series xs) \<inter> set (map series ys) = {}"
    if "\<And>x. x \<in> set xs \<Longrightarrow> fst x \<in> X" "\<And>y. y \<in> set ys \<Longrightarrow> fst y \<in> Y" "X \<inter> Y = {}"
    for xs ys :: "sample list" and X Y
  proof -
    have "fst ` set (map series xs) \<subseteq> X" "fst ` set (map series ys) \<subseteq> Y" using that(1,2) by (auto simp: series_def)
    then show ?thesis using that(3) by blast
  qed
  let ?X = "{''telconet_bfd_peer_configured'', ''telconet_bfd_peer_up'', ''telconet_selected_route_present'',
    ''telconet_selected_route_metric'', ''telconet_selected_route_egress''}"
  have "distinct (map series (?C @ ?D))"
    unfolding map_append distinct_append
    using d(3,4) by (intro conjI apart [OF C(1) D(1)]) simp_all
  moreover have CD: "fst x \<in> ?X" if "x \<in> set (?C @ ?D)" for x using that C(1) [of x] D(1) [of x] by auto
  have "set (map series ?B) \<inter> set (map series (?C @ ?D)) = {}"
    by (rule apart [where X = "{''telconet_ospf_neighbor_full''}", OF _ CD]) (simp_all add: B(1))
  ultimately have "distinct (map series (?B @ ?C @ ?D))"
    using d(2) unfolding map_append [of series ?B] distinct_append by blast
  moreover have BCD: "fst x \<in> insert ''telconet_ospf_neighbor_full'' ?X" if "x \<in> set (?B @ ?C @ ?D)" for x
    using that B(1) [of x] CD [of x] by auto
  have "set (map series ?A) \<inter> set (map series (?B @ ?C @ ?D)) = {}"
    by (rule apart [OF A(1) BCD]) simp_all
  ultimately have ABCD: "distinct (map series (?A @ ?B @ ?C @ ?D))"
    using d(1) unfolding map_append [of series ?A] distinct_append by blast
  have "''telconet_router_collection_success'' \<noteq> fst x" if "x \<in> set (?A @ ?B @ ?C @ ?D)" for x
  proof -
    from that consider "x \<in> set ?A" | "x \<in> set (?B @ ?C @ ?D)" unfolding set_append by blast
    then show ?thesis by cases (drule A(1), force, drule BCD, force)
  qed
  then have "series (''telconet_router_collection_success'', [(''node'', ?n)], v) \<notin> set (map series (?A @ ?B @ ?C @ ?D))"
    for v by (force simp: series_def)
  then show "distinct (map series (valid_router_samples b r))"
    unfolding router_samples_valid(2) [OF assms] using ABCD by (simp only: list.map distinct.simps not_False_eq_True simp_thms)
  show "s \<in> set (valid_router_samples b r) \<Longrightarrow> labelled (router_name r) s"
  proof -
    assume "s \<in> set (valid_router_samples b r)"
    then consider "s = (''telconet_router_collection_success'', [(''node'', ?n)], bool_sample (collection_success r))"
      | "s \<in> set ?A" | "s \<in> set ?B" | "s \<in> set ?C" | "s \<in> set ?D"
      unfolding router_samples_valid(2) [OF assms] set_append list.set by blast
    then show ?thesis by cases (simp add: labelled_def, erule A(2), erule B(2), erule C(2), erule D(2))
  qed
qed

section \<open>A snapshot's samples\<close>

text \<open>A snapshot that passed the binding's checks has a router for each target.\<close>

lemma target_router:
  assumes "binding_ok b" "snapshot_ok s" "t \<in> set (binding_targets b)"
  shows "\<exists>r \<in> set (snapshot_routers s). map_of (router_map s) (btt_node t) = Some r \<and>
    router_name r = btt_node t \<and> router_ok r"
proof -
  have "btt_node t \<in> set (map router_name (snapshot_routers s))"
    using assms unfolding binding_ok_def snapshot_ok_def by (metis in_set_conv_nth length_map list.set_map imageI)
  then obtain r where r: "r \<in> set (snapshot_routers s)" "router_name r = btt_node t" by auto
  have "distinct (map router_name (snapshot_routers s))" "router_ok r"
    using assms(2) r(1) by (simp_all add: snapshot_ok_def list_all_iff)
  then show ?thesis
    using r map_of_key_pairs [of router_name "snapshot_routers s" r] by (auto simp: router_map_def dict_of_list_distinct)
qed

definition target_router_of :: "TelemetrySnapshot \<Rightarrow> BoundTelemetryTarget \<Rightarrow> RouterTelemetry" where
  "target_router_of s t = the (map_of (router_map s) (btt_node t))"

lemma snapshot_samples_valid:
  assumes "binding_ok b" "snapshot_ok s"
  shows "snapshot_samples b s = Inr (concat (map (\<lambda>t. valid_router_samples b (target_router_of s t))
    (binding_targets b)) @ link_samples b (router_map s))"
proof -
  have "target_samples b (router_map s) t = Inr (valid_router_samples b (target_router_of s t))"
    if "t \<in> set (binding_targets b)" for t
    using target_router [OF assms that] router_samples_valid(1)
    by (auto simp: target_samples_def target_router_of_def)
  then have "traverse (target_samples b (router_map s)) (binding_targets b) =
      Inr (map (\<lambda>t. valid_router_samples b (target_router_of s t)) (binding_targets b))"
    by (rule traverse_total)
  then show ?thesis by (simp add: snapshot_samples_def Let_def)
qed

lemma snapshot_series:
  assumes "binding_ok b" "snapshot_ok s" "snapshot_samples b s = Inr samples"
  shows "distinct (map series samples)"
proof -
  let ?R = "\<lambda>t. map series (valid_router_samples b (target_router_of s t))"
  have targets: "distinct (map (\<lambda>t. (''node'', btt_node t)) (binding_targets b))"
    "distinct (map tl_id (binding_links b))"
    using assms(1) by (auto simp: binding_ok_def distinct_map inj_on_def)
  have r: "router_ok (target_router_of s t)" "router_name (target_router_of s t) = btt_node t"
    if "t \<in> set (binding_targets b)" for t
    using target_router [OF assms(1,2) that] by (auto simp: target_router_of_def)
  have head: "hd (snd k) = (''node'', btt_node t)" if "t \<in> set (binding_targets b)" "k \<in> set (?R t)" for t k
    using that(2) router_series(2) [OF r(1) [OF that(1)], THEN labelled_hd] r(2) [OF that(1)] by (auto simp: series_def)
  have left: "distinct (concat (map ?R (binding_targets b)))"
    by (rule distinct_concat_tagged [where tag = "\<lambda>k. hd (snd k)", OF targets(1)])
      (use router_series(1) r head in blast)+
  let ?links = "filter (\<lambda>l. tl_source l \<in> set (dict_keys (router_map s)) \<and> tl_target l \<in> set (dict_keys (router_map s)))
    (binding_links b)"
  have "distinct (map tl_id ?links)" using targets(2) by (rule distinct_map_filter)
  then have right: "distinct (map series (link_samples b (router_map s)))"
    by (simp add: link_samples_def link_sample_def distinct_map comp_inj_on_iff inj_on_def)
  have "fst (hd (snd k)) = ''link_id''" if "k \<in> set (map series (link_samples b (router_map s)))" for k
    using that by (auto simp: link_samples_def link_sample_def)
  moreover have "fst (hd (snd k)) = ''node''" if "k \<in> set (concat (map ?R (binding_targets b)))" for k
  proof -
    from that obtain t where "t \<in> set (binding_targets b)" "k \<in> set (?R t)" by (auto simp: set_concat)
    from head [OF this] show ?thesis by simp
  qed
  moreover have "fst (''node'' :: string, v :: string) \<noteq> ''link_id''" for v by simp
  ultimately have apart: "set (concat (map ?R (binding_targets b))) \<inter> set (map series (link_samples b (router_map s))) = {}"
    by (metis disjoint_iff fst_conv)
  with left right show ?thesis
    using assms(3) snapshot_samples_valid [OF assms(1,2)] by (auto simp: map_concat comp_def)
qed








section \<open>Properties\<close>

text \<open>The lab's collected snapshot: \<open>core2\<close> does not answer.\<close>

definition lab_collected :: "TelemetryTopologyBinding \<Rightarrow> RouterTelemetry list result" where
  "lab_collected b = traverse (collect_isolated (\<lambda>_. []) lab_loads lab_run (tc_service_prefix (binding_config b)))
     (binding_targets b)"

lemma lab_collected_success:
  "map_sum id (filter (\<lambda>(n, ok). \<not> ok) \<circ> map (\<lambda>r. (router_name r, collection_success r))) (rbind lab_binding lab_collected) =
   Inr [(''core2'', False)]"
  by code_simp

lemma filter_first: "filter P xs = x # ys \<Longrightarrow> x \<in> set xs"
  by (metis filter_is_subset list.set_intros(1) subsetD)

lemma lab_snapshot:
  "\<exists>b s. lab_binding = Inr b \<and> binding_ok b \<and> snapshot_ok s \<and> validate_telemetry_snapshot s b = Inr () \<and>
    (\<exists>r \<in> set (snapshot_routers s). router_name r = ''core2'' \<and> \<not> collection_success r)"
proof -
  obtain b where b: "lab_binding = Inr b" "binding_ok b" using lab_binding_ok by blast
  have "telemetry_identifier ''snapshot-1''" by code_simp
  from collect_snapshot_entries [OF b(2) this lab_now_ok, of "\<lambda>_. []" lab_loads lab_run] obtain rs s where
    s: "collect_snapshot (\<lambda>_. []) lab_loads lab_run ''snapshot-1'' lab_now b = Inr s" "snapshot_ok s"
      "snapshot_routers s = rs" "topology_fp s = binding_fp b"
      "list_all2 (\<lambda>t r. complete_entry (tc_service_prefix (binding_config b)) t r \<or> failed_entry t r)
        (binding_targets b) rs" by force
  then obtain a where a: "lab_collected b = Inr a"
    and v: "validate_snapshot \<lparr>snapshot_id = ''snapshot-1'', snapshot_observed_at = lab_now,
      topology_fp = binding_fp b, snapshot_routers = a\<rparr> = Inr s"
    unfolding collect_snapshot_def lab_collected_def rbind_eq_Inr by blast
  from validate_snapshot_Inr(2) [OF _ v] lab_now_ok(1) s(3) have "a = rs" by auto
  with a have "lab_collected b = Inr rs" by simp
  then have "filter (\<lambda>(n, ok). \<not> ok) (map (\<lambda>r. (router_name r, collection_success r)) rs) = [(''core2'', False)]"
    using lab_collected_success by (simp only: b(1) rbind_simps map_sum.simps comp_apply sum.inject)
  then have "(''core2'', False) \<in> set (map (\<lambda>r. (router_name r, collection_success r)) rs)"
    by (rule filter_first)
  then have "\<exists>r \<in> set (snapshot_routers s). router_name r = ''core2'' \<and> \<not> collection_success r" using s(3) by auto
  then show ?thesis using b s(2) collected_bound [OF b(2) s(5,4,3)] by blast
qed

text \<open>
  C14: The telemetry page is complete and well formed as Prometheus requires: for every valid
  snapshot that passes the binding's checks the renderer returns (no look-up fails and no
  assertion is hit), and no two samples of the snapshot have the same metric and labels.
\<close>

theorem telemetry_series_unique:
  assumes "binding_ok b" "snapshot_ok s" "validate_telemetry_snapshot s b = Inr ()"
  shows "\<exists>samples page. snapshot_samples b s = Inr samples \<and>
    render_telemetry_metrics six_decimals (Some s) b = Inr page \<and> distinct (map series samples)"
proof -
  obtain samples where s: "snapshot_samples b s = Inr samples" using snapshot_samples_valid [OF assms(1,2)] by blast
  then show ?thesis
    using snapshot_series [OF assms(1,2) s] assms(3) by (simp add: render_telemetry_metrics_def Let_def)
qed

theorem telemetry_series_unique_witness:
  "\<exists>b s samples page. lab_binding = Inr b \<and> snapshot_samples b s = Inr samples \<and>
    render_telemetry_metrics (\<lambda>_. ''1782907200.000000'') (Some s) b = Inr page \<and> distinct (map series samples)"
proof -
  obtain b s where "lab_binding = Inr b" "binding_ok b" "snapshot_ok s" "validate_telemetry_snapshot s b = Inr ()"
    using lab_snapshot by blast
  with telemetry_series_unique [of b s "\<lambda>_. ''1782907200.000000''"] show ?thesis by blast
qed



end
