(* ===== verification/Telemetry_Api.thy ===== *)
theory Telemetry_Api
  imports Telemetry_Stores Telemetry_Metrics
begin

text \<open>
  The telemetry endpoints of \<open>api.py\<close> over any telemetry store, and the collector's client
  and loop. Inside the store's interface it is proved that an accepted snapshot is strictly
  newer than the current one and becomes it, and that refusals change nothing; joined with
  the collector, that what it collects is never refused for its content.
\<close>

section \<open>The endpoints\<close>

text \<open>\<open>latest.snapshot_id != snapshot.snapshot_id and snapshot.observed_at <= latest.observed_at\<close>\<close>

definition stale :: "TelemetrySnapshot option \<Rightarrow> TelemetrySnapshot \<Rightarrow> bool" where
  "stale latest snapshot =
     (case latest of
        None \<Rightarrow> False
      | Some l \<Rightarrow> snapshot_id l \<noteq> snapshot_id snapshot \<and>
          dt_key (snapshot_observed_at snapshot) \<le> dt_key (snapshot_observed_at l))"

text \<open>The body is validated first; a \<open>ValueError\<close> of a validator is status 422.\<close>

definition parsed_snapshot :: "TelemetrySnapshot \<Rightarrow> TelemetrySnapshot http" where
  "parsed_snapshot body =
     (case validate_snapshot body of
        Inr snapshot \<Rightarrow> Inr snapshot
      | Inl (ValueError _) \<Rightarrow> Inl (422, ''validation error'')
      | Inl _ \<Rightarrow> Inl (500, ''Internal Server Error''))"

text \<open>The status code and the snapshot, or an error, and the store.\<close>

definition ingest_telemetry_snapshot ::
  "(TelemetrySnapshot \<Rightarrow> 's \<Rightarrow> (bool \<times> 's) result) \<Rightarrow>
   (string option \<Rightarrow> 's \<Rightarrow> TelemetrySnapshot option result) \<Rightarrow>
   (string option \<Rightarrow> 's \<Rightarrow> TelemetrySnapshot list result) \<Rightarrow> (string \<Rightarrow> string) \<Rightarrow>
   TelemetryTopologyBinding \<Rightarrow> datetime \<Rightarrow> TelemetrySnapshot \<Rightarrow> 's \<Rightarrow>
   (int \<times> TelemetrySnapshot) http \<times> 's" where
  "ingest_telemetry_snapshot save latest recent repr b now body s =
     (case parsed_snapshot body of
        Inl h \<Rightarrow> (Inl h, s)
      | Inr snapshot \<Rightarrow>
     (case hbind (caught repr None (Some 409) (validate_telemetry_ingest snapshot b now)) (\<lambda>_.
             caught repr None None (latest (Some (binding_fp b)) s)) of
        Inl h \<Rightarrow> (Inl h, s)
      | Inr current \<Rightarrow>
          if stale current snapshot
          then (Inl (409, ''telemetry snapshot is not newer than the current snapshot''), s)
          else
            (case save snapshot s of
               Inl e \<Rightarrow> (caught repr None (Some 409) (Inl e), s)
             | Inr (created, s') \<Rightarrow>
                 if created then (Inr (201, snapshot), s')
                 else
                   (hbind (caught repr None None (recent (Some (binding_fp b)) s')) (\<lambda>candidates.
                      if list_ex (\<lambda>c. snapshot_id c = snapshot_id snapshot) candidates then Inr (200, snapshot)
                      else Inl (409, ''telemetry snapshot is outside the retention window'')), s'))))"

definition get_latest_telemetry_snapshot ::
  "(string option \<Rightarrow> 's \<Rightarrow> TelemetrySnapshot option result) \<Rightarrow> (string \<Rightarrow> string) \<Rightarrow>
   TelemetryTopologyBinding \<Rightarrow> 's \<Rightarrow> TelemetrySnapshot http" where
  "get_latest_telemetry_snapshot latest repr b s =
     hbind (caught repr None None (latest (Some (binding_fp b)) s)) (\<lambda>snapshot.
       case snapshot of None \<Rightarrow> Inl (404, ''telemetry snapshot not found'') | Some x \<Rightarrow> Inr x)"

section \<open>The collector's client and loop\<close>

text \<open>
  What a request meets: an HTTP error, a \<open>URLError\<close> (no connection), a connection that breaks
  once it is open (a read that times out, a server that hangs up or resets: \<open>urllib\<close> wraps these
  no more, they are no \<open>URLError\<close>), or a body with what \<open>json.loads\<close> makes of it.
\<close>

datatype http_reply = HttpError int | UrlError | Broken string | Reply "json result"

definition publish :: "http_reply \<Rightarrow> (string \<times> json) list result" where
  "publish reply =
     (case reply of
        HttpError code \<Rightarrow> Inl (RuntimeError (''telemetry API rejected snapshot: HTTP '' @ int_str code))
      | UrlError \<Rightarrow> Inl (RuntimeError ''telemetry API is unavailable'')
      | Broken m \<Rightarrow> Inl (OSError m)
      | Reply (Inl e) \<Rightarrow> Inl e
      | Reply (Inr (JObject d)) \<Rightarrow> Inr d
      | Reply (Inr _) \<Rightarrow> Inl (RuntimeError ''telemetry API response must be a JSON object''))"

text \<open>What one round of the loop meets: the routers, the new id, the clock and the reply.\<close>

type_synonym collector_round =
  "(string \<Rightarrow> string list \<Rightarrow> string result) \<times> string \<times> datetime \<times> http_reply"

text \<open>
  The loop over the rounds given: its log, and how it ended (\<open>None\<close>: it is still running).
\<close>

fun collector_loop ::
  "(json \<Rightarrow> string) \<Rightarrow> (string \<Rightarrow> json result) \<Rightarrow> TelemetryTopologyBinding \<Rightarrow> bool \<Rightarrow> collector_round list \<Rightarrow>
   string list \<times> unit result option" where
  "collector_loop repr loads b once [] = ([], None)"
| "collector_loop repr loads b once ((run, new_id, now, reply) # rounds) =
     (case collect_snapshot repr loads run new_id now b of
        Inl e \<Rightarrow> ([], Some (Inl e))
      | Inr snapshot \<Rightarrow>
          (case publish reply of
             Inl (RuntimeError m) \<Rightarrow>
               if once then ([], Some (Inl (RuntimeError m)))
               else (case collector_loop repr loads b once rounds of
                 (lines, outcome) \<Rightarrow> ((''telemetry publish failed: '' @ m @ ''; retrying'') # lines, outcome))
           | Inl e \<Rightarrow> ([], Some (Inl e))
           | Inr _ \<Rightarrow>
               (let line = ''published telemetry snapshot '' @ snapshot_id snapshot @ '' for '' @
                  nat_str (length (snapshot_routers snapshot)) @ '' routers'' in
                if once then ([line], Some (Inr ()))
                else (case collector_loop repr loads b once rounds of (lines, outcome) \<Rightarrow> (line # lines, outcome)))))"

definition run_collector ::
  "(json \<Rightarrow> string) \<Rightarrow> (string \<Rightarrow> json result) \<Rightarrow> TelemetryTopologyBinding \<Rightarrow> bool \<Rightarrow> rat \<Rightarrow> collector_round list \<Rightarrow>
   string list \<times> unit result option" where
  "run_collector repr loads b once interval_seconds rounds =
     (if interval_seconds \<le> 0 then ([], Some (Inl (ValueError ''telemetry interval must be greater than zero'')))
      else collector_loop repr loads b once rounds)"

section \<open>Ingestion\<close>

text \<open>The clock allows a minute of skew to be added.\<close>

definition clock_ok :: "datetime \<Rightarrow> bool" where
  "clock_ok now = (aware now \<and> (\<exists>u limit. to_utc now = Inr u \<and> shift_utc 60 u = Inr limit))"

lemma ingest_errors:
  assumes "binding_ok b" "snapshot_ok x" "clock_ok now" "validate_telemetry_ingest x b now = Inl e"
  shows "\<exists>m. e = ValueError m"
proof -
  have key: "\<exists>t. map_of (dict_of_list btt_node (binding_targets b)) (router_name r) = Some t"
    if "r \<in> set (snapshot_routers x)" for r
  proof -
    have "router_name r \<in> set (map btt_node (binding_targets b))"
      using that assms(1,2) unfolding binding_ok_def snapshot_ok_def by (metis image_eqI list.set_map)
    moreover have "distinct (map btt_node (binding_targets b))" using assms(1) unfolding binding_ok_def by blast
    ultimately show ?thesis using map_of_key_pairs by (fastforce simp: dict_of_list_distinct)
  qed
  have router: "\<exists>m. err = ValueError m"
    if r: "r \<in> set (snapshot_routers x)" and err: "validate_bound_router b r = Inl err" for r err
  proof -
    obtain t where "map_of (dict_of_list btt_node (binding_targets b)) (router_name r) = Some t" using key [OF r] by blast
    then show ?thesis using err by (auto simp: validate_bound_router_def Let_def rbind_eq_Inl split: if_splits)
  qed
  obtain u limit where clock: "to_utc now = Inr u" "shift_utc 60 u = Inr limit" "aware now"
    using assms(3) by (auto simp: clock_ok_def)
  from assms(4) consider "\<exists>m. e = ValueError m" | "validate_telemetry_snapshot x b = Inl e"
    by (auto simp: validate_telemetry_ingest_def clock rbind_eq_Inl)
  then show ?thesis
  proof cases
    case 2
    then show ?thesis
      using router each_eq_Inl [of "validate_bound_router b" "snapshot_routers x" e]
      by (auto simp: validate_telemetry_snapshot_def rbind_eq_Inl)
  qed
qed

lemma spec_save_errors: "spec_save capacity x r = Inl e \<Longrightarrow> e = ValueError conflict_message"
  by (auto simp: spec_save_def split: option.splits if_splits)

text \<open>The newest snapshot with a fingerprint.\<close>

lemma spec_newest_Some:
  assumes "descending snapshot_key r" "spec_newest fp r = Some y" "x \<in> set r" "with_fingerprint fp x"
  shows "snapshot_key x \<le> snapshot_key y"
proof -
  obtain rest where f: "filter (with_fingerprint fp) r = y # rest"
    using assms(2) by (auto simp: spec_newest_def spec_recent_def split: list.splits)
  have "descending snapshot_key (y # rest)" using sorted_wrt_filter [OF assms(1)] f by metis
  moreover have "x \<in> set (y # rest)" using assms(3,4) unfolding f [symmetric] by simp
  ultimately show ?thesis by (auto intro: less_imp_le)
qed

lemma spec_newest_member: "spec_newest fp r = Some y \<Longrightarrow> y \<in> set r \<and> with_fingerprint fp y"
  using filter_is_subset [of "with_fingerprint fp" r]
  by (auto simp: spec_newest_def spec_recent_def filter_eq_Cons_iff split: list.splits)

lemma spec_newest_exists: "x \<in> set r \<Longrightarrow> with_fingerprint fp x \<Longrightarrow> \<exists>y. spec_newest fp r = Some y"
  by (auto simp: spec_newest_def spec_recent_def filter_empty_conv split: list.splits)

text \<open>A body whose time, if it has an offset, is a time in UTC too.\<close>

definition body_time_ok :: "TelemetrySnapshot \<Rightarrow> bool" where
  "body_time_ok body =
     (civil_datetime (snapshot_observed_at body) \<and>
      (aware (snapshot_observed_at body) \<longrightarrow> (\<exists>u. to_utc (snapshot_observed_at body) = Inr u)))"

lemma each_value_error:
  "each f xs = Inl e \<Longrightarrow> (\<And>x e. f x = Inl e \<Longrightarrow> \<exists>m. e = ValueError m) \<Longrightarrow> \<exists>m. e = ValueError m"
  by (blast dest: each_eq_Inl)

lemma nested_value_error:
  "each (\<lambda>x. rbind (f x) (\<lambda>_. Inr ())) xs = Inl e \<Longrightarrow> (\<And>x e. f x = Inl e \<Longrightarrow> \<exists>m. e = ValueError m) \<Longrightarrow>
   \<exists>m. e = ValueError m"
  by (erule each_value_error) (auto simp: rbind_eq_Inl)

lemma part_errors:
  "validate_interface i = Inl e \<Longrightarrow> \<exists>m. e = ValueError m"
  "validate_ospf_neighbor n = Inl e \<Longrightarrow> \<exists>m. e = ValueError m"
  "validate_bfd_peer p = Inl e \<Longrightarrow> \<exists>m. e = ValueError m"
  "validate_route t = Inl e \<Longrightarrow> \<exists>m. e = ValueError m"
  "validate_observation r = Inl e \<Longrightarrow> \<exists>m. e = ValueError m"
  by (auto simp: validate_interface_def validate_ospf_neighbor_def validate_bfd_peer_def validate_route_def
    validate_observation_def rbind_eq_Inl split: if_splits)

lemma router_errors: "validate_router r = Inl e \<Longrightarrow> \<exists>m. e = ValueError m"
  unfolding validate_router_def Let_def rbind_eq_Inl
  by (elim disjE exE conjE) (auto dest: nested_value_error [OF _ part_errors(1)] nested_value_error [OF _ part_errors(2)]
    nested_value_error [OF _ part_errors(3)] nested_value_error [OF _ part_errors(4)] part_errors(5))

lemma parsed_snapshot_cases:
  assumes "body_time_ok body"
  shows "parsed_snapshot body = Inl (422, ''validation error'') \<or>
    (\<exists>x. parsed_snapshot body = Inr x \<and> validate_snapshot body = Inr x \<and> snapshot_ok x)"
proof (cases "validate_snapshot body")
  case (Inl e)
  then have "\<exists>m. e = ValueError m"
    using assms unfolding validate_snapshot_def rbind_eq_Inl body_time_ok_def
    by (elim disjE exE conjE) (auto dest: nested_value_error [OF _ router_errors])
  then show ?thesis using Inl by (auto simp: parsed_snapshot_def)
next
  case (Inr x)
  then show ?thesis using validate_snapshot_Inr(1) [OF _ Inr] assms by (simp add: parsed_snapshot_def body_time_ok_def)
qed

lemma to_utc_aware_error: "aware d \<Longrightarrow> to_utc d = Inl e \<Longrightarrow> \<exists>m. e = OverflowError m"
  by (auto simp: to_utc_def aware_def shift_utc_def Let_def split: option.splits if_splits prod.splits)

text \<open>The other bodies are those whose time has no counterpart in UTC: an internal error.\<close>

lemma parsed_snapshot_overflow:
  assumes "civil_datetime (snapshot_observed_at body)" "\<not> body_time_ok body"
  shows "parsed_snapshot body = Inl (500, ''Internal Server Error'')"
proof -
  have time: "aware (snapshot_observed_at body)" "\<nexists>u. to_utc (snapshot_observed_at body) = Inr u"
    using assms by (auto simp: body_time_ok_def)
  obtain e where e: "to_utc (snapshot_observed_at body) = Inl e"
    using time(2) by (cases "to_utc (snapshot_observed_at body)") auto
  then obtain m where "e = OverflowError m" using time(1) to_utc_aware_error by blast
  with e show ?thesis using time(1) by (simp add: parsed_snapshot_def validate_snapshot_def)
qed

text \<open>A sequence of requests: each with the server's clock and the body posted.\<close>

fun ingest_requests ::
  "(TelemetrySnapshot \<Rightarrow> 's \<Rightarrow> (bool \<times> 's) result) \<Rightarrow>
   (string option \<Rightarrow> 's \<Rightarrow> TelemetrySnapshot option result) \<Rightarrow>
   (string option \<Rightarrow> 's \<Rightarrow> TelemetrySnapshot list result) \<Rightarrow> (string \<Rightarrow> string) \<Rightarrow>
   TelemetryTopologyBinding \<Rightarrow> (datetime \<times> TelemetrySnapshot) list \<Rightarrow> 's \<Rightarrow>
   (int \<times> TelemetrySnapshot) http list \<times> 's" where
  "ingest_requests save latest recent repr b [] s = ([], s)"
| "ingest_requests save latest recent repr b ((now, body) # requests) s =
     (case ingest_telemetry_snapshot save latest recent repr b now body s of
        (x, s1) \<Rightarrow> (case ingest_requests save latest recent repr b requests s1 of (xs, s2) \<Rightarrow> (x # xs, s2)))"

definition accepted_one :: "(int \<times> TelemetrySnapshot) http \<Rightarrow> TelemetrySnapshot option" where
  "accepted_one x = (case x of Inl _ \<Rightarrow> None | Inr (code, y) \<Rightarrow> if code = 201 then Some y else None)"

definition accepted :: "(int \<times> TelemetrySnapshot) http list \<Rightarrow> TelemetrySnapshot list" where
  "accepted xs = List.map_filter accepted_one xs"

text \<open>The code an ingest request is answered with: 500 when its time overflows, and only then.\<close>

definition answer_code :: "(int \<times> TelemetrySnapshot) http \<Rightarrow> int" where
  "answer_code x = (case x of Inl (code, _) \<Rightarrow> code | Inr (code, _) \<Rightarrow> code)"

definition expected_answer :: "datetime \<times> TelemetrySnapshot \<Rightarrow> (int \<times> TelemetrySnapshot) http \<Rightarrow> bool" where
  "expected_answer request x =
     (if body_time_ok (snd request) then answer_code x \<in> {200, 201, 409, 422} else answer_code x = 500)"

abbreviation observed_key :: "TelemetrySnapshot \<Rightarrow> nat list" where
  "observed_key x \<equiv> dt_key (snapshot_observed_at x)"

lemma accepted_Cons: "accepted (x # xs) = (case accepted_one x of None \<Rightarrow> accepted xs | Some y \<Rightarrow> y # accepted xs)"
  by (simp add: accepted_def List.map_filter_simps split: option.splits)

lemma expected_answer_iff:
  "civil_datetime (snapshot_observed_at (snd request)) \<Longrightarrow>
   expected_answer request x \<longleftrightarrow>
     (if aware (snapshot_observed_at (snd request)) \<and> (\<exists>e. to_utc (snapshot_observed_at (snd request)) = Inl e)
      then answer_code x = 500 else answer_code x \<in> {200, 201, 409, 422})"
  by (cases "to_utc (snapshot_observed_at (snd request))") (auto simp: expected_answer_def body_time_ok_def)

context telemetry_repository
begin

lemma latest_after_save:
  assumes "ok s" "snapshot_ok x" "save x s = Inr (True, s')" "with_fingerprint fp x"
    and "\<forall>l. spec_newest fp (retained s) = Some l \<longrightarrow> snapshot_key l < snapshot_key x"
  shows "latest fp s' = Inr (Some x)"
proof -
  note new = created_retained [OF assms(1-3)] and ok' = save_refines [OF assms(1-3)]
  have desc: "descending snapshot_key (retained s)" "descending snapshot_key (retained s')"
    "distinct (map snapshot_id (retained s'))"
    using retained_ok [OF assms(1)] retained_ok [of s'] ok' by (simp_all add: retained_ok_def)
  obtain y where y: "spec_newest fp (retained s') = Some y" using spec_newest_exists [OF new(1) assms(4)] by blast
  then have mem: "y \<in> set (retained s')" "with_fingerprint fp y" using spec_newest_member by blast+
  have "y = x"
  proof (rule ccontr)
    assume "y \<noteq> x"
    then have old: "y \<in> set (retained s)" using mem(1) new(2) by auto
    then obtain l where "spec_newest fp (retained s) = Some l" using spec_newest_exists mem(2) by blast
    then have "snapshot_key y < snapshot_key x"
      using spec_newest_Some [OF desc(1) _ old mem(2)] assms(5) by (metis order.strict_trans1)
    moreover have "snapshot_key x \<le> snapshot_key y" using spec_newest_Some [OF desc(2) y new(1) assms(4)] .
    ultimately show False by simp
  qed
  then show ?thesis using latest_spec ok' y by simp
qed

lemma ingest_step:
  assumes "ok s" "binding_ok b" "clock_ok now" "body_time_ok body"
    and "ingest_telemetry_snapshot save latest recent repr b now body s = (x, s')"
  shows "ok s' \<and> (case x of
      Inr (code, y) \<Rightarrow> snapshot_ok y \<and> validate_telemetry_snapshot y b = Inr () \<and> y \<in> set (retained s') \<and>
        (if code = 201 then latest (Some (binding_fp b)) s' = Inr (Some y) \<and>
           (\<forall>l. latest (Some (binding_fp b)) s = Inr (Some l) \<longrightarrow>
             dt_key (snapshot_observed_at l) < dt_key (snapshot_observed_at y))
         else code = 200 \<and> retained s' = retained s)
    | Inl (code, _) \<Rightarrow> code \<in> {409, 422} \<and> s' = s \<or> code = 409 \<and> retained s' = retained s)"
proof (cases "parsed_snapshot body")
  case (Inl h)
  then have "h = (422, ''validation error'')" using parsed_snapshot_cases [OF assms(4)] by auto
  then show ?thesis using assms(1,5) Inl by (auto simp: ingest_telemetry_snapshot_def)
next
  case (Inr y)
  let ?fp = "Some (binding_fp b)"
  have y: "snapshot_ok y" using parsed_snapshot_cases [OF assms(4)] Inr by auto
  have l: "latest ?fp s = Inr (spec_newest ?fp (retained s))" using latest_spec [OF assms(1)] .
  show ?thesis
  proof (cases "validate_telemetry_ingest y b now")
    case (Inl e)
    then obtain m where "e = ValueError m" using ingest_errors [OF assms(2) y assms(3)] by blast
    then show ?thesis using assms(1,5) Inr Inl by (auto simp: ingest_telemetry_snapshot_def caught_def)
  next
    case valid: (Inr u)
    then have bound: "validate_telemetry_snapshot y b = Inr ()"
      by (auto simp: validate_telemetry_ingest_def rbind_eq_Inr)
    then have fp: "with_fingerprint ?fp y"
      by (auto simp: validate_telemetry_snapshot_def rbind_eq_Inr with_fingerprint_def)
    show ?thesis
    proof (cases "stale (spec_newest ?fp (retained s)) y")
      case True
      then show ?thesis using assms(1,5) Inr valid l by (auto simp: ingest_telemetry_snapshot_def)
    next
      case fresh: False
      show ?thesis
      proof (cases "save y s")
        case (Inl e)
        then have "e = ValueError conflict_message" using save_error [OF assms(1) y] spec_save_errors by blast
        then show ?thesis using assms(1,5) Inr valid l fresh Inl
          by (auto simp: ingest_telemetry_snapshot_def caught_def)
      next
        case saved: (Inr p)
        then obtain created s1 where p: "save y s = Inr (created, s1)" by (cases p) simp
        note ref = save_refines [OF assms(1) y p]
        show ?thesis
        proof (cases created)
          case True
          with p have p: "save y s = Inr (True, s1)" by simp
          have newer: "dt_key (snapshot_observed_at l) < dt_key (snapshot_observed_at y)"
            if "spec_newest ?fp (retained s) = Some l" for l
          proof -
            have "l \<in> set (retained s)" using spec_newest_member [OF that] by blast
            then have "snapshot_id l \<noteq> snapshot_id y" using created_retained(3) [OF assms(1) y p] by (metis imageI)
            then show ?thesis using fresh that by (simp add: stale_def not_le)
          qed
          then have "latest ?fp s1 = Inr (Some y)"
            by (intro latest_after_save [OF assms(1) y p fp]) (auto simp: snapshot_key_def less_prod_def)
          then show ?thesis
            using assms(5) Inr valid l fresh p ref y bound newer created_retained(1) [OF assms(1) y p]
            by (auto simp: ingest_telemetry_snapshot_def)
        next
          case False
          with p ref have p: "save y s = Inr (False, s1)" and sp: "spec_save (capacity_of s) y (retained s) = Inr (False, retained s1)"
            by simp_all
          have same: "retained s1 = retained s" using sp by (auto simp: spec_save_def split: option.splits if_splits)
          have recent: "recent ?fp s1 = Inr (spec_recent ?fp (retained s))" using recent_spec ref same by simp
          have "y \<in> set (retained s1)" if "c \<in> set (spec_recent ?fp (retained s))" "snapshot_id c = snapshot_id y" for c
          proof -
            have "c \<in> set (retained s)" using that(1) by (simp add: spec_recent_def)
            then have "List.find (\<lambda>x. snapshot_id x = snapshot_id y) (retained s) \<noteq> None"
              using that(2) by (auto simp: find_None_iff)
            then obtain z where z: "List.find (\<lambda>x. snapshot_id x = snapshot_id y) (retained s) = Some z" by blast
            then have "z = y" using sp by (auto simp: spec_save_def split: if_splits)
            then show ?thesis using z same by (auto simp: find_Some_iff)
          qed
          then show ?thesis
            using assms(5) Inr valid l fresh p ref y bound same recent
            by (auto simp: ingest_telemetry_snapshot_def list_ex_iff split: if_splits)
        qed
      qed
    qed
  qed
qed

lemma ingest_overflow:
  assumes "civil_datetime (snapshot_observed_at body)" "\<not> body_time_ok body"
  shows "ingest_telemetry_snapshot save latest recent repr b now body s = (Inl (500, ''Internal Server Error''), s)"
  using parsed_snapshot_overflow [OF assms] by (simp add: ingest_telemetry_snapshot_def)

lemma latest_unchanged: "ok s \<Longrightarrow> ok s' \<Longrightarrow> retained s' = retained s \<Longrightarrow> latest fp s' = latest fp s"
  by (simp add: latest_spec)

lemma ingest_sequence:
  assumes "binding_ok b"
  shows "ok s \<Longrightarrow> list_all (\<lambda>(now, body). clock_ok now \<and> civil_datetime (snapshot_observed_at body)) requests \<Longrightarrow>
    ingest_requests save latest recent repr b requests s = (xs, s') \<Longrightarrow>
    ok s' \<and> list_all2 expected_answer requests xs \<and>
    sorted_wrt (\<lambda>x y. observed_key x < observed_key y) (accepted xs) \<and>
    (\<forall>l. latest (Some (binding_fp b)) s = Inr (Some l) \<longrightarrow> (\<forall>y \<in> set (accepted xs). observed_key l < observed_key y)) \<and>
    latest (Some (binding_fp b)) s' = (if accepted xs = [] then latest (Some (binding_fp b)) s else Inr (Some (last (accepted xs))))"
proof (induction requests arbitrary: s xs)
  case Nil
  then show ?case by (auto simp: accepted_def List.map_filter_simps)
next
  case (Cons q requests)
  obtain now body where q: "q = (now, body)" by (cases q)
  let ?fp = "Some (binding_fp b)"
  obtain x s1 where x: "ingest_telemetry_snapshot save latest recent repr b now body s = (x, s1)" by fastforce
  obtain ys where ys: "ingest_requests save latest recent repr b requests s1 = (ys, s')" "xs = x # ys"
    using Cons.prems(3) x by (auto simp: q split: prod.splits)
  note step = ingest_step [OF Cons.prems(1) assms _ _ x]
  have c: "clock_ok now" "civil_datetime (snapshot_observed_at body)" using Cons.prems(2) by (simp_all add: q)
  have one: "ok s1 \<and> expected_answer (now, body) x \<and>
      (case accepted_one x of
         None \<Rightarrow> retained s1 = retained s
       | Some y \<Rightarrow> latest ?fp s1 = Inr (Some y) \<and> (\<forall>l. latest ?fp s = Inr (Some l) \<longrightarrow> observed_key l < observed_key y))"
  proof (cases "body_time_ok body")
    case True
    then show ?thesis
      using step [OF c(1) True] by (auto simp: accepted_one_def expected_answer_def answer_code_def split: sum.splits if_splits)
  next
    case False
    then show ?thesis
      using ingest_overflow [OF c(2) False] x Cons.prems(1) by (auto simp: accepted_one_def expected_answer_def answer_code_def)
  qed
  have rest: "list_all (\<lambda>(now, body). clock_ok now \<and> civil_datetime (snapshot_observed_at body)) requests"
    using Cons.prems(2) by simp
  note IH = Cons.IH [OF _ rest ys(1)]
  show ?case
  proof (cases "accepted_one x")
    case None
    then have "latest ?fp s1 = latest ?fp s" using one latest_unchanged [OF Cons.prems(1)] by simp
    then show ?thesis using IH None one by (simp add: ys(2) q accepted_Cons)
  next
    case (Some y)
    then show ?thesis using IH one by (auto simp: ys(2) q accepted_Cons intro: less_trans)
  qed
qed

lemma newest_accepted:
  assumes "ok s" "binding_ok b" "snapshot_ok y" "validate_telemetry_ingest y b now = Inr ()"
    and "\<forall>x \<in> set (retained s). snapshot_id x \<noteq> snapshot_id y \<and> observed_key x < observed_key y"
  shows "\<exists>s'. ingest_telemetry_snapshot save latest recent repr b now y s = (Inr (201, y), s')"
proof -
  have parsed: "parsed_snapshot y = Inr y" using validate_snapshot_fixed [OF assms(3)] by (simp add: parsed_snapshot_def)
  have fresh: "\<not> stale (spec_newest fp (retained s)) y" for fp
    using assms(5) spec_newest_member [of fp "retained s"] by (fastforce simp: stale_def split: option.splits)
  have none: "List.find (\<lambda>x. snapshot_id x = snapshot_id y) (retained s) = None" using assms(5) by (auto simp: find_None_iff)
  have "\<not> (capacity_of s \<le> length (retained s) \<and> snapshot_key y \<le> snapshot_key (last (retained s)))"
  proof (cases "retained s")
    case Nil
    then show ?thesis using retained_ok [OF assms(1)] by simp
  next
    case (Cons z zs)
    then have "observed_key (last (retained s)) < observed_key y" using assms(5) by simp
    then show ?thesis by (auto simp: snapshot_key_def less_eq_prod_def)
  qed
  then have sp: "spec_save (capacity_of s) y (retained s) = Inr (True, take (capacity_of s) (sorted_desc snapshot_key (y # retained s)))"
    using none by (simp add: spec_save_def)
  obtain c s' where s': "save y s = Inr (c, s')"
    using save_error [OF assms(1,3)] sp by (cases "save y s") auto
  then have "c" using save_refines [OF assms(1,3) s'] sp by simp
  then show ?thesis using parsed fresh s' assms(4) latest_spec [OF assms(1)]
    by (simp add: ingest_telemetry_snapshot_def)
qed

end

section \<open>Properties\<close>

lemma lab_clock: "clock_ok lab_now"
proof -
  have "to_utc lab_now = Inr lab_now" by (simp add: to_utc_def lab_now_def)
  moreover have "\<exists>limit. shift_utc 60 lab_now = Inr limit"
    by (simp add: shift_utc_def shift_date_def lab_now_def Let_def seconds_of_day_def)
  ultimately show ?thesis by (auto simp: clock_ok_def aware_def lab_now_def)
qed

text \<open>A time half an hour into year 1, at an offset of an hour.\<close>

definition overflowing :: "TelemetrySnapshot \<Rightarrow> TelemetrySnapshot" where
  "overflowing y = y\<lparr>snapshot_observed_at := \<lparr>dt_year = 1, dt_month = 1, dt_day = 1, dt_hour = 0, dt_minute = 30,
     dt_second = 0, dt_microsecond = 0, dt_offset = Some 3600\<rparr>\<rparr>"

lemma overflowing_time:
  "civil_datetime (snapshot_observed_at (overflowing y))" "aware (snapshot_observed_at (overflowing y))"
  "\<exists>e. to_utc (snapshot_observed_at (overflowing y)) = Inl e"
proof -
  show "civil_datetime (snapshot_observed_at (overflowing y))" "aware (snapshot_observed_at (overflowing y))"
    by (simp_all add: overflowing_def civil_datetime_def valid_datetime_def aware_def days_in_month_def)
  show "\<exists>e. to_utc (snapshot_observed_at (overflowing y)) = Inl e"
    by (simp add: overflowing_def to_utc_def shift_utc_def shift_date_def seconds_of_day_def Let_def)
qed

text \<open>
  C8: Telemetry never goes back in time. For every sequence of posted snapshots - valid or
  not, in any order, duplicates and conflicting ids included - the accepted ones are strictly
  increasing in time and the latest snapshot is always the last accepted one. Every request is
  answered with 200, 201, 409 or 422, with one exception: a body whose \<open>observed_at\<close> has an
  offset and no counterpart in UTC (before year 1 or after year 9999) is answered with 500,
  always, and stores nothing. The times posted are values of \<open>datetime\<close>, and the server's
  clock is aware and a minute away from the end of the calendar.
\<close>

theorem ingest_monotone:
  assumes "codec_ok dump load" "tq_open capacity tq_empty = Inr q" "binding_ok b"
    and "list_all (\<lambda>(now, body). clock_ok now \<and> civil_datetime (snapshot_observed_at body)) requests"
    and "ingest_requests (tq_save dump load) (tq_latest load) (tq_recent load) repr b requests q = (xs, s)"
  shows "list_all2 (\<lambda>(now, body) x.
      if aware (snapshot_observed_at body) \<and> (\<exists>e. to_utc (snapshot_observed_at body) = Inl e)
      then answer_code x = 500 else answer_code x \<in> {200, 201, 409, 422}) requests xs \<and>
    sorted_wrt (\<lambda>x y. observed_key x < observed_key y) (accepted xs) \<and>
    tq_latest load (Some (binding_fp b)) s =
      Inr (if accepted xs = [] then None else Some (last (accepted xs)))"
proof -
  have q: "tq_ok dump load q" "tq_view load q = []" using tq_fresh [OF assms(1,2)] by blast+
  then have "tq_latest load (Some (binding_fp b)) q = Inr None"
    by (simp add: sqlite_snapshots.latest_spec spec_newest_def spec_recent_def)
  note facts = sqlite_snapshots.ingest_sequence [OF assms(3) q(1) assms(4,5), unfolded this]
  have "list_all2 expected_answer requests xs" using facts by blast
  then have "list_all2 (\<lambda>(now, body) x.
      if aware (snapshot_observed_at body) \<and> (\<exists>e. to_utc (snapshot_observed_at body) = Inl e)
      then answer_code x = 500 else answer_code x \<in> {200, 201, 409, 422}) requests xs"
  proof (rule list.rel_mono_strong)
    fix request x assume "request \<in> set requests" "expected_answer request x"
    then show "(\<lambda>(now, body) x. if aware (snapshot_observed_at body) \<and> (\<exists>e. to_utc (snapshot_observed_at body) = Inl e)
        then answer_code x = 500 else answer_code x \<in> {200, 201, 409, 422}) request x"
      using assms(4) expected_answer_iff [of request x] by (auto simp: list_all_iff split_beta)
  qed
  then show ?thesis using facts by simp
qed

theorem ingest_monotone_witness:
  "\<exists>b q y xs s. lab_binding = Inr b \<and> tq_open 100 tq_empty = Inr q \<and> snapshot_ok y \<and>
    ingest_requests (tq_save dump_snapshot load_snapshot) (tq_latest load_snapshot) (tq_recent load_snapshot)
      (\<lambda>m. m) b [(lab_now, overflowing y), (lab_now, y), (lab_now, y)] q = (xs, s) \<and>
    answer_code (hd xs) = 500 \<and> sorted_wrt (\<lambda>x y. observed_key x < observed_key y) (accepted xs) \<and>
    tq_latest load_snapshot (Some (binding_fp b)) s =
      Inr (if accepted xs = [] then None else Some (last (accepted xs)))"
proof -
  obtain b y where l: "lab_binding = Inr b" "binding_ok b" "snapshot_ok y" using lab_snapshot by blast
  obtain q where q: "tq_open 100 tq_empty = Inr q" using sqlite_opens [of 100] by auto
  have r: "list_all (\<lambda>(now, body). clock_ok now \<and> civil_datetime (snapshot_observed_at body))
      [(lab_now, overflowing y), (lab_now, y), (lab_now, y)]"
    using l(3) lab_clock overflowing_time by (simp add: snapshot_ok_def)
  obtain xs s where x: "ingest_requests (tq_save dump_snapshot load_snapshot) (tq_latest load_snapshot)
      (tq_recent load_snapshot) (\<lambda>m. m) b [(lab_now, overflowing y), (lab_now, y), (lab_now, y)] q = (xs, s)"
    by (rule prod.exhaust)
  note facts = ingest_monotone [OF snapshot_codec q l(2) r x]
  then have "answer_code (hd xs) = 500" using overflowing_time by (auto simp: list_all2_Cons1)
  with facts l q x show ?thesis by blast
qed

text \<open>
  What the collector posts is accepted. A snapshot collected from routers that answer
  anything at all, under a new id and later than everything stored, posted to a server with
  the same binding whose clock is at most a minute behind, is answered with 201.
\<close>

theorem collected_is_accepted:
  assumes "tq_ok dump load s" "binding_ok b" "telemetry_identifier new_id" "civil_datetime collected" "is_utc collected"
    and "to_utc now = Inr u" "shift_utc 60 u = Inr limit" "aware now" "dt_key collected \<le> dt_key limit"
    and "\<forall>x \<in> set (tq_view load s). snapshot_id x \<noteq> new_id \<and> observed_key x < dt_key collected"
  shows "\<exists>y s'. collect_snapshot repr' loads run new_id collected b = Inr y \<and>
    ingest_telemetry_snapshot (tq_save dump load) (tq_latest load) (tq_recent load) repr b now y s = (Inr (201, y), s')"
proof -
  from collect_snapshot_entries [OF assms(2-5), of repr' loads run] obtain y where
    y: "collect_snapshot repr' loads run new_id collected b = Inr y" "snapshot_ok y" "snapshot_id y = new_id"
      "snapshot_observed_at y = collected" "topology_fp y = binding_fp b"
      "list_all2 (\<lambda>t r. complete_entry (tc_service_prefix (binding_config b)) t r \<or> failed_entry t r)
        (binding_targets b) (snapshot_routers y)" by force
  then have "validate_telemetry_ingest y b now = Inr ()"
    using collected_bound [OF assms(2) y(6,5)] assms(6-9) by (simp add: validate_telemetry_ingest_def not_less)
  then have "\<exists>s'. ingest_telemetry_snapshot (tq_save dump load) (tq_latest load) (tq_recent load) repr b now y s =
      (Inr (201, y), s')"
    by (intro sqlite_snapshots.newest_accepted [OF assms(1,2) y(2)]) (use assms(10) y(3,4) in auto)
  with y(1) show ?thesis by blast
qed

theorem collected_is_accepted_witness:
  "\<exists>b q y s'. lab_binding = Inr b \<and> tq_open 100 tq_empty = Inr q \<and>
    collect_snapshot (\<lambda>_. []) lab_loads lab_run ''snapshot-1'' lab_now b = Inr y \<and>
    ingest_telemetry_snapshot (tq_save dump_snapshot load_snapshot) (tq_latest load_snapshot)
      (tq_recent load_snapshot) (\<lambda>m. m) b lab_now y q = (Inr (201, y), s')"
proof -
  obtain b where b: "lab_binding = Inr b" "binding_ok b" using lab_binding_ok by blast
  obtain q where q: "tq_open 100 tq_empty = Inr q" using sqlite_opens [of 100] by auto
  have fresh: "tq_ok dump_snapshot load_snapshot q" "tq_view load_snapshot q = []"
    using tq_fresh [OF snapshot_codec q] by blast+
  have i: "telemetry_identifier ''snapshot-1''" by code_simp
  have u: "to_utc lab_now = Inr lab_now" "aware lab_now" by (simp_all add: to_utc_def lab_now_def aware_def)
  have limit: "shift_utc 60 lab_now = Inr (lab_now\<lparr>dt_minute := 1\<rparr>)"
    by (simp add: shift_utc_def shift_date_def lab_now_def Let_def seconds_of_day_def)
  have le: "dt_key lab_now \<le> dt_key (lab_now\<lparr>dt_minute := 1\<rparr>)" by (simp add: dt_key_def lab_now_def)
  from collected_is_accepted [OF fresh(1) b(2) i lab_now_ok u(1) limit u(2) le] fresh(2) b(1) q show ?thesis by auto
qed

text \<open>The replies the loop goes on after: all but a broken connection and a body that is no JSON.\<close>

definition survives :: "http_reply \<Rightarrow> bool" where
  "survives reply =
     (case reply of
        HttpError _ \<Rightarrow> True
      | UrlError \<Rightarrow> True
      | Broken _ \<Rightarrow> False
      | Reply (Inr _) \<Rightarrow> True
      | Reply (Inl (RuntimeError _)) \<Rightarrow> True
      | Reply (Inl _) \<Rightarrow> False)"

definition round_reply :: "collector_round \<Rightarrow> http_reply" where
  "round_reply r = (case r of (run, new_id, now, reply) \<Rightarrow> reply)"

definition survived :: "collector_round \<Rightarrow> bool" where
  "survived r = survives (round_reply r)"

definition accepted_reply :: "http_reply \<Rightarrow> bool" where
  "accepted_reply reply = (\<exists>d. reply = Reply (Inr (JObject d)))"

definition round_ok :: "collector_round \<Rightarrow> bool" where
  "round_ok r = (case r of (run, new_id, now, reply) \<Rightarrow> telemetry_identifier new_id \<and> civil_datetime now \<and> is_utc now)"

text \<open>The line a survived round logs.\<close>

definition logged :: "TelemetryTopologyBinding \<Rightarrow> collector_round \<Rightarrow> string \<Rightarrow> bool" where
  "logged b r line =
     (case r of (run, new_id, now, reply) \<Rightarrow>
        if accepted_reply reply
        then line = ''published telemetry snapshot '' @ new_id @ '' for '' @ nat_str (length (binding_targets b)) @ '' routers''
        else \<exists>m. publish reply = Inl (RuntimeError m) \<and> line = ''telemetry publish failed: '' @ m @ ''; retrying'')"

lemma publish_cases:
  "if survives reply then accepted_reply reply \<and> (\<exists>d. publish reply = Inr d) \<or>
     \<not> accepted_reply reply \<and> (\<exists>m. publish reply = Inl (RuntimeError m))
   else \<exists>e. publish reply = Inl e \<and> (\<forall>m. e \<noteq> RuntimeError m)"
  by (auto simp: survives_def accepted_reply_def publish_def
    split: http_reply.splits sum.splits json.splits py_error.splits)

lemma collector_rounds:
  assumes "binding_ok b"
  shows "list_all round_ok rounds \<Longrightarrow> \<exists>lines outcome. collector_loop repr loads b False rounds = (lines, outcome) \<and>
    list_all2 (logged b) (takeWhile survived rounds) lines \<and>
    outcome = (case dropWhile survived rounds of [] \<Rightarrow> None
      | r # _ \<Rightarrow> map_option (\<lambda>e. Inl e) (case publish (round_reply r) of Inl e \<Rightarrow> Some e | Inr _ \<Rightarrow> None))"
proof (induction rounds)
  case (Cons r rounds)
  obtain run new_id now reply where r: "r = (run, new_id, now, reply)" by (cases r)
  have ok: "telemetry_identifier new_id" "civil_datetime now" "is_utc now"
    using Cons.prems by (simp_all add: r round_ok_def)
  from collect_snapshot_entries [OF assms ok, of repr loads run] obtain s where
    s: "collect_snapshot repr loads run new_id now b = Inr s" "snapshot_id s = new_id"
      "list_all2 (\<lambda>t r. complete_entry (tc_service_prefix (binding_config b)) t r \<or> failed_entry t r)
        (binding_targets b) (snapshot_routers s)" by force
  have n: "length (snapshot_routers s) = length (binding_targets b)" using list_all2_lengthD [OF s(3)] by simp
  obtain lines outcome where ih: "collector_loop repr loads b False rounds = (lines, outcome)"
    "list_all2 (logged b) (takeWhile survived rounds) lines"
    "outcome = (case dropWhile survived rounds of [] \<Rightarrow> None
      | r # _ \<Rightarrow> map_option (\<lambda>e. Inl e) (case publish (round_reply r) of Inl e \<Rightarrow> Some e | Inr _ \<Rightarrow> None))"
    using Cons.IH Cons.prems unfolding list.pred_inject(2) by blast
  have line: "logged b (run, new_id, now, reply) line \<longleftrightarrow>
      (if accepted_reply reply
       then line = ''published telemetry snapshot '' @ new_id @ '' for '' @ nat_str (length (binding_targets b)) @ '' routers''
       else \<exists>m. publish reply = Inl (RuntimeError m) \<and> line = ''telemetry publish failed: '' @ m @ ''; retrying'')" for line
    by (simp add: logged_def)
  note reply = publish_cases [of reply]
  show ?case
  proof (cases "survives reply")
    case True
    then consider (accepted) d where "accepted_reply reply" "publish reply = Inr d"
      | (refused) m where "\<not> accepted_reply reply" "publish reply = Inl (RuntimeError m)" using reply by auto
    then show ?thesis
      by cases (use True s(1,2) n ih in \<open>simp_all add: r survived_def [of "(_, _)"] round_reply_def [of "(_, _)"] line Let_def\<close>)
  next
    case False
    then obtain e where "publish reply = Inl e" "\<forall>m. e \<noteq> RuntimeError m" using reply by auto
    then show ?thesis using False s(1) by (cases e) (simp_all add: r survived_def [of "(_, _)"] round_reply_def [of "(_, _)"])
  qed
qed simp

text \<open>
  C16: Which failures the collector outlives. Run without \<open>--once\<close>, its loop goes on whatever
  the routers answer, through every HTTP error, while the server cannot be reached, and through
  every reply that is JSON of any kind: each such round logs one line, that the snapshot was
  published when the reply is an object and that it is retried otherwise. It ends exactly at
  the first round whose connection breaks once it is open, or whose body is not JSON, with that
  error; without such a round it is still running.
\<close>

theorem collector_survives:
  assumes "binding_ok b" "0 < interval"
    and "\<forall>(run, new_id, now, reply) \<in> set rounds. telemetry_identifier new_id \<and> civil_datetime now \<and> is_utc now"
  shows "\<exists>lines outcome. run_collector repr loads b False interval rounds = (lines, outcome) \<and>
    list_all2 (logged b) (takeWhile survived rounds) lines \<and>
    (if list_all survived rounds then outcome = None
     else \<exists>e. publish (round_reply (rounds ! length lines)) = Inl e \<and> outcome = Some (Inl e) \<and>
       \<not> survives (round_reply (rounds ! length lines)))"
proof -
  have ok: "list_all round_ok rounds" using assms(3) by (auto simp: list_all_iff round_ok_def)
  obtain lines outcome where l: "run_collector repr loads b False interval rounds = (lines, outcome)"
    "list_all2 (logged b) (takeWhile survived rounds) lines"
    "outcome = (case dropWhile survived rounds of [] \<Rightarrow> None
      | r # _ \<Rightarrow> map_option (\<lambda>e. Inl e) (case publish (round_reply r) of Inl e \<Rightarrow> Some e | Inr _ \<Rightarrow> None))"
    using collector_rounds [OF assms(1) ok, of repr loads] assms(2) by (auto simp: run_collector_def)
  show ?thesis
  proof (cases "list_all survived rounds")
    case True
    then have "dropWhile survived rounds = []" by (simp add: list_all_iff)
    note l(3) [unfolded this list.case]
    then show ?thesis using l(1,2) True by simp
  next
    case False
    then obtain r rs where d: "dropWhile survived rounds = r # rs"
      by (cases "dropWhile survived rounds") (auto simp: list_all_iff dropWhile_eq_Nil_conv)
    then have dead: "\<not> survives (round_reply r)" by (auto simp: dropWhile_eq_Cons_conv survived_def)
    have "rounds = takeWhile survived rounds @ r # rs" using d takeWhile_dropWhile_id [of _ rounds] by metis
    then have "rounds ! length lines = r" using list_all2_lengthD [OF l(2)] by (metis nth_append_length)
    then show ?thesis using l d dead False publish_cases [of "round_reply r"] by auto
  qed
qed

theorem collector_survives_witness:
  "\<exists>b lines. lab_binding = Inr b \<and>
    run_collector (\<lambda>_. []) lab_loads b False 1
      [(lab_run, ''s1'', lab_now, HttpError 409), (lab_run, ''s2'', lab_now, UrlError),
       (\<lambda>_ _. Inl (OSError []), ''s3'', lab_now, Reply (Inr (JObject []))), (lab_run, ''s4'', lab_now, Broken ''timed out'')] =
      (lines, Some (Inl (OSError ''timed out''))) \<and> length lines = 3"
proof -
  obtain b where b: "lab_binding = Inr b" "binding_ok b" using lab_binding_ok by blast
  let ?rounds = "[(lab_run, ''s1'', lab_now, HttpError 409), (lab_run, ''s2'', lab_now, UrlError),
       (\<lambda>_ _. Inl (OSError []), ''s3'', lab_now, Reply (Inr (JObject []))), (lab_run, ''s4'', lab_now, Broken ''timed out'')]"
  have "telemetry_identifier ''s1''" "telemetry_identifier ''s2''" "telemetry_identifier ''s3''" "telemetry_identifier ''s4''"
    by code_simp+
  then have r: "\<forall>(run, new_id, now, reply) \<in> set ?rounds. telemetry_identifier new_id \<and> civil_datetime now \<and> is_utc now"
    using lab_now_ok by simp
  have "(0 :: rat) < 1" by simp
  from collector_survives [OF b(2) this r, of "\<lambda>_. []" lab_loads] obtain lines outcome where
    l: "run_collector (\<lambda>_. []) lab_loads b False 1 ?rounds = (lines, outcome)"
      "list_all2 (logged b) (takeWhile survived ?rounds) lines"
      "\<exists>e. publish (round_reply (?rounds ! length lines)) = Inl e \<and> outcome = Some (Inl e)"
    by (auto simp: survived_def survives_def round_reply_def)
  have "length lines = 3" using list_all2_lengthD [OF l(2)] by (simp add: survived_def survives_def round_reply_def)
  then show ?thesis using b(1) l(1,3) by (auto simp: round_reply_def publish_def)
qed

end
