(* ===== verification/Incident_Api.thy ===== *)
theory Incident_Api
  imports Incident_Service Resilience Convergence_Api
begin

text \<open>
  The incident endpoints of \<open>api.py\<close> over the incident service: the request model's
  constraints, the responses, and the statuses that exceptions become. The clock readings and
  the random part of an id are arguments, as in the service.
\<close>

section \<open>Requests and responses\<close>

record EventRequest =
  er_event_type :: string
  er_link_id :: string
  er_observed_at :: "datetime option"

record IncidentResponse =
  ir_id :: string
  ir_failed_component :: string
  ir_evidence :: "string list"
  ir_affected_nodes :: "string list"
  ir_affected_prefixes :: "string list"
  ir_service_impact :: string
  ir_recommended_action :: "string \<times> string"
  ir_status :: string
  ir_created_at :: datetime

text \<open>\<open>^[a-z_]+$\<close> and \<open>^[a-z0-9-]+$\<close>, with at most 32 and 128 characters\<close>

definition event_type_char :: "char \<Rightarrow> bool" where
  "event_type_char c = (is_lower c \<or> c = CHR ''_'')"

definition event_body_ok :: "EventRequest \<Rightarrow> bool" where
  "event_body_ok q =
     (er_event_type q \<noteq> [] \<and> length (er_event_type q) \<le> 32 \<and> list_all event_type_char (er_event_type q) \<and>
      er_link_id q \<noteq> [] \<and> length (er_link_id q) \<le> 128 \<and> list_all ident_char (er_link_id q) \<and>
      aware_or_absent (er_observed_at q))"

definition incident_response :: "Incident \<Rightarrow> IncidentResponse" where
  "incident_response inc =
     \<lparr>ir_id = incident_id inc, ir_failed_component = failed_component (incident_analysis inc),
      ir_evidence = ia_evidence (incident_analysis inc),
      ir_affected_nodes = ia_affected_nodes (incident_analysis inc),
      ir_affected_prefixes = ia_affected_prefixes (incident_analysis inc),
      ir_service_impact = impact_value (ia_service_impact (incident_analysis inc)),
      ir_recommended_action = (plan_action (recovery_plan inc), plan_target (recovery_plan inc)),
      ir_status = status_value (plan_status (recovery_plan inc)), ir_created_at = incident_created_at inc\<rparr>"

section \<open>Handlers\<close>

definition requested_event :: "datetime \<Rightarrow> EventRequest \<Rightarrow> NetworkEvent" where
  "requested_event event_now q =
     \<lparr>event_link_id = er_link_id q, event_type = er_event_type q,
      event_observed_at = default_time (er_observed_at q) event_now\<rparr>"

definition ingest_event ::
  "(string \<Rightarrow> string) \<Rightarrow> (string \<Rightarrow> string) \<Rightarrow> rat \<Rightarrow> string \<Rightarrow> datetime \<Rightarrow> datetime \<Rightarrow> EventRequest \<Rightarrow> IncidentService \<Rightarrow>
   (int \<times> IncidentResponse) http \<times> IncidentService" where
  "ingest_event sha repr received_at uuid_hex event_now now q s =
     (if \<not> event_body_ok q then (Inl (422, ''validation error''), s)
      else
        (case ingest sha received_at uuid_hex now (requested_event event_now q) s of
           Inl e \<Rightarrow> (caught repr None (Some 400) (Inl e), s)
         | Inr (inc, s') \<Rightarrow> (Inr (201, incident_response inc), s')))"

definition get_incident_endpoint ::
  "(string \<Rightarrow> string) \<Rightarrow> string \<Rightarrow> IncidentService \<Rightarrow> (int \<times> IncidentResponse) http \<times> IncidentService" where
  "get_incident_endpoint repr i s =
     (hbind (caught repr (Some 404) None (get_incident i s)) (\<lambda>inc. Inr (200, incident_response inc)), s)"

definition approve_incident ::
  "(string \<Rightarrow> string) \<Rightarrow> string \<Rightarrow> IncidentService \<Rightarrow> (int \<times> IncidentResponse) http \<times> IncidentService" where
  "approve_incident repr i s =
     (case approve i s of
        Inl e \<Rightarrow> (caught repr (Some 404) (Some 409) (Inl e), s)
      | Inr (inc, s') \<Rightarrow> (Inr (200, incident_response inc), s'))"

datatype IncidentCall =
    PostEvent rat string datetime datetime EventRequest
  | GetIncident string
  | PostApproval string

fun incident_call ::
  "(string \<Rightarrow> string) \<Rightarrow> (string \<Rightarrow> string) \<Rightarrow> IncidentCall \<Rightarrow> IncidentService \<Rightarrow>
   (int \<times> IncidentResponse) http \<times> IncidentService" where
  "incident_call sha repr (PostEvent received_at uuid_hex event_now now q) s =
     ingest_event sha repr received_at uuid_hex event_now now q s"
| "incident_call sha repr (GetIncident i) s = get_incident_endpoint repr i s"
| "incident_call sha repr (PostApproval i) s = approve_incident repr i s"

definition status_code :: "(int \<times> 'a) http \<Rightarrow> int" where
  "status_code reply = (case reply of Inl (code, _) \<Rightarrow> code | Inr (code, _) \<Rightarrow> code)"

lemma status_code_simps [simp]: "status_code (Inl (c, d)) = c" "status_code (Inr (c, x)) = c"
  by (simp_all add: status_code_def)

section \<open>The analysis on a served topology\<close>

lemma analysis_total:
  assumes wf: "wf_topology t" and served: "served t"
    and ev: "event_type ev = ''link_down''" "event_link_id ev \<in> topo_ids t"
  shows "\<exists>an. analyze_link_down t ev = Inr an"
proof -
  have "\<forall>f \<in> set [link_fault (event_link_id ev)]. fault_known t f"
    using ev(2) by (simp add: fault_known_def link_fault_def)
  then obtain r where r: "audit_fault_scenarios t [link_fault (event_link_id ev)] = Inr r"
    using audit_accepts [OF wf, of "[link_fault (event_link_id ev)]"] served by auto
  then obtain s where "result_of t (link_fault (event_link_id ev)) s"
    using audit_results [OF r] by (auto simp: list_all2_Cons1)
  from analysis_of_result [OF wf this ev(1)] served show ?thesis by (auto simp: served_def)
qed

lemma analysis_domain:
  assumes "wf_topology t" "served t"
  shows "(\<exists>an. analyze_link_down t ev = Inr an) \<longleftrightarrow> event_type ev = ''link_down'' \<and> event_link_id ev \<in> topo_ids t"
    and "analyze_link_down t ev = Inl e \<Longrightarrow> \<exists>m. e = ValueError m"
proof -
  show i: "(\<exists>an. analyze_link_down t ev = Inr an) \<longleftrightarrow> event_type ev = ''link_down'' \<and> event_link_id ev \<in> topo_ids t"
  proof
    assume "\<exists>an. analyze_link_down t ev = Inr an"
    then obtain l where "event_type ev = ''link_down''" "topo_link t (event_link_id ev) = Inr l"
      by (auto simp: analyze_link_down_def rbind_eq_Inr)
    then show "event_type ev = ''link_down'' \<and> event_link_id ev \<in> topo_ids t" using topo_link_known by blast
  qed (use analysis_total [OF assms] in blast)
  assume e: "analyze_link_down t ev = Inl e"
  then have "\<not> (event_type ev = ''link_down'' \<and> event_link_id ev \<in> topo_ids t)" using i by auto
  moreover have "topo_link t l = Inl (ValueError (''unknown link: '' @ l))" if "l \<notin> topo_ids t" for l
    using that map_of_None_keys [of "links_by_id t" l] by (simp add: topo_link_def)
  ultimately show "\<exists>m. e = ValueError m" using e by (auto simp: analyze_link_down_def rbind_eq_Inl)
qed

section \<open>Statuses\<close>

text \<open>The status a call gets, from the state before it.\<close>

fun incident_status :: "Topology \<Rightarrow> IncidentCall \<Rightarrow> IncidentService \<Rightarrow> int" where
  "incident_status t (PostEvent received_at uuid_hex event_now now q) s =
     (if \<not> event_body_ok q then 422
      else if er_event_type q \<noteq> ''link_down'' \<or> er_link_id q \<notin> topo_ids t then 400
      else 201)"
| "incident_status t (GetIncident i) s = (if map_of (incidents s) i = None then 404 else 200)"
| "incident_status t (PostApproval i) s =
     (case map_of (incidents s) i of
        None \<Rightarrow> 404
      | Some inc \<Rightarrow> if plan_status (recovery_plan inc) = AWAITING_APPROVAL then 200 else 409)"

text \<open>
  What is assumed of a posted event: the random id is new, and the hash tells the event's text
  from those of the stored incidents.
\<close>

fun call_fresh :: "(string \<Rightarrow> string) \<Rightarrow> IncidentCall \<Rightarrow> IncidentService \<Rightarrow> bool" where
  "call_fresh sha (PostEvent received_at uuid_hex event_now now q) s =
     (''inc-'' @ uuid_hex \<notin> set (dict_keys (incidents s)) \<and>
      list_all (\<lambda>(i, inc). incident_fingerprint inc = event_fingerprint sha (requested_event event_now q) \<longrightarrow>
        event_type (incident_event inc) @ '':'' @ event_link_id (incident_event inc) =
        er_event_type q @ '':'' @ er_link_id q) (incidents s))"
| "call_fresh sha _ s = True"

lemma event_text_parts:
  assumes "a @ '':'' @ b = c @ '':'' @ d" "list_all event_type_char a" "list_all event_type_char c"
  shows "a = c \<and> b = d"
proof -
  have colon: "CHR '':'' \<notin> set x" if "list_all event_type_char x" for x
    using that by (auto simp: list_all_iff event_type_char_def is_lower_def less_eq_char_def)
  have "takeWhile (\<lambda>c. c \<noteq> CHR '':'') (x @ '':'' @ y) = x" if "list_all event_type_char x" for x y
    using colon [OF that] by (induction x) auto
  then have "a = c" using assms by metis
  then show ?thesis using assms(1) by simp
qed

lemma stored_duplicate:
  assumes ok: "service_ok sha s" and served: "served (svc_topology s)" and body: "event_body_ok q"
    and fresh: "call_fresh sha (PostEvent r u event_now now q) s"
    and dup: "duplicate_of sha received_at (requested_event event_now q) s inc"
  shows "er_event_type q = ''link_down'' \<and> er_link_id q \<in> topo_ids (svc_topology s) \<and>
    (\<exists>i. map_of (incidents s) i = Some inc \<and> incident_id inc = i)"
proof -
  obtain i where i: "newest (incidents s) (event_fingerprint sha (requested_event event_now q)) = Some i"
    "map_of (incidents s) i = Some inc" using dup by (auto simp: duplicate_of_def)
  have mem: "(i, inc) \<in> set (incidents s)" using map_of_SomeD [OF i(2)] .
  then have inc: "incident_ok sha (svc_topology s) i inc" using ok by (auto simp: service_ok_def)
  obtain inc' where "(i, inc') \<in> set (incidents s)"
    "incident_fingerprint inc' = event_fingerprint sha (requested_event event_now q)"
    using newest_Some [OF i(1)] by blast
  then have fp: "incident_fingerprint inc = event_fingerprint sha (requested_event event_now q)"
    using mem ok eq_key_imp_eq_value [of "incidents s" i inc inc'] by (simp add: service_ok_def)
  then have same: "event_type (incident_event inc) @ '':'' @ event_link_id (incident_event inc) =
      er_event_type q @ '':'' @ er_link_id q"
    using fresh mem by (fastforce simp: list_all_iff)
  have "wf_topology (svc_topology s)" using ok by (simp add: service_ok_def)
  then have known: "event_type (incident_event inc) = ''link_down''"
    "event_link_id (incident_event inc) \<in> topo_ids (svc_topology s)"
    using inc analysis_domain(1) [OF _ served] unfolding incident_ok_def by blast+
  have "list_all event_type_char ''link_down''" by code_simp
  with event_text_parts [OF same] known body show ?thesis
    using i(2) inc by (auto simp: event_body_ok_def incident_ok_def)
qed

lemma ingest_event_ok:
  assumes ok: "service_ok sha s" and served: "served (svc_topology s)" and body: "event_body_ok q"
    and fresh: "call_fresh sha (PostEvent r uuid_hex event_now now q) s"
    and known: "er_event_type q = ''link_down''" "er_link_id q \<in> topo_ids (svc_topology s)"
  shows "\<exists>inc s'. ingest sha r uuid_hex now (requested_event event_now q) s = Inr (inc, s') \<and>
    map_of (incidents s') (incident_id inc) = Some inc"
proof (cases "\<exists>inc. duplicate_of sha r (requested_event event_now q) s inc")
  case True
  then obtain inc where "duplicate_of sha r (requested_event event_now q) s inc"
    "ingest sha r uuid_hex now (requested_event event_now q) s = Inr (inc, s\<lparr>last_seen_by_fingerprint :=
        dict_set (event_fingerprint sha (requested_event event_now q)) r (last_seen_by_fingerprint s)\<rparr>)"
    using ingest_cases [OF ok, of r "requested_event event_now q" uuid_hex now] by blast
  then show ?thesis using stored_duplicate [OF ok served body fresh] by auto
next
  case False
  let ?ev = "requested_event event_now q" and ?id = "''inc-'' @ uuid_hex"
  have "wf_topology (svc_topology s)" using ok by (simp add: service_ok_def)
  then obtain an where an: "analyze_link_down (svc_topology s) ?ev = Inr an"
    using analysis_total [OF _ served, of ?ev] known by (auto simp: requested_event_def)
  have new: "?id \<notin> set (dict_keys (incidents s))" using fresh by simp
  obtain s' where s': "ingest sha r uuid_hex now ?ev s = Inr (fresh_incident sha uuid_hex now ?ev an, s')"
    "service_ok sha s'"
    "incidents s' = bounded (max_incidents s) (incidents s @ [(?id, fresh_incident sha uuid_hex now ?ev an)])"
    using new_incident_ok [OF ok an new, of r now] ingest_cases [OF ok, of r ?ev uuid_hex now] False by auto
  have "0 < max_incidents s" using ok by (simp add: service_ok_def)
  then have "length (incidents s @ [(?id, fresh_incident sha uuid_hex now ?ev an)]) - nat (max_incidents s) \<le> length (incidents s)"
    by simp
  then have "(?id, fresh_incident sha uuid_hex now ?ev an) \<in> set (incidents s')"
    unfolding s'(3) bounded_def by simp
  moreover have "distinct (dict_keys (incidents s'))" using s'(2) by (simp add: service_ok_def)
  ultimately show ?thesis using s'(1) by (auto simp: fresh_incident_def)
qed

lemma ingest_event_refused:
  assumes ok: "service_ok sha s" and served: "served (svc_topology s)" and body: "event_body_ok q"
    and fresh: "call_fresh sha (PostEvent r uuid_hex event_now now q) s"
    and unknown: "er_event_type q \<noteq> ''link_down'' \<or> er_link_id q \<notin> topo_ids (svc_topology s)"
  shows "\<exists>m. ingest sha r uuid_hex now (requested_event event_now q) s = Inl (ValueError m)"
proof -
  let ?ev = "requested_event event_now q"
  have wf: "wf_topology (svc_topology s)" using ok by (simp add: service_ok_def)
  have "\<nexists>inc. duplicate_of sha r ?ev s inc" using stored_duplicate [OF ok served body fresh] unknown by blast
  then have "ingest sha r uuid_hex now ?ev s = new_incident sha r uuid_hex now ?ev s"
    using ingest_cases [OF ok, of r ?ev uuid_hex now] by blast
  moreover obtain e where e: "analyze_link_down (svc_topology s) ?ev = Inl e"
    using analysis_domain(1) [OF wf served, of ?ev] unknown
    by (cases "analyze_link_down (svc_topology s) ?ev") (auto simp: requested_event_def)
  moreover obtain m where "e = ValueError m" using analysis_domain(2) [OF wf served e] by blast
  ultimately show ?thesis by (simp add: new_incident_def Let_def)
qed

text \<open>One call, on a service in a consistent state.\<close>

lemma incident_call_step:
  assumes ok: "service_ok sha s" and served: "served (svc_topology s)" and fresh: "call_fresh sha c s"
  shows "case incident_call sha repr c s of (reply, s') \<Rightarrow>
    status_code reply = incident_status (svc_topology s) c s \<and> (s' = s \<or> svc_step sha s s') \<and>
    (case reply of
       Inl _ \<Rightarrow> s' = s
     | Inr (_, r) \<Rightarrow> \<exists>inc. map_of (incidents s') (ir_id r) = Some inc \<and> r = incident_response inc)"
proof -
  have stored: "incident_id inc = i" if "map_of (incidents s) i = Some inc" for i inc
    using ok map_of_SomeD [OF that] by (auto simp: service_ok_def incident_ok_def)
  show ?thesis
  proof (cases c)
    case (PostEvent r u event_now now q)
    note fresh = fresh [unfolded PostEvent]
    show ?thesis
    proof (cases "event_body_ok q")
      case body: True
      show ?thesis
      proof (cases "er_event_type q = ''link_down'' \<and> er_link_id q \<in> topo_ids (svc_topology s)")
        case True
        then obtain inc s' where i: "ingest sha r u now (requested_event event_now q) s = Inr (inc, s')"
          "map_of (incidents s') (incident_id inc) = Some inc"
          using ingest_event_ok [OF ok served body fresh] by auto
        have "svc_step sha s s'" using step_ingest [OF i(1)] fresh by simp
        then show ?thesis using i body True by (auto simp: PostEvent ingest_event_def incident_response_def)
      next
        case False
        then obtain m where "ingest sha r u now (requested_event event_now q) s = Inl (ValueError m)"
          using ingest_event_refused [OF ok served body fresh] by auto
        then show ?thesis using body False by (auto simp: PostEvent ingest_event_def caught_def)
      qed
    qed (simp add: PostEvent ingest_event_def)
  next
    case (GetIncident i)
    then show ?thesis using stored [of i]
      by (cases "map_of (incidents s) i") (auto simp: get_incident_endpoint_def get_incident_def caught_def incident_response_def)
  next
    case (PostApproval i)
    show ?thesis
    proof (cases "\<exists>inc. map_of (incidents s) i = Some inc \<and> plan_status (recovery_plan inc) = AWAITING_APPROVAL")
      case True
      then obtain inc inc' s' where a: "approve i s = Inr (inc', s')" "map_of (incidents s) i = Some inc"
        "plan_status (recovery_plan inc) = AWAITING_APPROVAL"
        "inc' = inc\<lparr>recovery_plan := recovery_plan inc\<lparr>plan_status := APPROVED\<rparr>\<rparr>"
        "s' = s\<lparr>incidents := dict_set i inc' (incidents s)\<rparr>" by (auto simp: approve_Inr)
      then show ?thesis using stored [OF a(2)] step_approve [OF a(1)]
        by (auto simp: PostApproval approve_incident_def incident_response_def)
    qed (auto simp: PostApproval approve_incident_def approve_def get_incident_def
      approve_recovery_def caught_def split: option.splits)
  qed
qed

text \<open>
  C25: The incident endpoints answer every call as documented on a topology whose access nodes
  are served, from any state the service reaches: 422 for a malformed event, 400 for an event
  of another type or of an unknown link and 201 otherwise; 404 for an incident that is not
  stored; 409 for an approval of one that does not await it. No call ends in an internal
  error, a refused call changes nothing, and a successful one shows an incident as it is
  stored after the call.
\<close>

theorem incident_endpoints:
  assumes "mk_topology ns ls = Inr t" "served t" "mk_service t window limit = Inr s0" "svc_runs sha s0 s"
    and "call_fresh sha c s"
  shows "case incident_call sha repr c s of (reply, s') \<Rightarrow>
    status_code reply = incident_status t c s \<and> svc_runs sha s0 s' \<and>
    (case reply of
       Inl _ \<Rightarrow> s' = s
     | Inr (_, r) \<Rightarrow> \<exists>inc. map_of (incidents s') (ir_id r) = Some inc \<and> r = incident_response inc)"
proof -
  note s0 = mk_service_ok [OF mk_topology_wf [OF assms(1)] assms(3), of sha]
  have ok: "service_ok sha s" and t: "svc_topology s = t" using svc_runs_ok [OF assms(4)] s0 by auto
  have "served (svc_topology s)" using t assms(2) by simp
  from incident_call_step [OF ok this assms(5), of repr] show ?thesis
    using assms(4) t by (auto intro: run_step)
qed

theorem incident_endpoints_witness:
  "status_code (fst (incident_call (\<lambda>x. x) (\<lambda>x. x)
     (PostEvent 9 ''02'' lab_instant lab_instant \<lparr>er_event_type = ''link_down'', er_link_id = ''ghost'', er_observed_at = None\<rparr>)
     lab_service_one)) = 400 \<and>
   status_code (fst (incident_call (\<lambda>x. x) (\<lambda>x. x) (PostApproval ''inc-01'') lab_service_one)) = 200"
proof -
  let ?q = "\<lparr>er_event_type = ''link_down'', er_link_id = ''ghost'', er_observed_at = None\<rparr>"
  note run = incident_endpoints [OF mk_lab_topology lab_served mk_lab_service lab_run, of _ "\<lambda>x. x"]
  have body: "event_body_ok ?q" by code_simp
  have ghost: "''ghost'' \<notin> topo_ids lab_topology" by code_simp
  have "call_fresh (\<lambda>x. x) (PostEvent 9 ''02'' lab_instant lab_instant ?q) lab_service_one"
    by (simp add: lab_service_one_def lab_incident_def fresh_incident_def event_fingerprint_def requested_event_def lab_link_down_def)
  from run [OF this] have "status_code (fst (incident_call (\<lambda>x. x) (\<lambda>x. x)
     (PostEvent 9 ''02'' lab_instant lab_instant ?q) lab_service_one)) = 400"
    using body ghost by (auto split: prod.splits)
  moreover have "incident_status lab_topology (PostApproval ''inc-01'') lab_service_one = 200"
    by (simp add: lab_service_one_def lab_incident_def fresh_incident_def)
  then have "status_code (fst (incident_call (\<lambda>x. x) (\<lambda>x. x) (PostApproval ''inc-01'') lab_service_one)) = 200"
    using run [of "PostApproval ''inc-01''"] by (auto split: prod.splits)
  ultimately show ?thesis ..
qed

end
