(* ===== verification/Measurement_Log.thy ===== *)
theory Measurement_Log
  imports Json_Value
begin

text \<open>
  \<open>measurement.py\<close>: reading a measurement log line by line, and the evidence document of an
  uplink failure built from it. The standard library's part is a parameter, collected in a
  record: splitting a line into shell words, what each pattern captures in a line, and the
  numbers texts stand for. Floats are rationals.
\<close>

section \<open>Lines\<close>

record LogPatterns =
  shlex_split :: "string \<Rightarrow> string list result"
  ping_reply :: "string \<Rightarrow> (string \<times> string \<times> string \<times> string) option"
  ping_summary :: "string \<Rightarrow> (string \<times> string \<times> string) option"
  metric_text :: "string \<Rightarrow> string option"
  trace_hop :: "string \<Rightarrow> string option"
  bfd_peer_row :: "string \<Rightarrow> (string \<times> string) option"
  int_of_text :: "string \<Rightarrow> int result"
  float_of_text :: "string \<Rightarrow> rat result"

text \<open>\<open>dict(token.split("=", 1) for token in shlex.split(line)[1:] if "=" in token)\<close>\<close>

definition split_token :: "string \<Rightarrow> string \<times> string" where
  "split_token token =
     (takeWhile (\<lambda>c. c \<noteq> CHR ''='') token, drop 1 (dropWhile (\<lambda>c. c \<noteq> CHR ''='') token))"

definition log_fields :: "LogPatterns \<Rightarrow> string \<Rightarrow> string dict result" where
  "log_fields p line =
     rbind (shlex_split p line) (\<lambda>tokens.
       Inr (foldl (\<lambda>d (k, v). dict_set k v d) []
         (map split_token (filter (\<lambda>token. CHR ''='' \<in> set token) (drop 1 tokens)))))"

definition timestamp_ns :: "LogPatterns \<Rightarrow> string \<Rightarrow> string \<Rightarrow> int result" where
  "timestamp_ns p seconds fraction =
     rbind (int_of_text p (take 9 (fraction @ ''000000000''))) (\<lambda>nanoseconds.
     rbind (int_of_text p seconds) (\<lambda>s.
       Inr (s * 1000000000 + nanoseconds)))"

record PingReply =
  rp_index :: nat
  rp_seq :: int
  rp_ttl :: int
  rp_ns :: int

text \<open>\<open>{"path": [...]}\<close>, with \<open>"ospf_metric"\<close> once one was seen.\<close>

record StateBlock =
  block_path :: "string list"
  block_metric :: "int option"

record LogState =
  log_header :: "string dict option"
  log_environment :: "string dict option"
  log_states :: "(string \<times> StateBlock) list"
  log_active :: "string option"
  log_replies :: "PingReply list"
  log_events :: "(string \<times> nat \<times> int) list"
  log_summary :: "(int \<times> int \<times> rat) option"
  log_peer_up :: bool

definition log_start :: LogState where
  "log_start =
     \<lparr>log_header = None, log_environment = None, log_states = [], log_active = None, log_replies = [],
      log_events = [], log_summary = None, log_peer_up = False\<rparr>"

definition begin_state :: "LogPatterns \<Rightarrow> string \<Rightarrow> LogState \<Rightarrow> LogState result" where
  "begin_state p line s =
     rbind (log_fields p line) (\<lambda>fields.
       Inr (case map_of fields ''name'' of
         None \<Rightarrow> s\<lparr>log_active := None\<rparr>
       | Some name \<Rightarrow>
           if name = [] then s\<lparr>log_active := Some []\<rparr>
           else s\<lparr>log_active := Some name,
             log_states := dict_set name \<lparr>block_path = [], block_metric = None\<rparr> (log_states s)\<rparr>))"

definition log_event :: "LogPatterns \<Rightarrow> nat \<Rightarrow> string \<Rightarrow> LogState \<Rightarrow> LogState result" where
  "log_event p line_index line s =
     rbind (log_fields p line) (\<lambda>fields.
       case (map_of fields ''type'', map_of fields ''epoch_ns'') of
         (Some kind, Some epoch_ns) \<Rightarrow>
           if kind = [] \<or> epoch_ns = [] then Inr s
           else rbind (int_of_text p epoch_ns) (\<lambda>n. Inr (s\<lparr>log_events := dict_set kind (line_index, n) (log_events s)\<rparr>))
       | _ \<Rightarrow> Inr s)"

definition log_reply :: "LogPatterns \<Rightarrow> nat \<Rightarrow> string \<Rightarrow> LogState \<Rightarrow> LogState result" where
  "log_reply p line_index line s =
     (case ping_reply p line of
        None \<Rightarrow> Inr s
      | Some (seconds, fraction, seq, ttl) \<Rightarrow>
          rbind (int_of_text p seq) (\<lambda>n.
          rbind (int_of_text p ttl) (\<lambda>t.
          rbind (timestamp_ns p seconds fraction) (\<lambda>ns.
            Inr (s\<lparr>log_replies := log_replies s @
              [\<lparr>rp_index = line_index, rp_seq = n, rp_ttl = t, rp_ns = ns\<rparr>]\<rparr>)))))"

definition log_ping_summary :: "LogPatterns \<Rightarrow> string \<Rightarrow> LogState \<Rightarrow> LogState result" where
  "log_ping_summary p line s =
     (case ping_summary p line of
        None \<Rightarrow> Inr s
      | Some (sent, received, loss) \<Rightarrow>
          rbind (int_of_text p sent) (\<lambda>a.
          rbind (int_of_text p received) (\<lambda>b.
          rbind (float_of_text p loss) (\<lambda>c.
            Inr (s\<lparr>log_summary := Some (a, b, c)\<rparr>)))))"

definition update_block :: "string \<Rightarrow> (StateBlock \<Rightarrow> StateBlock) \<Rightarrow> LogState \<Rightarrow> LogState result" where
  "update_block name f s =
     (case map_of (log_states s) name of
        None \<Rightarrow> Inl (KeyError name)
      | Some b \<Rightarrow> Inr (s\<lparr>log_states := dict_set name (f b) (log_states s)\<rparr>))"

definition log_active_state :: "LogPatterns \<Rightarrow> string \<Rightarrow> LogState \<Rightarrow> LogState result" where
  "log_active_state p line s =
     (case log_active s of
        None \<Rightarrow> Inr s
      | Some name \<Rightarrow>
          if name = [] then Inr s
          else
            rbind (case metric_text p line of
                None \<Rightarrow> Inr s
              | Some m \<Rightarrow> rbind (int_of_text p m) (\<lambda>n. update_block name (\<lambda>b. b\<lparr>block_metric := Some n\<rparr>) s)) (\<lambda>s1.
            case trace_hop p line of
              None \<Rightarrow> Inr s1
            | Some address \<Rightarrow> update_block name (\<lambda>b. b\<lparr>block_path := block_path b @ [address]\<rparr>) s1))"

text \<open>The lines that are no markers.\<close>

definition log_sample :: "LogPatterns \<Rightarrow> nat \<Rightarrow> string \<Rightarrow> LogState \<Rightarrow> LogState result" where
  "log_sample p line_index line s =
     rbind (log_reply p line_index line s) (\<lambda>s1.
     rbind (log_ping_summary p line s1) (log_active_state p line))"

definition scan_measurement_line :: "LogPatterns \<Rightarrow> LogState \<Rightarrow> nat \<times> string \<Rightarrow> LogState result" where
  "scan_measurement_line p s numbered =
     (case numbered of (line_index, line) \<Rightarrow>
        if starts_with ''TELCONET_MEASUREMENT '' line then
          rbind (log_fields p line) (\<lambda>fields. Inr (s\<lparr>log_header := Some fields\<rparr>))
        else if starts_with ''ENV '' line then
          rbind (log_fields p line) (\<lambda>fields. Inr (s\<lparr>log_environment := Some fields\<rparr>))
        else if starts_with ''STATE_BEGIN '' line then begin_state p line s
        else if starts_with ''STATE_END '' line then Inr (s\<lparr>log_active := None\<rparr>)
        else if starts_with ''EVENT '' line then log_event p line_index line s
        else log_sample p line_index line s)"

definition enumerated :: "'a list \<Rightarrow> (nat \<times> 'a) list" where
  "enumerated xs = zip [0..<length xs] xs"

section \<open>Replies around the markers\<close>

text \<open>\<open>Counter(values).most_common(1)[0][0]\<close>: the first of the most frequent.\<close>

definition first_occurrences :: "'a list \<Rightarrow> 'a list" where
  "first_occurrences xs = rev (remdups (rev xs))"

definition most_common :: "'a list \<Rightarrow> 'a" where
  "most_common xs = hd (sorted_desc (count_list xs) (first_occurrences xs))"

definition missing_parts :: "(bool \<times> string) list \<Rightarrow> string list" where
  "missing_parts checks = map snd (filter fst checks)"

definition keys_absent :: "string list \<Rightarrow> (string \<times> 'v) list \<Rightarrow> bool" where
  "keys_absent required d = (\<not> set required \<subseteq> set (dict_keys d))"

text \<open>Rounding a duration up to milliseconds.\<close>

definition upper_bound_ms :: "int \<Rightarrow> int" where
  "upper_bound_ms delta_ns = (delta_ns + 999999) div 1000000"

definition text_item :: "string \<Rightarrow> string dict \<Rightarrow> string result" where
  "text_item key d = (case map_of d key of None \<Rightarrow> Inl (KeyError key) | Some v \<Rightarrow> Inr v)"

definition block_json :: "StateBlock \<Rightarrow> (string \<times> json) list" where
  "block_json b =
     (''path'', jstrings (block_path b)) #
     (case block_metric b of None \<Rightarrow> [] | Some m \<Rightarrow> [(''ospf_metric'', JInt m)])"

section \<open>The measurement\<close>

definition sampling_text :: "string \<Rightarrow> int \<Rightarrow> string \<Rightarrow> int \<Rightarrow> PingReply \<Rightarrow> string" where
  "sampling_text marker epoch_ns change ttl reply =
     marker @ '' marker at '' @ int_str epoch_ns @ ''; TTL '' @ change @ '' '' @ int_str ttl @ '' at sequence '' @
     int_str (rp_seq reply) @ '' with reply timestamp '' @ int_str (rp_ns reply)"

definition measurement_limitations :: "string list" where
  "measurement_limitations =
     [''Results were measured in local Linux network namespaces, not on carrier hardware.'',
      ''Bounds compare event epoch markers with iputils -D reply timestamps; 100 ms probing means the path may have changed earlier.'',
      ''Event markers are written before docker exec link commands, so measured deltas include command execution overhead.'',
      ''The failure was a local administrative link-down, so remote-fault detection time was not measured.'']"

definition environment_json :: "string dict \<Rightarrow> (string \<times> json) list result" where
  "environment_json environment =
     rbind (text_item ''containerlab'' environment) (\<lambda>containerlab.
     rbind (text_item ''docker_engine'' environment) (\<lambda>docker_engine.
     rbind (text_item ''frr'' environment) (\<lambda>frr.
     rbind (text_item ''host'' environment) (\<lambda>host.
     rbind (text_item ''configuration_sha256'' environment) (\<lambda>configuration_sha256.
       Inr [(''containerlab'', JString containerlab), (''docker_engine'', JString docker_engine),
         (''frr'', JString frr), (''host'', JString (replace_char (CHR ''_'') '' '' host)),
         (''configuration_sha256'', JString configuration_sha256)])))))"

definition measurement_document ::
  "string dict \<Rightarrow> string dict \<Rightarrow> LogState \<Rightarrow> int \<Rightarrow> nat \<times> int \<Rightarrow> nat \<times> int \<Rightarrow> int \<times> int \<times> rat \<Rightarrow> json result" where
  "measurement_document header environment s interval_ms down up summary =
     (case (down, up, summary) of ((down_index, down_epoch_ns), (up_index, up_epoch_ns), (sent, received, loss_percent)) \<Rightarrow>
      let before_down = filter (\<lambda>r. rp_index r < down_index) (log_replies s);
          between = filter (\<lambda>r. down_index < rp_index r \<and> rp_index r < up_index) (log_replies s);
          after_up = filter (\<lambda>r. up_index < rp_index r) (log_replies s) in
      if before_down = [] \<or> between = [] \<or> after_up = []
      then Inl (ValueError ''measurement log is missing ping samples around event markers'')
      else
        (let baseline_ttl = most_common (map rp_ttl before_down) in
         case (List.find (\<lambda>r. rp_ttl r \<noteq> baseline_ttl) between, List.find (\<lambda>r. rp_ttl r = baseline_ttl) after_up) of
           (Some changed, Some restored) \<Rightarrow>
             (let failover_delta = rp_ns changed - down_epoch_ns; recovery_delta = rp_ns restored - up_epoch_ns in
              if failover_delta < 0 \<or> recovery_delta < 0
              then Inl (ValueError ''measurement reply timestamps must follow their event markers'')
              else
                (case (map_of (log_states s) ''baseline'', map_of (log_states s) ''failover'', map_of (log_states s) ''recovery'') of
                   (Some baseline, Some failover, Some recovery) \<Rightarrow>
                     rbind (text_item ''capture_started_at'' header) (\<lambda>capture_started_at.
                     rbind (environment_json environment) (\<lambda>env.
                     rbind (case block_metric recovery of None \<Rightarrow> Inl (KeyError ''ospf_metric'') | Some m \<Rightarrow> Inr m) (\<lambda>metric.
                       Inr (JObject
                         [(''baseline'', JObject (block_json baseline)),
                          (''capture_started_at'', JString capture_started_at),
                          (''environment'', JObject env),
                          (''failed_link'', JString ''access1--agg1''),
                          (''failover'', JObject (block_json failover @
                            [(''event_epoch_ns'', JInt down_epoch_ns),
                             (''path_change_upper_bound_ms'', JInt (upper_bound_ms failover_delta)),
                             (''ping'', JObject [(''interval_ms'', JInt interval_ms),
                               (''packet_loss_percent'', JFloat loss_percent), (''received'', JInt received),
                               (''transmitted'', JInt sent)]),
                             (''sampling_evidence'', JString (sampling_text ''link-down'' down_epoch_ns
                               ''changed from'' baseline_ttl changed))])),
                          (''injection'', JObject
                            [(''command'', JString ''docker exec clab-telconet-sentinel-access1 ip link set eth1 down''),
                             (''interface'', JString ''access1:eth1'')]),
                          (''limitations'', jstrings measurement_limitations),
                          (''measured'', JBool True),
                          (''recovery'', JObject
                            [(''command'', JString ''docker exec clab-telconet-sentinel-access1 ip link set eth1 up''),
                             (''event_epoch_ns'', JInt up_epoch_ns), (''ospf_metric'', JInt metric),
                             (''path'', jstrings (block_path recovery)),
                             (''path_return_upper_bound_ms'', JInt (upper_bound_ms recovery_delta)),
                             (''sampling_evidence'', JString (sampling_text ''link-up'' up_epoch_ns
                               ''returned to'' baseline_ttl restored))]),
                          (''scenario'', JString ''access_uplink_failure''),
                          (''source'', JString ''containerlab_observation'')]))))
                 | _ \<Rightarrow> Inl (KeyError ''state'')))
         | _ \<Rightarrow> Inl (ValueError ''measurement log is missing an observable path transition'')))"

definition parse_measurement_log :: "LogPatterns \<Rightarrow> string list \<Rightarrow> json result" where
  "parse_measurement_log p lines =
     rbind (fold_res (scan_measurement_line p) log_start (enumerated lines)) (\<lambda>s.
     let missing = missing_parts
       [(log_header s = None, ''header''),
        (log_environment s = None, ''environment''),
        (case log_environment s of None \<Rightarrow> False | Some e \<Rightarrow> keys_absent [''configuration_sha256''] e, ''configuration hash''),
        (keys_absent [''baseline'', ''failover'', ''recovery''] (log_states s), ''state blocks''),
        (keys_absent [''link_down'', ''link_up''] (log_events s), ''event markers''),
        (log_summary s = None \<or> log_replies s = [], ''ping results'')] in
     rbind (ensure (missing = []) (''measurement log is missing: '' @ join '', '' missing)) (\<lambda>_.
     case (log_header s, log_environment s, map_of (log_events s) ''link_down'', map_of (log_events s) ''link_up'', log_summary s) of
       (Some header, Some environment, Some down, Some up, Some summary) \<Rightarrow>
         rbind (rbind (text_item ''ping_interval_ms'' header) (int_of_text p)) (\<lambda>interval_ms.
           measurement_document header environment s interval_ms down up summary)
     | _ \<Rightarrow> Inl (RuntimeError ''AssertionError'')))"

section \<open>Bounds\<close>

lemma upper_bound_ms_least:
  assumes "0 \<le> delta"
  shows "0 \<le> upper_bound_ms delta" "delta \<le> upper_bound_ms delta * 1000000"
    and "(upper_bound_ms delta - 1) * 1000000 < delta"
proof -
  have d: "delta + 999999 = 1000000 * upper_bound_ms delta + (delta + 999999) mod 1000000"
    unfolding upper_bound_ms_def by simp
  have m: "0 \<le> (delta + 999999) mod 1000000" "(delta + 999999) mod 1000000 < 1000000" by simp_all
  show "0 \<le> upper_bound_ms delta" "delta \<le> upper_bound_ms delta * 1000000" using assms d m by linarith+
  have "(upper_bound_ms delta - 1) * 1000000 = 1000000 * upper_bound_ms delta - 1000000" by simp
  then show "(upper_bound_ms delta - 1) * 1000000 < delta" using assms d m by linarith
qed

text \<open>A reply's index is the line it was read from, so replies are in the order of the log.\<close>

definition replies_ordered :: "nat \<Rightarrow> LogState \<Rightarrow> bool" where
  "replies_ordered n s = (sorted_wrt (\<lambda>a b. rp_index a < rp_index b) (log_replies s) \<and>
     (\<forall>r \<in> set (log_replies s). rp_index r < n))"

lemma update_block_replies: "update_block name f s = Inr t \<Longrightarrow> log_replies t = log_replies s"
  by (auto simp: update_block_def split: option.splits)

lemma log_sample_replies:
  assumes "log_sample p i line s = Inr t"
  shows "log_replies t = log_replies s \<or> (\<exists>r. log_replies t = log_replies s @ [r] \<and> rp_index r = i)"
proof -
  from assms obtain s1 s2 where s: "log_reply p i line s = Inr s1" "log_ping_summary p line s1 = Inr s2"
    "log_active_state p line s2 = Inr t" by (auto simp: log_sample_def rbind_eq_Inr)
  have "log_replies t = log_replies s2"
    using s(3) by (auto simp: log_active_state_def rbind_eq_Inr dest!: update_block_replies
      split: option.splits if_splits)
  moreover have "log_replies s2 = log_replies s1"
    using s(2) by (auto simp: log_ping_summary_def rbind_eq_Inr split: option.splits)
  moreover have "log_replies s1 = log_replies s \<or> (\<exists>r. log_replies s1 = log_replies s @ [r] \<and> rp_index r = i)"
    using s(1) by (auto simp: log_reply_def rbind_eq_Inr split: option.splits)
  ultimately show ?thesis by simp
qed

lemma log_sample_ordered:
  "log_sample p i line s = Inr t \<Longrightarrow> replies_ordered i s \<Longrightarrow> replies_ordered (Suc i) t"
  by (drule log_sample_replies) (auto simp: replies_ordered_def sorted_wrt_append less_Suc_eq)

lemma replies_ordered_other:
  "replies_ordered i s \<Longrightarrow> log_replies t = log_replies s \<Longrightarrow> replies_ordered (Suc i) t"
  by (auto simp: replies_ordered_def less_Suc_eq)

lemma begin_state_replies: "begin_state p line s = Inr t \<Longrightarrow> log_replies t = log_replies s"
  by (auto simp: begin_state_def rbind_eq_Inr split: option.splits if_splits)

lemma log_event_replies:
  assumes "log_event p i line s = Inr t"
  shows "log_replies t = log_replies s"
proof -
  from assms obtain fields where f: "(case (map_of fields ''type'', map_of fields ''epoch_ns'') of
      (Some kind, Some epoch_ns) \<Rightarrow>
        if kind = [] \<or> epoch_ns = [] then Inr s
        else rbind (int_of_text p epoch_ns) (\<lambda>n. Inr (s\<lparr>log_events := dict_set kind (i, n) (log_events s)\<rparr>))
    | _ \<Rightarrow> Inr s) = Inr t" by (auto simp: log_event_def rbind_eq_Inr)
  show ?thesis
    using f by (cases "map_of fields ''type''"; cases "map_of fields ''epoch_ns''") (auto simp: rbind_eq_Inr split: if_splits)
qed

lemma scan_ordered:
  assumes "\<And>i line s t. replies_ordered i s \<Longrightarrow> scan s (i, line) = Inr t \<Longrightarrow> replies_ordered (Suc i) t"
    and "fold_res scan log_start (enumerated lines) = Inr s"
  shows "replies_ordered (length lines) s"
proof -
  have "replies_ordered i s0 \<Longrightarrow> fold_res scan s0 (zip [i..<i + length lines] lines) = Inr s \<Longrightarrow>
      replies_ordered (i + length lines) s" for i s0
  proof (induction lines arbitrary: i s0)
    case (Cons line lines)
    have "[i..<i + length (line # lines)] = i # [Suc i..<Suc i + length lines]" by (simp add: upt_rec)
    then obtain s1 where s1: "scan s0 (i, line) = Inr s1" "fold_res scan s1 (zip [Suc i..<Suc i + length lines] lines) = Inr s"
      using Cons.prems(2) by (auto simp: rbind_eq_Inr)
    from Cons.IH [OF assms(1) [OF Cons.prems(1) s1(1)] s1(2)] show ?case by simp
  qed simp
  from this [of 0 log_start] assms(2) show ?thesis
    by (simp add: enumerated_def replies_ordered_def log_start_def)
qed

lemma scan_measurement_ordered:
  assumes "fold_res (scan_measurement_line p) log_start (enumerated lines) = Inr s"
  shows "replies_ordered (length lines) s"
proof (rule scan_ordered [OF _ assms])
  fix i line s t assume o: "replies_ordered i s" and r: "scan_measurement_line p s (i, line) = Inr t"
  show "replies_ordered (Suc i) t"
    using r o by (auto simp: scan_measurement_line_def rbind_eq_Inr split: if_splits
      intro: log_sample_ordered replies_ordered_other dest: begin_state_replies log_event_replies)
qed

lemma find_sorted_first:
  assumes "List.find P xs = Some x" "sorted_wrt (\<lambda>a b. f a < f b) xs"
  shows "x \<in> set xs \<and> P x \<and> (\<forall>y \<in> set xs. P y \<longrightarrow> f x \<le> (f y :: nat))"
  using assms by (induction xs) (auto split: if_splits intro: less_imp_le)

end
