(* ===== verification/Experiment_Metrics.thy ===== *)
theory Experiment_Metrics
  imports Json_Value Prometheus_Text
begin

text \<open>
  \<open>metrics.py\<close>: validation of the two experiment evidence documents and their metrics. A
  document is the object \<open>json.loads\<close> returns; numbers are finite. Formatting a float with
  \<open>:g\<close> is a parameter. What passes validation is rendered without an error.
\<close>

section \<open>Validation\<close>

definition profile_names :: "string list" where
  "profile_names = [''ospf_only'', ''bfd_100x3'']"

definition nonnegative_number :: "string \<Rightarrow> json \<Rightarrow> unit result" where
  "nonnegative_number name value =
     (case jnumber value of
        None \<Rightarrow> Inl (ValueError (name @ '' must be numeric''))
      | Some r \<Rightarrow> ensure (0 \<le> r) (name @ '' must be non-negative''))"

definition validate_experiment_profile :: "(string \<times> json) list \<Rightarrow> string \<Rightarrow> unit result" where
  "validate_experiment_profile profiles profile =
     (case jget profile profiles of
        JObject values \<Rightarrow>
          rbind (each (\<lambda>name. nonnegative_number (profile @ ''.'' @ name) (jget name values))
            [''observed_detection_upper_bound_ms'', ''packets_lost_until_failover'', ''capture_packet_loss_percent'']) (\<lambda>_.
          rbind (ensure (jint (jget ''packets_lost_until_failover'' values) \<noteq> None)
            (profile @ ''.packets_lost_until_failover must be an integer'')) (\<lambda>_.
          case jnumber (jget ''capture_packet_loss_percent'' values) of
            None \<Rightarrow> Inl (RuntimeError ''AssertionError'')
          | Some capture_loss \<Rightarrow>
              ensure (capture_loss \<le> 100) (profile @ ''.capture_packet_loss_percent must not exceed 100'')))
      | _ \<Rightarrow> Inl (ValueError (''experiment evidence requires profile: '' @ profile)))"

definition validate_experiment_evidence :: "(string \<times> json) list \<Rightarrow> unit result" where
  "validate_experiment_evidence evidence =
     (case jget ''profiles'' evidence of
        JObject profiles \<Rightarrow> each (validate_experiment_profile profiles) profile_names
      | _ \<Rightarrow> Inl (ValueError ''experiment evidence profiles must be a mapping''))"

definition load_experiment_evidence :: "json result \<Rightarrow> (string \<times> json) list result" where
  "load_experiment_evidence document =
     rbind document (\<lambda>j.
       case j of
         JObject evidence \<Rightarrow> rbind (validate_experiment_evidence evidence) (\<lambda>_. Inr evidence)
       | _ \<Rightarrow> Inl (ValueError ''experiment evidence must be a JSON object''))"

text \<open>Python's \<open>==\<close> of a JSON value and an integer: \<open>True\<close> is 1 and floats compare by value.\<close>

fun equals_int :: "json \<Rightarrow> int \<Rightarrow> bool" where
  "equals_int (JInt i) n = (i = n)"
| "equals_int (JBool b) n = ((if b then 1 else 0) = n)"
| "equals_int (JFloat r) n = (r = of_int n)"
| "equals_int _ n = False"

definition stat_names :: "string list" where
  "stat_names = [''p50'', ''p95'', ''max'']"

definition validate_trial :: "string \<Rightarrow> nat \<times> json \<Rightarrow> unit result" where
  "validate_trial profile numbered =
     (case snd numbered of
        JObject trial \<Rightarrow>
          rbind (ensure (equals_int (jget ''trial'' trial) (int (fst numbered)))
            (profile @ ''.trials must be sequential'')) (\<lambda>_.
            nonnegative_number (profile @ ''.trials detection_ms'') (jget ''detection_ms'' trial))
      | _ \<Rightarrow> Inl (ValueError (profile @ ''.trials entries must be mappings'')))"

definition numbered_from_one :: "'a list \<Rightarrow> (nat \<times> 'a) list" where
  "numbered_from_one xs = zip [1..<Suc (length xs)] xs"

definition validate_repeated_profile :: "(string \<times> json) list \<Rightarrow> int \<Rightarrow> string \<Rightarrow> unit result" where
  "validate_repeated_profile profiles trial_count profile =
     (case jget profile profiles of
        JObject values \<Rightarrow>
          (case jget ''detection_ms'' values of
             JObject summary \<Rightarrow>
               rbind (each (\<lambda>stat. nonnegative_number (profile @ ''.detection_ms.'' @ stat) (jget stat summary)) stat_names) (\<lambda>_.
               (case jget ''trials'' values of
                  JArray trials \<Rightarrow>
                    rbind (ensure (int (length trials) = trial_count)
                      (profile @ ''.trials must contain '' @ int_str trial_count @ '' trials'')) (\<lambda>_.
                      each (validate_trial profile) (numbered_from_one trials))
                | _ \<Rightarrow> Inl (ValueError (profile @ ''.trials must contain '' @ int_str trial_count @ '' trials''))))
           | _ \<Rightarrow> Inl (ValueError (profile @ ''.detection_ms must be a mapping'')))
      | _ \<Rightarrow> Inl (ValueError (''repeated experiment requires profile: '' @ profile)))"

definition validate_repeated_experiment_evidence :: "(string \<times> json) list \<Rightarrow> unit result" where
  "validate_repeated_experiment_evidence evidence =
     (case jint (jget ''trial_count_per_profile'' evidence) of
        None \<Rightarrow> Inl (ValueError ''repeated trial count must be an integer'')
      | Some trial_count \<Rightarrow>
          rbind (ensure (20 \<le> trial_count) ''repeated evidence requires at least 20 trials per profile'') (\<lambda>_.
          rbind (ensure (trial_count \<le> 30) ''repeated evidence supports at most 30 trials per profile'') (\<lambda>_.
          case jget ''profiles'' evidence of
            JObject profiles \<Rightarrow> each (validate_repeated_profile profiles trial_count) profile_names
          | _ \<Rightarrow> Inl (ValueError ''repeated experiment profiles must be a mapping''))))"

definition load_repeated_experiment_evidence :: "json result \<Rightarrow> (string \<times> json) list result" where
  "load_repeated_experiment_evidence document =
     rbind document (\<lambda>j.
       case j of
         JObject evidence \<Rightarrow> rbind (validate_repeated_experiment_evidence evidence) (\<lambda>_. Inr evidence)
       | _ \<Rightarrow> Inl (ValueError ''repeated experiment evidence must be a JSON object''))"

section \<open>Rendering\<close>

text \<open>\<open>evidence[key]\<close>, and the conversions \<open>float(value)\<close> and \<open>int(value)\<close> of JSON numbers.\<close>

definition jitem :: "string \<Rightarrow> (string \<times> json) list \<Rightarrow> json result" where
  "jitem key d = (case map_of d key of None \<Rightarrow> Inl (KeyError key) | Some v \<Rightarrow> Inr v)"

definition jmapping :: "json \<Rightarrow> (string \<times> json) list result" where
  "jmapping j = (case j of JObject d \<Rightarrow> Inr d | _ \<Rightarrow> Inl (RuntimeError ''AssertionError''))"

definition jlist :: "json \<Rightarrow> json list result" where
  "jlist j = (case j of JArray xs \<Rightarrow> Inr xs | _ \<Rightarrow> Inl (RuntimeError ''AssertionError''))"

definition to_float :: "json \<Rightarrow> rat result" where
  "to_float j =
     (case j of
        JBool b \<Rightarrow> Inr (if b then 1 else 0)
      | _ \<Rightarrow> (case jnumber j of Some r \<Rightarrow> Inr r | None \<Rightarrow> Inl (TypeError ''float() argument'')))"

definition to_int :: "json \<Rightarrow> int result" where
  "to_int j =
     (case j of
        JBool b \<Rightarrow> Inr (if b then 1 else 0)
      | _ \<Rightarrow> (case jnumber j of
               Some r \<Rightarrow> Inr (if 0 \<le> r then \<lfloor>r\<rfloor> else \<lceil>r\<rceil>)
             | None \<Rightarrow> Inl (TypeError ''int() argument'')))"

text \<open>\<open>f"{n:02d}"\<close>\<close>

definition two_digits :: "int \<Rightarrow> string" where
  "two_digits n = (if 0 \<le> n \<and> n < 10 then ''0'' @ int_str n else int_str n)"

definition profile_samples :: "(rat \<Rightarrow> string) \<Rightarrow> (string \<times> json) list \<Rightarrow> string \<Rightarrow> string list result" where
  "profile_samples g profiles profile =
     rbind (jmapping (jget profile profiles)) (\<lambda>values.
     rbind (rbind (jitem ''observed_detection_upper_bound_ms'' values) to_float) (\<lambda>detection.
     rbind (rbind (jitem ''packets_lost_until_failover'' values) to_int) (\<lambda>lost_packets.
     rbind (rbind (jitem ''capture_packet_loss_percent'' values) to_float) (\<lambda>loss.
       Inr [sample_line ''telconet_detection_seconds'' [label ''profile'' profile] (g (detection / 1000)),
         sample_line ''telconet_failover_lost_packets'' [label ''profile'' profile] (int_str lost_packets),
         sample_line ''telconet_capture_packet_loss_ratio'' [label ''profile'' profile] (g (loss / 100))]))))"

definition stat_sample :: "(rat \<Rightarrow> string) \<Rightarrow> string \<Rightarrow> (string \<times> json) list \<Rightarrow> string \<Rightarrow> string result" where
  "stat_sample g profile summary stat =
     rbind (rbind (jitem stat summary) to_float) (\<lambda>v.
       Inr (sample_line ''telconet_detection_summary_seconds'' [label ''profile'' profile, label ''stat'' stat] (g (v / 1000))))"

definition trial_sample :: "(rat \<Rightarrow> string) \<Rightarrow> string \<Rightarrow> json \<Rightarrow> string result" where
  "trial_sample g profile j =
     rbind (jmapping j) (\<lambda>trial.
     rbind (rbind (jitem ''trial'' trial) to_int) (\<lambda>trial_number.
     rbind (rbind (jitem ''detection_ms'' trial) to_float) (\<lambda>v.
       Inr (sample_line ''telconet_trial_detection_seconds''
         [label ''profile'' profile, label ''trial'' (two_digits trial_number)] (g (v / 1000))))))"

definition repeated_samples :: "(rat \<Rightarrow> string) \<Rightarrow> (string \<times> json) list \<Rightarrow> string \<Rightarrow> string list result" where
  "repeated_samples g profiles profile =
     rbind (rbind (jitem profile profiles) jmapping) (\<lambda>values.
     rbind (rbind (jitem ''detection_ms'' values) jmapping) (\<lambda>summary.
     rbind (traverse (stat_sample g profile summary) stat_names) (\<lambda>stats.
     rbind (rbind (jitem ''trials'' values) jlist) (\<lambda>trials.
     rbind (traverse (trial_sample g profile) trials) (\<lambda>samples.
       Inr (stats @ samples))))))"

definition render_experiment_metrics ::
  "(rat \<Rightarrow> string) \<Rightarrow> (string \<times> json) list \<Rightarrow> (string \<times> json) list option \<Rightarrow> string result" where
  "render_experiment_metrics g evidence repeated_evidence =
     rbind (validate_experiment_evidence evidence) (\<lambda>_.
     rbind (case repeated_evidence of None \<Rightarrow> Inr () | Some r \<Rightarrow> validate_repeated_experiment_evidence r) (\<lambda>_.
     rbind (rbind (jitem ''profiles'' evidence) jmapping) (\<lambda>profiles.
     rbind (traverse (profile_samples g profiles) profile_names) (\<lambda>samples.
     rbind (case repeated_evidence of
         None \<Rightarrow> Inr []
       | Some r \<Rightarrow>
           rbind (rbind (jitem ''profiles'' r) jmapping) (\<lambda>repeated_profiles.
           rbind (traverse (repeated_samples g repeated_profiles) profile_names) (\<lambda>rs.
             Inr ([help_line ''telconet_detection_summary_seconds'' ''Detection upper-bound summary across repeated trials.'',
               gauge_line ''telconet_detection_summary_seconds'',
               help_line ''telconet_trial_detection_seconds'' ''Detection upper bound for one repeated trial.'',
               gauge_line ''telconet_trial_detection_seconds''] @ concat rs)))) (\<lambda>repeated.
       Inr (joined_lines
         ([help_line ''telconet_detection_seconds'' ''Observed failure detection upper bound.'',
           gauge_line ''telconet_detection_seconds'',
           help_line ''telconet_failover_lost_packets'' ''Packets lost before failover became observable.'',
           gauge_line ''telconet_failover_lost_packets'',
           help_line ''telconet_capture_packet_loss_ratio'' ''Packet loss ratio for the full capture.'',
           gauge_line ''telconet_capture_packet_loss_ratio''] @ concat samples @ repeated)))))))"

section \<open>Validated evidence renders\<close>

lemma jitem_get: "jget k d \<noteq> JNull \<Longrightarrow> jitem k d = Inr (jget k d)"
  by (auto simp: jget_def jitem_def split: option.splits)

lemma nonnegative_number_Inr: "nonnegative_number name j = Inr u \<longleftrightarrow> (\<exists>r. jnumber j = Some r \<and> 0 \<le> r)"
  by (auto simp: nonnegative_number_def split: option.splits)

lemma number_float: "jnumber (jget k d) = Some r \<Longrightarrow> rbind (jitem k d) to_float = Inr r"
  by (subst jitem_get) (auto simp: jnumber_Some to_float_def)

lemma number_int: "jint (jget k d) = Some i \<Longrightarrow> rbind (jitem k d) to_int = Inr i"
  by (subst jitem_get) (auto simp: to_int_def split: json.splits elim!: jint.elims)

lemma equals_int_to_int:
  assumes "equals_int (jget k d) (int n)"
  shows "rbind (jitem k d) to_int = Inr (int n)"
proof -
  have "jget k d \<noteq> JNull" using assms by auto
  moreover have "to_int (jget k d) = Inr (int n)"
    using assms by (cases "jget k d") (auto simp: to_int_def split: if_splits)
  ultimately show ?thesis by (simp add: jitem_get)
qed

lemma profile_samples_total:
  assumes "validate_experiment_profile profiles profile = Inr ()"
  shows "\<exists>ls. profile_samples g profiles profile = Inr ls"
proof -
  from assms obtain values' where v: "jget profile profiles = JObject values'"
    by (auto simp: validate_experiment_profile_def split: json.splits)
  with assms obtain a b c where
    "jnumber (jget ''observed_detection_upper_bound_ms'' values') = Some a"
    "jint (jget ''packets_lost_until_failover'' values') = Some b"
    "jnumber (jget ''capture_packet_loss_percent'' values') = Some c"
    by (auto simp: validate_experiment_profile_def rbind_eq_Inr nonnegative_number_Inr)
  then show ?thesis
    by (simp add: profile_samples_def v jmapping_def number_float number_int)
qed

lemma trial_sample_total:
  assumes "validate_trial profile (n, j) = Inr ()"
  shows "\<exists>l. trial_sample g profile j = Inr l"
proof -
  from assms obtain trial where t: "j = JObject trial" by (auto simp: validate_trial_def split: json.splits)
  with assms obtain r where "equals_int (jget ''trial'' trial) (int n)" "jnumber (jget ''detection_ms'' trial) = Some r"
    by (auto simp: validate_trial_def rbind_eq_Inr nonnegative_number_Inr)
  then show ?thesis by (simp add: trial_sample_def t jmapping_def equals_int_to_int number_float)
qed

lemma traverse_succeeds:
  "(\<And>x. x \<in> set xs \<Longrightarrow> \<exists>y. f x = Inr y) \<Longrightarrow> \<exists>ys. traverse f xs = Inr ys"
proof (induction xs)
  case (Cons x xs)
  then obtain y ys where "f x = Inr y" "traverse f xs = Inr ys" by fastforce
  then show ?case by simp
qed simp

lemma repeated_samples_total:
  assumes "validate_repeated_profile profiles n profile = Inr ()"
  shows "\<exists>ls. repeated_samples g profiles profile = Inr ls"
proof -
  from assms obtain values' where v: "jget profile profiles = JObject values'"
    by (auto simp: validate_repeated_profile_def split: json.splits)
  with assms obtain summary where s: "jget ''detection_ms'' values' = JObject summary"
    by (auto simp: validate_repeated_profile_def split: json.splits)
  have checks: "each (\<lambda>stat. nonnegative_number (profile @ ''.detection_ms.'' @ stat) (jget stat summary)) stat_names = Inr ()"
    "\<exists>trials. jget ''trials'' values' = JArray trials \<and> each (validate_trial profile) (numbered_from_one trials) = Inr ()"
    using assms by (auto simp: validate_repeated_profile_def v s rbind_eq_Inr simp del: each.simps each_eq_Inr
      split: json.splits)
  then obtain trials where t: "jget ''trials'' values' = JArray trials"
    "each (validate_trial profile) (numbered_from_one trials) = Inr ()" by blast
  have "\<exists>y. stat_sample g profile summary stat = Inr y" if "stat \<in> set stat_names" for stat
  proof -
    have "nonnegative_number (profile @ ''.detection_ms.'' @ stat) (jget stat summary) = Inr ()"
      using checks(1) that by (simp add: each_eq_Inr)
    then obtain r where "jnumber (jget stat summary) = Some r" by (auto simp: nonnegative_number_Inr)
    then show ?thesis by (simp add: stat_sample_def number_float)
  qed
  then obtain stats where stats: "traverse (stat_sample g profile summary) stat_names = Inr stats"
    using traverse_succeeds by blast
  have "\<exists>y. trial_sample g profile j = Inr y" if j: "j \<in> set trials" for j
  proof -
    obtain i where "i < length trials" "trials ! i = j" using j by (auto simp: in_set_conv_nth)
    then have "(Suc i, j) \<in> set (numbered_from_one trials)"
      by (auto simp: numbered_from_one_def set_zip intro!: exI [of _ i] simp del: upt_Suc)
    then have "validate_trial profile (Suc i, j) = Inr ()" using t(2) by (simp add: each_eq_Inr)
    then show ?thesis using trial_sample_total by blast
  qed
  then obtain samples where samples: "traverse (trial_sample g profile) trials = Inr samples"
    using traverse_succeeds by blast
  show ?thesis
    using stats samples by (simp add: repeated_samples_def jitem_get v s t(1) jmapping_def jlist_def)
qed

lemma render_experiment_total:
  assumes "validate_experiment_evidence evidence = Inr ()"
    and "\<forall>r. repeated = Some r \<longrightarrow> validate_repeated_experiment_evidence r = Inr ()"
  shows "\<exists>text. render_experiment_metrics g evidence repeated = Inr text"
proof -
  from assms(1) obtain profiles where p: "jget ''profiles'' evidence = JObject profiles"
    "each (validate_experiment_profile profiles) profile_names = Inr ()"
    by (auto simp: validate_experiment_evidence_def simp del: each_eq_Inr split: json.splits)
  then have "\<exists>ls. profile_samples g profiles x = Inr ls" if "x \<in> set profile_names" for x
    using that profile_samples_total [of profiles x g] by (simp add: each_eq_Inr)
  then obtain samples where s: "traverse (profile_samples g profiles) profile_names = Inr samples"
    using traverse_succeeds by blast
  note base = p(1) s assms(1) jitem_get [of "''profiles''"] jmapping_def
  show ?thesis
  proof (cases repeated)
    case None
    then show ?thesis by (simp add: render_experiment_metrics_def base)
  next
    case (Some r)
    then have v: "validate_repeated_experiment_evidence r = Inr ()" using assms(2) by blast
    then obtain n ps where q: "jget ''profiles'' r = JObject ps"
      "each (validate_repeated_profile ps n) profile_names = Inr ()"
      by (auto simp: validate_repeated_experiment_evidence_def rbind_eq_Inr simp del: each_eq_Inr
        split: option.splits json.splits)
    then have "\<exists>ls. repeated_samples g ps x = Inr ls" if "x \<in> set profile_names" for x
      using that q(2) repeated_samples_total [of ps n x g] by (simp add: each_eq_Inr)
    then obtain rs where "traverse (repeated_samples g ps) profile_names = Inr rs"
      using traverse_succeeds by blast
    then show ?thesis using Some v q(1) by (simp add: render_experiment_metrics_def base)
  qed
qed

end
