(* ===== verification/Detection_Comparison.thy ===== *)
theory Detection_Comparison
  imports Measurement_Log Experiment_Metrics
begin

text \<open>
  \<open>bfd_comparison.py\<close>: the detection log of a blackhole, its result, and the comparison of
  the OSPF-only and the BFD profile that the server publishes. Rounding to two decimals is a
  parameter.
\<close>

section \<open>The detection log\<close>

record DetectionResult =
  dr_profile :: string
  dr_detector :: string
  dr_configured_ms :: int
  dr_capture_started_at :: string
  dr_configuration_sha256 :: string
  dr_bfd_peer_up :: bool
  dr_upper_bound_ms :: int
  dr_lost_packets :: int
  dr_capture_loss :: rat
  dr_transmitted :: int
  dr_received :: int
  dr_baseline :: StateBlock
  dr_failover :: StateBlock
  dr_event_epoch_ns :: int
  dr_changed_sequence :: int
  dr_changed_epoch_ns :: int

definition log_peer :: "LogPatterns \<Rightarrow> string \<Rightarrow> LogState \<Rightarrow> LogState" where
  "log_peer p line s =
     (case bfd_peer_row p line of
        None \<Rightarrow> s
      | Some (peer, status) \<Rightarrow>
          if peer = ''10.0.1.1'' then s\<lparr>log_peer_up := (map lower_ascii status = ''up'')\<rparr> else s)"

definition scan_detection_line :: "LogPatterns \<Rightarrow> LogState \<Rightarrow> nat \<times> string \<Rightarrow> LogState result" where
  "scan_detection_line p s numbered =
     (case numbered of (line_index, line) \<Rightarrow>
        if starts_with ''TELCONET_DETECTION_MEASUREMENT '' line then
          rbind (log_fields p line) (\<lambda>fields. Inr (s\<lparr>log_header := Some fields\<rparr>))
        else if starts_with ''STATE_BEGIN '' line then begin_state p line s
        else if starts_with ''STATE_END '' line then Inr (s\<lparr>log_active := None\<rparr>)
        else if starts_with ''EVENT '' line then log_event p line_index line s
        else log_sample p line_index line (log_peer p line s))"

definition replies_before :: "LogState \<Rightarrow> nat \<Rightarrow> PingReply list" where
  "replies_before s start_index = filter (\<lambda>r. rp_index r < start_index) (log_replies s)"

definition replies_during :: "LogState \<Rightarrow> nat \<Rightarrow> nat \<Rightarrow> PingReply list" where
  "replies_during s start_index end_index =
     filter (\<lambda>r. start_index < rp_index r \<and> rp_index r < end_index) (log_replies s)"

definition lost_until :: "PingReply list \<Rightarrow> PingReply list \<Rightarrow> PingReply \<Rightarrow> int" where
  "lost_until before during changed =
     (let last_pre_fault_sequence = rp_seq (last before);
          received_until_failover = int (length (filter (\<lambda>r. rp_seq r \<le> rp_seq changed) during));
          expected_until_failover = rp_seq changed - last_pre_fault_sequence
      in expected_until_failover - received_until_failover)"

definition detection_result ::
  "LogPatterns \<Rightarrow> string dict \<Rightarrow> LogState \<Rightarrow> int \<Rightarrow> int \<Rightarrow> PingReply \<Rightarrow> int \<times> int \<times> rat \<Rightarrow> DetectionResult result" where
  "detection_result p header s start_epoch_ns lost changed summary =
     (case (summary, map_of (log_states s) ''baseline'', map_of (log_states s) ''failover'') of
        ((sent, received, loss), Some baseline, Some failover) \<Rightarrow>
          rbind (text_item ''profile'' header) (\<lambda>profile.
          rbind (text_item ''detector'' header) (\<lambda>detector.
          rbind (rbind (text_item ''configured_detection_ms'' header) (int_of_text p)) (\<lambda>configured.
          rbind (text_item ''capture_started_at'' header) (\<lambda>capture_started_at.
          rbind (text_item ''configuration_sha256'' header) (\<lambda>configuration_sha256.
            Inr \<lparr>dr_profile = profile, dr_detector = detector, dr_configured_ms = configured,
              dr_capture_started_at = capture_started_at, dr_configuration_sha256 = configuration_sha256,
              dr_bfd_peer_up = log_peer_up s, dr_upper_bound_ms = upper_bound_ms (rp_ns changed - start_epoch_ns),
              dr_lost_packets = lost, dr_capture_loss = loss, dr_transmitted = sent, dr_received = received,
              dr_baseline = baseline, dr_failover = failover, dr_event_epoch_ns = start_epoch_ns,
              dr_changed_sequence = rp_seq changed, dr_changed_epoch_ns = rp_ns changed\<rparr>)))))
      | _ \<Rightarrow> Inl (KeyError ''state''))"

definition detected ::
  "LogPatterns \<Rightarrow> LogState \<Rightarrow> string dict \<Rightarrow> nat \<times> int \<Rightarrow> nat \<Rightarrow> int \<times> int \<times> rat \<Rightarrow> DetectionResult result" where
  "detected p s header start end_index summary =
     (let before = replies_before s (fst start); during = replies_during s (fst start) end_index in
      if before = [] \<or> during = []
      then Inl (ValueError ''detection log is missing ping samples around the blackhole'')
      else
        (case List.find (\<lambda>r. rp_ttl r \<noteq> most_common (map rp_ttl before)) during of
           None \<Rightarrow> Inl (ValueError ''detection log is missing an observable path transition'')
         | Some changed \<Rightarrow>
             rbind (ensure (0 \<le> rp_ns changed - snd start) ''path-change reply timestamp must follow the blackhole event'') (\<lambda>_.
             rbind (ensure (0 \<le> lost_until before during changed)
               ''ping sequences around failover must be monotonically increasing'') (\<lambda>_.
               detection_result p header s (snd start) (lost_until before during changed) changed summary))))"

definition parse_detection_log :: "LogPatterns \<Rightarrow> string list \<Rightarrow> DetectionResult result" where
  "parse_detection_log p lines =
     rbind (fold_res (scan_detection_line p) log_start (enumerated lines)) (\<lambda>s.
     let missing = missing_parts
       [(log_header s = None, ''header''),
        (keys_absent [''baseline'', ''failover''] (log_states s), ''state blocks''),
        (keys_absent [''blackhole_start'', ''blackhole_end''] (log_events s), ''event markers''),
        (log_summary s = None \<or> log_replies s = [], ''ping results'')] in
     rbind (ensure (missing = []) (''detection log is missing: '' @ join '', '' missing)) (\<lambda>_.
     case (log_header s, map_of (log_events s) ''blackhole_start'', map_of (log_events s) ''blackhole_end'', log_summary s) of
       (Some header, Some start, Some stop, Some summary) \<Rightarrow> detected p s header start (fst stop) summary
     | _ \<Rightarrow> Inl (RuntimeError ''AssertionError'')))"

definition detection_json :: "DetectionResult \<Rightarrow> json" where
  "detection_json d =
     JObject
       [(''profile'', JString (dr_profile d)), (''detector'', JString (dr_detector d)),
        (''configured_detection_ms'', JInt (dr_configured_ms d)),
        (''capture_started_at'', JString (dr_capture_started_at d)),
        (''configuration_sha256'', JString (dr_configuration_sha256 d)),
        (''bfd_peer_up'', JBool (dr_bfd_peer_up d)),
        (''observed_detection_upper_bound_ms'', JInt (dr_upper_bound_ms d)),
        (''packets_lost_until_failover'', JInt (dr_lost_packets d)),
        (''capture_packet_loss_percent'', JFloat (dr_capture_loss d)),
        (''packets_transmitted'', JInt (dr_transmitted d)), (''packets_received'', JInt (dr_received d)),
        (''baseline'', JObject (block_json (dr_baseline d))), (''failover'', JObject (block_json (dr_failover d))),
        (''fault'', JObject
          [(''mode'', JString ''remote_packet_blackhole''), (''event_epoch_ns'', JInt (dr_event_epoch_ns d)),
           (''first_changed_sequence'', JInt (dr_changed_sequence d)),
           (''first_changed_reply_epoch_ns'', JInt (dr_changed_epoch_ns d))])]"

section \<open>The comparison\<close>

text \<open>\<open>round((a - b) / a * 100, 2)\<close>; division by zero raises.\<close>

definition reduction_percent :: "(rat \<Rightarrow> rat) \<Rightarrow> rat \<Rightarrow> rat \<Rightarrow> rat result" where
  "reduction_percent round2 a b = (if a = 0 then Inl ZeroDivisionError else Inr (round2 ((a - b) / a * 100)))"

definition comparison_document :: "DetectionResult \<Rightarrow> DetectionResult \<Rightarrow> rat \<Rightarrow> rat \<Rightarrow> (string \<times> json) list" where
  "comparison_document ospf bfd time lost =
     [(''scenario'', JString ''remote_access_uplink_blackhole''),
      (''source'', JString ''containerlab_observation''), (''measured'', JBool True),
      (''profiles'', JObject [(''ospf_only'', detection_json ospf), (''bfd_100x3'', detection_json bfd)]),
      (''improvement'', JObject [(''detection_time_reduction_percent'', JFloat time),
        (''lost_packets_until_failover_reduction_percent'', JFloat lost)]),
      (''limitations'', jstrings
        [''The fault is emulated with tc netem in local Linux namespaces.'',
         ''Event markers precede tc commands, so observed bounds include command overhead.'',
         ''Results are a controlled comparison and are not production-network SLOs.''])]"

definition build_comparison :: "(rat \<Rightarrow> rat) \<Rightarrow> LogPatterns \<Rightarrow> string list \<Rightarrow> string list \<Rightarrow> (string \<times> json) list result" where
  "build_comparison round2 p ospf_log bfd_log =
     rbind (parse_detection_log p ospf_log) (\<lambda>ospf.
     rbind (parse_detection_log p bfd_log) (\<lambda>bfd.
     rbind (ensure (dr_profile ospf = ''ospf_only'' \<and> dr_profile bfd = ''bfd_100x3'')
       ''comparison requires ospf_only and bfd_100x3 profiles'') (\<lambda>_.
     rbind (ensure (dr_configuration_sha256 ospf = dr_configuration_sha256 bfd)
       ''comparison logs must use the same base configuration'') (\<lambda>_.
     rbind (ensure (\<not> dr_bfd_peer_up ospf) ''ospf_only profile must not have an up BFD peer'') (\<lambda>_.
     rbind (ensure (dr_bfd_peer_up bfd) ''bfd_100x3 profile requires an observed up BFD peer'') (\<lambda>_.
     rbind (reduction_percent round2 (of_int (dr_upper_bound_ms ospf)) (of_int (dr_upper_bound_ms bfd))) (\<lambda>time.
     rbind (if dr_lost_packets ospf \<noteq> 0
            then reduction_percent round2 (of_int (dr_lost_packets ospf)) (of_int (dr_lost_packets bfd)) else Inr 0) (\<lambda>lost.
       Inr (comparison_document ospf bfd time lost)))))))))"

section \<open>What a result says\<close>

lemma scan_detection_ordered:
  assumes "fold_res (scan_detection_line p) log_start (enumerated lines) = Inr s"
  shows "replies_ordered (length lines) s"
proof (rule scan_ordered [OF _ assms])
  fix i line s t assume o: "replies_ordered i s" and r: "scan_detection_line p s (i, line) = Inr t"
  have same: "log_replies (log_peer p line s) = log_replies s"
    by (auto simp: log_peer_def split: option.splits)
  then have "replies_ordered i (log_peer p line s)" using o by (simp add: replies_ordered_def)
  then show "replies_ordered (Suc i) t"
    using r o by (auto simp: scan_detection_line_def rbind_eq_Inr split: if_splits
      intro: log_sample_ordered replies_ordered_other dest: begin_state_replies log_event_replies)
qed

lemma detection_result_fields:
  assumes "detection_result p header s epoch lost changed summary = Inr d"
  shows "dr_upper_bound_ms d = upper_bound_ms (rp_ns changed - epoch) \<and> dr_lost_packets d = lost \<and>
    dr_event_epoch_ns d = epoch \<and> dr_changed_sequence d = rp_seq changed \<and> dr_changed_epoch_ns d = rp_ns changed \<and>
    dr_capture_loss d = snd (snd summary) \<and> map_of header ''profile'' = Some (dr_profile d) \<and>
    dr_bfd_peer_up d = log_peer_up s"
  using assms by (auto simp: detection_result_def text_item_def rbind_eq_Inr split: prod.splits option.splits)

lemma detected_Inr:
  assumes "detected p s header start stop summary = Inr d" "replies_ordered n s"
  shows "\<exists>changed \<in> set (replies_during s (fst start) stop).
    replies_before s (fst start) \<noteq> [] \<and>
    rp_ttl changed \<noteq> most_common (map rp_ttl (replies_before s (fst start))) \<and>
    (\<forall>r \<in> set (replies_during s (fst start) stop). rp_index r < rp_index changed \<longrightarrow>
      rp_ttl r = most_common (map rp_ttl (replies_before s (fst start)))) \<and>
    dr_changed_epoch_ns d = rp_ns changed \<and> dr_event_epoch_ns d = snd start \<and> snd start \<le> rp_ns changed \<and>
    dr_upper_bound_ms d = upper_bound_ms (rp_ns changed - snd start) \<and>
    dr_lost_packets d = lost_until (replies_before s (fst start)) (replies_during s (fst start) stop) changed \<and>
    0 \<le> dr_lost_packets d \<and> dr_capture_loss d = snd (snd summary)"
proof -
  let ?before = "replies_before s (fst start)" and ?during = "replies_during s (fst start) stop"
  let ?ttl = "most_common (map rp_ttl ?before)"
  from assms(1) have ne: "?before \<noteq> []" by (auto simp: detected_def Let_def split: if_splits)
  from assms(1) obtain changed where c: "List.find (\<lambda>r. rp_ttl r \<noteq> ?ttl) ?during = Some changed"
    and ok: "snd start \<le> rp_ns changed" "0 \<le> lost_until ?before ?during changed"
    and r: "detection_result p header s (snd start) (lost_until ?before ?during changed) changed summary = Inr d"
    by (auto simp: detected_def Let_def rbind_eq_Inr split: if_splits option.splits)
  have "sorted_wrt (\<lambda>a b. rp_index a < rp_index b) ?during"
    using assms(2) by (simp add: replies_ordered_def replies_during_def sorted_wrt_filter)
  from find_sorted_first [OF c this] have first: "changed \<in> set ?during" "rp_ttl changed \<noteq> ?ttl"
    "\<forall>r \<in> set ?during. rp_ttl r \<noteq> ?ttl \<longrightarrow> rp_index changed \<le> rp_index r" by auto
  show ?thesis
    by (intro bexI [OF _ first(1)]) (use ne first(2,3) ok detection_result_fields [OF r] in \<open>auto simp: not_le [symmetric]\<close>)
qed

lemma parse_detection_Inr:
  assumes "parse_detection_log p lines = Inr d"
  obtains s header start stop summary where
    "fold_res (scan_detection_line p) log_start (enumerated lines) = Inr s"
    "map_of (log_events s) ''blackhole_start'' = Some start"
    "map_of (log_events s) ''blackhole_end'' = Some stop"
    "log_summary s = Some summary"
    "detected p s header start (fst stop) summary = Inr d"
proof -
  from assms obtain s where s: "fold_res (scan_detection_line p) log_start (enumerated lines) = Inr s"
    and r: "(case (log_header s, map_of (log_events s) ''blackhole_start'', map_of (log_events s) ''blackhole_end'',
        log_summary s) of
       (Some header, Some start, Some stop, Some summary) \<Rightarrow> detected p s header start (fst stop) summary
     | _ \<Rightarrow> Inl (RuntimeError ''AssertionError'')) = Inr d"
    by (auto simp: parse_detection_log_def rbind_eq_Inr Let_def)
  show thesis
    using r s that
    by (cases "log_header s"; cases "map_of (log_events s) ''blackhole_start''";
        cases "map_of (log_events s) ''blackhole_end''"; cases "log_summary s") auto
qed

lemma parse_detection_facts:
  assumes "parse_detection_log p lines = Inr d"
  shows "0 \<le> dr_upper_bound_ms d \<and> 0 \<le> dr_lost_packets d"
proof -
  from assms obtain s header start stop summary where
    s: "fold_res (scan_detection_line p) log_start (enumerated lines) = Inr s"
    and ev: "map_of (log_events s) ''blackhole_end'' = Some stop"
    and d: "detected p s header start (fst stop) summary = Inr d"
    by (rule parse_detection_Inr)
  from detected_Inr [OF d scan_detection_ordered [OF s]] show ?thesis
    by (auto intro!: upper_bound_ms_least(1))
qed

section \<open>An example\<close>

text \<open>A log of eleven lines, with the patterns given on these lines.\<close>

definition example_words :: "string \<Rightarrow> string list" where
  "example_words line = foldr (\<lambda>c ws. if c = CHR '' '' then [] # ws else (c # hd ws) # tl ws) line [[]]"

definition example_number :: "string \<Rightarrow> int" where
  "example_number t = foldl (\<lambda>n c. n * 10 + (of_char c - 48)) 0 t"

definition example_patterns :: LogPatterns where
  "example_patterns =
     \<lparr>shlex_split = (\<lambda>line. Inr (example_words line)),
      ping_reply = map_of [(''reply-1'', (''1'', ''0'', ''1'', ''62'')), (''reply-2'', (''3'', ''0'', ''2'', ''62'')),
        (''reply-4'', (''6'', ''5'', ''4'', ''60''))],
      ping_summary = map_of [(''summary'', (''4'', ''3'', ''25''))],
      metric_text = (\<lambda>_. None), trace_hop = (\<lambda>_. None),
      bfd_peer_row = map_of [(''peer up'', (''10.0.1.1'', ''Up''))],
      int_of_text = (\<lambda>t. Inr (example_number t)), float_of_text = (\<lambda>t. Inr (of_int (example_number t)))\<rparr>"

definition example_log :: "string \<Rightarrow> string list \<Rightarrow> string list" where
  "example_log profile peers =
     [''TELCONET_DETECTION_MEASUREMENT profile='' @ profile @
        '' detector=d configured_detection_ms=300 capture_started_at=t configuration_sha256=h'',
      ''STATE_BEGIN name=baseline'', ''STATE_BEGIN name=failover'', ''STATE_END failover''] @ peers @
     [''reply-1'', ''EVENT type=blackhole_start epoch_ns=2000000000'', ''reply-2'', ''reply-4'',
      ''EVENT type=blackhole_end epoch_ns=9000000000'', ''summary'']"

lemma example_detections:
  "(case parse_detection_log example_patterns (example_log ''ospf_only'' []) of
      Inr d \<Rightarrow> (dr_upper_bound_ms d, dr_lost_packets d, dr_profile d, dr_configuration_sha256 d, dr_bfd_peer_up d, dr_capture_loss d) =
        (4500, 1, ''ospf_only'', ''h'', False, 25) | Inl _ \<Rightarrow> False)"
  "(case parse_detection_log example_patterns (example_log ''bfd_100x3'' [''peer up'']) of
      Inr d \<Rightarrow> (dr_profile d, dr_configuration_sha256 d, dr_bfd_peer_up d, dr_capture_loss d) =
        (''bfd_100x3'', ''h'', True, 25) | Inl _ \<Rightarrow> False)"
  by code_simp+

section \<open>Properties\<close>

text \<open>
  C31: A detection result is read off the log as it should be: the reply it names lies between
  the two blackhole markers, is the first there whose TTL differs from the most common one
  before the fault, and is not older than the start marker; the bound in milliseconds is the
  least that covers the time between the two; and the packets lost are the sequence numbers up
  to that reply that were not received, never a negative number.
\<close>

theorem detection_first_change:
  assumes "parse_detection_log p lines = Inr d"
  shows "\<exists>s start stop changed.
    fold_res (scan_detection_line p) log_start (enumerated lines) = Inr s \<and>
    map_of (log_events s) ''blackhole_start'' = Some start \<and> map_of (log_events s) ''blackhole_end'' = Some stop \<and>
    changed \<in> set (log_replies s) \<and> fst start < rp_index changed \<and> rp_index changed < fst stop \<and>
    replies_before s (fst start) \<noteq> [] \<and>
    rp_ttl changed \<noteq> most_common (map rp_ttl (replies_before s (fst start))) \<and>
    (\<forall>r \<in> set (log_replies s). fst start < rp_index r \<and> rp_index r < rp_index changed \<longrightarrow>
      rp_ttl r = most_common (map rp_ttl (replies_before s (fst start)))) \<and>
    dr_changed_epoch_ns d = rp_ns changed \<and> dr_event_epoch_ns d = snd start \<and>
    rp_ns changed - snd start \<le> dr_upper_bound_ms d * 1000000 \<and>
    (dr_upper_bound_ms d - 1) * 1000000 < rp_ns changed - snd start \<and> 0 \<le> dr_upper_bound_ms d \<and>
    dr_lost_packets d = rp_seq changed - rp_seq (last (replies_before s (fst start))) -
      int (length (filter (\<lambda>r. rp_seq r \<le> rp_seq changed) (replies_during s (fst start) (fst stop)))) \<and>
    0 \<le> dr_lost_packets d"
proof -
  from assms obtain s header start stop summary where
    s: "fold_res (scan_detection_line p) log_start (enumerated lines) = Inr s"
    and ev: "map_of (log_events s) ''blackhole_start'' = Some start" "map_of (log_events s) ''blackhole_end'' = Some stop"
    and d: "detected p s header start (fst stop) summary = Inr d"
    by (rule parse_detection_Inr)
  from detected_Inr [OF d scan_detection_ordered [OF s]] obtain changed where
    c: "changed \<in> set (replies_during s (fst start) (fst stop))" "replies_before s (fst start) \<noteq> []"
      "rp_ttl changed \<noteq> most_common (map rp_ttl (replies_before s (fst start)))"
      "\<forall>r \<in> set (replies_during s (fst start) (fst stop)). rp_index r < rp_index changed \<longrightarrow>
        rp_ttl r = most_common (map rp_ttl (replies_before s (fst start)))"
    and e: "dr_changed_epoch_ns d = rp_ns changed" "dr_event_epoch_ns d = snd start" "snd start \<le> rp_ns changed"
      "dr_upper_bound_ms d = upper_bound_ms (rp_ns changed - snd start)"
      "dr_lost_packets d = lost_until (replies_before s (fst start)) (replies_during s (fst start) (fst stop)) changed"
      "0 \<le> dr_lost_packets d" by auto
  have ub: "0 \<le> dr_upper_bound_ms d" "rp_ns changed - snd start \<le> dr_upper_bound_ms d * 1000000"
    "(dr_upper_bound_ms d - 1) * 1000000 < rp_ns changed - snd start"
    using upper_bound_ms_least [of "rp_ns changed - snd start"] e(3,4) by simp_all
  have m: "changed \<in> set (log_replies s)" "fst start < rp_index changed" "rp_index changed < fst stop"
    "\<forall>r \<in> set (log_replies s). fst start < rp_index r \<and> rp_index r < rp_index changed \<longrightarrow>
      rp_ttl r = most_common (map rp_ttl (replies_before s (fst start)))"
    using c(1,4) by (auto simp: replies_during_def)
  show ?thesis
    by (intro exI [of _ s] exI [of _ start] exI [of _ stop] exI [of _ changed])
       (use s ev c(2,3) m e(1,2,5,6) ub in \<open>simp add: lost_until_def Let_def\<close>)
qed

theorem detection_first_change_witness:
  "\<exists>d s changed. parse_detection_log example_patterns (example_log ''ospf_only'' []) = Inr d \<and>
    fold_res (scan_detection_line example_patterns) log_start (enumerated (example_log ''ospf_only'' [])) = Inr s \<and>
    changed \<in> set (log_replies s) \<and> dr_changed_epoch_ns d = rp_ns changed \<and> dr_upper_bound_ms d = 4500"
proof -
  obtain d where d: "parse_detection_log example_patterns (example_log ''ospf_only'' []) = Inr d"
    and f: "dr_upper_bound_ms d = 4500"
    using example_detections(1) by (auto split: sum.splits)
  show ?thesis using detection_first_change [OF d] d f by blast
qed

text \<open>
  Two logs that parse are compared exactly when they are an OSPF-only and a BFD log with
  the same configuration, no BFD peer up in the first and one up in the second, and the OSPF
  bound is not 0 ms: with a bound of 0 the comparison ends in a ZeroDivisionError.
\<close>

theorem comparison_outcome:
  assumes "parse_detection_log p ospf_log = Inr ospf" "parse_detection_log p bfd_log = Inr bfd"
  shows "build_comparison round2 p ospf_log bfd_log =
    (if dr_profile ospf \<noteq> ''ospf_only'' \<or> dr_profile bfd \<noteq> ''bfd_100x3''
     then Inl (ValueError ''comparison requires ospf_only and bfd_100x3 profiles'')
     else if dr_configuration_sha256 ospf \<noteq> dr_configuration_sha256 bfd
     then Inl (ValueError ''comparison logs must use the same base configuration'')
     else if dr_bfd_peer_up ospf then Inl (ValueError ''ospf_only profile must not have an up BFD peer'')
     else if \<not> dr_bfd_peer_up bfd then Inl (ValueError ''bfd_100x3 profile requires an observed up BFD peer'')
     else if dr_upper_bound_ms ospf = 0 then Inl ZeroDivisionError
     else Inr (comparison_document ospf bfd
       (round2 ((of_int (dr_upper_bound_ms ospf) - of_int (dr_upper_bound_ms bfd)) / of_int (dr_upper_bound_ms ospf) * 100))
       (if dr_lost_packets ospf = 0 then 0
        else round2 ((of_int (dr_lost_packets ospf) - of_int (dr_lost_packets bfd)) / of_int (dr_lost_packets ospf) * 100))))"
  using assms by (auto simp: build_comparison_def reduction_percent_def ensure_def)

theorem comparison_outcome_witness:
  "\<exists>doc. build_comparison (\<lambda>r. r) example_patterns (example_log ''ospf_only'' [])
     (example_log ''bfd_100x3'' [''peer up'']) = Inr doc"
proof -
  obtain ospf bfd where o: "parse_detection_log example_patterns (example_log ''ospf_only'' []) = Inr ospf"
      "parse_detection_log example_patterns (example_log ''bfd_100x3'' [''peer up'']) = Inr bfd"
    and f: "dr_upper_bound_ms ospf = 4500" "dr_profile ospf = ''ospf_only''" "dr_configuration_sha256 ospf = ''h''"
      "\<not> dr_bfd_peer_up ospf" "dr_profile bfd = ''bfd_100x3''" "dr_configuration_sha256 bfd = ''h''" "dr_bfd_peer_up bfd"
    using example_detections by (auto split: sum.splits)
  show ?thesis using comparison_outcome [OF o, of "\<lambda>r. r"] f by simp
qed

lemma comparison_valid:
  "validate_experiment_evidence (comparison_document ospf bfd time lost) = Inr () \<longleftrightarrow>
    (0 \<le> dr_upper_bound_ms ospf \<and> 0 \<le> dr_lost_packets ospf \<and> 0 \<le> dr_capture_loss ospf \<and> dr_capture_loss ospf \<le> 100) \<and>
    (0 \<le> dr_upper_bound_ms bfd \<and> 0 \<le> dr_lost_packets bfd \<and> 0 \<le> dr_capture_loss bfd \<and> dr_capture_loss bfd \<le> 100)"
  by (simp add: validate_experiment_evidence_def comparison_document_def jget_def profile_names_def
    validate_experiment_profile_def detection_json_def rbind_eq_Inr nonnegative_number_def
    del: each_eq_Inr)

lemma example_comparison:
  "\<exists>doc page. build_comparison (\<lambda>r. r) example_patterns (example_log ''ospf_only'' [])
     (example_log ''bfd_100x3'' [''peer up'']) = Inr doc \<and>
     render_experiment_metrics (\<lambda>_. ''0'') doc None = Inr page"
proof -
  obtain ospf bfd where o: "parse_detection_log example_patterns (example_log ''ospf_only'' []) = Inr ospf"
      "parse_detection_log example_patterns (example_log ''bfd_100x3'' [''peer up'']) = Inr bfd"
    and f: "dr_upper_bound_ms ospf = 4500" "dr_profile ospf = ''ospf_only''" "dr_configuration_sha256 ospf = ''h''"
      "\<not> dr_bfd_peer_up ospf" "dr_profile bfd = ''bfd_100x3''" "dr_configuration_sha256 bfd = ''h''" "dr_bfd_peer_up bfd"
      "dr_capture_loss ospf = 25" "dr_capture_loss bfd = 25"
    using example_detections by (auto split: sum.splits)
  obtain time lost where doc: "build_comparison (\<lambda>r. r) example_patterns (example_log ''ospf_only'' [])
     (example_log ''bfd_100x3'' [''peer up'']) = Inr (comparison_document ospf bfd time lost)"
    by (cases "dr_lost_packets ospf = 0") (use o f in \<open>simp_all add: build_comparison_def reduction_percent_def\<close>)
  have "validate_experiment_evidence (comparison_document ospf bfd time lost) = Inr ()"
    using parse_detection_facts [OF o(1)] parse_detection_facts [OF o(2)] f by (simp add: comparison_valid)
  from render_experiment_total [OF this, of None] doc show ?thesis by auto
qed

text \<open>
  C32: A comparison the builder publishes is one the server can serve: its metrics page renders
  exactly when the packet loss of both captures is a percentage between 0 and 100; every other
  condition of the server's validation follows from how the builder reads the logs.
\<close>

theorem comparison_rendered:
  assumes "build_comparison round2 p ospf_log bfd_log = Inr evidence"
    and "parse_detection_log p ospf_log = Inr ospf" "parse_detection_log p bfd_log = Inr bfd"
  shows "(\<exists>page. render_experiment_metrics g evidence None = Inr page) \<longleftrightarrow>
    0 \<le> dr_capture_loss ospf \<and> dr_capture_loss ospf \<le> 100 \<and> 0 \<le> dr_capture_loss bfd \<and> dr_capture_loss bfd \<le> 100"
proof -
  from assms obtain time lost where e: "evidence = comparison_document ospf bfd time lost"
    by (auto simp: build_comparison_def rbind_eq_Inr)
  have "(\<exists>page. render_experiment_metrics g evidence None = Inr page) \<longleftrightarrow> validate_experiment_evidence evidence = Inr ()"
    using render_experiment_total [of evidence None g] by (auto simp: render_experiment_metrics_def rbind_eq_Inr)
  then show ?thesis
    using parse_detection_facts [OF assms(2)] parse_detection_facts [OF assms(3)] by (auto simp: e comparison_valid)
qed

theorem comparison_rendered_witness:
  "\<exists>doc ospf bfd page. build_comparison (\<lambda>r. r) example_patterns (example_log ''ospf_only'' [])
     (example_log ''bfd_100x3'' [''peer up'']) = Inr doc \<and>
     parse_detection_log example_patterns (example_log ''ospf_only'' []) = Inr ospf \<and>
     parse_detection_log example_patterns (example_log ''bfd_100x3'' [''peer up'']) = Inr bfd \<and>
     render_experiment_metrics (\<lambda>_. ''0'') doc None = Inr page"
proof -
  obtain ospf bfd where o: "parse_detection_log example_patterns (example_log ''ospf_only'' []) = Inr ospf"
      "parse_detection_log example_patterns (example_log ''bfd_100x3'' [''peer up'']) = Inr bfd"
    and f: "dr_upper_bound_ms ospf = 4500" "dr_profile ospf = ''ospf_only''" "dr_configuration_sha256 ospf = ''h''"
      "\<not> dr_bfd_peer_up ospf" "dr_profile bfd = ''bfd_100x3''" "dr_configuration_sha256 bfd = ''h''" "dr_bfd_peer_up bfd"
      "dr_capture_loss ospf = 25" "dr_capture_loss bfd = 25"
    using example_detections by (auto split: sum.splits)
  obtain doc where doc: "build_comparison (\<lambda>r. r) example_patterns (example_log ''ospf_only'' [])
     (example_log ''bfd_100x3'' [''peer up'']) = Inr doc"
    by (cases "dr_lost_packets ospf = 0") (use o f in \<open>simp_all add: build_comparison_def reduction_percent_def\<close>)
  show ?thesis using comparison_rendered [OF doc o, of "\<lambda>_. ''0''"] doc o f by auto
qed

end
