(* ===== verification/Repeated_Trials.thy ===== *)
theory Repeated_Trials
  imports Detection_Comparison
begin

text \<open>
  \<open>repeated_trials.py\<close>: the summary of repeated detection trials of both profiles. The
  numbers of a summary keep their Python type, as the published document shows it; a float is
  a rational and rounding to two decimals is a parameter.
\<close>

section \<open>Numbers\<close>

datatype number = NInt int | NFloat rat

fun number_value :: "number \<Rightarrow> rat" where
  "number_value (NInt i) = of_int i"
| "number_value (NFloat r) = r"

fun number_json :: "number \<Rightarrow> json" where
  "number_json (NInt i) = JInt i"
| "number_json (NFloat r) = JFloat r"

text \<open>\<open>ordered[math.ceil(percentile * len(ordered)) - 1]\<close>\<close>

definition nearest_rank :: "number list \<Rightarrow> rat \<Rightarrow> number" where
  "nearest_rank values' percentile =
     (let ordered = sort_key number_value values'; rank = \<lceil>percentile * of_nat (length ordered)\<rceil>
      in ordered ! nat (rank - 1))"

text \<open>\<open>statistics.median\<close>: the middle value, or the mean of the middle two, which is a float.\<close>

definition median :: "number list \<Rightarrow> number" where
  "median values' =
     (let ordered = sort_key number_value values'; n = length ordered
      in if odd n then ordered ! (n div 2)
         else NFloat ((number_value (ordered ! (n div 2 - 1)) + number_value (ordered ! (n div 2))) / 2))"

fun is_int :: "number \<Rightarrow> bool" where
  "is_int (NInt i) = True"
| "is_int (NFloat r) = False"

text \<open>
  \<open>round(statistics.mean(values), 2)\<close>: the mean of integers is an integer when it is whole.
\<close>

definition rounded_mean :: "(rat \<Rightarrow> rat) \<Rightarrow> number list \<Rightarrow> number" where
  "rounded_mean round2 values' =
     (let mean = sum_list (map number_value values') / of_nat (length values')
      in if list_all is_int values' \<and> of_int \<lfloor>mean\<rfloor> = mean then NInt \<lfloor>mean\<rfloor>
         else NFloat (round2 mean))"

definition summary_of :: "(rat \<Rightarrow> rat) \<Rightarrow> number list \<Rightarrow> (string \<times> number) list result" where
  "summary_of round2 values' =
     (if values' = [] then Inl (ValueError ''min() arg is an empty sequence'')
      else Inr
        [(''min'', hd (sort_key number_value values')), (''p50'', median values'),
         (''p95'', nearest_rank values' (95 / 100)), (''max'', hd (sorted_desc number_value values')),
         (''mean'', rounded_mean round2 values')])"

section \<open>The trials of a profile\<close>

record Trial =
  trial_number :: nat
  trial_source :: string
  trial_detection_ms :: int
  trial_lost_packets :: int
  trial_capture_loss :: rat

definition add_trial ::
  "LogPatterns \<Rightarrow> string \<Rightarrow> string option \<times> Trial list \<Rightarrow> nat \<times> string \<times> string list \<Rightarrow> (string option \<times> Trial list) result" where
  "add_trial p profile acc numbered =
     (case (acc, numbered) of ((configuration_sha256, trials), (trial, source, raw_log)) \<Rightarrow>
        rbind (parse_detection_log p raw_log) (\<lambda>parsed.
        rbind (ensure (dr_profile parsed = profile) (''expected '' @ profile @ '' log, got '' @ dr_profile parsed)) (\<lambda>_.
        rbind (ensure (\<not> (profile = ''bfd_100x3'' \<and> \<not> dr_bfd_peer_up parsed))
          ''BFD repeated trial requires an observed up BFD peer'') (\<lambda>_.
        rbind (ensure (\<not> (profile = ''ospf_only'' \<and> dr_bfd_peer_up parsed))
          ''OSPF-only repeated trial must not have an up BFD peer'') (\<lambda>_.
        rbind (case configuration_sha256 of
            None \<Rightarrow> Inr (dr_configuration_sha256 parsed)
          | Some sha \<Rightarrow>
              rbind (ensure (dr_configuration_sha256 parsed = sha) ''repeated trials must use one base configuration'') (\<lambda>_.
                Inr sha)) (\<lambda>sha.
          Inr (Some sha, trials @
            [\<lparr>trial_number = trial, trial_source = source, trial_detection_ms = dr_upper_bound_ms parsed,
              trial_lost_packets = dr_lost_packets parsed, trial_capture_loss = dr_capture_loss parsed\<rparr>])))))))"

record ProfileSummary =
  ps_configuration_sha256 :: "string option"
  ps_detection_ms :: "(string \<times> number) list"
  ps_lost_packets :: "(string \<times> number) list"
  ps_capture_loss :: "(string \<times> number) list"
  ps_trials :: "Trial list"

definition profile_summary ::
  "(rat \<Rightarrow> rat) \<Rightarrow> LogPatterns \<Rightarrow> string \<Rightarrow> (string \<times> string list) list \<Rightarrow> ProfileSummary result" where
  "profile_summary round2 p profile logs =
     rbind (fold_res (add_trial p profile) (None, []) (numbered_from_one logs)) (\<lambda>(sha, trials).
     rbind (summary_of round2 (map (\<lambda>t. NInt (trial_detection_ms t)) trials)) (\<lambda>detection.
     rbind (summary_of round2 (map (\<lambda>t. NInt (trial_lost_packets t)) trials)) (\<lambda>lost.
     rbind (summary_of round2 (map (\<lambda>t. NFloat (trial_capture_loss t)) trials)) (\<lambda>loss.
       Inr \<lparr>ps_configuration_sha256 = sha, ps_detection_ms = detection, ps_lost_packets = lost,
         ps_capture_loss = loss, ps_trials = trials\<rparr>))))"

definition summary_json :: "(string \<times> number) list \<Rightarrow> json" where
  "summary_json s = JObject (map (\<lambda>(k, v). (k, number_json v)) s)"

definition trial_json :: "Trial \<Rightarrow> json" where
  "trial_json t =
     JObject
       [(''trial'', JInt (int (trial_number t))), (''source'', JString (trial_source t)),
        (''detection_ms'', JInt (trial_detection_ms t)), (''lost_packets'', JInt (trial_lost_packets t)),
        (''capture_loss_percent'', JFloat (trial_capture_loss t))]"

definition sha_json :: "string option \<Rightarrow> json" where
  "sha_json sha = (case sha of None \<Rightarrow> JNull | Some s \<Rightarrow> JString s)"

definition profile_json :: "ProfileSummary \<Rightarrow> json" where
  "profile_json s =
     JObject
       [(''configuration_sha256'', sha_json (ps_configuration_sha256 s)),
        (''detection_ms'', summary_json (ps_detection_ms s)), (''lost_packets'', summary_json (ps_lost_packets s)),
        (''capture_loss_percent'', summary_json (ps_capture_loss s)), (''trials'', JArray (map trial_json (ps_trials s)))]"

section \<open>The evidence\<close>

definition summary_float :: "string \<Rightarrow> (string \<times> number) list \<Rightarrow> rat result" where
  "summary_float key s = (case map_of s key of None \<Rightarrow> Inl (KeyError key) | Some v \<Rightarrow> Inr (number_value v))"

definition repeated_document :: "int \<Rightarrow> ProfileSummary \<Rightarrow> ProfileSummary \<Rightarrow> rat \<Rightarrow> rat \<Rightarrow> (string \<times> json) list" where
  "repeated_document trial_count ospf bfd p50 p95 =
     [(''scenario'', JString ''remote_access_uplink_blackhole_repeated''),
      (''source'', JString ''containerlab_repeated_observation''), (''measured'', JBool True),
      (''trial_count_per_profile'', JInt trial_count),
      (''environment'', JObject [(''configuration_sha256'', sha_json (ps_configuration_sha256 ospf))]),
      (''profiles'', JObject [(''ospf_only'', profile_json ospf), (''bfd_100x3'', profile_json bfd)]),
      (''improvement'', JObject [(''p50_detection_reduction_percent'', JFloat p50),
        (''p95_detection_reduction_percent'', JFloat p95)]),
      (''limitations'', jstrings
        [''Trials run sequentially in one local containerlab deployment.'',
         ''The 100 ms probe interval makes detection values upper bounds.'',
         ''Results are controlled local observations, not production-network SLOs.''])]"

definition build_repeated_evidence ::
  "(rat \<Rightarrow> rat) \<Rightarrow> LogPatterns \<Rightarrow> (string \<times> string list) list \<Rightarrow> (string \<times> string list) list \<Rightarrow> (string \<times> json) list result" where
  "build_repeated_evidence round2 p ospf_logs bfd_logs =
     rbind (ensure (length ospf_logs = length bfd_logs) ''repeated profiles must contain the same number of trials'') (\<lambda>_.
     rbind (ensure (20 \<le> length ospf_logs) ''repeated evidence requires at least 20 trials per profile'') (\<lambda>_.
     rbind (ensure (length ospf_logs \<le> 30) ''repeated evidence supports at most 30 trials per profile'') (\<lambda>_.
     rbind (profile_summary round2 p ''ospf_only'' ospf_logs) (\<lambda>ospf.
     rbind (profile_summary round2 p ''bfd_100x3'' bfd_logs) (\<lambda>bfd.
     rbind (ensure (ps_configuration_sha256 ospf = ps_configuration_sha256 bfd)
       ''both repeated profiles must use one base configuration'') (\<lambda>_.
     rbind (summary_float ''p50'' (ps_detection_ms ospf)) (\<lambda>ospf_p50.
     rbind (summary_float ''p95'' (ps_detection_ms ospf)) (\<lambda>ospf_p95.
     rbind (summary_float ''p50'' (ps_detection_ms bfd)) (\<lambda>bfd_p50.
     rbind (summary_float ''p95'' (ps_detection_ms bfd)) (\<lambda>bfd_p95.
     rbind (reduction_percent round2 ospf_p50 bfd_p50) (\<lambda>p50.
     rbind (reduction_percent round2 ospf_p95 bfd_p95) (\<lambda>p95.
       Inr (repeated_document (int (length ospf_logs)) ospf bfd p50 p95)))))))))))))"

section \<open>Ranks\<close>

lemma sorted_nth_counts:
  assumes "sorted (map f xs)" "i < length xs"
  shows "Suc i \<le> length (filter (\<lambda>x. f x \<le> f (xs ! i)) xs)"
    and "length (filter (\<lambda>x. f x < f (xs ! i)) xs) \<le> i"
proof -
  let ?le = "{j. j < length xs \<and> f (xs ! j) \<le> f (xs ! i)}" and ?lt = "{j. j < length xs \<and> f (xs ! j) < f (xs ! i)}"
  have mono: "f (xs ! j) \<le> f (xs ! k)" if "j \<le> k" "k < length xs" for j k
    using assms(1) that by (auto simp: sorted_iff_nth_mono)
  have "{..i} \<subseteq> ?le" using mono assms(2) by auto
  then have "card {..i} \<le> card ?le" by (intro card_mono) auto
  then show "Suc i \<le> length (filter (\<lambda>x. f x \<le> f (xs ! i)) xs)" by (simp add: length_filter_conv_card)
  have "?lt \<subseteq> {..<i}" using mono by (auto simp: not_le [symmetric])
  then have "card ?lt \<le> card {..<i}" by (intro card_mono) auto
  then show "length (filter (\<lambda>x. f x < f (xs ! i)) xs) \<le> i" by (simp add: length_filter_conv_card)
qed

lemma filter_sort_key_length: "length (filter P (sort_key f xs)) = length (filter P xs)"
proof -
  have "mset (filter P (sort_key f xs)) = mset (filter P xs)" by simp
  then show ?thesis by (metis size_mset)
qed

lemma rank_index:
  assumes "0 < q" "q \<le> 1" "0 < n"
  shows "nat (\<lceil>q * of_nat n\<rceil> - 1) < n" "q * of_nat n \<le> of_nat (Suc (nat (\<lceil>q * of_nat n\<rceil> - 1)))"
    and "of_nat (nat (\<lceil>q * of_nat n\<rceil> - 1)) < (q * of_nat n :: rat)"
proof -
  let ?x = "q * of_nat n :: rat"
  have pos: "0 < ?x" using assms by simp
  have le: "?x \<le> of_nat n" using assms by (simp add: mult_le_cancel_right1)
  have c: "1 \<le> \<lceil>?x\<rceil>" using pos by (simp add: le_ceiling_iff)
  have up: "\<lceil>?x\<rceil> \<le> int n" using le by (simp add: ceiling_le_iff)
  show "nat (\<lceil>?x\<rceil> - 1) < n" using c up by linarith
  have e: "(of_nat (nat (\<lceil>?x\<rceil> - 1)) :: rat) = of_int \<lceil>?x\<rceil> - 1" using c by simp
  show "?x \<le> of_nat (Suc (nat (\<lceil>?x\<rceil> - 1)))" using e by simp
  show "of_nat (nat (\<lceil>?x\<rceil> - 1)) < ?x" using e ceiling_correct [of ?x] by simp
qed

text \<open>
  The percentile the summaries publish is the nearest rank: one of the values, such that at
  least the asked share of the values is not larger, and fewer are smaller.
\<close>

theorem nearest_rank_exact:
  assumes "values' \<noteq> []" "0 < q" "q \<le> 1"
  shows "nearest_rank values' q \<in> set values' \<and>
    q * of_nat (length values') \<le>
      of_nat (length (filter (\<lambda>v. number_value v \<le> number_value (nearest_rank values' q)) values')) \<and>
    of_nat (length (filter (\<lambda>v. number_value v < number_value (nearest_rank values' q)) values')) <
      q * of_nat (length values')"
proof -
  let ?o = "sort_key number_value values'" and ?i = "nat (\<lceil>q * of_nat (length values')\<rceil> - 1)"
  note i = rank_index [OF assms(2,3), of "length values'"]
  have r: "nearest_rank values' q = ?o ! ?i" by (simp add: nearest_rank_def Let_def)
  have n: "0 < length values'" using assms(1) by simp
  then have idx: "?i < length ?o" using i(1) by simp
  have "?o ! ?i \<in> set values'" using nth_mem [OF idx] by simp
  moreover note c = sorted_nth_counts [of number_value ?o, OF _ idx]
  have "Suc ?i \<le> length (filter (\<lambda>v. number_value v \<le> number_value (?o ! ?i)) values')"
    "length (filter (\<lambda>v. number_value v < number_value (?o ! ?i)) values') \<le> ?i"
    using c by (simp_all add: filter_sort_key_length)
  then have "(of_nat (Suc ?i) :: rat) \<le> of_nat (length (filter (\<lambda>v. number_value v \<le> number_value (?o ! ?i)) values'))"
    "(of_nat (length (filter (\<lambda>v. number_value v < number_value (?o ! ?i)) values')) :: rat) \<le> of_nat ?i"
    by (simp_all only: of_nat_le_iff)
  ultimately show ?thesis
    unfolding r using order_trans [OF i(2) [OF n]] le_less_trans [OF _ i(3) [OF n]] by blast
qed

theorem nearest_rank_exact_witness:
  "nearest_rank [NInt 7, NFloat (5 / 2), NInt 9] (95 / 100) \<in> set [NInt 7, NFloat (5 / 2), NInt 9]"
  using nearest_rank_exact [of "[NInt 7, NFloat (5 / 2), NInt 9]" "95 / 100"] by simp

section \<open>Published summaries are accepted\<close>

lemma add_trial_Inr:
  assumes "add_trial p profile acc (n, entry) = Inr acc'"
  shows "\<exists>t. snd acc' = snd acc @ [t] \<and> trial_number t = n \<and> 0 \<le> trial_detection_ms t"
  using assms by (auto simp: add_trial_def rbind_eq_Inr dest: parse_detection_facts split: prod.splits)

definition trials_numbered :: "nat \<Rightarrow> Trial list \<Rightarrow> bool" where
  "trials_numbered n ts = (map trial_number ts = [1..<Suc n] \<and> (\<forall>t \<in> set ts. 0 \<le> trial_detection_ms t))"

lemma trials_numbered_length: "trials_numbered n ts \<Longrightarrow> length ts = n"
  unfolding trials_numbered_def by (metis length_map length_upt diff_Suc_1)

lemma fold_trials:
  assumes "fold_res (add_trial p profile) (None, []) (numbered_from_one logs) = Inr (sha, trials)"
  shows "trials_numbered (length logs) trials"
proof -
  have "trials_numbered k (snd acc) \<Longrightarrow>
      fold_res (add_trial p profile) acc (zip [Suc k..<Suc k + length logs] logs) = Inr acc' \<Longrightarrow>
      trials_numbered (k + length logs) (snd acc')" for k acc acc'
  proof (induction logs arbitrary: k acc)
    case (Cons entry logs)
    have "[Suc k..<Suc k + length (entry # logs)] = Suc k # [Suc (Suc k)..<Suc (Suc k) + length logs]"
      by (simp add: upt_rec)
    then obtain acc1 where a: "add_trial p profile acc (Suc k, entry) = Inr acc1"
      and r: "fold_res (add_trial p profile) acc1 (zip [Suc (Suc k)..<Suc (Suc k) + length logs] logs) = Inr acc'"
      using Cons.prems(2) by (auto simp: rbind_eq_Inr)
    have "trials_numbered (Suc k) (snd acc1)"
      using add_trial_Inr [OF a] Cons.prems(1) by (auto simp: trials_numbered_def)
    from Cons.IH [OF this r] show ?case by simp
  qed simp
  from this [of 0 "(None, [])" "(sha, trials)"] assms show ?thesis
    by (simp add: numbered_from_one_def trials_numbered_def del: upt_Suc)
qed

lemma summary_nonnegative:
  assumes "summary_of round2 values' = Inr s" "\<forall>v \<in> set values'. 0 \<le> number_value v" "stat \<in> set stat_names"
  shows "\<exists>v. map_of s stat = Some v \<and> 0 \<le> number_value v"
proof -
  have ne: "values' \<noteq> []" using assms(1) by (auto simp: summary_of_def)
  let ?o = "sort_key number_value values'"
  have nth: "0 \<le> number_value (?o ! i)" if "i < length values'" for i
    using assms(2) nth_mem [of i ?o] that by simp
  have n: "0 < length values'" using ne by simp
  have "length values' div 2 < length values'" "length values' div 2 - 1 < length values'" using n by linarith+
  then have "0 \<le> number_value (median values')" using nth by (simp add: median_def Let_def add_nonneg_nonneg)
  moreover have "0 \<le> number_value (nearest_rank values' (95 / 100))"
    using nearest_rank_exact [OF ne, of "95 / 100"] assms(2) by simp
  moreover have "sorted_desc number_value values' \<noteq> []" using ne length_sorted_desc [of number_value values'] by (metis length_0_conv)
  then have "hd (sorted_desc number_value values') \<in> set values'" using hd_in_set set_sorted_desc by metis
  then have "0 \<le> number_value (hd (sorted_desc number_value values'))" using assms(2) by simp
  ultimately show ?thesis using assms(1,3) ne by (auto simp: summary_of_def stat_names_def)
qed

lemma summary_valid:
  assumes "summary_of round2 (map (\<lambda>t. NInt (trial_detection_ms t)) ts) = Inr s" "trials_numbered n ts"
    and "stat \<in> set stat_names"
  shows "\<exists>v. map_of s stat = Some v \<and> 0 \<le> number_value v"
  using summary_nonnegative [OF assms(1) _ assms(3)] assms(2) by (auto simp: trials_numbered_def)

lemma jnumber_number_json [simp]: "jnumber (number_json v) = Some (number_value v)"
  by (cases v) auto

lemma trials_valid:
  assumes "trials_numbered n ts"
  shows "each (validate_trial profile) (numbered_from_one (map trial_json ts)) = Inr ()"
proof -
  have l: "length ts = n" by (rule trials_numbered_length [OF assms])
  have "validate_trial profile (Suc i, trial_json (ts ! i)) = Inr ()" if "i < n" for i
  proof -
    have "map trial_number ts ! i = [1..<Suc n] ! i" using assms by (simp add: trials_numbered_def)
    then have "trial_number (ts ! i) = Suc i" using that l by (simp del: upt_Suc)
    moreover have "0 \<le> trial_detection_ms (ts ! i)" using assms that l by (simp add: trials_numbered_def)
    ultimately show ?thesis
      by (simp add: validate_trial_def trial_json_def jget_def nonnegative_number_def)
  qed
  then show ?thesis using l by (auto simp: each_eq_Inr numbered_from_one_def set_zip simp del: upt_Suc)
qed

lemma profile_summary_valid:
  assumes "profile_summary round2 p profile logs = Inr s" "jget profile profiles = profile_json s"
  shows "validate_repeated_profile profiles (int (length logs)) profile = Inr ()"
proof -
  from assms(1) obtain sha trials where f: "fold_res (add_trial p profile) (None, []) (numbered_from_one logs) = Inr (sha, trials)"
    and d: "summary_of round2 (map (\<lambda>t. NInt (trial_detection_ms t)) trials) = Inr (ps_detection_ms s)"
    and t: "ps_trials s = trials"
    by (auto simp: profile_summary_def rbind_eq_Inr)
  note n = fold_trials [OF f]
  have l: "length trials = length logs" by (rule trials_numbered_length [OF n])
  have stats: "each (\<lambda>stat. nonnegative_number (profile @ ''.detection_ms.'' @ stat)
      (jget stat (map (\<lambda>(k, v). (k, number_json v)) (ps_detection_ms s)))) stat_names = Inr ()"
    unfolding each_eq_Inr
  proof
    fix stat assume "stat \<in> set stat_names"
    from summary_valid [OF d n this] obtain v where "map_of (ps_detection_ms s) stat = Some v" "0 \<le> number_value v" by auto
    then show "nonnegative_number (profile @ ''.detection_ms.'' @ stat)
      (jget stat (map (\<lambda>(k, v). (k, number_json v)) (ps_detection_ms s))) = Inr ()"
      by (simp add: jget_def map_of_map nonnegative_number_def)
  qed
  show ?thesis
    using stats trials_valid [OF n, of profile] l
    by (simp add: validate_repeated_profile_def assms(2) profile_json_def summary_json_def jget_def [of "''detection_ms''"]
      jget_def [of "''trials''"] t del: each.simps each_eq_Inr)
qed

lemma build_repeated_valid:
  assumes "build_repeated_evidence round2 p ospf_logs bfd_logs = Inr doc"
  shows "validate_repeated_experiment_evidence doc = Inr ()"
proof -
  from assms obtain ospf bfd p50 p95 where l: "length ospf_logs = length bfd_logs" "20 \<le> length ospf_logs" "length ospf_logs \<le> 30"
    and s: "profile_summary round2 p ''ospf_only'' ospf_logs = Inr ospf" "profile_summary round2 p ''bfd_100x3'' bfd_logs = Inr bfd"
    and d: "doc = repeated_document (int (length ospf_logs)) ospf bfd p50 p95"
    by (auto simp: build_repeated_evidence_def rbind_eq_Inr)
  let ?profiles = "[(''ospf_only'', profile_json ospf), (''bfd_100x3'', profile_json bfd)]"
  have "validate_repeated_profile ?profiles (int (length ospf_logs)) ''ospf_only'' = Inr ()"
    by (rule profile_summary_valid [OF s(1)]) (simp add: jget_def)
  moreover have "validate_repeated_profile ?profiles (int (length ospf_logs)) ''bfd_100x3'' = Inr ()"
    unfolding l(1) by (rule profile_summary_valid [OF s(2)]) (simp add: jget_def)
  ultimately show ?thesis
    using l by (simp add: validate_repeated_experiment_evidence_def d repeated_document_def jget_def profile_names_def)
qed

text \<open>
  The repeated-trial evidence the builder publishes passes the server's validation, so the
  metrics page of valid experiment evidence renders with it.
\<close>

theorem repeated_evidence_rendered:
  assumes "build_repeated_evidence round2 p ospf_logs bfd_logs = Inr doc" "validate_experiment_evidence evidence = Inr ()"
  shows "\<exists>page. load_repeated_experiment_evidence (Inr (JObject doc)) = Inr doc \<and>
    render_experiment_metrics g evidence (Some doc) = Inr page"
  using build_repeated_valid [OF assms(1)] assms(2) render_experiment_total [OF assms(2), of "Some doc" g]
  by (auto simp: load_repeated_experiment_evidence_def)

lemma equal_statistics:
  assumes "set vs \<subseteq> {v}"
  shows "number_value (median (v # vs)) = number_value v" "number_value (nearest_rank (v # vs) (19 / 20)) = number_value v"
proof -
  let ?o = "sort_key number_value (v # vs)"
  have nth: "?o ! i = v" if "i < length (v # vs)" for i
  proof -
    have "?o ! i \<in> set ?o" by (rule nth_mem) (use that in simp)
    then have "?o ! i \<in> set (v # vs)" by (simp only: set_sort)
    then show ?thesis using assms by auto
  qed
  have "length (v # vs) div 2 < length (v # vs)" "length (v # vs) div 2 - 1 < length (v # vs)" by auto
  note m = this [THEN nth]
  show "number_value (median (v # vs)) = number_value v"
    by (simp only: median_def Let_def length_sort m if_cancel number_value.simps split: if_splits) simp
  have "nearest_rank (v # vs) (19 / 20) \<in> set (v # vs)" using nearest_rank_exact [of "v # vs" "19 / 20"] by simp
  then show "number_value (nearest_rank (v # vs) (19 / 20)) = number_value v" using assms by auto
qed

lemma example_repeated:
  "\<exists>doc. build_repeated_evidence (\<lambda>r. r) example_patterns (replicate 20 (''a'', example_log ''ospf_only'' []))
     (replicate 20 (''b'', example_log ''bfd_100x3'' [''peer up''])) = Inr doc"
proof -
  obtain ospf bfd where o: "parse_detection_log example_patterns (example_log ''ospf_only'' []) = Inr ospf"
      "parse_detection_log example_patterns (example_log ''bfd_100x3'' [''peer up'']) = Inr bfd"
    and f: "dr_upper_bound_ms ospf = 4500" "dr_profile ospf = ''ospf_only''" "dr_configuration_sha256 ospf = ''h''"
      "\<not> dr_bfd_peer_up ospf" "dr_profile bfd = ''bfd_100x3''" "dr_configuration_sha256 bfd = ''h''" "dr_bfd_peer_up bfd"
    using example_detections by (auto split: sum.splits)
  show ?thesis
    by (simp add: build_repeated_evidence_def profile_summary_def numbered_from_one_def numeral_eq_Suc add_trial_def o f
      summary_of_def summary_float_def reduction_percent_def equal_statistics)
qed

theorem repeated_evidence_rendered_witness:
  "\<exists>doc evidence page.
    build_comparison (\<lambda>r. r) example_patterns (example_log ''ospf_only'' []) (example_log ''bfd_100x3'' [''peer up'']) = Inr evidence \<and>
    build_repeated_evidence (\<lambda>r. r) example_patterns (replicate 20 (''a'', example_log ''ospf_only'' []))
      (replicate 20 (''b'', example_log ''bfd_100x3'' [''peer up''])) = Inr doc \<and>
    render_experiment_metrics (\<lambda>_. ''0'') evidence (Some doc) = Inr page"
proof -
  obtain evidence page where e: "build_comparison (\<lambda>r. r) example_patterns (example_log ''ospf_only'' [])
      (example_log ''bfd_100x3'' [''peer up'']) = Inr evidence"
    "render_experiment_metrics (\<lambda>_. ''0'') evidence None = Inr page"
    using example_comparison by blast
  have v: "validate_experiment_evidence evidence = Inr ()"
    using e(2) by (auto simp: render_experiment_metrics_def rbind_eq_Inr)
  obtain doc where "build_repeated_evidence (\<lambda>r. r) example_patterns (replicate 20 (''a'', example_log ''ospf_only'' []))
      (replicate 20 (''b'', example_log ''bfd_100x3'' [''peer up''])) = Inr doc"
    using example_repeated by blast
  from repeated_evidence_rendered [OF this v, of "\<lambda>_. ''0''"] this e(1) show ?thesis by blast
qed

end
