(* ===== verification/Runtime_N1.thy ===== *)
theory Runtime_N1
  imports Failure_Domains Ip_Address
begin

text \<open>
  \<open>runtime_resilience.py\<close>, first part: the typed plan, observation and published evidence of a
  runtime N-1 campaign with their validators, the comparison of an observation with its plan,
  the reading of FRR's outputs, and the metrics of published evidence. The type checks of
  \<open>pydantic\<close> are implied by the types; SHA-256 is a parameter.
\<close>

section \<open>The models\<close>

record InjectionInterface =
  inj_node :: string
  inj_interface :: string

record RuntimePathExpectation =
  rpe_access_node :: string
  rpe_baseline_metric :: int
  rpe_fault_metric :: "int option"

record BaselineAdjacencyExpectation =
  bae_router :: string
  bae_full_neighbors :: int

record RuntimeFaultPlan =
  rfp_scenario_id :: string
  rfp_kind :: string
  rfp_component_id :: string
  rfp_injections :: "InjectionInterface list"
  rfp_paths :: "RuntimePathExpectation list"

record RuntimeN1Plan =
  rnp_schema_version :: int
  rnp_source :: string
  rnp_topology_sha256 :: string
  rnp_lab_sha256 :: string
  rnp_service_prefix :: string
  rnp_baseline_adjacencies :: "BaselineAdjacencyExpectation list"
  rnp_scenarios :: "RuntimeFaultPlan list"

record RuntimePathObservation =
  rpo_access_node :: string
  rpo_fault_metric :: "int option"
  rpo_fault_reachable :: bool
  rpo_restored_metric :: "int option"
  rpo_restored_reachable :: bool

record RuntimeScenarioObservation =
  rso_scenario_id :: string
  rso_paths :: "RuntimePathObservation list"

record RuntimeN1Observation =
  rno_schema_version :: int
  rno_source :: string
  rno_scenarios :: "RuntimeScenarioObservation list"

record RuntimeN1PublishedScenario =
  rps_scenario_id :: string
  rps_kind :: string
  rps_passed :: bool

record RuntimeN1PublishedEvidence =
  rpe_schema_version :: int
  rpe_source :: string
  rpe_source_repository :: string
  rpe_source_ref :: string
  rpe_source_commit :: string
  rpe_workflow_run_id :: int
  rpe_archive_sha256 :: string
  rpe_source_evidence_sha256 :: string
  rpe_plan_sha256 :: string
  rpe_observation_sha256 :: string
  rpe_topology_sha256 :: string
  rpe_lab_sha256 :: string
  rpe_runtime_configuration_sha256 :: string
  rpe_passed_all :: bool
  rpe_total_checks :: int
  rpe_passed_checks :: int
  rpe_failed_checks :: int
  rpe_scenarios :: "RuntimeN1PublishedScenario list"

section \<open>Validation\<close>

text \<open>\<open>^eth[0-9]{1,2}$\<close> and \<open>^(?:link|node):[a-z][a-z0-9-]{0,127}$\<close>\<close>

definition eth_name :: "string \<Rightarrow> bool" where
  "eth_name s =
     (starts_with ''eth'' s \<and> length s \<in> {4, 5} \<and> list_all is_digit (drop 3 s))"

definition runtime_scenario_id :: "string \<Rightarrow> bool" where
  "runtime_scenario_id s = ((starts_with ''link:'' s \<or> starts_with ''node:'' s) \<and> is_identifier (drop 5 s))"

definition in_range :: "int \<Rightarrow> int \<Rightarrow> int \<Rightarrow> string \<Rightarrow> unit result" where
  "in_range low high value field = ensure (low \<le> value \<and> value \<le> high) (field @ '': value is out of range'')"

definition nonnegative :: "int \<Rightarrow> string \<Rightarrow> unit result" where
  "nonnegative value field = ensure (0 \<le> value) (field @ '': value is out of range'')"

definition item_count :: "nat \<Rightarrow> 'a list \<Rightarrow> string \<Rightarrow> unit result" where
  "item_count limit items field = ensure (items \<noteq> [] \<and> length items \<le> limit) (field @ '': wrong number of items'')"

definition matching :: "bool \<Rightarrow> string \<Rightarrow> unit result" where
  "matching b field = ensure b (field @ '': string should match pattern'')"

definition runtime_kind :: "string \<Rightarrow> unit result" where
  "runtime_kind kind = ensure (kind = ''link'' \<or> kind = ''node'') ''kind: unexpected value''"

definition validate_injection :: "InjectionInterface \<Rightarrow> unit result" where
  "validate_injection i =
     rbind (matching (short_identifier (inj_node i)) ''node'') (\<lambda>_.
       matching (eth_name (inj_interface i)) ''interface'')"

definition validate_path_expectation :: "RuntimePathExpectation \<Rightarrow> unit result" where
  "validate_path_expectation e =
     rbind (matching (short_identifier (rpe_access_node e)) ''access_node'') (\<lambda>_.
     rbind (nonnegative (rpe_baseline_metric e) ''baseline_metric'') (\<lambda>_.
       case rpe_fault_metric e of None \<Rightarrow> Inr () | Some m \<Rightarrow> nonnegative m ''fault_metric''))"

definition validate_adjacency :: "BaselineAdjacencyExpectation \<Rightarrow> unit result" where
  "validate_adjacency a =
     rbind (matching (short_identifier (bae_router a)) ''router'') (\<lambda>_.
       in_range 1 16 (bae_full_neighbors a) ''full_neighbors'')"

definition validate_fault_plan :: "RuntimeFaultPlan \<Rightarrow> RuntimeFaultPlan result" where
  "validate_fault_plan s =
     rbind (each validate_injection (rfp_injections s)) (\<lambda>_.
     rbind (each validate_path_expectation (rfp_paths s)) (\<lambda>_.
     rbind (matching (runtime_scenario_id (rfp_scenario_id s)) ''scenario_id'') (\<lambda>_.
     rbind (runtime_kind (rfp_kind s)) (\<lambda>_.
     rbind (matching (is_identifier (rfp_component_id s)) ''component_id'') (\<lambda>_.
     rbind (item_count 16 (rfp_injections s) ''injections'') (\<lambda>_.
     rbind (item_count 16 (rfp_paths s) ''paths'') (\<lambda>_.
     rbind (ensure (distinct (map (\<lambda>i. (inj_node i, inj_interface i)) (rfp_injections s)))
       ''injection interfaces must be unique'') (\<lambda>_.
     rbind (ensure (distinct (map rpe_access_node (rfp_paths s))) ''plan access nodes must be unique'') (\<lambda>_.
       Inr s)))))))))"

definition validate_service_prefix :: "string \<Rightarrow> string result" where
  "validate_service_prefix value =
     rbind (ensure (value \<noteq> [] \<and> length value \<le> 64) ''service_prefix: wrong length'') (\<lambda>_.
     rbind (ensure (ip_network_ok value) ''service prefix must be a canonical IP network'') (\<lambda>_.
     case ip4_parts value of
       Some (address, prefixlen) \<Rightarrow>
         rbind (ensure (prefixlen = 32) ''runtime probe requires an IPv4 /32 service prefix'') (\<lambda>_.
           Inr (ip4_text address @ ''/'' @ nat_str prefixlen))
     | None \<Rightarrow> Inl (ValueError ''runtime probe requires an IPv4 /32 service prefix'')))"

definition validate_runtime_plan :: "RuntimeN1Plan \<Rightarrow> RuntimeN1Plan result" where
  "validate_runtime_plan p =
     rbind (ensure (rnp_schema_version p = 1) ''unsupported runtime N-1 plan version'') (\<lambda>_.
     rbind (ensure (rnp_source p = ''intent_runtime_n1_plan'') ''source: unexpected value'') (\<lambda>_.
     rbind (matching (hex_of_length 64 (rnp_topology_sha256 p)) ''topology_sha256'') (\<lambda>_.
     rbind (matching (hex_of_length 64 (rnp_lab_sha256 p)) ''lab_sha256'') (\<lambda>_.
     rbind (validate_service_prefix (rnp_service_prefix p)) (\<lambda>prefix.
     rbind (each validate_adjacency (rnp_baseline_adjacencies p)) (\<lambda>_.
     rbind (item_count 64 (rnp_baseline_adjacencies p) ''baseline_adjacencies'') (\<lambda>_.
     rbind (traverse validate_fault_plan (rnp_scenarios p)) (\<lambda>scenarios.
     rbind (item_count 64 scenarios ''scenarios'') (\<lambda>_.
     rbind (ensure (distinct (map rfp_scenario_id scenarios)) ''plan scenario ids must be unique'') (\<lambda>_.
     rbind (ensure (distinct (map bae_router (rnp_baseline_adjacencies p)))
       ''baseline adjacency routers must be unique'') (\<lambda>_.
       Inr (p\<lparr>rnp_service_prefix := prefix, rnp_scenarios := scenarios\<rparr>))))))))))))"

definition validate_path_observation :: "RuntimePathObservation \<Rightarrow> unit result" where
  "validate_path_observation obs =
     rbind (matching (short_identifier (rpo_access_node obs)) ''access_node'') (\<lambda>_.
     rbind (case rpo_fault_metric obs of None \<Rightarrow> Inr () | Some m \<Rightarrow> nonnegative m ''fault_metric'') (\<lambda>_.
       case rpo_restored_metric obs of None \<Rightarrow> Inr () | Some m \<Rightarrow> nonnegative m ''restored_metric''))"

definition validate_scenario_observation :: "RuntimeScenarioObservation \<Rightarrow> unit result" where
  "validate_scenario_observation s =
     rbind (matching (runtime_scenario_id (rso_scenario_id s)) ''scenario_id'') (\<lambda>_.
     rbind (each validate_path_observation (rso_paths s)) (\<lambda>_.
     rbind (item_count 16 (rso_paths s) ''paths'') (\<lambda>_.
       ensure (distinct (map rpo_access_node (rso_paths s))) ''observation access nodes must be unique'')))"

definition validate_runtime_observation :: "RuntimeN1Observation \<Rightarrow> RuntimeN1Observation result" where
  "validate_runtime_observation obs =
     rbind (ensure (rno_schema_version obs = 1) ''unsupported runtime N-1 observation version'') (\<lambda>_.
     rbind (ensure (rno_source obs = ''containerlab_frr_observation'') ''source: unexpected value'') (\<lambda>_.
     rbind (each validate_scenario_observation (rno_scenarios obs)) (\<lambda>_.
     rbind (item_count 64 (rno_scenarios obs) ''scenarios'') (\<lambda>_.
     rbind (ensure (distinct (map rso_scenario_id (rno_scenarios obs))) ''observation scenario ids must be unique'') (\<lambda>_.
       Inr obs)))))"

definition validate_published_scenario :: "RuntimeN1PublishedScenario \<Rightarrow> unit result" where
  "validate_published_scenario s =
     rbind (matching (runtime_scenario_id (rps_scenario_id s)) ''scenario_id'') (\<lambda>_.
     rbind (runtime_kind (rps_kind s)) (\<lambda>_.
       ensure (starts_with (rps_kind s @ '':'') (rps_scenario_id s)) ''scenario kind must match its id''))"

definition validate_published_consistency :: "RuntimeN1PublishedEvidence \<Rightarrow> unit result" where
  "validate_published_consistency e =
     rbind (ensure (distinct (map rps_scenario_id (rpe_scenarios e))) ''published runtime scenario ids must be unique'') (\<lambda>_.
     rbind (ensure (rpe_total_checks e = rpe_passed_checks e + rpe_failed_checks e)
       ''published runtime check totals are inconsistent'') (\<lambda>_.
     rbind (ensure (rpe_total_checks e = int (length (rpe_scenarios e)) * 8)
       ''published runtime evidence requires eight checks per scenario'') (\<lambda>_.
     let every_scenario_passed = list_all rps_passed (rpe_scenarios e) in
     rbind (ensure ((rpe_failed_checks e = 0) = every_scenario_passed)
       ''published runtime scenario and check results conflict'') (\<lambda>_.
       ensure (rpe_passed_all e = (rpe_failed_checks e = 0)) ''published runtime passed_all conflicts with results''))))"

definition validate_published_evidence :: "RuntimeN1PublishedEvidence \<Rightarrow> RuntimeN1PublishedEvidence result" where
  "validate_published_evidence e =
     rbind (ensure (rpe_schema_version e = 1) ''unsupported published runtime N-1 evidence version'') (\<lambda>_.
     rbind (ensure (rpe_source e = ''github_actions_attested_runtime_n1'' \<and>
       rpe_source_repository e = ''teriyakki-jin/telconet-sentinel'' \<and> rpe_source_ref e = ''refs/heads/main'')
       ''source: unexpected value'') (\<lambda>_.
     rbind (matching (hex_of_length 40 (rpe_source_commit e)) ''source_commit'') (\<lambda>_.
     rbind (ensure (1 \<le> rpe_workflow_run_id e) ''workflow_run_id: value is out of range'') (\<lambda>_.
     rbind (each (\<lambda>h. matching (hex_of_length 64 h) ''sha256'')
       [rpe_archive_sha256 e, rpe_source_evidence_sha256 e, rpe_plan_sha256 e, rpe_observation_sha256 e,
        rpe_topology_sha256 e, rpe_lab_sha256 e, rpe_runtime_configuration_sha256 e]) (\<lambda>_.
     rbind (in_range 1 1024 (rpe_total_checks e) ''total_checks'') (\<lambda>_.
     rbind (in_range 0 1024 (rpe_passed_checks e) ''passed_checks'') (\<lambda>_.
     rbind (in_range 0 1024 (rpe_failed_checks e) ''failed_checks'') (\<lambda>_.
     rbind (each validate_published_scenario (rpe_scenarios e)) (\<lambda>_.
     rbind (item_count 64 (rpe_scenarios e) ''scenarios'') (\<lambda>_.
     rbind (validate_published_consistency e) (\<lambda>_.
       Inr e)))))))))))"

section \<open>Loading\<close>

text \<open>
  A file as it is read: none, a symlink, or its bytes. \<open>json.loads\<close> is given the hooks that refuse
  a repeated key; what it returns and \<open>model_validate\<close>'s reading of it are the parameter
  \<open>parse\<close>.
\<close>

datatype file_on_disk = Missing | Symlink | Bytes string

definition ensure_bounded_file :: "file_on_disk \<Rightarrow> string \<Rightarrow> nat \<Rightarrow> string result" where
  "ensure_bounded_file path label_text limit =
     (case path of
        Symlink \<Rightarrow> Inl (ValueError (label_text @ '' must not be a symlink''))
      | Missing \<Rightarrow> Inl (OSError ''No such file or directory'')
      | Bytes content \<Rightarrow>
          (let raw = take (limit + 1) content in
           if limit < length raw then Inl (ValueError (label_text @ '' exceeds '' @ nat_str limit @ '' bytes''))
           else Inr raw))"

definition unique_json_object :: "(string \<times> json) list \<Rightarrow> (string \<times> json) list result" where
  "unique_json_object pairs =
     fold_res (\<lambda>result (key, value).
       if key \<in> set (dict_keys result) then Inl (ValueError (''duplicate JSON key is not allowed: '' @ key))
       else Inr (dict_set key value result)) [] pairs"

definition max_json_bytes :: nat where
  "max_json_bytes = 5 * 1024 * 1024"

definition load_runtime_n1_plan :: "(string \<Rightarrow> RuntimeN1Plan result) \<Rightarrow> file_on_disk \<Rightarrow> RuntimeN1Plan result" where
  "load_runtime_n1_plan parse path =
     rbind (rbind (ensure_bounded_file path ''runtime N-1 plan'' max_json_bytes) parse) validate_runtime_plan"

definition load_runtime_n1_observation ::
  "(string \<Rightarrow> RuntimeN1Observation result) \<Rightarrow> file_on_disk \<Rightarrow> RuntimeN1Observation result" where
  "load_runtime_n1_observation parse path =
     rbind (rbind (ensure_bounded_file path ''runtime N-1 observation'' max_json_bytes) parse) validate_runtime_observation"

definition load_runtime_n1_published_evidence ::
  "(string \<Rightarrow> RuntimeN1PublishedEvidence result) \<Rightarrow> file_on_disk \<Rightarrow> RuntimeN1PublishedEvidence result" where
  "load_runtime_n1_published_evidence parse path =
     rbind (rbind (ensure_bounded_file path ''published runtime N-1 evidence'' max_json_bytes) parse)
       validate_published_evidence"

section \<open>Published evidence of a topology\<close>

definition validate_runtime_n1_published_topology ::
  "(string \<Rightarrow> string) \<Rightarrow> RuntimeN1PublishedEvidence \<Rightarrow> Topology \<Rightarrow> string \<Rightarrow> unit result" where
  "validate_runtime_n1_published_topology sha256 evidence t runtime_configuration_sha256 =
     rbind (ensure (topology_fingerprint sha256 t = rpe_topology_sha256 evidence)
       ''published runtime N-1 evidence does not match candidate intent'') (\<lambda>_.
     rbind (ensure (runtime_configuration_sha256 = rpe_runtime_configuration_sha256 evidence)
       ''published runtime N-1 runtime configuration does not match current files'') (\<lambda>_.
     rbind (link_failure_scenarios t) (\<lambda>links.
     rbind (transport_node_failure_scenarios t) (\<lambda>nodes.
       ensure (set (map rps_scenario_id (rpe_scenarios evidence)) = set (map fault_id (links @ nodes)))
         ''published runtime N-1 scenario matrix does not match candidate intent''))))"

definition kind_count :: "string \<Rightarrow> RuntimeN1PublishedEvidence \<Rightarrow> nat" where
  "kind_count kind e = sum_list (map (\<lambda>s. if rps_kind s = kind then 1 else 0) (rpe_scenarios e))"

definition render_runtime_n1_metrics :: "RuntimeN1PublishedEvidence \<Rightarrow> string" where
  "render_runtime_n1_metrics e =
     joined_lines
       ([help_line ''telconet_runtime_n1_pass'' ''Whether the attested runtime N-1 matrix passed.'',
         gauge_line ''telconet_runtime_n1_pass'',
         sample_line ''telconet_runtime_n1_pass'' [] (bool_sample (rpe_passed_all e)),
         help_line ''telconet_runtime_n1_scenarios_total'' ''Runtime N-1 scenarios by kind.'',
         gauge_line ''telconet_runtime_n1_scenarios_total'',
         sample_line ''telconet_runtime_n1_scenarios_total'' [label ''kind'' ''link''] (nat_str (kind_count ''link'' e)),
         sample_line ''telconet_runtime_n1_scenarios_total'' [label ''kind'' ''node''] (nat_str (kind_count ''node'' e)),
         help_line ''telconet_runtime_n1_checks_total'' ''Runtime N-1 checks by result.'',
         gauge_line ''telconet_runtime_n1_checks_total'',
         sample_line ''telconet_runtime_n1_checks_total'' [label ''result'' ''passed''] (int_str (rpe_passed_checks e)),
         sample_line ''telconet_runtime_n1_checks_total'' [label ''result'' ''failed''] (int_str (rpe_failed_checks e)),
         help_line ''telconet_runtime_n1_scenario_pass'' ''Whether one runtime scenario passed.'',
         gauge_line ''telconet_runtime_n1_scenario_pass''] @
        map (\<lambda>s. sample_line ''telconet_runtime_n1_scenario_pass''
          [label ''kind'' (rps_kind s), label ''scenario_id'' (rps_scenario_id s)] (bool_sample (rps_passed s)))
          (rpe_scenarios e) @
        [help_line ''telconet_runtime_n1_evidence_info'' ''Attested runtime evidence identity.'',
         gauge_line ''telconet_runtime_n1_evidence_info'',
         sample_line ''telconet_runtime_n1_evidence_info''
           [label ''source_commit'' (rpe_source_commit e), label ''workflow_run'' (int_str (rpe_workflow_run_id e))] ''1''])"

end
