(* ===== verification/Runtime_Evidence.thy ===== *)
theory Runtime_Evidence
  imports Runtime_N1
begin

text \<open>
  \<open>runtime_resilience.py\<close>, second part: the comparison of an observation with its plan, the
  reading of FRR's route and neighbour outputs, and the texts the runner of the campaign is
  given. The hash of a document is taken of its canonical text, which determines it.
\<close>

section \<open>Canonical texts\<close>

definition optional_int_text :: "int option \<Rightarrow> string" where
  "optional_int_text v = (case v of None \<Rightarrow> ''null'' | Some i \<Rightarrow> int_str i)"

definition bool_text :: "bool \<Rightarrow> string" where
  "bool_text b = (if b then ''true'' else ''false'')"

definition injection_text :: "InjectionInterface \<Rightarrow> string" where
  "injection_text i =
     json_object [json_member ''interface'' (json_string (inj_interface i)), json_member ''node'' (json_string (inj_node i))]"

definition expectation_text :: "RuntimePathExpectation \<Rightarrow> string" where
  "expectation_text e =
     json_object [json_member ''access_node'' (json_string (rpe_access_node e)),
       json_member ''baseline_metric'' (int_str (rpe_baseline_metric e)),
       json_member ''fault_metric'' (optional_int_text (rpe_fault_metric e))]"

definition adjacency_text :: "BaselineAdjacencyExpectation \<Rightarrow> string" where
  "adjacency_text a =
     json_object [json_member ''full_neighbors'' (int_str (bae_full_neighbors a)),
       json_member ''router'' (json_string (bae_router a))]"

definition fault_plan_text :: "RuntimeFaultPlan \<Rightarrow> string" where
  "fault_plan_text s =
     json_object [json_member ''component_id'' (json_string (rfp_component_id s)),
       json_member ''injections'' (json_array injection_text (rfp_injections s)),
       json_member ''kind'' (json_string (rfp_kind s)),
       json_member ''paths'' (json_array expectation_text (rfp_paths s)),
       json_member ''scenario_id'' (json_string (rfp_scenario_id s))]"

definition plan_text :: "RuntimeN1Plan \<Rightarrow> string" where
  "plan_text p =
     json_object [json_member ''baseline_adjacencies'' (json_array adjacency_text (rnp_baseline_adjacencies p)),
       json_member ''lab_sha256'' (json_string (rnp_lab_sha256 p)),
       json_member ''scenarios'' (json_array fault_plan_text (rnp_scenarios p)),
       json_member ''schema_version'' (int_str (rnp_schema_version p)),
       json_member ''service_prefix'' (json_string (rnp_service_prefix p)),
       json_member ''source'' (json_string (rnp_source p)),
       json_member ''topology_sha256'' (json_string (rnp_topology_sha256 p))]"

definition path_observation_text :: "RuntimePathObservation \<Rightarrow> string" where
  "path_observation_text r =
     json_object [json_member ''access_node'' (json_string (rpo_access_node r)),
       json_member ''fault_metric'' (optional_int_text (rpo_fault_metric r)),
       json_member ''fault_reachable'' (bool_text (rpo_fault_reachable r)),
       json_member ''restored_metric'' (optional_int_text (rpo_restored_metric r)),
       json_member ''restored_reachable'' (bool_text (rpo_restored_reachable r))]"

definition scenario_observation_text :: "RuntimeScenarioObservation \<Rightarrow> string" where
  "scenario_observation_text s =
     json_object [json_member ''paths'' (json_array path_observation_text (rso_paths s)),
       json_member ''scenario_id'' (json_string (rso_scenario_id s))]"

definition observation_text :: "RuntimeN1Observation \<Rightarrow> string" where
  "observation_text r =
     json_object [json_member ''scenarios'' (json_array scenario_observation_text (rno_scenarios r)),
       json_member ''schema_version'' (int_str (rno_schema_version r)),
       json_member ''source'' (json_string (rno_source r))]"

section \<open>The comparison\<close>

record RuntimeCheck =
  rc_check :: string
  rc_access_node :: string
  rc_expected :: json
  rc_actual :: json
  rc_passed :: bool

definition optional_json :: "int option \<Rightarrow> json" where
  "optional_json v = (case v of None \<Rightarrow> JNull | Some i \<Rightarrow> JInt i)"

definition comparisons :: "RuntimePathExpectation \<Rightarrow> RuntimePathObservation \<Rightarrow> (string \<times> json \<times> json) list" where
  "comparisons expected actual =
     [(''fault_route_metric'', optional_json (rpe_fault_metric expected), optional_json (rpo_fault_metric actual)),
      (''fault_reachability'', JBool (rpe_fault_metric expected \<noteq> None), JBool (rpo_fault_reachable actual)),
      (''restored_route_metric'', JInt (rpe_baseline_metric expected), optional_json (rpo_restored_metric actual)),
      (''restored_reachability'', JBool True, JBool (rpo_restored_reachable actual))]"

definition path_checks ::
  "(string \<times> RuntimePathObservation) list \<Rightarrow> string \<times> RuntimePathExpectation \<Rightarrow> RuntimeCheck list result" where
  "path_checks observed_paths item =
     (case item of (access, expected) \<Rightarrow>
        (case map_of observed_paths access of
           None \<Rightarrow> Inl (KeyError access)
         | Some actual \<Rightarrow>
             Inr (map (\<lambda>(check, expected_value, actual_value).
               \<lparr>rc_check = check, rc_access_node = access, rc_expected = expected_value,
                rc_actual = actual_value, rc_passed = (expected_value = actual_value)\<rparr>) (comparisons expected actual))))"

definition scenario_checks ::
  "(string \<times> RuntimeScenarioObservation) list \<Rightarrow> RuntimeFaultPlan \<Rightarrow> (RuntimeFaultPlan \<times> RuntimeCheck list) result" where
  "scenario_checks observed_by_id scenario =
     (case map_of observed_by_id (rfp_scenario_id scenario) of
        None \<Rightarrow> Inl (KeyError (rfp_scenario_id scenario))
      | Some observed \<Rightarrow>
          (let observed_paths = dict_of_list rpo_access_node (rso_paths observed);
               expected_paths = dict_of_list rpe_access_node (rfp_paths scenario) in
           rbind (ensure (set (dict_keys observed_paths) = set (dict_keys expected_paths))
             (''runtime observation access-node set does not match plan: '' @ rfp_scenario_id scenario)) (\<lambda>_.
           rbind (traverse (path_checks observed_paths) expected_paths) (\<lambda>checks.
             Inr (scenario, concat checks)))))"

definition compare_runtime :: "RuntimeN1Plan \<Rightarrow> RuntimeN1Observation \<Rightarrow> (RuntimeFaultPlan \<times> RuntimeCheck list) list result" where
  "compare_runtime plan observation =
     (let observed_by_id = dict_of_list rso_scenario_id (rno_scenarios observation) in
      rbind (ensure (set (dict_keys observed_by_id) = set (map rfp_scenario_id (rnp_scenarios plan)))
        ''runtime observation scenario set does not match plan'') (\<lambda>_.
        traverse (scenario_checks observed_by_id) (rnp_scenarios plan)))"

definition all_checks :: "(RuntimeFaultPlan \<times> RuntimeCheck list) list \<Rightarrow> RuntimeCheck list" where
  "all_checks scenarios = concat (map snd scenarios)"

definition passed_count :: "(RuntimeFaultPlan \<times> RuntimeCheck list) list \<Rightarrow> nat" where
  "passed_count scenarios = sum_list (map (\<lambda>c. if rc_passed c then 1 else 0) (all_checks scenarios))"

definition check_json :: "RuntimeCheck \<Rightarrow> json" where
  "check_json c =
     JObject [(''check'', JString (rc_check c)), (''access_node'', JString (rc_access_node c)),
       (''expected'', rc_expected c), (''actual'', rc_actual c), (''passed'', JBool (rc_passed c))]"

definition scenario_json :: "RuntimeFaultPlan \<times> RuntimeCheck list \<Rightarrow> json" where
  "scenario_json item =
     (case item of (scenario, checks) \<Rightarrow>
        JObject [(''scenario_id'', JString (rfp_scenario_id scenario)), (''kind'', JString (rfp_kind scenario)),
          (''component_id'', JString (rfp_component_id scenario)),
          (''passed'', JBool (list_all rc_passed checks)), (''checks'', JArray (map check_json checks))])"

definition build_runtime_n1_evidence ::
  "(string \<Rightarrow> string) \<Rightarrow> RuntimeN1Plan \<Rightarrow> RuntimeN1Observation \<Rightarrow> (string \<times> json) list result" where
  "build_runtime_n1_evidence sha256 plan observation =
     rbind (compare_runtime plan observation) (\<lambda>scenarios.
       let total = length (all_checks scenarios); passed = passed_count scenarios in
       Inr [(''schema_version'', JInt 1), (''scope'', JString ''runtime_n1_model_conformance''),
         (''source'', JString ''containerlab_frr_observation''), (''measured'', JBool True),
         (''plan_sha256'', JString (sha256 (plan_text plan))),
         (''observation_sha256'', JString (sha256 (observation_text observation))),
         (''topology_sha256'', JString (rnp_topology_sha256 plan)), (''lab_sha256'', JString (rnp_lab_sha256 plan)),
         (''passed_all'', JBool (passed = total)),
         (''summary'', JObject [(''total'', JInt (int total)), (''passed'', JInt (int passed)),
           (''failed'', JInt (int total - int passed))]),
         (''scenarios'', JArray (map scenario_json scenarios))])"

section \<open>FRR outputs\<close>

fun walk_json :: "json \<Rightarrow> (string \<times> json) list list"
  and walk_members :: "(string \<times> json) list \<Rightarrow> (string \<times> json) list list"
  and walk_items :: "json list \<Rightarrow> (string \<times> json) list list" where
  "walk_json (JObject d) = d # walk_members d"
| "walk_json (JArray xs) = walk_items xs"
| "walk_json _ = []"
| "walk_members [] = []"
| "walk_members (member # d) = walk_json (snd member) @ walk_members d"
| "walk_items [] = []"
| "walk_items (x # xs) = walk_json x @ walk_items xs"

definition selected_metric :: "(string \<times> json) list \<Rightarrow> int option" where
  "selected_metric values' =
     (if jget ''protocol'' values' = JString ''ospf'' \<and> jget ''selected'' values' = JBool True \<and>
        jget ''installed'' values' = JBool True then jint (jget ''metric'' values') else None)"

definition extract_selected_route_metric :: "json result \<Rightarrow> int result" where
  "extract_selected_route_metric document =
     rbind document (\<lambda>j.
       case List.map_filter selected_metric (walk_json j) of
         [metric] \<Rightarrow> Inr metric
       | _ \<Rightarrow> Inl (ValueError ''route output must contain exactly one selected installed OSPF route''))"

text \<open>\<open>str\<close> of a value that is no string never begins with \<open>full\<close>.\<close>

definition full_state :: "json \<Rightarrow> bool" where
  "full_state j = (case j of JString s \<Rightarrow> starts_with ''full'' (map lower_ascii s) | _ \<Rightarrow> False)"

definition n1_mapping :: "json \<Rightarrow> string \<Rightarrow> (string \<times> json) list result" where
  "n1_mapping value label_text =
     (case value of JObject d \<Rightarrow> Inr d | _ \<Rightarrow> Inl (ValueError (label_text @ '' must be a mapping'')))"

definition full_entries :: "json \<Rightarrow> nat result" where
  "full_entries entries =
     (case entries of
        JArray xs \<Rightarrow>
          fold_res (\<lambda>count entry. rbind (n1_mapping entry ''OSPF neighbor entry'') (\<lambda>values'.
            Inr (if full_state (jget ''nbrState'' values') then Suc count else count))) 0 xs
      | _ \<Rightarrow> Inl (ValueError ''OSPF neighbor entries must be lists''))"

definition extract_full_neighbor_count :: "json result \<Rightarrow> nat result" where
  "extract_full_neighbor_count document =
     rbind document (\<lambda>j.
     rbind (n1_mapping j ''OSPF neighbor output'') (\<lambda>root.
     rbind (n1_mapping (jget ''neighbors'' root) ''OSPF neighbors'') (\<lambda>neighbors.
     rbind (traverse full_entries (dict_values neighbors)) (\<lambda>counts.
       Inr (sum_list counts)))))"

section \<open>The runner's rows\<close>

definition tab_join :: "string list \<Rightarrow> string" where
  "tab_join columns = join [CHR 0x09] columns"

definition plan_row :: "RuntimeFaultPlan \<Rightarrow> string result" where
  "plan_row scenario =
     (let paths = dict_of_list rpe_access_node (rfp_paths scenario) in
      rbind (ensure (set (dict_keys paths) = {''access1'', ''access2''})
        ''runtime runner requires access1 and access2 paths'') (\<lambda>_.
      case (Option.bind (map_of paths ''access1'') rpe_fault_metric, Option.bind (map_of paths ''access2'') rpe_fault_metric) of
        (Some m1, Some m2) \<Rightarrow>
          Inr (tab_join [rfp_scenario_id scenario, rfp_kind scenario, rfp_component_id scenario,
            join '','' (map (\<lambda>i. inj_node i @ '':'' @ inj_interface i) (rfp_injections scenario)), int_str m1, int_str m2])
      | _ \<Rightarrow> Inl (ValueError ''runtime runner supports only reachable N-1 scenarios'')))"

definition plan_rows :: "RuntimeN1Plan \<Rightarrow> string list result" where
  "plan_rows plan = traverse plan_row (rnp_scenarios plan)"

text \<open>\<open>setdefault\<close>, and the check that a later scenario repeats the metric.\<close>

definition add_baseline_metric :: "int dict \<Rightarrow> RuntimePathExpectation \<Rightarrow> int dict result" where
  "add_baseline_metric d path =
     (case map_of d (rpe_access_node path) of
        None \<Rightarrow> Inr (dict_set (rpe_access_node path) (rpe_baseline_metric path) d)
      | Some previous \<Rightarrow>
          rbind (ensure (previous = rpe_baseline_metric path)
            (''inconsistent baseline metric for '' @ rpe_access_node path)) (\<lambda>_. Inr d))"

definition plan_settings :: "RuntimeN1Plan \<Rightarrow> string result" where
  "plan_settings plan =
     rbind (fold_res add_baseline_metric [] (concat (map rfp_paths (rnp_scenarios plan)))) (\<lambda>baseline_by_access.
     rbind (ensure (set (dict_keys baseline_by_access) = {''access1'', ''access2''})
       ''runtime runner requires access1 and access2 baselines'') (\<lambda>_.
     case (ip4_parts (rnp_service_prefix plan), map_of baseline_by_access ''access1'', map_of baseline_by_access ''access2'') of
       (Some (address, _), Some m1, Some m2) \<Rightarrow>
         Inr (tab_join [rnp_service_prefix plan, ip4_text address, int_str m1, int_str m2])
     | _ \<Rightarrow> Inl (ValueError ''service prefix'')))"

definition plan_adjacency_rows :: "RuntimeN1Plan \<Rightarrow> string list" where
  "plan_adjacency_rows plan =
     map (\<lambda>a. tab_join [bae_router a, int_str (bae_full_neighbors a)]) (rnp_baseline_adjacencies plan)"

definition verify_exit_code :: "(string \<times> json) list \<Rightarrow> int" where
  "verify_exit_code evidence = (if jget ''passed_all'' evidence = JBool True then 0 else 1)"

section \<open>The verdict\<close>

text \<open>What the plan predicts of an access node, and what of a whole observation.\<close>

definition path_conforms :: "RuntimePathExpectation \<Rightarrow> RuntimePathObservation \<Rightarrow> bool" where
  "path_conforms e q =
     (rpo_fault_metric q = rpe_fault_metric e \<and> rpo_fault_reachable q = (rpe_fault_metric e \<noteq> None) \<and>
      rpo_restored_metric q = Some (rpe_baseline_metric e) \<and> rpo_restored_reachable q)"

definition scenario_conforms :: "RuntimeFaultPlan \<Rightarrow> RuntimeScenarioObservation \<Rightarrow> bool" where
  "scenario_conforms s r =
     (\<forall>e \<in> set (rfp_paths s). \<exists>q \<in> set (rso_paths r). rpo_access_node q = rpe_access_node e \<and> path_conforms e q)"

definition runtime_conforms :: "RuntimeN1Plan \<Rightarrow> RuntimeN1Observation \<Rightarrow> bool" where
  "runtime_conforms plan observation =
     (\<forall>s \<in> set (rnp_scenarios plan). \<exists>r \<in> set (rno_scenarios observation).
        rso_scenario_id r = rfp_scenario_id s \<and> scenario_conforms s r)"

text \<open>How many of the four predictions an observation of a path meets, and a whole one.\<close>

definition path_points :: "RuntimePathExpectation \<Rightarrow> RuntimePathObservation \<Rightarrow> nat" where
  "path_points e q =
     length (filter id [rpo_fault_metric q = rpe_fault_metric e, rpo_fault_reachable q = (rpe_fault_metric e \<noteq> None),
       rpo_restored_metric q = Some (rpe_baseline_metric e), rpo_restored_reachable q])"

definition scenario_points :: "RuntimeFaultPlan \<Rightarrow> RuntimeScenarioObservation \<Rightarrow> nat" where
  "scenario_points s r =
     (\<Sum>e\<leftarrow>rfp_paths s. \<Sum>q\<leftarrow>filter (\<lambda>q. rpo_access_node q = rpe_access_node e) (rso_paths r). path_points e q)"

definition runtime_points :: "RuntimeN1Plan \<Rightarrow> RuntimeN1Observation \<Rightarrow> nat" where
  "runtime_points plan observation =
     (\<Sum>s\<leftarrow>rnp_scenarios plan.
        \<Sum>r\<leftarrow>filter (\<lambda>r. rso_scenario_id r = rfp_scenario_id s) (rno_scenarios observation). scenario_points s r)"

text \<open>An observation of just the plan's scenarios and access nodes.\<close>

definition observation_fits :: "RuntimeN1Plan \<Rightarrow> RuntimeN1Observation \<Rightarrow> bool" where
  "observation_fits plan observation =
     (rso_scenario_id ` set (rno_scenarios observation) = rfp_scenario_id ` set (rnp_scenarios plan) \<and>
      (\<forall>s \<in> set (rnp_scenarios plan). \<forall>r \<in> set (rno_scenarios observation).
         rso_scenario_id r = rfp_scenario_id s \<longrightarrow>
         rpo_access_node ` set (rso_paths r) = rpe_access_node ` set (rfp_paths s)))"

definition checks_of :: "RuntimePathExpectation \<Rightarrow> RuntimePathObservation \<Rightarrow> RuntimeCheck list" where
  "checks_of e q =
     map (\<lambda>(check, expected_value, actual_value).
       \<lparr>rc_check = check, rc_access_node = rpe_access_node e, rc_expected = expected_value,
        rc_actual = actual_value, rc_passed = (expected_value = actual_value)\<rparr>) (comparisons e q)"

lemma checks_of_facts [simp]:
  "length (checks_of e q) = 4" "list_all rc_passed (checks_of e q) \<longleftrightarrow> path_conforms e q"
  "length (filter rc_passed (checks_of e q)) = path_points e q"
proof -
  have same: "optional_json a = optional_json b \<longleftrightarrow> b = a" "JInt i = optional_json b \<longleftrightarrow> b = Some i" for a b i
    by (auto simp: optional_json_def split: option.splits)
  show "length (checks_of e q) = 4" by (simp add: checks_of_def comparisons_def)
  show "list_all rc_passed (checks_of e q) \<longleftrightarrow> path_conforms e q"
    by (auto simp: checks_of_def comparisons_def path_conforms_def same)
  show "length (filter rc_passed (checks_of e q)) = path_points e q"
    unfolding path_points_def checks_of_def comparisons_def count_by_filter [symmetric]
    by (cases "rpe_fault_metric e") (simp_all add: same)
qed

lemma path_checks_Inr:
  assumes "map_of observed_paths (rpe_access_node e) = Some q"
  shows "path_checks observed_paths (rpe_access_node e, e) = Inr (checks_of e q)"
  using assms by (simp add: path_checks_def checks_of_def)

lemma unique_by_key: "distinct (map f xs) \<Longrightarrow> x \<in> set xs \<Longrightarrow> y \<in> set xs \<Longrightarrow> f x = f y \<Longrightarrow> x = y"
  by (auto simp: distinct_map dest: inj_onD)

lemma scenario_checks_cases:
  assumes paths: "distinct (map rpe_access_node (rfp_paths s))" "distinct (map rpo_access_node (rso_paths r))"
    and r: "map_of observed_by_id (rfp_scenario_id s) = Some r"
  shows "if rpo_access_node ` set (rso_paths r) = rpe_access_node ` set (rfp_paths s)
    then \<exists>checks. scenario_checks observed_by_id s = Inr (s, checks) \<and> length checks = 4 * length (rfp_paths s) \<and>
      (list_all rc_passed checks \<longleftrightarrow> scenario_conforms s r) \<and> length (filter rc_passed checks) = scenario_points s r
    else \<exists>m. scenario_checks observed_by_id s = Inl (ValueError m)"
proof (cases "rpo_access_node ` set (rso_paths r) = rpe_access_node ` set (rfp_paths s)")
  case True
  let ?obs = "map (\<lambda>q. (rpo_access_node q, q)) (rso_paths r)"
  define pick where "pick e = the (map_of ?obs (rpe_access_node e))" for e :: RuntimePathExpectation
  have pick: "pick e \<in> set (rso_paths r) \<and> rpo_access_node (pick e) = rpe_access_node e \<and>
      map_of ?obs (rpe_access_node e) = Some (pick e)" if "e \<in> set (rfp_paths s)" for e
  proof -
    have "rpe_access_node e \<in> rpo_access_node ` set (rso_paths r)" using True that by blast
    then obtain q where q: "q \<in> set (rso_paths r)" "rpo_access_node q = rpe_access_node e" by force
    then have "map_of ?obs (rpe_access_node e) = Some q" using map_of_key_pairs [OF paths(2) q(1)] by simp
    then show ?thesis using q by (simp add: pick_def)
  qed
  have t: "traverse (path_checks ?obs) (map (\<lambda>e. (rpe_access_node e, e)) (rfp_paths s)) =
      Inr (map (\<lambda>e. checks_of e (pick e)) (rfp_paths s))"
    unfolding traverse_eq_Inr list_all2_map1 list_all2_map2 list_all2_same using pick path_checks_Inr by blast
  let ?checks = "concat (map (\<lambda>e. checks_of e (pick e)) (rfp_paths s))"
  have "scenario_checks observed_by_id s = Inr (s, ?checks)"
    using True t by (simp add: scenario_checks_def r Let_def dict_of_list_distinct [OF paths(1)]
      dict_of_list_distinct [OF paths(2)] image_image)
  moreover have "length ?checks = 4 * length (rfp_paths s)"
    by (simp add: length_concat comp_def sum_list_triv)
  moreover have "list_all rc_passed ?checks \<longleftrightarrow> (\<forall>e \<in> set (rfp_paths s). path_conforms e (pick e))"
    using checks_of_facts(2) by (simp add: list_all_iff)
  moreover have "path_conforms e (pick e) \<longleftrightarrow>
      (\<exists>q \<in> set (rso_paths r). rpo_access_node q = rpe_access_node e \<and> path_conforms e q)"
    if "e \<in> set (rfp_paths s)" for e
    using pick [OF that] unique_by_key [OF paths(2)] by metis
  moreover have "filter (\<lambda>q. rpo_access_node q = rpe_access_node e) (rso_paths r) = [pick e]" if "e \<in> set (rfp_paths s)" for e
    using pick [OF that] filter_by_key [OF paths(2), of "pick e"] by simp
  then have "length (filter rc_passed ?checks) = scenario_points s r"
    by (simp add: scenario_points_def filter_concat length_concat comp_def cong: map_cong)
  ultimately show ?thesis using True by (auto simp: scenario_conforms_def)
next
  case False
  then show ?thesis
    by (simp add: scenario_checks_def r Let_def dict_of_list_distinct [OF paths(1)] dict_of_list_distinct [OF paths(2)]
      image_image)
qed

lemma passed_all_checks: "passed_count scs = length (all_checks scs) \<longleftrightarrow> (\<forall>p \<in> set scs. list_all rc_passed (snd p))"
proof -
  have "sum_list (map (\<lambda>c. if P c then 1 else 0) cs) \<le> length cs \<and>
      (sum_list (map (\<lambda>c. if P c then 1 else 0) cs) = length cs \<longleftrightarrow> list_all P cs)" for P and cs :: "RuntimeCheck list"
    by (induction cs) auto
  then have "passed_count scs = length (all_checks scs) \<longleftrightarrow> list_all rc_passed (all_checks scs)"
    by (simp add: passed_count_def)
  then show ?thesis by (simp add: all_checks_def list_all_iff)
qed

text \<open>The members of a scenario's entry.\<close>

definition scenario_members :: "RuntimeFaultPlan \<times> RuntimeCheck list \<Rightarrow> (string \<times> json) list" where
  "scenario_members p =
     [(''scenario_id'', JString (rfp_scenario_id (fst p))), (''kind'', JString (rfp_kind (fst p))),
      (''component_id'', JString (rfp_component_id (fst p))),
      (''passed'', JBool (list_all rc_passed (snd p))), (''checks'', JArray (map check_json (snd p)))]"

lemma scenario_json_members: "scenario_json p = JObject (scenario_members p)"
  by (cases p) (simp add: scenario_json_def scenario_members_def)

text \<open>What validation establishes.\<close>

definition plan_unique :: "RuntimeN1Plan \<Rightarrow> bool" where
  "plan_unique p =
     (distinct (map rfp_scenario_id (rnp_scenarios p)) \<and>
      (\<forall>s \<in> set (rnp_scenarios p). distinct (map rpe_access_node (rfp_paths s))))"

definition observation_unique :: "RuntimeN1Observation \<Rightarrow> bool" where
  "observation_unique r =
     (distinct (map rso_scenario_id (rno_scenarios r)) \<and>
      (\<forall>s \<in> set (rno_scenarios r). distinct (map rpo_access_node (rso_paths s))))"

lemma validate_fault_plan_Inr:
  "validate_fault_plan s = Inr s' \<Longrightarrow> s' = s \<and> distinct (map rpe_access_node (rfp_paths s))"
  by (auto simp: validate_fault_plan_def rbind_eq_Inr)

lemma validated_plan_unique:
  assumes "validate_runtime_plan raw = Inr plan"
  shows "plan_unique plan"
proof -
  from assms obtain ss where t: "list_all2 (\<lambda>x y. validate_fault_plan x = Inr y) (rnp_scenarios raw) ss"
    and d: "distinct (map rfp_scenario_id ss)" "rnp_scenarios plan = ss"
    by (auto simp: validate_runtime_plan_def rbind_eq_Inr traverse_eq_Inr)
  have "distinct (map rpe_access_node (rfp_paths s))" if "s \<in> set ss" for s
    using list_all2_in_set2 [OF t that] validate_fault_plan_Inr by blast
  then show ?thesis using d by (simp add: plan_unique_def)
qed

lemma validated_observation_unique:
  assumes "validate_runtime_observation raw = Inr observation"
  shows "observation_unique observation"
proof -
  have s: "distinct (map rpo_access_node (rso_paths s))" if "validate_scenario_observation s = Inr ()" for s
    using that by (auto simp: validate_scenario_observation_def rbind_eq_Inr)
  from assms have "\<forall>s \<in> set (rno_scenarios raw). validate_scenario_observation s = Inr ()"
    "distinct (map rso_scenario_id (rno_scenarios raw))" "observation = raw"
    by (auto simp: validate_runtime_observation_def rbind_eq_Inr each_eq_Inr)
  then show ?thesis using s by (simp add: observation_unique_def)
qed

lemma sum_list_scaled: "\<forall>x \<in> set xs. f x = k * g x \<Longrightarrow> sum_list (map f xs) = (k :: nat) * sum_list (map g xs)"
  by (induction xs) (auto simp: distrib_left)

lemma compare_runtime_cases:
  assumes plan: "plan_unique plan" and obs: "observation_unique observation"
  shows "if observation_fits plan observation
    then \<exists>scs. compare_runtime plan observation = Inr scs \<and>
      length (all_checks scs) = 4 * sum_list (map (\<lambda>s. length (rfp_paths s)) (rnp_scenarios plan)) \<and>
      (passed_count scs = length (all_checks scs) \<longleftrightarrow> runtime_conforms plan observation) \<and>
      passed_count scs = runtime_points plan observation \<and>
      list_all2 (\<lambda>s p. fst p = s \<and> length (snd p) = 4 * length (rfp_paths s) \<and> (list_all rc_passed (snd p) \<longleftrightarrow>
        (\<exists>r \<in> set (rno_scenarios observation). rso_scenario_id r = rfp_scenario_id s \<and> scenario_conforms s r)))
        (rnp_scenarios plan) scs
    else \<exists>m. compare_runtime plan observation = Inl (ValueError m)"
proof (cases "rso_scenario_id ` set (rno_scenarios observation) = rfp_scenario_id ` set (rnp_scenarios plan)")
  case ids: True
  have dist: "distinct (map rso_scenario_id (rno_scenarios observation))" using obs by (simp add: observation_unique_def)
  let ?obs = "map (\<lambda>r. (rso_scenario_id r, r)) (rno_scenarios observation)"
  define pick where "pick s = the (map_of ?obs (rfp_scenario_id s))" for s :: RuntimeFaultPlan
  have pick: "pick s \<in> set (rno_scenarios observation) \<and> rso_scenario_id (pick s) = rfp_scenario_id s \<and>
      map_of ?obs (rfp_scenario_id s) = Some (pick s)" if "s \<in> set (rnp_scenarios plan)" for s
  proof -
    have "rfp_scenario_id s \<in> rso_scenario_id ` set (rno_scenarios observation)" using ids that by blast
    then obtain r where r: "r \<in> set (rno_scenarios observation)" "rso_scenario_id r = rfp_scenario_id s" by force
    then have "map_of ?obs (rfp_scenario_id s) = Some r" using map_of_key_pairs [OF dist r(1)] by simp
    then show ?thesis using r by (simp add: pick_def)
  qed
  have run: "compare_runtime plan observation = traverse (scenario_checks ?obs) (rnp_scenarios plan)"
    using ids by (simp add: compare_runtime_def Let_def dict_of_list_distinct [OF dist] image_image)
  have one: "if rpo_access_node ` set (rso_paths (pick s)) = rpe_access_node ` set (rfp_paths s)
    then \<exists>checks. scenario_checks ?obs s = Inr (s, checks) \<and> length checks = 4 * length (rfp_paths s) \<and>
      (list_all rc_passed checks \<longleftrightarrow> scenario_conforms s (pick s)) \<and>
      length (filter rc_passed checks) = scenario_points s (pick s)
    else \<exists>m. scenario_checks ?obs s = Inl (ValueError m)" if s: "s \<in> set (rnp_scenarios plan)" for s
    using pick [OF s] plan obs s scenario_checks_cases [of s "pick s" ?obs]
    by (simp add: plan_unique_def observation_unique_def)
  have same: "r = pick s" if "s \<in> set (rnp_scenarios plan)" "r \<in> set (rno_scenarios observation)"
    "rso_scenario_id r = rfp_scenario_id s" for r s
    using unique_by_key [OF dist that(2)] pick [OF that(1)] that(3) by simp
  have fits: "observation_fits plan observation \<longleftrightarrow> (\<forall>s \<in> set (rnp_scenarios plan).
      rpo_access_node ` set (rso_paths (pick s)) = rpe_access_node ` set (rfp_paths s))"
  proof (intro iffI ballI)
    show "rpo_access_node ` set (rso_paths (pick s)) = rpe_access_node ` set (rfp_paths s)"
      if "observation_fits plan observation" "s \<in> set (rnp_scenarios plan)" for s
    proof -
      note p = pick [OF that(2)]
      from that(1) have "\<forall>r \<in> set (rno_scenarios observation). rso_scenario_id r = rfp_scenario_id s \<longrightarrow>
         rpo_access_node ` set (rso_paths r) = rpe_access_node ` set (rfp_paths s)"
        using that(2) unfolding observation_fits_def by simp
      from bspec [OF this, of "pick s"] p show ?thesis by simp
    qed
    show "observation_fits plan observation"
      if "\<forall>s \<in> set (rnp_scenarios plan). rpo_access_node ` set (rso_paths (pick s)) = rpe_access_node ` set (rfp_paths s)"
      unfolding observation_fits_def
    proof (intro conjI ids ballI impI)
      fix s r assume m: "s \<in> set (rnp_scenarios plan)" "r \<in> set (rno_scenarios observation)"
        "rso_scenario_id r = rfp_scenario_id s"
      show "rpo_access_node ` set (rso_paths r) = rpe_access_node ` set (rfp_paths s)"
        unfolding same [OF m] using that m(1) by blast
    qed
  qed
  show ?thesis
  proof (cases "observation_fits plan observation")
    case True
    have "\<forall>s \<in> set (rnp_scenarios plan). \<exists>checks. scenario_checks ?obs s = Inr (s, checks) \<and>
        length checks = 4 * length (rfp_paths s) \<and> (list_all rc_passed checks \<longleftrightarrow> scenario_conforms s (pick s)) \<and>
        length (filter rc_passed checks) = scenario_points s (pick s)"
    proof
      fix s assume s: "s \<in> set (rnp_scenarios plan)"
      have "rpo_access_node ` set (rso_paths (pick s)) = rpe_access_node ` set (rfp_paths s)" using fits True s by blast
      then show "\<exists>checks. scenario_checks ?obs s = Inr (s, checks) \<and> length checks = 4 * length (rfp_paths s) \<and>
        (list_all rc_passed checks \<longleftrightarrow> scenario_conforms s (pick s)) \<and>
        length (filter rc_passed checks) = scenario_points s (pick s)" using one [OF s] by simp
    qed
    from bchoice [OF this] obtain checks where c: "\<And>s. s \<in> set (rnp_scenarios plan) \<Longrightarrow>
        scenario_checks ?obs s = Inr (s, checks s) \<and> length (checks s) = 4 * length (rfp_paths s) \<and>
        (list_all rc_passed (checks s) \<longleftrightarrow> scenario_conforms s (pick s)) \<and>
        length (filter rc_passed (checks s)) = scenario_points s (pick s)"
      by blast
    let ?scs = "map (\<lambda>s. (s, checks s)) (rnp_scenarios plan)"
    have "compare_runtime plan observation = Inr ?scs" unfolding run using c by (intro traverse_total) blast
    moreover have "length (all_checks ?scs) = 4 * sum_list (map (\<lambda>s. length (rfp_paths s)) (rnp_scenarios plan))"
      using c by (simp add: all_checks_def length_concat comp_def sum_list_scaled [of _ "\<lambda>s. length (checks s)"])
    moreover have "passed_count ?scs = length (all_checks ?scs) \<longleftrightarrow> runtime_conforms plan observation"
    proof -
      have "passed_count ?scs = length (all_checks ?scs) \<longleftrightarrow> (\<forall>s \<in> set (rnp_scenarios plan). scenario_conforms s (pick s))"
        unfolding passed_all_checks using c by simp
      also have "\<dots> \<longleftrightarrow> runtime_conforms plan observation"
        unfolding runtime_conforms_def using pick same by blast
      finally show ?thesis .
    qed
    moreover have "filter (\<lambda>r. rso_scenario_id r = rfp_scenario_id s) (rno_scenarios observation) = [pick s]"
      if "s \<in> set (rnp_scenarios plan)" for s
      using pick [OF that] filter_by_key [OF dist, of "pick s"] by simp
    then have "passed_count ?scs = runtime_points plan observation"
      using c by (simp add: passed_count_def count_by_filter runtime_points_def all_checks_def filter_concat length_concat
        comp_def cong: map_cong)
    moreover have "(\<exists>r \<in> set (rno_scenarios observation). rso_scenario_id r = rfp_scenario_id s \<and> scenario_conforms s r) \<longleftrightarrow>
        scenario_conforms s (pick s)" if "s \<in> set (rnp_scenarios plan)" for s
      using pick [OF that] same [OF that] by metis
    then have "list_all2 (\<lambda>s p. fst p = s \<and> length (snd p) = 4 * length (rfp_paths s) \<and> (list_all rc_passed (snd p) \<longleftrightarrow>
        (\<exists>r \<in> set (rno_scenarios observation). rso_scenario_id r = rfp_scenario_id s \<and> scenario_conforms s r)))
        (rnp_scenarios plan) ?scs"
      using c by (simp add: list_all2_map2 list_all2_same)
    ultimately show ?thesis using True by auto
  next
    case False
    then obtain s where "s \<in> set (rnp_scenarios plan)"
      "rpo_access_node ` set (rso_paths (pick s)) \<noteq> rpe_access_node ` set (rfp_paths s)" using fits by blast
    with one have bad: "\<exists>m. scenario_checks ?obs s = Inl (ValueError m)" by simp
    have "traverse (scenario_checks ?obs) (rnp_scenarios plan) \<noteq> Inr scs" for scs
    proof
      assume "traverse (scenario_checks ?obs) (rnp_scenarios plan) = Inr scs"
      then have "\<exists>p. scenario_checks ?obs s = Inr p"
        unfolding traverse_eq_Inr using list_all2_in_set1 [OF _ \<open>s \<in> _\<close>] by blast
      then show False using bad by auto
    qed
    then obtain e where e: "traverse (scenario_checks ?obs) (rnp_scenarios plan) = Inl e"
      by (cases "traverse (scenario_checks ?obs) (rnp_scenarios plan)") auto
    obtain s' where "s' \<in> set (rnp_scenarios plan)" "scenario_checks ?obs s' = Inl e" using traverse_eq_Inl [OF e] by blast
    then have "\<exists>m. e = ValueError m" using one [of s'] by (auto split: if_splits)
    then show ?thesis using e False run by auto
  qed
next
  case False
  then have "\<not> observation_fits plan observation" by (simp add: observation_fits_def)
  moreover have "distinct (map rso_scenario_id (rno_scenarios observation))" using obs by (simp add: observation_unique_def)
  ultimately show ?thesis
    using False by (simp add: compare_runtime_def Let_def dict_of_list_distinct image_image)
qed

text \<open>
  C24: The verdict of a runtime campaign is exact: a validated observation is compared when it
  has the plan's scenarios and their access nodes, and is refused with a \<open>ValueError\<close>
  otherwise. The evidence then counts four checks for each planned path; \<open>passed\<close> is the
  number of predictions the observation meets and \<open>failed\<close> the rest; the scenarios are
  listed in the plan's order, each passed exactly when it conforms; and the whole passes exactly
  when every access node had, in every scenario, the planned metric and reachability under the
  fault and the baseline metric with reachability after the repair.
\<close>

theorem runtime_verdict:
  assumes "validate_runtime_plan raw_plan = Inr plan" "validate_runtime_observation raw_observation = Inr observation"
  defines "planned \<equiv> 4 * sum_list (map (\<lambda>s. length (rfp_paths s)) (rnp_scenarios plan))"
  shows "if observation_fits plan observation
    then \<exists>doc summary scenarios. build_runtime_n1_evidence sha256 plan observation = Inr doc \<and>
      jget ''passed_all'' doc = JBool (runtime_conforms plan observation) \<and>
      jget ''summary'' doc = JObject summary \<and>
      jget ''total'' summary = JInt (int planned) \<and>
      jget ''passed'' summary = JInt (int (runtime_points plan observation)) \<and>
      jget ''failed'' summary = JInt (int planned - int (runtime_points plan observation)) \<and>
      jget ''scenarios'' doc = JArray (map JObject scenarios) \<and>
      list_all2 (\<lambda>s d. jget ''scenario_id'' d = JString (rfp_scenario_id s) \<and>
        jget ''passed'' d = JBool (\<exists>r \<in> set (rno_scenarios observation).
          rso_scenario_id r = rfp_scenario_id s \<and> scenario_conforms s r)) (rnp_scenarios plan) scenarios \<and>
      (verify_exit_code doc = 0 \<longleftrightarrow> runtime_conforms plan observation)
    else \<exists>m. build_runtime_n1_evidence sha256 plan observation = Inl (ValueError m)"
proof -
  note cases = compare_runtime_cases [OF validated_plan_unique [OF assms(1)] validated_observation_unique [OF assms(2)]]
  show ?thesis
  proof (cases "observation_fits plan observation")
    case True
    then obtain scs where c: "compare_runtime plan observation = Inr scs" "length (all_checks scs) = planned"
      "passed_count scs = length (all_checks scs) \<longleftrightarrow> runtime_conforms plan observation"
      "passed_count scs = runtime_points plan observation"
      and l: "list_all2 (\<lambda>s p. fst p = s \<and> length (snd p) = 4 * length (rfp_paths s) \<and> (list_all rc_passed (snd p) \<longleftrightarrow>
        (\<exists>r \<in> set (rno_scenarios observation). rso_scenario_id r = rfp_scenario_id s \<and> scenario_conforms s r)))
        (rnp_scenarios plan) scs"
      using cases unfolding planned_def by auto
    have members: "map scenario_json scs = map JObject (map scenario_members scs)"
      by (simp add: scenario_json_members comp_def)
    have "list_all2 (\<lambda>s d. jget ''scenario_id'' d = JString (rfp_scenario_id s) \<and>
        jget ''passed'' d = JBool (\<exists>r \<in> set (rno_scenarios observation).
          rso_scenario_id r = rfp_scenario_id s \<and> scenario_conforms s r)) (rnp_scenarios plan) (map scenario_members scs)"
      unfolding list_all2_map2 using l by (rule list_all2_mono) (auto simp: scenario_members_def jget_def)
    then show ?thesis
      using True c members
      by (auto simp: build_runtime_n1_evidence_def Let_def jget_def [of _ "_ # _"] verify_exit_code_def
        intro!: exI [of _ "map scenario_members scs"])
  next
    case False
    then show ?thesis using cases by (auto simp: build_runtime_n1_evidence_def)
  qed
qed

text \<open>A plan with one scenario and two observations of it.\<close>

definition example_plan :: RuntimeN1Plan where
  "example_plan =
     \<lparr>rnp_schema_version = 1, rnp_source = ''intent_runtime_n1_plan'', rnp_topology_sha256 = replicate 64 (CHR ''a''),
      rnp_lab_sha256 = replicate 64 (CHR ''b''), rnp_service_prefix = ''10.0.0.9/32'',
      rnp_baseline_adjacencies = [\<lparr>bae_router = ''access1'', bae_full_neighbors = 2\<rparr>],
      rnp_scenarios = [\<lparr>rfp_scenario_id = ''link:a--b'', rfp_kind = ''link'', rfp_component_id = ''a--b'',
        rfp_injections = [\<lparr>inj_node = ''a'', inj_interface = ''eth1''\<rparr>],
        rfp_paths = [\<lparr>rpe_access_node = ''access1'', rpe_baseline_metric = 30, rpe_fault_metric = Some 140\<rparr>]\<rparr>]\<rparr>"

definition example_observation :: "int \<Rightarrow> RuntimeN1Observation" where
  "example_observation metric =
     \<lparr>rno_schema_version = 1, rno_source = ''containerlab_frr_observation'',
      rno_scenarios = [\<lparr>rso_scenario_id = ''link:a--b'', rso_paths = [\<lparr>rpo_access_node = ''access1'',
        rpo_fault_metric = Some metric, rpo_fault_reachable = True, rpo_restored_metric = Some 30,
        rpo_restored_reachable = True\<rparr>]\<rparr>]\<rparr>"

lemma example_runtime_valid:
  "validate_runtime_plan example_plan = Inr example_plan"
  "validate_runtime_observation (example_observation m) = Inr (example_observation m)" if "0 \<le> m"
  subgoal by code_simp
  subgoal using that by (simp add: example_observation_def validate_runtime_observation_def item_count_def
      validate_scenario_observation_def validate_path_observation_def matching_def nonnegative_def)
      code_simp
  done

theorem runtime_verdict_witness:
  "(\<exists>doc. build_runtime_n1_evidence (\<lambda>x. x) example_plan (example_observation 140) = Inr doc \<and> verify_exit_code doc = 0) \<and>
   (\<exists>doc summary. build_runtime_n1_evidence (\<lambda>x. x) example_plan (example_observation 30) = Inr doc \<and>
      verify_exit_code doc \<noteq> 0 \<and> jget ''summary'' doc = JObject summary \<and>
      jget ''passed'' summary = JInt 3 \<and> jget ''failed'' summary = JInt 1)"
proof -
  have fits: "observation_fits example_plan (example_observation m)" for m
    by (simp add: observation_fits_def example_plan_def example_observation_def)
  have conforms: "runtime_conforms example_plan (example_observation m) \<longleftrightarrow> m = 140" for m
    by (auto simp: runtime_conforms_def scenario_conforms_def path_conforms_def example_plan_def example_observation_def)
  have points: "runtime_points example_plan (example_observation 30) = 3"
    "sum_list (map (\<lambda>s. length (rfp_paths s)) (rnp_scenarios example_plan)) = 1"
    by code_simp+
  have v: "validate_runtime_observation (example_observation 140) = Inr (example_observation 140)"
    "validate_runtime_observation (example_observation 30) = Inr (example_observation 30)"
    "validate_runtime_plan example_plan = Inr example_plan"
    using example_runtime_valid [of 140] example_runtime_valid [of 30] by simp_all
  show ?thesis
    using runtime_verdict [OF v(3) v(1), of "\<lambda>x. x"] runtime_verdict [OF v(3) v(2), of "\<lambda>x. x"]
    by (auto simp: fits conforms points)
qed

end
