(* ===== verification/Runtime_Plan.thy ===== *)
theory Runtime_Plan
  imports Runtime_Evidence Link_Impact
begin

text \<open>
  \<open>runtime_resilience.py\<close>, third part: the bounded reading of YAML, the containerlab links,
  and the plan built from an intent and its lab. Parsing YAML (its events and its document,
  whose mappings have string keys here), reading the intent model out of a document, and SHA-256
  are parameters.
\<close>

section \<open>Bounded YAML\<close>

datatype yaml_event = StartEvent | EndEvent | AliasEvent | OtherEvent

text \<open>
  What the library does with a text: whether the bytes are UTF-8, the events it yields until it
  ends or raises, the document it loads, and the intent model validated out of a document.
\<close>

record YamlLibrary =
  utf8_decode :: "string \<Rightarrow> string option"
  yaml_parse :: "string \<Rightarrow> yaml_event list \<times> py_error option"
  yaml_load :: "string \<Rightarrow> json result"
  intent_model :: "json \<Rightarrow> NetworkIntent result"

definition max_yaml_bytes :: nat where "max_yaml_bytes = 1024 * 1024"
definition max_yaml_events :: nat where "max_yaml_events = 10000"
definition max_yaml_aliases :: nat where "max_yaml_aliases = 64"
definition max_yaml_depth :: int where "max_yaml_depth = 32"

text \<open>The loop's counters: events, aliases and depth.\<close>

definition count_yaml_event :: "string \<Rightarrow> nat \<times> nat \<times> int \<Rightarrow> yaml_event \<Rightarrow> (nat \<times> nat \<times> int) result" where
  "count_yaml_event label_text counters event =
     (case counters of (event_count, alias_count, depth) \<Rightarrow>
        rbind (ensure (Suc event_count \<le> max_yaml_events) (label_text @ '' contains too many YAML events'')) (\<lambda>_.
        case event of
          AliasEvent \<Rightarrow>
            rbind (ensure (Suc alias_count \<le> max_yaml_aliases) (label_text @ '' contains too many YAML aliases'')) (\<lambda>_.
              Inr (Suc event_count, Suc alias_count, depth))
        | StartEvent \<Rightarrow>
            rbind (ensure (depth + 1 \<le> max_yaml_depth) (label_text @ '' exceeds the YAML nesting limit'')) (\<lambda>_.
              Inr (Suc event_count, alias_count, depth + 1))
        | EndEvent \<Rightarrow> Inr (Suc event_count, alias_count, depth - 1)
        | OtherEvent \<Rightarrow> Inr (Suc event_count, alias_count, depth)))"

definition load_yaml_snapshot :: "YamlLibrary \<Rightarrow> string \<Rightarrow> string \<Rightarrow> json result" where
  "load_yaml_snapshot lib raw label_text =
     (case utf8_decode lib raw of
        None \<Rightarrow> Inl (ValueError (label_text @ '' must be UTF-8''))
      | Some source \<Rightarrow>
          (case yaml_parse lib source of (events, failure) \<Rightarrow>
             rbind (fold_res (count_yaml_event label_text) (0, 0, 0) events) (\<lambda>_.
             case failure of Some e \<Rightarrow> Inl e | None \<Rightarrow> yaml_load lib source)))"

definition n1_sequence :: "json \<Rightarrow> string \<Rightarrow> json list result" where
  "n1_sequence value label_text =
     (case value of JArray xs \<Rightarrow> Inr xs | _ \<Rightarrow> Inl (ValueError (label_text @ '' must be a sequence'')))"

definition validate_raw_topology_limits :: "(string \<times> json) list \<Rightarrow> unit result" where
  "validate_raw_topology_limits document =
     rbind (n1_mapping (jget ''nodes'' document) ''candidate intent nodes'') (\<lambda>nodes.
     rbind (ensure (1 \<le> length nodes \<and> length nodes \<le> 64) ''candidate intent must contain at most 64 nodes'') (\<lambda>_.
     rbind (n1_sequence (jget ''links'' document) ''candidate intent links'') (\<lambda>links.
       ensure (1 \<le> length links \<and> length links \<le> 128) ''candidate intent must contain 1 to 128 links'')))"

section \<open>The lab\<close>

text \<open>\<open>raw.replace(b"\r\n", b"\n")\<close>\<close>

fun crlf_to_lf :: "string \<Rightarrow> string" where
  "crlf_to_lf [] = []"
| "crlf_to_lf [c] = [c]"
| "crlf_to_lf (c # d # s) =
     (if c = CHR 0x0D \<and> d = newline then newline # crlf_to_lf s else c # crlf_to_lf (d # s))"

definition parse_lab_endpoint :: "string list \<Rightarrow> json \<Rightarrow> (string \<times> string) result" where
  "parse_lab_endpoint nodes value =
     (case value of
        JString s \<Rightarrow>
          (case split_char (CHR '':'') s of
             [node, interface] \<Rightarrow>
               rbind (ensure (node \<in> set nodes \<and> short_identifier node)
                 (''containerlab endpoint uses an unknown node: '' @ node)) (\<lambda>_.
               rbind (ensure (eth_name interface) (''unsupported containerlab interface: '' @ interface)) (\<lambda>_.
                 Inr (node, interface)))
           | _ \<Rightarrow> Inl (ValueError ''containerlab endpoint must be node:interface''))
      | _ \<Rightarrow> Inl (ValueError ''containerlab endpoint must be node:interface''))"

text \<open>
  \<open>dict[frozenset[str], dict[str, str]]\<close>: a pair of nodes is the sorted list of its members.
\<close>

type_synonym lab_wiring = "(string list \<times> string dict) list"

definition lab_pair :: "string \<Rightarrow> string \<Rightarrow> string list" where
  "lab_pair a b = sort (remdups [a, b])"

definition add_lab_link :: "string list \<Rightarrow> lab_wiring \<Rightarrow> nat \<times> json \<Rightarrow> lab_wiring result" where
  "add_lab_link nodes pairs numbered =
     rbind (n1_mapping (snd numbered) (''containerlab link '' @ nat_str (fst numbered))) (\<lambda>link.
     rbind (ensure (set (dict_keys link) = {''endpoints''}) ''containerlab link must contain only endpoints'') (\<lambda>_.
     rbind (n1_sequence (jget ''endpoints'' link) ''containerlab endpoints'') (\<lambda>endpoint_values.
     rbind (ensure (length endpoint_values = 2) ''containerlab link must contain exactly two endpoints'') (\<lambda>_.
     rbind (traverse (parse_lab_endpoint nodes) endpoint_values) (\<lambda>endpoints.
       let (a, i) = hd endpoints; (b, j) = last endpoints; pair = lab_pair a b in
       rbind (ensure (length pair = 2) ''containerlab self-links are not supported'') (\<lambda>_.
       rbind (ensure (pair \<notin> set (dict_keys pairs)) ''parallel containerlab links are not supported'') (\<lambda>_.
         Inr (dict_set pair [(a, i), (b, j)] pairs))))))))"

definition load_lab_links :: "YamlLibrary \<Rightarrow> file_on_disk \<Rightarrow> (string \<times> lab_wiring) result" where
  "load_lab_links lib path =
     rbind (ensure_bounded_file path ''containerlab topology'' max_yaml_bytes) (\<lambda>raw.
     rbind (rbind (load_yaml_snapshot lib raw ''containerlab topology'') (\<lambda>d. n1_mapping d ''containerlab document'')) (\<lambda>document.
     rbind (n1_mapping (jget ''topology'' document) ''containerlab topology'') (\<lambda>topology.
     rbind (n1_mapping (jget ''nodes'' topology) ''containerlab nodes'') (\<lambda>node_document.
     rbind (ensure (1 \<le> length node_document \<and> length node_document \<le> 64)
       ''containerlab nodes must contain 1 to 64 entries'') (\<lambda>_.
     rbind (ensure (list_all short_identifier (dict_keys node_document)) ''containerlab node name is invalid'') (\<lambda>_.
     rbind (n1_sequence (jget ''links'' topology) ''containerlab links'') (\<lambda>links.
     rbind (ensure (1 \<le> length links \<and> length links \<le> 128) ''containerlab links must contain 1 to 128 entries'') (\<lambda>_.
     rbind (fold_res (add_lab_link (dict_keys node_document)) [] (zip [0..<length links] links)) (\<lambda>pairs.
       Inr (crlf_to_lf raw, pairs))))))))))"

section \<open>The plan\<close>

definition mk_injection :: "string \<Rightarrow> string \<Rightarrow> InjectionInterface result" where
  "mk_injection node interface =
     (let i = \<lparr>inj_node = node, inj_interface = interface\<rparr> in rbind (validate_injection i) (\<lambda>_. Inr i))"

definition link_injections :: "lab_wiring \<Rightarrow> Topology \<Rightarrow> string \<Rightarrow> InjectionInterface list result" where
  "link_injections wiring t component_id =
     rbind (topo_link t component_id) (\<lambda>link.
       case map_of wiring (lab_pair (endpoint_a link) (endpoint_b link)) of
         None \<Rightarrow> Inl (ValueError (''intent link is missing from containerlab: '' @ component_id))
       | Some interfaces \<Rightarrow>
           traverse (\<lambda>node.
             case map_of interfaces node of
               None \<Rightarrow> Inl (KeyError node)
             | Some interface \<Rightarrow> mk_injection node interface) [endpoint_a link, endpoint_b link])"

definition node_injections :: "lab_wiring \<Rightarrow> string \<Rightarrow> InjectionInterface list result" where
  "node_injections wiring component_id =
     rbind (traverse (mk_injection component_id)
       (List.map_filter (\<lambda>interfaces. map_of interfaces component_id) (dict_values wiring))) (\<lambda>unsorted.
     let injections = sort_key inj_interface unsorted in
     rbind (ensure (injections \<noteq> []) (''intent node has no containerlab interfaces: '' @ component_id)) (\<lambda>_.
       Inr injections))"

definition fault_injections :: "lab_wiring \<Rightarrow> Topology \<Rightarrow> FaultScenario \<Rightarrow> (string \<times> InjectionInterface list) result" where
  "fault_injections wiring t fault =
     (case (excluded_links fault, excluded_nodes fault) of
        (component_id # _, _) \<Rightarrow>
          rbind (link_injections wiring t component_id) (\<lambda>injections. Inr (component_id, injections))
      | ([], component_id # _) \<Rightarrow>
          rbind (node_injections wiring component_id) (\<lambda>injections. Inr (component_id, injections))
      | ([], []) \<Rightarrow> Inl (RuntimeError ''StopIteration''))"

definition path_expectation :: "AccessPathResult \<Rightarrow> RuntimePathExpectation" where
  "path_expectation path =
     \<lparr>rpe_access_node = access_node path, rpe_baseline_metric = baseline_cost path,
      rpe_fault_metric = post_fault_cost path\<rparr>"

definition plan_scenario :: "lab_wiring \<Rightarrow> Topology \<Rightarrow> FaultScenarioResult \<Rightarrow> RuntimeFaultPlan result" where
  "plan_scenario wiring t result =
     rbind (fault_injections wiring t (fr_fault result)) (\<lambda>(component_id, injections).
       validate_fault_plan
         \<lparr>rfp_scenario_id = fault_id (fr_fault result), rfp_kind = fault_kind_value (fault_kind (fr_fault result)),
          rfp_component_id = component_id, rfp_injections = injections,
          rfp_paths = map path_expectation (fr_paths result)\<rparr>)"

definition add_degree :: "int dict \<Rightarrow> string \<Rightarrow> int dict result" where
  "add_degree d name = (case map_of d name of None \<Rightarrow> Inl (KeyError name) | Some n \<Rightarrow> Inr (dict_set name (n + 1) d))"

definition node_degrees :: "Topology \<Rightarrow> int dict result" where
  "node_degrees t =
     fold_res add_degree (map (\<lambda>n. (node_name n, 0)) (topo_nodes t))
       (concat (map (\<lambda>l. [endpoint_a l, endpoint_b l]) (topo_links t)))"

definition adjacency_expectation :: "int dict \<Rightarrow> Node \<Rightarrow> BaselineAdjacencyExpectation result" where
  "adjacency_expectation degrees n =
     (case map_of degrees (node_name n) of
        None \<Rightarrow> Inl (KeyError (node_name n))
      | Some full \<Rightarrow>
          (let a = \<lparr>bae_router = node_name n, bae_full_neighbors = full\<rparr> in
           rbind (validate_adjacency a) (\<lambda>_. Inr a)))"

text \<open>The intent is read, checked and turned into a topology.\<close>

definition read_candidate :: "YamlLibrary \<Rightarrow> file_on_disk \<Rightarrow> Topology result" where
  "read_candidate lib intent_path =
     rbind (ensure_bounded_file intent_path ''candidate intent'' max_yaml_bytes) (\<lambda>intent_raw.
     rbind (rbind (load_yaml_snapshot lib intent_raw ''candidate intent'') (\<lambda>d. n1_mapping d ''candidate intent'')) (\<lambda>document.
     rbind (validate_raw_topology_limits document) (\<lambda>_.
     rbind (rbind (intent_model lib (JObject document)) validate_intent) to_topology)))"

text \<open>The faults of the plan, after the limits on the topology.\<close>

definition plan_faults :: "Topology \<Rightarrow> (string \<times> FaultScenario list) result" where
  "plan_faults t =
     rbind (ensure (1 \<le> length (access_names t) \<and> length (access_names t) \<le> 16)
       ''candidate intent must contain 1 to 16 access nodes'') (\<lambda>_.
     rbind (ensure (sum_list (map (\<lambda>n. length (node_prefixes n)) (topo_nodes t)) \<le> 128)
       ''candidate intent must contain at most 128 prefixes'') (\<lambda>_.
     case concat (map node_prefixes (filter (\<lambda>n. node_role n = SERVICE) (topo_nodes t))) of
       [service_prefix] \<Rightarrow>
         rbind (link_failure_scenarios t) (\<lambda>links.
         rbind (transport_node_failure_scenarios t) (\<lambda>nodes.
         rbind (ensure (length (links @ nodes) \<le> 64) ''runtime N-1 plan supports at most 64 scenarios'') (\<lambda>_.
           Inr (service_prefix, links @ nodes))))
     | _ \<Rightarrow> Inl (ValueError ''runtime N-1 plan requires exactly one service prefix'')))"

definition build_runtime_n1_plan ::
  "(string \<Rightarrow> string) \<Rightarrow> YamlLibrary \<Rightarrow> file_on_disk \<Rightarrow> file_on_disk \<Rightarrow> RuntimeN1Plan result" where
  "build_runtime_n1_plan sha256 lib intent_path lab_path =
     rbind (read_candidate lib intent_path) (\<lambda>t.
     rbind (load_lab_links lib lab_path) (\<lambda>(lab_raw, wiring).
     rbind (plan_faults t) (\<lambda>(service_prefix, faults).
     rbind (audit_fault_scenarios t faults) (\<lambda>audit.
     rbind (node_degrees t) (\<lambda>degrees.
     rbind (ensure (0 \<notin> set (dict_values degrees)) ''runtime N-1 plan requires every intent node to have a neighbor'') (\<lambda>_.
     rbind (traverse (plan_scenario wiring t) (audit_scenarios audit)) (\<lambda>scenarios.
     rbind (traverse (adjacency_expectation degrees) (topo_nodes t)) (\<lambda>adjacencies.
       validate_runtime_plan
         \<lparr>rnp_schema_version = 1, rnp_source = ''intent_runtime_n1_plan'',
          rnp_topology_sha256 = topology_fingerprint sha256 t, rnp_lab_sha256 = sha256 lab_raw,
          rnp_service_prefix = service_prefix, rnp_baseline_adjacencies = adjacencies,
          rnp_scenarios = scenarios\<rparr>))))))))"

section \<open>What a plan says\<close>

definition transport_nodes :: "Topology \<Rightarrow> Node list" where
  "transport_nodes t = filter (\<lambda>n. transport_role (node_role n)) (topo_nodes t)"

definition single_faults :: "Topology \<Rightarrow> FaultScenario list" where
  "single_faults t = map link_fault_of (topo_links t) @ map node_fault_of (transport_nodes t)"

lemma generated_faults:
  assumes "link_failure_scenarios t = Inr links" "transport_node_failure_scenarios t = Inr nodes"
  shows "links @ nodes = single_faults t"
proof -
  have "list_all2 (\<lambda>l f. f = link_fault_of l) (topo_links t) links"
    using assms(1) unfolding link_failure_scenarios_def traverse_eq_Inr
    by (rule list_all2_mono) (auto simp: mk_fault_Inr link_fault_of_def)
  then have "links = map link_fault_of (topo_links t)" by (simp add: list_all2_conv_all_nth list_eq_iff_nth_eq)
  moreover have "list_all2 (\<lambda>n f. f = node_fault_of n) (transport_nodes t) nodes"
    using assms(2) unfolding transport_node_failure_scenarios_def rbind_eq_Inr traverse_eq_Inr transport_nodes_def
    by (auto elim!: list_all2_mono simp: mk_fault_Inr node_fault_of_def)
  then have "nodes = map node_fault_of (transport_nodes t)" by (simp add: list_all2_conv_all_nth list_eq_iff_nth_eq)
  ultimately show ?thesis by (simp add: single_faults_def)
qed

text \<open>
  The interfaces taken down for a fault: the two ends of the lab link that joins the failed
  link's nodes, or every lab interface of the failed node.
\<close>

definition injected :: "lab_wiring \<Rightarrow> Topology \<Rightarrow> FaultScenario \<Rightarrow> InjectionInterface list \<Rightarrow> bool" where
  "injected wiring t fault injections =
     (case excluded_links fault of
        lid # _ \<Rightarrow>
          (\<exists>l ends i j. topo_link t lid = Inr l \<and> map_of wiring (lab_pair (endpoint_a l) (endpoint_b l)) = Some ends \<and>
             map_of ends (endpoint_a l) = Some i \<and> map_of ends (endpoint_b l) = Some j \<and>
             injections = [\<lparr>inj_node = endpoint_a l, inj_interface = i\<rparr>, \<lparr>inj_node = endpoint_b l, inj_interface = j\<rparr>])
      | [] \<Rightarrow>
          injections \<noteq> [] \<and> set injections =
            {\<lparr>inj_node = hd (excluded_nodes fault), inj_interface = i\<rparr> |i.
              \<exists>ends \<in> set (dict_values wiring). map_of ends (hd (excluded_nodes fault)) = Some i})"

definition scenario_predicts :: "lab_wiring \<Rightarrow> Topology \<Rightarrow> FaultScenario \<Rightarrow> RuntimeFaultPlan \<Rightarrow> bool" where
  "scenario_predicts wiring t fault s =
     (rfp_scenario_id s = fault_id fault \<and> rfp_kind s = fault_kind_value (fault_kind fault) \<and>
      injected wiring t fault (rfp_injections s) \<and>
      map rpe_access_node (rfp_paths s) = access_names t \<and>
      (\<forall>e \<in> set (rfp_paths s).
         distance_spec t [] [] (rpe_access_node e) (set (service_names t)) (Some (rpe_baseline_metric e)) \<and>
         distance_spec t (excluded_links fault) (excluded_nodes fault) (rpe_access_node e) (set (service_names t))
           (rpe_fault_metric e)))"

lemma mk_injection_Inr: "mk_injection n i = Inr x \<Longrightarrow> x = \<lparr>inj_node = n, inj_interface = i\<rparr>"
  by (auto simp: mk_injection_def Let_def rbind_eq_Inr)

lemma link_injected:
  assumes "link_injections wiring t lid = Inr injections"
  shows "\<exists>l ends i j. topo_link t lid = Inr l \<and> map_of wiring (lab_pair (endpoint_a l) (endpoint_b l)) = Some ends \<and>
     map_of ends (endpoint_a l) = Some i \<and> map_of ends (endpoint_b l) = Some j \<and>
     injections = [\<lparr>inj_node = endpoint_a l, inj_interface = i\<rparr>, \<lparr>inj_node = endpoint_b l, inj_interface = j\<rparr>]"
proof -
  from assms obtain l where l: "topo_link t lid = Inr l"
    and c: "(case map_of wiring (lab_pair (endpoint_a l) (endpoint_b l)) of
         None \<Rightarrow> Inl (ValueError (''intent link is missing from containerlab: '' @ lid))
       | Some interfaces \<Rightarrow>
           traverse (\<lambda>node.
             case map_of interfaces node of
               None \<Rightarrow> Inl (KeyError node)
             | Some interface \<Rightarrow> mk_injection node interface) [endpoint_a l, endpoint_b l]) = Inr injections"
    by (auto simp: link_injections_def rbind_eq_Inr simp del: traverse.simps)
  then obtain ends where ends: "map_of wiring (lab_pair (endpoint_a l) (endpoint_b l)) = Some ends"
    by (auto split: option.splits)
  show ?thesis
    using c l ends by (cases "map_of ends (endpoint_a l)"; cases "map_of ends (endpoint_b l)")
      (auto simp: rbind_eq_Inr dest!: mk_injection_Inr)
qed

lemma set_filtered: "set (List.map_filter f xs) = {y. \<exists>x \<in> set xs. f x = Some y}"
  by (induction xs) (auto simp: List.map_filter_simps split: option.splits)

lemma node_injected:
  assumes "node_injections wiring node = Inr injections"
  shows "injections \<noteq> [] \<and> set injections =
    {\<lparr>inj_node = node, inj_interface = i\<rparr> |i. \<exists>ends \<in> set (dict_values wiring). map_of ends node = Some i}"
proof -
  let ?found = "List.map_filter (\<lambda>interfaces. map_of interfaces node) (dict_values wiring)"
  from assms obtain unsorted where u: "list_all2 (\<lambda>i x. mk_injection node i = Inr x) ?found unsorted"
    and r: "injections = sort_key inj_interface unsorted" "injections \<noteq> []"
    by (auto simp: node_injections_def rbind_eq_Inr traverse_eq_Inr Let_def)
  have "list_all2 (\<lambda>i x. x = \<lparr>inj_node = node, inj_interface = i\<rparr>) ?found unsorted"
    using u by (rule list_all2_mono) (rule mk_injection_Inr)
  then have "unsorted = map (\<lambda>i. \<lparr>inj_node = node, inj_interface = i\<rparr>) ?found"
    by (simp add: list_all2_conv_all_nth list_eq_iff_nth_eq)
  then show ?thesis using r by (auto simp: set_filtered)
qed

lemma plan_scenario_predicts:
  assumes wf: "wf_topology t" and r: "result_of t fault res" and shape: "excluded_links fault \<noteq> [] \<or> excluded_nodes fault \<noteq> []"
    and s: "plan_scenario wiring t res = Inr s"
  shows "scenario_predicts wiring t fault s"
proof -
  have fault: "fr_fault res = fault" using r by (simp add: result_of_def)
  from s obtain component injections where i: "fault_injections wiring t fault = Inr (component, injections)"
    and v: "s = \<lparr>rfp_scenario_id = fault_id fault, rfp_kind = fault_kind_value (fault_kind fault),
          rfp_component_id = component, rfp_injections = injections, rfp_paths = map path_expectation (fr_paths res)\<rparr>"
    unfolding plan_scenario_def fault rbind_eq_Inr by (auto dest!: validate_fault_plan_Inr)
  have inj: "injected wiring t fault injections"
  proof (cases "excluded_links fault")
    case Nil
    then obtain n ns where "excluded_nodes fault = n # ns" using shape by (cases "excluded_nodes fault") auto
    then show ?thesis using i Nil node_injected [of wiring n]
      by (auto simp: fault_injections_def injected_def rbind_eq_Inr)
  next
    case (Cons lid ls)
    then show ?thesis using i link_injected [of wiring t lid]
      by (auto simp: fault_injections_def injected_def rbind_eq_Inr)
  qed
  have l: "list_all2 (path_of t (set (service_names t)) fault) (access_names t) (fr_paths res)"
    using r by (simp add: result_of_def)
  have "map access_node (fr_paths res) = map (\<lambda>a. a) (access_names t)"
    using l by (rule list_all2_map_snd) (simp add: path_of_def)
  then have names: "map rpe_access_node (map path_expectation (fr_paths res)) = access_names t"
    by (simp add: comp_def path_expectation_def)
  have "distance_spec t [] [] (rpe_access_node e) (set (service_names t)) (Some (rpe_baseline_metric e)) \<and>
      distance_spec t (excluded_links fault) (excluded_nodes fault) (rpe_access_node e) (set (service_names t))
        (rpe_fault_metric e)" if "e \<in> set (map path_expectation (fr_paths res))" for e
  proof -
    from that obtain q where q: "q \<in> set (fr_paths res)" "e = path_expectation q" by auto
    from list_all2_in_set2 [OF l q(1)] have p: "path_of t (set (service_names t)) fault (access_node q) q"
      by (auto simp: path_of_def)
    then have d: "shortest_distance_excluding t (access_node q) (set (service_names t)) [] [] = Inr (Some (baseline_cost q))"
      "shortest_distance_excluding t (access_node q) (set (service_names t)) (excluded_links fault) (excluded_nodes fault) =
        Inr (post_fault_cost q)"
      by (simp_all add: path_of_def)
    show ?thesis
      using d distance_value [OF wf distance_args [OF d(1)]] distance_value [OF wf distance_args [OF d(2)]]
      by (simp add: q(2) path_expectation_def)
  qed
  then show ?thesis using inj names by (simp add: scenario_predicts_def v)
qed

lemma build_plan_parts:
  assumes "build_runtime_n1_plan sha256 lib intent_path lab_path = Inr plan"
  obtains t raw wiring audit degrees scenarios where
    "read_candidate lib intent_path = Inr t" "load_lab_links lib lab_path = Inr (raw, wiring)"
    "audit_fault_scenarios t (single_faults t) = Inr audit" "node_degrees t = Inr degrees"
    "list_all2 (\<lambda>r s. plan_scenario wiring t r = Inr s) (audit_scenarios audit) scenarios"
    "list_all2 (\<lambda>n a. adjacency_expectation degrees n = Inr a) (topo_nodes t) (rnp_baseline_adjacencies plan)"
    "rnp_topology_sha256 plan = topology_fingerprint sha256 t" "rnp_lab_sha256 plan = sha256 raw"
    "rnp_scenarios plan = scenarios" "plan_unique plan" "length (single_faults t) \<le> 64"
proof -
  from assms obtain t raw wiring service_prefix faults audit degrees scenarios adjacencies where
    p: "read_candidate lib intent_path = Inr t" "load_lab_links lib lab_path = Inr (raw, wiring)"
      "plan_faults t = Inr (service_prefix, faults)" "audit_fault_scenarios t faults = Inr audit"
      "node_degrees t = Inr degrees"
      "list_all2 (\<lambda>r s. plan_scenario wiring t r = Inr s) (audit_scenarios audit) scenarios"
      "list_all2 (\<lambda>n a. adjacency_expectation degrees n = Inr a) (topo_nodes t) adjacencies"
    and v: "validate_runtime_plan \<lparr>rnp_schema_version = 1, rnp_source = ''intent_runtime_n1_plan'',
          rnp_topology_sha256 = topology_fingerprint sha256 t, rnp_lab_sha256 = sha256 raw,
          rnp_service_prefix = service_prefix, rnp_baseline_adjacencies = adjacencies,
          rnp_scenarios = scenarios\<rparr> = Inr plan"
    by (clarsimp simp: build_runtime_n1_plan_def rbind_eq_Inr traverse_eq_Inr)
  from p(3) have g: "faults = single_faults t \<and> length faults \<le> 64"
    by (auto simp: plan_faults_def rbind_eq_Inr generated_faults split: list.splits)
      (metis generated_faults length_append)
  then have "faults = single_faults t" "length (single_faults t) \<le> 64" by auto
  moreover from v obtain ss where ss: "list_all2 (\<lambda>x y. validate_fault_plan x = Inr y) scenarios ss"
    and f: "rnp_scenarios plan = ss" "rnp_topology_sha256 plan = topology_fingerprint sha256 t"
      "rnp_lab_sha256 plan = sha256 raw" "rnp_baseline_adjacencies plan = adjacencies"
    by (auto simp: validate_runtime_plan_def rbind_eq_Inr traverse_eq_Inr)
  moreover have "list_all2 (\<lambda>x y. y = x) scenarios ss" using ss by (rule list_all2_mono) (use validate_fault_plan_Inr in blast)
  then have "ss = scenarios" by (simp add: list_all2_conv_all_nth list_eq_iff_nth_eq)
  ultimately show thesis
    using p f validated_plan_unique [OF v] by (intro that [of t raw wiring audit degrees scenarios]) simp_all
qed

lemma read_candidate_wf: "read_candidate lib path = Inr t \<Longrightarrow> wf_topology t"
  by (auto simp: read_candidate_def rbind_eq_Inr to_topology_def dest: mk_topology_wf)

lemma plan_scenarios_predict:
  assumes "build_runtime_n1_plan sha256 lib intent_path lab_path = Inr plan"
  shows "\<exists>t raw wiring. read_candidate lib intent_path = Inr t \<and> load_lab_links lib lab_path = Inr (raw, wiring) \<and>
    rnp_topology_sha256 plan = topology_fingerprint sha256 t \<and> rnp_lab_sha256 plan = sha256 raw \<and>
    list_all2 (scenario_predicts wiring t) (single_faults t) (rnp_scenarios plan)"
  using assms
proof (rule build_plan_parts)
  fix t raw wiring audit degrees scenarios
  assume p: "read_candidate lib intent_path = Inr t" "load_lab_links lib lab_path = Inr (raw, wiring)"
    "audit_fault_scenarios t (single_faults t) = Inr audit"
    "list_all2 (\<lambda>r s. plan_scenario wiring t r = Inr s) (audit_scenarios audit) scenarios"
    "rnp_topology_sha256 plan = topology_fingerprint sha256 t" "rnp_lab_sha256 plan = sha256 raw"
    "rnp_scenarios plan = scenarios"
  note wf = read_candidate_wf [OF p(1)]
  have shape: "excluded_links f \<noteq> [] \<or> excluded_nodes f \<noteq> []" if "f \<in> set (single_faults t)" for f
    using that by (auto simp: single_faults_def link_fault_of_def node_fault_of_def)
  have "list_all2 (scenario_predicts wiring t) (single_faults t) scenarios"
    using audit_results [OF p(3)] p(4) plan_scenario_predicts [OF wf _ shape]
    by (auto simp: list_all2_conv_all_nth)
  then show ?thesis using p by auto
qed

section \<open>An example\<close>

text \<open>An intent of three nodes in a row, its lab file, and what a lab that follows it shows.\<close>

definition example_intent :: NetworkIntent where
  "example_intent =
     \<lparr>intent_version = 1,
      intent_nodes = [(''a'', \<lparr>ni_role = ACCESS, ni_prefixes = []\<rparr>), (''c'', \<lparr>ni_role = CORE, ni_prefixes = []\<rparr>),
        (''s'', \<lparr>ni_role = SERVICE, ni_prefixes = [''10.0.0.9/32'']\<rparr>)],
      intent_links = [\<lparr>li_id = ''a--c'', li_endpoints = (''a'', ''c''), li_cost = 10\<rparr>,
        \<lparr>li_id = ''c--s'', li_endpoints = (''c'', ''s''), li_cost = 5\<rparr>]\<rparr>"

definition example_lab_document :: json where
  "example_lab_document =
     JObject [(''topology'', JObject
       [(''nodes'', JObject [(''a'', JNull), (''c'', JNull), (''s'', JNull)]),
        (''links'', JArray
          [JObject [(''endpoints'', jstrings [''a:eth1'', ''c:eth1''])],
           JObject [(''endpoints'', jstrings [''c:eth2'', ''s:eth1''])]])])]"

definition example_yaml :: YamlLibrary where
  "example_yaml =
     \<lparr>utf8_decode = Some, yaml_parse = (\<lambda>_. ([StartEvent, OtherEvent, EndEvent], None)),
      yaml_load = (\<lambda>source. Inr (if source = ''lab'' then example_lab_document
        else JObject [(''nodes'', JObject [(''a'', JNull), (''c'', JNull), (''s'', JNull)]), (''links'', JArray [JNull, JNull])])),
      intent_model = (\<lambda>_. Inr example_intent)\<rparr>"

definition example_hash :: "string \<Rightarrow> string" where
  "example_hash s = replicate 64 (CHR ''a'')"

definition row_path :: "int option \<Rightarrow> RuntimePathObservation list" where
  "row_path metric =
     [\<lparr>rpo_access_node = ''a'', rpo_fault_metric = metric, rpo_fault_reachable = (metric \<noteq> None),
       rpo_restored_metric = Some 15, rpo_restored_reachable = True\<rparr>]"

definition row_observation :: "int option \<Rightarrow> RuntimeN1Observation" where
  "row_observation metric =
     \<lparr>rno_schema_version = 1, rno_source = ''containerlab_frr_observation'',
      rno_scenarios = [\<lparr>rso_scenario_id = ''link:a--c'', rso_paths = row_path metric\<rparr>,
        \<lparr>rso_scenario_id = ''link:c--s'', rso_paths = row_path None\<rparr>,
        \<lparr>rso_scenario_id = ''node:c'', rso_paths = row_path None\<rparr>]\<rparr>"

definition row_plan_summary :: "(string \<times> (string \<times> string) list \<times> (string \<times> int \<times> int option) list) list result" where
  "row_plan_summary =
     rbind (build_runtime_n1_plan example_hash example_yaml (Bytes ''intent'') (Bytes ''lab'')) (\<lambda>plan.
       Inr (map (\<lambda>s. (rfp_scenario_id s, map (\<lambda>i. (inj_node i, inj_interface i)) (rfp_injections s),
         map (\<lambda>e. (rpe_access_node e, rpe_baseline_metric e, rpe_fault_metric e)) (rfp_paths s))) (rnp_scenarios plan)))"

definition row_topology :: Topology where
  "row_topology =
     \<lparr>nodes_by_name = map (\<lambda>n. (node_name n, n))
        [\<lparr>node_name = ''a'', node_role = ACCESS, node_prefixes = []\<rparr>, \<lparr>node_name = ''c'', node_role = CORE, node_prefixes = []\<rparr>,
         \<lparr>node_name = ''s'', node_role = SERVICE, node_prefixes = [''10.0.0.9/32'']\<rparr>],
      links_by_id = map (\<lambda>l. (link_id l, l))
        [\<lparr>link_id = ''a--c'', endpoint_a = ''a'', endpoint_b = ''c'', link_cost = 10\<rparr>,
         \<lparr>link_id = ''c--s'', endpoint_a = ''c'', endpoint_b = ''s'', link_cost = 5\<rparr>]\<rparr>"

definition row_wiring :: lab_wiring where
  "row_wiring =
     [([''a'', ''c''], [(''a'', ''eth1''), (''c'', ''eth1'')]), ([''c'', ''s''], [(''c'', ''eth2''), (''s'', ''eth1'')])]"

lemma ensure_bounded_file_Inr:
  "ensure_bounded_file path label_text limit = Inr raw \<longleftrightarrow> path = Bytes raw \<and> length raw \<le> limit"
  by (cases path) (auto simp: ensure_bounded_file_def Let_def)

lemma example_file:
  "s = ''intent'' \<or> s = ''lab'' \<Longrightarrow> ensure_bounded_file (Bytes s) label_text max_yaml_bytes = Inr s"
  by (auto simp: ensure_bounded_file_Inr max_yaml_bytes_def)

lemma example_yaml_load: "load_yaml_snapshot example_yaml raw label_text = yaml_load example_yaml raw"
  by (simp add: load_yaml_snapshot_def example_yaml_def count_yaml_event_def max_yaml_events_def max_yaml_depth_def)

lemma row_read: "read_candidate example_yaml (Bytes ''intent'') = Inr row_topology"
proof -
  have "rbind (validate_intent example_intent) to_topology = Inr row_topology" by code_simp
  then show ?thesis
    by (simp add: read_candidate_def example_file example_yaml_load)
      (simp add: example_yaml_def n1_mapping_def validate_raw_topology_limits_def jget_def n1_sequence_def)
qed

lemma row_lab: "load_lab_links example_yaml (Bytes ''lab'') = Inr (''lab'', row_wiring)"
proof -
  have "fold_res (add_lab_link [''a'', ''c'', ''s'']) []
      [(0, JObject [(''endpoints'', jstrings [''a:eth1'', ''c:eth1''])]), (1, JObject [(''endpoints'', jstrings [''c:eth2'', ''s:eth1''])])] =
    Inr row_wiring" by code_simp
  moreover have "list_all short_identifier [''a'', ''c'', ''s'']" "crlf_to_lf ''lab'' = ''lab''" by code_simp+
  ultimately show ?thesis
    by (simp add: load_lab_links_def example_file example_yaml_load)
      (simp add: example_yaml_def example_lab_document_def n1_mapping_def jget_def n1_sequence_def upt_rec)
qed

lemma row_plan:
  "row_plan_summary = Inr
    [(''link:a--c'', [(''a'', ''eth1''), (''c'', ''eth1'')], [(''a'', 15, None)]),
     (''link:c--s'', [(''c'', ''eth2''), (''s'', ''eth1'')], [(''a'', 15, None)]),
     (''node:c'', [(''c'', ''eth1''), (''c'', ''eth2'')], [(''a'', 15, None)])]"
  unfolding row_plan_summary_def build_runtime_n1_plan_def row_read row_lab rbind_simps split_conv by code_simp

lemma row_observation_valid: "validate_runtime_observation (row_observation None) = Inr (row_observation None)"
  by code_simp

lemma row_plan_built:
  "\<exists>plan. build_runtime_n1_plan example_hash example_yaml (Bytes ''intent'') (Bytes ''lab'') = Inr plan \<and>
    map rfp_scenario_id (rnp_scenarios plan) = [''link:a--c'', ''link:c--s'', ''node:c''] \<and>
    map (\<lambda>s. map rpe_access_node (rfp_paths s)) (rnp_scenarios plan) = [[''a''], [''a''], [''a'']]"
  using row_plan by (auto simp: row_plan_summary_def rbind_eq_Inr map_eq_Cons_conv)

section \<open>Properties\<close>

text \<open>
  A plan that is built predicts a runtime campaign from the intent: it has one scenario for
  every link and then one for every aggregation or core node of the topology; each takes down
  exactly the lab interfaces at the two ends of the link, or all of the node's; and for every
  access node it states the least weight of a walk to a service node without the fault and the
  least weight that avoids the failed component, or none when no walk is left.
\<close>

theorem plan_predicts:
  assumes "build_runtime_n1_plan sha256 lib intent_path lab_path = Inr plan"
  shows "\<exists>t raw wiring. read_candidate lib intent_path = Inr t \<and> load_lab_links lib lab_path = Inr (raw, wiring) \<and>
    rnp_topology_sha256 plan = topology_fingerprint sha256 t \<and> rnp_lab_sha256 plan = sha256 raw \<and>
    map rfp_scenario_id (rnp_scenarios plan) =
      map (\<lambda>l. ''link:'' @ link_id l) (topo_links t) @ map (\<lambda>n. ''node:'' @ node_name n) (transport_nodes t) \<and>
    list_all2 (scenario_predicts wiring t) (single_faults t) (rnp_scenarios plan)"
proof -
  from plan_scenarios_predict [OF assms] obtain t raw wiring where
    p: "read_candidate lib intent_path = Inr t" "load_lab_links lib lab_path = Inr (raw, wiring)"
    "rnp_topology_sha256 plan = topology_fingerprint sha256 t" "rnp_lab_sha256 plan = sha256 raw"
    "list_all2 (scenario_predicts wiring t) (single_faults t) (rnp_scenarios plan)" by blast
  have "map rfp_scenario_id (rnp_scenarios plan) = map fault_id (single_faults t)"
    using p(5) by (rule list_all2_map_snd) (simp add: scenario_predicts_def)
  then have "map rfp_scenario_id (rnp_scenarios plan) =
      map (\<lambda>l. ''link:'' @ link_id l) (topo_links t) @ map (\<lambda>n. ''node:'' @ node_name n) (transport_nodes t)"
    by (simp add: single_faults_def comp_def link_fault_of_def node_fault_of_def)
  then show ?thesis using p by blast
qed

theorem plan_predicts_witness:
  "\<exists>plan. build_runtime_n1_plan example_hash example_yaml (Bytes ''intent'') (Bytes ''lab'') = Inr plan \<and>
    list_all2 (scenario_predicts row_wiring row_topology) (single_faults row_topology) (rnp_scenarios plan)"
proof -
  obtain plan where p: "build_runtime_n1_plan example_hash example_yaml (Bytes ''intent'') (Bytes ''lab'') = Inr plan"
    using row_plan_built by blast
  from plan_predicts [OF p] p show ?thesis by (auto simp: row_read row_lab)
qed

text \<open>What the routers show when the lab follows the intent's graph.\<close>

definition follows_graph :: "Topology \<Rightarrow> FaultScenario \<Rightarrow> RuntimePathObservation \<Rightarrow> bool" where
  "follows_graph t fault q =
     (distance_spec t (excluded_links fault) (excluded_nodes fault) (rpo_access_node q) (set (service_names t))
        (rpo_fault_metric q) \<and>
      (rpo_fault_reachable q \<longleftrightarrow> rpo_fault_metric q \<noteq> None) \<and>
      rpo_restored_metric q \<noteq> None \<and>
      distance_spec t [] [] (rpo_access_node q) (set (service_names t)) (rpo_restored_metric q) \<and>
      rpo_restored_reachable q)"

lemma distance_spec_same:
  "distance_spec t el en a S r \<Longrightarrow> distance_spec t el en a S r' \<longleftrightarrow> r' = r"
  by (metis distance_spec_unique)

lemma conforms_follows:
  assumes "scenario_predicts wiring t fault s" "e \<in> set (rfp_paths s)" "rpo_access_node q = rpe_access_node e"
  shows "path_conforms e q \<longleftrightarrow> follows_graph t fault q"
proof -
  have d: "distance_spec t [] [] (rpe_access_node e) (set (service_names t)) (Some (rpe_baseline_metric e))"
    "distance_spec t (excluded_links fault) (excluded_nodes fault) (rpe_access_node e) (set (service_names t))
      (rpe_fault_metric e)"
    using assms(1,2) by (simp_all add: scenario_predicts_def)
  show ?thesis
    unfolding path_conforms_def follows_graph_def assms(3) distance_spec_same [OF d(1)] distance_spec_same [OF d(2)]
    by (cases "rpe_fault_metric e") auto
qed

text \<open>
  The campaign as a whole tests the intent: for a plan built from an intent and its lab and
  a validated observation of the plan's scenarios and access nodes, \<open>verify\<close> exits with 0
  exactly when, in every single-fault scenario, every access node shows the least walk weight
  that avoids the failed component (and is reachable exactly when there is one), and after the
  repair the least walk weight of the intact topology.
\<close>

theorem campaign_tests_the_intent:
  assumes "build_runtime_n1_plan sha256 lib intent_path lab_path = Inr plan"
    and "validate_runtime_observation raw_observation = Inr observation" "observation_fits plan observation"
  shows "\<exists>t doc. read_candidate lib intent_path = Inr t \<and> build_runtime_n1_evidence sha256 plan observation = Inr doc \<and>
    (verify_exit_code doc = 0 \<longleftrightarrow>
      (\<forall>fault \<in> set (single_faults t). \<forall>r \<in> set (rno_scenarios observation). rso_scenario_id r = fault_id fault \<longrightarrow>
        (\<forall>q \<in> set (rso_paths r). follows_graph t fault q)))"
proof -
  from plan_scenarios_predict [OF assms(1)] obtain t raw wiring where t: "read_candidate lib intent_path = Inr t"
    and l: "list_all2 (scenario_predicts wiring t) (single_faults t) (rnp_scenarios plan)" by blast
  have unique: "plan_unique plan" using assms(1) by (rule build_plan_parts)
  note ounique = validated_observation_unique [OF assms(2)]
  obtain doc where doc: "build_runtime_n1_evidence sha256 plan observation = Inr doc"
    and verdict: "verify_exit_code doc = 0 \<longleftrightarrow> runtime_conforms plan observation"
    using compare_runtime_cases [OF unique ounique] assms(3)
    by (auto simp: build_runtime_n1_evidence_def Let_def jget_def verify_exit_code_def)
  have ids: "rso_scenario_id ` set (rno_scenarios observation) = rfp_scenario_id ` set (rnp_scenarios plan)"
    and accesses: "\<And>s r. s \<in> set (rnp_scenarios plan) \<Longrightarrow> r \<in> set (rno_scenarios observation) \<Longrightarrow>
      rso_scenario_id r = rfp_scenario_id s \<Longrightarrow> rpo_access_node ` set (rso_paths r) = rpe_access_node ` set (rfp_paths s)"
    using assms(3) by (auto simp: observation_fits_def)
  have dist: "distinct (map rso_scenario_id (rno_scenarios observation))" using ounique by (simp add: observation_unique_def)
  have one: "scenario_conforms s r \<longleftrightarrow> (\<forall>q \<in> set (rso_paths r). follows_graph t fault q)"
    if p: "scenario_predicts wiring t fault s" and s: "s \<in> set (rnp_scenarios plan)"
      and r: "r \<in> set (rno_scenarios observation)" "rso_scenario_id r = rfp_scenario_id s" for fault s r
  proof
    assume c: "scenario_conforms s r"
    show "\<forall>q \<in> set (rso_paths r). follows_graph t fault q"
    proof
      fix q assume q: "q \<in> set (rso_paths r)"
      then obtain e where e: "e \<in> set (rfp_paths s)" "rpo_access_node q = rpe_access_node e"
        using accesses [OF s r] by (metis imageE imageI)
      from c e(1) obtain q' where q': "q' \<in> set (rso_paths r)" "rpo_access_node q' = rpe_access_node e" "path_conforms e q'"
        unfolding scenario_conforms_def by blast
      have "q' = q" using unique_by_key [of rpo_access_node, OF _ q'(1) q] ounique r(1) q'(2) e(2) by (simp add: observation_unique_def)
      then show "follows_graph t fault q" using conforms_follows [OF p e] q'(3) by simp
    qed
  next
    assume f: "\<forall>q \<in> set (rso_paths r). follows_graph t fault q"
    show "scenario_conforms s r"
      unfolding scenario_conforms_def
    proof
      fix e assume e: "e \<in> set (rfp_paths s)"
      then obtain q where q: "q \<in> set (rso_paths r)" "rpo_access_node q = rpe_access_node e"
        using accesses [OF s r] by (metis imageE imageI)
      then show "\<exists>q \<in> set (rso_paths r). rpo_access_node q = rpe_access_node e \<and> path_conforms e q"
        using conforms_follows [OF p e q(2)] f by blast
    qed
  qed
  have "runtime_conforms plan observation \<longleftrightarrow>
      (\<forall>fault \<in> set (single_faults t). \<forall>r \<in> set (rno_scenarios observation). rso_scenario_id r = fault_id fault \<longrightarrow>
        (\<forall>q \<in> set (rso_paths r). follows_graph t fault q))" (is "_ \<longleftrightarrow> ?follows")
  proof
    assume c: "runtime_conforms plan observation"
    show ?follows
    proof (intro ballI impI)
      fix fault r q
      assume fault: "fault \<in> set (single_faults t)" and r: "r \<in> set (rno_scenarios observation)" "rso_scenario_id r = fault_id fault"
        and q: "q \<in> set (rso_paths r)"
      from list_all2_in_set1 [OF l fault] obtain s where s: "s \<in> set (rnp_scenarios plan)" "scenario_predicts wiring t fault s"
        by blast
      have i: "rso_scenario_id r = rfp_scenario_id s" using s(2) r(2) by (simp add: scenario_predicts_def)
      from c s(1) obtain r' where r': "r' \<in> set (rno_scenarios observation)" "rso_scenario_id r' = rfp_scenario_id s"
        "scenario_conforms s r'" unfolding runtime_conforms_def by blast
      have "r' = r" using unique_by_key [OF dist r'(1) r(1)] r'(2) i by simp
      then show "follows_graph t fault q" using one [OF s(2,1) r(1) i] r'(3) q by blast
    qed
  next
    assume f: ?follows
    show "runtime_conforms plan observation"
      unfolding runtime_conforms_def
    proof
      fix s assume s: "s \<in> set (rnp_scenarios plan)"
      from list_all2_in_set2 [OF l s] obtain fault where fault: "fault \<in> set (single_faults t)" "scenario_predicts wiring t fault s"
        by blast
      obtain r where r: "r \<in> set (rno_scenarios observation)" "rso_scenario_id r = rfp_scenario_id s"
        using ids s by (metis imageE imageI)
      then have "rso_scenario_id r = fault_id fault" using fault(2) by (simp add: scenario_predicts_def)
      then show "\<exists>r \<in> set (rno_scenarios observation). rso_scenario_id r = rfp_scenario_id s \<and> scenario_conforms s r"
        using one [OF fault(2) s r] f fault(1) r by blast
    qed
  qed
  then show ?thesis using t doc verdict by blast
qed

theorem campaign_tests_the_intent_witness:
  "\<exists>plan doc. build_runtime_n1_plan example_hash example_yaml (Bytes ''intent'') (Bytes ''lab'') = Inr plan \<and>
    build_runtime_n1_evidence example_hash plan (row_observation None) = Inr doc \<and>
    (verify_exit_code doc = 0 \<longleftrightarrow>
      list_all (\<lambda>fault. list_all (\<lambda>r. rso_scenario_id r \<noteq> fault_id fault \<or>
        list_all (follows_graph row_topology fault) (rso_paths r)) (rno_scenarios (row_observation None))) (single_faults row_topology))"
proof -
  obtain plan where p: "build_runtime_n1_plan example_hash example_yaml (Bytes ''intent'') (Bytes ''lab'') = Inr plan"
    and ids: "map rfp_scenario_id (rnp_scenarios plan) = [''link:a--c'', ''link:c--s'', ''node:c'']"
    and paths: "map (\<lambda>s. map rpe_access_node (rfp_paths s)) (rnp_scenarios plan) = [[''a''], [''a''], [''a'']]"
    using row_plan_built by (elim exE conjE) (rule that)
  have one: "rpe_access_node ` set (rfp_paths s) = {''a''}" if "s \<in> set (rnp_scenarios plan)" for s
  proof -
    have "map rpe_access_node (rfp_paths s) \<in> set (map (\<lambda>s. map rpe_access_node (rfp_paths s)) (rnp_scenarios plan))"
      using that by simp
    then have "map rpe_access_node (rfp_paths s) = [''a'']" unfolding paths by simp
    then show ?thesis by (metis list.set(1,2) list.set_map)
  qed
  have "rfp_scenario_id ` set (rnp_scenarios plan) = {''link:a--c'', ''link:c--s'', ''node:c''}"
    using arg_cong [OF ids, of set] by simp
  then have "observation_fits plan (row_observation None)"
    using one by (simp add: observation_fits_def row_observation_def row_path_def)
  from campaign_tests_the_intent [OF p row_observation_valid this] obtain t doc where
    t: "read_candidate example_yaml (Bytes ''intent'') = Inr t"
    and doc: "build_runtime_n1_evidence example_hash plan (row_observation None) = Inr doc"
    and v: "verify_exit_code doc = 0 \<longleftrightarrow> (\<forall>fault \<in> set (single_faults t).
      \<forall>r \<in> set (rno_scenarios (row_observation None)). rso_scenario_id r = fault_id fault \<longrightarrow>
        (\<forall>q \<in> set (rso_paths r). follows_graph t fault q))"
    by (elim exE conjE) (rule that)
  have "t = row_topology" using t unfolding row_read by simp
  show ?thesis
    by (intro exI [of _ plan] exI [of _ doc] conjI p doc) (simp only: v \<open>t = row_topology\<close> list_all_iff imp_conv_disj)
qed

section \<open>Published evidence\<close>

lemma starts_with_append [simp]: "starts_with p (p @ s)"
  by (simp add: starts_with_def)

lemma distinct_single_faults: "wf_topology t \<Longrightarrow> distinct (map fault_id (single_faults t))"
  using distinct_link_faults [of t] distinct_node_faults [of t "\<lambda>n. transport_role (node_role n)"]
  by (auto simp: single_faults_def transport_nodes_def link_fault_of_def node_fault_of_def)

lemma count_by_key:
  assumes "distinct (map f xs)" "distinct ys" "{f x |x. x \<in> set xs \<and> P x} = set ys"
  shows "sum_list (map (\<lambda>x. if P x then 1 else 0) xs) = length ys"
proof -
  have "sum_list (map (\<lambda>x. if P x then 1 else 0) xs) = length (filter P xs)" by (induction xs) auto
  also have "\<dots> = card (set (map f (filter P xs)))"
    using distinct_map_filter [OF assms(1), of P] by (metis distinct_card length_map)
  also have "set (map f (filter P xs)) = set ys" using assms(3) by auto
  finally show ?thesis using distinct_card [OF assms(2)] by simp
qed

lemma collect_by_key: "(\<And>s. s \<in> S \<Longrightarrow> P s \<longleftrightarrow> Q (f s)) \<Longrightarrow> {f s |s. s \<in> S \<and> P s} = {x \<in> f ` S. Q x}"
  by auto

lemma collect_left: "(\<And>x. Q (f x)) \<Longrightarrow> (\<And>y. \<not> Q (g y)) \<Longrightarrow> {x \<in> f ` A \<union> g ` B. Q x} = f ` A"
  and collect_right: "(\<And>x. \<not> Q (f x)) \<Longrightarrow> (\<And>y. Q (g y)) \<Longrightarrow> {x \<in> f ` A \<union> g ` B. Q x} = g ` B"
  by auto

lemma published_kind:
  assumes "validate_published_scenario s = Inr ()"
  shows "rps_kind s \<in> {''link'', ''node''} \<and> starts_with (rps_kind s @ '':'') (rps_scenario_id s)"
  using assms by (auto simp: validate_published_scenario_def rbind_eq_Inr runtime_kind_def)

text \<open>
  C39: Published runtime evidence that the server accepts for a topology speaks about all of it:
  it holds each link and each aggregation or core node exactly once, under its own kind, so the
  counts the metrics page shows are the numbers of links and transport nodes; it counts eight
  checks for each; and it says that everything passed exactly when every scenario passed.
\<close>

theorem published_matrix_complete:
  assumes "mk_topology ns ls = Inr t" "validate_published_evidence raw = Inr e"
    and "validate_runtime_n1_published_topology sha256 e t configuration = Inr ()"
  shows "rps_scenario_id ` set (rpe_scenarios e) = fault_id ` set (single_faults t) \<and>
    distinct (map rps_scenario_id (rpe_scenarios e)) \<and>
    kind_count ''link'' e = length (topo_links t) \<and> kind_count ''node'' e = length (transport_nodes t) \<and>
    rpe_total_checks e = 8 * int (length (single_faults t)) \<and>
    (rpe_passed_all e \<longleftrightarrow> (\<forall>s \<in> set (rpe_scenarios e). rps_passed s)) \<and>
    (rpe_passed_all e \<longleftrightarrow> rpe_passed_checks e = 8 * int (length (single_faults t)))"
proof -
  note wf = mk_topology_wf [OF assms(1)]
  from assms(2) have c: "validate_published_consistency e = Inr ()"
    and each: "\<forall>s \<in> set (rpe_scenarios e). validate_published_scenario s = Inr ()"
    unfolding validate_published_evidence_def rbind_eq_Inr each_eq_Inr by auto
  from assms(3) obtain links nodes where f: "link_failure_scenarios t = Inr links" "transport_node_failure_scenarios t = Inr nodes"
    "set (map rps_scenario_id (rpe_scenarios e)) = set (map fault_id (links @ nodes))"
    by (auto simp: validate_runtime_n1_published_topology_def rbind_eq_Inr)
  then have ids: "rps_scenario_id ` set (rpe_scenarios e) = fault_id ` set (single_faults t)"
    using generated_faults [OF f(1,2)] by (metis list.set_map)
  have dist: "distinct (map rps_scenario_id (rpe_scenarios e))"
    and total: "rpe_total_checks e = rpe_passed_checks e + rpe_failed_checks e"
      "rpe_total_checks e = int (length (rpe_scenarios e)) * 8"
    and pass: "rpe_failed_checks e = 0 \<longleftrightarrow> (\<forall>s \<in> set (rpe_scenarios e). rps_passed s)"
      "rpe_passed_all e \<longleftrightarrow> rpe_failed_checks e = 0"
    using c by (auto simp: validate_published_consistency_def rbind_eq_Inr Let_def list_all_iff)
  have len: "length (rpe_scenarios e) = length (single_faults t)"
    using distinct_card [OF dist] distinct_card [OF distinct_single_faults [OF wf]] ids by simp
  have all: "fault_id ` set (single_faults t) =
      (\<lambda>l. ''link:'' @ link_id l) ` set (topo_links t) \<union> (\<lambda>n. ''node:'' @ node_name n) ` set (transport_nodes t)"
    by (simp add: single_faults_def link_fault_of_def node_fault_of_def image_Un image_image)
  have kind: "rps_kind s = ''link'' \<longleftrightarrow> starts_with ''link:'' (rps_scenario_id s)"
    "rps_kind s = ''node'' \<longleftrightarrow> starts_with ''node:'' (rps_scenario_id s)" if "s \<in> set (rpe_scenarios e)" for s
    using published_kind [OF bspec [OF each that]] by (auto simp: starts_with_def)
  have link: "{rps_scenario_id s |s. s \<in> set (rpe_scenarios e) \<and> rps_kind s = ''link''} =
      set (map (\<lambda>l. ''link:'' @ link_id l) (topo_links t))"
  proof -
    have "{rps_scenario_id s |s. s \<in> set (rpe_scenarios e) \<and> rps_kind s = ''link''} =
        {x \<in> rps_scenario_id ` set (rpe_scenarios e). starts_with ''link:'' x}"
      by (rule collect_by_key) (rule kind(1))
    then show ?thesis unfolding ids all set_map
      by (simp only:) (rule collect_left, simp_all add: starts_with_def)
  qed
  have node: "{rps_scenario_id s |s. s \<in> set (rpe_scenarios e) \<and> rps_kind s = ''node''} =
      set (map (\<lambda>n. ''node:'' @ node_name n) (transport_nodes t))"
  proof -
    have "{rps_scenario_id s |s. s \<in> set (rpe_scenarios e) \<and> rps_kind s = ''node''} =
        {x \<in> rps_scenario_id ` set (rpe_scenarios e). starts_with ''node:'' x}"
      by (rule collect_by_key) (rule kind(2))
    then show ?thesis unfolding ids all set_map
      by (simp only:) (rule collect_right, simp_all add: starts_with_def)
  qed
  have d: "distinct (map (\<lambda>l. ''link:'' @ link_id l) (topo_links t))"
    "distinct (map (\<lambda>n. ''node:'' @ node_name n) (transport_nodes t))"
    using distinct_topo_links [OF wf] distinct_map_filter [OF distinct_topo_nodes [OF wf]]
    by (auto simp: distinct_map inj_on_def transport_nodes_def)
  have "kind_count ''link'' e = length (topo_links t)" "kind_count ''node'' e = length (transport_nodes t)"
    using count_by_key [OF dist d(1) link] count_by_key [OF dist d(2) node] by (simp_all add: kind_count_def)
  then show ?thesis using ids dist total pass len by auto
qed

definition row_published :: RuntimeN1PublishedEvidence where
  "row_published =
     \<lparr>rpe_schema_version = 1, rpe_source = ''github_actions_attested_runtime_n1'',
      rpe_source_repository = ''teriyakki-jin/telconet-sentinel'', rpe_source_ref = ''refs/heads/main'',
      rpe_source_commit = replicate 40 (CHR ''0''), rpe_workflow_run_id = 7, rpe_archive_sha256 = example_hash [],
      rpe_source_evidence_sha256 = example_hash [], rpe_plan_sha256 = example_hash [],
      rpe_observation_sha256 = example_hash [], rpe_topology_sha256 = example_hash [], rpe_lab_sha256 = example_hash [],
      rpe_runtime_configuration_sha256 = example_hash [], rpe_passed_all = True, rpe_total_checks = 24,
      rpe_passed_checks = 24, rpe_failed_checks = 0,
      rpe_scenarios = [\<lparr>rps_scenario_id = ''link:a--c'', rps_kind = ''link'', rps_passed = True\<rparr>,
        \<lparr>rps_scenario_id = ''link:c--s'', rps_kind = ''link'', rps_passed = True\<rparr>,
        \<lparr>rps_scenario_id = ''node:c'', rps_kind = ''node'', rps_passed = True\<rparr>]\<rparr>"

lemma row_published_accepted:
  "validate_published_evidence row_published = Inr row_published"
  "validate_runtime_n1_published_topology example_hash row_published row_topology (example_hash []) = Inr ()"
  by code_simp+

lemma mk_row_topology: "mk_topology (dict_values (nodes_by_name row_topology)) (dict_values (links_by_id row_topology)) = Inr row_topology"
  by code_simp

theorem published_matrix_complete_witness:
  "kind_count ''link'' row_published = length (topo_links row_topology) \<and> rpe_total_checks row_published = 24"
  using published_matrix_complete [OF mk_row_topology row_published_accepted]
  by (simp add: row_published_def)

section \<open>Parallel links\<close>

text \<open>
  An intent may join two nodes by two links, the lab only by one: the scenarios of both links
  then take down the same interfaces, although each is planned to leave the other link up.
\<close>

lemma parallel_links_share_injections:
  assumes "link_injections wiring t a = Inr x" "link_injections wiring t b = Inr y"
    and "topo_link t a = Inr la" "topo_link t b = Inr lb" "{endpoint_a la, endpoint_b la} = {endpoint_a lb, endpoint_b lb}"
  shows "set x = set y"
proof -
  have "lab_pair (endpoint_a la) (endpoint_b la) = lab_pair (endpoint_a lb) (endpoint_b lb)"
    using assms(5) unfolding lab_pair_def
    by (intro sorted_distinct_set_unique) (auto simp: doubleton_eq_iff)
  then show ?thesis
    using link_injected [OF assms(1)] link_injected [OF assms(2)] assms(3-5) by (auto simp: doubleton_eq_iff)
qed

end
