(* ===== verification/Sentinel_Stores.thy ===== *)
theory Sentinel_Stores
  imports Convergence_Api Telemetry_Api
begin

text \<open>
  The stores a server can be started with: the protocols \<open>ConvergenceRepository\<close> and
  \<open>TelemetryRepository\<close> as either of their two classes, a call going to the class at hand.
  Both unions implement the interface of their protocol, so what is proved of a store of that
  interface holds of the store of any server, and the choice of the class shows in no answer.
\<close>

section \<open>Convergence runs\<close>

datatype ConvergenceRepository = LiveMemory ConvergenceStore | LiveDatabase SQLiteConvergenceStore

fun live_create ::
  "string \<Rightarrow> string \<Rightarrow> string \<Rightarrow> string \<Rightarrow> datetime \<Rightarrow> ConvergenceRepository \<Rightarrow> (ConvergenceRun \<times> ConvergenceRepository) result" where
  "live_create u p so ta tm (LiveMemory s) = seen_as LiveMemory (cs_create_run u p so ta tm s)"
| "live_create u p so ta tm (LiveDatabase s) = seen_as LiveDatabase (sq_create_run u p so ta tm s)"

fun live_append ::
  "string \<Rightarrow> ConvergenceEvent \<Rightarrow> ConvergenceRepository \<Rightarrow> (ConvergenceRun \<times> ConvergenceRepository) result" where
  "live_append i e (LiveMemory s) = seen_as LiveMemory (cs_append_event i e s)"
| "live_append i e (LiveDatabase s) = seen_as LiveDatabase (sq_append_event i e s)"

fun live_get :: "string \<Rightarrow> ConvergenceRepository \<Rightarrow> ConvergenceRun result" where
  "live_get i (LiveMemory s) = cs_lookup i s"
| "live_get i (LiveDatabase s) = sq_load i s"

fun live_latest :: "ConvergenceRepository \<Rightarrow> ConvergenceRun option result" where
  "live_latest (LiveMemory s) = cs_latest s"
| "live_latest (LiveDatabase s) = sq_latest s"

fun live_ok :: "ConvergenceRepository \<Rightarrow> bool" where
  "live_ok (LiveMemory s) = cs_ok s"
| "live_ok (LiveDatabase s) = sq_ok s"

fun live_capacity :: "ConvergenceRepository \<Rightarrow> nat" where
  "live_capacity (LiveMemory s) = nat (cs_capacity s)"
| "live_capacity (LiveDatabase s) = nat (sq_capacity s)"

fun live_view :: "ConvergenceRepository \<Rightarrow> ConvergenceRun list" where
  "live_view (LiveMemory s) = cs_view s"
| "live_view (LiveDatabase s) = sq_view s"

lemma seen_as_seen_as [simp]: "seen_as f (seen_as g r) = seen_as (\<lambda>s. f (g s)) r"
  by (cases r) (auto split: prod.splits)

interpretation live_runs: convergence_repository live_ok live_capacity live_view live_create live_append live_get live_latest
proof unfold_locales
  fix s u p so ta tm
  assume a: "live_ok s" "fresh_run u (live_view s)" "valid_datetime tm"
  show "seen_as live_view (live_create u p so ta tm s) = spec_create (live_capacity s) u p so ta tm (live_view s)"
    using a memory_runs.create_spec sqlite_runs.create_spec by (cases s) auto
  fix r s'
  assume "live_create u p so ta tm s = Inr (r, s')"
  then show "live_ok s' \<and> live_capacity s' = live_capacity s"
    using a memory_runs.create_ok sqlite_runs.create_ok by (cases s) (auto simp: seen_as_eq_Inr)
next
  fix s e i
  assume a: "live_ok s" "representable e"
  show "seen_as live_view (live_append i e s) = spec_append i e (live_view s)"
    using a memory_runs.append_spec sqlite_runs.append_spec by (cases s) auto
  fix r s'
  assume "live_append i e s = Inr (r, s')"
  then show "live_ok s' \<and> live_capacity s' = live_capacity s"
    using a memory_runs.append_ok sqlite_runs.append_ok by (cases s) (auto simp: seen_as_eq_Inr)
next
  fix s assume a: "live_ok s"
  show "live_get i s = spec_get i (live_view s)" for i
    using a memory_runs.get_spec sqlite_runs.get_spec by (cases s) auto
  show "live_latest s = Inr (spec_latest (live_view s))"
    using a memory_runs.latest_spec sqlite_runs.latest_spec by (cases s) auto
  show "1 \<le> live_capacity s \<and> length (live_view s) \<le> live_capacity s"
    using a memory_runs.bounded sqlite_runs.bounded by (cases s) auto
  show "distinct (map run_id (live_view s))"
    using a memory_runs.ids_distinct sqlite_runs.ids_distinct by (cases s) auto
qed

section \<open>Telemetry snapshots\<close>

text \<open>A stored snapshot is valid and, if it carries the binding's fingerprint, passes its checks.\<close>

definition bound_snapshot :: "TelemetryTopologyBinding \<Rightarrow> TelemetrySnapshot \<Rightarrow> bool" where
  "bound_snapshot b x =
     (snapshot_ok x \<and> (with_fingerprint (Some (binding_fp b)) x \<longrightarrow> validate_telemetry_snapshot x b = Inr ()))"

context telemetry_repository
begin

lemma ingest_keeps_bound:
  assumes "ok s" "\<forall>y \<in> set (retained s). bound_snapshot b y"
    and "ingest_telemetry_snapshot save latest recent repr b now body s = (x, s')" "body_time_ok body"
  shows "\<forall>y \<in> set (retained s'). bound_snapshot b y"
proof (cases "s' = s")
  case False
  then obtain y created where y: "parsed_snapshot body = Inr y" "validate_telemetry_ingest y b now = Inr ()"
    and saved: "save y s = Inr (created, s')"
    using assms(3) by (auto simp: ingest_telemetry_snapshot_def hbind_def split: sum.splits if_splits prod.splits)
  have "snapshot_ok y" using parsed_snapshot_cases [OF assms(4)] y(1) by auto
  moreover from this have "set (retained s') \<subseteq> insert y (set (retained s))"
    using save_refines [OF assms(1) _ saved] retained_ok [OF assms(1)] spec_save_ok(2) by blast
  moreover have "validate_telemetry_snapshot y b = Inr ()"
    using y(2) by (auto simp: validate_telemetry_ingest_def rbind_eq_Inr)
  ultimately show ?thesis using assms(2) by (auto simp: bound_snapshot_def)
qed (use assms in simp)

lemma latest_bound:
  assumes "ok s" "\<forall>y \<in> set (retained s). bound_snapshot b y"
  shows "\<exists>l. latest (Some (binding_fp b)) s = Inr l \<and>
    (\<forall>x. l = Some x \<longrightarrow> snapshot_ok x \<and> validate_telemetry_snapshot x b = Inr ())"
  using assms spec_newest_member [of "Some (binding_fp b)" "retained s"]
  by (auto simp: latest_spec bound_snapshot_def)

end

datatype TelemetryRepository = SnapshotMemory TelemetryStore | SnapshotDatabase SQLiteTelemetryStore

definition stored_as :: "('s \<Rightarrow> 't) \<Rightarrow> (bool \<times> 's) result \<Rightarrow> (bool \<times> 't) result" where
  "stored_as f r = map_sum id (map_prod id f) r"

lemma stored_as_simps [simp]:
  "stored_as f (Inl e) = Inl e" "stored_as f (Inr (b, s)) = Inr (b, f s)"
  "stored_as f r = Inl e \<longleftrightarrow> r = Inl e"
  "stored_as f r = Inr (b, t) \<longleftrightarrow> (\<exists>s. r = Inr (b, s) \<and> t = f s)"
  by (cases r; auto simp: stored_as_def)+

fun snapshots_save ::
  "(TelemetrySnapshot \<Rightarrow> string) \<Rightarrow> (string \<Rightarrow> TelemetrySnapshot result) \<Rightarrow> TelemetrySnapshot \<Rightarrow> TelemetryRepository \<Rightarrow>
   (bool \<times> TelemetryRepository) result" where
  "snapshots_save dump load x (SnapshotMemory s) = stored_as SnapshotMemory (ts_save x s)"
| "snapshots_save dump load x (SnapshotDatabase s) = stored_as SnapshotDatabase (tq_save dump load x s)"

fun snapshots_latest ::
  "(string \<Rightarrow> TelemetrySnapshot result) \<Rightarrow> string option \<Rightarrow> TelemetryRepository \<Rightarrow> TelemetrySnapshot option result" where
  "snapshots_latest load fp (SnapshotMemory s) = ts_latest fp s"
| "snapshots_latest load fp (SnapshotDatabase s) = tq_latest load fp s"

fun snapshots_recent ::
  "(string \<Rightarrow> TelemetrySnapshot result) \<Rightarrow> string option \<Rightarrow> TelemetryRepository \<Rightarrow> TelemetrySnapshot list result" where
  "snapshots_recent load fp (SnapshotMemory s) = ts_recent fp s"
| "snapshots_recent load fp (SnapshotDatabase s) = tq_recent load fp s"

fun snapshots_ok ::
  "(TelemetrySnapshot \<Rightarrow> string) \<Rightarrow> (string \<Rightarrow> TelemetrySnapshot result) \<Rightarrow> TelemetryRepository \<Rightarrow> bool" where
  "snapshots_ok dump load (SnapshotMemory s) = ts_ok s"
| "snapshots_ok dump load (SnapshotDatabase s) = tq_ok dump load s"

fun snapshots_capacity :: "TelemetryRepository \<Rightarrow> nat" where
  "snapshots_capacity (SnapshotMemory s) = nat (ts_capacity s)"
| "snapshots_capacity (SnapshotDatabase s) = nat (tq_capacity s)"

fun snapshots_view :: "(string \<Rightarrow> TelemetrySnapshot result) \<Rightarrow> TelemetryRepository \<Rightarrow> TelemetrySnapshot list" where
  "snapshots_view load (SnapshotMemory s) = ts_view s"
| "snapshots_view load (SnapshotDatabase s) = tq_view load s"

interpretation live_snapshots: telemetry_repository "snapshots_ok dump load" snapshots_capacity "snapshots_view load"
  "snapshots_save dump load" "snapshots_latest load" "snapshots_recent load" for dump load
proof unfold_locales
  fix s x e
  assume a: "snapshots_ok dump load s" "snapshot_ok x"
  show "snapshots_save dump load x s = Inl e \<longleftrightarrow> spec_save (snapshots_capacity s) x (snapshots_view load s) = Inl e"
    using a memory_snapshots.save_error sqlite_snapshots.save_error by (cases s) auto
  fix created s'
  assume "snapshots_save dump load x s = Inr (created, s')"
  then show "snapshots_ok dump load s' \<and> snapshots_capacity s' = snapshots_capacity s \<and>
      spec_save (snapshots_capacity s) x (snapshots_view load s) = Inr (created, snapshots_view load s')"
    using a memory_snapshots.save_refines sqlite_snapshots.save_refines by (cases s) auto
next
  fix s assume a: "snapshots_ok dump load s"
  show "snapshots_latest load fp s = Inr (spec_newest fp (snapshots_view load s))" for fp
    using a memory_snapshots.latest_spec sqlite_snapshots.latest_spec by (cases s) auto
  show "snapshots_recent load fp s = Inr (spec_recent fp (snapshots_view load s))" for fp
    using a memory_snapshots.recent_spec sqlite_snapshots.recent_spec by (cases s) auto
  show "1 \<le> snapshots_capacity s \<and> retained_ok (snapshots_capacity s) (snapshots_view load s)"
    using a memory_snapshots.retained_ok sqlite_snapshots.retained_ok by (cases s) auto
qed

end
