(* ===== verification/Lab_Configuration.thy ===== *)
theory Lab_Configuration
  imports Runtime_Plan
begin

text \<open>
  \<open>configuration.py\<close> and \<open>config.py\<close>: the fingerprints of the lab's configuration files and
  the loading of a topology from an intent file. Reading a file and SHA-256 are parameters; a
  path is its text. The candidate fingerprint names each file and normalises line ends; the
  other one hashes the raw bytes of a fixed list of files.
\<close>

section \<open>The fingerprints\<close>

text \<open>\<open>base / path\<close>\<close>

definition under :: "string \<Rightarrow> string \<Rightarrow> string" where
  "under base path = base @ ''/'' @ path"

definition candidate_runtime_files :: "string list" where
  "candidate_runtime_files =
     [''lab/intent-dual-homed.yml'', ''lab/telconet-dual-homed.clab.yml'', ''lab/frr/daemons'',
      ''lab/frr/access1/frr.conf'', ''lab/frr/access2/frr.conf'', ''lab/frr/agg1/frr.conf'',
      ''lab/frr/agg2/frr.conf'', ''lab/frr/dual-homed/core1.conf'', ''lab/frr/dual-homed/core2.conf'',
      ''lab/frr/dual-homed/service-host.conf'']"

definition candidate_runtime_configuration_paths :: "string \<Rightarrow> string list" where
  "candidate_runtime_configuration_paths base = map (under base) candidate_runtime_files"

definition candidate_component :: "(string \<Rightarrow> string) \<Rightarrow> string \<Rightarrow> string \<Rightarrow> string" where
  "candidate_component sha256 path raw = path @ [CHR 0x00] @ sha256 (crlf_to_lf raw) @ [newline]"

definition candidate_runtime_configuration_fingerprint ::
  "(string \<Rightarrow> string) \<Rightarrow> (string \<Rightarrow> string result) \<Rightarrow> string \<Rightarrow> string result" where
  "candidate_runtime_configuration_fingerprint sha256 read_bytes base =
     rbind (traverse (\<lambda>(relative, path). rbind (read_bytes path) (\<lambda>raw. Inr (candidate_component sha256 relative raw)))
       (zip candidate_runtime_files (candidate_runtime_configuration_paths base))) (\<lambda>components.
       Inr (sha256 (concat components)))"

definition configuration_files :: "string \<Rightarrow> string list" where
  "configuration_files base =
     [under base ''lab/telconet.clab.yml'', under base ''lab/intent.yml''] @
     sort (under base ''lab/frr/daemons'' #
       map (\<lambda>router. under base (''lab/frr/'' @ router @ ''/frr.conf''))
         [''access1'', ''access2'', ''agg1'', ''agg2'', ''core1'', ''core2''])"

definition configuration_fingerprint ::
  "(string \<Rightarrow> string) \<Rightarrow> (string \<Rightarrow> string result) \<Rightarrow> string \<Rightarrow> string result" where
  "configuration_fingerprint sha256 read_bytes base =
     rbind (traverse (\<lambda>path. rbind (read_bytes path) (\<lambda>raw. Inr (sha256 raw @ [newline]))) (configuration_files base))
       (\<lambda>hashes. Inr (sha256 (concat hashes)))"

text \<open>\<open>config.py\<close>\<close>

definition load_topology :: "(string \<Rightarrow> NetworkIntent result) \<Rightarrow> string \<Rightarrow> Topology result" where
  "load_topology document path = rbind (load_intent document path) to_topology"

section \<open>What a fingerprint determines\<close>

lemma traverse_read:
  "traverse (\<lambda>x. rbind (read_bytes (path x)) (\<lambda>raw. Inr (f x raw))) xs = Inr ys \<longleftrightarrow>
   (\<exists>raws. list_all2 (\<lambda>x raw. read_bytes (path x) = Inr raw) xs raws \<and> ys = map2 f xs raws)"
proof (induction xs arbitrary: ys)
  case (Cons x xs)
  show ?case
  proof
    assume "traverse (\<lambda>x. rbind (read_bytes (path x)) (\<lambda>raw. Inr (f x raw))) (x # xs) = Inr ys"
    then obtain raw ys' where *: "read_bytes (path x) = Inr raw" "ys = f x raw # ys'"
      "traverse (\<lambda>x. rbind (read_bytes (path x)) (\<lambda>raw. Inr (f x raw))) xs = Inr ys'"
      by (auto simp only: traverse.simps rbind_eq_Inr sum.inject)
    then obtain raws where "list_all2 (\<lambda>x raw. read_bytes (path x) = Inr raw) xs raws" "ys' = map2 f xs raws"
      using Cons.IH by blast
    with * show "\<exists>raws. list_all2 (\<lambda>x raw. read_bytes (path x) = Inr raw) (x # xs) raws \<and> ys = map2 f (x # xs) raws"
      by (intro exI [of _ "raw # raws"]) simp
  next
    assume "\<exists>raws. list_all2 (\<lambda>x raw. read_bytes (path x) = Inr raw) (x # xs) raws \<and> ys = map2 f (x # xs) raws"
    then obtain raw raws where *: "read_bytes (path x) = Inr raw" "ys = f x raw # map2 f xs raws"
      "list_all2 (\<lambda>x raw. read_bytes (path x) = Inr raw) xs raws" by (auto simp: list_all2_Cons1)
    then have "traverse (\<lambda>x. rbind (read_bytes (path x)) (\<lambda>raw. Inr (f x raw))) xs = Inr (map2 f xs raws)"
      using Cons.IH by blast
    with * show "traverse (\<lambda>x. rbind (read_bytes (path x)) (\<lambda>raw. Inr (f x raw))) (x # xs) = Inr ys" by simp
  qed
qed auto

lemma candidate_fingerprint_Inr:
  "candidate_runtime_configuration_fingerprint sha256 read_bytes base = Inr h \<longleftrightarrow>
   (\<exists>raws. list_all2 (\<lambda>p raw. read_bytes (under base p) = Inr raw) candidate_runtime_files raws \<and>
     h = sha256 (concat (map2 (candidate_component sha256) candidate_runtime_files raws)))"
proof -
  have z: "zip xs (map (under base) xs) = map (\<lambda>p. (p, under base p)) xs" for xs
    by (induction xs) simp_all
  have m: "traverse f (map g xs) = traverse (\<lambda>x. f (g x)) xs" for f :: "'a \<Rightarrow> 'b result" and g and xs :: "'c list"
    by (induction xs) simp_all
  show ?thesis
    unfolding candidate_runtime_configuration_fingerprint_def candidate_runtime_configuration_paths_def z m
      split_conv rbind_eq_Inr traverse_read by auto
qed

text \<open>Blocks of the same lengths can be told apart in a concatenation.\<close>

lemma concat_blocks:
  assumes "length xs = length ys" "\<forall>x y. (x, y) \<in> set (zip xs ys) \<longrightarrow> length x = length y" "concat xs = concat ys"
  shows "xs = ys"
  using assms concat_eq_concat_iff [of xs ys] by auto

lemma list_eq_by_nth: "length xs = length ys \<Longrightarrow> (\<And>i. i < length xs \<Longrightarrow> xs ! i = ys ! i) \<Longrightarrow> xs = ys"
  by (rule nth_equalityI)

text \<open>Every text the candidate fingerprint hashes.\<close>

definition hashed_texts :: "(string \<Rightarrow> string) \<Rightarrow> string list \<Rightarrow> string set" where
  "hashed_texts sha256 raws =
     insert (concat (map2 (candidate_component sha256) candidate_runtime_files raws)) (crlf_to_lf ` set raws)"

lemma components_determine:
  assumes "length raws = length paths" "length raws' = length paths" "\<forall>x. length (sha256 x) = 64"
    and "concat (map2 (candidate_component sha256) paths raws) = concat (map2 (candidate_component sha256) paths raws')"
  shows "map (\<lambda>r. sha256 (crlf_to_lf r)) raws = map (\<lambda>r. sha256 (crlf_to_lf r)) raws'"
proof -
  have "map2 (candidate_component sha256) paths raws = map2 (candidate_component sha256) paths raws'"
    using assms by (intro concat_blocks) (auto simp: candidate_component_def set_zip)
  then have "candidate_component sha256 (paths ! i) (raws ! i) = candidate_component sha256 (paths ! i) (raws' ! i)"
    if "i < length paths" for i
    using that assms(1,2) by (metis (no_types, lifting) case_prod_conv length_map length_zip min.idem nth_map nth_zip)
  then show ?thesis using assms(1,2) by (intro list_eq_by_nth) (simp_all add: candidate_component_def)
qed

lemma list_all2_reads: "list_all2 (\<lambda>p raw. read_bytes (f p) = Inr raw) ps raws \<longleftrightarrow> map read_bytes (map f ps) = map Inr raws"
  by (induction ps arbitrary: raws) (auto simp: list_all2_Cons1 map_eq_Cons_conv)

lemma candidate_fingerprint_of:
  assumes "map read_bytes (candidate_runtime_configuration_paths base) = map Inr raws"
  shows "candidate_runtime_configuration_fingerprint sha256 read_bytes base =
      Inr (sha256 (concat (map2 (candidate_component sha256) candidate_runtime_files raws)))"
  using assms unfolding candidate_fingerprint_Inr list_all2_reads candidate_runtime_configuration_paths_def by auto

lemma read_lengths:
  assumes "map read_bytes (map f ps) = map Inr raws"
  shows "length raws = length ps"
  using arg_cong [OF assms, of length] by simp

text \<open>
  C30: The candidate fingerprint identifies the lab's configuration. For two readings of the
  files, with SHA-256 giving 64 characters and no collision among the texts that are actually
  hashed, the fingerprints are equal exactly when every file has the same content up to its
  line ends, wherever the two copies are stored.
\<close>

theorem configuration_binds:
  assumes "map read_bytes (candidate_runtime_configuration_paths base) = map Inr raws"
    and "map read_bytes' (candidate_runtime_configuration_paths base') = map Inr raws'"
    and "\<forall>x. length (sha256 x) = 64" "inj_on sha256 (hashed_texts sha256 raws \<union> hashed_texts sha256 raws')"
  shows "candidate_runtime_configuration_fingerprint sha256 read_bytes base =
      candidate_runtime_configuration_fingerprint sha256 read_bytes' base' \<longleftrightarrow>
    map crlf_to_lf raws = map crlf_to_lf raws'"
proof -
  let ?text = "\<lambda>raws. concat (map2 (candidate_component sha256) candidate_runtime_files raws)"
  have len: "length raws = length candidate_runtime_files" "length raws' = length candidate_runtime_files"
    using assms(1,2) read_lengths unfolding candidate_runtime_configuration_paths_def by blast+
  have "sha256 (?text raws) = sha256 (?text raws') \<longleftrightarrow> ?text raws = ?text raws'"
    by (rule inj_on_eq_iff [OF assms(4)]) (simp_all add: hashed_texts_def)
  also have "\<dots> \<longleftrightarrow> map crlf_to_lf raws = map crlf_to_lf raws'"
  proof
    assume "?text raws = ?text raws'"
    with components_determine [OF len assms(3)] have "map sha256 (map crlf_to_lf raws) = map sha256 (map crlf_to_lf raws')"
      by (simp add: comp_def)
    then show "map crlf_to_lf raws = map crlf_to_lf raws'"
      by (rule map_inj_on) (rule inj_on_subset [OF assms(4)], force simp: hashed_texts_def)
  next
    assume same: "map crlf_to_lf raws = map crlf_to_lf raws'"
    have "map2 (candidate_component sha256) paths rs =
        map2 (\<lambda>path content. path @ [CHR 0x00] @ sha256 content @ [newline]) paths (map crlf_to_lf rs)" for paths rs
      by (induction paths rs rule: list_induct2') (simp_all add: candidate_component_def)
    then show "?text raws = ?text raws'" using same by metis
  qed
  finally show ?thesis
    unfolding candidate_fingerprint_of [OF assms(1)] candidate_fingerprint_of [OF assms(2)] by simp
qed

text \<open>A copy with Unix line ends and one with Windows line ends have the same fingerprint.\<close>

theorem configuration_binds_witness:
  "\<exists>sha256. candidate_runtime_configuration_fingerprint sha256 (\<lambda>_. Inr [newline]) ''a'' =
     candidate_runtime_configuration_fingerprint sha256 (\<lambda>_. Inr [CHR 0x0D, newline]) ''b''"
proof -
  define sha256 :: "string \<Rightarrow> string" where
    "sha256 x = replicate 64 (if x = [newline] then CHR ''a'' else CHR ''b'')" for x
  let ?raws = "replicate 10 [newline]" and ?raws' = "replicate 10 [CHR 0x0D, newline]"
  have lf: "crlf_to_lf [newline] = [newline]" "crlf_to_lf [CHR 0x0D, newline] = [newline]" by code_simp+
  have reads: "map (\<lambda>_. Inr [newline]) (candidate_runtime_configuration_paths ''a'') = map Inr ?raws"
    "map (\<lambda>_. Inr [CHR 0x0D, newline]) (candidate_runtime_configuration_paths ''b'') = map Inr ?raws'"
    by (simp_all add: candidate_runtime_configuration_paths_def candidate_runtime_files_def numeral_eq_Suc)
  have same: "map2 (candidate_component sha256) candidate_runtime_files ?raws =
      map2 (candidate_component sha256) candidate_runtime_files ?raws'"
    by (simp add: candidate_runtime_files_def numeral_eq_Suc candidate_component_def lf)
  have "length (concat (map2 (candidate_component sha256) candidate_runtime_files ?raws)) > 1"
    by (simp add: candidate_runtime_files_def numeral_eq_Suc candidate_component_def)
  then have "concat (map2 (candidate_component sha256) candidate_runtime_files ?raws) \<noteq> [newline]" by auto
  then have "inj_on sha256 (hashed_texts sha256 ?raws \<union> hashed_texts sha256 ?raws')"
    unfolding hashed_texts_def same [symmetric] by (auto simp: inj_on_def lf sha256_def replicate_eq_replicate)
  from configuration_binds [OF reads _ this] show ?thesis
    by (intro exI [of _ sha256]) (simp add: sha256_def lf)
qed

end
