(* ===== verification/Runtime_Conformance.thy ===== *)
theory Runtime_Conformance
  imports Lab_Configuration Live_Detector
begin

text \<open>
  \<open>runtime_conformance.py\<close>: what is expected of a running router, the snapshot of its three FRR
  outputs, the checks of the one against the other, and the two programs that compose a
  snapshot and write the evidence. Parsing JSON and YAML, dumping a document as canonical
  JSON, \<open>pydantic\<close>'s reading and writing of a date, Python's \<open>str\<close> of floats and containers, the
  file system and SHA-256 are parameters. The property: the verdict is positive exactly when
  the adjacencies are the expected ones, one installed OSPF route goes to the expected next
  next_hop at the distance of the intent's graph, and the BFD peer is up with the expected timers.
\<close>

section \<open>The models\<close>

record OspfNeighborExpectation =
  one_router_id :: string
  one_interface :: string

record BfdExpectation =
  bfe_peer :: string
  bfe_interface :: string
  bfe_receive_interval_ms :: int
  bfe_transmit_interval_ms :: int
  bfe_detect_multiplier :: int
  bfe_detection_timeout_ms :: int

record RuntimeExpectation =
  rx_version :: int
  rx_router :: string
  rx_service_node :: string
  rx_route_prefix :: string
  rx_route_next_hop :: string
  rx_route_interface :: string
  rx_ospf_neighbors :: "OspfNeighborExpectation list"
  rx_bfd :: BfdExpectation

record RuntimeSnapshot =
  rsn_schema_version :: int
  rsn_captured_at :: datetime
  rsn_router :: string
  rsn_ospf :: "(string \<times> json) list"
  rsn_route :: "(string \<times> json) list"
  rsn_bfd :: "(string \<times> json) list"

text \<open>\<open>^[a-zA-Z0-9_.:-]{1,64}$\<close>\<close>

definition interface_char :: "char \<Rightarrow> bool" where
  "interface_char c = (is_lower c \<or> is_upper c \<or> is_digit c \<or> c \<in> {CHR ''_'', CHR ''.'', CHR '':'', CHR ''-''})"

definition runtime_interface :: "string \<Rightarrow> bool" where
  "runtime_interface s = matches interface_char interface_char 63 s"

text \<open>
  \<open>ipaddress.ip_address\<close> reads an IPv4 address or else an IPv6 one; an IPv4 address is
  written back in its only spelling.
\<close>

definition canonical_ipv4 :: "string \<Rightarrow> string \<Rightarrow> string result" where
  "canonical_ipv4 value label_text =
     (case ip4_int value of
        Some n \<Rightarrow>
          if ip4_text n = value then Inr value
          else Inl (ValueError (''invalid canonical '' @ label_text @ '': '' @ value))
      | None \<Rightarrow>
          if Option.bind (strip_scope value) ip6_int \<noteq> None
          then Inl (ValueError (''invalid canonical '' @ label_text @ '': '' @ value))
          else Inl (ValueError (''invalid '' @ label_text @ '': '' @ value)))"

definition validate_ospf_expectation :: "OspfNeighborExpectation \<Rightarrow> unit result" where
  "validate_ospf_expectation n =
     rbind (canonical_ipv4 (one_router_id n) ''OSPF router ID'') (\<lambda>_.
       matching (runtime_interface (one_interface n)) ''interface'')"

definition validate_bfd_expectation :: "BfdExpectation \<Rightarrow> unit result" where
  "validate_bfd_expectation b =
     rbind (canonical_ipv4 (bfe_peer b) ''BFD peer'') (\<lambda>_.
     rbind (matching (runtime_interface (bfe_interface b)) ''interface'') (\<lambda>_.
     rbind (in_range 1 60000 (bfe_receive_interval_ms b) ''receive_interval_ms'') (\<lambda>_.
     rbind (in_range 1 60000 (bfe_transmit_interval_ms b) ''transmit_interval_ms'') (\<lambda>_.
     rbind (in_range 1 255 (bfe_detect_multiplier b) ''detect_multiplier'') (\<lambda>_.
       in_range 1 60000 (bfe_detection_timeout_ms b) ''detection_timeout_ms'')))))"

text \<open>\<open>network.version == 4\<close> and \<open>str(network) == value\<close>\<close>

definition validate_route_prefix :: "string \<Rightarrow> unit result" where
  "validate_route_prefix value =
     rbind (ensure (ip_network_ok value) (''invalid route prefix: '' @ value)) (\<lambda>_.
       ensure (ip4_parts value \<noteq> None \<and> ip_network_text value = Some value)
         (''invalid canonical route prefix: '' @ value))"

definition validate_runtime_expectation :: "RuntimeExpectation \<Rightarrow> RuntimeExpectation result" where
  "validate_runtime_expectation x =
     rbind (ensure (rx_version x = 1) ''unsupported runtime expectation version'') (\<lambda>_.
     rbind (matching (is_identifier (rx_router x)) ''router'') (\<lambda>_.
     rbind (matching (is_identifier (rx_service_node x)) ''service_node'') (\<lambda>_.
     rbind (validate_route_prefix (rx_route_prefix x)) (\<lambda>_.
     rbind (canonical_ipv4 (rx_route_next_hop x) ''route next hop'') (\<lambda>_.
     rbind (matching (runtime_interface (rx_route_interface x)) ''route_interface'') (\<lambda>_.
     rbind (item_count 32 (rx_ospf_neighbors x) ''ospf_neighbors'') (\<lambda>_.
     rbind (each validate_ospf_expectation (rx_ospf_neighbors x)) (\<lambda>_.
     rbind (validate_bfd_expectation (rx_bfd x)) (\<lambda>_.
     rbind (ensure (distinct (map one_router_id (rx_ospf_neighbors x))) ''OSPF neighbor router IDs must be unique'') (\<lambda>_.
       Inr x))))))))))"

definition load_runtime_expectation ::
  "(string \<Rightarrow> RuntimeExpectation result) \<Rightarrow> string \<Rightarrow> RuntimeExpectation result" where
  "load_runtime_expectation document path = rbind (document path) validate_runtime_expectation"

text \<open>\<open>RuntimeSnapshot.model_validate\<close>: exactly these fields, with a date that can be read.\<close>

definition validate_runtime_snapshot ::
  "(json \<Rightarrow> datetime option) \<Rightarrow> (string \<times> json) list \<Rightarrow> RuntimeSnapshot result" where
  "validate_runtime_snapshot read_time d =
     (case (jint (jget ''schema_version'' d), read_time (jget ''captured_at'' d), jstring (jget ''router'' d),
         jobject (jget ''ospf'' d), jobject (jget ''route'' d), jobject (jget ''bfd'' d)) of
        (Some version, Some captured, Some router, Some ospf, Some route, Some bfd) \<Rightarrow>
          rbind (ensure (version = 1) ''unsupported runtime snapshot version'') (\<lambda>_.
          rbind (matching (is_identifier router) ''router'') (\<lambda>_.
          rbind (ensure (set (dict_keys d) = {''schema_version'', ''captured_at'', ''router'', ''ospf'', ''route'', ''bfd''})
            ''extra inputs are not permitted'') (\<lambda>_.
            Inr \<lparr>rsn_schema_version = version, rsn_captured_at = captured, rsn_router = router, rsn_ospf = ospf,
              rsn_route = route, rsn_bfd = bfd\<rparr>)))
      | _ \<Rightarrow> Inl (ValueError ''runtime snapshot: invalid field''))"

section \<open>Comparing values\<close>

text \<open>\<open>_mapping\<close> and \<open>_sequence\<close>\<close>

definition as_mapping :: "json \<Rightarrow> (string \<times> json) list" where
  "as_mapping value = (case value of JObject d \<Rightarrow> d | _ \<Rightarrow> [])"

definition as_sequence :: "json \<Rightarrow> json list" where
  "as_sequence value = (case value of JArray xs \<Rightarrow> xs | _ \<Rightarrow> [])"

text \<open>Python's \<open>==\<close>: numbers by value, \<open>True\<close> being 1; dictionaries without order.\<close>

fun py_number :: "json \<Rightarrow> rat option" where
  "py_number (JBool b) = Some (if b then 1 else 0)"
| "py_number (JInt i) = Some (of_int i)"
| "py_number (JFloat r) = Some r"
| "py_number _ = None"

lemma size_zip_fst [termination_simp]: "(a, b) \<in> set (zip xs ys) \<Longrightarrow> size a < Suc (size_list size xs)"
  using size_list_estimation' [of a xs "size a" size] by (auto dest: set_zip_leftD)

fun py_equal :: "json \<Rightarrow> json \<Rightarrow> bool" where
  "py_equal (JArray xs) (JArray ys) = (length xs = length ys \<and> list_all (\<lambda>(x, y). py_equal x y) (zip xs ys))"
| "py_equal (JObject d) (JObject e) =
     (set (dict_keys d) = set (dict_keys e) \<and>
      list_all (\<lambda>(k, v). case map_of e k of None \<Rightarrow> False | Some w \<Rightarrow> py_equal v w) d)"
| "py_equal (JString s) (JString t) = (s = t)"
| "py_equal JNull JNull = True"
| "py_equal x y = (case (py_number x, py_number y) of (Some a, Some b) \<Rightarrow> a = b | _ \<Rightarrow> False)"

text \<open>\<open>bool(value)\<close>\<close>

fun truthy :: "json \<Rightarrow> bool" where
  "truthy JNull = False"
| "truthy (JBool b) = b"
| "truthy (JInt i) = (i \<noteq> 0)"
| "truthy (JFloat r) = (r \<noteq> 0)"
| "truthy (JString s) = (s \<noteq> [])"
| "truthy (JArray xs) = (xs \<noteq> [])"
| "truthy (JObject d) = (d \<noteq> [])"

record ConformanceCheck =
  cc_id :: string
  cc_expected :: json
  cc_actual :: json
  cc_passed :: bool

definition conformance_check :: "string \<Rightarrow> json \<Rightarrow> json \<Rightarrow> ConformanceCheck" where
  "conformance_check check_id expected actual =
     \<lparr>cc_id = check_id, cc_expected = expected, cc_actual = actual, cc_passed = py_equal actual expected\<rparr>"

section \<open>The checks\<close>

text \<open>An adjacency: router id, interface, state.\<close>

type_synonym adjacency = "string \<times> string \<times> string"

definition adjacency_json :: "adjacency \<Rightarrow> json" where
  "adjacency_json a =
     JObject [(''router_id'', JString (fst a)), (''interface'', JString (fst (snd a))), (''state'', JString (snd (snd a)))]"

text \<open>\<open>str(entry.get("ifaceName", "")).split(":", 1)[0]\<close> and the state in the same way\<close>

definition entry_interface :: "(json \<Rightarrow> string) \<Rightarrow> (string \<times> json) list \<Rightarrow> string" where
  "entry_interface repr entry = takeWhile (\<lambda>c. c \<noteq> CHR '':'') (field_text repr ''ifaceName'' entry)"

definition entry_state :: "(json \<Rightarrow> string) \<Rightarrow> (string \<times> json) list \<Rightarrow> string" where
  "entry_state repr entry =
     takeWhile (\<lambda>c. c \<noteq> CHR ''/'')
       (if truthy (jget ''converged'' entry) then py_str repr (jget ''converged'' entry)
        else field_text repr ''nbrState'' entry)"

definition expected_adjacencies :: "RuntimeExpectation \<Rightarrow> adjacency list" where
  "expected_adjacencies x = sort (map (\<lambda>n. (one_router_id n, one_interface n, ''Full'')) (rx_ospf_neighbors x))"

definition router_adjacencies :: "(json \<Rightarrow> string) \<Rightarrow> string \<times> json \<Rightarrow> adjacency list" where
  "router_adjacencies repr item =
     map (\<lambda>v. (fst item, entry_interface repr (as_mapping v), entry_state repr (as_mapping v))) (as_sequence (snd item))"

definition actual_adjacencies :: "(json \<Rightarrow> string) \<Rightarrow> (string \<times> json) list \<Rightarrow> adjacency list" where
  "actual_adjacencies repr neighbor_map = sort (concat (map (router_adjacencies repr) neighbor_map))"

definition neighbor_check ::
  "(json \<Rightarrow> string) \<Rightarrow> (string \<times> json) list \<Rightarrow> OspfNeighborExpectation \<Rightarrow> ConformanceCheck" where
  "neighbor_check repr neighbor_map n =
     conformance_check (''ospf.neighbor.'' @ one_router_id n)
       (JObject [(''state'', JString ''Full''), (''interface'', JString (one_interface n))])
       (case List.find (\<lambda>v. entry_interface repr (as_mapping v) = one_interface n)
           (as_sequence (jget (one_router_id n) neighbor_map)) of
          None \<Rightarrow> JString ''missing''
        | Some v \<Rightarrow>
            JObject [(''state'', JString (entry_state repr (as_mapping v))),
              (''interface'', JString (entry_interface repr (as_mapping v)))])"

definition ospf_checks :: "(json \<Rightarrow> string) \<Rightarrow> RuntimeSnapshot \<Rightarrow> RuntimeExpectation \<Rightarrow> ConformanceCheck list" where
  "ospf_checks repr s x =
     (let neighbor_map = as_mapping (jget ''neighbors'' (rsn_ospf s))
      in conformance_check ''ospf.adjacencies'' (JArray (map adjacency_json (expected_adjacencies x)))
           (JArray (map adjacency_json (actual_adjacencies repr neighbor_map))) #
         map (neighbor_check repr neighbor_map) (rx_ospf_neighbors x))"

definition selected_routes :: "RuntimeSnapshot \<Rightarrow> RuntimeExpectation \<Rightarrow> (string \<times> json) list list" where
  "selected_routes s x =
     filter (\<lambda>route. jget ''installed'' route = JBool True \<and> jget ''selected'' route = JBool True)
       (map as_mapping (as_sequence (jget (rx_route_prefix x) (rsn_route s))))"

definition active_next_hops :: "(json \<Rightarrow> string) \<Rightarrow> (string \<times> json) list \<Rightarrow> (json \<times> json) list" where
  "active_next_hops repr route =
     sort_key (\<lambda>(ip, interface). (py_str repr ip, py_str repr interface))
       (map (\<lambda>next_hop. (jget ''ip'' next_hop, jget ''interfaceName'' next_hop))
         (filter (\<lambda>next_hop. jget ''active'' next_hop = JBool True \<and> jget ''fib'' next_hop = JBool True)
           (map as_mapping (as_sequence (jget ''nexthops'' route)))))"

definition next_hop_json :: "json \<times> json \<Rightarrow> json" where
  "next_hop_json next_hop = JObject [(''ip'', fst next_hop), (''interface'', snd next_hop)]"

definition route_checks ::
  "(json \<Rightarrow> string) \<Rightarrow> RuntimeSnapshot \<Rightarrow> RuntimeExpectation \<Rightarrow> int \<Rightarrow> ConformanceCheck list" where
  "route_checks repr s x expected_metric =
     (let selected = selected_routes s x;
          installed = (case selected of [] \<Rightarrow> [] | route # _ \<Rightarrow> route)
      in [conformance_check ''route.installed'' (JBool True) (JBool (installed \<noteq> [])),
          conformance_check ''route.selected_entry_count'' (JInt 1) (JInt (int (length selected))),
          conformance_check ''route.protocol'' (JString ''ospf'') (jget ''protocol'' installed),
          conformance_check ''route.metric'' (JInt expected_metric) (jget ''metric'' installed),
          conformance_check ''route.next_hops''
            (JArray [next_hop_json (JString (rx_route_next_hop x), JString (rx_route_interface x))])
            (JArray (map next_hop_json (active_next_hops repr installed)))])"

definition bfd_peer_matches :: "RuntimeSnapshot \<Rightarrow> RuntimeExpectation \<Rightarrow> bool" where
  "bfd_peer_matches s x =
     (jget ''peer'' (rsn_bfd s) = JString (bfe_peer (rx_bfd x)) \<and>
      jget ''interface'' (rsn_bfd s) = JString (bfe_interface (rx_bfd x)))"

definition bfd_checks :: "RuntimeSnapshot \<Rightarrow> RuntimeExpectation \<Rightarrow> ConformanceCheck list" where
  "bfd_checks s x =
     (let value = (\<lambda>field. if bfd_peer_matches s x then jget field (rsn_bfd s) else JNull)
      in [conformance_check ''bfd.status'' (JString ''up'')
            (if bfd_peer_matches s x then jget ''status'' (rsn_bfd s) else JString ''missing''),
          conformance_check ''bfd.receive_interval_ms'' (JInt (bfe_receive_interval_ms (rx_bfd x))) (value ''receive-interval''),
          conformance_check ''bfd.transmit_interval_ms'' (JInt (bfe_transmit_interval_ms (rx_bfd x))) (value ''transmit-interval''),
          conformance_check ''bfd.detect_multiplier'' (JInt (bfe_detect_multiplier (rx_bfd x))) (value ''detect-multiplier''),
          conformance_check ''bfd.detection_timeout_ms'' (JInt (bfe_detection_timeout_ms (rx_bfd x))) (value ''detection-timeout'')])"

section \<open>The evidence\<close>

record ConformanceLibrary =
  cl_sha256 :: "string \<Rightarrow> string"
  cl_dumps :: "json \<Rightarrow> string"
  cl_repr :: "json \<Rightarrow> string"
  cl_read_time :: "json \<Rightarrow> datetime option"
  cl_dump_time :: "datetime \<Rightarrow> string"

text \<open>\<open>_digest(model.model_dump(mode="json"))\<close>\<close>

definition json_digest :: "ConformanceLibrary \<Rightarrow> json \<Rightarrow> string" where
  "json_digest lib value = cl_sha256 lib (cl_dumps lib value)"

definition intent_dump :: "NetworkIntent \<Rightarrow> json" where
  "intent_dump i =
     JObject [(''version'', JInt (intent_version i)),
       (''nodes'', JObject (map (\<lambda>(name, n). (name, JObject [(''role'', JString (role_value (ni_role n))),
          (''prefixes'', jstrings (ni_prefixes n))])) (intent_nodes i))),
       (''links'', JArray (map (\<lambda>l. JObject [(''id'', JString (li_id l)),
          (''endpoints'', jstrings [fst (li_endpoints l), snd (li_endpoints l)]), (''cost'', JInt (li_cost l))])
          (intent_links i)))]"

definition expectation_dump :: "RuntimeExpectation \<Rightarrow> json" where
  "expectation_dump x =
     JObject [(''version'', JInt (rx_version x)), (''router'', JString (rx_router x)),
       (''service_node'', JString (rx_service_node x)), (''route_prefix'', JString (rx_route_prefix x)),
       (''route_next_hop'', JString (rx_route_next_hop x)), (''route_interface'', JString (rx_route_interface x)),
       (''ospf_neighbors'', JArray (map (\<lambda>n. JObject [(''router_id'', JString (one_router_id n)),
          (''interface'', JString (one_interface n))]) (rx_ospf_neighbors x))),
       (''bfd'', JObject [(''peer'', JString (bfe_peer (rx_bfd x))), (''interface'', JString (bfe_interface (rx_bfd x))),
          (''receive_interval_ms'', JInt (bfe_receive_interval_ms (rx_bfd x))),
          (''transmit_interval_ms'', JInt (bfe_transmit_interval_ms (rx_bfd x))),
          (''detect_multiplier'', JInt (bfe_detect_multiplier (rx_bfd x))),
          (''detection_timeout_ms'', JInt (bfe_detection_timeout_ms (rx_bfd x)))])]"

definition snapshot_dump :: "ConformanceLibrary \<Rightarrow> RuntimeSnapshot \<Rightarrow> json" where
  "snapshot_dump lib s =
     JObject [(''schema_version'', JInt (rsn_schema_version s)),
       (''captured_at'', JString (cl_dump_time lib (rsn_captured_at s))), (''router'', JString (rsn_router s)),
       (''ospf'', JObject (rsn_ospf s)), (''route'', JObject (rsn_route s)), (''bfd'', JObject (rsn_bfd s))]"

text \<open>\<open>text.replace("+00:00", "Z")\<close>\<close>

function replace_utc :: "string \<Rightarrow> string" where
  "replace_utc s =
     (if s = [] then [] else if starts_with ''+00:00'' s then CHR ''Z'' # replace_utc (drop 6 s)
      else hd s # replace_utc (tl s))"
  by pat_completeness auto
termination by (relation "measure length") auto

declare replace_utc.simps [simp del]

definition conformance_check_json :: "ConformanceCheck \<Rightarrow> json" where
  "conformance_check_json c =
     JObject [(''id'', JString (cc_id c)), (''expected'', cc_expected c), (''actual'', cc_actual c),
       (''passed'', JBool (cc_passed c))]"

definition passed_checks :: "ConformanceCheck list \<Rightarrow> nat" where
  "passed_checks checks = sum_list (map (\<lambda>c. if cc_passed c then 1 else 0) checks)"

definition conformance_document ::
  "ConformanceLibrary \<Rightarrow> NetworkIntent \<Rightarrow> RuntimeExpectation \<Rightarrow> RuntimeSnapshot \<Rightarrow> string \<Rightarrow>
   ConformanceCheck list \<Rightarrow> (string \<times> json) list" where
  "conformance_document lib i x s configuration_sha256 checks =
     [(''schema_version'', JInt 1), (''scenario'', JString ''pre_fault_runtime_conformance''),
      (''source'', JString ''frr_runtime_observation''), (''measured'', JBool True),
      (''captured_at'', JString (replace_utc (isoformat (rsn_captured_at s)))), (''router'', JString (rx_router x)),
      (''service_node'', JString (rx_service_node x)), (''route_prefix'', JString (rx_route_prefix x)),
      (''configuration_sha256'', JString configuration_sha256),
      (''intent_sha256'', JString (json_digest lib (intent_dump i))),
      (''expectation_sha256'', JString (json_digest lib (expectation_dump x))),
      (''snapshot_sha256'', JString (json_digest lib (snapshot_dump lib s))),
      (''passed_all'', JBool (passed_checks checks = length checks)),
      (''summary'', JObject [(''total'', JInt (int (length checks))), (''passed'', JInt (int (passed_checks checks))),
         (''failed'', JInt (int (length checks) - int (passed_checks checks)))]),
      (''checks'', JArray (map conformance_check_json checks))]"

definition intent_role :: "NetworkIntent \<Rightarrow> string \<Rightarrow> NodeRole option" where
  "intent_role i name = map_option ni_role (map_of (intent_nodes i) name)"

definition owned_by :: "NetworkIntent \<Rightarrow> string \<Rightarrow> string list" where
  "owned_by i name = (case map_of (intent_nodes i) name of None \<Rightarrow> [] | Some n \<Rightarrow> ni_prefixes n)"

definition conformance_checks ::
  "ConformanceLibrary \<Rightarrow> RuntimeSnapshot \<Rightarrow> RuntimeExpectation \<Rightarrow> int \<Rightarrow> ConformanceCheck list" where
  "conformance_checks lib s x metric = ospf_checks (cl_repr lib) s x @ route_checks (cl_repr lib) s x metric @ bfd_checks s x"

definition build_runtime_conformance_evidence ::
  "ConformanceLibrary \<Rightarrow> NetworkIntent \<Rightarrow> RuntimeExpectation \<Rightarrow> (string \<times> json) list \<Rightarrow> string \<Rightarrow>
   (string \<times> json) list result" where
  "build_runtime_conformance_evidence lib i x raw configuration_sha256 =
     rbind (ensure (hex_of_length 64 configuration_sha256) ''configuration_sha256 must be a lowercase SHA-256'') (\<lambda>_.
     rbind (ensure (rx_router x \<in> set (dict_keys (intent_nodes i)))
       (''runtime router is not declared in intent: '' @ rx_router x)) (\<lambda>_.
     rbind (ensure (rx_service_node x \<in> set (dict_keys (intent_nodes i)))
       (''runtime service node is not declared in intent: '' @ rx_service_node x)) (\<lambda>_.
     rbind (ensure (intent_role i (rx_router x) = Some ACCESS)
       (''runtime router must have access role: '' @ rx_router x)) (\<lambda>_.
     rbind (ensure (intent_role i (rx_service_node x) = Some SERVICE)
       (''runtime service node must have service role: '' @ rx_service_node x)) (\<lambda>_.
     rbind (ensure (rx_route_prefix x \<in> set (owned_by i (rx_service_node x)))
       (''route prefix '' @ rx_route_prefix x @ '' is not owned by '' @ rx_service_node x @ '' in intent'')) (\<lambda>_.
     rbind (validate_runtime_snapshot (cl_read_time lib) raw) (\<lambda>s.
     rbind (ensure (rsn_router s = rx_router x)
       (''snapshot router '' @ rsn_router s @ '' does not match '' @ rx_router x)) (\<lambda>_.
     rbind (to_topology i) (\<lambda>t.
     rbind (shortest_distance t (rx_router x) {rx_service_node x} None None) (\<lambda>metric.
       case metric of
         None \<Rightarrow> Inl (ValueError ''intent has no service path for runtime router'')
       | Some m \<Rightarrow>
           Inr (conformance_document lib i x s configuration_sha256 (conformance_checks lib s x m))))))))))))"

section \<open>When a check passes\<close>

lemma check_passed [simp]: "cc_passed (conformance_check i expected actual) = py_equal actual expected"
  by (simp add: conformance_check_def)

lemma py_equal_string [simp]: "py_equal v (JString s) \<longleftrightarrow> v = JString s"
  by (cases v) auto

lemma same_number [simp]:
  "(case v of None \<Rightarrow> False | Some a \<Rightarrow> (case Some r of None \<Rightarrow> False | Some b \<Rightarrow> a = b)) \<longleftrightarrow> v = Some r"
  by (cases v) auto

lemma py_equal_int [simp]: "py_equal v (JInt m) \<longleftrightarrow> py_number v = Some (of_int m)"
  by (cases v) auto

lemma py_equal_strings:
  "py_equal (JObject [(k, JString a), (l, JString b)]) (JObject [(k, JString a'), (l, JString b')]) \<longleftrightarrow> a = a' \<and> b = b'"
  if "k \<noteq> l"
  using that by auto

lemma py_equal_adjacency: "py_equal (adjacency_json a) (adjacency_json b) \<longleftrightarrow> a = b"
  by (auto simp: adjacency_json_def prod_eq_iff)

lemma list_all_zip: "length xs = length ys \<Longrightarrow> list_all (\<lambda>(x, y). f x = g y) (zip xs ys) \<longleftrightarrow> map f xs = map g ys"
  by (induction xs ys rule: list_induct2) auto

lemma py_equal_adjacencies:
  "py_equal (JArray (map adjacency_json xs)) (JArray (map adjacency_json ys)) \<longleftrightarrow> xs = ys"
proof -
  have "list_all (\<lambda>(x, y). py_equal x y) (zip (map adjacency_json xs) (map adjacency_json ys)) \<longleftrightarrow> xs = ys"
    if "length xs = length ys"
    using that by (induction xs ys rule: list_induct2) (auto simp: py_equal_adjacency)
  then show ?thesis by auto
qed

lemma py_equal_next_hop:
  "py_equal (next_hop_json h) (next_hop_json (JString a, JString b)) \<longleftrightarrow> h = (JString a, JString b)"
  by (cases h) (auto simp: next_hop_json_def)

lemma py_equal_next_hops:
  "py_equal (JArray (map next_hop_json hs)) (JArray [next_hop_json (JString a, JString b)]) \<longleftrightarrow>
   hs = [(JString a, JString b)]"
  by (cases hs; cases "tl hs") (auto simp: py_equal_next_hop)

section \<open>The verdict\<close>

text \<open>A router conforms, said without the checks.\<close>

definition router_conforms :: "(json \<Rightarrow> string) \<Rightarrow> RuntimeSnapshot \<Rightarrow> RuntimeExpectation \<Rightarrow> int \<Rightarrow> bool" where
  "router_conforms repr s x metric =
     (mset (concat (map (router_adjacencies repr) (as_mapping (jget ''neighbors'' (rsn_ospf s))))) =
        mset (map (\<lambda>n. (one_router_id n, one_interface n, ''Full'')) (rx_ospf_neighbors x)) \<and>
      (\<exists>route. selected_routes s x = [route] \<and> jget ''protocol'' route = JString ''ospf'' \<and>
        py_number (jget ''metric'' route) = Some (of_int metric) \<and>
        active_next_hops repr route = [(JString (rx_route_next_hop x), JString (rx_route_interface x))]) \<and>
      bfd_peer_matches s x \<and> jget ''status'' (rsn_bfd s) = JString ''up'' \<and>
      py_number (jget ''receive-interval'' (rsn_bfd s)) = Some (of_int (bfe_receive_interval_ms (rx_bfd x))) \<and>
      py_number (jget ''transmit-interval'' (rsn_bfd s)) = Some (of_int (bfe_transmit_interval_ms (rx_bfd x))) \<and>
      py_number (jget ''detect-multiplier'' (rsn_bfd s)) = Some (of_int (bfe_detect_multiplier (rx_bfd x))) \<and>
      py_number (jget ''detection-timeout'' (rsn_bfd s)) = Some (of_int (bfe_detection_timeout_ms (rx_bfd x))))"

lemma sort_eq_mset: "sort xs = sort ys \<longleftrightarrow> mset xs = mset ys" for xs ys :: "'a :: linorder list"
  by (metis mset_sort properties_for_sort sorted_sort)

lemma bfd_passed:
  "list_all cc_passed (bfd_checks s x) \<longleftrightarrow>
   bfd_peer_matches s x \<and> jget ''status'' (rsn_bfd s) = JString ''up'' \<and>
   py_number (jget ''receive-interval'' (rsn_bfd s)) = Some (of_int (bfe_receive_interval_ms (rx_bfd x))) \<and>
   py_number (jget ''transmit-interval'' (rsn_bfd s)) = Some (of_int (bfe_transmit_interval_ms (rx_bfd x))) \<and>
   py_number (jget ''detect-multiplier'' (rsn_bfd s)) = Some (of_int (bfe_detect_multiplier (rx_bfd x))) \<and>
   py_number (jget ''detection-timeout'' (rsn_bfd s)) = Some (of_int (bfe_detection_timeout_ms (rx_bfd x)))"
  by (simp add: bfd_checks_def)

lemma selected_not_empty: "route \<in> set (selected_routes s x) \<Longrightarrow> route \<noteq> []"
  by (auto simp: selected_routes_def jget_def)

lemma route_passed:
  "list_all cc_passed (route_checks repr s x metric) \<longleftrightarrow>
   (\<exists>route. selected_routes s x = [route] \<and> jget ''protocol'' route = JString ''ospf'' \<and>
     py_number (jget ''metric'' route) = Some (of_int metric) \<and>
     active_next_hops repr route = [(JString (rx_route_next_hop x), JString (rx_route_interface x))])"
proof (cases "selected_routes s x")
  case Nil
  then show ?thesis by (simp add: route_checks_def)
next
  case (Cons route rest)
  then have "route \<noteq> []" using selected_not_empty [of route s x] by simp
  with Cons show ?thesis
    by (auto simp: route_checks_def py_equal_next_hops [simplified])
qed

text \<open>Once the adjacencies are the expected ones, every neighbour check passes.\<close>

lemma entries_of_router:
  assumes "distinct (dict_keys d)" "(r, i, st) \<in> set (concat (map (router_adjacencies repr) d))"
  shows "\<exists>v \<in> set (as_sequence (jget r d)). entry_interface repr (as_mapping v) = i \<and> entry_state repr (as_mapping v) = st"
proof -
  obtain w where w: "(r, w) \<in> set d" "(r, i, st) \<in> set (router_adjacencies repr (r, w))"
    using assms(2) by (fastforce simp: router_adjacencies_def)
  then have "jget r d = w" using assms(1) by (simp add: jget_def)
  with w(2) show ?thesis by (auto simp: router_adjacencies_def)
qed

lemma router_of_entries:
  assumes "v \<in> set (as_sequence (jget r d))"
  shows "(r, entry_interface repr (as_mapping v), entry_state repr (as_mapping v)) \<in>
    set (concat (map (router_adjacencies repr) d))"
proof -
  obtain w where "map_of d r = Some w" "v \<in> set (as_sequence w)"
    using assms by (cases "map_of d r") (auto simp: jget_def as_sequence_def)
  then show ?thesis by (force simp: router_adjacencies_def dest: map_of_SomeD)
qed

lemma neighbor_passed:
  assumes "distinct (dict_keys d)" "distinct (map one_router_id ns)" "n \<in> set ns"
    and "mset (concat (map (router_adjacencies repr) d)) = mset (map (\<lambda>n. (one_router_id n, one_interface n, ''Full'')) ns)"
  shows "cc_passed (neighbor_check repr d n)"
proof -
  have same: "set (concat (map (router_adjacencies repr) d)) = (\<lambda>n. (one_router_id n, one_interface n, ''Full'')) ` set ns"
    using mset_eq_setD [OF assms(4)] by simp
  then have "(one_router_id n, one_interface n, ''Full'') \<in> set (concat (map (router_adjacencies repr) d))"
    using assms(3) by blast
  from entries_of_router [OF assms(1) this] obtain v where
    "v \<in> set (as_sequence (jget (one_router_id n) d))" "entry_interface repr (as_mapping v) = one_interface n" by blast
  then obtain u where u: "List.find (\<lambda>v. entry_interface repr (as_mapping v) = one_interface n)
      (as_sequence (jget (one_router_id n) d)) = Some u"
    by (metis (mono_tags, lifting) find_None_iff not_None_eq)
  then have "u \<in> set (as_sequence (jget (one_router_id n) d))" "entry_interface repr (as_mapping u) = one_interface n"
    by (auto simp: find_Some_iff)
  then have "(one_router_id n, one_interface n, entry_state repr (as_mapping u)) \<in>
      (\<lambda>n. (one_router_id n, one_interface n, ''Full'')) ` set ns"
    using router_of_entries [of u "one_router_id n" d repr] unfolding same by metis
  then have "entry_state repr (as_mapping u) = ''Full''" by auto
  with u show ?thesis
    using \<open>entry_interface repr (as_mapping u) = one_interface n\<close> by (simp add: neighbor_check_def)
qed

lemma ospf_passed:
  assumes "distinct (dict_keys (as_mapping (jget ''neighbors'' (rsn_ospf s))))"
    and "distinct (map one_router_id (rx_ospf_neighbors x))"
  shows "list_all cc_passed (ospf_checks repr s x) \<longleftrightarrow>
    mset (concat (map (router_adjacencies repr) (as_mapping (jget ''neighbors'' (rsn_ospf s))))) =
      mset (map (\<lambda>n. (one_router_id n, one_interface n, ''Full'')) (rx_ospf_neighbors x))"
  unfolding ospf_checks_def Let_def list_all_iff set_map list.set ball_simps check_passed
    py_equal_adjacencies actual_adjacencies_def expected_adjacencies_def sort_eq_mset
  using neighbor_passed [OF assms] by blast

lemma passed_checks_all: "passed_checks cs = length cs \<longleftrightarrow> list_all cc_passed cs"
proof -
  have le: "passed_checks cs \<le> length cs" for cs by (induction cs) (simp_all add: passed_checks_def)
  show ?thesis
  proof (induction cs)
    case (Cons c cs)
    then show ?case using le [of cs] by (simp add: passed_checks_def)
  qed (simp add: passed_checks_def)
qed

lemma passed_checks_le: "passed_checks cs \<le> length cs"
  by (induction cs) (simp_all add: passed_checks_def)

lemma conformance_passed:
  assumes "distinct (dict_keys (as_mapping (jget ''neighbors'' (rsn_ospf s))))"
    and "distinct (map one_router_id (rx_ospf_neighbors x))"
  shows "passed_checks (conformance_checks lib s x m) = length (conformance_checks lib s x m) \<longleftrightarrow>
    router_conforms (cl_repr lib) s x m"
  unfolding passed_checks_all conformance_checks_def list_all_append ospf_passed [OF assms] route_passed bfd_passed
    router_conforms_def by blast

section \<open>The programs\<close>

text \<open>
  The file system and the parsers: resolving a path, the bytes and the size of a file, the
  files below \<open>lab\<close>, JSON text as a value in which an object keeps every pair of the text,
  and the two YAML models. A text with a constant such as \<open>NaN\<close> does not parse.
\<close>

record ConformanceFiles =
  cf_resolve :: "string \<Rightarrow> string"
  cf_read :: "string \<Rightarrow> string result"
  cf_size :: "string \<Rightarrow> nat result"
  cf_lab_files :: "string \<Rightarrow> string list"
  cf_parse :: "string \<Rightarrow> json result"
  cf_intent :: "string \<Rightarrow> NetworkIntent result"
  cf_expectation :: "string \<Rightarrow> RuntimeExpectation result"

definition max_snapshot_bytes :: nat where "max_snapshot_bytes = 5 * 1024 * 1024"
definition max_component_bytes :: nat where "max_component_bytes = 1024 * 1024"
definition max_definition_bytes :: nat where "max_definition_bytes = 1024 * 1024"

text \<open>\<open>_unique_json_object\<close>, called for every object of the text\<close>

fun unique_keys :: "string list \<Rightarrow> string list \<Rightarrow> unit result" where
  "unique_keys seen [] = Inr ()"
| "unique_keys seen (k # ks) =
     (if k \<in> set seen then Inl (ValueError (''duplicate JSON key is not allowed: '' @ k)) else unique_keys (k # seen) ks)"

lemma each_cong [fundef_cong]:
  "xs = ys \<Longrightarrow> (\<And>x. x \<in> set ys \<Longrightarrow> f x = g x) \<Longrightarrow> each f xs = each g ys"
  by (induction ys arbitrary: xs) (auto simp: rbind_def split: sum.splits)

fun unique_json :: "json \<Rightarrow> unit result" where
  "unique_json (JArray xs) = each unique_json xs"
| "unique_json (JObject d) = rbind (each (\<lambda>(_, v). unique_json v) d) (\<lambda>_. unique_keys [] (dict_keys d))"
| "unique_json _ = Inr ()"

definition load_json_object ::
  "ConformanceFiles \<Rightarrow> string \<Rightarrow> string \<Rightarrow> nat \<Rightarrow> (string \<times> json) list result" where
  "load_json_object cf path label_text max_bytes =
     rbind (cf_read cf path) (\<lambda>file.
       let raw = take (max_bytes + 1) file in
       rbind (ensure (length raw \<le> max_bytes) (label_text @ '' exceeds '' @ nat_str max_bytes @ '' bytes'')) (\<lambda>_.
       rbind (cf_parse cf raw) (\<lambda>value.
       rbind (unique_json value) (\<lambda>_.
         case value of
           JObject d \<Rightarrow> Inr d
         | _ \<Rightarrow> Inl (ValueError (label_text @ '' must be a JSON object''))))))"

definition ensure_definition_size :: "ConformanceFiles \<Rightarrow> string \<Rightarrow> string \<Rightarrow> unit result" where
  "ensure_definition_size cf path label_text =
     rbind (cf_size cf path) (\<lambda>size.
       ensure (size \<le> max_definition_bytes) (label_text @ '' exceeds '' @ nat_str max_definition_bytes @ '' bytes''))"

definition validate_output_path :: "ConformanceFiles \<Rightarrow> string \<Rightarrow> string list \<Rightarrow> string option \<Rightarrow> unit result" where
  "validate_output_path cf output direct_inputs provenance_root =
     rbind (ensure (cf_resolve cf output \<notin> set (map (cf_resolve cf) direct_inputs)) ''output must not overwrite an input'')
       (\<lambda>_. case provenance_root of
          None \<Rightarrow> Inr ()
        | Some base \<Rightarrow>
            ensure (cf_resolve cf output \<notin> set (map (cf_resolve cf) (cf_lab_files cf (under base ''lab''))))
              ''output must not overwrite a provenance input'')"

text \<open>\<open>snapshot_main\<close>: the document it writes\<close>

definition snapshot_main ::
  "ConformanceFiles \<Rightarrow> datetime \<Rightarrow> string \<Rightarrow> string \<Rightarrow> string \<Rightarrow> string \<Rightarrow> string \<Rightarrow> (string \<times> json) list result" where
  "snapshot_main cf now router ospf route bfd output =
     rbind (ensure (is_identifier router) (''invalid router name: '' @ router)) (\<lambda>_.
     rbind (validate_output_path cf output [ospf, route, bfd] None) (\<lambda>_.
     rbind (load_json_object cf ospf ''OSPF JSON'' max_component_bytes) (\<lambda>ospf_json.
     rbind (load_json_object cf route ''route JSON'' max_component_bytes) (\<lambda>route_json.
     rbind (load_json_object cf bfd ''BFD JSON'' max_component_bytes) (\<lambda>bfd_json.
       Inr [(''schema_version'', JInt 1), (''captured_at'', JString (replace_utc (isoformat now))),
         (''router'', JString router), (''ospf'', JObject ospf_json), (''route'', JObject route_json),
         (''bfd'', JObject bfd_json)])))))"

text \<open>\<open>main\<close>: the evidence it writes and its exit status\<close>

definition conformance_main ::
  "ConformanceLibrary \<Rightarrow> ConformanceFiles \<Rightarrow> string \<Rightarrow> string \<Rightarrow> string \<Rightarrow> string \<Rightarrow> string \<Rightarrow>
   ((string \<times> json) list \<times> int) result" where
  "conformance_main lib cf intent expectation snapshot project output =
     (let base = cf_resolve cf project in
      rbind (ensure (cf_resolve cf intent = cf_resolve cf (under base ''lab/intent.yml'') \<and>
          cf_resolve cf expectation = cf_resolve cf (under base ''lab/runtime-expectations.yml''))
        ''intent and expectation must use the canonical project-root files'') (\<lambda>_.
      rbind (validate_output_path cf output [intent, expectation, snapshot] (Some base)) (\<lambda>_.
      rbind (ensure_definition_size cf intent ''intent'') (\<lambda>_.
      rbind (ensure_definition_size cf expectation ''runtime expectation'') (\<lambda>_.
      rbind (load_json_object cf snapshot ''runtime snapshot'' max_snapshot_bytes) (\<lambda>raw.
      rbind (load_intent (cf_intent cf) intent) (\<lambda>i.
      rbind (load_runtime_expectation (cf_expectation cf) expectation) (\<lambda>x.
      rbind (configuration_fingerprint (cl_sha256 lib) (cf_read cf) base) (\<lambda>h.
      rbind (build_runtime_conformance_evidence lib i x raw h) (\<lambda>evidence.
        Inr (evidence, if jget ''passed_all'' evidence = JBool True then 0 else 1)))))))))))"

section \<open>Properties\<close>

lemma unique_keys_Inr: "unique_keys seen ks = Inr u \<longleftrightarrow> distinct ks \<and> set ks \<inter> set seen = {}"
  by (induction seen ks rule: unique_keys.induct) auto

lemma unique_json_object:
  "unique_json (JObject d) = Inr () \<Longrightarrow> distinct (dict_keys d) \<and> (\<forall>(k, v) \<in> set d. unique_json v = Inr ())"
  by (auto simp: rbind_eq_Inr each_eq_Inr unique_keys_Inr)

lemma unique_json_get: "unique_json (JObject d) = Inr () \<Longrightarrow> unique_json (jget k d) = Inr ()"
  using unique_json_object [of d] by (auto simp: jget_def split: option.splits dest: map_of_SomeD)

lemma unique_json_mapping:
  "unique_json v = Inr () \<Longrightarrow> unique_json (JObject (as_mapping v)) = Inr () \<and> distinct (dict_keys (as_mapping v))"
  using unique_json_object by (cases v) (auto simp: as_mapping_def)

lemma json_object_cases:
  "(case value of JObject d \<Rightarrow> Inr d | _ \<Rightarrow> Inl e) = Inr d' \<longleftrightarrow> value = JObject d'"
  by (cases "value") auto

lemma jobject_Some: "jobject v = Some d \<longleftrightarrow> v = JObject d"
  by (cases v) auto

lemma jstring_Some: "jstring v = Some t \<longleftrightarrow> v = JString t"
  by (cases v) auto

lemma load_json_object_Inr:
  assumes "load_json_object cf path label_text limit = Inr d"
  shows "\<exists>content. cf_read cf path = Inr content \<and> cf_parse cf content = Inr (JObject d) \<and> length content \<le> limit \<and>
    unique_json (JObject d) = Inr ()"
proof -
  from assms obtain content where content: "cf_read cf path = Inr content" "length (take (limit + 1) content) \<le> limit"
    "cf_parse cf (take (limit + 1) content) = Inr (JObject d)" "unique_json (JObject d) = Inr ()"
    unfolding load_json_object_def Let_def rbind_eq_Inr json_object_cases ensure_simps by auto
  then have "length content \<le> limit" by (auto simp: min_def split: if_splits)
  moreover from this have "take (limit + 1) content = content" by simp
  ultimately show ?thesis using content by auto
qed

lemma validate_snapshot_parts:
  assumes "validate_runtime_snapshot read_time d = Inr s"
  shows "jget ''ospf'' d = JObject (rsn_ospf s) \<and> jget ''route'' d = JObject (rsn_route s) \<and>
    jget ''bfd'' d = JObject (rsn_bfd s) \<and> jget ''router'' d = JString (rsn_router s)"
proof -
  obtain version captured router ospf route bfd where f: "jint (jget ''schema_version'' d) = Some version"
    "read_time (jget ''captured_at'' d) = Some captured" "jstring (jget ''router'' d) = Some router"
    "jobject (jget ''ospf'' d) = Some ospf" "jobject (jget ''route'' d) = Some route" "jobject (jget ''bfd'' d) = Some bfd"
    using assms unfolding validate_runtime_snapshot_def by (simp only: prod.case split: option.splits) blast+
  then have "s = \<lparr>rsn_schema_version = version, rsn_captured_at = captured, rsn_router = router, rsn_ospf = ospf,
      rsn_route = route, rsn_bfd = bfd\<rparr>"
    using assms unfolding validate_runtime_snapshot_def f prod.case option.case rbind_eq_Inr by auto
  with f show ?thesis by (simp add: jobject_Some jstring_Some)
qed

lemma document_fields:
  "jget ''passed_all'' (conformance_document lib i x s h cs) = JBool (passed_checks cs = length cs)"
  "jget ''configuration_sha256'' (conformance_document lib i x s h cs) = JString h"
  "jget ''summary'' (conformance_document lib i x s h cs) =
     JObject [(''total'', JInt (int (length cs))), (''passed'', JInt (int (passed_checks cs))),
       (''failed'', JInt (int (length cs) - int (passed_checks cs)))]"
  by (simp_all add: conformance_document_def jget_def)

lemma build_Inr:
  assumes "build_runtime_conformance_evidence lib i x raw h = Inr doc"
  shows "\<exists>t s m. to_topology i = Inr t \<and> validate_runtime_snapshot (cl_read_time lib) raw = Inr s \<and>
    rsn_router s = rx_router x \<and> shortest_distance t (rx_router x) {rx_service_node x} None None = Inr (Some m) \<and>
    doc = conformance_document lib i x s h (conformance_checks lib s x m)"
  using assms by (auto simp: build_runtime_conformance_evidence_def rbind_eq_Inr split: option.splits)

lemma shortest_known:
  assumes "wf_topology t" "shortest_distance t a {b} None None = Inr (Some m)"
  shows "walk t [] [] a b m \<and> (\<forall>w. walk t [] [] a b w \<longrightarrow> m \<le> w)"
proof -
  have d: "shortest_distance_excluding t a {b} [] [] = Inr (Some m)"
    using assms(2) by (simp add: shortest_distance_def)
  then have "a \<in> topo_names t"
    by (auto simp: shortest_distance_excluding_def rbind_eq_Inr topo_node_known [symmetric])
  then have "known_args t a [] []" by (simp add: known_args_def)
  from distance_total [OF assms(1) this, of "{b}"] d have "distance_spec t [] [] a {b} (Some m)" by simp
  then show ?thesis by (auto simp: distance_spec_def is_distance_def split: if_splits)
qed

lemma main_Inr:
  assumes "conformance_main lib cf intent expectation snapshot project output = Inr (doc, code)"
  shows "\<exists>raw i x h. load_json_object cf snapshot ''runtime snapshot'' max_snapshot_bytes = Inr raw \<and>
    load_intent (cf_intent cf) intent = Inr i \<and> load_runtime_expectation (cf_expectation cf) expectation = Inr x \<and>
    configuration_fingerprint (cl_sha256 lib) (cf_read cf) (cf_resolve cf project) = Inr h \<and>
    build_runtime_conformance_evidence lib i x raw h = Inr doc \<and>
    code = (if jget ''passed_all'' doc = JBool True then 0 else 1)"
  using assms unfolding conformance_main_def Let_def rbind_eq_Inr by auto

lemma expectation_unique:
  assumes "load_runtime_expectation document path = Inr x"
  shows "distinct (map one_router_id (rx_ospf_neighbors x))"
  using assms unfolding load_runtime_expectation_def validate_runtime_expectation_def rbind_eq_Inr ensure_simps by auto

lemma conformance_length: "length (conformance_checks lib s x m) = length (rx_ospf_neighbors x) + 11"
  by (simp add: conformance_checks_def ospf_checks_def route_checks_def bfd_checks_def Let_def)

text \<open>
  C29: The conformance program decides conformance. When it writes its evidence, the evidence
  names the fingerprint of the current configuration, and the exit status is 0 exactly when
  the router conforms: its adjacencies are exactly the expected ones, all full; one installed
  and selected OSPF route to the service prefix has the expected next hop and interface and
  the least walk cost of the intent's graph from the router to the service node as its metric;
  and the BFD peer is up with the expected timers. Otherwise it is 1. The summary adds up to
  one check per neighbour and eleven more.
\<close>

theorem conformance_program:
  assumes "conformance_main lib cf intent expectation snapshot project output = Inr (doc, code)"
    and "load_intent (cf_intent cf) intent = Inr i" "distinct (dict_keys (intent_nodes i))"
  shows "\<exists>x raw s t m h passed. load_runtime_expectation (cf_expectation cf) expectation = Inr x \<and>
    load_json_object cf snapshot ''runtime snapshot'' max_snapshot_bytes = Inr raw \<and>
    validate_runtime_snapshot (cl_read_time lib) raw = Inr s \<and> to_topology i = Inr t \<and>
    walk t [] [] (rx_router x) (rx_service_node x) m \<and>
    (\<forall>w. walk t [] [] (rx_router x) (rx_service_node x) w \<longrightarrow> m \<le> w) \<and>
    configuration_fingerprint (cl_sha256 lib) (cf_read cf) (cf_resolve cf project) = Inr h \<and>
    jget ''configuration_sha256'' doc = JString h \<and>
    code = (if router_conforms (cl_repr lib) s x m then 0 else 1) \<and>
    passed \<le> length (rx_ospf_neighbors x) + 11 \<and>
    jget ''summary'' doc = JObject [(''total'', JInt (int (length (rx_ospf_neighbors x)) + 11)),
      (''passed'', JInt (int passed)), (''failed'', JInt (int (length (rx_ospf_neighbors x)) + 11 - int passed))]"
proof -
  obtain raw x h where m: "load_json_object cf snapshot ''runtime snapshot'' max_snapshot_bytes = Inr raw"
    "load_runtime_expectation (cf_expectation cf) expectation = Inr x"
    "configuration_fingerprint (cl_sha256 lib) (cf_read cf) (cf_resolve cf project) = Inr h"
    "build_runtime_conformance_evidence lib i x raw h = Inr doc"
    "code = (if jget ''passed_all'' doc = JBool True then 0 else 1)"
    using main_Inr [OF assms(1)] assms(2) by auto
  from build_Inr [OF m(4)] obtain t s d where b: "to_topology i = Inr t"
    "validate_runtime_snapshot (cl_read_time lib) raw = Inr s"
    "shortest_distance t (rx_router x) {rx_service_node x} None None = Inr (Some d)"
    and doc: "doc = conformance_document lib i x s h (conformance_checks lib s x d)" by blast
  have "wf_topology t" using b(1) mk_topology_wf unfolding to_topology_def by blast
  from shortest_known [OF this b(3)] have walk: "walk t [] [] (rx_router x) (rx_service_node x) d"
    "\<forall>w. walk t [] [] (rx_router x) (rx_service_node x) w \<longrightarrow> d \<le> w" by blast+
  have "unique_json (JObject raw) = Inr ()" using load_json_object_Inr [OF m(1)] by blast
  then have "unique_json (JObject (rsn_ospf s)) = Inr ()"
    using validate_snapshot_parts [OF b(2)] unique_json_get by metis
  then have "distinct (dict_keys (as_mapping (jget ''neighbors'' (rsn_ospf s))))"
    using unique_json_get unique_json_mapping by blast
  from conformance_passed [OF this expectation_unique [OF m(2)]]
  have "code = (if router_conforms (cl_repr lib) s x d then 0 else 1)"
    unfolding m(5) doc document_fields by simp
  moreover have "jget ''summary'' doc = JObject [(''total'', JInt (int (length (rx_ospf_neighbors x)) + 11)),
      (''passed'', JInt (int (passed_checks (conformance_checks lib s x d)))),
      (''failed'', JInt (int (length (rx_ospf_neighbors x)) + 11 - int (passed_checks (conformance_checks lib s x d))))]"
    unfolding doc document_fields conformance_length by simp
  moreover have "passed_checks (conformance_checks lib s x d) \<le> length (rx_ospf_neighbors x) + 11"
    using passed_checks_le conformance_length by metis
  ultimately show ?thesis using m(1-3) b(1,2) walk doc document_fields(2) by blast
qed

text \<open>A run of the program on the lab: the router answers with what is expected of it.\<close>

definition lab_expectation :: RuntimeExpectation where
  "lab_expectation =
     \<lparr>rx_version = 1, rx_router = ''access1'', rx_service_node = ''service-host'', rx_route_prefix = ''10.20.0.0/24'',
      rx_route_next_hop = ''10.0.1.1'', rx_route_interface = ''eth1'',
      rx_ospf_neighbors = [\<lparr>one_router_id = ''10.255.0.21'', one_interface = ''eth1''\<rparr>,
        \<lparr>one_router_id = ''10.255.0.22'', one_interface = ''eth2''\<rparr>],
      rx_bfd = \<lparr>bfe_peer = ''10.0.1.1'', bfe_interface = ''eth1'', bfe_receive_interval_ms = 100,
        bfe_transmit_interval_ms = 100, bfe_detect_multiplier = 3, bfe_detection_timeout_ms = 300\<rparr>\<rparr>"

definition full_neighbor :: "string \<Rightarrow> json" where
  "full_neighbor interface = JArray [JObject [(''ifaceName'', JString interface), (''nbrState'', JString ''Full/DR'')]]"

definition lab_snapshot :: "(string \<times> json) list" where
  "lab_snapshot =
     [(''schema_version'', JInt 1), (''captured_at'', JString ''2026-01-01T00:00:00Z''), (''router'', JString ''access1''),
      (''ospf'', JObject [(''neighbors'', JObject [(''10.255.0.22'', full_neighbor ''eth2:10.0.2.2''),
         (''10.255.0.21'', full_neighbor ''eth1:10.0.1.2'')])]),
      (''route'', JObject [(''10.20.0.0/24'', JArray [JObject [(''protocol'', JString ''ospf''), (''selected'', JBool True),
         (''installed'', JBool True), (''metric'', JInt 30), (''nexthops'', JArray [JObject [(''ip'', JString ''10.0.1.1''),
            (''interfaceName'', JString ''eth1''), (''active'', JBool True), (''fib'', JBool True)]])]])]),
      (''bfd'', JObject [(''peer'', JString ''10.0.1.1''), (''interface'', JString ''eth1''), (''status'', JString ''up''),
         (''receive-interval'', JInt 100), (''transmit-interval'', JInt 100), (''detect-multiplier'', JInt 3),
         (''detection-timeout'', JInt 300)])]"

definition lab_library :: ConformanceLibrary where
  "lab_library =
     \<lparr>cl_sha256 = example_hash, cl_dumps = (\<lambda>_. ''''), cl_repr = (\<lambda>_. ''''),
      cl_read_time = (\<lambda>_. Some \<lparr>dt_year = 2026, dt_month = 1, dt_day = 1, dt_hour = 0, dt_minute = 0, dt_second = 0,
        dt_microsecond = 0, dt_offset = Some 0\<rparr>),
      cl_dump_time = (\<lambda>_. '''')\<rparr>"

definition lab_files :: ConformanceFiles where
  "lab_files =
     \<lparr>cf_resolve = (\<lambda>p. p), cf_read = (\<lambda>_. Inr ''x''), cf_size = (\<lambda>_. Inr 1), cf_lab_files = (\<lambda>_. []),
      cf_parse = (\<lambda>_. Inr (JObject lab_snapshot)), cf_intent = (\<lambda>_. Inr lab_intent),
      cf_expectation = (\<lambda>_. Inr lab_expectation)\<rparr>"

definition lab_runtime :: RuntimeSnapshot where
  "lab_runtime =
     \<lparr>rsn_schema_version = 1, rsn_captured_at = the (cl_read_time lab_library JNull), rsn_router = ''access1'',
      rsn_ospf = as_mapping (jget ''ospf'' lab_snapshot), rsn_route = as_mapping (jget ''route'' lab_snapshot),
      rsn_bfd = as_mapping (jget ''bfd'' lab_snapshot)\<rparr>"

lemma lab_conforms: "router_conforms (cl_repr lab_library) lab_runtime lab_expectation 30"
proof -
  have "selected_routes lab_runtime lab_expectation = [as_mapping (hd (as_sequence (jget ''10.20.0.0/24'' (rsn_route lab_runtime))))]"
    by (simp add: selected_routes_def lab_runtime_def lab_expectation_def lab_snapshot_def jget_def as_mapping_def
      as_sequence_def)
  then show ?thesis
    by (simp add: router_conforms_def lab_runtime_def lab_expectation_def lab_snapshot_def jget_def as_mapping_def
      as_sequence_def active_next_hops_def bfd_peer_matches_def router_adjacencies_def entry_interface_def entry_state_def
      full_neighbor_def field_text_def)
qed

lemma lab_built:
  "\<exists>doc. build_runtime_conformance_evidence lab_library lab_intent lab_expectation lab_snapshot (example_hash []) = Inr doc \<and>
     jget ''passed_all'' doc = JBool True"
proof -
  have t: "to_topology lab_intent = Inr lab_topology" by code_simp
  have m: "shortest_distance lab_topology ''access1'' {''service-host''} None None = Inr (Some 30)" by code_simp
  have n: "rx_router lab_expectation = ''access1''" "rx_service_node lab_expectation = ''service-host''"
    by (simp_all add: lab_expectation_def)
  have s: "validate_runtime_snapshot (cl_read_time lab_library) lab_snapshot = Inr lab_runtime"
  proof -
    have i: "is_identifier ''access1''" by code_simp
    have k: "set (dict_keys lab_snapshot) = {''schema_version'', ''captured_at'', ''router'', ''ospf'', ''route'', ''bfd''}"
      by (simp add: lab_snapshot_def)
    show ?thesis
      by (simp add: validate_runtime_snapshot_def k i)
         (simp add: lab_snapshot_def jget_def lab_library_def matching_def lab_runtime_def as_mapping_def i)
  qed
  have checks: "hex_of_length 64 (example_hash [])" "''access1'' \<in> set (dict_keys (intent_nodes lab_intent))"
    "''service-host'' \<in> set (dict_keys (intent_nodes lab_intent))" "intent_role lab_intent ''access1'' = Some ACCESS"
    "intent_role lab_intent ''service-host'' = Some SERVICE"
    "rx_route_prefix lab_expectation \<in> set (owned_by lab_intent ''service-host'')" by code_simp+
  have "rsn_router lab_runtime = ''access1''" by (simp add: lab_runtime_def)
  then have doc: "build_runtime_conformance_evidence lab_library lab_intent lab_expectation lab_snapshot (example_hash []) =
      Inr (conformance_document lab_library lab_intent lab_expectation lab_runtime (example_hash [])
        (conformance_checks lab_library lab_runtime lab_expectation 30))"
    by (simp add: build_runtime_conformance_evidence_def n checks checks(2,3) [simplified] s t m)
  have "distinct (dict_keys (as_mapping (jget ''neighbors'' (rsn_ospf lab_runtime))))"
    "distinct (map one_router_id (rx_ospf_neighbors lab_expectation))" by code_simp+
  from conformance_passed [OF this, of lab_library 30] doc show ?thesis by (simp add: document_fields lab_conforms)
qed

lemma conformance_run:
  "\<exists>doc. conformance_main lab_library lab_files ''p/lab/intent.yml'' ''p/lab/runtime-expectations.yml'' ''snapshot.json''
     ''p'' ''out.json'' = Inr (doc, 0)"
proof -
  have load: "load_json_object lab_files ''snapshot.json'' ''runtime snapshot'' max_snapshot_bytes = Inr lab_snapshot"
  proof -
    have "unique_json (JObject lab_snapshot) = Inr ()" by code_simp
    then show ?thesis by (simp add: load_json_object_def lab_files_def max_snapshot_bytes_def del: unique_json.simps)
  qed
  have models: "load_intent (cf_intent lab_files) ''p/lab/intent.yml'' = Inr lab_intent"
    "load_runtime_expectation (cf_expectation lab_files) ''p/lab/runtime-expectations.yml'' = Inr lab_expectation"
    by code_simp+
  have fingerprint: "configuration_fingerprint (cl_sha256 lab_library) (cf_read lab_files) (cf_resolve lab_files ''p'') =
      Inr (example_hash [])" by code_simp
  obtain doc where doc: "build_runtime_conformance_evidence lab_library lab_intent lab_expectation lab_snapshot
      (example_hash []) = Inr doc" "jget ''passed_all'' doc = JBool True" using lab_built by blast
  have sizes: "ensure_definition_size lab_files a b = Inr ()" for a b
    by (simp add: ensure_definition_size_def lab_files_def max_definition_bytes_def)
  have paths: "cf_resolve lab_files ''p/lab/intent.yml'' = cf_resolve lab_files (under (cf_resolve lab_files ''p'') ''lab/intent.yml'')"
    "cf_resolve lab_files ''p/lab/runtime-expectations.yml'' =
      cf_resolve lab_files (under (cf_resolve lab_files ''p'') ''lab/runtime-expectations.yml'')"
    "validate_output_path lab_files ''out.json'' [''p/lab/intent.yml'', ''p/lab/runtime-expectations.yml'', ''snapshot.json'']
      (Some (cf_resolve lab_files ''p'')) = Inr ()" by code_simp+
  show ?thesis
    by (simp add: conformance_main_def Let_def paths(1,2) [symmetric] paths(3) sizes load models fingerprint doc)
qed

theorem conformance_program_witness:
  "\<exists>doc t s m. conformance_main lab_library lab_files ''p/lab/intent.yml'' ''p/lab/runtime-expectations.yml'' ''snapshot.json''
     ''p'' ''out.json'' = Inr (doc, 0) \<and> to_topology lab_intent = Inr t \<and>
   walk t [] [] ''access1'' ''service-host'' m \<and> router_conforms (\<lambda>_. '''') s lab_expectation m"
proof -
  obtain doc where run: "conformance_main lab_library lab_files ''p/lab/intent.yml'' ''p/lab/runtime-expectations.yml''
      ''snapshot.json'' ''p'' ''out.json'' = Inr (doc, 0)" using conformance_run by blast
  have i: "load_intent (cf_intent lab_files) ''p/lab/intent.yml'' = Inr lab_intent" by code_simp
  have d: "distinct (dict_keys (intent_nodes lab_intent))" by code_simp
  have x: "load_runtime_expectation (cf_expectation lab_files) ''p/lab/runtime-expectations.yml'' = Inr lab_expectation"
    by code_simp
  have n: "rx_router lab_expectation = ''access1''" "rx_service_node lab_expectation = ''service-host''"
    "cl_repr lab_library = (\<lambda>_. '''')" by (simp_all add: lab_expectation_def lab_library_def)
  from conformance_program [OF run i d] obtain y s t m where
    "load_runtime_expectation (cf_expectation lab_files) ''p/lab/runtime-expectations.yml'' = Inr y"
    and c: "to_topology lab_intent = Inr t" "walk t [] [] (rx_router y) (rx_service_node y) m"
      "(0 :: int) = (if router_conforms (cl_repr lab_library) s y m then 0 else 1)" by blast
  then have "y = lab_expectation" using x by simp
  note c = c [unfolded this n]
  from c(3) have "router_conforms (\<lambda>_. '''') s lab_expectation m" by (simp split: if_splits)
  with run c show ?thesis by blast
qed

end
