(* ===== verification/Sentinel_App.thy ===== *)
theory Sentinel_App
  imports Sentinel_Stores Incident_Api Runtime_Plan Repeated_Trials
begin

text \<open>
  The server of \<open>api.py\<close>: \<open>create_app\<close> with its guards, the audits it computes once, the
  responses built from them, the metrics page, and the request loop over the incident service
  and the two stores. What the handlers take from Python's library and from pydantic is one
  record of parameters. The properties join the components: a server that starts serves a
  topology whose access nodes all reach a service, its audit endpoints show exact audits of
  it, and no admissible request is ever answered with an internal error.
\<close>

section \<open>Responses\<close>

record LinkFailureScenarioResponse =
  lr_link_id :: string
  lr_endpoints :: "string list"
  lr_service_impact :: string
  lr_affected_nodes :: "string list"
  lr_affected_prefixes :: "string list"

record ResilienceSummaryResponse =
  sr_total :: nat
  sr_outage :: nat
  sr_degraded :: nat
  sr_redundancy_reduced :: nat

record ResilienceAuditResponse =
  rr_scope :: string
  rr_passes_n_minus_one :: bool
  rr_summary :: ResilienceSummaryResponse
  rr_scenarios :: "LinkFailureScenarioResponse list"

record NodeFailureScenarioResponse =
  nr_node_name :: string
  nr_role :: string
  nr_service_impact :: string
  nr_affected_nodes :: "string list"
  nr_affected_prefixes :: "string list"

record NodeResilienceAuditResponse =
  nrr_scope :: string
  nrr_passes_n_minus_one :: bool
  nrr_summary :: ResilienceSummaryResponse
  nrr_scenarios :: "NodeFailureScenarioResponse list"

record AccessPathResponse =
  apr_access_node :: string
  apr_baseline_cost :: int
  apr_post_fault_cost :: "int option"

record FailureDomainScenarioResponse =
  dr_domain_id :: string
  dr_domain_type :: string
  dr_excluded_links :: "string list"
  dr_excluded_nodes :: "string list"
  dr_service_impact :: string
  dr_affected_nodes :: "string list"
  dr_affected_prefixes :: "string list"
  dr_paths :: "AccessPathResponse list"

record FailureDomainAuditResponse =
  dar_scope :: string
  dar_design :: string
  dar_passes_all :: bool
  dar_summary :: ResilienceSummaryResponse
  dar_scenarios :: "FailureDomainScenarioResponse list"

definition scenario_response :: "LinkFailureScenario \<Rightarrow> LinkFailureScenarioResponse" where
  "scenario_response s =
     \<lparr>lr_link_id = lf_link_id s, lr_endpoints = [fst (lf_endpoints s), snd (lf_endpoints s)],
      lr_service_impact = impact_value (lf_service_impact s), lr_affected_nodes = lf_affected_nodes s,
      lr_affected_prefixes = lf_affected_prefixes s\<rparr>"

definition resilience_response :: "ResilienceAudit \<Rightarrow> ResilienceAuditResponse" where
  "resilience_response a =
     \<lparr>rr_scope = ''single_link_failure'', rr_passes_n_minus_one = link_passes a,
      rr_summary = \<lparr>sr_total = length (link_scenarios a), sr_outage = link_count a OUTAGE,
        sr_degraded = link_count a DEGRADED, sr_redundancy_reduced = link_count a REDUNDANCY_REDUCED\<rparr>,
      rr_scenarios = map scenario_response (link_scenarios a)\<rparr>"

definition node_scenario_response :: "NodeFailureScenario \<Rightarrow> NodeFailureScenarioResponse" where
  "node_scenario_response s =
     \<lparr>nr_node_name = nf_node_name s, nr_role = role_value (nf_role s),
      nr_service_impact = impact_value (nf_service_impact s), nr_affected_nodes = nf_affected_nodes s,
      nr_affected_prefixes = nf_affected_prefixes s\<rparr>"

definition node_resilience_response :: "NodeResilienceAudit \<Rightarrow> NodeResilienceAuditResponse" where
  "node_resilience_response a =
     \<lparr>nrr_scope = ''single_transport_node_failure'', nrr_passes_n_minus_one = node_passes a,
      nrr_summary = \<lparr>sr_total = length (node_scenarios a), sr_outage = node_count a OUTAGE,
        sr_degraded = node_count a DEGRADED, sr_redundancy_reduced = node_count a REDUNDANCY_REDUCED\<rparr>,
      nrr_scenarios = map node_scenario_response (node_scenarios a)\<rparr>"

definition access_path_response :: "AccessPathResult \<Rightarrow> AccessPathResponse" where
  "access_path_response p =
     \<lparr>apr_access_node = access_node p, apr_baseline_cost = baseline_cost p, apr_post_fault_cost = post_fault_cost p\<rparr>"

definition failure_domain_scenario_response :: "FailureDomainScenarioResult \<Rightarrow> FailureDomainScenarioResponse" where
  "failure_domain_scenario_response s =
     \<lparr>dr_domain_id = fds_domain_id s, dr_domain_type = domain_type_value (fds_domain_type s),
      dr_excluded_links = fds_excluded_links s, dr_excluded_nodes = fds_excluded_nodes s,
      dr_service_impact = impact_value (fds_service_impact s), dr_affected_nodes = fds_affected_nodes s,
      dr_affected_prefixes = fds_affected_prefixes s, dr_paths = map access_path_response (fds_paths s)\<rparr>"

definition failure_domain_response :: "FailureDomainAudit \<Rightarrow> FailureDomainAuditResponse" where
  "failure_domain_response a =
     \<lparr>dar_scope = ''shared_risk_failure_domain'', dar_design = fda_design a, dar_passes_all = passes_all a,
      dar_summary = \<lparr>sr_total = length (fda_scenarios a), sr_outage = domain_count a OUTAGE,
        sr_degraded = domain_count a DEGRADED, sr_redundancy_reduced = domain_count a REDUNDANCY_REDUCED\<rparr>,
      dar_scenarios = map failure_domain_scenario_response (fda_scenarios a)\<rparr>"

text \<open>\<open>get_topology\<close>\<close>

definition topology_json :: "Topology \<Rightarrow> json" where
  "topology_json t =
     JObject [(''nodes'', JArray (map (\<lambda>n. JObject [(''name'', JString (node_name n)),
          (''role'', JString (role_value (node_role n))), (''prefixes'', jstrings (node_prefixes n))]) (topo_nodes t))),
       (''links'', JArray (map (\<lambda>l. JObject [(''id'', JString (link_id l)), (''endpoint_a'', JString (endpoint_a l)),
          (''endpoint_b'', JString (endpoint_b l)), (''cost'', JInt (link_cost l))]) (topo_links t)))]"

section \<open>Starting the server\<close>

text \<open>What is taken from Python's library, the JSON codec of a snapshot included.\<close>

record PythonRuntime =
  py_sha256 :: "string \<Rightarrow> string"
  py_repr :: "string \<Rightarrow> string"
  py_format_g :: "rat \<Rightarrow> string"
  py_six_decimals :: "datetime \<Rightarrow> string"
  py_address :: "string \<Rightarrow> string option"
  py_dump :: "TelemetrySnapshot \<Rightarrow> string"
  py_load :: "string \<Rightarrow> TelemetrySnapshot result"

record SentinelApp =
  app_topology :: Topology
  app_experiment :: "(string \<times> json) list option"
  app_repeated :: "(string \<times> json) list option"
  app_service :: IncidentService
  app_live :: ConvergenceRepository
  app_binding :: "TelemetryTopologyBinding option"
  app_telemetry :: "TelemetryRepository option"
  app_link_audit :: ResilienceAudit
  app_node_audit :: NodeResilienceAudit
  app_candidate_link_audit :: "ResilienceAudit option"
  app_candidate_node_audit :: "NodeResilienceAudit option"
  app_domain_audit :: "FailureDomainAudit option"
  app_runtime_n1 :: "RuntimeN1PublishedEvidence option"

text \<open>\<open>f(x) if x is not None else None\<close>\<close>

definition when_given :: "('a \<Rightarrow> 'b result) \<Rightarrow> 'a option \<Rightarrow> 'b option result" where
  "when_given f v = (case v of None \<Rightarrow> Inr None | Some x \<Rightarrow> rbind (f x) (\<lambda>y. Inr (Some y)))"

text \<open>The published evidence needs the candidate topology and the runtime configuration.\<close>

definition check_runtime_evidence ::
  "(string \<Rightarrow> string) \<Rightarrow> RuntimeN1PublishedEvidence option \<Rightarrow> Topology option \<Rightarrow> string option \<Rightarrow> unit result" where
  "check_runtime_evidence sha256 evidence candidate configuration =
     (case evidence of
        None \<Rightarrow> Inr ()
      | Some e \<Rightarrow>
          (case candidate of
             None \<Rightarrow> Inl (ValueError ''runtime N-1 evidence requires the candidate topology'')
           | Some t \<Rightarrow>
               (case configuration of
                  None \<Rightarrow> Inl (ValueError ''runtime N-1 evidence requires the runtime configuration'')
                | Some c \<Rightarrow> validate_runtime_n1_published_topology sha256 e t c)))"

definition open_live_store :: "ConvergenceRepository option \<Rightarrow> ConvergenceRepository result" where
  "open_live_store store =
     (case store of Some s \<Rightarrow> Inr s | None \<Rightarrow> rbind (mk_convergence_store 20) (\<lambda>s. Inr (LiveMemory s)))"

definition open_snapshot_store ::
  "TelemetryTopologyBinding option \<Rightarrow> TelemetryRepository option \<Rightarrow> TelemetryRepository option result" where
  "open_snapshot_store binding store =
     (case binding of
        None \<Rightarrow> Inr None
      | Some _ \<Rightarrow>
          (case store of
             Some s \<Rightarrow> Inr (Some s)
           | None \<Rightarrow> rbind (mk_telemetry_store 120) (\<lambda>s. Inr (Some (SnapshotMemory s)))))"

definition audit_domains ::
  "(string \<Rightarrow> string) \<Rightarrow> Topology option \<Rightarrow> FailureDomainCatalog option \<Rightarrow> FailureDomainAudit option result" where
  "audit_domains sha256 candidate domains =
     (case (candidate, domains) of
        (Some t, Some c) \<Rightarrow> rbind (audit_failure_domains sha256 t c) (\<lambda>a. Inr (Some a))
      | _ \<Rightarrow> Inr None)"

definition create_app ::
  "PythonRuntime \<Rightarrow> Topology \<Rightarrow> (string \<times> json) list option \<Rightarrow> (string \<times> json) list option \<Rightarrow>
   ConvergenceRepository option \<Rightarrow> Topology option \<Rightarrow> FailureDomainCatalog option \<Rightarrow>
   RuntimeN1PublishedEvidence option \<Rightarrow> string option \<Rightarrow> TelemetryTopologyBinding option \<Rightarrow>
   TelemetryRepository option \<Rightarrow> SentinelApp result" where
  "create_app py topology experiment repeated convergence_store candidate domains runtime configuration binding
      telemetry_store =
     rbind (when_given validate_experiment_evidence experiment) (\<lambda>_.
     rbind (when_given validate_repeated_experiment_evidence repeated) (\<lambda>_.
     rbind (check_runtime_evidence (py_sha256 py) runtime candidate configuration) (\<lambda>_.
     rbind (ensure (\<not> (telemetry_store \<noteq> None \<and> binding = None))
       ''telemetry storage requires a server-side topology binding'') (\<lambda>_.
     rbind (mk_service topology 60 1000) (\<lambda>service.
     rbind (open_live_store convergence_store) (\<lambda>live.
     rbind (open_snapshot_store binding telemetry_store) (\<lambda>telemetry.
     rbind (audit_single_link_failures topology) (\<lambda>link_audit.
     rbind (audit_single_node_failures topology) (\<lambda>node_audit.
     rbind (when_given audit_single_link_failures candidate) (\<lambda>candidate_link_audit.
     rbind (when_given audit_single_node_failures candidate) (\<lambda>candidate_node_audit.
     rbind (audit_domains (py_sha256 py) candidate domains) (\<lambda>domain_audit.
       Inr \<lparr>app_topology = topology, app_experiment = experiment, app_repeated = repeated, app_service = service,
         app_live = live, app_binding = binding, app_telemetry = telemetry, app_link_audit = link_audit,
         app_node_audit = node_audit, app_candidate_link_audit = candidate_link_audit,
         app_candidate_node_audit = candidate_node_audit, app_domain_audit = domain_audit,
         app_runtime_n1 = runtime\<rparr>))))))))))))"

section \<open>The metrics page\<close>

definition page_part :: "('a \<Rightarrow> string) \<Rightarrow> 'a option \<Rightarrow> string" where
  "page_part render v = (case v of None \<Rightarrow> '''' | Some x \<Rightarrow> render x)"

definition telemetry_page :: "PythonRuntime \<Rightarrow> SentinelApp \<Rightarrow> string result" where
  "telemetry_page py a =
     (case (app_binding a, app_telemetry a) of
        (Some b, Some s) \<Rightarrow>
          rbind (snapshots_latest (py_load py) (Some (binding_fp b)) s) (\<lambda>latest.
            render_telemetry_metrics (py_six_decimals py) latest b)
      | _ \<Rightarrow> Inr '''')"

definition metrics_text :: "PythonRuntime \<Rightarrow> SentinelApp \<Rightarrow> (string \<times> json) list \<Rightarrow> string result" where
  "metrics_text py a evidence =
     rbind (render_experiment_metrics (py_format_g py) evidence (app_repeated a)) (\<lambda>experiment.
     rbind (rbind (live_latest (app_live a)) (render_live_metrics (py_format_g py))) (\<lambda>live.
     rbind (render_node_resilience_metrics (app_node_audit a) ''baseline'') (\<lambda>nodes.
     rbind (when_given (\<lambda>x. render_node_resilience_metrics x ''candidate'') (app_candidate_node_audit a)) (\<lambda>candidate_nodes.
     rbind (telemetry_page py a) (\<lambda>telemetry.
       Inr (experiment @ live @ render_resilience_metrics (app_link_audit a) @ nodes @
         page_part render_candidate_resilience_metrics (app_candidate_link_audit a) @
         page_part (\<lambda>x. x) candidate_nodes @
         page_part render_failure_domain_metrics (app_domain_audit a) @
         page_part render_runtime_n1_metrics (app_runtime_n1 a) @ telemetry))))))"

definition metrics_page :: "PythonRuntime \<Rightarrow> SentinelApp \<Rightarrow> string http" where
  "metrics_page py a =
     (case app_experiment a of
        None \<Rightarrow> Inl (503, ''experiment evidence is unavailable'')
      | Some evidence \<Rightarrow> caught (py_repr py) None None (metrics_text py a evidence))"

section \<open>Requests\<close>

text \<open>
  A request with what the server reads while it answers it: the clocks and the random part of
  a new identifier.
\<close>

datatype Request =
    GetHealth
  | GetMetrics
  | GetTopology
  | GetLinkAudit
  | GetCandidateLinkAudit
  | GetNodeAudit
  | GetCandidateNodeAudit
  | GetDomainAudit
  | PostRun string datetime ConvergenceRunRequest
  | GetLatestRun
  | GetRun string
  | PostRunEvent datetime string ConvergenceEventRequest
  | OnIncidents IncidentCall
  | PostSnapshot datetime TelemetrySnapshot
  | GetLatestSnapshot

datatype Body =
    HealthBody string
  | MetricsBody string
  | TopologyBody json
  | LinkAuditBody ResilienceAuditResponse
  | NodeAuditBody NodeResilienceAuditResponse
  | DomainAuditBody FailureDomainAuditResponse
  | RunBody ConvergenceRunResponse
  | IncidentBody IncidentResponse
  | SnapshotBody TelemetrySnapshot

definition answered :: "int \<Rightarrow> ('a \<Rightarrow> Body) \<Rightarrow> 'a http \<Rightarrow> (int \<times> Body) http" where
  "answered code wrap reply = hbind reply (\<lambda>x. Inr (code, wrap x))"

definition if_available :: "string \<Rightarrow> ('a \<Rightarrow> Body) \<Rightarrow> 'a option \<Rightarrow> (int \<times> Body) http" where
  "if_available detail wrap v = (case v of None \<Rightarrow> Inl (404, detail) | Some x \<Rightarrow> Inr (200, wrap x))"

definition coded :: "('a \<Rightarrow> Body) \<Rightarrow> (int \<times> 'a) http \<Rightarrow> (int \<times> Body) http" where
  "coded wrap reply = hbind reply (\<lambda>(code, x). Inr (code, wrap x))"

text \<open>The telemetry routes exist only with a binding.\<close>

definition post_snapshot ::
  "PythonRuntime \<Rightarrow> datetime \<Rightarrow> TelemetrySnapshot \<Rightarrow> SentinelApp \<Rightarrow> (int \<times> Body) http \<times> SentinelApp" where
  "post_snapshot py now body a =
     (case (app_binding a, app_telemetry a) of
        (Some b, Some s) \<Rightarrow>
          (case ingest_telemetry_snapshot (snapshots_save (py_dump py) (py_load py)) (snapshots_latest (py_load py))
              (snapshots_recent (py_load py)) (py_repr py) b now body s of
             (reply, s') \<Rightarrow> (coded SnapshotBody reply, a\<lparr>app_telemetry := Some s'\<rparr>))
      | _ \<Rightarrow> (Inl (404, ''Not Found''), a))"

definition latest_snapshot :: "PythonRuntime \<Rightarrow> SentinelApp \<Rightarrow> (int \<times> Body) http" where
  "latest_snapshot py a =
     (case (app_binding a, app_telemetry a) of
        (Some b, Some s) \<Rightarrow>
          answered 200 SnapshotBody (get_latest_telemetry_snapshot (snapshots_latest (py_load py)) (py_repr py) b s)
      | _ \<Rightarrow> Inl (404, ''Not Found''))"

fun respond :: "PythonRuntime \<Rightarrow> Request \<Rightarrow> SentinelApp \<Rightarrow> (int \<times> Body) http \<times> SentinelApp" where
  "respond py GetHealth a = (Inr (200, HealthBody ''ok''), a)"
| "respond py GetMetrics a = (answered 200 MetricsBody (metrics_page py a), a)"
| "respond py GetTopology a = (Inr (200, TopologyBody (topology_json (app_topology a))), a)"
| "respond py GetLinkAudit a = (Inr (200, LinkAuditBody (resilience_response (app_link_audit a))), a)"
| "respond py GetCandidateLinkAudit a =
     (if_available ''candidate design is unavailable'' (\<lambda>x. LinkAuditBody (resilience_response x))
        (app_candidate_link_audit a), a)"
| "respond py GetNodeAudit a = (Inr (200, NodeAuditBody (node_resilience_response (app_node_audit a))), a)"
| "respond py GetCandidateNodeAudit a =
     (if_available ''candidate design is unavailable'' (\<lambda>x. NodeAuditBody (node_resilience_response x))
        (app_candidate_node_audit a), a)"
| "respond py GetDomainAudit a =
     (if_available ''failure-domain audit is unavailable'' (\<lambda>x. DomainAuditBody (failure_domain_response x))
        (app_domain_audit a), a)"
| "respond py (PostRun uuid_hex now q) a =
     (case create_convergence_run live_create (py_repr py) (py_address py) uuid_hex now q (app_live a) of
        (reply, s) \<Rightarrow> (answered 201 RunBody reply, a\<lparr>app_live := s\<rparr>))"
| "respond py GetLatestRun a = (answered 200 RunBody (get_latest_convergence_run live_latest (py_repr py) (app_live a)), a)"
| "respond py (GetRun i) a = (answered 200 RunBody (get_convergence_run live_get (py_repr py) i (app_live a)), a)"
| "respond py (PostRunEvent now i q) a =
     (case record_convergence_event live_append (py_repr py) now i q (app_live a) of
        (reply, s) \<Rightarrow> (answered 201 RunBody reply, a\<lparr>app_live := s\<rparr>))"
| "respond py (OnIncidents c) a =
     (case incident_call (py_sha256 py) (py_repr py) c (app_service a) of
        (reply, s) \<Rightarrow> (coded IncidentBody reply, a\<lparr>app_service := s\<rparr>))"
| "respond py (PostSnapshot now body) a = post_snapshot py now body a"
| "respond py GetLatestSnapshot a = (latest_snapshot py a, a)"

section \<open>The state of a running server\<close>

definition telemetry_ready :: "PythonRuntime \<Rightarrow> SentinelApp \<Rightarrow> bool" where
  "telemetry_ready py a =
     (case (app_binding a, app_telemetry a) of
        (Some b, Some s) \<Rightarrow>
          binding_ok b \<and> snapshots_ok (py_dump py) (py_load py) s \<and>
          (\<forall>x \<in> set (snapshots_view (py_load py) s). bound_snapshot b x)
      | (None, None) \<Rightarrow> True
      | _ \<Rightarrow> False)"

definition app_ok :: "PythonRuntime \<Rightarrow> SentinelApp \<Rightarrow> bool" where
  "app_ok py a =
     (service_ok (py_sha256 py) (app_service a) \<and> svc_topology (app_service a) = app_topology a \<and>
      served (app_topology a) \<and> live_ok (app_live a) \<and> all_timelines (live_view (app_live a)) \<and>
      (\<forall>e. app_experiment a = Some e \<longrightarrow> validate_experiment_evidence e = Inr ()) \<and>
      (\<forall>e. app_repeated a = Some e \<longrightarrow> validate_repeated_experiment_evidence e = Inr ()) \<and> telemetry_ready py a)"

lemma telemetry_ready_update [simp]:
  "telemetry_ready py (a\<lparr>app_live := live\<rparr>) = telemetry_ready py a"
  "telemetry_ready py (a\<lparr>app_service := service\<rparr>) = telemetry_ready py a"
  by (simp_all add: telemetry_ready_def cong: option.case_cong)

text \<open>
  What is assumed of a request: a new identifier is new, a clock shows an aware time, a time
  is one the library can hold (and, of a posted snapshot, has a counterpart in UTC), a sequence
  number fits a database integer, and, of a posted event, what \<open>call_fresh\<close> says of the hash.
  A larger sequence number and a snapshot's time without a counterpart in UTC make the code
  answer 500 (\<open>stores_equivalent\<close> and \<open>ingest_monotone\<close> show what raises).
\<close>

fun admissible_request :: "PythonRuntime \<Rightarrow> Request \<Rightarrow> SentinelApp \<Rightarrow> bool" where
  "admissible_request py (PostRun uuid_hex now q) a =
     (fresh_run uuid_hex (live_view (app_live a)) \<and> (\<forall>t x. py_address py t = Some x \<longrightarrow> x \<noteq> []) \<and> aware now \<and>
      valid_datetime (default_time (rq_started_at q) now))"
| "admissible_request py (PostRunEvent now i q) a =
     (aware now \<and> valid_datetime (default_time (rq_observed_at q) now) \<and> int64_option (rq_icmp_sequence q))"
| "admissible_request py (OnIncidents c) a = call_fresh (py_sha256 py) c (app_service a)"
| "admissible_request py (PostSnapshot now body) a = (clock_ok now \<and> body_time_ok body)"
| "admissible_request py _ a = True"

text \<open>The statuses a request can get.\<close>

fun documented :: "Request \<Rightarrow> SentinelApp \<Rightarrow> int set" where
  "documented GetMetrics a = (if app_experiment a = None then {503} else {200})"
| "documented GetCandidateLinkAudit a = (if app_candidate_link_audit a = None then {404} else {200})"
| "documented GetCandidateNodeAudit a = (if app_candidate_node_audit a = None then {404} else {200})"
| "documented GetDomainAudit a = (if app_domain_audit a = None then {404} else {200})"
| "documented (PostRun uuid_hex now q) a = {201, 422}"
| "documented GetLatestRun a = {200, 404}"
| "documented (GetRun i) a = {200, 404}"
| "documented (PostRunEvent now i q) a = {201, 404, 409, 422}"
| "documented (OnIncidents c) a = {incident_status (app_topology a) c (app_service a)}"
| "documented (PostSnapshot now body) a = (if app_binding a = None then {404} else {200, 201, 409, 422})"
| "documented GetLatestSnapshot a = (if app_binding a = None then {404} else {200, 404})"
| "documented _ a = {200}"

fun reads_only :: "Request \<Rightarrow> bool" where
  "reads_only (PostRun uuid_hex now q) = False"
| "reads_only (PostRunEvent now i q) = False"
| "reads_only (OnIncidents (GetIncident i)) = True"
| "reads_only (OnIncidents c) = False"
| "reads_only (PostSnapshot now body) = False"
| "reads_only _ = True"

inductive server_runs :: "PythonRuntime \<Rightarrow> SentinelApp \<Rightarrow> SentinelApp \<Rightarrow> bool" for py where
  server_start: "server_runs py a a"
| server_step: "server_runs py a a' \<Longrightarrow> admissible_request py r a' \<Longrightarrow> respond py r a' = (reply, a'') \<Longrightarrow>
    server_runs py a a''"

lemma incident_status_known: "incident_status t c s \<in> {200, 201, 400, 404, 409, 422}"
  by (cases "(t, c, s)" rule: incident_status.cases) (auto split: option.splits)

lemma documented_not_500: "500 \<notin> documented r a"
proof (cases r)
  case (OnIncidents c)
  then show ?thesis using incident_status_known [of "app_topology a" c "app_service a"] by auto
qed auto

lemma status_answered: "status_code (answered code wrap reply) = (case reply of Inl (c, _) \<Rightarrow> c | Inr _ \<Rightarrow> code)"
  by (auto simp: answered_def hbind_def status_code_def split: sum.splits prod.splits)

lemma status_coded [simp]: "status_code (coded wrap reply) = status_code reply"
  by (auto simp: coded_def hbind_def status_code_def split: sum.splits prod.splits)

subsection \<open>The metrics page\<close>

lemma node_metrics_total:
  "design \<in> {''baseline'', ''candidate''} \<Longrightarrow> \<exists>x. render_node_resilience_metrics a design = Inr x"
  by (auto simp: render_node_resilience_metrics_def)

lemma telemetry_page_total:
  assumes "telemetry_ready py a"
  shows "\<exists>x. telemetry_page py a = Inr x"
proof (cases "\<exists>b s. app_binding a = Some b \<and> app_telemetry a = Some s")
  case True
  then obtain b s where bs: "app_binding a = Some b" "app_telemetry a = Some s" by blast
  then have ok: "binding_ok b" "snapshots_ok (py_dump py) (py_load py) s"
    "\<forall>x \<in> set (snapshots_view (py_load py) s). bound_snapshot b x"
    using assms by (simp_all add: telemetry_ready_def)
  from live_snapshots.latest_bound [OF ok(2,3)] obtain l where
    l: "snapshots_latest (py_load py) (Some (binding_fp b)) s = Inr l"
    "\<forall>x. l = Some x \<longrightarrow> snapshot_ok x \<and> validate_telemetry_snapshot x b = Inr ()" by blast
  then have "\<exists>x. render_telemetry_metrics (py_six_decimals py) l b = Inr x"
    by (cases l) (auto simp: render_telemetry_metrics_def Let_def snapshot_samples_valid [OF ok(1)])
  then show ?thesis using bs l(1) by (simp add: telemetry_page_def)
qed (auto simp: telemetry_page_def split: option.splits)

lemma metrics_total:
  assumes "app_ok py a" "app_experiment a = Some e"
  shows "\<exists>page. metrics_page py a = Inr page"
proof -
  note ok = assms(1) [unfolded app_ok_def]
  obtain page1 where "render_experiment_metrics (py_format_g py) e (app_repeated a) = Inr page1"
    using render_experiment_total [of e "app_repeated a" "py_format_g py"] ok assms(2) by blast
  moreover obtain r live where "live_latest (app_live a) = Inr r" "render_live_metrics (py_format_g py) r = Inr live"
    using live_runs.read_handlers(3) ok by blast
  moreover obtain nodes where "render_node_resilience_metrics (app_node_audit a) ''baseline'' = Inr nodes"
    using node_metrics_total by blast
  moreover have "\<exists>x. when_given (\<lambda>x. render_node_resilience_metrics x ''candidate'') (app_candidate_node_audit a) = Inr x"
  proof (cases "app_candidate_node_audit a")
    case (Some x)
    obtain y where "render_node_resilience_metrics x ''candidate'' = Inr y" using node_metrics_total by blast
    then show ?thesis by (simp add: Some when_given_def)
  qed (simp add: when_given_def)
  moreover obtain telemetry where "telemetry_page py a = Inr telemetry" using telemetry_page_total ok by blast
  ultimately show ?thesis using assms(2) by (auto simp: metrics_page_def metrics_text_def)
qed

subsection \<open>One request\<close>

lemma post_run_step:
  assumes "app_ok py a" "admissible_request py (PostRun u now q) a" "respond py (PostRun u now q) a = (reply, a')"
  shows "app_ok py a' \<and> status_code reply \<in> {201, 422}"
proof -
  note ok = assms(1) [unfolded app_ok_def]
  obtain x s where x: "create_convergence_run live_create (py_repr py) (py_address py) u now q (app_live a) = (x, s)"
    by fastforce
  from live_runs.created_handler [OF _ _ _ _ _ _ x] ok assms(2)
  have "live_ok s \<and> all_timelines (live_view s) \<and> (if run_request_ok (py_address py) q then \<exists>rs. x = Inr rs
      else x = Inl (422, ''validation error''))" by fastforce
  then show ?thesis using assms(3) ok x
    by (auto simp: app_ok_def status_answered split: if_splits)
qed

lemma post_run_event_step:
  assumes "app_ok py a" "admissible_request py (PostRunEvent now i q) a"
    and "respond py (PostRunEvent now i q) a = (reply, a')"
  shows "app_ok py a' \<and> status_code reply \<in> {201, 404, 409, 422}"
proof -
  note ok = assms(1) [unfolded app_ok_def]
  obtain x s where x: "record_convergence_event live_append (py_repr py) now i q (app_live a) = (x, s)" by fastforce
  from live_runs.recorded_handler [OF _ _ _ _ _ x] ok assms(2)
  have "live_ok s \<and> all_timelines (live_view s) \<and>
      (case x of Inr rs \<Rightarrow> rs_id rs = i | Inl (code, _) \<Rightarrow> code \<in> {404, 409, 422} \<and> s = app_live a)" by simp
  then show ?thesis using assms(3) ok x
    by (auto simp: app_ok_def status_answered split: sum.splits)
qed

lemma incident_step:
  assumes "app_ok py a" "admissible_request py (OnIncidents c) a" "respond py (OnIncidents c) a = (reply, a')"
  shows "app_ok py a' \<and> status_code reply = incident_status (app_topology a) c (app_service a) \<and>
    (status_code reply \<ge> 400 \<longrightarrow> a' = a)"
proof -
  note ok = assms(1) [unfolded app_ok_def]
  obtain x s where x: "incident_call (py_sha256 py) (py_repr py) c (app_service a) = (x, s)" by fastforce
  have "served (svc_topology (app_service a))" "call_fresh (py_sha256 py) c (app_service a)"
    using ok assms(2) by simp_all
  with incident_call_step [of "py_sha256 py" "app_service a" c "py_repr py"] ok x
  have st: "status_code x = incident_status (app_topology a) c (app_service a)"
    "s = app_service a \<or> svc_step (py_sha256 py) (app_service a) s" "\<forall>e. x = Inl e \<longrightarrow> s = app_service a"
    by (auto split: sum.splits)
  then have "service_ok (py_sha256 py) s \<and> svc_topology s = app_topology a" using ok svc_step_ok by metis
  moreover have "s = app_service a" if "400 \<le> status_code x"
  proof (cases x)
    case (Inr p)
    have "status_code x \<in> {200, 201}"
    proof -
      have "fst p \<in> {200, 201}" using x Inr
        by (cases c) (auto simp: ingest_event_def get_incident_endpoint_def approve_incident_def hbind_def
          split: if_splits sum.splits prod.splits)
      then show ?thesis by (cases p) (simp add: Inr)
    qed
    then show ?thesis using that by auto
  qed (use st(3) in simp)
  ultimately show ?thesis using assms(3) ok x st(1) by (auto simp: app_ok_def)
qed

lemma post_snapshot_step:
  assumes "app_ok py a" "admissible_request py (PostSnapshot now body) a"
    and "respond py (PostSnapshot now body) a = (reply, a')"
  shows "app_ok py a' \<and> status_code reply \<in> documented (PostSnapshot now body) a"
proof (cases "\<exists>b s. app_binding a = Some b \<and> app_telemetry a = Some s")
  case True
  then obtain b s where bs: "app_binding a = Some b" "app_telemetry a = Some s" by blast
  note ok = assms(1) [unfolded app_ok_def]
  have t: "binding_ok b" "snapshots_ok (py_dump py) (py_load py) s"
    "\<forall>x \<in> set (snapshots_view (py_load py) s). bound_snapshot b x"
    using ok bs by (simp_all add: telemetry_ready_def)
  obtain x s' where x: "ingest_telemetry_snapshot (snapshots_save (py_dump py) (py_load py))
      (snapshots_latest (py_load py)) (snapshots_recent (py_load py)) (py_repr py) b now body s = (x, s')" by fastforce
  have adm: "clock_ok now" "body_time_ok body" using assms(2) by simp_all
  from live_snapshots.ingest_step [OF t(2,1) adm x]
  have "snapshots_ok (py_dump py) (py_load py) s' \<and> status_code x \<in> {200, 201, 409, 422}"
    by (auto split: sum.splits if_splits)
  moreover have "\<forall>y \<in> set (snapshots_view (py_load py) s'). bound_snapshot b y"
    using live_snapshots.ingest_keeps_bound [OF t(2,3) x adm(2)] .
  ultimately show ?thesis using assms(3) ok x bs t(1)
    by (auto simp: post_snapshot_def app_ok_def telemetry_ready_def)
next
  case False
  then have "app_binding a = None" "app_telemetry a = None" using assms(1)
    by (auto simp: app_ok_def telemetry_ready_def split: option.splits)
  then show ?thesis using assms(1,3) by (auto simp: post_snapshot_def)
qed

lemma latest_snapshot_status:
  assumes "app_ok py a"
  shows "status_code (latest_snapshot py a) \<in> documented GetLatestSnapshot a"
proof (cases "\<exists>b s. app_binding a = Some b \<and> app_telemetry a = Some s")
  case True
  then obtain b s where bs: "app_binding a = Some b" "app_telemetry a = Some s" by blast
  have t: "snapshots_ok (py_dump py) (py_load py) s" "\<forall>x \<in> set (snapshots_view (py_load py) s). bound_snapshot b x"
    using assms bs by (simp_all add: app_ok_def telemetry_ready_def)
  from live_snapshots.latest_bound [OF t] bs show ?thesis
    by (auto simp: latest_snapshot_def get_latest_telemetry_snapshot_def status_answered split: option.splits)
next
  case False
  then have "app_binding a = None" using assms
    by (auto simp: app_ok_def telemetry_ready_def split: option.splits)
  then show ?thesis by (simp add: latest_snapshot_def)
qed

lemma metrics_status:
  assumes "app_ok py a"
  shows "status_code (answered 200 MetricsBody (metrics_page py a)) \<in> documented GetMetrics a"
  using metrics_total [OF assms] by (cases "app_experiment a") (auto simp: status_answered metrics_page_def)

lemma read_run_status:
  assumes "app_ok py a"
  shows "status_code (answered 200 RunBody (get_convergence_run live_get repr i (app_live a))) \<in> {200, 404}"
    and "status_code (answered 200 RunBody (get_latest_convergence_run live_latest repr (app_live a))) \<in> {200, 404}"
  using assms live_runs.read_handlers(1) [of "app_live a" i repr] live_runs.read_handlers(2) [of "app_live a" repr]
  by (auto simp: app_ok_def status_answered split: sum.splits)

lemma respond_step:
  assumes "app_ok py a" "admissible_request py r a" "respond py r a = (reply, a')"
  shows "app_ok py a' \<and> status_code reply \<in> documented r a \<and> (reads_only r \<longrightarrow> a' = a)"
proof (cases r)
  case (PostRun u now q)
  from post_run_step [OF assms(1) assms(2,3) [unfolded PostRun]] show ?thesis by (simp add: PostRun)
next
  case (PostRunEvent now i q)
  from post_run_event_step [OF assms(1) assms(2,3) [unfolded PostRunEvent]] show ?thesis by (simp add: PostRunEvent)
next
  case (OnIncidents c)
  have "a' = a" if "c = GetIncident i" for i
    using assms(3) that by (simp add: OnIncidents get_incident_endpoint_def)
  moreover have "app_ok py a' \<and> status_code reply \<in> documented r a"
    using incident_step [OF assms(1) assms(2,3) [unfolded OnIncidents]] by (simp add: OnIncidents)
  ultimately show ?thesis using OnIncidents by (cases c) auto
next
  case (PostSnapshot now body)
  from post_snapshot_step [OF assms(1) assms(2,3) [unfolded PostSnapshot]] show ?thesis by (simp add: PostSnapshot)
next
  case GetMetrics
  then show ?thesis using metrics_status [OF assms(1)] assms by auto
next
  case GetLatestSnapshot
  then show ?thesis using latest_snapshot_status [OF assms(1)] assms by auto
next
  case GetLatestRun
  then show ?thesis using read_run_status(2) [OF assms(1)] assms by auto
next
  case (GetRun i)
  then show ?thesis using read_run_status(1) [OF assms(1)] assms by auto
qed (use assms in \<open>auto simp: if_available_def split: option.splits\<close>)

lemma server_runs_ok: "server_runs py a a' \<Longrightarrow> app_ok py a \<Longrightarrow> app_ok py a'"
  by (induction rule: server_runs.induct) (use respond_step in blast)+

subsection \<open>A server that starts\<close>

text \<open>
  The stores a server may be started with: none, or ones in a consistent state, as they are
  when opened, whatever calls a database has seen before.
\<close>

definition given_stores_ok ::
  "PythonRuntime \<Rightarrow> ConvergenceRepository option \<Rightarrow> TelemetryTopologyBinding option \<Rightarrow> TelemetryRepository option \<Rightarrow> bool" where
  "given_stores_ok py live binding telemetry =
     ((\<forall>s. live = Some s \<longrightarrow> live_ok s \<and> all_timelines (live_view s)) \<and>
      (\<forall>b. binding = Some b \<longrightarrow> binding_ok b \<and>
        (\<forall>s. telemetry = Some s \<longrightarrow> snapshots_ok (py_dump py) (py_load py) s \<and>
          (\<forall>x \<in> set (snapshots_view (py_load py) s). bound_snapshot b x))))"

definition exact_link :: "Topology \<Rightarrow> Link \<Rightarrow> LinkFailureScenario \<Rightarrow> bool" where
  "exact_link t l s =
     (lf_link_id s = link_id l \<and> lf_endpoints s = (endpoint_a l, endpoint_b l) \<and>
      exact_result t [link_id l] [] (lf_service_impact s) (lf_affected_nodes s) (lf_affected_prefixes s))"

lemma audit_link_Inr:
  assumes wf: "wf_topology t" and a: "audit_single_link_failures t = Inr a"
  shows "served t \<and> list_all2 (exact_link t) (topo_links t) (link_scenarios a)"
proof -
  obtain faults r scenarios where f: "link_failure_scenarios t = Inr faults" "audit_fault_scenarios t faults = Inr r"
      "traverse (link_scenario t) (audit_scenarios r) = Inr scenarios" and sc: "link_scenarios a = scenarios"
    using a by (auto simp: audit_single_link_failures_def rbind_eq_Inr)
  have "list_all2 (\<lambda>l f. f = link_fault_of l) (topo_links t) faults"
    using f(1) unfolding link_failure_scenarios_def traverse_eq_Inr
    by (rule list_all2_mono) (auto simp: mk_fault_Inr link_fault_of_def)
  then have "faults = map link_fault_of (topo_links t)" by (simp add: list_all2_conv_all_nth list_eq_iff_nth_eq)
  then have res: "list_all2 (\<lambda>l s. result_of t (link_fault_of l) s) (topo_links t) (audit_scenarios r)"
    using audit_results [OF f(2)] by (simp add: list_all2_map1)
  have out: "list_all2 (\<lambda>s y. link_scenario t s = Inr y) (audit_scenarios r) scenarios"
    using f(3) by (simp add: traverse_eq_Inr)
  have key: "exact_link t l y"
    if l: "l \<in> set (topo_links t)" and s: "result_of t (link_fault_of l) s" and y: "link_scenario t s = Inr y" for l s y
    using link_scenario_of [OF wf l s] y result_exact(1) [OF wf s] by (auto simp: link_fault_of_def exact_link_def)
  have "list_all2 (exact_link t) (topo_links t) scenarios"
  proof (rule list_all2_all_nthI)
    show "length (topo_links t) = length scenarios" using res out by (simp add: list_all2_conv_all_nth)
    fix i assume i: "i < length (topo_links t)"
    show "exact_link t (topo_links t ! i) (scenarios ! i)"
      using i res out by (intro key [of _ "audit_scenarios r ! i"]) (auto simp: list_all2_conv_all_nth)
  qed
  moreover have "served t" using audit_accepts [OF wf] f(2) by blast
  ultimately show ?thesis by (simp add: sc)
qed

lemma created_parts:
  assumes "create_app py t e rep live cand domains runtime conf binding store = Inr a"
  shows "mk_service t 60 1000 = Inr (app_service a)" "app_topology a = t" "open_live_store live = Inr (app_live a)"
    "open_snapshot_store binding store = Inr (app_telemetry a)" "app_binding a = binding"
    "app_experiment a = e" "app_repeated a = rep" "app_runtime_n1 a = runtime"
    "\<forall>x. e = Some x \<longrightarrow> validate_experiment_evidence x = Inr ()"
    "\<forall>x. rep = Some x \<longrightarrow> validate_repeated_experiment_evidence x = Inr ()"
    "audit_single_link_failures t = Inr (app_link_audit a)" "audit_single_node_failures t = Inr (app_node_audit a)"
    "when_given audit_single_link_failures cand = Inr (app_candidate_link_audit a)"
    "audit_domains (py_sha256 py) cand domains = Inr (app_domain_audit a)"
    "check_runtime_evidence (py_sha256 py) runtime cand conf = Inr ()"
  using assms by (auto simp: create_app_def rbind_eq_Inr when_given_def split: option.splits)

lemma created_ok:
  assumes "wf_topology t" "create_app py t e rep live cand domains runtime conf binding store = Inr a"
    and "given_stores_ok py live binding store"
  shows "app_ok py a"
proof -
  note c = created_parts [OF assms(2)]
  have "service_ok (py_sha256 py) (app_service a) \<and> svc_topology (app_service a) = t"
    using mk_service_ok [OF assms(1) c(1)] by blast
  moreover have "served t" using audit_link_Inr [OF assms(1) c(11)] by blast
  moreover have "live_ok (app_live a) \<and> all_timelines (live_view (app_live a))"
  proof (cases live)
    case None
    then obtain m where "mk_convergence_store 20 = Inr m" "app_live a = LiveMemory m"
      using c(3) by (auto simp: open_live_store_def rbind_eq_Inr)
    then show ?thesis using cs_fresh by (fastforce simp: all_timelines_def)
  next
    case (Some s)
    then show ?thesis using c(3) assms(3) by (simp add: open_live_store_def given_stores_ok_def)
  qed
  moreover have "telemetry_ready py a"
  proof (cases binding)
    case None
    then show ?thesis using c(4,5) by (simp add: open_snapshot_store_def telemetry_ready_def)
  next
    case (Some b)
    show ?thesis
    proof (cases store)
      case None
      then obtain m where m: "mk_telemetry_store 120 = Inr m" "app_telemetry a = Some (SnapshotMemory m)"
        using c(4) Some by (auto simp: open_snapshot_store_def rbind_eq_Inr)
      then show ?thesis using ts_fresh [OF m(1)] assms(3) c(5) Some
        by (simp add: telemetry_ready_def given_stores_ok_def)
    next
      case (Some s)
      then have "app_telemetry a = Some s" using c(4) \<open>binding = Some b\<close> by (simp add: open_snapshot_store_def)
      then show ?thesis using c(5) \<open>binding = Some b\<close> Some assms(3)
        by (simp add: telemetry_ready_def given_stores_ok_def)
    qed
  qed
  ultimately show ?thesis using c(2,6,7,9,10) by (simp add: app_ok_def)
qed

section \<open>Properties\<close>

text \<open>A server on the lab topology with measured evidence and the lab's telemetry binding.\<close>

definition example_python :: PythonRuntime where
  "example_python =
     \<lparr>py_sha256 = (\<lambda>x. x), py_repr = (\<lambda>x. x), py_format_g = (\<lambda>_. ''0''), py_six_decimals = (\<lambda>_. ''0.000000''),
      py_address = Some, py_dump = dump_snapshot, py_load = load_snapshot\<rparr>"

lemma example_server:
  "\<exists>e b a. create_app example_python lab_topology (Some e) None None None None None None (Some b) None = Inr a \<and>
    given_stores_ok example_python None (Some b) None"
proof -
  obtain e page where "render_experiment_metrics (\<lambda>_. ''0'') e None = Inr page" using example_comparison by blast
  then have e: "validate_experiment_evidence e = Inr ()" by (auto simp: render_experiment_metrics_def rbind_eq_Inr)
  obtain b where b: "binding_ok b" using lab_binding_ok by blast
  have ids: "identifier_names lab_topology" by code_simp
  have links: "topo_links lab_topology \<noteq> []" by code_simp
  have nodes: "filter (\<lambda>n. transport_role (node_role n)) (topo_nodes lab_topology) \<noteq> []" by code_simp
  obtain la where la: "audit_single_link_failures lab_topology = Inr la"
    using link_audit_run [OF wf_lab_topology ids lab_served links] by blast
  obtain na where na: "audit_single_node_failures lab_topology = Inr na"
    using node_audit_run [OF wf_lab_topology ids lab_served nodes] by blast
  have "\<exists>a. create_app example_python lab_topology (Some e) None None None None None None (Some b) None = Inr a"
    by (simp add: create_app_def when_given_def e check_runtime_evidence_def mk_service_def open_live_store_def
      mk_convergence_store_def open_snapshot_store_def mk_telemetry_store_def la na audit_domains_def)
  moreover have "given_stores_ok example_python None (Some b) None" using b by (simp add: given_stores_ok_def)
  ultimately show ?thesis by blast
qed

text \<open>
  C26: The running server never fails internally. Started on any stores in a consistent state,
  after any sequence of admissible requests, each admissible request is answered with one of
  its documented statuses, never with 500; the metrics page is 503 exactly when there is no
  experiment evidence; and a request that only reads changes nothing.
\<close>

theorem server_answers:
  assumes "mk_topology ns ls = Inr t" "given_stores_ok py live binding store"
    and "create_app py t e rep live cand domains runtime conf binding store = Inr a0"
    and "server_runs py a0 a" "admissible_request py r a"
  shows "case respond py r a of (reply, a') \<Rightarrow>
    status_code reply \<in> documented r a \<and> status_code reply \<noteq> 500 \<and> server_runs py a0 a' \<and>
    (reads_only r \<longrightarrow> a' = a)"
proof -
  have ok: "app_ok py a" using server_runs_ok [OF assms(4)] created_ok [OF mk_topology_wf [OF assms(1)] assms(3,2)] .
  obtain reply a' where r: "respond py r a = (reply, a')" by fastforce
  from respond_step [OF ok assms(5) r] server_step [OF assms(4,5) r] documented_not_500 [of r a] r
  show ?thesis by auto
qed

theorem server_answers_witness:
  "\<exists>e b a. create_app example_python lab_topology (Some e) None None None None None None (Some b) None = Inr a \<and>
    status_code (fst (respond example_python GetMetrics a)) = 200 \<and>
    status_code (fst (respond example_python GetCandidateLinkAudit a)) = 404"
proof -
  obtain e b a where a: "create_app example_python lab_topology (Some e) None None None None None None (Some b) None = Inr a"
    "given_stores_ok example_python None (Some b) None" using example_server by blast
  have "app_experiment a = Some e" "app_candidate_link_audit a = None"
    using created_parts(6,13) [OF a(1)] by (simp_all add: when_given_def)
  then have "status_code (fst (respond example_python GetMetrics a)) = 200"
    "status_code (fst (respond example_python GetCandidateLinkAudit a)) = 404"
    using server_answers [OF mk_lab_topology a(2,1) server_start, of GetMetrics]
      server_answers [OF mk_lab_topology a(2,1) server_start, of GetCandidateLinkAudit] by (auto split: prod.splits)
  with a(1) show ?thesis by blast
qed

lemma count_sum:
  "sum_list (map (\<lambda>s. if f s = OUTAGE then 1 else 0) xs) + sum_list (map (\<lambda>s. if f s = DEGRADED then 1 else 0) xs) +
   sum_list (map (\<lambda>s. if f s = REDUNDANCY_REDUCED then 1 else 0) xs) = length xs"
proof (induction xs)
  case (Cons x xs)
  then show ?case by (cases "f x") simp_all
qed simp

lemma impact_value_inj: "impact_value i = impact_value j \<longleftrightarrow> i = j"
  by (cases i; cases j) simp_all

text \<open>
  C28: A server that starts serves a sound topology and audits it exactly, for as long as it
  runs. Every access node reaches a service node. The single-link endpoint answers with every
  link once and in order, with its end points and exactly what its failure does: \<open>outage\<close> when
  some access node is left without a walk to a service node, \<open>degraded\<close> when none is but some
  least cost grew, \<open>redundancy_reduced\<close> otherwise, with the access nodes cut off or lengthened
  and their prefixes. Its summary counts the links of each kind, and it passes exactly when no
  link's failure is an outage.
\<close>

theorem served_audit_exact:
  assumes "mk_topology ns ls = Inr t"
    and "create_app py t e rep live cand domains runtime conf binding store = Inr a0" "server_runs py a0 a"
  shows "served t \<and> (\<exists>audit. respond py GetLinkAudit a = (Inr (200, LinkAuditBody audit), a) \<and>
    list_all2 (\<lambda>l s. lr_link_id s = link_id l \<and> lr_endpoints s = [endpoint_a l, endpoint_b l] \<and>
      (\<exists>impact. lr_service_impact s = impact_value impact \<and>
        exact_result t [link_id l] [] impact (lr_affected_nodes s) (lr_affected_prefixes s)))
      (topo_links t) (rr_scenarios audit) \<and>
    (rr_passes_n_minus_one audit \<longleftrightarrow> (\<forall>l \<in> set (topo_links t). all_served t [link_id l] [])) \<and>
    sr_total (rr_summary audit) = length (topo_links t) \<and>
    sr_outage (rr_summary audit) = length (filter (\<lambda>s. lr_service_impact s = ''outage'') (rr_scenarios audit)) \<and>
    sr_degraded (rr_summary audit) = length (filter (\<lambda>s. lr_service_impact s = ''degraded'') (rr_scenarios audit)) \<and>
    sr_redundancy_reduced (rr_summary audit) =
      length (filter (\<lambda>s. lr_service_impact s = ''redundancy_reduced'') (rr_scenarios audit)) \<and>
    sr_outage (rr_summary audit) + sr_degraded (rr_summary audit) + sr_redundancy_reduced (rr_summary audit) =
      length (topo_links t))"
proof -
  have fixed: "app_link_audit a = app_link_audit a0"
    using assms(3)
  proof (induction rule: server_runs.induct)
    case (server_step a0 a1 r reply a2)
    then show ?case by (cases r) (auto simp: post_snapshot_def split: prod.splits option.splits)
  qed simp
  note c = created_parts [OF assms(2)]
  let ?audit = "resilience_response (app_link_audit a0)" and ?ss = "link_scenarios (app_link_audit a0)"
  have served: "served t" and l: "list_all2 (exact_link t) (topo_links t) ?ss"
    using audit_link_Inr [OF mk_topology_wf [OF assms(1)] c(11)] by blast+
  have scenarios: "list_all2 (\<lambda>l s. lr_link_id s = link_id l \<and> lr_endpoints s = [endpoint_a l, endpoint_b l] \<and>
      (\<exists>impact. lr_service_impact s = impact_value impact \<and>
        exact_result t [link_id l] [] impact (lr_affected_nodes s) (lr_affected_prefixes s)))
      (topo_links t) (map scenario_response ?ss)"
    unfolding list_all2_map2 using l by (rule list_all2_mono) (auto simp: exact_link_def scenario_response_def)
  have outage: "lf_service_impact s = OUTAGE \<longleftrightarrow> \<not> all_served t [link_id l] []" if "exact_link t l s" for l s
    using that exact_outage [of t "[link_id l]" "[]" "lf_service_impact s"] by (auto simp: exact_link_def)
  have pass: "link_passes (app_link_audit a0) \<longleftrightarrow> (\<forall>l \<in> set (topo_links t). all_served t [link_id l] [])"
    unfolding link_passes_def link_count_def sum_list_bool_eq_0
    using list_all2_in_set1 [OF l] list_all2_in_set2 [OF l] outage by metis
  have total: "length ?ss = length (topo_links t)" using list_all2_lengthD [OF l] by simp
  have counted: "link_count (app_link_audit a0) impact =
      length (filter (\<lambda>s. lr_service_impact s = impact_value impact) (map scenario_response ?ss))" for impact
    by (simp add: link_count_def count_by_filter filter_map comp_def scenario_response_def impact_value_inj)
  have sums: "sr_total (rr_summary ?audit) = length (topo_links t)"
    "sr_outage (rr_summary ?audit) = length (filter (\<lambda>s. lr_service_impact s = ''outage'') (rr_scenarios ?audit))"
    "sr_degraded (rr_summary ?audit) = length (filter (\<lambda>s. lr_service_impact s = ''degraded'') (rr_scenarios ?audit))"
    "sr_redundancy_reduced (rr_summary ?audit) =
      length (filter (\<lambda>s. lr_service_impact s = ''redundancy_reduced'') (rr_scenarios ?audit))"
    "sr_outage (rr_summary ?audit) + sr_degraded (rr_summary ?audit) + sr_redundancy_reduced (rr_summary ?audit) =
      length (topo_links t)"
    using total counted [of OUTAGE] counted [of DEGRADED] counted [of REDUNDANCY_REDUCED] count_sum [of lf_service_impact ?ss]
    by (simp_all add: resilience_response_def) (simp add: link_count_def)
  show ?thesis
    using served scenarios pass sums by (intro conjI exI [of _ ?audit]) (simp_all add: fixed, simp_all add: resilience_response_def)
qed

theorem served_audit_exact_witness:
  "\<exists>e b a audit. create_app example_python lab_topology (Some e) None None None None None None (Some b) None = Inr a \<and>
    respond example_python GetLinkAudit a = (Inr (200, LinkAuditBody audit), a) \<and>
    sr_outage (rr_summary audit) = length (filter (\<lambda>s. lr_service_impact s = ''outage'') (rr_scenarios audit))"
proof -
  obtain e b a where a: "create_app example_python lab_topology (Some e) None None None None None None (Some b) None = Inr a"
    using example_server by blast
  from served_audit_exact [OF mk_lab_topology a server_start] a show ?thesis by blast
qed

end
