(* ===== verification/Sentinel_Main.thy ===== *)
theory Sentinel_Main
  imports Sentinel_App Lab_Configuration
begin

text \<open>
  The server process (\<open>main.py\<close>): the paths taken from the environment, the loading of every
  input, the stores opened on databases or in memory, and \<open>create_app\<close> on all of them. The
  property joins the loaders to the server: what starts serves the topology of the intent file
  its telemetry is bound to, evidence of the current configuration and candidate design, and
  answers every request without an internal error, restarts on used databases included.
\<close>

section \<open>The inputs\<close>

text \<open>
  The environment, the files, the documents their contents parse to (each parser of the
  libraries is a parameter) and the databases at a path.
\<close>

record ServerInput =
  si_env :: "string \<Rightarrow> string option"
  si_default_root :: string
  si_is_file :: "string \<Rightarrow> bool"
  si_read :: "string \<Rightarrow> string result"
  si_on_disk :: "string \<Rightarrow> file_on_disk"
  si_json :: "string \<Rightarrow> json result"
  si_published :: "string \<Rightarrow> RuntimeN1PublishedEvidence result"
  si_intent :: "string \<Rightarrow> NetworkIntent result"
  si_domains :: "string \<Rightarrow> FailureDomainCatalog result"
  si_designs :: "string \<Rightarrow> DesignCatalog result"
  si_telemetry :: "string \<Rightarrow> TelemetryConfig result"
  si_clab :: "string \<Rightarrow> json result"
  si_live_database :: "string \<Rightarrow> SQLiteConvergenceStore"
  si_telemetry_database :: "string \<Rightarrow> SQLiteTelemetryStore"

text \<open>\<open>os.environ.get(name, default)\<close>\<close>

definition environ :: "ServerInput \<Rightarrow> string \<Rightarrow> string \<Rightarrow> string" where
  "environ si name fallback = (case si_env si name of None \<Rightarrow> fallback | Some v \<Rightarrow> v)"

definition project_root :: "ServerInput \<Rightarrow> string" where
  "project_root si = environ si ''TELCONET_PROJECT_ROOT'' (si_default_root si)"

definition intent_path :: "ServerInput \<Rightarrow> string" where
  "intent_path si = environ si ''TELCONET_INTENT'' (under (project_root si) ''lab/intent.yml'')"

definition candidate_intent_path :: "ServerInput \<Rightarrow> string" where
  "candidate_intent_path si = environ si ''TELCONET_CANDIDATE_INTENT'' (under (project_root si) ''lab/intent-dual-homed.yml'')"

definition failure_domains_path :: "ServerInput \<Rightarrow> string" where
  "failure_domains_path si = environ si ''TELCONET_FAILURE_DOMAINS'' (under (project_root si) ''lab/failure-domains.yml'')"

definition design_catalog_path :: "ServerInput \<Rightarrow> string" where
  "design_catalog_path si = environ si ''TELCONET_DESIGN_CATALOG'' (under (project_root si) ''lab/designs.yml'')"

definition experiment_path :: "ServerInput \<Rightarrow> string" where
  "experiment_path si = environ si ''TELCONET_EXPERIMENT'' (under (project_root si) ''evidence/bfd-comparison.json'')"

definition repeated_experiment_path :: "ServerInput \<Rightarrow> string" where
  "repeated_experiment_path si =
     environ si ''TELCONET_REPEATED_EXPERIMENT'' (under (project_root si) ''evidence/bfd-repeated-trials.json'')"

definition runtime_n1_evidence_path :: "ServerInput \<Rightarrow> string" where
  "runtime_n1_evidence_path si =
     environ si ''TELCONET_RUNTIME_N1_EVIDENCE'' (under (project_root si) ''evidence/runtime-n1-dashboard.json'')"

definition telemetry_targets_path :: "ServerInput \<Rightarrow> string" where
  "telemetry_targets_path si = environ si ''TELCONET_TELEMETRY_TARGETS'' (under (project_root si) ''lab/telemetry-targets.yml'')"

definition telemetry_clab_path :: "ServerInput \<Rightarrow> string" where
  "telemetry_clab_path si = environ si ''TELCONET_TELEMETRY_CLAB'' (under (project_root si) ''lab/telconet.clab.yml'')"

text \<open>\<open>path.parent\<close>\<close>

definition parent_directory :: "string \<Rightarrow> string" where
  "parent_directory path =
     (if CHR ''/'' \<in> set path then rev (tl (dropWhile (\<lambda>c. c \<noteq> CHR ''/'') (rev path))) else ''.'')"

section \<open>Starting\<close>

text \<open>\<open>load(path) if path.is_file() else None\<close>\<close>

definition if_file :: "ServerInput \<Rightarrow> string \<Rightarrow> (string \<Rightarrow> 'a result) \<Rightarrow> 'a option result" where
  "if_file si path load = (if si_is_file si path then rbind (load path) (\<lambda>x. Inr (Some x)) else Inr None)"

text \<open>A database when the variable is set and not empty, otherwise memory.\<close>

definition database_path :: "ServerInput \<Rightarrow> string \<Rightarrow> string option" where
  "database_path si name = (case si_env si name of None \<Rightarrow> None | Some p \<Rightarrow> if p = [] then None else Some p)"

definition start_live_store :: "ServerInput \<Rightarrow> ConvergenceRepository result" where
  "start_live_store si =
     (case database_path si ''TELCONET_STATE_DB'' of
        Some p \<Rightarrow> rbind (sq_open 20 (si_live_database si p)) (\<lambda>s. Inr (LiveDatabase s))
      | None \<Rightarrow> rbind (mk_convergence_store 20) (\<lambda>s. Inr (LiveMemory s)))"

definition start_telemetry_store :: "ServerInput \<Rightarrow> TelemetryRepository result" where
  "start_telemetry_store si =
     (case database_path si ''TELCONET_TELEMETRY_DB'' of
        Some p \<Rightarrow> rbind (tq_open 120 (si_telemetry_database si p)) (\<lambda>s. Inr (SnapshotDatabase s))
      | None \<Rightarrow> rbind (mk_telemetry_store 120) (\<lambda>s. Inr (SnapshotMemory s)))"

text \<open>The bytes of a file that has just been parsed.\<close>

definition file_bytes :: "ServerInput \<Rightarrow> string \<Rightarrow> string" where
  "file_bytes si path = (case si_read si path of Inl _ \<Rightarrow> [] | Inr raw \<Rightarrow> raw)"

definition start_binding :: "PythonRuntime \<Rightarrow> ServerInput \<Rightarrow> TelemetryTopologyBinding result" where
  "start_binding py si =
     load_telemetry_binding (py_sha256 py) (si_telemetry si) (si_intent si) (si_clab si) (file_bytes si)
       (telemetry_targets_path si) (intent_path si) (telemetry_clab_path si)"

definition check_design_catalog :: "PythonRuntime \<Rightarrow> ServerInput \<Rightarrow> FailureDomainCatalog option \<Rightarrow> unit result" where
  "check_design_catalog py si domains =
     (case domains of
        None \<Rightarrow> Inr ()
      | Some c \<Rightarrow>
          rbind (rbind (si_designs si (design_catalog_path si)) validate_catalog) (\<lambda>designs.
            validate_failure_domain_design (py_sha256 py)
              (\<lambda>f. si_intent si (under (parent_directory (design_catalog_path si)) f)) c designs))"

definition start_server :: "PythonRuntime \<Rightarrow> ServerInput \<Rightarrow> SentinelApp result" where
  "start_server py si =
     rbind (if_file si (experiment_path si) (\<lambda>p. load_experiment_evidence (si_json si p))) (\<lambda>experiment.
     rbind (if_file si (repeated_experiment_path si) (\<lambda>p. load_repeated_experiment_evidence (si_json si p))) (\<lambda>repeated.
     rbind (load_runtime_n1_published_evidence (si_published si) (si_on_disk si (runtime_n1_evidence_path si))) (\<lambda>runtime.
     rbind (candidate_runtime_configuration_fingerprint (py_sha256 py) (si_read si) (project_root si)) (\<lambda>configuration.
     rbind (start_live_store si) (\<lambda>live.
     rbind (start_binding py si) (\<lambda>binding.
     rbind (start_telemetry_store si) (\<lambda>telemetry.
     rbind (if_file si (candidate_intent_path si) (load_topology (si_intent si))) (\<lambda>candidate.
     rbind (if_file si (failure_domains_path si) (\<lambda>p. rbind (si_domains si p) validate_failure_domains)) (\<lambda>domains.
     rbind (check_design_catalog py si domains) (\<lambda>_.
     rbind (load_topology (si_intent si) (intent_path si)) (\<lambda>topology.
       create_app py topology experiment repeated (Some live) candidate domains (Some runtime) (Some configuration)
         (Some binding) (Some telemetry))))))))))))"

section \<open>What has started\<close>

text \<open>
  What is assumed of the databases: tables in a state earlier runs of the stores leave behind,
  whose runs have valid timelines, and whose snapshots under the binding's fingerprint passed
  the binding's checks when they were posted.
\<close>

definition databases_ok :: "PythonRuntime \<Rightarrow> ServerInput \<Rightarrow> bool" where
  "databases_ok py si =
     ((\<forall>p. database_path si ''TELCONET_STATE_DB'' = Some p \<longrightarrow>
        sq_tables_ok (si_live_database si p) \<and> all_timelines (sq_view (si_live_database si p))) \<and>
      (\<forall>p b. database_path si ''TELCONET_TELEMETRY_DB'' = Some p \<longrightarrow> start_binding py si = Inr b \<longrightarrow>
        tq_table_ok (py_dump py) (py_load py) (si_telemetry_database si p) \<and>
        (\<forall>x \<in> set (tq_view (py_load py) (si_telemetry_database si p)). bound_snapshot b x)))"

lemma start_live_ok:
  assumes "start_live_store si = Inr s" "databases_ok py si"
  shows "live_ok s \<and> all_timelines (live_view s)"
proof (cases "database_path si ''TELCONET_STATE_DB''")
  case None
  then obtain m where "mk_convergence_store 20 = Inr m" "s = LiveMemory m"
    using assms(1) by (auto simp: start_live_store_def rbind_eq_Inr)
  then show ?thesis using cs_fresh by (fastforce simp: all_timelines_def)
next
  case (Some p)
  then obtain m where m: "sq_open 20 (si_live_database si p) = Inr m" "s = LiveDatabase m"
    using assms(1) by (auto simp: start_live_store_def rbind_eq_Inr)
  from assms(2) Some have d: "sq_tables_ok (si_live_database si p)" "all_timelines (sq_view (si_live_database si p))"
    by (simp_all add: databases_ok_def)
  from sq_open_view [OF d(1) m(1)] d(2) m(2) show ?thesis
    by (auto simp: all_timelines_def newest_of_def dest: in_set_dropD)
qed

lemma start_telemetry_ok:
  assumes "start_telemetry_store si = Inr s" "databases_ok py si" "start_binding py si = Inr b"
  shows "snapshots_ok (py_dump py) (py_load py) s \<and> (\<forall>x \<in> set (snapshots_view (py_load py) s). bound_snapshot b x)"
proof (cases "database_path si ''TELCONET_TELEMETRY_DB''")
  case None
  then obtain m where "mk_telemetry_store 120 = Inr m" "s = SnapshotMemory m"
    using assms(1) by (auto simp: start_telemetry_store_def rbind_eq_Inr)
  then show ?thesis using ts_fresh by fastforce
next
  case (Some p)
  then obtain m where m: "tq_open 120 (si_telemetry_database si p) = Inr m" "s = SnapshotDatabase m"
    using assms(1) by (auto simp: start_telemetry_store_def rbind_eq_Inr)
  from assms(2,3) Some have d: "tq_table_ok (py_dump py) (py_load py) (si_telemetry_database si p)"
    "\<forall>x \<in> set (tq_view (py_load py) (si_telemetry_database si p)). bound_snapshot b x"
    by (simp_all add: databases_ok_def)
  from tq_open_view [OF d(1) m(1)] d(2) m(2) show ?thesis by (auto dest: in_set_takeD)
qed

lemma binding_link_ids:
  assumes "load_telemetry_binding sha256 config_document intent_document clab_document content
      config_path path clab_path = Inr b"
  shows "\<exists>i. load_intent intent_document path = Inr i \<and> map tl_id (binding_links b) = map li_id (intent_links i)"
proof -
  from assms obtain config i name nodes clab c0 fp document where
    i: "load_intent intent_document path = Inr i" and l: "load_clab_topology document = Inr (name, nodes, clab)"
      "bind_topology config i (name, nodes, clab) fp = Inr b" "validate_telemetry_config c0 = Inr config"
    unfolding load_telemetry_binding_def rbind_eq_Inr by (metis prod_cases3)
  have "list_all2 (\<lambda>l t. tl_id t = li_id l) (intent_links i) (binding_links b)"
    using bind_topology_Inr [OF l(2) load_clab_ok [OF l(1)] l(3) loaded_link_ids [OF i]]
    by (auto elim!: list_all2_mono)
  then have "map tl_id (binding_links b) = map li_id (intent_links i)" by (rule list_all2_map_snd)
  with i show ?thesis by blast
qed

lemma topology_link_ids:
  assumes "load_intent document path = Inr i" "distinct (dict_keys (intent_nodes i))"
  shows "\<exists>t. to_topology i = Inr t \<and> wf_topology t \<and> set (map link_id (topo_links t)) = set (map li_id (intent_links i))"
proof -
  have ok: "intent_ok i" using assms(1) by (auto simp: load_intent_def rbind_eq_Inr validate_intent_Inr)
  note t = to_topology_ok [OF ok assms(2)]
  then have wf: "wf_topology \<lparr>nodes_by_name = map (\<lambda>p. (fst p, intent_node p)) (intent_nodes i),
      links_by_id = map (\<lambda>l. (li_id l, intent_link l)) (intent_links i)\<rparr>"
    using mk_topology_wf unfolding to_topology_def by blast
  show ?thesis
    using t wf loaded_link_ids [OF assms(1)]
    by (auto simp: topo_links_def set_sorted_values comp_def intent_link_def image_image)
qed

lemma validate_published_same: "validate_published_evidence e = Inr e' \<Longrightarrow> e' = e"
  by (auto simp: validate_published_evidence_def rbind_eq_Inr)

lemma started_parts:
  assumes "start_server py si = Inr a"
  shows "\<exists>measured repeated runtime configuration live binding telemetry candidate domains topology.
    load_runtime_n1_published_evidence (si_published si) (si_on_disk si (runtime_n1_evidence_path si)) = Inr runtime \<and>
    candidate_runtime_configuration_fingerprint (py_sha256 py) (si_read si) (project_root si) = Inr configuration \<and>
    start_live_store si = Inr live \<and> start_binding py si = Inr binding \<and> start_telemetry_store si = Inr telemetry \<and>
    if_file si (candidate_intent_path si) (load_topology (si_intent si)) = Inr candidate \<and>
    load_topology (si_intent si) (intent_path si) = Inr topology \<and>
    create_app py topology measured repeated (Some live) candidate domains (Some runtime) (Some configuration)
      (Some binding) (Some telemetry) = Inr a"
  using assms unfolding start_server_def rbind_eq_Inr by blast

section \<open>Properties\<close>

text \<open>
  C27: A server process that starts is consistent with its files. It serves the topology of the
  intent file, and its telemetry binding has exactly that topology's links; the runtime
  evidence it publishes was validated, states the fingerprint of the candidate topology of the
  candidate intent file and the fingerprint of the current configuration files. And it keeps
  working: on databases left by earlier processes, after any admissible requests, every
  admissible request is answered with a documented status, never with 500. Admissible is a
  request met by an aware clock that is a minute away from the end of the calendar, with a new
  identifier, whose times are values of \<open>datetime\<close> (a posted \<open>observed_at\<close> with a counterpart in
  UTC) and whose sequence number fits 64 bits with sign; a larger sequence number and a time
  without a counterpart in UTC are answered with 500 by the code.
\<close>

theorem started_server:
  assumes "start_server py si = Inr a0" "databases_ok py si"
    and "\<forall>i. load_intent (si_intent si) (intent_path si) = Inr i \<longrightarrow> distinct (dict_keys (intent_nodes i))"
    and "server_runs py a0 a" "admissible_request py r a"
  shows "\<exists>i b e candidate. load_intent (si_intent si) (intent_path si) = Inr i \<and>
    to_topology i = Inr (app_topology a0) \<and> app_binding a0 = Some b \<and>
    set (map tl_id (binding_links b)) = set (map link_id (topo_links (app_topology a0))) \<and>
    app_runtime_n1 a0 = Some e \<and> validate_published_evidence e = Inr e \<and>
    load_topology (si_intent si) (candidate_intent_path si) = Inr candidate \<and>
    rpe_topology_sha256 e = topology_fingerprint (py_sha256 py) candidate \<and>
    candidate_runtime_configuration_fingerprint (py_sha256 py) (si_read si) (project_root si) =
      Inr (rpe_runtime_configuration_sha256 e) \<and>
    status_code (fst (respond py r a)) \<in> documented r a \<and> status_code (fst (respond py r a)) \<noteq> 500"
proof -
  obtain measured repeated runtime configuration live binding telemetry candidate domains topology where
    s: "load_runtime_n1_published_evidence (si_published si) (si_on_disk si (runtime_n1_evidence_path si)) = Inr runtime"
      "candidate_runtime_configuration_fingerprint (py_sha256 py) (si_read si) (project_root si) = Inr configuration"
      "start_live_store si = Inr live" "start_binding py si = Inr binding" "start_telemetry_store si = Inr telemetry"
      "if_file si (candidate_intent_path si) (load_topology (si_intent si)) = Inr candidate"
      "load_topology (si_intent si) (intent_path si) = Inr topology"
    and app: "create_app py topology measured repeated (Some live) candidate domains (Some runtime) (Some configuration)
      (Some binding) (Some telemetry) = Inr a0" using started_parts [OF assms(1)] by blast
  note c = created_parts [OF app]
  obtain i where i: "load_intent (si_intent si) (intent_path si) = Inr i" "to_topology i = Inr topology"
    using s(7) by (auto simp: load_topology_def rbind_eq_Inr)
  have d: "distinct (dict_keys (intent_nodes i))" using assms(3) i(1) by blast
  have wf: "wf_topology topology" and ids: "set (map link_id (topo_links topology)) = set (map li_id (intent_links i))"
    using topology_link_ids [OF i(1) d] i(2) by auto
  have links: "map tl_id (binding_links binding) = map li_id (intent_links i)"
    using binding_link_ids [OF s(4) [unfolded start_binding_def]] i(1) by auto
  have "given_stores_ok py (Some live) (Some binding) (Some telemetry)"
    using start_live_ok [OF s(3) assms(2)] start_telemetry_ok [OF s(5) assms(2) s(4)]
      load_binding_ok [OF s(4) [unfolded start_binding_def]] by (simp add: given_stores_ok_def)
  then have ok: "app_ok py a" using server_runs_ok [OF assms(4)] created_ok [OF wf app] by blast
  obtain reply a' where r: "respond py r a = (reply, a')" by fastforce
  have st: "status_code reply \<in> documented r a" "status_code reply \<noteq> 500"
    using respond_step [OF ok assms(5) r] documented_not_500 [of r a] by auto
  obtain t where t: "candidate = Some t" "validate_runtime_n1_published_topology (py_sha256 py) runtime t configuration = Inr ()"
    using c(15) by (auto simp: check_runtime_evidence_def split: option.splits)
  then have "load_topology (si_intent si) (candidate_intent_path si) = Inr t"
    using s(6) by (auto simp: if_file_def rbind_eq_Inr split: if_splits)
  moreover have "topology_fingerprint (py_sha256 py) t = rpe_topology_sha256 runtime"
    "configuration = rpe_runtime_configuration_sha256 runtime"
    using t(2) by (auto simp: validate_runtime_n1_published_topology_def rbind_eq_Inr)
  moreover have "validate_published_evidence runtime = Inr runtime"
    using s(1) validate_published_same by (auto simp: load_runtime_n1_published_evidence_def rbind_eq_Inr)
  moreover have "set (map tl_id (binding_links binding)) = set (map link_id (topo_links topology))" unfolding links ids ..
  ultimately show ?thesis
    using c(2,5,8) i s(2) st r
    by (intro exI [of _ i] exI [of _ binding] exI [of _ runtime] exI [of _ t]) (simp del: set_map)
qed

text \<open>A process on the lab's intent, its telemetry configuration and a small candidate design.\<close>

definition example_input :: ServerInput where
  "example_input =
     \<lparr>si_env = (\<lambda>_. None), si_default_root = [],
      si_is_file = (\<lambda>p. p = under [] ''lab/intent-dual-homed.yml''), si_read = (\<lambda>_. Inr []),
      si_on_disk = (\<lambda>_. Bytes []), si_json = (\<lambda>_. Inr JNull), si_published = (\<lambda>_. Inr row_published),
      si_intent = (\<lambda>p. Inr (if p = under [] ''lab/intent.yml'' then lab_intent else example_intent)),
      si_domains = (\<lambda>_. Inl Exhausted), si_designs = (\<lambda>_. Inl Exhausted),
      si_telemetry = (\<lambda>_. Inr lab_telemetry_config), si_clab = (\<lambda>_. Inr lab_clab),
      si_live_database = (\<lambda>_. sq_empty), si_telemetry_database = (\<lambda>_. \<lparr>tq_capacity = 0, tq_rows = []\<rparr>)\<rparr>"

definition hashing_python :: PythonRuntime where
  "hashing_python = example_python\<lparr>py_sha256 := example_hash\<rparr>"

lemma row_audits:
  "\<exists>la na. audit_single_link_failures row_topology = Inr la \<and> audit_single_node_failures row_topology = Inr na"
proof -
  have wf: "wf_topology row_topology" using mk_row_topology by (rule mk_topology_wf)
  have ids: "identifier_names row_topology" by code_simp
  have "case audit_fault_scenarios row_topology
      [\<lparr>fault_id = ''x'', fault_kind = LINK, excluded_links = [''a--c''], excluded_nodes = []\<rparr>] of Inl e \<Rightarrow> False | Inr r \<Rightarrow> True"
    by code_simp
  then have s: "served row_topology" using audit_accepts [OF wf] by (auto split: sum.splits)
  have "topo_links row_topology \<noteq> []" "filter (\<lambda>n. transport_role (node_role n)) (topo_nodes row_topology) \<noteq> []"
    by code_simp+
  then show ?thesis using link_audit_run [OF wf ids s] node_audit_run [OF wf ids s] by blast
qed

lemma lab_audits:
  "\<exists>la na. audit_single_link_failures lab_topology = Inr la \<and> audit_single_node_failures lab_topology = Inr na"
proof -
  have ids: "identifier_names lab_topology" by code_simp
  have "topo_links lab_topology \<noteq> []" "filter (\<lambda>n. transport_role (node_role n)) (topo_nodes lab_topology) \<noteq> []"
    by code_simp+
  then show ?thesis
    using link_audit_run [OF wf_lab_topology ids lab_served] node_audit_run [OF wf_lab_topology ids lab_served] by blast
qed

lemma example_start:
  "\<exists>a. start_server hashing_python example_input = Inr a"
proof -
  have p: "intent_path example_input = under [] ''lab/intent.yml''" "project_root example_input = []"
    "candidate_intent_path example_input = under [] ''lab/intent-dual-homed.yml''" by code_simp+
  have none: "if_file example_input (experiment_path example_input) f = Inr None"
    "if_file example_input (repeated_experiment_path example_input) f = Inr None" for f :: "string \<Rightarrow> (string \<times> json) list result"
    by (simp_all add: if_file_def example_input_def under_def environ_def experiment_path_def repeated_experiment_path_def
        project_root_def)
  have nd: "if_file example_input (failure_domains_path example_input) g = Inr None" for g :: "string \<Rightarrow> FailureDomainCatalog result"
    by (simp add: if_file_def example_input_def under_def environ_def failure_domains_path_def project_root_def)
  have ev: "load_runtime_n1_published_evidence (si_published example_input)
      (si_on_disk example_input (runtime_n1_evidence_path example_input)) = Inr row_published"
    by (simp add: load_runtime_n1_published_evidence_def example_input_def ensure_bounded_file_def row_published_accepted)
  have reads: "map (si_read example_input) (candidate_runtime_configuration_paths (project_root example_input)) =
      map Inr (replicate 10 [])"
    by (simp add: candidate_runtime_configuration_paths_def candidate_runtime_files_def numeral_eq_Suc example_input_def)
  have same_hash: "example_hash x = example_hash []" for x by (simp add: example_hash_def)
  have conf: "candidate_runtime_configuration_fingerprint example_hash (si_read example_input) (project_root example_input) =
      Inr (example_hash [])" unfolding candidate_fingerprint_of [OF reads] by (metis same_hash)
  obtain b where b: "start_binding hashing_python example_input = Inr b"
  proof -
    have "isl (start_binding hashing_python example_input) = False" by code_simp
    then show ?thesis using is_Inr that by blast
  qed
  have cand: "if_file example_input (candidate_intent_path example_input) (load_topology (si_intent example_input)) =
      Inr (Some row_topology)"
  proof -
    have "rbind (validate_intent example_intent) to_topology = Inr row_topology" by code_simp
    then show ?thesis by (simp add: p if_file_def load_topology_def load_intent_def) (simp add: example_input_def under_def)
  qed
  have topo: "load_topology (si_intent example_input) (intent_path example_input) = Inr lab_topology"
  proof -
    have "rbind (validate_intent lab_intent) to_topology = Inr lab_topology" by code_simp
    then show ?thesis by (simp add: p load_topology_def load_intent_def) (simp add: example_input_def)
  qed
  obtain la na la' na' where audits: "audit_single_link_failures lab_topology = Inr la"
    "audit_single_node_failures lab_topology = Inr na" "audit_single_link_failures row_topology = Inr la'"
    "audit_single_node_failures row_topology = Inr na'" using lab_audits row_audits by blast
  have stores: "start_live_store example_input = Inr (LiveMemory \<lparr>cs_capacity = 20, cs_runs = [], cs_order = []\<rparr>)"
    "\<exists>s. start_telemetry_store example_input = Inr s"
    by (simp_all add: start_live_store_def start_telemetry_store_def database_path_def example_input_def
      mk_convergence_store_def mk_telemetry_store_def)
  then obtain s where s: "start_telemetry_store example_input = Inr s" by blast
  have sha: "py_sha256 hashing_python = example_hash" by (simp add: hashing_python_def)
  show ?thesis
    unfolding start_server_def none nd ev sha conf stores(1) b s cand topo rbind_simps check_design_catalog_def option.case
    by (simp add: create_app_def when_given_def check_runtime_evidence_def sha row_published_accepted mk_service_def
      open_live_store_def open_snapshot_store_def audits audit_domains_def)
qed

theorem started_server_witness:
  "\<exists>a b. start_server hashing_python example_input = Inr a \<and> app_binding a = Some b \<and>
     set (map tl_id (binding_links b)) = set (map link_id (topo_links (app_topology a))) \<and>
     status_code (fst (respond hashing_python GetMetrics a)) \<noteq> 500"
proof -
  obtain a where a: "start_server hashing_python example_input = Inr a" using example_start by blast
  have env: "\<And>n. database_path example_input n = None" by (simp add: database_path_def example_input_def)
  then have db: "databases_ok hashing_python example_input" by (simp add: databases_ok_def)
  have "\<forall>i. load_intent (si_intent example_input) (intent_path example_input) = Inr i \<longrightarrow> distinct (dict_keys (intent_nodes i))"
  proof -
    have "load_intent (si_intent example_input) (intent_path example_input) = Inr lab_intent" by code_simp
    moreover have "distinct (dict_keys (intent_nodes lab_intent))" by code_simp
    ultimately show ?thesis by simp
  qed
  from started_server [OF a db this server_start, of GetMetrics] a show ?thesis by auto
qed

end
