(* ===== verification/Evidence_Report.thy ===== *)
theory Evidence_Report
  imports Runtime_Conformance Repeated_Trials
begin

text \<open>
  \<open>report.py\<close>: the Markdown report generated from the three evidence documents, each of which is
  recomputed from its inputs (the raw logs, the declared failure domains) before a number of it
  is shown. A text is its UTF-8 bytes; a JSON number is a rational. Reading and decoding files,
  listing a directory, parsing, the patterns of the logs, rounding and SHA-256 are parameters.
\<close>

section \<open>Inputs\<close>

record ReportInputs =
  ri_sha256 :: "string \<Rightarrow> string"
  ri_read :: "string \<Rightarrow> string result"
  ri_glob :: "string \<Rightarrow> string list"
  ri_parse :: "string \<Rightarrow> json result"
  ri_lines :: "string \<Rightarrow> string list result"
  ri_patterns :: LogPatterns
  ri_round2 :: "rat \<Rightarrow> rat"
  ri_intent :: "string \<Rightarrow> NetworkIntent result"
  ri_designs :: "string \<Rightarrow> DesignCatalog result"
  ri_domains :: "string \<Rightarrow> FailureDomainCatalog result"

definition max_input_bytes :: nat where "max_input_bytes = 5 * 1024 * 1024"
definition max_total_raw_log_bytes :: nat where "max_total_raw_log_bytes = 10 * 1024 * 1024"
definition max_limitations :: nat where "max_limitations = 32"
definition max_text_length :: nat where "max_text_length = 512"

definition bounded_read :: "ReportInputs \<Rightarrow> string \<Rightarrow> string \<Rightarrow> string result" where
  "bounded_read ri path label_text =
     rbind (ri_read ri path) (\<lambda>content.
       let raw = take (max_input_bytes + 1) content in
       rbind (ensure (length raw \<le> max_input_bytes)
         (label_text @ '' evidence exceeds '' @ nat_str max_input_bytes @ '' bytes'')) (\<lambda>_. Inr raw))"

definition report_json_object :: "ReportInputs \<Rightarrow> string \<Rightarrow> string \<Rightarrow> ((string \<times> json) list \<times> string) result" where
  "report_json_object ri path label_text =
     rbind (bounded_read ri path label_text) (\<lambda>raw.
     rbind (ri_parse ri raw) (\<lambda>v.
     rbind (unique_json v) (\<lambda>_.
       case v of
         JObject d \<Rightarrow> Inr (d, ri_sha256 ri (crlf_to_lf raw))
       | _ \<Rightarrow> Inl (ValueError (label_text @ '' evidence must be a JSON object'')))))"

section \<open>Typed values\<close>

definition report_mapping :: "json \<Rightarrow> string \<Rightarrow> (string \<times> json) list result" where
  "report_mapping v label_text =
     (case v of JObject d \<Rightarrow> Inr d | _ \<Rightarrow> Inl (ValueError (label_text @ '' must be a mapping'')))"

definition report_sequence :: "json \<Rightarrow> string \<Rightarrow> json list result" where
  "report_sequence v label_text =
     (case v of JArray xs \<Rightarrow> Inr xs | _ \<Rightarrow> Inl (ValueError (label_text @ '' must be a sequence'')))"

definition report_number :: "json \<Rightarrow> string \<Rightarrow> rat result" where
  "report_number v label_text =
     (case jnumber v of Some r \<Rightarrow> Inr r | None \<Rightarrow> Inl (ValueError (label_text @ '' must be numeric'')))"

definition report_integer :: "json \<Rightarrow> string \<Rightarrow> int result" where
  "report_integer v label_text =
     (case jint v of Some i \<Rightarrow> Inr i | None \<Rightarrow> Inl (ValueError (label_text @ '' must be an integer'')))"

definition report_text :: "json \<Rightarrow> string \<Rightarrow> string result" where
  "report_text v label_text =
     (case jstring v of
        Some s \<Rightarrow> if s = [] then Inl (ValueError (label_text @ '' must be a non-empty string'')) else Inr s
      | None \<Rightarrow> Inl (ValueError (label_text @ '' must be a non-empty string'')))"

text \<open>
  The checks of \<open>_markdown_text\<close> and \<open>_html_code\<close>: a bounded text on one line. \<open>len\<close> counts
  characters: the bytes of a text in UTF-8 but those that continue a character (\<open>10xxxxxx\<close>).
\<close>

definition text_length :: "string \<Rightarrow> nat" where
  "text_length s = length (filter (\<lambda>c. \<not> (digit7 c \<and> \<not> digit6 c)) s)"

definition one_line_text :: "json \<Rightarrow> string \<Rightarrow> string result" where
  "one_line_text v label_text =
     rbind (report_text v label_text) (\<lambda>s.
     rbind (ensure (text_length s \<le> max_text_length)
       (label_text @ '' exceeds '' @ nat_str max_text_length @ '' characters'')) (\<lambda>_.
     rbind (ensure (newline \<notin> set s \<and> CHR 0x0D \<notin> set s) (label_text @ '' must not contain line breaks'')) (\<lambda>_.
       Inr s)))"

text \<open>\<open>html.escape(text, quote=False)\<close>, and with quotes\<close>

definition html_escape :: "string \<Rightarrow> string" where
  "html_escape s = replace_char (CHR ''>'') ''&gt;'' (replace_char (CHR ''<'') ''&lt;'' (replace_char (CHR ''&'') ''&amp;'' s))"

definition html_escape_quotes :: "string \<Rightarrow> string" where
  "html_escape_quotes s = replace_char (CHR 0x27) ''&#x27;'' (replace_char quote ''&quot;'' (html_escape s))"

definition markdown_escape :: "string \<Rightarrow> string" where
  "markdown_escape s =
     foldl (\<lambda>t c. replace_char c [backslash, c] t) (replace_char backslash [backslash, backslash] (html_escape s)) ''`|[]()''"

definition markdown_text :: "json \<Rightarrow> string \<Rightarrow> string result" where
  "markdown_text v label_text = rbind (one_line_text v label_text) (\<lambda>s. Inr (markdown_escape s))"

definition html_code :: "json \<Rightarrow> string \<Rightarrow> string result" where
  "html_code v label_text =
     rbind (one_line_text v label_text) (\<lambda>s.
       Inr (''<code>'' @ replace_char (CHR ''|'') ''&#124;'' (html_escape_quotes s) @ ''</code>''))"

definition report_profile :: "(string \<times> json) list \<Rightarrow> string \<Rightarrow> (string \<times> json) list result" where
  "report_profile evidence name =
     rbind (report_mapping (jget ''profiles'' evidence) ''profiles'') (\<lambda>profiles.
       report_mapping (jget name profiles) (''profiles.'' @ name))"

text \<open>\<open>f"{n:,}"\<close>: a comma before every group of three digits, counted from the right.\<close>

fun group_reversed :: "string \<Rightarrow> string" where
  "group_reversed (a # b # c # d # rest) = a # b # c # CHR '','' # group_reversed (d # rest)"
| "group_reversed ds = ds"

definition grouped :: "nat \<Rightarrow> string" where
  "grouped n = rev (group_reversed (rev (nat_str n)))"

text \<open>The nearest integer, a tie going to the even one.\<close>

definition round_half_even :: "rat \<Rightarrow> int" where
  "round_half_even r =
     (let low = \<lfloor>r\<rfloor>; rest = r - of_int low
      in if rest < 1 / 2 \<or> (rest = 1 / 2 \<and> even low) then low else low + 1)"

definition strip_end :: "char \<Rightarrow> string \<Rightarrow> string" where
  "strip_end c s = rev (dropWhile (\<lambda>d. d = c) (rev s))"

definition minus_sign :: "rat \<Rightarrow> string" where
  "minus_sign r = (if r < 0 then ''-'' else [])"

definition format_rational :: "rat \<Rightarrow> string" where
  "format_rational r =
     (if of_int \<lfloor>r\<rfloor> = r then minus_sign r @ grouped (nat \<bar>\<lfloor>r\<rfloor>\<bar>)
      else
        (let hundredths = nat (round_half_even (\<bar>r\<bar> * 100))
         in strip_end (CHR ''.'') (strip_end (CHR ''0'')
              (minus_sign r @ grouped (hundredths div 100) @ ''.'' @ two_digits (int (hundredths mod 100))))))"

definition format_number :: "json \<Rightarrow> string \<Rightarrow> string result" where
  "format_number v label_text = rbind (report_number v label_text) (\<lambda>r. Inr (format_rational r))"

text \<open>The dash, the multiplication sign and the arrow of the report, in UTF-8.\<close>

definition em_dash :: string where "em_dash = [CHR 0xE2, CHR 0x80, CHR 0x94]"
definition times_sign :: string where "times_sign = [CHR 0xC3, CHR 0x97]"
definition right_arrow :: string where "right_arrow = [CHR 0xE2, CHR 0x86, CHR 0x92]"

definition format_list :: "json \<Rightarrow> string \<Rightarrow> string result" where
  "format_list v label_text =
     rbind (report_sequence v label_text) (\<lambda>items.
       if items = [] then Inr em_dash
       else rbind (traverse (\<lambda>item. markdown_text item (label_text @ '' item'')) items) (\<lambda>texts. Inr (join '', '' texts)))"

section \<open>What the evidence must say\<close>

definition is_sha256 :: "string \<Rightarrow> bool" where
  "is_sha256 s = hex_of_length 64 s"

definition profile_fingerprint :: "string \<Rightarrow> (string \<times> json) list \<Rightarrow> string \<Rightarrow> string result" where
  "profile_fingerprint label_text evidence profile =
     rbind (report_profile evidence profile) (\<lambda>d.
       report_text (jget ''configuration_sha256'' d) (label_text @ ''.'' @ profile @ ''.configuration_sha256''))"

definition current_fingerprint ::
  "ReportInputs \<Rightarrow> (string \<times> json) list \<Rightarrow> (string \<times> json) list \<Rightarrow> string \<Rightarrow> string result" where
  "current_fingerprint ri comparison repeated base =
     rbind (traverse (profile_fingerprint ''comparison'' comparison) profile_names) (\<lambda>compared.
     rbind (report_mapping (jget ''environment'' repeated) ''repeated.environment'') (\<lambda>environment.
     rbind (report_text (jget ''configuration_sha256'' environment) ''repeated.environment.configuration_sha256'') (\<lambda>environment_sha.
     rbind (traverse (profile_fingerprint ''repeated'' repeated) profile_names) (\<lambda>trials.
     let fingerprints = compared @ [environment_sha] @ trials in
     rbind (ensure (list_all is_sha256 fingerprints) ''configuration fingerprint must be a lowercase SHA-256'') (\<lambda>_.
     rbind (ensure (length (remdups fingerprints) = 1) ''evidence uses more than one configuration fingerprint'') (\<lambda>_.
     rbind (configuration_fingerprint (ri_sha256 ri) (ri_read ri) base) (\<lambda>current.
     rbind (ensure (hd fingerprints = current) ''evidence configuration fingerprint does not match current lab'') (\<lambda>_.
       Inr current))))))))"

definition validate_classification ::
  "(string \<times> json) list \<Rightarrow> (string \<times> json) list \<Rightarrow> (string \<times> json) list \<Rightarrow> unit result" where
  "validate_classification comparison repeated domains =
     rbind (ensure (jget ''measured'' comparison = JBool True) ''comparison evidence must be measured'') (\<lambda>_.
     rbind (ensure (jget ''measured'' repeated = JBool True) ''repeated evidence must be measured'') (\<lambda>_.
     rbind (ensure (jget ''source'' comparison = JString ''containerlab_observation'')
       ''comparison source must be containerlab_observation'') (\<lambda>_.
     rbind (ensure (jget ''scenario'' comparison = JString ''remote_access_uplink_blackhole'')
       ''comparison scenario must be remote_access_uplink_blackhole'') (\<lambda>_.
     rbind (ensure (jget ''source'' repeated = JString ''containerlab_repeated_observation'')
       ''repeated source must be containerlab_repeated_observation'') (\<lambda>_.
     rbind (ensure (jget ''scenario'' repeated = JString ''remote_access_uplink_blackhole_repeated'')
       ''repeated scenario must be remote_access_uplink_blackhole_repeated'') (\<lambda>_.
     rbind (ensure (jget ''measured'' domains = JBool False) ''failure-domain evidence must be modeled, not measured'') (\<lambda>_.
       ensure (jget ''source'' domains = JString ''deterministic_graph_analysis'')
         ''failure-domain evidence must use deterministic graph analysis'')))))))"

text \<open>\<open>path.name\<close>\<close>

definition file_name :: "string \<Rightarrow> string" where
  "file_name path = rev (takeWhile (\<lambda>c. c \<noteq> CHR ''/'') (rev path))"

text \<open>A raw log with its size in bytes.\<close>

definition read_raw_log :: "ReportInputs \<Rightarrow> string \<Rightarrow> (nat \<times> string list) result" where
  "read_raw_log ri path =
     rbind (bounded_read ri path (''raw log '' @ file_name path)) (\<lambda>raw.
     rbind (ri_lines ri raw) (\<lambda>lines. Inr (length raw, lines)))"

definition trial_paths :: "ReportInputs \<Rightarrow> string \<Rightarrow> int \<Rightarrow> string \<Rightarrow> string list result" where
  "trial_paths ri evidence_directory expected_trials profile =
     (let paths = sort (ri_glob ri (under evidence_directory (''repeated/'' @ profile)))
      in rbind (ensure (int (length paths) = expected_trials)
           (''expected '' @ int_str expected_trials @ '' trial logs for '' @ profile @ '', found '' @ nat_str (length paths)))
           (\<lambda>_. Inr paths))"

definition add_named_log ::
  "ReportInputs \<Rightarrow> string \<Rightarrow> nat \<times> (string \<times> string list) list \<Rightarrow> string \<Rightarrow> (nat \<times> (string \<times> string list) list) result" where
  "add_named_log ri profile acc path =
     (case acc of (total_raw_bytes, logs) \<Rightarrow>
        rbind (read_raw_log ri path) (\<lambda>(size, lines).
        rbind (ensure (total_raw_bytes + size \<le> max_total_raw_log_bytes)
          (''repeated raw logs exceed '' @ nat_str max_total_raw_log_bytes @ '' bytes in total'')) (\<lambda>_.
          Inr (total_raw_bytes + size, logs @ [(profile @ ''/'' @ file_name path, lines)]))))"

definition named_logs ::
  "ReportInputs \<Rightarrow> string \<Rightarrow> string list \<Rightarrow> nat \<Rightarrow> (nat \<times> (string \<times> string list) list) result" where
  "named_logs ri profile paths total_raw_bytes = fold_res (add_named_log ri profile) (total_raw_bytes, []) paths"

definition recompute_comparison :: "ReportInputs \<Rightarrow> string \<Rightarrow> (string \<times> json) list result" where
  "recompute_comparison ri evidence_directory =
     rbind (read_raw_log ri (under evidence_directory ''remote-blackhole-ospf.log'')) (\<lambda>(_, ospf).
     rbind (read_raw_log ri (under evidence_directory ''remote-blackhole-bfd.log'')) (\<lambda>(_, bfd).
       build_comparison (ri_round2 ri) (ri_patterns ri) ospf bfd))"

definition recompute_repeated :: "ReportInputs \<Rightarrow> string \<Rightarrow> int \<Rightarrow> (string \<times> json) list result" where
  "recompute_repeated ri evidence_directory expected_trials =
     rbind (trial_paths ri evidence_directory expected_trials ''ospf_only'') (\<lambda>ospf_paths.
     rbind (trial_paths ri evidence_directory expected_trials ''bfd_100x3'') (\<lambda>bfd_paths.
     rbind (named_logs ri ''ospf_only'' ospf_paths 0) (\<lambda>(total_raw_bytes, ospf_logs).
     rbind (named_logs ri ''bfd_100x3'' bfd_paths total_raw_bytes) (\<lambda>(_, bfd_logs).
       build_repeated_evidence (ri_round2 ri) (ri_patterns ri) ospf_logs bfd_logs))))"

definition validate_measured_evidence ::
  "ReportInputs \<Rightarrow> (string \<times> json) list \<Rightarrow> (string \<times> json) list \<Rightarrow> string \<Rightarrow> unit result" where
  "validate_measured_evidence ri comparison repeated base =
     rbind (recompute_comparison ri (under base ''evidence'')) (\<lambda>recomputed.
     rbind (ensure (py_equal (JObject comparison) (JObject recomputed))
       ''comparison evidence does not match raw-log recalculation'') (\<lambda>_.
     rbind (report_integer (jget ''trial_count_per_profile'' repeated) ''repeated.trial_count_per_profile'') (\<lambda>expected_trials.
     rbind (recompute_repeated ri (under base ''evidence'') expected_trials) (\<lambda>recomputed_repeated.
       ensure (py_equal (JObject repeated) (JObject recomputed_repeated))
         ''repeated evidence does not match raw-log recalculation''))))"

text \<open>The audit of the candidate design the catalog names, loaded from the lab.\<close>

definition recompute_domains :: "ReportInputs \<Rightarrow> string \<Rightarrow> FailureDomainAudit result" where
  "recompute_domains ri base =
     (let directory = under base ''lab'' in
      rbind (rbind (ri_designs ri (under directory ''designs.yml'')) validate_catalog) (\<lambda>designs.
      rbind (rbind (ri_domains ri (under directory ''failure-domains.yml'')) validate_failure_domains) (\<lambda>catalog.
      rbind (validate_failure_domain_design (ri_sha256 ri) (\<lambda>f. ri_intent ri (under directory f)) catalog designs) (\<lambda>_.
        case map_of (catalog_designs designs) (fdc_design catalog) of
          None \<Rightarrow> Inl (KeyError (fdc_design catalog))
        | Some design \<Rightarrow>
            rbind (load_topology (ri_intent ri) (under directory (entry_intent design))) (\<lambda>topology.
              audit_failure_domains (ri_sha256 ri) topology catalog)))))"

definition validate_failure_domain_evidence :: "ReportInputs \<Rightarrow> (string \<times> json) list \<Rightarrow> string \<Rightarrow> unit result" where
  "validate_failure_domain_evidence ri evidence base =
     rbind (recompute_domains ri base) (\<lambda>a.
       ensure (py_equal (JObject evidence) (build_failure_domain_evidence a))
         ''failure-domain evidence does not match recomputed audit'')"

section \<open>The tables\<close>

definition table_row :: "string list \<Rightarrow> string" where
  "table_row cells = ''| '' @ join '' | '' cells @ '' |''"

definition profile_labels :: "(string \<times> string) list" where
  "profile_labels = [(''ospf_only'', ''OSPF only''), (''bfd_100x3'', ''BFD 100 ms '' @ times_sign @ '' 3'')]"

definition detection_row :: "(string \<times> json) list \<Rightarrow> string \<times> string \<Rightarrow> string result" where
  "detection_row repeated named =
     (case named of (profile, label_text) \<Rightarrow>
        rbind (report_profile repeated profile) (\<lambda>d.
        rbind (report_mapping (jget ''detection_ms'' d) (''repeated.'' @ profile @ ''.detection_ms'')) (\<lambda>summary.
        rbind (traverse (\<lambda>stat. format_number (jget stat summary) (profile @ ''.'' @ stat)) [''p50'', ''p95'', ''max'']) (\<lambda>texts.
          Inr (table_row (label_text # map (\<lambda>t. t @ '' ms'') texts))))))"

definition single_run_row :: "(string \<times> json) list \<Rightarrow> string \<times> string \<Rightarrow> string result" where
  "single_run_row comparison named =
     (case named of (profile, label_text) \<Rightarrow>
        rbind (report_profile comparison profile) (\<lambda>d.
        rbind (report_mapping (jget ''baseline'' d) (''comparison.'' @ profile @ ''.baseline'')) (\<lambda>baseline.
        rbind (report_mapping (jget ''failover'' d) (''comparison.'' @ profile @ ''.failover'')) (\<lambda>failover.
        rbind (format_number (jget ''observed_detection_upper_bound_ms'' d) (''comparison.'' @ profile @ ''.detection'')) (\<lambda>detection.
        rbind (report_integer (jget ''packets_lost_until_failover'' d) (''comparison.'' @ profile @ ''.lost_packets'')) (\<lambda>lost.
        rbind (report_integer (jget ''ospf_metric'' baseline) (profile @ ''.baseline_metric'')) (\<lambda>before.
        rbind (report_integer (jget ''ospf_metric'' failover) (profile @ ''.failover_metric'')) (\<lambda>after.
          Inr (table_row [label_text, detection @ '' ms'', int_str lost,
            int_str before @ '' '' @ right_arrow @ '' '' @ int_str after])))))))))"

definition upper_ascii :: "char \<Rightarrow> char" where
  "upper_ascii c = (if is_lower c then char_of (of_char c - (32 :: nat)) else c)"

definition failure_domain_row :: "nat \<times> json \<Rightarrow> string result" where
  "failure_domain_row numbered =
     rbind (report_mapping (snd numbered) (''failure_domains.scenarios['' @ nat_str (fst numbered) @ '']'')) (\<lambda>scenario.
     rbind (markdown_text (jget ''domain_id'' scenario) ''domain_id'') (\<lambda>domain_id.
     rbind (markdown_text (jget ''domain_type'' scenario) ''domain_type'') (\<lambda>domain_type.
     rbind (markdown_text (jget ''service_impact'' scenario) ''service_impact'') (\<lambda>impact.
     rbind (format_list (jget ''affected_nodes'' scenario) ''affected_nodes'') (\<lambda>affected.
       Inr (table_row [''`'' @ domain_id @ ''`'', domain_type, map upper_ascii impact, affected]))))))"

definition failure_domain_rows :: "(string \<times> json) list \<Rightarrow> string list result" where
  "failure_domain_rows domains =
     rbind (report_sequence (jget ''scenarios'' domains) ''failure_domains.scenarios'') (\<lambda>scenarios.
       traverse failure_domain_row (zip [0..<length scenarios] scenarios))"

text \<open>\<open>part in text\<close>\<close>

definition occurs_in :: "string \<Rightarrow> string \<Rightarrow> bool" where
  "occurs_in part s = list_ex (\<lambda>i. starts_with part (drop i s)) [0..<Suc (length s)]"

definition add_limitation :: "string \<Rightarrow> string list \<Rightarrow> json \<Rightarrow> string list result" where
  "add_limitation label_text result item =
     rbind (markdown_text item (label_text @ ''.limitations item'')) (\<lambda>t.
       let low = map lower_ascii t in
       Inr (if occurs_in ''production'' low \<or> occurs_in ''slo'' low \<or> t \<in> set result then result else result @ [t]))"

definition evidence_limitations :: "string list \<Rightarrow> string \<times> (string \<times> json) list \<Rightarrow> string list result" where
  "evidence_limitations result named =
     (case named of (label_text, evidence) \<Rightarrow>
        rbind (report_sequence (jget ''limitations'' evidence) (label_text @ ''.limitations'')) (\<lambda>items.
        rbind (ensure (length items \<le> max_limitations)
          (label_text @ ''.limitations exceeds '' @ nat_str max_limitations @ '' entries'')) (\<lambda>_.
          fold_res (add_limitation label_text) result items)))"

definition limitations :: "(string \<times> json) list \<Rightarrow> (string \<times> json) list \<Rightarrow> string list result" where
  "limitations comparison repeated =
     rbind (fold_res evidence_limitations [] [(''comparison'', comparison), (''repeated'', repeated)]) (\<lambda>result.
       Inr (result @ [''The SRLG section is deterministic graph analysis over declared failure domains; it is not a physical route-diversity survey.'']))"

section \<open>The report\<close>

definition detection_summary :: "rat \<Rightarrow> string" where
  "detection_summary p95_reduction =
     (let text' = format_rational \<bar>p95_reduction\<bar>
      in if 0 < p95_reduction
         then ''Reduced the p95 detection upper bound by **'' @ text' @ ''%** with BFD 100 ms '' @ times_sign @ '' 3.''
         else if p95_reduction < 0
         then ''Increased the p95 detection upper bound by **'' @ text' @ ''%** with BFD 100 ms '' @ times_sign @ '' 3.''
         else ''Did not change the p95 detection upper bound with BFD 100 ms '' @ times_sign @ '' 3 (**0%** change).'')"

definition packet_loss_summary :: "rat \<Rightarrow> rat \<Rightarrow> string" where
  "packet_loss_summary ospf_lost bfd_lost =
     (if bfd_lost < ospf_lost
      then ''Reduced p95 packets lost before observable failover from **'' @ format_rational ospf_lost @ ''** to **'' @
        format_rational bfd_lost @ ''**.''
      else if ospf_lost < bfd_lost
      then ''Increased p95 packets lost before observable failover from **'' @ format_rational ospf_lost @ ''** to **'' @
        format_rational bfd_lost @ ''**.''
      else ''Did not change p95 packets lost before observable failover; both profiles recorded **'' @
        format_rational ospf_lost @ ''**.'')"

text \<open>The metric both profiles show for a state; two profiles with different metrics are refused.\<close>

definition state_metric :: "(string \<times> json) list \<Rightarrow> string \<Rightarrow> string \<Rightarrow> int result" where
  "state_metric comparison state profile =
     rbind (report_profile comparison profile) (\<lambda>d.
     rbind (report_mapping (jget state d) (''comparison.'' @ profile @ ''.'' @ state)) (\<lambda>block.
       report_integer (jget ''ospf_metric'' block) (''comparison.'' @ profile @ ''.'' @ state @ ''.ospf_metric'')))"

definition common_metrics :: "(string \<times> json) list \<Rightarrow> (int \<times> int) result" where
  "common_metrics comparison =
     rbind (traverse (state_metric comparison ''baseline'') profile_names) (\<lambda>baseline.
     rbind (traverse (state_metric comparison ''failover'') profile_names) (\<lambda>failover.
     rbind (ensure (length (remdups baseline) = 1 \<and> length (remdups failover) = 1)
       ''comparison profiles must use the same path metrics'') (\<lambda>_.
       Inr (hd baseline, hd failover))))"

definition lost_p95 :: "(string \<times> json) list \<Rightarrow> string \<Rightarrow> (string \<times> json) list result" where
  "lost_p95 repeated profile =
     rbind (report_profile repeated profile) (\<lambda>d.
       report_mapping (jget ''lost_packets'' d) (''repeated.'' @ profile @ ''.lost_packets''))"

text \<open>The values the report shows, taken from the validated documents.\<close>

record ReportFacts =
  rf_trials :: int
  rf_p95_reduction :: rat
  rf_ospf_lost :: rat
  rf_bfd_lost :: rat
  rf_baseline_metric :: int
  rf_failover_metric :: int
  rf_outages :: int
  rf_fingerprint :: string
  rf_topology_sha256 :: string
  rf_design :: string

definition report_facts ::
  "(string \<times> json) list \<Rightarrow> (string \<times> json) list \<Rightarrow> (string \<times> json) list \<Rightarrow> string \<Rightarrow> ReportFacts result" where
  "report_facts comparison repeated domains fingerprint =
     rbind (report_text (jget ''design'' domains) ''failure_domains.design'') (\<lambda>design.
     rbind (report_text (jget ''topology_sha256'' domains) ''failure_domains.topology_sha256'') (\<lambda>topology_sha256.
     rbind (report_integer (jget ''trial_count_per_profile'' repeated) ''trial_count'') (\<lambda>trials.
     rbind (report_mapping (jget ''improvement'' repeated) ''repeated.improvement'') (\<lambda>improvement.
     rbind (report_number (jget ''p95_detection_reduction_percent'' improvement) ''p95_detection_reduction_percent'') (\<lambda>p95.
     rbind (lost_p95 repeated ''ospf_only'') (\<lambda>ospf_summary.
     rbind (lost_p95 repeated ''bfd_100x3'') (\<lambda>bfd_summary.
     rbind (report_number (jget ''p95'' ospf_summary) ''ospf lost p95'') (\<lambda>ospf_lost.
     rbind (report_number (jget ''p95'' bfd_summary) ''bfd lost p95'') (\<lambda>bfd_lost.
     rbind (common_metrics comparison) (\<lambda>(baseline, failover).
     rbind (report_mapping (jget ''summary'' domains) ''failure_domains.summary'') (\<lambda>summary.
     rbind (report_integer (jget ''outage'' summary) ''failure_domains.summary.outage'') (\<lambda>outages.
       Inr \<lparr>rf_trials = trials, rf_p95_reduction = p95, rf_ospf_lost = ospf_lost, rf_bfd_lost = bfd_lost,
         rf_baseline_metric = baseline, rf_failover_metric = failover, rf_outages = outages,
         rf_fingerprint = fingerprint, rf_topology_sha256 = topology_sha256, rf_design = design\<rparr>))))))))))))"

definition summary_lines :: "ReportFacts \<Rightarrow> string \<Rightarrow> string list" where
  "summary_lines f design =
     [''<!-- Generated by telconet-report; do not edit manually. -->'',
      ''# Network Resilience Experiment Report'', [],
      ''This report is generated from versioned evidence. It keeps measured containerlab observations separate from deterministic topology analysis.'',
      [], ''## Executive summary'', [],
      ''- Compared OSPF-only and BFD failure detection across **'' @ int_str (rf_trials f) @ '' trials per profile**.'',
      ''- '' @ detection_summary (rf_p95_reduction f),
      ''- '' @ packet_loss_summary (rf_ospf_lost f) (rf_bfd_lost f),
      ''- Found **'' @ int_str (rf_outages f) @ ''** declared shared-risk outage scenario in candidate `'' @ design @ ''`.'',
      [], ''## Evidence classification'', [], ''| Evidence | Classification | Meaning |'', ''|---|---|---|'',
      ''| Single-run OSPF/BFD comparison | Measured in containerlab | One controlled carrier-up blackhole observation per profile |'',
      ''| Repeated OSPF/BFD trials | Measured in containerlab | Distribution across '' @ int_str (rf_trials f) @
        '' sequential observations per profile |'',
      ''| SRLG audit | Modeled from declared failure domains | Deterministic reachability and path-cost calculation |'',
      []]"

definition provenance_lines :: "ReportFacts \<Rightarrow> (string \<times> string) list \<Rightarrow> string list" where
  "provenance_lines f named =
     [''## Provenance'', [], ''Configuration fingerprint: `'' @ rf_fingerprint f @ ''`'',
      ''Candidate topology fingerprint: `'' @ rf_topology_sha256 f @ ''`'', [],
      ''The hashes below are LF-normalized content-integrity digests, not signatures or proofs of authorship.'', [],
      ''| Input | SHA-256 |'', ''|---|---|''] @
     map (\<lambda>(name, sha). ''| '' @ name @ '' | `'' @ sha @ ''` |'') named @
     [[], ''Regenerate the report:'', [], ''```bash'', ''telconet-report --output docs/EXPERIMENT_REPORT.md'', ''```'', [],
      ''## Interpretation boundaries'', []]"

definition report_lines ::
  "ReportFacts \<Rightarrow> string \<Rightarrow> string list \<Rightarrow> string list \<Rightarrow> string list \<Rightarrow> (string \<times> string) list \<Rightarrow> string list \<Rightarrow> string list" where
  "report_lines f design detection single domains named limits =
     summary_lines f design @
     [''## Repeated detection experiment'', [], ''| Profile | p50 upper bound | p95 upper bound | Maximum upper bound |'',
      ''|---|---:|---:|---:|''] @ detection @
     [[], ''The 100 ms probe interval makes these values observation upper bounds, not protocol-internal processing times.'', [],
      ''## Single-run path transition'', [],
      ''| Profile | Detection upper bound | Lost packets before failover | OSPF metric |'', ''|---|---:|---:|---:|''] @ single @
     [[], ''Both runs started on metric `'' @ int_str (rf_baseline_metric f) @
        ''` and converged to the intended backup path at metric `'' @ int_str (rf_failover_metric f) @
        ''` after the same remote packet blackhole was injected.'', [],
      ''## Shared-risk audit'', [], ''| Failure domain | Type | Impact | Affected access nodes |'', ''|---|---|---|---|''] @ domains @
     [[], ''Passing link or node N-1 does not establish physical path independence. The `service-entry` result demonstrates the remaining common-risk boundary.'',
      []] @ provenance_lines f named @ map (\<lambda>l. ''- '' @ l) limits @
     [''- Results apply to this local lab topology and configuration; they are not a production SLA.'', []]"

text \<open>Everything that can still fail once the facts are read, in the order of the lines.\<close>

definition render_lines ::
  "ReportFacts \<Rightarrow> (string \<times> json) list \<Rightarrow> (string \<times> json) list \<Rightarrow> (string \<times> json) list \<Rightarrow>
   (string \<times> string \<times> string) list \<Rightarrow> string list result" where
  "render_lines f comparison repeated domains sources =
     rbind (markdown_text (JString (rf_design f)) ''design'') (\<lambda>design.
     rbind (traverse (detection_row repeated) profile_labels) (\<lambda>detection.
     rbind (traverse (single_run_row comparison) profile_labels) (\<lambda>single.
     rbind (failure_domain_rows domains) (\<lambda>domain_rows.
     rbind (traverse (\<lambda>(label_text, path, sha).
         rbind (html_code (JString (file_name path)) (label_text @ '' filename'')) (\<lambda>name. Inr (name, sha))) sources) (\<lambda>named.
     rbind (limitations comparison repeated) (\<lambda>limits.
       Inr (report_lines f design detection single domain_rows named limits)))))))"

definition render_report_from_paths ::
  "ReportInputs \<Rightarrow> string \<Rightarrow> string \<Rightarrow> string \<Rightarrow> string \<Rightarrow> string result" where
  "render_report_from_paths ri comparison_path repeated_path domains_path base =
     rbind (report_json_object ri comparison_path ''comparison'') (\<lambda>(comparison, comparison_sha).
     rbind (validate_experiment_evidence comparison) (\<lambda>_.
     rbind (report_json_object ri repeated_path ''repeated'') (\<lambda>(repeated, repeated_sha).
     rbind (validate_repeated_experiment_evidence repeated) (\<lambda>_.
     rbind (report_json_object ri domains_path ''failure-domain'') (\<lambda>(domains, domains_sha).
     rbind (validate_classification comparison repeated domains) (\<lambda>_.
     rbind (current_fingerprint ri comparison repeated base) (\<lambda>fingerprint.
     rbind (validate_measured_evidence ri comparison repeated base) (\<lambda>_.
     rbind (validate_failure_domain_evidence ri domains base) (\<lambda>_.
     rbind (report_facts comparison repeated domains fingerprint) (\<lambda>facts.
     rbind (render_lines facts comparison repeated domains
       [(''comparison'', comparison_path, comparison_sha), (''repeated'', repeated_path, repeated_sha),
        (''failure-domain'', domains_path, domains_sha)]) (\<lambda>lines.
       Inr (join [newline] lines))))))))))))"

text \<open>\<open>main\<close> without argument parsing: the report it writes to its output.\<close>

record OutputCheck =
  oc_resolve :: "string \<Rightarrow> string"
  oc_files_below :: "string \<Rightarrow> string list"

definition report_output_allowed :: "OutputCheck \<Rightarrow> string \<Rightarrow> string list \<Rightarrow> string \<Rightarrow> unit result" where
  "report_output_allowed oc output direct_inputs base =
     rbind (ensure (oc_resolve oc output \<notin> set (map (oc_resolve oc) direct_inputs))
       ''output must not overwrite an input evidence file'') (\<lambda>_.
       ensure (oc_resolve oc output \<notin> set (map (oc_resolve oc)
           (oc_files_below oc (under base ''evidence'') @ oc_files_below oc (under base ''lab''))))
         ''output must not overwrite a provenance input'')"

definition report_main :: "ReportInputs \<Rightarrow> OutputCheck \<Rightarrow> string \<Rightarrow> string \<Rightarrow> string \<Rightarrow> string \<Rightarrow> string \<Rightarrow> string result" where
  "report_main ri oc comparison_path repeated_path domains_path output project =
     (let base = oc_resolve oc project in
      rbind (report_output_allowed oc output [comparison_path, repeated_path, domains_path] base) (\<lambda>_.
        render_report_from_paths ri comparison_path repeated_path domains_path base))"

section \<open>Equal documents\<close>

lemma py_equal_refl: "unique_json v = Inr () \<Longrightarrow> py_equal v v"
proof (induction v rule: unique_json.induct)
  case (1 xs)
  then have "\<forall>x \<in> set xs. py_equal x x" by (simp add: each_eq_Inr)
  moreover have "(x, y) \<in> set (zip xs xs) \<Longrightarrow> x = y \<and> x \<in> set xs" for x y by (auto simp: set_zip)
  ultimately show ?case by (auto simp: list_all_iff)
next
  case (2 d)
  then have d: "distinct (dict_keys d)" "\<forall>(k, v) \<in> set d. py_equal v v"
    using unique_json_object [of d] by (auto simp: rbind_eq_Inr each_eq_Inr)
  then show ?case by (auto simp: list_all_iff)
qed auto

lemma py_equal_get:
  assumes "py_equal (JObject d) (JObject e)" "jget k d \<noteq> JNull"
  shows "py_equal (jget k d) (jget k e)"
proof -
  obtain v where v: "map_of d k = Some v" using assms(2) by (auto simp: jget_def split: option.splits)
  then have "(k, v) \<in> set d" by (rule map_of_SomeD)
  then show ?thesis using assms(1) v by (auto simp: list_all_iff jget_def split: option.splits)
qed

lemma py_equal_mapping: "py_equal (JObject d) w \<Longrightarrow> \<exists>e. w = JObject e"
  by (cases w) auto

lemma py_equal_values:
  "jint v = Some i \<Longrightarrow> py_equal v (JInt j) \<Longrightarrow> i = j"
  "jstring v = Some s \<Longrightarrow> py_equal v (JString t) \<Longrightarrow> s = t"
  "jnumber v = Some x \<Longrightarrow> jnumber w = Some y \<Longrightarrow> py_equal v w \<Longrightarrow> x = y"
  subgoal by (cases v) auto
  subgoal by (cases v) auto
  subgoal by (cases v; cases w) auto
  done

text \<open>Following one key on both sides.\<close>

lemma same_mapping:
  assumes "py_equal (JObject d) (JObject e)" "report_mapping (jget k d) l = Inr d'"
  shows "\<exists>e'. jget k e = JObject e' \<and> py_equal (JObject d') (JObject e')"
proof -
  have k: "jget k d = JObject d'" using assms(2) by (auto simp: report_mapping_def split: json.splits)
  then show ?thesis using py_equal_get [OF assms(1), of k] py_equal_mapping by fastforce
qed

lemma same_integer:
  assumes "py_equal (JObject d) (JObject e)" "report_integer (jget k d) l = Inr i" "jget k e = JInt j"
  shows "i = j"
proof -
  have v: "jint (jget k d) = Some i" using assms(2) by (auto simp: report_integer_def split: option.splits)
  then have "jget k d \<noteq> JNull" by auto
  with py_equal_get [OF assms(1)] v assms(3) show ?thesis using py_equal_values(1) by metis
qed

lemma same_text:
  assumes "py_equal (JObject d) (JObject e)" "report_text (jget k d) l = Inr s" "jget k e = JString t"
  shows "s = t"
proof -
  have v: "jstring (jget k d) = Some s" using assms(2) by (auto simp: report_text_def split: option.splits if_splits)
  then have "jget k d \<noteq> JNull" by auto
  with py_equal_get [OF assms(1)] v assms(3) show ?thesis using py_equal_values(2) by metis
qed

lemma same_rational:
  assumes "py_equal (JObject d) (JObject e)" "report_number (jget k d) l = Inr x" "jnumber (jget k e) = Some y"
  shows "x = y"
proof -
  have v: "jnumber (jget k d) = Some x" using assms(2) by (auto simp: report_number_def split: option.splits)
  then have "jget k d \<noteq> JNull" by auto
  with py_equal_get [OF assms(1)] v assms(3) show ?thesis using py_equal_values(3) by metis
qed

section \<open>What the builders publish\<close>

text \<open>The nearest-rank 95th percentiles of a profile's trials.\<close>

definition detection_p95 :: "ProfileSummary \<Rightarrow> rat" where
  "detection_p95 s = number_value (nearest_rank (map (\<lambda>t. NInt (trial_detection_ms t)) (ps_trials s)) (95 / 100))"

definition lost_packets_p95 :: "ProfileSummary \<Rightarrow> rat" where
  "lost_packets_p95 s = number_value (nearest_rank (map (\<lambda>t. NInt (trial_lost_packets t)) (ps_trials s)) (95 / 100))"

lemma summary_p95: "summary_of round2 vs = Inr s \<Longrightarrow> map_of s ''p95'' = Some (nearest_rank vs (95 / 100))"
  by (auto simp: summary_of_def split: if_splits)

lemma profile_summary_p95:
  assumes "profile_summary round2 p profile logs = Inr s"
  shows "summary_float ''p95'' (ps_detection_ms s) = Inr (detection_p95 s)"
    "\<exists>v. map_of (ps_lost_packets s) ''p95'' = Some v \<and> number_value v = lost_packets_p95 s"
    "length (ps_trials s) = length logs"
proof -
  from assms obtain sha trials where
    f: "fold_res (add_trial p profile) (None, []) (numbered_from_one logs) = Inr (sha, trials)"
    and d: "summary_of round2 (map (\<lambda>t. NInt (trial_detection_ms t)) trials) = Inr (ps_detection_ms s)"
      "summary_of round2 (map (\<lambda>t. NInt (trial_lost_packets t)) trials) = Inr (ps_lost_packets s)"
    and t: "ps_trials s = trials"
    by (auto simp: profile_summary_def rbind_eq_Inr)
  from summary_p95 [OF d(1)] show "summary_float ''p95'' (ps_detection_ms s) = Inr (detection_p95 s)"
    by (simp add: summary_float_def detection_p95_def t)
  from summary_p95 [OF d(2)] show "\<exists>v. map_of (ps_lost_packets s) ''p95'' = Some v \<and> number_value v = lost_packets_p95 s"
    by (simp add: lost_packets_p95_def t)
  show "length (ps_trials s) = length logs" using trials_numbered_length [OF fold_trials [OF f]] t by simp
qed

lemma repeated_Inr:
  assumes "build_repeated_evidence round2 p ospf_logs bfd_logs = Inr r"
  shows "\<exists>ospf bfd p50 p95. profile_summary round2 p ''ospf_only'' ospf_logs = Inr ospf \<and>
    profile_summary round2 p ''bfd_100x3'' bfd_logs = Inr bfd \<and> length ospf_logs = length bfd_logs \<and>
    20 \<le> length ospf_logs \<and> ps_configuration_sha256 ospf = ps_configuration_sha256 bfd \<and>
    reduction_percent round2 (detection_p95 ospf) (detection_p95 bfd) = Inr p95 \<and>
    r = repeated_document (int (length ospf_logs)) ospf bfd p50 p95"
proof -
  from assms obtain ospf bfd ospf_p95 bfd_p95 p50 p95 where
    s: "profile_summary round2 p ''ospf_only'' ospf_logs = Inr ospf" "profile_summary round2 p ''bfd_100x3'' bfd_logs = Inr bfd"
    and l: "length ospf_logs = length bfd_logs" "20 \<le> length ospf_logs"
      "ps_configuration_sha256 ospf = ps_configuration_sha256 bfd"
    and q: "summary_float ''p95'' (ps_detection_ms ospf) = Inr ospf_p95" "summary_float ''p95'' (ps_detection_ms bfd) = Inr bfd_p95"
    and d: "reduction_percent round2 ospf_p95 bfd_p95 = Inr p95" "r = repeated_document (int (length ospf_logs)) ospf bfd p50 p95"
    unfolding build_repeated_evidence_def rbind_eq_Inr ensure_simps by auto
  with profile_summary_p95(1) [OF s(1)] profile_summary_p95(1) [OF s(2)] show ?thesis by auto
qed

lemma repeated_gets:
  "jget ''trial_count_per_profile'' (repeated_document n ospf bfd p50 p95) = JInt n"
  "jget ''improvement'' (repeated_document n ospf bfd p50 p95) =
     JObject [(''p50_detection_reduction_percent'', JFloat p50), (''p95_detection_reduction_percent'', JFloat p95)]"
  "jget ''profiles'' (repeated_document n ospf bfd p50 p95) =
     JObject [(''ospf_only'', profile_json ospf), (''bfd_100x3'', profile_json bfd)]"
  by (simp_all add: repeated_document_def jget_def)

text \<open>The part of a failure-domain document below its top level.\<close>

definition domain_members :: "FailureDomainAudit \<Rightarrow> (string \<times> json) list" where
  "domain_members a = (case build_failure_domain_evidence a of JObject e \<Rightarrow> e | _ \<Rightarrow> [])"

lemma domain_evidence: "build_failure_domain_evidence a = JObject (domain_members a)"
  by (simp add: domain_members_def build_failure_domain_evidence_def)

lemma domain_gets:
  "jget ''design'' (domain_members a) = JString (fda_design a)"
  "jget ''topology_sha256'' (domain_members a) = JString (fda_topology_sha256 a)"
  "jget ''scenarios'' (domain_members a) = JArray (map domain_json (fda_scenarios a))"
  "jget ''summary'' (domain_members a) = JObject
     [(''total'', JInt (int (length (fda_scenarios a)))), (''outage'', JInt (int (domain_count a OUTAGE))),
      (''degraded'', JInt (int (domain_count a DEGRADED))), (''redundancy_reduced'', JInt (int (domain_count a REDUNDANCY_REDUCED)))]"
  by (simp_all add: domain_members_def build_failure_domain_evidence_def jget_def)

lemma report_facts_parts:
  assumes "report_facts comparison repeated domains fingerprint = Inr f"
  shows "\<exists>improvement ospf_lost bfd_lost summary.
    report_text (jget ''design'' domains) ''failure_domains.design'' = Inr (rf_design f) \<and>
    report_text (jget ''topology_sha256'' domains) ''failure_domains.topology_sha256'' = Inr (rf_topology_sha256 f) \<and>
    common_metrics comparison = Inr (rf_baseline_metric f, rf_failover_metric f) \<and>
    report_integer (jget ''trial_count_per_profile'' repeated) ''trial_count'' = Inr (rf_trials f) \<and>
    report_mapping (jget ''improvement'' repeated) ''repeated.improvement'' = Inr improvement \<and>
    report_number (jget ''p95_detection_reduction_percent'' improvement) ''p95_detection_reduction_percent'' =
      Inr (rf_p95_reduction f) \<and>
    lost_p95 repeated ''ospf_only'' = Inr ospf_lost \<and> lost_p95 repeated ''bfd_100x3'' = Inr bfd_lost \<and>
    report_number (jget ''p95'' ospf_lost) ''ospf lost p95'' = Inr (rf_ospf_lost f) \<and>
    report_number (jget ''p95'' bfd_lost) ''bfd lost p95'' = Inr (rf_bfd_lost f) \<and>
    report_mapping (jget ''summary'' domains) ''failure_domains.summary'' = Inr summary \<and>
    report_integer (jget ''outage'' summary) ''failure_domains.summary.outage'' = Inr (rf_outages f) \<and>
    rf_fingerprint f = fingerprint"
  using assms unfolding report_facts_def rbind_eq_Inr by (auto simp: rbind_eq_Inr)

lemma lost_p95_value:
  assumes "py_equal (JObject d) (JObject (repeated_document n ospf bfd p50 p95))"
    and "lost_p95 d profile = Inr lost" "report_number (jget ''p95'' lost) l = Inr x"
    and "profile = ''ospf_only'' \<and> s = ospf \<or> profile = ''bfd_100x3'' \<and> s = bfd"
    and "map_of (ps_lost_packets s) ''p95'' = Some v"
  shows "x = number_value v"
proof -
  obtain profiles entry where m: "report_mapping (jget ''profiles'' d) ''profiles'' = Inr profiles"
    "report_mapping (jget profile profiles) (''profiles.'' @ profile) = Inr entry"
    "report_mapping (jget ''lost_packets'' entry) (''repeated.'' @ profile @ ''.lost_packets'') = Inr lost"
    using assms(2) by (auto simp: lost_p95_def report_profile_def rbind_eq_Inr)
  from same_mapping [OF assms(1) m(1)]
  have p: "py_equal (JObject profiles) (JObject [(''ospf_only'', profile_json ospf), (''bfd_100x3'', profile_json bfd)])"
    by (auto simp: repeated_gets simp del: py_equal.simps)
  from same_mapping [OF this m(2)] obtain e where
    e: "jget profile [(''ospf_only'', profile_json ospf), (''bfd_100x3'', profile_json bfd)] = JObject e"
      "py_equal (JObject entry) (JObject e)" by blast
  then have "JObject e = profile_json s" using assms(4) by (auto simp: jget_def)
  then have "jget ''lost_packets'' e = summary_json (ps_lost_packets s)" by (simp add: profile_json_def jget_def)
  with same_mapping [OF e(2) m(3)] have
    "py_equal (JObject lost) (JObject (map (\<lambda>(k, v). (k, number_json v)) (ps_lost_packets s)))"
    by (auto simp: summary_json_def simp del: py_equal.simps)
  from same_rational [OF this assms(3)] assms(5) show ?thesis by (simp add: jget_def map_of_map)
qed

lemma comparison_Inr:
  assumes "build_comparison round2 p ospf_log bfd_log = Inr c"
  shows "\<exists>ospf bfd time lost. parse_detection_log p ospf_log = Inr ospf \<and> parse_detection_log p bfd_log = Inr bfd \<and>
    c = comparison_document ospf bfd time lost"
  using assms unfolding build_comparison_def rbind_eq_Inr by auto

lemma comparison_profiles:
  "jget ''profiles'' (comparison_document ospf bfd time lost) =
     JObject [(''ospf_only'', detection_json ospf), (''bfd_100x3'', detection_json bfd)]"
  by (simp add: comparison_document_def jget_def)

definition state_block :: "string \<Rightarrow> DetectionResult \<Rightarrow> StateBlock" where
  "state_block state d = (if state = ''baseline'' then dr_baseline d else dr_failover d)"

lemma state_metric_value:
  assumes "py_equal (JObject d) (JObject (comparison_document ospf bfd time lost))"
    and "state_metric d state profile = Inr m" "state = ''baseline'' \<or> state = ''failover''"
    and "profile = ''ospf_only'' \<and> r = ospf \<or> profile = ''bfd_100x3'' \<and> r = bfd"
  shows "block_metric (state_block state r) = Some m"
proof -
  obtain profiles entry block where m: "report_mapping (jget ''profiles'' d) ''profiles'' = Inr profiles"
    "report_mapping (jget profile profiles) (''profiles.'' @ profile) = Inr entry"
    "report_mapping (jget state entry) (''comparison.'' @ profile @ ''.'' @ state) = Inr block"
    and i: "report_integer (jget ''ospf_metric'' block) (''comparison.'' @ profile @ ''.'' @ state @ ''.ospf_metric'') = Inr m"
    using assms(2) by (auto simp: state_metric_def report_profile_def rbind_eq_Inr)
  from same_mapping [OF assms(1) m(1)]
  have p: "py_equal (JObject profiles) (JObject [(''ospf_only'', detection_json ospf), (''bfd_100x3'', detection_json bfd)])"
    by (auto simp: comparison_profiles simp del: py_equal.simps)
  from same_mapping [OF this m(2)] obtain e where
    e: "jget profile [(''ospf_only'', detection_json ospf), (''bfd_100x3'', detection_json bfd)] = JObject e"
      "py_equal (JObject entry) (JObject e)" by blast
  then have "JObject e = detection_json r" using assms(4) by (auto simp: jget_def)
  then have "jget state e = JObject (block_json (state_block state r))"
    using assms(3) by (auto simp: detection_json_def jget_def state_block_def)
  with same_mapping [OF e(2) m(3)] have b: "py_equal (JObject block) (JObject (block_json (state_block state r)))"
    by (auto simp del: py_equal.simps)
  have "jget ''ospf_metric'' block = JInt m"
    using i by (cases "jget ''ospf_metric'' block") (auto simp: report_integer_def)
  with py_equal_get [OF b, of "''ospf_metric''"] have "jget ''ospf_metric'' (block_json (state_block state r)) \<noteq> JNull"
    by auto
  then obtain n where n: "block_metric (state_block state r) = Some n"
    "jget ''ospf_metric'' (block_json (state_block state r)) = JInt n"
    by (cases "block_metric (state_block state r)") (auto simp: block_json_def jget_def)
  from same_integer [OF b i n(2)] n(1) show ?thesis by simp
qed

lemma common_metrics_parts:
  assumes "common_metrics comparison = Inr (b, f)" "profile \<in> set profile_names"
  shows "state_metric comparison ''baseline'' profile = Inr b" "state_metric comparison ''failover'' profile = Inr f"
proof -
  obtain bs fs where t: "list_all2 (\<lambda>p m. state_metric comparison ''baseline'' p = Inr m) profile_names bs"
    "list_all2 (\<lambda>p m. state_metric comparison ''failover'' p = Inr m) profile_names fs"
    and one: "length (remdups bs) = 1" "length (remdups fs) = 1" and hd: "b = hd bs" "f = hd fs"
    using assms(1) by (auto simp: common_metrics_def rbind_eq_Inr traverse_eq_Inr)
  have single: "m = hd ms" if len: "length (remdups ms) = 1" and mem: "m \<in> set ms" for m :: int and ms
  proof -
    obtain x where "remdups ms = [x]" using len by (cases "remdups ms") auto
    then have "set ms = {x}" by (metis empty_set list.simps(15) set_remdups)
    moreover from this have "hd ms \<in> set ms" by (intro hd_in_set) auto
    ultimately show ?thesis using mem by simp
  qed
  show "state_metric comparison ''baseline'' profile = Inr b"
    using list_all2_in_set1 [OF t(1) assms(2)] single [OF one(1)] hd(1) by auto
  show "state_metric comparison ''failover'' profile = Inr f"
    using list_all2_in_set1 [OF t(2) assms(2)] single [OF one(2)] hd(2) by auto
qed

text \<open>
  What the report must be recomputed from, said of the files alone: an archived log is a file of
  at most 5 MiB with its lines; a profile's trial logs are all the files listed for it, in the
  order of their paths, each under the label \<open>profile/name\<close>.
\<close>

definition archived_log :: "ReportInputs \<Rightarrow> string \<Rightarrow> string list \<Rightarrow> bool" where
  "archived_log ri path lines =
     (\<exists>content. ri_read ri path = Inr content \<and> length content \<le> max_input_bytes \<and> ri_lines ri content = Inr lines)"

definition archived_trials :: "ReportInputs \<Rightarrow> string \<Rightarrow> string \<Rightarrow> (string \<times> string list) list \<Rightarrow> bool" where
  "archived_trials ri directory profile logs =
     list_all2 (\<lambda>path log. fst log = profile @ ''/'' @ file_name path \<and> archived_log ri path (snd log))
       (sort (ri_glob ri (under directory (''repeated/'' @ profile)))) logs"

text \<open>The audit of the declared candidate design, said of the files of the lab.\<close>

definition declared_audit :: "ReportInputs \<Rightarrow> string \<Rightarrow> FailureDomainAudit \<Rightarrow> bool" where
  "declared_audit ri directory a =
     (\<exists>designs catalog design topology.
        rbind (ri_designs ri (under directory ''designs.yml'')) validate_catalog = Inr designs \<and>
        rbind (ri_domains ri (under directory ''failure-domains.yml'')) validate_failure_domains = Inr catalog \<and>
        map_of (catalog_designs designs) (fdc_design catalog) = Some design \<and> entry_role design = CANDIDATE \<and>
        load_topology (ri_intent ri) (under directory (entry_intent design)) = Inr topology \<and>
        topology_fingerprint (ri_sha256 ri) topology = fdc_topology_sha256 catalog \<and>
        audit_failure_domains (ri_sha256 ri) topology catalog = Inr a)"

lemma read_raw_log_Inr: "read_raw_log ri path = Inr (n, lines) \<Longrightarrow> archived_log ri path lines"
  by (auto simp: read_raw_log_def bounded_read_def archived_log_def Let_def rbind_eq_Inr)

lemma fold_named_logs:
  "fold_res (add_named_log ri profile) (n, logs) paths = Inr (m, logs') \<Longrightarrow>
   \<exists>new. logs' = logs @ new \<and>
     list_all2 (\<lambda>path log. fst log = profile @ ''/'' @ file_name path \<and> archived_log ri path (snd log)) paths new"
proof (induction paths arbitrary: n logs)
  case (Cons path paths)
  from Cons.prems obtain acc where acc: "add_named_log ri profile (n, logs) path = Inr acc"
    "fold_res (add_named_log ri profile) acc paths = Inr (m, logs')"
    by (auto simp: rbind_eq_Inr)
  then obtain k lines where r: "read_raw_log ri path = Inr (k, lines)"
    and a: "acc = (n + k, logs @ [(profile @ ''/'' @ file_name path, lines)])"
    by (auto simp: add_named_log_def rbind_eq_Inr)
  note rest = acc(2) [unfolded a]
  from Cons.IH [OF rest] read_raw_log_Inr [OF r] show ?case
    by (fastforce intro: exI [of _ "(profile @ ''/'' @ file_name path, lines) # _"])
qed simp

lemma named_logs_archived:
  assumes "trial_paths ri directory n profile = Inr paths" "named_logs ri profile paths k = Inr (m, logs)"
  shows "archived_trials ri directory profile logs" "length logs = nat n" "0 \<le> n"
proof -
  have p: "paths = sort (ri_glob ri (under directory (''repeated/'' @ profile)))" "int (length paths) = n"
    using assms(1) by (auto simp: trial_paths_def Let_def rbind_eq_Inr)
  from fold_named_logs [OF assms(2) [unfolded named_logs_def]] have
    l: "list_all2 (\<lambda>path log. fst log = profile @ ''/'' @ file_name path \<and> archived_log ri path (snd log)) paths logs"
    by simp
  then show "archived_trials ri directory profile logs" unfolding archived_trials_def p(1) .
  show "length logs = nat n" "0 \<le> n" using list_all2_lengthD [OF l] p(2) by auto
qed

lemma recompute_repeated_Inr:
  assumes "recompute_repeated ri directory n = Inr r"
  shows "\<exists>ospf_logs bfd_logs. build_repeated_evidence (ri_round2 ri) (ri_patterns ri) ospf_logs bfd_logs = Inr r \<and>
    archived_trials ri directory ''ospf_only'' ospf_logs \<and> archived_trials ri directory ''bfd_100x3'' bfd_logs"
proof -
  from assms obtain ospf_paths bfd_paths total ospf_logs m bfd_logs where
    "trial_paths ri directory n ''ospf_only'' = Inr ospf_paths" "trial_paths ri directory n ''bfd_100x3'' = Inr bfd_paths"
    "named_logs ri ''ospf_only'' ospf_paths 0 = Inr (total, ospf_logs)"
    "named_logs ri ''bfd_100x3'' bfd_paths total = Inr (m, bfd_logs)"
    "build_repeated_evidence (ri_round2 ri) (ri_patterns ri) ospf_logs bfd_logs = Inr r"
    unfolding recompute_repeated_def rbind_eq_Inr by (auto simp: rbind_eq_Inr split: prod.splits)
  with named_logs_archived(1) show ?thesis by blast
qed

lemma recompute_comparison_Inr:
  assumes "recompute_comparison ri directory = Inr c"
  shows "\<exists>ospf_log bfd_log. build_comparison (ri_round2 ri) (ri_patterns ri) ospf_log bfd_log = Inr c \<and>
    archived_log ri (under directory ''remote-blackhole-ospf.log'') ospf_log \<and>
    archived_log ri (under directory ''remote-blackhole-bfd.log'') bfd_log"
proof -
  from assms obtain n ospf_log m bfd_log where
    "read_raw_log ri (under directory ''remote-blackhole-ospf.log'') = Inr (n, ospf_log)"
    "read_raw_log ri (under directory ''remote-blackhole-bfd.log'') = Inr (m, bfd_log)"
    "build_comparison (ri_round2 ri) (ri_patterns ri) ospf_log bfd_log = Inr c"
    unfolding recompute_comparison_def rbind_eq_Inr by (auto simp: rbind_eq_Inr split: prod.splits)
  with read_raw_log_Inr show ?thesis by blast
qed

lemma recompute_domains_Inr:
  assumes "recompute_domains ri base = Inr a"
  shows "declared_audit ri (under base ''lab'') a"
proof -
  let ?lab = "under base ''lab''"
  note u = assms [unfolded recompute_domains_def Let_def]
  obtain designs where d1: "rbind (ri_designs ri (under ?lab ''designs.yml'')) validate_catalog = Inr designs"
    using u unfolding rbind_eq_Inr [of "rbind (ri_designs ri _) validate_catalog"] by blast
  note u' = u [unfolded d1 rbind_simps]
  obtain catalog where d2: "rbind (ri_domains ri (under ?lab ''failure-domains.yml'')) validate_failure_domains = Inr catalog"
    using u' unfolding rbind_eq_Inr [of "rbind (ri_domains ri _) validate_failure_domains"] by blast
  have v: "validate_failure_domain_design (ri_sha256 ri) (\<lambda>f. ri_intent ri (under ?lab f)) catalog designs = Inr ()"
    and rest: "(case map_of (catalog_designs designs) (fdc_design catalog) of
          None \<Rightarrow> Inl (KeyError (fdc_design catalog))
        | Some design \<Rightarrow>
            rbind (load_topology (ri_intent ri) (under ?lab (entry_intent design))) (\<lambda>topology.
              audit_failure_domains (ri_sha256 ri) topology catalog)) = Inr a"
    using u' [unfolded d2 rbind_simps]
    unfolding rbind_eq_Inr [of "validate_failure_domain_design (ri_sha256 ri) _ catalog designs"] by auto
  from v obtain design where m: "map_of (catalog_designs designs) (fdc_design catalog) = Some design"
    "entry_role design = CANDIDATE"
    by (auto simp: validate_failure_domain_design_def rbind_eq_Inr split: option.splits)
  from rest m(1) obtain topology where t: "load_topology (ri_intent ri) (under ?lab (entry_intent design)) = Inr topology"
    "audit_failure_domains (ri_sha256 ri) topology catalog = Inr a" by (auto simp: rbind_eq_Inr)
  then have "topology_fingerprint (ri_sha256 ri) topology = fdc_topology_sha256 catalog"
    by (auto simp: audit_failure_domains_def rbind_eq_Inr)
  with d1 d2 m t show ?thesis unfolding declared_audit_def by blast
qed

lemma render_report_parts:
  assumes "render_report_from_paths ri cp rp dp base = Inr text'"
  shows "\<exists>comparison repeated domains s1 s2 s3 fingerprint facts lines.
    report_json_object ri cp ''comparison'' = Inr (comparison, s1) \<and>
    report_json_object ri rp ''repeated'' = Inr (repeated, s2) \<and>
    report_json_object ri dp ''failure-domain'' = Inr (domains, s3) \<and>
    current_fingerprint ri comparison repeated base = Inr fingerprint \<and>
    validate_measured_evidence ri comparison repeated base = Inr () \<and>
    validate_failure_domain_evidence ri domains base = Inr () \<and>
    report_facts comparison repeated domains fingerprint = Inr facts \<and>
    render_lines facts comparison repeated domains
      [(''comparison'', cp, s1), (''repeated'', rp, s2), (''failure-domain'', dp, s3)] = Inr lines \<and>
    text' = join [newline] lines"
  using assms unfolding render_report_from_paths_def rbind_eq_Inr by (auto simp: rbind_eq_Inr split: prod.splits)

lemma render_lines_prefix:
  assumes "render_lines facts comparison repeated domains sources = Inr lines"
  shows "\<exists>rest. lines = summary_lines facts (markdown_escape (rf_design facts)) @ rest"
proof -
  from assms obtain design detection single rows named limits where
    "markdown_text (JString (rf_design facts)) ''design'' = Inr design"
    "lines = report_lines facts design detection single rows named limits"
    unfolding render_lines_def rbind_eq_Inr by auto
  moreover from this(1) have "design = markdown_escape (rf_design facts)"
    by (auto simp: markdown_text_def one_line_text_def report_text_def rbind_eq_Inr split: if_splits)
  ultimately show ?thesis by (simp add: report_lines_def)
qed

section \<open>Fresh evidence\<close>

text \<open>A text the report can show: not empty, on one line and not too long.\<close>

definition printable :: "string \<Rightarrow> bool" where
  "printable s = (s \<noteq> [] \<and> text_length s \<le> max_text_length \<and> newline \<notin> set s \<and> CHR 0x0D \<notin> set s)"

lemma text_length_le: "text_length s \<le> length s"
  by (simp add: text_length_def)

lemma short_printable: "length s \<le> max_text_length \<Longrightarrow> printable s \<longleftrightarrow> s \<noteq> [] \<and> newline \<notin> set s \<and> CHR 0x0D \<notin> set s"
  using text_length_le [of s] by (auto simp: printable_def)

lemma markdown_printable: "printable s \<Longrightarrow> markdown_text (JString s) l = Inr (markdown_escape s)"
  by (simp add: printable_def markdown_text_def one_line_text_def report_text_def)

lemma html_printable: "printable s \<Longrightarrow> \<exists>t. html_code (JString s) l = Inr t"
  by (simp add: printable_def html_code_def one_line_text_def report_text_def)

lemma fold_succeeds: "(\<And>s x. x \<in> set xs \<Longrightarrow> \<exists>t. f s x = Inr t) \<Longrightarrow> \<exists>t. fold_res f s xs = Inr t"
proof (induction xs arbitrary: s)
  case (Cons x xs)
  obtain t where "f s x = Inr t" using Cons.prems by fastforce
  moreover obtain u where "fold_res f t xs = Inr u" using Cons by fastforce
  ultimately show ?case by simp
qed simp

lemma summary_stat: "summary_of round2 vs = Inr s \<Longrightarrow> stat \<in> set stat_names \<Longrightarrow> \<exists>v. map_of s stat = Some v"
  by (auto simp: summary_of_def stat_names_def split: if_splits)

lemma profile_stat:
  assumes "profile_summary round2 p profile logs = Inr s" "stat \<in> set stat_names"
  shows "\<exists>v. map_of (ps_detection_ms s) stat = Some v"
  using assms(1) summary_stat [OF _ assms(2)] by (auto simp: profile_summary_def rbind_eq_Inr)

lemma detection_row_total:
  assumes "profile_summary round2 p profile logs = Inr s" "report_profile r profile = Inr d" "JObject d = profile_json s"
  shows "\<exists>row. detection_row r (profile, l) = Inr row"
proof -
  have j: "jget ''detection_ms'' d = summary_json (ps_detection_ms s)" using assms(3) by (simp add: profile_json_def jget_def)
  have "\<exists>t. format_number (jget stat (map (\<lambda>(k, v). (k, number_json v)) (ps_detection_ms s))) m = Inr t"
    if "stat \<in> set stat_names" for stat m
    using profile_stat [OF assms(1) that] by (auto simp: jget_def map_of_map format_number_def report_number_def)
  then have "\<exists>ts. traverse (\<lambda>stat. format_number (jget stat (map (\<lambda>(k, v). (k, number_json v)) (ps_detection_ms s)))
      (profile @ ''.'' @ stat)) stat_names = Inr ts" by (intro traverse_succeeds) blast
  then show ?thesis
    using assms(2) j by (auto simp: detection_row_def summary_json_def report_mapping_def stat_names_def [symmetric])
qed

lemma single_run_row_total:
  assumes "report_profile c profile = Inr d" "JObject d = detection_json r"
    and "block_metric (dr_baseline r) = Some m" "block_metric (dr_failover r) = Some n"
  shows "\<exists>row. single_run_row c (profile, l) = Inr row"
proof -
  have j: "jget ''baseline'' d = JObject (block_json (dr_baseline r))" "jget ''failover'' d = JObject (block_json (dr_failover r))"
    "jget ''observed_detection_upper_bound_ms'' d = JInt (dr_upper_bound_ms r)"
    "jget ''packets_lost_until_failover'' d = JInt (dr_lost_packets r)"
    using assms(2) by (simp_all add: detection_json_def jget_def)
  have m: "jget ''ospf_metric'' (block_json (dr_baseline r)) = JInt m" "jget ''ospf_metric'' (block_json (dr_failover r)) = JInt n"
    using assms(3,4) by (simp_all add: block_json_def jget_def)
  show ?thesis
    by (simp add: single_run_row_def assms(1) j m report_mapping_def report_integer_def format_number_def report_number_def)
qed

lemma domain_row_total:
  assumes "printable (fds_domain_id s)" "list_all printable (fds_affected_nodes s)"
  shows "\<exists>row. failure_domain_row (i, domain_json s) = Inr row"
proof -
  have p: "printable (domain_type_value k)" "printable (impact_value v)" for k v
    by (cases k; simp add: short_printable max_text_length_def newline_def; fail)
       (cases v; simp add: short_printable max_text_length_def newline_def)
  have l: "\<exists>t. format_list (jstrings xs) m = Inr t" if "list_all printable xs" for xs m
  proof -
    have "\<exists>ts. traverse (\<lambda>item. markdown_text item (m @ '' item'')) (map JString xs) = Inr ts"
      by (rule traverse_succeeds) (use that markdown_printable in \<open>auto simp: list_all_iff\<close>)
    then show ?thesis by (auto simp: format_list_def report_sequence_def jstrings_def)
  qed
  obtain t where "format_list (jstrings (fds_affected_nodes s)) ''affected_nodes'' = Inr t" using l [OF assms(2)] by blast
  then show ?thesis
    using assms(1) p markdown_printable
    by (simp add: failure_domain_row_def report_mapping_def domain_json_def jget_def)
qed

lemma limitations_total:
  assumes "\<And>e. e = c \<or> e = r \<Longrightarrow> \<exists>xs. jget ''limitations'' e = jstrings xs \<and> list_all printable xs \<and> length xs \<le> max_limitations"
  shows "\<exists>ls. limitations c r = Inr ls"
proof -
  have "\<exists>t. evidence_limitations s (l, e) = Inr t" if e: "e = c \<or> e = r" for s l e
  proof -
    obtain xs where xs: "jget ''limitations'' e = jstrings xs" "list_all printable xs" "length xs \<le> max_limitations"
      using assms [OF e] by blast
    have "\<exists>t. fold_res (add_limitation l) s (map JString xs) = Inr t"
    proof (rule fold_succeeds)
      fix u x assume "x \<in> set (map JString xs)"
      then obtain z where "x = JString z" "printable z" using xs(2) by (auto simp: list_all_iff)
      then show "\<exists>t. add_limitation l u x = Inr t"
        unfolding add_limitation_def by (simp only: markdown_printable rbind_simps Let_def) blast
    qed
    then show ?thesis
      unfolding evidence_limitations_def split_conv xs(1) jstrings_def report_sequence_def json.case rbind_simps
      by (simp add: xs(3))
  qed
  note each_one = this
  have "\<exists>t. fold_res evidence_limitations [] [(''comparison'', c), (''repeated'', r)] = Inr t"
  proof (rule fold_succeeds)
    fix s x assume "x \<in> set [(''comparison'', c), (''repeated'', r)]"
    then obtain l e where "x = (l, e)" "e = c \<or> e = r" by auto
    with each_one [of e s l] show "\<exists>t. evidence_limitations s x = Inr t" by blast
  qed
  then obtain t where "fold_res evidence_limitations [] [(''comparison'', c), (''repeated'', r)] = Inr t" ..
  then show ?thesis by (simp only: limitations_def rbind_simps) blast
qed

lemma comparison_gets:
  "jget ''measured'' (comparison_document ospf bfd time lost) = JBool True"
  "jget ''source'' (comparison_document ospf bfd time lost) = JString ''containerlab_observation''"
  "jget ''scenario'' (comparison_document ospf bfd time lost) = JString ''remote_access_uplink_blackhole''"
  "jget ''limitations'' (comparison_document ospf bfd time lost) = jstrings
     [''The fault is emulated with tc netem in local Linux namespaces.'',
      ''Event markers precede tc commands, so observed bounds include command overhead.'',
      ''Results are a controlled comparison and are not production-network SLOs.'']"
  by (simp_all add: comparison_document_def jget_def)

lemma repeated_more:
  "jget ''measured'' (repeated_document n ospf bfd p50 p95) = JBool True"
  "jget ''source'' (repeated_document n ospf bfd p50 p95) = JString ''containerlab_repeated_observation''"
  "jget ''scenario'' (repeated_document n ospf bfd p50 p95) = JString ''remote_access_uplink_blackhole_repeated''"
  "jget ''environment'' (repeated_document n ospf bfd p50 p95) =
     JObject [(''configuration_sha256'', sha_json (ps_configuration_sha256 ospf))]"
  "jget ''limitations'' (repeated_document n ospf bfd p50 p95) = jstrings
     [''Trials run sequentially in one local containerlab deployment.'',
      ''The 100 ms probe interval makes detection values upper bounds.'',
      ''Results are controlled local observations, not production-network SLOs.'']"
  by (simp_all add: repeated_document_def jget_def)

lemma domain_more:
  "jget ''measured'' (domain_members a) = JBool False"
  "jget ''source'' (domain_members a) = JString ''deterministic_graph_analysis''"
  by (simp_all add: domain_members_def build_failure_domain_evidence_def jget_def)

lemma profile_of:
  assumes "jget ''profiles'' d = JObject [(''ospf_only'', JObject x), (''bfd_100x3'', JObject y)]"
  shows "report_profile d ''ospf_only'' = Inr x" "report_profile d ''bfd_100x3'' = Inr y"
  using assms by (simp_all add: report_profile_def report_mapping_def jget_def [of _ "[_, _]"])

lemma profile_json_object: "\<exists>d. profile_json s = JObject d"
  by (simp add: profile_json_def)

lemma detection_json_object: "\<exists>d. detection_json r = JObject d"
  by (simp add: detection_json_def)

text \<open>What makes the freshly recomputed documents a report.\<close>

definition reportable :: "DetectionResult \<Rightarrow> DetectionResult \<Rightarrow> string \<Rightarrow> int \<Rightarrow> int \<Rightarrow> bool" where
  "reportable ospf_run bfd_run h m n =
     (is_sha256 h \<and> dr_configuration_sha256 ospf_run = h \<and> dr_configuration_sha256 bfd_run = h \<and>
      block_metric (dr_baseline ospf_run) = Some m \<and> block_metric (dr_baseline bfd_run) = Some m \<and>
      block_metric (dr_failover ospf_run) = Some n \<and> block_metric (dr_failover bfd_run) = Some n)"

definition domains_printable :: "FailureDomainAudit \<Rightarrow> bool" where
  "domains_printable a =
     (printable (fda_design a) \<and> fda_topology_sha256 a \<noteq> [] \<and>
      (\<forall>s \<in> set (fda_scenarios a). printable (fds_domain_id s) \<and> list_all printable (fds_affected_nodes s)))"

lemma sha_not_empty: "is_sha256 h \<Longrightarrow> h \<noteq> []"
  by (auto simp: is_sha256_def hex_of_length_def)

lemma fingerprint_fresh:
  assumes "reportable ospf_run bfd_run h m n" "configuration_fingerprint (ri_sha256 ri) (ri_read ri) base = Inr h"
    and "ps_configuration_sha256 ospf = Some h" "ps_configuration_sha256 bfd = Some h"
  shows "current_fingerprint ri (comparison_document ospf_run bfd_run time lost) (repeated_document k ospf bfd p50 p95) base = Inr h"
proof -
  let ?c = "comparison_document ospf_run bfd_run time lost" and ?r = "repeated_document k ospf bfd p50 p95"
  note ok = assms(1) [unfolded reportable_def]
  have t: "report_text (JString h) l = Inr h" for l using sha_not_empty ok by (simp add: report_text_def)
  obtain x y where xy: "detection_json ospf_run = JObject x" "detection_json bfd_run = JObject y"
    using detection_json_object by blast
  then have "jget ''configuration_sha256'' x = JString h" "jget ''configuration_sha256'' y = JString h"
    using ok by (auto simp: detection_json_def jget_def)
  moreover note profile_of [OF comparison_profiles [of ospf_run bfd_run time lost, unfolded xy]]
  ultimately have c: "traverse (profile_fingerprint ''comparison'' ?c) profile_names = Inr [h, h]"
    by (simp add: profile_names_def profile_fingerprint_def t)
  obtain u v where uv: "profile_json ospf = JObject u" "profile_json bfd = JObject v" using profile_json_object by blast
  then have "jget ''configuration_sha256'' u = JString h" "jget ''configuration_sha256'' v = JString h"
    using assms(3,4) by (auto simp: profile_json_def jget_def sha_json_def)
  moreover note profile_of [OF repeated_gets(3) [of k ospf bfd p50 p95, unfolded uv]]
  ultimately have r: "traverse (profile_fingerprint ''repeated'' ?r) profile_names = Inr [h, h]"
    by (simp add: profile_names_def profile_fingerprint_def t)
  show ?thesis
    using ok assms(2,3)
    by (simp add: current_fingerprint_def c r repeated_more report_mapping_def sha_json_def t Let_def jget_def [of _ "[_]"])
qed

lemma facts_fresh:
  assumes "reportable ospf_run bfd_run h m n" "domains_printable a"
    and "profile_summary round2 p ''ospf_only'' ospf_logs = Inr ospf" "profile_summary round2 p ''bfd_100x3'' bfd_logs = Inr bfd"
  shows "\<exists>f. report_facts (comparison_document ospf_run bfd_run time lost) (repeated_document k ospf bfd p50 p95)
      (domain_members a) h = Inr f \<and> rf_design f = fda_design a"
proof -
  let ?c = "comparison_document ospf_run bfd_run time lost" and ?r = "repeated_document k ospf bfd p50 p95"
  note ok = assms(1) [unfolded reportable_def]
  obtain x y where xy: "detection_json ospf_run = JObject x" "detection_json bfd_run = JObject y"
    using detection_json_object by blast
  then have b: "jget ''baseline'' x = JObject (block_json (dr_baseline ospf_run))" "jget ''failover'' x = JObject (block_json (dr_failover ospf_run))"
    "jget ''baseline'' y = JObject (block_json (dr_baseline bfd_run))" "jget ''failover'' y = JObject (block_json (dr_failover bfd_run))"
    by (auto simp: detection_json_def jget_def)
  note pc = profile_of [OF comparison_profiles [of ospf_run bfd_run time lost, unfolded xy]]
  have metric: "jget ''ospf_metric'' (block_json s) = JInt i" if "block_metric s = Some i" for s i
    using that by (simp add: block_json_def jget_def)
  have metrics: "common_metrics ?c = Inr (m, n)"
    using ok b metric pc
    by (simp add: common_metrics_def state_metric_def profile_names_def report_mapping_def report_integer_def)
  obtain u v where uv: "profile_json ospf = JObject u" "profile_json bfd = JObject v" using profile_json_object by blast
  note pr = profile_of [OF repeated_gets(3) [of k ospf bfd p50 p95, unfolded uv]]
  have l: "jget ''lost_packets'' u = summary_json (ps_lost_packets ospf)" "jget ''lost_packets'' v = summary_json (ps_lost_packets bfd)"
    using uv by (auto simp: profile_json_def jget_def)
  obtain i j where ij: "map_of (ps_lost_packets ospf) ''p95'' = Some i" "map_of (ps_lost_packets bfd) ''p95'' = Some j"
    using profile_summary_p95(2) [OF assms(3)] profile_summary_p95(2) [OF assms(4)] by blast
  have lost: "lost_p95 ?r ''ospf_only'' = Inr (map (\<lambda>(k, v). (k, number_json v)) (ps_lost_packets ospf))"
    "lost_p95 ?r ''bfd_100x3'' = Inr (map (\<lambda>(k, v). (k, number_json v)) (ps_lost_packets bfd))"
    by (simp_all add: lost_p95_def pr l summary_json_def report_mapping_def)
  have p95: "report_number (jget ''p95'' (map (\<lambda>(k, v). (k, number_json v)) (ps_lost_packets ospf))) l = Inr (number_value i)"
    "report_number (jget ''p95'' (map (\<lambda>(k, v). (k, number_json v)) (ps_lost_packets bfd))) l = Inr (number_value j)" for l
    using ij by (simp_all add: report_number_def jget_def map_of_map)
  have "fda_design a \<noteq> []" "fda_topology_sha256 a \<noteq> []" using assms(2) by (simp_all add: domains_printable_def printable_def)
  then show ?thesis
    by (simp add: report_facts_def domain_gets repeated_gets report_text_def report_integer_def report_mapping_def
      report_number_def [of "JFloat _"] lost p95 metrics jget_def [of _ "[_, _]"] jget_def [of _ "[_, _, _, _]"])
qed

lemma printable_limitations:
  "list_all printable [''The fault is emulated with tc netem in local Linux namespaces.'',
     ''Event markers precede tc commands, so observed bounds include command overhead.'',
     ''Results are a controlled comparison and are not production-network SLOs.'',
     ''Trials run sequentially in one local containerlab deployment.'',
     ''The 100 ms probe interval makes detection values upper bounds.'',
     ''Results are controlled local observations, not production-network SLOs.'']"
  by (simp add: short_printable max_text_length_def newline_def)

lemma lines_fresh:
  assumes "reportable ospf_run bfd_run h m n" "domains_printable a" "rf_design f = fda_design a"
    and "profile_summary round2 p ''ospf_only'' ospf_logs = Inr ospf" "profile_summary round2 p ''bfd_100x3'' bfd_logs = Inr bfd"
    and "\<forall>(l, path, sha) \<in> set sources. printable (file_name path)"
  shows "\<exists>lines. render_lines f (comparison_document ospf_run bfd_run time lost) (repeated_document k ospf bfd p50 p95)
    (domain_members a) sources = Inr lines"
proof -
  let ?c = "comparison_document ospf_run bfd_run time lost" and ?r = "repeated_document k ospf bfd p50 p95"
  note ok = assms(1) [unfolded reportable_def] and dp = assms(2) [unfolded domains_printable_def]
  obtain x y where xy: "detection_json ospf_run = JObject x" "detection_json bfd_run = JObject y"
    using detection_json_object by blast
  note pc = profile_of [OF comparison_profiles [of ospf_run bfd_run time lost, unfolded xy]]
  obtain u v where uv: "profile_json ospf = JObject u" "profile_json bfd = JObject v" using profile_json_object by blast
  note pr = profile_of [OF repeated_gets(3) [of k ospf bfd p50 p95, unfolded uv]]
  obtain ds where ds: "traverse (detection_row ?r) profile_labels = Inr ds"
  proof -
    have "\<exists>ds. traverse (detection_row ?r) profile_labels = Inr ds"
      by (rule traverse_succeeds)
        (use detection_row_total [OF assms(4) pr(1) uv(1) [symmetric]] detection_row_total [OF assms(5) pr(2) uv(2) [symmetric]]
         in \<open>auto simp: profile_labels_def\<close>)
    then show ?thesis using that by blast
  qed
  obtain ss where ss: "traverse (single_run_row ?c) profile_labels = Inr ss"
  proof -
    have "\<exists>ds. traverse (single_run_row ?c) profile_labels = Inr ds"
      by (rule traverse_succeeds)
        (use single_run_row_total [OF pc(1) xy(1) [symmetric]] single_run_row_total [OF pc(2) xy(2) [symmetric]] ok
         in \<open>auto simp: profile_labels_def\<close>)
    then show ?thesis using that by blast
  qed
  obtain rows where rows: "failure_domain_rows (domain_members a) = Inr rows"
  proof -
    have "\<exists>ds. traverse failure_domain_row (zip [0..<length (map domain_json (fda_scenarios a))] (map domain_json (fda_scenarios a))) = Inr ds"
    proof (rule traverse_succeeds)
      fix z assume "z \<in> set (zip [0..<length (map domain_json (fda_scenarios a))] (map domain_json (fda_scenarios a)))"
      then obtain i s where "z = (i, domain_json s)" "s \<in> set (fda_scenarios a)"
        by (metis (no_types, lifting) imageE list.set_map old.prod.exhaust set_zip_rightD)
      then show "\<exists>y. failure_domain_row z = Inr y" using domain_row_total dp by blast
    qed
    then show ?thesis using that by (auto simp: failure_domain_rows_def domain_gets report_sequence_def)
  qed
  obtain named where named: "traverse (\<lambda>(label_text, path, sha).
      rbind (html_code (JString (file_name path)) (label_text @ '' filename'')) (\<lambda>name. Inr (name, sha))) sources = Inr named"
  proof -
    have "\<exists>ns. traverse (\<lambda>(label_text, path, sha).
      rbind (html_code (JString (file_name path)) (label_text @ '' filename'')) (\<lambda>name. Inr (name, sha))) sources = Inr ns"
    proof (rule traverse_succeeds)
      fix z assume "z \<in> set sources"
      then obtain l path sha where z: "z = (l, path, sha)" "printable (file_name path)" using assms(6) by (cases z) auto
      then obtain t where "html_code (JString (file_name path)) (l @ '' filename'') = Inr t" using html_printable by blast
      with z(1) show "\<exists>y. (\<lambda>(label_text, path, sha). rbind (html_code (JString (file_name path)) (label_text @ '' filename''))
          (\<lambda>name. Inr (name, sha))) z = Inr y" by simp
    qed
    then show ?thesis using that by blast
  qed
  obtain ls where ls: "limitations ?c ?r = Inr ls"
  proof -
    have "\<exists>ls. limitations ?c ?r = Inr ls"
    proof (rule limitations_total)
      fix e assume "e = ?c \<or> e = ?r"
      then show "\<exists>xs. jget ''limitations'' e = jstrings xs \<and> list_all printable xs \<and> length xs \<le> max_limitations"
      proof
        assume "e = ?c"
        then show ?thesis using comparison_gets(4) [of ospf_run bfd_run time lost] printable_limitations
          by (intro exI conjI) (assumption | simp add: max_limitations_def)+
      next
        assume "e = ?r"
        then show ?thesis using repeated_more(5) [of k ospf bfd p50 p95] printable_limitations
          by (intro exI conjI) (assumption | simp add: max_limitations_def)+
      qed
    qed
    then show ?thesis using that by blast
  qed
  have d: "markdown_text (JString (rf_design f)) ''design'' = Inr (markdown_escape (rf_design f))"
    using markdown_printable dp assms(3) by simp
  show ?thesis by (simp only: render_lines_def d ds ss rows named ls rbind_simps) blast
qed

section \<open>Properties\<close>

text \<open>
  C37: No number of a report is taken on trust. When a report is rendered from three documents,
  its lines are those of these documents, and each document equals what the files beside it
  give: the comparison, what is built from the two archived raw logs; the repeated trials, what
  is built from all the raw logs listed for each profile, in the order of their paths; the
  failure domains, the audit of the candidate design that the lab's catalogs declare. So the
  facts of the summary are recomputed ones: the number of trials is the number of raw logs, the
  p95 reduction is that of the nearest-rank percentiles of the parsed trials, so are the lost
  packets; the metrics are those both parsed logs show before and after the fault; the outages
  are those of the audit; and the fingerprint is that of the current configuration.
\<close>

theorem report_recomputed:
  assumes "render_report_from_paths ri cp rp dp base = Inr text'"
  shows "\<exists>comparison repeated domains s1 s2 s3 f lines rest. \<exists>c r a ospf bfd ospf_logs bfd_logs ospf_run bfd_run ospf_log bfd_log.
    report_json_object ri cp ''comparison'' = Inr (comparison, s1) \<and>
    report_json_object ri rp ''repeated'' = Inr (repeated, s2) \<and>
    report_json_object ri dp ''failure-domain'' = Inr (domains, s3) \<and>
    render_lines f comparison repeated domains
      [(''comparison'', cp, s1), (''repeated'', rp, s2), (''failure-domain'', dp, s3)] = Inr lines \<and>
    text' = join [newline] lines \<and> lines = summary_lines f (markdown_escape (rf_design f)) @ rest \<and>
    archived_log ri (under (under base ''evidence'') ''remote-blackhole-ospf.log'') ospf_log \<and>
    archived_log ri (under (under base ''evidence'') ''remote-blackhole-bfd.log'') bfd_log \<and>
    build_comparison (ri_round2 ri) (ri_patterns ri) ospf_log bfd_log = Inr c \<and>
    py_equal (JObject comparison) (JObject c) \<and>
    archived_trials ri (under base ''evidence'') ''ospf_only'' ospf_logs \<and>
    archived_trials ri (under base ''evidence'') ''bfd_100x3'' bfd_logs \<and>
    build_repeated_evidence (ri_round2 ri) (ri_patterns ri) ospf_logs bfd_logs = Inr r \<and>
    py_equal (JObject repeated) (JObject r) \<and>
    declared_audit ri (under base ''lab'') a \<and> py_equal (JObject domains) (build_failure_domain_evidence a) \<and>
    configuration_fingerprint (ri_sha256 ri) (ri_read ri) base = Inr (rf_fingerprint f) \<and>
    profile_summary (ri_round2 ri) (ri_patterns ri) ''ospf_only'' ospf_logs = Inr ospf \<and>
    profile_summary (ri_round2 ri) (ri_patterns ri) ''bfd_100x3'' bfd_logs = Inr bfd \<and>
    rf_trials f = int (length ospf_logs) \<and> 20 \<le> rf_trials f \<and> length bfd_logs = length ospf_logs \<and>
    reduction_percent (ri_round2 ri) (detection_p95 ospf) (detection_p95 bfd) = Inr (rf_p95_reduction f) \<and>
    rf_ospf_lost f = lost_packets_p95 ospf \<and> rf_bfd_lost f = lost_packets_p95 bfd \<and>
    parse_detection_log (ri_patterns ri) ospf_log = Inr ospf_run \<and>
    parse_detection_log (ri_patterns ri) bfd_log = Inr bfd_run \<and>
    block_metric (dr_baseline ospf_run) = Some (rf_baseline_metric f) \<and>
    block_metric (dr_baseline bfd_run) = Some (rf_baseline_metric f) \<and>
    block_metric (dr_failover ospf_run) = Some (rf_failover_metric f) \<and>
    block_metric (dr_failover bfd_run) = Some (rf_failover_metric f) \<and>
    rf_outages f = int (domain_count a OUTAGE) \<and>
    rf_design f = fda_design a \<and> rf_topology_sha256 f = fda_topology_sha256 a"
proof -
  obtain comparison repeated domains s1 s2 s3 fingerprint f lines where
    docs: "report_json_object ri cp ''comparison'' = Inr (comparison, s1)"
      "report_json_object ri rp ''repeated'' = Inr (repeated, s2)"
      "report_json_object ri dp ''failure-domain'' = Inr (domains, s3)"
    and fp: "current_fingerprint ri comparison repeated base = Inr fingerprint"
    and me: "validate_measured_evidence ri comparison repeated base = Inr ()"
    and dom: "validate_failure_domain_evidence ri domains base = Inr ()"
    and f: "report_facts comparison repeated domains fingerprint = Inr f"
    and l: "render_lines f comparison repeated domains
      [(''comparison'', cp, s1), (''repeated'', rp, s2), (''failure-domain'', dp, s3)] = Inr lines" and t: "text' = join [newline] lines"
    using render_report_parts [OF assms] by blast
  obtain c r n where c: "recompute_comparison ri (under base ''evidence'') = Inr c" "py_equal (JObject comparison) (JObject c)"
    and r: "recompute_repeated ri (under base ''evidence'') n = Inr r" "py_equal (JObject repeated) (JObject r)"
    using me unfolding validate_measured_evidence_def rbind_eq_Inr ensure_simps by blast
  obtain a where a: "recompute_domains ri base = Inr a" "py_equal (JObject domains) (JObject (domain_members a))"
    using dom unfolding validate_failure_domain_evidence_def rbind_eq_Inr ensure_simps domain_evidence by blast
  obtain ospf_log bfd_log where cb: "build_comparison (ri_round2 ri) (ri_patterns ri) ospf_log bfd_log = Inr c"
      "archived_log ri (under (under base ''evidence'') ''remote-blackhole-ospf.log'') ospf_log"
      "archived_log ri (under (under base ''evidence'') ''remote-blackhole-bfd.log'') bfd_log"
    using recompute_comparison_Inr [OF c(1)] by blast
  from comparison_Inr [OF cb(1)] obtain ospf_run bfd_run time lost where
    runs: "parse_detection_log (ri_patterns ri) ospf_log = Inr ospf_run" "parse_detection_log (ri_patterns ri) bfd_log = Inr bfd_run"
    and cd: "c = comparison_document ospf_run bfd_run time lost" by blast
  obtain ospf_logs bfd_logs where rb: "build_repeated_evidence (ri_round2 ri) (ri_patterns ri) ospf_logs bfd_logs = Inr r"
      "archived_trials ri (under base ''evidence'') ''ospf_only'' ospf_logs"
      "archived_trials ri (under base ''evidence'') ''bfd_100x3'' bfd_logs"
    using recompute_repeated_Inr [OF r(1)] by blast
  from repeated_Inr [OF rb(1)] obtain ospf bfd p50 p95 where
    s: "profile_summary (ri_round2 ri) (ri_patterns ri) ''ospf_only'' ospf_logs = Inr ospf"
      "profile_summary (ri_round2 ri) (ri_patterns ri) ''bfd_100x3'' bfd_logs = Inr bfd"
      "length ospf_logs = length bfd_logs" "20 \<le> length ospf_logs"
      "reduction_percent (ri_round2 ri) (detection_p95 ospf) (detection_p95 bfd) = Inr p95"
    and rd: "r = repeated_document (int (length ospf_logs)) ospf bfd p50 p95" by blast
  note rq = r(2) [unfolded rd] and cq = c(2) [unfolded cd]
  from report_facts_parts [OF f] obtain improvement lo lb summary where
    p: "report_text (jget ''design'' domains) ''failure_domains.design'' = Inr (rf_design f)"
      "report_text (jget ''topology_sha256'' domains) ''failure_domains.topology_sha256'' = Inr (rf_topology_sha256 f)"
      "common_metrics comparison = Inr (rf_baseline_metric f, rf_failover_metric f)"
      "report_integer (jget ''trial_count_per_profile'' repeated) ''trial_count'' = Inr (rf_trials f)"
      "report_mapping (jget ''improvement'' repeated) ''repeated.improvement'' = Inr improvement"
      "report_number (jget ''p95_detection_reduction_percent'' improvement) ''p95_detection_reduction_percent'' =
        Inr (rf_p95_reduction f)"
      "lost_p95 repeated ''ospf_only'' = Inr lo" "lost_p95 repeated ''bfd_100x3'' = Inr lb"
      "report_number (jget ''p95'' lo) ''ospf lost p95'' = Inr (rf_ospf_lost f)"
      "report_number (jget ''p95'' lb) ''bfd lost p95'' = Inr (rf_bfd_lost f)"
      "report_mapping (jget ''summary'' domains) ''failure_domains.summary'' = Inr summary"
      "report_integer (jget ''outage'' summary) ''failure_domains.summary.outage'' = Inr (rf_outages f)"
      "rf_fingerprint f = fingerprint" by blast
  have trials: "rf_trials f = int (length ospf_logs)" using same_integer [OF rq p(4)] repeated_gets(1) by blast
  have reduction: "rf_p95_reduction f = p95"
    using same_mapping [OF rq p(5)] same_rational [OF _ p(6), of _ p95]
    by (auto simp: repeated_gets(2) jget_def [of _ "[_, _]"] simp del: py_equal.simps)
  have lost: "rf_ospf_lost f = lost_packets_p95 ospf" "rf_bfd_lost f = lost_packets_p95 bfd"
    using lost_p95_value [OF rq p(7,9)] profile_summary_p95(2) [OF s(1)]
      lost_p95_value [OF rq p(8,10)] profile_summary_p95(2) [OF s(2)] by metis+
  have names: "''ospf_only'' \<in> set profile_names" "''bfd_100x3'' \<in> set profile_names" by (simp_all add: profile_names_def)
  note m = common_metrics_parts [OF p(3) names(1)] common_metrics_parts [OF p(3) names(2)]
  have metrics: "block_metric (dr_baseline ospf_run) = Some (rf_baseline_metric f)"
    "block_metric (dr_failover ospf_run) = Some (rf_failover_metric f)"
    "block_metric (dr_baseline bfd_run) = Some (rf_baseline_metric f)"
    "block_metric (dr_failover bfd_run) = Some (rf_failover_metric f)"
    using state_metric_value [OF cq m(1)] state_metric_value [OF cq m(2)] state_metric_value [OF cq m(3)]
      state_metric_value [OF cq m(4)] by (simp_all add: state_block_def)
  have outages: "rf_outages f = int (domain_count a OUTAGE)"
    using same_mapping [OF a(2) p(11)] same_integer [OF _ p(12), of _ "int (domain_count a OUTAGE)"]
    by (auto simp: domain_gets(4) jget_def [of _ "[_, _, _, _]"] simp del: py_equal.simps)
  have "rf_design f = fda_design a" "rf_topology_sha256 f = fda_topology_sha256 a"
    using same_text [OF a(2) p(1)] same_text [OF a(2) p(2)] domain_gets by blast+
  have print: "configuration_fingerprint (ri_sha256 ri) (ri_read ri) base = Inr (rf_fingerprint f)"
    using fp p(13) by (auto simp: current_fingerprint_def rbind_eq_Inr Let_def)
  obtain rest where summary: "lines = summary_lines f (markdown_escape (rf_design f)) @ rest"
    using render_lines_prefix [OF l] by blast
  have count: "20 \<le> rf_trials f" "length bfd_logs = length ospf_logs" using s(3,4) trials by simp_all
  note declared = recompute_domains_Inr [OF a(1)] a(2) [folded domain_evidence] s(5) [folded reduction]
  show ?thesis
    by (rule exI [of _ comparison], rule exI [of _ repeated], rule exI [of _ domains], rule exI [of _ s1], rule
        exI [of _ s2], rule exI [of _ s3], rule exI [of _ f], rule exI [of _ lines], rule exI [of _ rest], rule
        exI [of _ c], rule exI [of _ r], rule exI [of _ a], rule exI [of _ ospf], rule exI [of _ bfd], rule exI
        [of _ ospf_logs], rule exI [of _ bfd_logs], rule exI [of _ ospf_run], rule exI [of _ bfd_run], rule exI
        [of _ ospf_log], rule exI [of _ bfd_log],
        intro conjI; fact)
qed

lemma classification_fresh:
  "validate_classification (comparison_document ospf_run bfd_run time lost) (repeated_document k ospf bfd p50 p95)
     (domain_members a) = Inr ()"
  by (simp add: validate_classification_def comparison_gets repeated_more domain_more)

lemma report_object_unique:
  assumes "report_json_object ri path l = Inr (d, s)"
  shows "unique_json (JObject d) = Inr ()"
proof -
  from assms obtain raw v where "unique_json v = Inr ()" and v: "(case v of JObject d \<Rightarrow> Inr (d, ri_sha256 ri (crlf_to_lf raw))
      | _ \<Rightarrow> Inl (ValueError (l @ '' evidence must be a JSON object''))) = Inr (d, s)"
    unfolding report_json_object_def rbind_eq_Inr by auto
  moreover from v have "v = JObject d" by (cases v) auto
  ultimately show ?thesis by simp
qed

lemma fresh_report_renders:
  assumes "recompute_comparison ri (under base ''evidence'') = Inr c" "recompute_repeated ri (under base ''evidence'') n = Inr r"
    and "recompute_domains ri base = Inr a" "configuration_fingerprint (ri_sha256 ri) (ri_read ri) base = Inr h"
    and "c = comparison_document ospf_run bfd_run time lost" "reportable ospf_run bfd_run h m m'"
    and "dr_capture_loss ospf_run \<in> {0..100}" "dr_capture_loss bfd_run \<in> {0..100}"
    and "r = repeated_document n ospf bfd q q'" "ps_configuration_sha256 ospf = Some h" "domains_printable a"
    and "report_json_object ri cp ''comparison'' = Inr (c, s)" "report_json_object ri rp ''repeated'' = Inr (r, s')"
    and "report_json_object ri dp ''failure-domain'' = Inr (domain_members a, s'')"
    and "list_all printable [file_name cp, file_name rp, file_name dp]"
  shows "\<exists>text'. render_report_from_paths ri cp rp dp base = Inr text'"
proof -
  obtain ospf_log bfd_log where "build_comparison (ri_round2 ri) (ri_patterns ri) ospf_log bfd_log = Inr c"
    using recompute_comparison_Inr [OF assms(1)] by blast
  from comparison_Inr [OF this] obtain o' b' t' l' where
    runs: "parse_detection_log (ri_patterns ri) ospf_log = Inr o'" "parse_detection_log (ri_patterns ri) bfd_log = Inr b'"
    and cd: "c = comparison_document o' b' t' l'" by blast
  have nn: "0 \<le> dr_upper_bound_ms ospf_run \<and> 0 \<le> dr_lost_packets ospf_run \<and> 0 \<le> dr_upper_bound_ms bfd_run \<and> 0 \<le> dr_lost_packets bfd_run"
    using parse_detection_facts [OF runs(1)] parse_detection_facts [OF runs(2)] cd assms(5)
    by (simp add: comparison_document_def detection_json_def)
  have ve: "validate_experiment_evidence c = Inr ()"
    using nn assms(7,8) unfolding assms(5)
    by (simp add: validate_experiment_evidence_def comparison_profiles profile_names_def validate_experiment_profile_def
      jget_def [of _ "[_, _]"] detection_json_def)
      (simp add: jget_def nonnegative_number_def)
  obtain ospf_logs bfd_logs where built: "build_repeated_evidence (ri_round2 ri) (ri_patterns ri) ospf_logs bfd_logs = Inr r"
    using recompute_repeated_Inr [OF assms(2)] by blast
  from repeated_Inr [OF built] obtain ospf' bfd' q50 q95 where
    s: "profile_summary (ri_round2 ri) (ri_patterns ri) ''ospf_only'' ospf_logs = Inr ospf'"
      "profile_summary (ri_round2 ri) (ri_patterns ri) ''bfd_100x3'' bfd_logs = Inr bfd'"
      "ps_configuration_sha256 ospf' = ps_configuration_sha256 bfd'"
    and rd: "r = repeated_document (int (length ospf_logs)) ospf' bfd' q50 q95" by blast
  have "sha_json (ps_configuration_sha256 ospf') = sha_json (Some h)"
    using arg_cong [OF rd [unfolded assms(9)], of "jget ''environment''"] assms(10) by (simp add: repeated_more)
  then have sha: "ps_configuration_sha256 ospf' = Some h" by (simp add: sha_json_def split: option.splits)
  have same: "py_equal (JObject c) (JObject c)" "py_equal (JObject r) (JObject r)"
    "py_equal (JObject (domain_members a)) (build_failure_domain_evidence a)"
    using py_equal_refl [OF report_object_unique [OF assms(12)]] py_equal_refl [OF report_object_unique [OF assms(13)]]
      py_equal_refl [OF report_object_unique [OF assms(14)]] unfolding domain_evidence by blast+
  have n: "report_integer (jget ''trial_count_per_profile'' r) l = Inr n" for l
    by (simp add: assms(9) repeated_gets report_integer_def)
  have measured: "validate_measured_evidence ri c r base = Inr ()"
    unfolding validate_measured_evidence_def assms(1) rbind_simps n assms(2) using same by simp
  have domains: "validate_failure_domain_evidence ri (domain_members a) base = Inr ()"
    unfolding validate_failure_domain_evidence_def assms(3) rbind_simps using same(3) by simp
  have fp: "current_fingerprint ri c r base = Inr h"
    unfolding assms(5) rd using fingerprint_fresh [OF assms(6,4) sha] s(3) sha by simp
  obtain f where f: "report_facts c r (domain_members a) h = Inr f" "rf_design f = fda_design a"
    using facts_fresh [OF assms(6,11) s(1,2)] unfolding assms(5) rd by blast
  have names: "\<forall>(l, path, sha) \<in> set [(''comparison'', cp, s), (''repeated'', rp, s'), (''failure-domain'', dp, s'')].
      printable (file_name path)" using assms(15) by simp
  obtain lines where lines: "render_lines f c r (domain_members a)
      [(''comparison'', cp, s), (''repeated'', rp, s'), (''failure-domain'', dp, s'')] = Inr lines"
    using lines_fresh [OF assms(6,11) f(2) s(1,2) names] unfolding assms(5) rd by blast
  have classified: "validate_classification c r (domain_members a) = Inr ()" unfolding assms(5) rd by (rule classification_fresh)
  show ?thesis
    by (simp only: render_report_from_paths_def assms(12-14) rbind_simps split_conv ve build_repeated_valid [OF built] classified fp
      measured domains f(1) lines) blast
qed

text \<open>
  C38: Regenerated evidence always makes a report. When the three documents are exactly what is
  recomputed from the logs and the failure domains, the logs state the fingerprint of the
  current configuration and the same metrics, the losses are percentages and the names can be
  printed on one line, the report is rendered; no check refuses what the builders write.
\<close>

theorem fresh_report:
  assumes "recompute_comparison ri (under base ''evidence'') = Inr c" "recompute_repeated ri (under base ''evidence'') n = Inr r"
    and "recompute_domains ri base = Inr a" "configuration_fingerprint (ri_sha256 ri) (ri_read ri) base = Inr h"
    and "c = comparison_document ospf_run bfd_run time lost" "reportable ospf_run bfd_run h m m'"
    and "dr_capture_loss ospf_run \<in> {0..100}" "dr_capture_loss bfd_run \<in> {0..100}"
    and "r = repeated_document n ospf bfd q q'" "ps_configuration_sha256 ospf = Some h" "domains_printable a"
    and "report_json_object ri cp ''comparison'' = Inr (c, s)" "report_json_object ri rp ''repeated'' = Inr (r, s')"
    and "report_json_object ri dp ''failure-domain'' = Inr (domain_members a, s'')"
    and "list_all printable [file_name cp, file_name rp, file_name dp]"
  shows "\<exists>text'. render_report_from_paths ri cp rp dp base = Inr text'"
  by (rule fresh_report_renders [OF assms])

section \<open>A run on the lab\<close>

text \<open>The names of the raw logs of a profile.\<close>

definition trial_log_names :: "string list" where
  "trial_log_names = map (\<lambda>trial. ''trial-'' @ two_digits (int trial) @ ''.log'') [1..<21]"

lemma unique_each_string [simp]: "each unique_json (map JString xs) = Inr ()"
  by (simp add: each_eq_Inr)

lemma unique_block: "unique_json (JObject (block_json b)) = Inr ()"
  by (cases "block_metric b") (simp_all add: block_json_def jstrings_def rbind_def)

lemma unique_detection: "unique_json (detection_json d) = Inr ()"
  using unique_block [of "dr_baseline d"] unique_block [of "dr_failover d"]
  by (simp add: detection_json_def del: unique_json.simps) (simp add: rbind_eq_Inr)

lemma unique_strings: "unique_json (jstrings xs) = Inr ()"
  by (simp add: jstrings_def each_eq_Inr)

lemma unique_comparison: "unique_json (JObject (comparison_document d e x y)) = Inr ()"
  using unique_detection [of d] unique_detection [of e]
  by (simp add: comparison_document_def unique_strings)

lemma unique_number: "unique_json (number_json v) = Inr ()"
  by (cases v) simp_all

lemma unique_summary: "summary_of round2 vs = Inr s \<Longrightarrow> unique_json (summary_json s) = Inr ()"
  by (auto simp: summary_of_def summary_json_def unique_number split: if_splits)

lemma unique_trial: "unique_json (trial_json t) = Inr ()"
  by (simp add: trial_json_def)

lemma unique_profile:
  assumes "profile_summary round2 p profile logs = Inr s"
  shows "unique_json (profile_json s) = Inr ()"
proof -
  have "summary_of round2 (map (\<lambda>t. NInt (trial_detection_ms t)) (ps_trials s)) = Inr (ps_detection_ms s)"
      "summary_of round2 (map (\<lambda>t. NInt (trial_lost_packets t)) (ps_trials s)) = Inr (ps_lost_packets s)"
      "summary_of round2 (map (\<lambda>t. NFloat (trial_capture_loss t)) (ps_trials s)) = Inr (ps_capture_loss s)"
    using assms by (auto simp: profile_summary_def rbind_eq_Inr)
  note u = this [THEN unique_summary]
  have "unique_json (sha_json x) = Inr ()" for x by (cases x) (simp_all add: sha_json_def)
  moreover have "unique_json (JArray (map trial_json (ps_trials s))) = Inr ()" by (simp add: each_eq_Inr unique_trial)
  ultimately show ?thesis using u by (simp add: profile_json_def)
qed

lemma unique_repeated:
  assumes "profile_summary round2 p a logs = Inr ospf" "profile_summary round2 p b logs' = Inr bfd"
  shows "unique_json (JObject (repeated_document n ospf bfd x y)) = Inr ()"
proof -
  have "unique_json (sha_json z) = Inr ()" for z by (cases z) (simp_all add: sha_json_def)
  then show ?thesis
    using unique_profile [OF assms(1)] unique_profile [OF assms(2)] by (simp add: repeated_document_def unique_strings)
qed

lemma unique_domains: "unique_json (JObject (domain_members a)) = Inr ()"
proof -
  have "unique_json (path_json p) = Inr ()" for p by (cases "post_fault_cost p") (simp_all add: path_json_def)
  then have "unique_json (JArray (map path_json ps)) = Inr ()" for ps by (simp add: each_eq_Inr)
  then have "unique_json (domain_json s) = Inr ()" for s by (simp add: domain_json_def unique_strings)
  then have "unique_json (JArray (map domain_json ss)) = Inr ()" for ss by (simp add: each_eq_Inr)
  then show ?thesis by (simp add: domain_members_def build_failure_domain_evidence_def)
qed

definition lab_sha :: string where "lab_sha = replicate 64 (CHR ''b'')"

lemma lab_sha_hex: "is_sha256 lab_sha"
  by code_simp

text \<open>A hash without collisions on the lab's texts.\<close>

definition lab_hash :: "string \<Rightarrow> string" where
  "lab_hash s =
     (if s = topology_text dual_topology then replicate 64 (CHR ''a'')
      else if s = concat (replicate 9 [CHR ''b'', newline]) then lab_sha else s)"

definition report_patterns :: LogPatterns where
  "report_patterns = example_patterns\<lparr>metric_text := map_of [(''metric 30'', ''30''), (''metric 120'', ''120'')]\<rparr>"

definition report_log :: "string \<Rightarrow> string list \<Rightarrow> string list" where
  "report_log profile peers =
     [''TELCONET_DETECTION_MEASUREMENT profile='' @ profile @
        '' detector=d configured_detection_ms=300 capture_started_at=t configuration_sha256='' @ lab_sha,
      ''STATE_BEGIN name=baseline'', ''metric 30'', ''STATE_BEGIN name=failover'', ''metric 120'', ''STATE_END failover''] @ peers @
     [''reply-1'', ''EVENT type=blackhole_start epoch_ns=6400000000'', ''reply-2'', ''reply-4'',
      ''EVENT type=blackhole_end epoch_ns=9000000000'', ''summary'']"



definition run_facts :: "DetectionResult \<Rightarrow> (int \<times> int \<times> string \<times> string \<times> bool \<times> rat) \<times> int option \<times> int option" where
  "run_facts d =
     ((dr_upper_bound_ms d, dr_lost_packets d, dr_profile d, dr_configuration_sha256 d, dr_bfd_peer_up d, dr_capture_loss d),
      block_metric (dr_baseline d), block_metric (dr_failover d))"

lemma report_runs:
  "(case parse_detection_log report_patterns (report_log ''ospf_only'' []) of
      Inr d \<Rightarrow> run_facts d = ((100, 1, ''ospf_only'', lab_sha, False, 25), Some 30, Some 120) | Inl _ \<Rightarrow> False)"
  "(case parse_detection_log report_patterns (report_log ''bfd_100x3'' [''peer up'']) of
      Inr d \<Rightarrow> run_facts d = ((100, 1, ''bfd_100x3'', lab_sha, True, 25), Some 30, Some 120) | Inl _ \<Rightarrow> False)"
  by code_simp+

text \<open>
  The files at \<open>p\<close>: a document holds a letter and is what that letter parses to; every raw log
  holds the letter of its profile.
\<close>

definition report_inputs :: "(string \<times> json) list \<Rightarrow> (string \<times> json) list \<Rightarrow> (string \<times> json) list \<Rightarrow> ReportInputs" where
  "report_inputs c r d =
     \<lparr>ri_sha256 = lab_hash,
      ri_read = (\<lambda>p. Inr (
        if p = ''p/evidence/bfd-comparison.json'' then ''c''
        else if p = ''p/evidence/bfd-repeated-trials.json'' then ''r''
        else if p = ''p/evidence/failure-domain-audit.json'' then ''d''
        else if p = ''p/evidence/remote-blackhole-ospf.log'' \<or> starts_with ''p/evidence/repeated/ospf_only/'' p then ''o''
        else ''b'')),
      ri_glob = (\<lambda>p. map (\<lambda>name. p @ ''/'' @ name) trial_log_names),
      ri_parse = (\<lambda>raw. Inr (JObject (if raw = ''c'' then c else if raw = ''r'' then r else d))),
      ri_lines = (\<lambda>raw. Inr (if raw = ''o'' then report_log ''ospf_only'' [] else report_log ''bfd_100x3'' [''peer up''])),
      ri_patterns = report_patterns, ri_round2 = (\<lambda>r. r), ri_intent = (\<lambda>_. lab_documents ''intent-dual-homed.yml''),
      ri_designs = (\<lambda>_. Inr lab_catalog), ri_domains = (\<lambda>_. Inr lab_domains)\<rparr>"

lemma flat_statistics:
  "summary_of (\<lambda>r. r) (replicate 20 (NInt 100)) =
     Inr [(''min'', NInt 100), (''p50'', NFloat 100), (''p95'', NInt 100), (''max'', NInt 100), (''mean'', NInt 100)]"
  "summary_of (\<lambda>r. r) (replicate 20 (NInt 1)) =
     Inr [(''min'', NInt 1), (''p50'', NFloat 1), (''p95'', NInt 1), (''max'', NInt 1), (''mean'', NInt 1)]"
  "summary_of (\<lambda>r. r) (replicate 20 (NFloat 25)) =
     Inr [(''min'', NFloat 25), (''p50'', NFloat 25), (''p95'', NFloat 25), (''max'', NFloat 25), (''mean'', NFloat 25)]"
  by code_simp+

definition flat :: "int \<Rightarrow> (string \<times> number) list" where
  "flat i = [(''min'', NInt i), (''p50'', NFloat (of_int i)), (''p95'', NInt i), (''max'', NInt i), (''mean'', NInt i)]"

definition lab_profile :: "Trial list \<Rightarrow> ProfileSummary" where
  "lab_profile trials =
     \<lparr>ps_configuration_sha256 = Some lab_sha, ps_detection_ms = flat 100, ps_lost_packets = flat 1,
      ps_capture_loss = [(''min'', NFloat 25), (''p50'', NFloat 25), (''p95'', NFloat 25), (''max'', NFloat 25), (''mean'', NFloat 25)],
      ps_trials = trials\<rparr>"


text \<open>Twenty readings of one log make twenty equal trials.\<close>

lemma same_trials:
  assumes "parse_detection_log p lines = Inr d" "dr_profile d = profile"
    and "profile = ''bfd_100x3'' \<longrightarrow> dr_bfd_peer_up d" "profile = ''ospf_only'' \<longrightarrow> \<not> dr_bfd_peer_up d"
    and "fst acc = None \<or> fst acc = Some (dr_configuration_sha256 d)" "names \<noteq> []"
  shows "\<exists>new. fold_res (add_trial p profile) acc (zip [k..<k + length names] (map (\<lambda>name. (name, lines)) names)) =
      Inr (Some (dr_configuration_sha256 d), snd acc @ new) \<and> length new = length names \<and>
    (\<forall>t \<in> set new. trial_detection_ms t = dr_upper_bound_ms d \<and> trial_lost_packets t = dr_lost_packets d \<and>
      trial_capture_loss t = dr_capture_loss d)"
  using assms(5,6)
proof (induction names arbitrary: k acc)
  case (Cons name names)
  obtain sha ts where acc: "acc = (sha, ts)" by (cases acc)
  let ?t = "\<lparr>trial_number = k, trial_source = name, trial_detection_ms = dr_upper_bound_ms d,
      trial_lost_packets = dr_lost_packets d, trial_capture_loss = dr_capture_loss d\<rparr>"
  have step: "add_trial p profile (sha, ts) (k, name, lines) = Inr (Some (dr_configuration_sha256 d), ts @ [?t])"
    using Cons.prems(1) assms(1-4) by (auto simp: add_trial_def acc)
  have z: "zip [k..<k + length (name # names)] (map (\<lambda>name. (name, lines)) (name # names)) =
      (k, name, lines) # zip [Suc k..<Suc k + length names] (map (\<lambda>name. (name, lines)) names)"
    by (simp add: upt_conv_Cons del: upt_Suc)
  show ?case
  proof (cases "names = []")
    case True
    then show ?thesis unfolding z by (intro exI [of _ "[?t]"]) (simp add: step acc)
  next
    case False
    from Cons.IH [of "(Some (dr_configuration_sha256 d), ts @ [?t])" "Suc k"] obtain new where
      "fold_res (add_trial p profile) (Some (dr_configuration_sha256 d), ts @ [?t])
        (zip [Suc k..<Suc k + length names] (map (\<lambda>name. (name, lines)) names)) =
        Inr (Some (dr_configuration_sha256 d), (ts @ [?t]) @ new)" "length new = length names"
      "\<forall>t \<in> set new. trial_detection_ms t = dr_upper_bound_ms d \<and> trial_lost_packets t = dr_lost_packets d \<and>
        trial_capture_loss t = dr_capture_loss d" using False by auto
    then show ?thesis unfolding z by (intro exI [of _ "?t # new"]) (simp add: step acc)
  qed
qed simp

lemma map_same: "\<forall>x \<in> set xs. f x = y \<Longrightarrow> map f xs = replicate (length xs) y"
  by (induction xs) auto

lemma lab_summary:
  assumes "parse_detection_log p lines = Inr d" "dr_profile d = profile"
    and "profile = ''bfd_100x3'' \<longrightarrow> dr_bfd_peer_up d" "profile = ''ospf_only'' \<longrightarrow> \<not> dr_bfd_peer_up d"
    and "dr_upper_bound_ms d = 100" "dr_lost_packets d = 1" "dr_capture_loss d = 25" "dr_configuration_sha256 d = lab_sha"
    and "length names = 20"
  shows "\<exists>trials. profile_summary (\<lambda>r. r) p profile (map (\<lambda>name. (name, lines)) names) = Inr (lab_profile trials)"
proof -
  have "names \<noteq> []" using assms(9) by auto
  from same_trials [OF assms(1-4) _ this, of "(None, [])" 1] obtain new where
    new: "fold_res (add_trial p profile) (None, []) (numbered_from_one (map (\<lambda>name. (name, lines)) names)) =
      Inr (Some lab_sha, new)" and l: "length new = 20"
      "\<forall>t \<in> set new. trial_detection_ms t = 100 \<and> trial_lost_packets t = 1 \<and> trial_capture_loss t = 25"
    using assms(5-9) by (auto simp: numbered_from_one_def simp del: upt_Suc)
  have "map (\<lambda>t. NInt (trial_detection_ms t)) new = replicate 20 (NInt 100)" "map (\<lambda>t. NInt (trial_lost_packets t)) new = replicate 20 (NInt 1)"
      "map (\<lambda>t. NFloat (trial_capture_loss t)) new = replicate 20 (NFloat 25)"
    using l map_same [of new "\<lambda>t. NInt (trial_detection_ms t)" "NInt 100"] map_same [of new "\<lambda>t. NInt (trial_lost_packets t)" "NInt 1"]
      map_same [of new "\<lambda>t. NFloat (trial_capture_loss t)" "NFloat 25"] by auto
  then show ?thesis
    by (intro exI [of _ new]) (simp only: profile_summary_def new rbind_simps split_conv flat_statistics lab_profile_def flat_def of_int_numeral of_int_1)
qed

lemma named_logs_same:
  assumes "\<forall>path \<in> set paths. read_raw_log ri path = Inr (1, lines)" "n + length paths \<le> max_total_raw_log_bytes"
  shows "fold_res (add_named_log ri profile) (n, logs) paths =
    Inr (n + length paths, logs @ map (\<lambda>path. (profile @ ''/'' @ file_name path, lines)) paths)"
  using assms
proof (induction paths arbitrary: n logs)
  case (Cons path paths)
  have "add_named_log ri profile (n, logs) path = Inr (n + 1, logs @ [(profile @ ''/'' @ file_name path, lines)])"
    using Cons.prems by (simp add: add_named_log_def)
  then show ?case using Cons.IH [of "n + 1"] Cons.prems by simp
qed simp

definition lab_file :: "string \<Rightarrow> string" where
  "lab_file name = under (under ''p'' ''evidence'') name"

lemma lab_files:
  "lab_file ''bfd-comparison.json'' = ''p/evidence/bfd-comparison.json''"
  "lab_file ''bfd-repeated-trials.json'' = ''p/evidence/bfd-repeated-trials.json''"
  "lab_file ''failure-domain-audit.json'' = ''p/evidence/failure-domain-audit.json''"
  "lab_file ''remote-blackhole-ospf.log'' = ''p/evidence/remote-blackhole-ospf.log''"
  "lab_file ''remote-blackhole-bfd.log'' = ''p/evidence/remote-blackhole-bfd.log''"
  "lab_file ''repeated/ospf_only'' = ''p/evidence/repeated/ospf_only''"
  "lab_file ''repeated/bfd_100x3'' = ''p/evidence/repeated/bfd_100x3''"
  by (simp_all add: under_def lab_file_def)

lemma report_reads:
  "report_json_object (report_inputs c r d) (lab_file ''bfd-comparison.json'') l =
    (case unique_json (JObject c) of Inl e \<Rightarrow> Inl e | Inr _ \<Rightarrow> Inr (c, lab_hash ''c''))"
  "report_json_object (report_inputs c r d) (lab_file ''bfd-repeated-trials.json'') l =
    (case unique_json (JObject r) of Inl e \<Rightarrow> Inl e | Inr _ \<Rightarrow> Inr (r, lab_hash ''r''))"
  "report_json_object (report_inputs c r d) (lab_file ''failure-domain-audit.json'') l =
    (case unique_json (JObject d) of Inl e \<Rightarrow> Inl e | Inr _ \<Rightarrow> Inr (d, lab_hash ''d''))"
  unfolding lab_files
  by (simp_all add: report_json_object_def bounded_read_def report_inputs_def max_input_bytes_def rbind_def
      del: unique_json.simps split: sum.splits)

lemma raw_logs:
  "read_raw_log (report_inputs c r d) ''p/evidence/remote-blackhole-ospf.log'' = Inr (1, report_log ''ospf_only'' [])"
  "read_raw_log (report_inputs c r d) ''p/evidence/remote-blackhole-bfd.log'' = Inr (1, report_log ''bfd_100x3'' [''peer up''])"
  "read_raw_log (report_inputs c r d) (''p/evidence/repeated/ospf_only/'' @ n) = Inr (1, report_log ''ospf_only'' [])"
  "read_raw_log (report_inputs c r d) (''p/evidence/repeated/bfd_100x3/'' @ n) = Inr (1, report_log ''bfd_100x3'' [''peer up''])"
  by (simp_all add: read_raw_log_def bounded_read_def report_inputs_def max_input_bytes_def starts_with_def)

lemma lab_logs_sorted:
  "sort (map (\<lambda>name. ''p/evidence/repeated/ospf_only/'' @ name) trial_log_names) =
    map (\<lambda>name. ''p/evidence/repeated/ospf_only/'' @ name) trial_log_names"
  "sort (map (\<lambda>name. ''p/evidence/repeated/bfd_100x3/'' @ name) trial_log_names) =
    map (\<lambda>name. ''p/evidence/repeated/bfd_100x3/'' @ name) trial_log_names"
  by code_simp+

lemma trial_log_count: "length trial_log_names = 20"
  by (simp add: trial_log_names_def)

lemma lab_trials:
  "trial_paths (report_inputs c r d) (under ''p'' ''evidence'') 20 ''ospf_only'' =
    Inr (map (\<lambda>name. ''p/evidence/repeated/ospf_only/'' @ name) trial_log_names)"
  "trial_paths (report_inputs c r d) (under ''p'' ''evidence'') 20 ''bfd_100x3'' =
    Inr (map (\<lambda>name. ''p/evidence/repeated/bfd_100x3/'' @ name) trial_log_names)"
proof -
  have glob: "ri_glob (report_inputs c r d) (lab_file ''repeated/ospf_only'') =
        map (\<lambda>name. ''p/evidence/repeated/ospf_only/'' @ name) trial_log_names"
      "ri_glob (report_inputs c r d) (lab_file ''repeated/bfd_100x3'') =
        map (\<lambda>name. ''p/evidence/repeated/bfd_100x3/'' @ name) trial_log_names"
    unfolding lab_files by (simp_all add: report_inputs_def)
  have parts: "''repeated/'' @ ''ospf_only'' = ''repeated/ospf_only''" "''repeated/'' @ ''bfd_100x3'' = ''repeated/bfd_100x3''"
    by simp_all
  show "trial_paths (report_inputs c r d) (under ''p'' ''evidence'') 20 ''ospf_only'' =
      Inr (map (\<lambda>name. ''p/evidence/repeated/ospf_only/'' @ name) trial_log_names)"
    "trial_paths (report_inputs c r d) (under ''p'' ''evidence'') 20 ''bfd_100x3'' =
      Inr (map (\<lambda>name. ''p/evidence/repeated/bfd_100x3/'' @ name) trial_log_names)"
    by (simp_all only: trial_paths_def Let_def parts lab_file_def [symmetric] glob lab_logs_sorted length_map trial_log_count
      of_nat_numeral ensure_simps simp_thms if_True ensure_def rbind_simps)
qed

text \<open>The evidence of the lab: both runs, the trials and the audit.\<close>

lemma lab_runs:
  "\<exists>ospf bfd. parse_detection_log report_patterns (report_log ''ospf_only'' []) = Inr ospf \<and>
     parse_detection_log report_patterns (report_log ''bfd_100x3'' [''peer up'']) = Inr bfd \<and>
     run_facts ospf = ((100, 1, ''ospf_only'', lab_sha, False, 25), Some 30, Some 120) \<and>
     run_facts bfd = ((100, 1, ''bfd_100x3'', lab_sha, True, 25), Some 30, Some 120)"
  using report_runs by (auto split: sum.splits)

lemma lab_comparison:
  assumes "parse_detection_log report_patterns (report_log ''ospf_only'' []) = Inr ospf"
    and "parse_detection_log report_patterns (report_log ''bfd_100x3'' [''peer up'']) = Inr bfd"
    and "run_facts ospf = ((100, 1, ''ospf_only'', lab_sha, False, 25), Some 30, Some 120)"
    and "run_facts bfd = ((100, 1, ''bfd_100x3'', lab_sha, True, 25), Some 30, Some 120)"
  shows "recompute_comparison (report_inputs c r d) (under ''p'' ''evidence'') = Inr (comparison_document ospf bfd 0 0)"
proof -
  have fields: "ri_round2 (report_inputs c r d) = (\<lambda>r. r)" "ri_patterns (report_inputs c r d) = report_patterns"
    by (simp_all add: report_inputs_def)
  show ?thesis
    using assms(3,4) unfolding recompute_comparison_def lab_file_def [symmetric] lab_files raw_logs rbind_simps split_conv fields
    by (simp add: build_comparison_def assms(1,2) run_facts_def reduction_percent_def)
qed

lemma lab_repeated:
  assumes "parse_detection_log report_patterns (report_log ''ospf_only'' []) = Inr ospf"
    and "parse_detection_log report_patterns (report_log ''bfd_100x3'' [''peer up'']) = Inr bfd"
    and "run_facts ospf = ((100, 1, ''ospf_only'', lab_sha, False, 25), Some 30, Some 120)"
    and "run_facts bfd = ((100, 1, ''bfd_100x3'', lab_sha, True, 25), Some 30, Some 120)"
  shows "\<exists>logs logs' ts ts'.
    profile_summary (\<lambda>r. r) report_patterns ''ospf_only'' logs = Inr (lab_profile ts) \<and>
    profile_summary (\<lambda>r. r) report_patterns ''bfd_100x3'' logs' = Inr (lab_profile ts') \<and>
    (\<forall>c r d. recompute_repeated (report_inputs c r d) (under ''p'' ''evidence'') 20 =
      Inr (repeated_document 20 (lab_profile ts) (lab_profile ts') 0 0))"
proof -
  let ?names = "\<lambda>profile. map (\<lambda>path. profile @ ''/'' @ file_name path) (map (\<lambda>name. ''p/evidence/repeated/'' @ profile @ ''/'' @ name) trial_log_names)"
  let ?logs = "\<lambda>profile lines. map (\<lambda>name. (name, lines)) (?names profile)"
  have n: "length (?names profile) = 20" for profile by (simp add: trial_log_count)
  obtain ts where ts: "profile_summary (\<lambda>r. r) report_patterns ''ospf_only'' (?logs ''ospf_only'' (report_log ''ospf_only'' [])) = Inr (lab_profile ts)"
    using lab_summary [OF assms(1) _ _ _ _ _ _ _ n [of "''ospf_only''"], of "''ospf_only''"] assms(3) by (auto simp: run_facts_def)
  obtain ts' where ts': "profile_summary (\<lambda>r. r) report_patterns ''bfd_100x3'' (?logs ''bfd_100x3'' (report_log ''bfd_100x3'' [''peer up''])) = Inr (lab_profile ts')"
    using lab_summary [OF assms(2) _ _ _ _ _ _ _ n [of "''bfd_100x3''"], of "''bfd_100x3''"] assms(4) by (auto simp: run_facts_def)
  have "summary_float stat (flat 100) = Inr 100" if "stat = ''p50'' \<or> stat = ''p95''" for stat
    using that by (auto simp: summary_float_def flat_def)
  then have built: "build_repeated_evidence (\<lambda>r. r) report_patterns (?logs ''ospf_only'' (report_log ''ospf_only'' []))
      (?logs ''bfd_100x3'' (report_log ''bfd_100x3'' [''peer up''])) = Inr (repeated_document 20 (lab_profile ts) (lab_profile ts') 0 0)"
    by (simp add: build_repeated_evidence_def ts [simplified] ts' [simplified] reduction_percent_def trial_log_count lab_profile_def)
  have named: "named_logs (report_inputs c r d) ''ospf_only'' (map (\<lambda>name. ''p/evidence/repeated/ospf_only/'' @ name) trial_log_names) 0 =
        Inr (20, ?logs ''ospf_only'' (report_log ''ospf_only'' []))"
      "named_logs (report_inputs c r d) ''bfd_100x3'' (map (\<lambda>name. ''p/evidence/repeated/bfd_100x3/'' @ name) trial_log_names) 20 =
        Inr (40, ?logs ''bfd_100x3'' (report_log ''bfd_100x3'' [''peer up'']))" for c r d
  proof -
    have "\<forall>path \<in> set (map (\<lambda>name. ''p/evidence/repeated/ospf_only/'' @ name) trial_log_names).
        read_raw_log (report_inputs c r d) path = Inr (1, report_log ''ospf_only'' [])"
      using raw_logs(3) by (auto simp only: set_map)
    from named_logs_same [OF this, where n = 0 and profile = "''ospf_only''" and logs = "[]"]
    show "named_logs (report_inputs c r d) ''ospf_only'' (map (\<lambda>name. ''p/evidence/repeated/ospf_only/'' @ name) trial_log_names) 0 =
        Inr (20, ?logs ''ospf_only'' (report_log ''ospf_only'' []))"
      by (simp add: named_logs_def trial_log_count max_total_raw_log_bytes_def comp_def)
    have "\<forall>path \<in> set (map (\<lambda>name. ''p/evidence/repeated/bfd_100x3/'' @ name) trial_log_names).
        read_raw_log (report_inputs c r d) path = Inr (1, report_log ''bfd_100x3'' [''peer up''])"
      using raw_logs(4) by (auto simp only: set_map)
    from named_logs_same [OF this, where n = 20 and profile = "''bfd_100x3''" and logs = "[]"]
    show "named_logs (report_inputs c r d) ''bfd_100x3'' (map (\<lambda>name. ''p/evidence/repeated/bfd_100x3/'' @ name) trial_log_names) 20 =
        Inr (40, ?logs ''bfd_100x3'' (report_log ''bfd_100x3'' [''peer up'']))"
      by (simp add: named_logs_def trial_log_count max_total_raw_log_bytes_def comp_def)
  qed
  have fields: "ri_round2 (report_inputs c r d) = (\<lambda>r. r)" "ri_patterns (report_inputs c r d) = report_patterns" for c r d
    by (simp_all add: report_inputs_def)
  have "recompute_repeated (report_inputs c r d) (under ''p'' ''evidence'') 20 =
      Inr (repeated_document 20 (lab_profile ts) (lab_profile ts') 0 0)" for c r d
    unfolding recompute_repeated_def lab_trials rbind_simps named split_conv fields by (rule built)
  then show ?thesis using ts ts' by blast
qed

lemma lab_domain_audit:
  "\<exists>a. (\<forall>c r d. recompute_domains (report_inputs c r d) ''p'' = Inr a) \<and> domains_printable a"
proof -
  have fields: "ri_intent (report_inputs c r d) = ri_intent (report_inputs [] [] [])"
      "ri_sha256 (report_inputs c r d) = ri_sha256 (report_inputs [] [] [])"
      "ri_designs (report_inputs c r d) = ri_designs (report_inputs [] [] [])"
      "ri_domains (report_inputs c r d) = ri_domains (report_inputs [] [] [])" for c r d
    by (simp_all add: report_inputs_def)
  have same: "recompute_domains (report_inputs c r d) ''p'' = recompute_domains (report_inputs [] [] []) ''p''" for c r d
    by (simp only: recompute_domains_def fields [of c r d])
  have "(case recompute_domains (report_inputs [] [] []) ''p'' of
      Inl _ \<Rightarrow> False
    | Inr a \<Rightarrow> fda_design a = ''service-dual-homed'' \<and> fda_topology_sha256 a = replicate 64 (CHR ''a'') \<and>
        list_all (\<lambda>s. list_all (\<lambda>n. n \<noteq> [] \<and> length n \<le> 40 \<and> list_all (\<lambda>c. c \<noteq> CHR 0x0A \<and> c \<noteq> CHR 0x0D) n)
          (fds_domain_id s # fds_affected_nodes s)) (fda_scenarios a))"
    by code_simp
  then obtain a where a: "recompute_domains (report_inputs [] [] []) ''p'' = Inr a"
      "fda_design a = ''service-dual-homed''" "fda_topology_sha256 a = replicate 64 (CHR ''a'')"
      "list_all (\<lambda>s. list_all (\<lambda>n. n \<noteq> [] \<and> length n \<le> 40 \<and> list_all (\<lambda>c. c \<noteq> CHR 0x0A \<and> c \<noteq> CHR 0x0D) n)
          (fds_domain_id s # fds_affected_nodes s)) (fda_scenarios a)"
    by (cases "recompute_domains (report_inputs [] [] []) ''p''") auto
  let ?plain = "\<lambda>n. n \<noteq> [] \<and> length n \<le> 40 \<and> list_all (\<lambda>c. c \<noteq> CHR 0x0A \<and> c \<noteq> CHR 0x0D) n"
  have plain: "printable n" if "?plain n" for n
    using that by (auto simp: short_printable max_text_length_def newline_def list_all_iff)
  have "printable (fds_domain_id s) \<and> list_all printable (fds_affected_nodes s)" if s: "s \<in> set (fda_scenarios a)" for s
  proof -
    have "list_all ?plain (fds_domain_id s # fds_affected_nodes s)" using a(4) s unfolding list_all_iff by blast
    then have "list_all printable (fds_domain_id s # fds_affected_nodes s)" using plain by (rule list.pred_mono_strong)
    then show ?thesis by simp
  qed
  moreover have "printable (fda_design a)" unfolding a(2) by (rule plain) simp
  moreover have "fda_topology_sha256 a \<noteq> []" unfolding a(3) by simp
  ultimately have "domains_printable a" unfolding domains_printable_def by blast
  then show ?thesis using a(1) same by metis
qed


lemma lab_fingerprint: "configuration_fingerprint lab_hash (ri_read (report_inputs c r d)) ''p'' = Inr lab_sha"
proof -
  have "configuration_fingerprint lab_hash (ri_read (report_inputs [] [] [])) ''p'' = Inr lab_sha" by code_simp
  moreover have "ri_read (report_inputs c r d) = ri_read (report_inputs [] [] [])" by (simp add: report_inputs_def)
  ultimately show ?thesis by simp
qed

text \<open>Every condition of a fresh report holds for the lab, its logs and the documents made of them.\<close>

definition lab_run :: "DetectionResult \<Rightarrow> DetectionResult \<Rightarrow> ProfileSummary \<Rightarrow> ProfileSummary \<Rightarrow> FailureDomainAudit \<Rightarrow> bool" where
  "lab_run ospf_run bfd_run ospf bfd a =
    (let c = comparison_document ospf_run bfd_run 0 0; r = repeated_document 20 ospf bfd 0 0;
         ri = report_inputs c r (domain_members a) in
     recompute_comparison ri (under ''p'' ''evidence'') = Inr c \<and> recompute_repeated ri (under ''p'' ''evidence'') 20 = Inr r \<and>
     recompute_domains ri ''p'' = Inr a \<and> configuration_fingerprint (ri_sha256 ri) (ri_read ri) ''p'' = Inr lab_sha \<and>
     reportable ospf_run bfd_run lab_sha 30 120 \<and> dr_capture_loss ospf_run = 25 \<and> dr_capture_loss bfd_run = 25 \<and>
     ps_configuration_sha256 ospf = Some lab_sha \<and> domains_printable a \<and>
     report_json_object ri (lab_file ''bfd-comparison.json'') ''comparison'' = Inr (c, lab_hash ''c'') \<and>
     report_json_object ri (lab_file ''bfd-repeated-trials.json'') ''repeated'' = Inr (r, lab_hash ''r'') \<and>
     report_json_object ri (lab_file ''failure-domain-audit.json'') ''failure-domain'' = Inr (domain_members a, lab_hash ''d''))"

lemma lab_evidence:
  "\<exists>ospf_run bfd_run ts ts' a.
    parse_detection_log report_patterns (report_log ''ospf_only'' []) = Inr ospf_run \<and>
    parse_detection_log report_patterns (report_log ''bfd_100x3'' [''peer up'']) = Inr bfd_run \<and>
    lab_run ospf_run bfd_run (lab_profile ts) (lab_profile ts') a"
proof -
  obtain ospf_run bfd_run where runs: "parse_detection_log report_patterns (report_log ''ospf_only'' []) = Inr ospf_run"
      "parse_detection_log report_patterns (report_log ''bfd_100x3'' [''peer up'']) = Inr bfd_run"
    and f: "run_facts ospf_run = ((100, 1, ''ospf_only'', lab_sha, False, 25), Some 30, Some 120)"
      "run_facts bfd_run = ((100, 1, ''bfd_100x3'', lab_sha, True, 25), Some 30, Some 120)"
    using lab_runs by blast
  obtain logs logs' ts ts' where r: "profile_summary (\<lambda>r. r) report_patterns ''ospf_only'' logs = Inr (lab_profile ts)"
      "profile_summary (\<lambda>r. r) report_patterns ''bfd_100x3'' logs' = Inr (lab_profile ts')"
      "recompute_repeated (report_inputs x y z) (under ''p'' ''evidence'') 20 =
        Inr (repeated_document 20 (lab_profile ts) (lab_profile ts') 0 0)" for x y z
    using lab_repeated [OF runs f] by blast
  obtain a where a: "recompute_domains (report_inputs x y z) ''p'' = Inr a" "domains_printable a" for x y z
    using lab_domain_audit by blast
  have sha: "ri_sha256 (report_inputs x y z) = lab_hash" for x y z by (simp add: report_inputs_def)
  have reads: "report_json_object (report_inputs (comparison_document ospf_run bfd_run 0 0) y z) (lab_file ''bfd-comparison.json'') l =
        Inr (comparison_document ospf_run bfd_run 0 0, lab_hash ''c'')"
      "report_json_object (report_inputs x (repeated_document 20 (lab_profile ts) (lab_profile ts') 0 0) z)
        (lab_file ''bfd-repeated-trials.json'') l =
        Inr (repeated_document 20 (lab_profile ts) (lab_profile ts') 0 0, lab_hash ''r'')"
      "report_json_object (report_inputs x y (domain_members a)) (lab_file ''failure-domain-audit.json'') l =
        Inr (domain_members a, lab_hash ''d'')" for x y z l
    by (simp_all only: report_reads unique_comparison unique_repeated [OF r(1,2)] unique_domains sum.case)
  have facts: "reportable ospf_run bfd_run lab_sha 30 120" "dr_capture_loss ospf_run = 25" "dr_capture_loss bfd_run = 25"
      "ps_configuration_sha256 (lab_profile ts) = Some lab_sha"
    using f lab_sha_hex by (simp_all add: reportable_def run_facts_def lab_profile_def)
  have "lab_run ospf_run bfd_run (lab_profile ts) (lab_profile ts') a"
    unfolding lab_run_def Let_def
    by (simp only: lab_comparison [OF runs f] r a reads sha lab_fingerprint facts simp_thms)
  with runs show ?thesis by blast
qed

lemma lab_names: "list_all printable [file_name (lab_file ''bfd-comparison.json''), file_name (lab_file ''bfd-repeated-trials.json''),
    file_name (lab_file ''failure-domain-audit.json'')]"
  unfolding lab_files by (simp add: file_name_def short_printable max_text_length_def newline_def)

definition lab_report :: "(string \<times> json) list \<Rightarrow> (string \<times> json) list \<Rightarrow> (string \<times> json) list \<Rightarrow> string result" where
  "lab_report c r d = render_report_from_paths (report_inputs c r d) (lab_file ''bfd-comparison.json'')
     (lab_file ''bfd-repeated-trials.json'') (lab_file ''failure-domain-audit.json'') ''p''"

theorem fresh_report_witness: "\<exists>c r a text'. lab_report c r (domain_members a) = Inr text'"
proof -
  obtain ospf_run bfd_run ospf bfd a where "lab_run ospf_run bfd_run ospf bfd a" using lab_evidence by blast
  note e = this [unfolded lab_run_def Let_def]
  have "\<exists>text'. lab_report (comparison_document ospf_run bfd_run 0 0) (repeated_document 20 ospf bfd 0 0) (domain_members a) = Inr text'"
    unfolding lab_report_def
    by (rule fresh_report [where h = lab_sha and m = 30 and m' = 120 and n = 20 and time = 0 and lost = 0 and q = 0 and q' = 0
          and ospf_run = ospf_run and bfd_run = bfd_run and ospf = ospf and bfd = bfd and a = a])
      (use e lab_names in \<open>simp_all only: simp_thms atLeastAtMost_iff\<close>, simp_all)
  then show ?thesis by blast
qed

lemma lab_report_renders:
  assumes "lab_run ospf_run bfd_run ospf bfd a"
  shows "\<exists>text'. lab_report (comparison_document ospf_run bfd_run 0 0) (repeated_document 20 ospf bfd 0 0) (domain_members a) = Inr text'"
  unfolding lab_report_def
  by (rule fresh_report_renders [where h = lab_sha and m = 30 and m' = 120 and n = 20 and time = 0 and lost = 0 and q = 0 and q' = 0
        and ospf_run = ospf_run and bfd_run = bfd_run and ospf = ospf and bfd = bfd and a = a])
    (use assms [unfolded lab_run_def Let_def] lab_names in \<open>simp_all only: simp_thms atLeastAtMost_iff\<close>, simp_all)

theorem report_recomputed_witness:
  "\<exists>c r d f lines a. \<exists>ospf_logs :: (string \<times> string list) list.
     lab_report c r d = Inr (join [newline] lines) \<and>
     archived_trials (report_inputs c r d) (under ''p'' ''evidence'') ''ospf_only'' ospf_logs \<and>
     rf_trials f = int (length ospf_logs) \<and> 20 \<le> rf_trials f \<and>
     declared_audit (report_inputs c r d) (under ''p'' ''lab'') a \<and> rf_outages f = int (domain_count a OUTAGE) \<and>
     (\<exists>rest. lines = summary_lines f (markdown_escape (rf_design f)) @ rest)"
proof -
  obtain ospf_run bfd_run ospf bfd a where e: "lab_run ospf_run bfd_run ospf bfd a" using lab_evidence by blast
  let ?c = "comparison_document ospf_run bfd_run 0 0" and ?r = "repeated_document 20 ospf bfd 0 0"
  obtain text' where t: "lab_report ?c ?r (domain_members a) = Inr text'"
    using lab_report_renders [OF e] by blast
  from report_recomputed [OF t [unfolded lab_report_def]] obtain f lines rest a' and ospf_logs :: "(string \<times> string list) list" where
    "text' = join [newline] lines" "lines = summary_lines f (markdown_escape (rf_design f)) @ rest"
    "archived_trials (report_inputs ?c ?r (domain_members a)) (under ''p'' ''evidence'') ''ospf_only'' ospf_logs"
    "rf_trials f = int (length ospf_logs)" "20 \<le> rf_trials f"
    "declared_audit (report_inputs ?c ?r (domain_members a)) (under ''p'' ''lab'') a'" "rf_outages f = int (domain_count a' OUTAGE)"
    by blast
  with t show ?thesis by blast
qed

end
