(* ===== verification/Evidence_Manifest.thy ===== *)
theory Evidence_Manifest
  imports Evidence_Report
begin

text \<open>
  \<open>evidence_manifest.py\<close>: the manifest of the evidence bundle. It lists every file the report
  rests on with the hash of its text up to line ends, and a hash of the whole list; it is written
  only when the report itself is what the evidence renders to. The file system is a record of
  functions; writing the manifest replaces what is read at its path.
\<close>

section \<open>The files of the bundle\<close>

record ManifestFiles =
  mf_inputs :: ReportInputs
  mf_resolve_strict :: "string \<Rightarrow> string result"
  mf_resolve :: "string \<Rightarrow> string"
  mf_absolute :: "string \<Rightarrow> string"
  mf_symlink :: "string \<Rightarrow> bool"
  mf_is_file :: "string \<Rightarrow> bool"
  mf_utf8 :: "string \<Rightarrow> bool"
  mf_dumps :: "json \<Rightarrow> string"

definition max_manifest_bytes :: nat where "max_manifest_bytes = 1024 * 1024"
definition max_artifact_bytes :: nat where "max_artifact_bytes = 5 * 1024 * 1024"
definition max_bundle_bytes :: nat where "max_bundle_bytes = 25 * 1024 * 1024"
definition bundle_name :: string where "bundle_name = ''telconet-portfolio-evidence''"

definition configuration_artifacts :: "string list" where
  "configuration_artifacts =
     [''lab/designs.yml'', ''lab/failure-domains.yml'', ''lab/intent.yml'', ''lab/intent-dual-homed.yml'',
      ''lab/runtime-expectations.yml'', ''lab/telconet.clab.yml'', ''lab/telconet-dual-homed.clab.yml'',
      ''lab/frr/daemons'', ''lab/frr/access1/frr.conf'', ''lab/frr/access2/frr.conf'', ''lab/frr/agg1/frr.conf'',
      ''lab/frr/agg2/frr.conf'', ''lab/frr/core1/frr.conf'', ''lab/frr/core2/frr.conf'',
      ''lab/frr/dual-homed/core1.conf'', ''lab/frr/dual-homed/core2.conf'', ''lab/frr/dual-homed/service-host.conf'']"

definition bundle_profiles :: "string list" where
  "bundle_profiles = [''bfd_100x3'', ''ospf_only'']"

definition raw_artifacts :: "string list" where
  "raw_artifacts =
     [''evidence/remote-blackhole-bfd.log'', ''evidence/remote-blackhole-ospf.log''] @
     concat (map (\<lambda>profile. map (\<lambda>name. ''evidence/repeated/'' @ profile @ ''/'' @ name) trial_log_names) bundle_profiles)"

definition derived_artifacts :: "string list" where
  "derived_artifacts =
     [''evidence/bfd-comparison.json'', ''evidence/bfd-repeated-trials.json'', ''evidence/failure-domain-audit.json'',
      ''evidence/runtime-n1-dashboard.json'']"

text \<open>\<open>sorted(specs)\<close>: no path occurs twice, so the pairs are in the order of their paths.\<close>

definition artifact_specs :: "(string \<times> string) list" where
  "artifact_specs = sort_key fst
     (map (\<lambda>path. (path, ''configuration'')) configuration_artifacts @
      map (\<lambda>path. (path, ''raw_measurement'')) raw_artifacts @
      map (\<lambda>path. (path, ''derived_evidence'')) derived_artifacts @
      [(''docs/EXPERIMENT_REPORT.md'', ''generated_report'')])"

definition normalized_bytes :: "ManifestFiles \<Rightarrow> string \<Rightarrow> string \<Rightarrow> string result" where
  "normalized_bytes mf path relative_path =
     rbind (ri_read (mf_inputs mf) path) (\<lambda>file.
       let content = take (max_artifact_bytes + 1) file in
       rbind (ensure (length content \<le> max_artifact_bytes)
         (''evidence artifact exceeds '' @ nat_str max_artifact_bytes @ '' bytes: '' @ relative_path)) (\<lambda>_.
         Inr (crlf_to_lf content)))"

record Artifact =
  art_path :: string
  art_role :: string
  art_sha256 :: string
  art_size_bytes :: nat

text \<open>\<open>path.is_relative_to(root)\<close> on resolved paths\<close>

definition is_relative_to :: "string \<Rightarrow> string \<Rightarrow> bool" where
  "is_relative_to base path =
     (path = base \<or> starts_with (if base \<noteq> [] \<and> last base = CHR ''/'' then base else base @ ''/'') path)"

definition mk_artifact :: "ManifestFiles \<Rightarrow> string \<Rightarrow> string \<times> string \<Rightarrow> Artifact result" where
  "mk_artifact mf base spec =
     (case spec of (relative_path, role) \<Rightarrow>
        let path = under base relative_path in
        rbind (ensure (\<not> mf_symlink mf path) (''evidence artifact must not be a symlink: '' @ relative_path)) (\<lambda>_.
        rbind (ensure (mf_is_file mf path) (''evidence artifact is missing: '' @ relative_path)) (\<lambda>_.
        rbind (ensure (is_relative_to base (mf_resolve mf path)) (''evidence artifact escapes project root: '' @ relative_path)) (\<lambda>_.
        rbind (normalized_bytes mf path relative_path) (\<lambda>content.
          Inr \<lparr>art_path = relative_path, art_role = role, art_sha256 = ri_sha256 (mf_inputs mf) content,
            art_size_bytes = length content\<rparr>)))))"

definition load_manifest :: "ManifestFiles \<Rightarrow> string \<Rightarrow> (string \<times> json) list result" where
  "load_manifest mf path =
     rbind (ri_read (mf_inputs mf) path) (\<lambda>file.
       let raw = take (max_manifest_bytes + 1) file in
       rbind (ensure (length raw \<le> max_manifest_bytes) (''evidence manifest exceeds '' @ nat_str max_manifest_bytes @ '' bytes'')) (\<lambda>_.
       rbind (ri_parse (mf_inputs mf) raw) (\<lambda>v.
       rbind (unique_json v) (\<lambda>_.
         case v of JObject d \<Rightarrow> Inr d | _ \<Rightarrow> Inl (ValueError ''evidence manifest must be a JSON object'')))))"

section \<open>The conditions of a manifest\<close>

definition validate_trial_inventory :: "ManifestFiles \<Rightarrow> string \<Rightarrow> unit result" where
  "validate_trial_inventory mf base =
     each (\<lambda>profile.
       ensure (sort (map file_name (ri_glob (mf_inputs mf) (under (under base ''evidence'') (''repeated/'' @ profile)))) = trial_log_names)
         (profile @ '' raw-log inventory must contain exactly trial-01.log through trial-20.log'')) bundle_profiles"

text \<open>\<open>path.read_text(encoding="utf-8")\<close>: every line end is read as a newline.\<close>

fun universal_newlines :: "string \<Rightarrow> string" where
  "universal_newlines [] = []"
| "universal_newlines [c] = [if c = CHR 0x0D then newline else c]"
| "universal_newlines (c # d # s) =
     (if c = CHR 0x0D then newline # universal_newlines (if d = newline then s else d # s)
      else c # universal_newlines (d # s))"

definition read_text_file :: "ManifestFiles \<Rightarrow> string \<Rightarrow> string result" where
  "read_text_file mf path =
     rbind (ri_read (mf_inputs mf) path) (\<lambda>raw.
       if mf_utf8 mf raw then Inr (universal_newlines raw) else Inl (ValueError ''invalid utf-8''))"

definition rendered_report :: "ReportInputs \<Rightarrow> string \<Rightarrow> string result" where
  "rendered_report ri base =
     (let evidence = under base ''evidence'' in
      render_report_from_paths ri (under evidence ''bfd-comparison.json'') (under evidence ''bfd-repeated-trials.json'')
        (under evidence ''failure-domain-audit.json'') base)"

definition validate_generated_claims :: "ManifestFiles \<Rightarrow> string \<Rightarrow> unit result" where
  "validate_generated_claims mf base =
     rbind (rendered_report (mf_inputs mf) base) (\<lambda>expected_report.
     rbind (read_text_file mf (under base ''docs/EXPERIMENT_REPORT.md'')) (\<lambda>report.
       ensure (report = expected_report) ''generated report does not match recomputed evidence''))"

section \<open>The manifest\<close>

definition artifact_json :: "Artifact \<Rightarrow> json" where
  "artifact_json a =
     JObject
       [(''path'', JString (art_path a)), (''role'', JString (art_role a)), (''sha256'', JString (art_sha256 a)),
        (''size_bytes'', JInt (int (art_size_bytes a)))]"

definition manifest_payload :: "Artifact list \<Rightarrow> string \<Rightarrow> (string \<times> json) list" where
  "manifest_payload artifacts configuration_sha256 =
     [(''schema_version'', JInt 1), (''bundle'', JString bundle_name), (''artifact_count'', JInt (int (length artifacts))),
      (''configuration_sha256'', JString configuration_sha256), (''artifacts'', JArray (map artifact_json artifacts))]"

text \<open>\<open>json.dumps(payload, sort_keys=True)\<close> without spaces, in ASCII.\<close>

definition artifact_text :: "Artifact \<Rightarrow> string" where
  "artifact_text a =
     json_object
       [json_member ''path'' (json_string (art_path a)), json_member ''role'' (json_string (art_role a)),
        json_member ''sha256'' (json_string (art_sha256 a)), json_member ''size_bytes'' (int_str (int (art_size_bytes a)))]"

definition payload_text :: "Artifact list \<Rightarrow> string \<Rightarrow> string" where
  "payload_text artifacts configuration_sha256 =
     json_object
       [json_member ''artifact_count'' (int_str (int (length artifacts))),
        json_member ''artifacts'' (json_array artifact_text artifacts), json_member ''bundle'' (json_string bundle_name),
        json_member ''configuration_sha256'' (json_string configuration_sha256), json_member ''schema_version'' (int_str 1)]"

definition bundle_artifacts :: "ManifestFiles \<Rightarrow> string \<Rightarrow> Artifact list result" where
  "bundle_artifacts mf base = traverse (mk_artifact mf base) artifact_specs"

definition manifest_document :: "(string \<Rightarrow> string) \<Rightarrow> Artifact list \<Rightarrow> string \<Rightarrow> (string \<times> json) list" where
  "manifest_document sha256 artifacts configuration_sha256 =
     manifest_payload artifacts configuration_sha256 @
       [(''bundle_sha256'', JString (sha256 (payload_text artifacts configuration_sha256)))]"

definition build_evidence_manifest :: "ManifestFiles \<Rightarrow> string \<Rightarrow> (string \<times> json) list result" where
  "build_evidence_manifest mf project =
     rbind (mf_resolve_strict mf project) (\<lambda>base.
     rbind (validate_trial_inventory mf base) (\<lambda>_.
     rbind (validate_generated_claims mf base) (\<lambda>_.
     rbind (bundle_artifacts mf base) (\<lambda>artifacts.
     rbind (ensure (sum_list (map art_size_bytes artifacts) \<le> max_bundle_bytes)
       (''evidence bundle exceeds '' @ nat_str max_bundle_bytes @ '' bytes'')) (\<lambda>_.
     rbind (configuration_fingerprint (ri_sha256 (mf_inputs mf)) (ri_read (mf_inputs mf)) base) (\<lambda>configuration_sha256.
       Inr (manifest_document (ri_sha256 (mf_inputs mf)) artifacts configuration_sha256)))))))"

definition verify_evidence_manifest :: "ManifestFiles \<Rightarrow> string \<Rightarrow> string \<Rightarrow> (string \<times> json) list result" where
  "verify_evidence_manifest mf project manifest_path =
     rbind (load_manifest mf manifest_path) (\<lambda>actual.
     rbind (build_evidence_manifest mf project) (\<lambda>expected.
     rbind (ensure (py_equal (JObject actual) (JObject expected)) ''evidence manifest mismatch: regenerate only after reviewing inputs'')
       (\<lambda>_. Inr
         [(''verified'', JBool True), (''artifact_count'', jget ''artifact_count'' expected),
          (''configuration_sha256'', jget ''configuration_sha256'' expected),
          (''bundle_sha256'', jget ''bundle_sha256'' expected)])))"

definition write_manifest :: "ManifestFiles \<Rightarrow> string \<Rightarrow> (string \<times> json) list \<Rightarrow> ManifestFiles result" where
  "write_manifest mf path manifest =
     rbind (ensure (\<not> mf_symlink mf path) ''evidence manifest output must not be a symlink'') (\<lambda>_.
       Inr (mf\<lparr>mf_inputs := (mf_inputs mf)\<lparr>ri_read := (ri_read (mf_inputs mf))(path := Inr (mf_dumps mf (JObject manifest) @ [newline]))\<rparr>,
         mf_is_file := (mf_is_file mf)(path := True)\<rparr>))"

datatype manifest_mode = GENERATE | VERIFY

text \<open>\<open>main\<close>: the files afterwards and the manifest or the result it reports\<close>

definition manifest_main ::
  "ManifestFiles \<Rightarrow> manifest_mode \<Rightarrow> string \<Rightarrow> string option \<Rightarrow> (ManifestFiles \<times> (string \<times> json) list) result" where
  "manifest_main mf mode project manifest_argument =
     rbind (mf_resolve_strict mf project) (\<lambda>base.
     let canonical = under (under base ''evidence'') ''manifest.json'';
         manifest = (case manifest_argument of None \<Rightarrow> canonical | Some path \<Rightarrow> path) in
     rbind (ensure (mf_absolute mf manifest = mf_absolute mf canonical) ''manifest must be the canonical evidence manifest'') (\<lambda>_.
       case mode of
         GENERATE \<Rightarrow>
           rbind (build_evidence_manifest mf base) (\<lambda>generated.
           rbind (write_manifest mf canonical generated) (\<lambda>written. Inr (written, generated)))
       | VERIFY \<Rightarrow> rbind (verify_evidence_manifest mf base canonical) (\<lambda>result. Inr (mf, result))))"

section \<open>What is read\<close>

lemma file_name_under: "file_name (under base path) = file_name path"
proof (cases "CHR ''/'' \<in> set path")
  case True
  then show ?thesis by (simp add: file_name_def under_def takeWhile_append1 [of "CHR ''/''"])
next
  case False
  then have "\<And>c. c \<in> set (rev path) \<Longrightarrow> c \<noteq> CHR ''/''" by auto
  then have "takeWhile (\<lambda>c. c \<noteq> CHR ''/'') (rev path @ r) = rev path @ takeWhile (\<lambda>c. c \<noteq> CHR ''/'') r" for r
    by (rule takeWhile_append2)
  note with_rest = this
  have "rev (under base path) = rev path @ CHR ''/'' # rev base" by (simp add: under_def)
  then have left: "takeWhile (\<lambda>c. c \<noteq> CHR ''/'') (rev (under base path)) = rev path" using with_rest by simp
  have right: "takeWhile (\<lambda>c. c \<noteq> CHR ''/'') (rev path) = rev path"
    using with_rest [of "[]"] by (simp only: append_Nil2 takeWhile.simps)
  show ?thesis unfolding file_name_def left right by (rule refl)
qed

lemma fold_res_same: "(\<And>s x. x \<in> set xs \<Longrightarrow> f s x = g s x) \<Longrightarrow> fold_res f s xs = fold_res g s xs"
  by (induction xs arbitrary: s) (auto simp: rbind_def split: sum.splits)

lemma traverse_same: "(\<And>x. x \<in> set xs \<Longrightarrow> f x = g x) \<Longrightarrow> traverse f xs = traverse g xs"
  by (induction xs) (auto simp: rbind_def split: sum.splits)

text \<open>The same files, except for those of one name, that parse to the same documents.\<close>

definition same_files :: "ReportInputs \<Rightarrow> ReportInputs \<Rightarrow> string \<Rightarrow> bool" where
  "same_files ri ri' name =
     (\<exists>f g. ri' = ri\<lparr>ri_read := f, ri_parse := g\<rparr> \<and>
       (\<forall>path. file_name path \<noteq> name \<longrightarrow> f path = ri_read ri path \<and>
         (\<forall>raw. f path = Inr raw \<longrightarrow> g (take (max_input_bytes + 1) raw) = ri_parse ri (take (max_input_bytes + 1) raw))))"

lemma same_fields:
  assumes "same_files ri ri' name"
  shows "ri_sha256 ri' = ri_sha256 ri" "ri_glob ri' = ri_glob ri" "ri_lines ri' = ri_lines ri"
    "ri_patterns ri' = ri_patterns ri" "ri_round2 ri' = ri_round2 ri" "ri_intent ri' = ri_intent ri"
    "ri_designs ri' = ri_designs ri" "ri_domains ri' = ri_domains ri"
  using assms by (auto simp: same_files_def)

lemma same_reads:
  assumes "same_files ri ri' name" "file_name path \<noteq> name"
  shows "ri_read ri' path = ri_read ri path" "bounded_read ri' path l = bounded_read ri path l"
    "read_raw_log ri' path = read_raw_log ri path" "report_json_object ri' path l = report_json_object ri path l"
proof -
  show r: "ri_read ri' path = ri_read ri path" using assms by (auto simp: same_files_def)
  then show b: "bounded_read ri' path l = bounded_read ri path l" for l by (simp add: bounded_read_def)
  have "ri_parse ri' raw = ri_parse ri raw" if "bounded_read ri path l = Inr raw" for raw l
  proof -
    from that obtain bytes where "ri_read ri path = Inr bytes" "raw = take (max_input_bytes + 1) bytes"
      by (auto simp: bounded_read_def rbind_eq_Inr Let_def)
    with assms show ?thesis by (auto simp: same_files_def)
  qed
  then show "report_json_object ri' path l = report_json_object ri path l"
    unfolding report_json_object_def b same_fields [OF assms(1)] by (intro rbind_cong refl) simp
  show "read_raw_log ri' path = read_raw_log ri path"
    unfolding read_raw_log_def b same_fields [OF assms(1)] by simp
qed

lemma same_logs:
  assumes "same_files ri ri' name" "\<forall>path \<in> set paths. file_name path \<noteq> name"
  shows "named_logs ri' profile paths n = named_logs ri profile paths n"
  unfolding named_logs_def
  by (rule fold_res_same) (use assms same_reads(3) in \<open>auto simp: add_named_log_def split: prod.splits\<close>)

lemma same_fingerprint:
  assumes "same_files ri ri' name" "\<forall>path \<in> set (configuration_files base). file_name path \<noteq> name"
  shows "configuration_fingerprint sha (ri_read ri') base = configuration_fingerprint sha (ri_read ri) base"
proof -
  have "traverse (\<lambda>path. rbind (ri_read ri' path) (\<lambda>raw. Inr (sha raw @ [newline]))) (configuration_files base) =
      traverse (\<lambda>path. rbind (ri_read ri path) (\<lambda>raw. Inr (sha raw @ [newline]))) (configuration_files base)"
    by (rule traverse_same) (use assms same_reads(1) in auto)
  then show ?thesis by (simp add: configuration_fingerprint_def)
qed

lemma configuration_file_names:
  "path \<in> set (configuration_files base) \<Longrightarrow> file_name path \<in> {''telconet.clab.yml'', ''intent.yml'', ''daemons'', ''frr.conf''}"
  unfolding configuration_files_def set_append set_sort by (auto simp: file_name_under) (auto simp: file_name_def)

lemma trial_log_no_manifest: "''manifest.json'' \<notin> set trial_log_names"
  by (simp add: trial_log_names_def image_iff)

lemma py_equal_get_right:
  assumes "py_equal (JObject d) (JObject e)" "jget k e \<noteq> JNull"
  shows "py_equal (jget k d) (jget k e)"
proof -
  obtain w where "map_of e k = Some w" using assms(2) by (auto simp: jget_def split: option.splits)
  then have "k \<in> set (dict_keys e)" by (metis list.set_map map_of_eq_None_iff option.distinct(1))
  then have "k \<in> set (dict_keys d)" using assms(1) by simp
  then obtain v where v: "map_of d k = Some v" by (metis list.set_map map_of_eq_None_iff option.exhaust)
  then have "(k, v) \<in> set d" by (rule map_of_SomeD)
  then show ?thesis using assms(1) v by (auto simp: list_all_iff jget_def split: option.splits)
qed

text \<open>A file of another name than those the report reads does not change the report.\<close>

definition report_names :: "string list" where
  "report_names =
     [''bfd-comparison.json'', ''bfd-repeated-trials.json'', ''failure-domain-audit.json'', ''remote-blackhole-ospf.log'',
      ''remote-blackhole-bfd.log'', ''telconet.clab.yml'', ''intent.yml'', ''daemons'', ''frr.conf''] @ trial_log_names"

lemma report_name_facts:
  "file_name ''bfd-comparison.json'' \<in> set report_names" "file_name ''bfd-repeated-trials.json'' \<in> set report_names"
  "file_name ''failure-domain-audit.json'' \<in> set report_names" "file_name ''remote-blackhole-ospf.log'' \<in> set report_names"
  "file_name ''remote-blackhole-bfd.log'' \<in> set report_names"
  "path \<in> set (configuration_files base) \<Longrightarrow> file_name path \<in> set report_names"
  using configuration_file_names [of path base] by (auto simp: report_names_def file_name_def)

lemma same_report:
  assumes "same_files ri ri' name" "name \<notin> set report_names"
    and "\<forall>profile \<in> set bundle_profiles. file_name ` set (ri_glob ri (under (under base ''evidence'') (''repeated/'' @ profile))) \<subseteq> set report_names"
  shows "rendered_report ri' base = rendered_report ri base"
proof -
  note f = same_fields [OF assms(1)] and r = same_reads [OF assms(1)]
  have other: "file_name path \<noteq> name" if "file_name path \<in> set report_names" for path using that assms(2) by blast
  have logs: "read_raw_log ri' (under (under base ''evidence'') ''remote-blackhole-ospf.log'') =
        read_raw_log ri (under (under base ''evidence'') ''remote-blackhole-ospf.log'')"
      "read_raw_log ri' (under (under base ''evidence'') ''remote-blackhole-bfd.log'') =
        read_raw_log ri (under (under base ''evidence'') ''remote-blackhole-bfd.log'')"
    by (rule r(3), rule other, simp add: file_name_under report_name_facts)+
  have comparison: "recompute_comparison ri' (under base ''evidence'') = recompute_comparison ri (under base ''evidence'')"
    by (simp add: recompute_comparison_def logs f)
  have paths: "trial_paths ri' e n profile = trial_paths ri e n profile" for e n profile
    by (simp add: trial_paths_def f)
  have named: "named_logs ri' profile paths k = named_logs ri profile paths k"
    if "profile \<in> set bundle_profiles" "trial_paths ri (under base ''evidence'') n profile = Inr paths" for profile paths n k
  proof (rule same_logs [OF assms(1)], intro ballI other)
    fix path assume "path \<in> set paths"
    then have "path \<in> set (ri_glob ri (under (under base ''evidence'') (''repeated/'' @ profile)))"
      using that(2) by (auto simp: trial_paths_def rbind_eq_Inr)
    then show "file_name path \<in> set report_names" using that(1) assms(3) by blast
  qed
  have profiles: "''ospf_only'' \<in> set bundle_profiles" "''bfd_100x3'' \<in> set bundle_profiles" by (simp_all add: bundle_profiles_def)
  have repeated: "recompute_repeated ri' (under base ''evidence'') n = recompute_repeated ri (under base ''evidence'') n" for n
    unfolding recompute_repeated_def paths f
    using named [OF profiles(1)] named [OF profiles(2)]
    by (auto simp: rbind_def split: sum.splits)
  have measured: "validate_measured_evidence ri' c d base = validate_measured_evidence ri c d base" for c d
    by (simp add: validate_measured_evidence_def comparison repeated)
  have domains: "validate_failure_domain_evidence ri' d base = validate_failure_domain_evidence ri d base" for d
    unfolding validate_failure_domain_evidence_def recompute_domains_def f by (rule refl)
  have fingerprint: "current_fingerprint ri' c d base = current_fingerprint ri c d base" for c d
    by (simp add: current_fingerprint_def f same_fingerprint [OF assms(1)] other report_name_facts)
  have documents: "report_json_object ri' (under (under base ''evidence'') document) l =
      report_json_object ri (under (under base ''evidence'') document) l"
    if "file_name document \<in> set report_names" for document l
    by (rule r(4), rule other) (simp add: file_name_under that)
  show ?thesis
    unfolding rendered_report_def Let_def render_report_from_paths_def
    by (simp only: documents report_name_facts measured domains fingerprint)
qed

section \<open>What a manifest says\<close>

text \<open>The contents of the bundle's files up to line ends, and the entries made of them.\<close>

definition bundle_contents :: "ManifestFiles \<Rightarrow> string \<Rightarrow> string list result" where
  "bundle_contents mf base = traverse (\<lambda>(path, role). normalized_bytes mf (under base path) path) artifact_specs"

definition bundle_entry :: "(string \<Rightarrow> string) \<Rightarrow> string \<times> string \<Rightarrow> string \<Rightarrow> Artifact" where
  "bundle_entry sha256 spec content =
     \<lparr>art_path = fst spec, art_role = snd spec, art_sha256 = sha256 content, art_size_bytes = length content\<rparr>"

definition bundle_entries :: "(string \<Rightarrow> string) \<Rightarrow> string list \<Rightarrow> Artifact list" where
  "bundle_entries sha256 contents = map2 (bundle_entry sha256) artifact_specs contents"

lemma bundle_artifacts_Inr:
  assumes "bundle_artifacts mf base = Inr artifacts"
  shows "\<exists>contents. bundle_contents mf base = Inr contents \<and> artifacts = bundle_entries (ri_sha256 (mf_inputs mf)) contents \<and>
    length contents = length artifact_specs \<and>
    (\<forall>(path, role) \<in> set artifact_specs. mf_is_file mf (under base path) \<and> \<not> mf_symlink mf (under base path) \<and>
      is_relative_to base (mf_resolve mf (under base path)))"
proof -
  have "list_all2 (\<lambda>spec a. mk_artifact mf base spec = Inr a) specs as \<Longrightarrow>
    \<exists>cs. list_all2 (\<lambda>spec c. (case spec of (path, role) \<Rightarrow> normalized_bytes mf (under base path) path) = Inr c) specs cs \<and>
      as = map2 (bundle_entry (ri_sha256 (mf_inputs mf))) specs cs \<and> length cs = length specs \<and>
      (\<forall>(path, role) \<in> set specs. mf_is_file mf (under base path) \<and> \<not> mf_symlink mf (under base path) \<and>
        is_relative_to base (mf_resolve mf (under base path)))" for specs as
  proof (induction specs as rule: list_all2_induct)
    case (Cons spec specs a as)
    obtain path role where p: "spec = (path, role)" by (cases spec)
    with Cons.hyps(1) obtain c where c: "normalized_bytes mf (under base path) path = Inr c"
      "a = bundle_entry (ri_sha256 (mf_inputs mf)) spec c" "mf_is_file mf (under base path)" "\<not> mf_symlink mf (under base path)"
      "is_relative_to base (mf_resolve mf (under base path))"
      by (auto simp: mk_artifact_def rbind_eq_Inr bundle_entry_def Let_def)
    from Cons.IH obtain cs where "list_all2 (\<lambda>spec c. (case spec of (path, role) \<Rightarrow> normalized_bytes mf (under base path) path) = Inr c) specs cs"
      "as = map2 (bundle_entry (ri_sha256 (mf_inputs mf))) specs cs" "length cs = length specs"
      "\<forall>(path, role) \<in> set specs. mf_is_file mf (under base path) \<and> \<not> mf_symlink mf (under base path) \<and>
        is_relative_to base (mf_resolve mf (under base path))" by blast
    with c p show ?case by (intro exI [of _ "c # cs"]) auto
  qed simp
  from this [of artifact_specs artifacts] assms show ?thesis
    by (auto simp: bundle_artifacts_def bundle_contents_def bundle_entries_def traverse_eq_Inr)
qed

lemma build_manifest_Inr:
  assumes "build_evidence_manifest mf project = Inr m"
  shows "\<exists>base contents configuration. mf_resolve_strict mf project = Inr base \<and> validate_trial_inventory mf base = Inr () \<and>
    validate_generated_claims mf base = Inr () \<and> bundle_artifacts mf base = Inr (bundle_entries (ri_sha256 (mf_inputs mf)) contents) \<and>
    bundle_contents mf base = Inr contents \<and> length contents = length artifact_specs \<and>
    configuration_fingerprint (ri_sha256 (mf_inputs mf)) (ri_read (mf_inputs mf)) base = Inr configuration \<and>
    m = manifest_document (ri_sha256 (mf_inputs mf)) (bundle_entries (ri_sha256 (mf_inputs mf)) contents) configuration"
proof -
  from assms obtain base artifacts configuration where
    b: "mf_resolve_strict mf project = Inr base" "validate_trial_inventory mf base = Inr ()" "validate_generated_claims mf base = Inr ()"
      "bundle_artifacts mf base = Inr artifacts"
      "configuration_fingerprint (ri_sha256 (mf_inputs mf)) (ri_read (mf_inputs mf)) base = Inr configuration"
      "m = manifest_document (ri_sha256 (mf_inputs mf)) artifacts configuration"
    by (auto simp: build_evidence_manifest_def rbind_eq_Inr)
  with bundle_artifacts_Inr [OF b(4)] show ?thesis by auto
qed

lemma manifest_gets:
  "jget ''artifact_count'' (manifest_document sha artifacts c) = JInt (int (length artifacts))"
  "jget ''configuration_sha256'' (manifest_document sha artifacts c) = JString c"
  "jget ''artifacts'' (manifest_document sha artifacts c) = JArray (map artifact_json artifacts)"
  "jget ''bundle_sha256'' (manifest_document sha artifacts c) = JString (sha (payload_text artifacts c))"
  by (simp_all add: manifest_document_def manifest_payload_def jget_def)

lemma artifact_spec_facts:
  "length artifact_specs = 64"
  "list_all (\<lambda>(path, role). file_name path \<noteq> ''manifest.json'') artifact_specs"
proof -
  show "length artifact_specs = 64"
    by (simp add: artifact_specs_def configuration_artifacts_def raw_artifacts_def derived_artifacts_def bundle_profiles_def trial_log_count)
  have "list_all (\<lambda>path. file_name path \<noteq> ''manifest.json'')
      (configuration_artifacts @ raw_artifacts @ derived_artifacts @ [''docs/EXPERIMENT_REPORT.md''])"
    by code_simp
  then show "list_all (\<lambda>(path, role). file_name path \<noteq> ''manifest.json'') artifact_specs"
    by (auto simp: artifact_specs_def list_all_iff)
qed

lemma bundle_entries_length: "length contents = length artifact_specs \<Longrightarrow> length (bundle_entries sha contents) = 64"
  by (simp add: bundle_entries_def artifact_spec_facts)

text \<open>The text that is hashed determines the entries.\<close>

lemma int_str_no_brace: "CHR ''}'' \<notin> set (int_str i)"
proof -
  have "CHR ''}'' \<notin> set (nat_str n)" for n
  proof
    assume "CHR ''}'' \<in> set (nat_str n)"
    with nat_str_digits [of n] have "is_digit (CHR ''}'')" by (simp add: list_all_iff)
    then show False by (simp add: is_digit_def less_eq_char_def)
  qed
  then show ?thesis by (simp add: int_str_def)
qed

lemma artifact_text_code: "prefix_code artifact_text"
  unfolding prefix_code_def
proof (intro allI impI)
  fix a b r r' assume eq: "artifact_text a @ r = artifact_text b @ r'"
  have "json_string (art_path a) @ CHR '','' # json_string ''role'' @ '':'' @ json_string (art_role a) @
      CHR '','' # json_string ''sha256'' @ '':'' @ json_string (art_sha256 a) @
      CHR '','' # json_string ''size_bytes'' @ '':'' @ int_str (int (art_size_bytes a)) @ CHR ''}'' # r =
    json_string (art_path b) @ CHR '','' # json_string ''role'' @ '':'' @ json_string (art_role b) @
      CHR '','' # json_string ''sha256'' @ '':'' @ json_string (art_sha256 b) @
      CHR '','' # json_string ''size_bytes'' @ '':'' @ int_str (int (art_size_bytes b)) @ CHR ''}'' # r'"
    using eq by (simp add: artifact_text_def json_object_def json_member_def)
  from prefix_codeD [OF json_string_code this] have p: "art_path a = art_path b"
    and 1: "json_string (art_role a) @ CHR '','' # json_string ''sha256'' @ '':'' @ json_string (art_sha256 a) @
      CHR '','' # json_string ''size_bytes'' @ '':'' @ int_str (int (art_size_bytes a)) @ CHR ''}'' # r =
    json_string (art_role b) @ CHR '','' # json_string ''sha256'' @ '':'' @ json_string (art_sha256 b) @
      CHR '','' # json_string ''size_bytes'' @ '':'' @ int_str (int (art_size_bytes b)) @ CHR ''}'' # r'" by simp_all
  from prefix_codeD [OF json_string_code 1] have q: "art_role a = art_role b"
    and 2: "json_string (art_sha256 a) @ CHR '','' # json_string ''size_bytes'' @ '':'' @ int_str (int (art_size_bytes a)) @ CHR ''}'' # r =
    json_string (art_sha256 b) @ CHR '','' # json_string ''size_bytes'' @ '':'' @ int_str (int (art_size_bytes b)) @ CHR ''}'' # r'"
    by simp_all
  from prefix_codeD [OF json_string_code 2] have s: "art_sha256 a = art_sha256 b"
    and 3: "int_str (int (art_size_bytes a)) @ CHR ''}'' # r = int_str (int (art_size_bytes b)) @ CHR ''}'' # r'" by simp_all
  have "CHR ''}'' \<notin> set (int_str (int n))" for n by (rule int_str_no_brace)
  from split_at_separator [OF 3 this this] have "art_size_bytes a = art_size_bytes b \<and> r = r'"
    using int_str_inj [of "int (art_size_bytes a)" "int (art_size_bytes b)"] by simp
  with p q s show "a = b \<and> r = r'" by simp
qed

lemma payload_text_determines:
  assumes "payload_text as c = payload_text bs d"
  shows "as = bs \<and> c = d"
proof -
  have "int_str (int (length as)) @ CHR '','' # json_string ''artifacts'' @ '':'' @ json_array artifact_text as @
      CHR '','' # json_string ''bundle'' @ '':'' @ json_string bundle_name @
      CHR '','' # json_string ''configuration_sha256'' @ '':'' @ json_string c @ CHR '','' # json_string ''schema_version'' @ '':'' @ int_str 1 @ ''}'' =
    int_str (int (length bs)) @ CHR '','' # json_string ''artifacts'' @ '':'' @ json_array artifact_text bs @
      CHR '','' # json_string ''bundle'' @ '':'' @ json_string bundle_name @
      CHR '','' # json_string ''configuration_sha256'' @ '':'' @ json_string d @ CHR '','' # json_string ''schema_version'' @ '':'' @ int_str 1 @ ''}''"
    using assms by (simp add: payload_text_def json_object_def json_member_def)
  from int_comma_code [OF this] have
    1: "json_array artifact_text as @ CHR '','' # json_string ''bundle'' @ '':'' @ json_string bundle_name @
      CHR '','' # json_string ''configuration_sha256'' @ '':'' @ json_string c @ CHR '','' # json_string ''schema_version'' @ '':'' @ int_str 1 @ ''}'' =
    json_array artifact_text bs @ CHR '','' # json_string ''bundle'' @ '':'' @ json_string bundle_name @
      CHR '','' # json_string ''configuration_sha256'' @ '':'' @ json_string d @ CHR '','' # json_string ''schema_version'' @ '':'' @ int_str 1 @ ''}''"
    by simp
  have "prefix_code (json_array artifact_text)"
    by (rule json_array_code [OF artifact_text_code]) (simp add: artifact_text_def json_object_def)
  from prefix_codeD [OF this 1] have a: "as = bs"
    and 2: "json_string c @ CHR '','' # json_string ''schema_version'' @ '':'' @ int_str 1 @ ''}'' =
      json_string d @ CHR '','' # json_string ''schema_version'' @ '':'' @ int_str 1 @ ''}''" by simp_all
  from prefix_codeD [OF json_string_code 2] a show ?thesis by simp
qed

section \<open>Properties\<close>

text \<open>
  C34: A verified manifest describes the files as they are. When verification succeeds, every
  listed artifact is a file inside the project and no symbolic link, the manifest lists exactly
  the bundle's files with the hash and size their current contents have up to line ends, both
  profiles have exactly the raw logs 01 to 20, and the published report is the text the
  evidence renders to now.
\<close>

theorem verified_manifest:
  assumes "verify_evidence_manifest mf project path = Inr v"
  shows "\<exists>base actual contents report. mf_resolve_strict mf project = Inr base \<and> load_manifest mf path = Inr actual \<and>
    bundle_contents mf base = Inr contents \<and>
    py_equal (jget ''artifacts'' actual)
      (JArray (map artifact_json (bundle_entries (ri_sha256 (mf_inputs mf)) contents))) \<and>
    (\<forall>(relative_path, role) \<in> set artifact_specs. mf_is_file mf (under base relative_path) \<and>
      \<not> mf_symlink mf (under base relative_path) \<and> is_relative_to base (mf_resolve mf (under base relative_path))) \<and>
    (\<forall>profile \<in> set bundle_profiles.
      sort (map file_name (ri_glob (mf_inputs mf) (under (under base ''evidence'') (''repeated/'' @ profile)))) = trial_log_names) \<and>
    rendered_report (mf_inputs mf) base = Inr report \<and>
    read_text_file mf (under base ''docs/EXPERIMENT_REPORT.md'') = Inr report"
proof -
  from assms obtain actual m where a: "load_manifest mf path = Inr actual" "build_evidence_manifest mf project = Inr m"
    "py_equal (JObject actual) (JObject m)"
    unfolding verify_evidence_manifest_def rbind_eq_Inr ensure_simps by blast
  from build_manifest_Inr [OF a(2)] obtain base contents configuration where
    b: "mf_resolve_strict mf project = Inr base" "validate_trial_inventory mf base = Inr ()" "validate_generated_claims mf base = Inr ()"
      "bundle_artifacts mf base = Inr (bundle_entries (ri_sha256 (mf_inputs mf)) contents)" "bundle_contents mf base = Inr contents"
    and m: "m = manifest_document (ri_sha256 (mf_inputs mf)) (bundle_entries (ri_sha256 (mf_inputs mf)) contents) configuration"
    by blast
  have "jget ''artifacts'' m = JArray (map artifact_json (bundle_entries (ri_sha256 (mf_inputs mf)) contents))"
    unfolding m by (rule manifest_gets)
  moreover have "py_equal (jget ''artifacts'' actual) (jget ''artifacts'' m)"
    by (rule py_equal_get_right [OF a(3)]) (simp add: m manifest_gets)
  moreover obtain report where "rendered_report (mf_inputs mf) base = Inr report"
      "read_text_file mf (under base ''docs/EXPERIMENT_REPORT.md'') = Inr report"
    using b(3) unfolding validate_generated_claims_def rbind_eq_Inr ensure_simps by blast
  moreover have "\<forall>profile \<in> set bundle_profiles.
      sort (map file_name (ri_glob (mf_inputs mf) (under (under base ''evidence'') (''repeated/'' @ profile)))) = trial_log_names"
    using b(2) unfolding validate_trial_inventory_def each_eq_Inr ensure_simps .
  moreover from bundle_artifacts_Inr [OF b(4)] have "\<forall>(relative_path, role) \<in> set artifact_specs. mf_is_file mf (under base relative_path) \<and>
      \<not> mf_symlink mf (under base relative_path) \<and> is_relative_to base (mf_resolve mf (under base relative_path))" by blast
  ultimately show ?thesis using a(1) b(1,5) by (metis (no_types, lifting))
qed

definition bundle_texts :: "(string \<Rightarrow> string) \<Rightarrow> string list \<Rightarrow> string \<Rightarrow> string set" where
  "bundle_texts sha256 contents configuration =
     insert (payload_text (bundle_entries sha256 contents) configuration) (set contents)"

lemma bundle_entries_inj:
  assumes "bundle_entries sha256 contents = bundle_entries sha256 contents'" "length contents = length artifact_specs"
    and "length contents' = length artifact_specs" "inj_on sha256 (set contents \<union> set contents')"
  shows "contents = contents'"
proof -
  have "map sha256 cs = map art_sha256 (map2 (bundle_entry sha256) specs cs)" if "length cs = length specs" for cs specs
    using that by (induction cs specs rule: list_induct2) (auto simp: bundle_entry_def)
  then have "map sha256 contents = map sha256 contents'" using assms(1-3) unfolding bundle_entries_def by metis
  then show ?thesis using assms(4) by (rule map_inj_on)
qed

text \<open>
  C35: The bundle hash identifies the evidence. For two checkouts whose manifests build, and a
  hash without collision among the texts that are actually hashed, the bundle hashes are equal
  exactly when every file of the bundle has the same content up to its line ends and the
  configurations have the same fingerprint.
\<close>

theorem bundle_binds:
  assumes "build_evidence_manifest mf project = Inr m" "mf_resolve_strict mf project = Inr base"
    and "build_evidence_manifest mf' project' = Inr m'" "mf_resolve_strict mf' project' = Inr base'"
    and "bundle_contents mf base = Inr contents" "bundle_contents mf' base' = Inr contents'"
    and "jget ''configuration_sha256'' m = JString c" "jget ''configuration_sha256'' m' = JString c'"
    and "ri_sha256 (mf_inputs mf) = sha256" "ri_sha256 (mf_inputs mf') = sha256"
    and "inj_on sha256 (bundle_texts sha256 contents c \<union> bundle_texts sha256 contents' c')"
  shows "jget ''bundle_sha256'' m = jget ''bundle_sha256'' m' \<longleftrightarrow> contents = contents' \<and> c = c'"
proof -
  from build_manifest_Inr [OF assms(1)] assms(2,5,7,9) have
    m: "m = manifest_document sha256 (bundle_entries sha256 contents) c" "length contents = length artifact_specs"
    by (auto simp: manifest_gets)
  from build_manifest_Inr [OF assms(3)] assms(4,6,8,10) have
    m': "m' = manifest_document sha256 (bundle_entries sha256 contents') c'" "length contents' = length artifact_specs"
    by (auto simp: manifest_gets)
  have "sha256 (payload_text (bundle_entries sha256 contents) c) = sha256 (payload_text (bundle_entries sha256 contents') c') \<longleftrightarrow>
      payload_text (bundle_entries sha256 contents) c = payload_text (bundle_entries sha256 contents') c'"
    by (rule inj_on_eq_iff [OF assms(11)]) (simp_all add: bundle_texts_def)
  moreover have "inj_on sha256 (set contents \<union> set contents')"
    by (rule inj_on_subset [OF assms(11)]) (auto simp: bundle_texts_def)
  ultimately show ?thesis
    using payload_text_determines [of "bundle_entries sha256 contents" c "bundle_entries sha256 contents'" c']
      bundle_entries_inj [OF _ m(2) m'(2)] unfolding m(1) m'(1) manifest_gets by auto
qed

text \<open>What \<open>json.loads\<close> returns for the text \<open>json.dumps\<close> wrote: an equal document.\<close>

definition json_round_trips :: "ManifestFiles \<Rightarrow> (string \<times> json) list \<Rightarrow> bool" where
  "json_round_trips mf m =
     (case ri_parse (mf_inputs mf) (mf_dumps mf (JObject m) @ [newline]) of
        Inl _ \<Rightarrow> False
      | Inr v \<Rightarrow> unique_json v = Inr () \<and> py_equal v (JObject m))"

text \<open>The files after the manifest was written build the same manifest.\<close>

lemma written_files:
  assumes "write_manifest mf path m = Inr mf'"
  shows "mf_inputs mf' = (mf_inputs mf)\<lparr>ri_read := (ri_read (mf_inputs mf))(path := Inr (mf_dumps mf (JObject m) @ [newline]))\<rparr>"
    "mf_resolve_strict mf' = mf_resolve_strict mf" "mf_resolve mf' = mf_resolve mf" "mf_absolute mf' = mf_absolute mf"
    "mf_symlink mf' = mf_symlink mf" "mf_is_file mf' = (mf_is_file mf)(path := True)" "mf_utf8 mf' = mf_utf8 mf"
  using assms by (auto simp: write_manifest_def rbind_eq_Inr)

lemma build_after_write:
  assumes "write_manifest mf path doc = Inr mf'" "file_name path = ''manifest.json''" "build_evidence_manifest mf project = Inr m"
  shows "build_evidence_manifest mf' project = Inr m"
proof -
  note w = written_files [OF assms(1)]
  have sf: "same_files (mf_inputs mf) (mf_inputs mf') ''manifest.json''"
    unfolding same_files_def w(1)
    by (rule exI [of _ "(ri_read (mf_inputs mf))(path := Inr (mf_dumps mf (JObject doc) @ [newline]))"],
      rule exI [of _ "ri_parse (mf_inputs mf)"]) (use assms(2) in auto)
  note f = same_fields [OF sf] and r = same_reads [OF sf]
  from build_manifest_Inr [OF assms(3)] obtain base where base: "mf_resolve_strict mf project = Inr base"
    and inventory: "validate_trial_inventory mf base = Inr ()" by blast
  have "file_name ` set (ri_glob (mf_inputs mf) (under (under base ''evidence'') (''repeated/'' @ profile))) = set trial_log_names"
    if "profile \<in> set bundle_profiles" for profile
  proof -
    have "sort (map file_name (ri_glob (mf_inputs mf) (under (under base ''evidence'') (''repeated/'' @ profile)))) = trial_log_names"
      using inventory that unfolding validate_trial_inventory_def each_eq_Inr ensure_simps by blast
    from arg_cong [OF this, of set] show ?thesis by (simp only: set_sort set_map)
  qed
  then have report: "rendered_report (mf_inputs mf') base = rendered_report (mf_inputs mf) base"
    by (intro same_report [OF sf]) (auto simp: report_names_def trial_log_no_manifest)
  have artifact: "mk_artifact mf' base spec = mk_artifact mf base spec" if "spec \<in> set artifact_specs" for spec
  proof -
    obtain p role where p: "spec = (p, role)" by (cases spec)
    have n: "file_name (under base p) \<noteq> ''manifest.json''"
      using that artifact_spec_facts(2) by (auto simp: p list_all_iff file_name_under)
    then have "under base p \<noteq> path" using assms(2) by auto
    then show ?thesis
      unfolding mk_artifact_def normalized_bytes_def p split_conv Let_def w(3,5,6) r(1) [OF n] f by simp
  qed
  have "bundle_artifacts mf' base = bundle_artifacts mf base"
    unfolding bundle_artifacts_def by (rule traverse_same) (rule artifact)
  moreover have report_name: "file_name (under base ''docs/EXPERIMENT_REPORT.md'') \<noteq> ''manifest.json''"
    unfolding file_name_under by (simp add: file_name_def)
  moreover have "read_text_file mf' (under base ''docs/EXPERIMENT_REPORT.md'') = read_text_file mf (under base ''docs/EXPERIMENT_REPORT.md'')"
    unfolding read_text_file_def w(7) r(1) [OF report_name] by (rule refl)
  moreover have "\<forall>p \<in> set (configuration_files base). file_name p \<noteq> ''manifest.json''"
    using configuration_file_names by fastforce
  ultimately show ?thesis
    using assms(3) report same_fingerprint [OF sf]
    unfolding build_evidence_manifest_def w(2) base rbind_simps validate_trial_inventory_def validate_generated_claims_def f by simp
qed

lemma verify_after_generate:
  assumes "manifest_main mf GENERATE project argument = Inr (mf', m)" "json_round_trips mf m"
    and "length (mf_dumps mf (JObject m)) < max_manifest_bytes"
  shows "manifest_main mf' VERIFY project argument =
    Inr (mf', [(''verified'', JBool True), (''artifact_count'', JInt 64), (''configuration_sha256'', jget ''configuration_sha256'' m),
      (''bundle_sha256'', jget ''bundle_sha256'' m)])"
proof -
  from assms(1) obtain base where base: "mf_resolve_strict mf project = Inr base"
    and argument: "mf_absolute mf (case argument of None \<Rightarrow> under (under base ''evidence'') ''manifest.json'' | Some path \<Rightarrow> path) =
      mf_absolute mf (under (under base ''evidence'') ''manifest.json'')"
    and m: "build_evidence_manifest mf base = Inr m"
    and w: "write_manifest mf (under (under base ''evidence'') ''manifest.json'') m = Inr mf'"
    by (auto simp: manifest_main_def rbind_eq_Inr Let_def)
  have name: "file_name (under (under base ''evidence'') ''manifest.json'') = ''manifest.json''"
    unfolding file_name_under by (simp add: file_name_def)
  note built = build_after_write [OF w name m] and f = written_files [OF w]
  from build_manifest_Inr [OF m] have counted: "jget ''artifact_count'' m = JInt 64"
    using bundle_entries_length by (auto simp: manifest_gets)
  obtain v where v: "ri_parse (mf_inputs mf) (mf_dumps mf (JObject m) @ [newline]) = Inr v" "unique_json v = Inr ()" "py_equal v (JObject m)"
    using assms(2) by (auto simp: json_round_trips_def split: sum.splits)
  then obtain d where d: "v = JObject d" by (cases v) auto
  have "load_manifest mf' (under (under base ''evidence'') ''manifest.json'') = Inr d"
    using assms(3) v(1,2) by (simp add: load_manifest_def f(1) d del: unique_json.simps)
  then have "verify_evidence_manifest mf' base (under (under base ''evidence'') ''manifest.json'') =
      Inr [(''verified'', JBool True), (''artifact_count'', JInt 64), (''configuration_sha256'', jget ''configuration_sha256'' m),
        (''bundle_sha256'', jget ''bundle_sha256'' m)]"
    using v(3) unfolding verify_evidence_manifest_def d by (simp only: rbind_simps built counted ensure_def if_True)
  then show ?thesis
    using argument unfolding manifest_main_def f(2,4) base rbind_simps Let_def manifest_mode.case
    by (simp only: ensure_def simp_thms if_True rbind_simps)
qed

text \<open>
  C33: A generated manifest verifies. When the program has written the manifest of a checkout,
  running it again to verify succeeds and states the written hashes of all 64 artifacts; the
  written file itself is no input of the manifest. The text of a manifest is assumed to parse
  to an equal document and to be smaller than a megabyte.
\<close>

theorem generated_manifest_verifies:
  assumes "manifest_main mf GENERATE project argument = Inr (mf', m)" "json_round_trips mf m"
    and "length (mf_dumps mf (JObject m)) < max_manifest_bytes"
  shows "manifest_main mf' VERIFY project argument =
    Inr (mf', [(''verified'', JBool True), (''artifact_count'', JInt 64), (''configuration_sha256'', jget ''configuration_sha256'' m),
      (''bundle_sha256'', jget ''bundle_sha256'' m)])"
  by (rule verify_after_generate [OF assms])

section \<open>The lab's bundle\<close>

text \<open>The lab at \<open>p\<close> with its report, and the manifest of its files.\<close>

definition lab_raw :: "string \<Rightarrow> string \<Rightarrow> string result" where
  "lab_raw report path =
     (if path = ''p/docs/EXPERIMENT_REPORT.md'' then Inr report else ri_read (report_inputs [] [] []) path)"

definition lab_contents :: "string \<Rightarrow> string list" where
  "lab_contents report =
     map (\<lambda>(path, role). case lab_raw report (under ''p'' path) of Inr raw \<Rightarrow> crlf_to_lf raw | Inl _ \<Rightarrow> []) artifact_specs"

definition lab_manifest :: "string \<Rightarrow> (string \<times> json) list" where
  "lab_manifest report = manifest_document lab_hash (bundle_entries lab_hash (lab_contents report)) lab_sha"

definition lab_bundle ::
  "(string \<times> json) list \<Rightarrow> (string \<times> json) list \<Rightarrow> (string \<times> json) list \<Rightarrow> string \<Rightarrow> ManifestFiles" where
  "lab_bundle c r d report =
     \<lparr>mf_inputs = (report_inputs c r d)\<lparr>ri_read := lab_raw report,
        ri_parse := (\<lambda>raw. if raw = [CHR ''m'', newline] then Inr (JObject (lab_manifest report)) else ri_parse (report_inputs c r d) raw)\<rparr>,
      mf_resolve_strict = Inr, mf_resolve = (\<lambda>path. path), mf_absolute = (\<lambda>path. path), mf_symlink = (\<lambda>_. False),
      mf_is_file = (\<lambda>_. True), mf_utf8 = (\<lambda>_. True), mf_dumps = (\<lambda>_. ''m'')\<rparr>"

text \<open>The lines of the lab's report are short and hold no carriage return.\<close>

definition lab_lines :: "Trial list \<Rightarrow> Trial list \<Rightarrow> string list result" where
  "lab_lines ts ts' =
     rbind (parse_detection_log report_patterns (report_log ''ospf_only'' [])) (\<lambda>ospf.
     rbind (parse_detection_log report_patterns (report_log ''bfd_100x3'' [''peer up''])) (\<lambda>bfd.
     rbind (recompute_domains (report_inputs [] [] []) ''p'') (\<lambda>a.
     let c = comparison_document ospf bfd 0 0; r = repeated_document 20 (lab_profile ts) (lab_profile ts') 0 0 in
     rbind (report_facts c r (domain_members a) lab_sha) (\<lambda>f.
       render_lines f c r (domain_members a)
         [(''comparison'', ''p/evidence/bfd-comparison.json'', ''c''), (''repeated'', ''p/evidence/bfd-repeated-trials.json'', ''r''),
          (''failure-domain'', ''p/evidence/failure-domain-audit.json'', ''d'')]))))"

lemma lab_lines_short:
  "case lab_lines ts ts' of Inl e \<Rightarrow> False
   | Inr lines \<Rightarrow> length lines \<le> 100 \<and> list_all (\<lambda>l. length l \<le> 400 \<and> list_all (\<lambda>c. c \<noteq> CHR 0x0D) l) lines"
  by code_simp

lemma lab_reads: "ri_read (report_inputs c r d) = ri_read (report_inputs [] [] [])"
  by (simp add: report_inputs_def)

lemma lab_bundle_fields:
  "mf_symlink (lab_bundle c r d report) = (\<lambda>_. False)" "mf_is_file (lab_bundle c r d report) = (\<lambda>_. True)"
  "mf_resolve (lab_bundle c r d report) = (\<lambda>path. path)" "mf_resolve_strict (lab_bundle c r d report) = Inr"
  "mf_utf8 (lab_bundle c r d report) = (\<lambda>_. True)" "mf_dumps (lab_bundle c r d report) = (\<lambda>_. ''m'')"
  "mf_absolute (lab_bundle c r d report) = (\<lambda>path. path)"
  "ri_sha256 (mf_inputs (lab_bundle c r d report)) = lab_hash" "ri_read (mf_inputs (lab_bundle c r d report)) = lab_raw report"
  "ri_parse (mf_inputs (lab_bundle c r d report)) [CHR ''m'', newline] = Inr (JObject (lab_manifest report))"
  by (simp_all add: lab_bundle_def report_inputs_def)

lemma one_letter: "\<exists>x. (if P then ''c'' else if Q then ''r'' else if R then ''d'' else if S then ''o'' else ''b'') = [x]"
  by (cases P; cases Q; cases R; cases S) simp_all

lemma read_letter: "\<exists>x. ri_read (report_inputs c r d) path = Inr [x]"
  by (simp only: report_inputs_def ReportInputs.select_convs sum.inject) (rule one_letter)

lemma lab_raw_small: "\<exists>raw. lab_raw report path = Inr raw \<and> (raw = report \<or> length raw = 1)"
proof -
  obtain x where "ri_read (report_inputs [] [] []) path = Inr [x]" using read_letter by blast
  then show ?thesis unfolding lab_raw_def by (cases "path = ''p/docs/EXPERIMENT_REPORT.md''") simp_all
qed

lemma crlf_length: "length (crlf_to_lf s) \<le> length s"
  by (induction s rule: crlf_to_lf.induct) auto

lemma same_lab_files: "same_files (report_inputs c r d) (mf_inputs (lab_bundle c r d report)) ''EXPERIMENT_REPORT.md''"
proof -
  have "lab_raw report path = ri_read (report_inputs c r d) path" if "file_name path \<noteq> ''EXPERIMENT_REPORT.md''" for path
    using that by (auto simp: lab_raw_def lab_reads [of c r d] file_name_def)
  moreover have "take (max_input_bytes + 1) raw \<noteq> [CHR ''m'', newline]" if read: "ri_read (report_inputs c r d) path = Inr raw" for path raw
  proof -
    obtain x where "raw = [x]" using read read_letter [of c r d path] by auto
    then show ?thesis by simp
  qed
  ultimately show ?thesis
    unfolding same_files_def
    by (intro exI [of _ "lab_raw report"] exI [of _ "\<lambda>raw. if raw = [CHR ''m'', newline] then Inr (JObject (lab_manifest report))
        else ri_parse (report_inputs c r d) raw"]) (simp add: lab_bundle_def)
qed

lemma lab_glob: "ri_glob (report_inputs c r d) path = map (\<lambda>name. path @ ''/'' @ name) trial_log_names"
  by (simp add: report_inputs_def)

lemma glob_names: "map file_name (ri_glob (report_inputs c r d) path) = map file_name trial_log_names"
proof -
  have "file_name (path @ ''/'' @ name) = file_name name" for name
    using file_name_under [of path name] by (simp only: under_def)
  then show ?thesis unfolding lab_glob map_map by (intro map_cong refl) (simp only: comp_apply)
qed

lemma log_names: "sort (map file_name trial_log_names) = trial_log_names" "set (map file_name trial_log_names) \<subseteq> set report_names"
  by code_simp+

lemma lab_inventory: "validate_trial_inventory (lab_bundle c r d report) ''p'' = Inr ()"
proof -
  have "ri_glob (mf_inputs (lab_bundle c r d report)) = ri_glob (report_inputs c r d)" by (simp add: lab_bundle_def)
  then show ?thesis unfolding validate_trial_inventory_def each_eq_Inr ensure_simps by (simp only: glob_names log_names) blast
qed

lemma lab_bundle_report: "rendered_report (mf_inputs (lab_bundle c r d report)) ''p'' = lab_report c r d"
proof -
  have names: "file_name ` set (ri_glob (report_inputs c r d) path) \<subseteq> set report_names" for path
    using glob_names [of c r d path] log_names(2) by (metis list.set_map)
  have "''EXPERIMENT_REPORT.md'' \<notin> set report_names" by code_simp
  then have "rendered_report (mf_inputs (lab_bundle c r d report)) ''p'' = rendered_report (report_inputs c r d) ''p''"
    by (rule same_report [OF same_lab_files]) (intro ballI names)
  then show ?thesis by (simp only: rendered_report_def lab_report_def lab_file_def Let_def)
qed

lemma lab_artifacts:
  assumes "length report \<le> 50000"
  shows "bundle_artifacts (lab_bundle c r d report) ''p'' = Inr (bundle_entries lab_hash (lab_contents report))"
    "bundle_contents (lab_bundle c r d report) ''p'' = Inr (lab_contents report)"
    "sum_list (map art_size_bytes (bundle_entries lab_hash (lab_contents report))) \<le> max_bundle_bytes"
proof -
  let ?mf = "lab_bundle c r d report"
  let ?content = "\<lambda>path. case lab_raw report (under ''p'' path) of Inr raw \<Rightarrow> crlf_to_lf raw | Inl _ \<Rightarrow> []"
  have content: "normalized_bytes ?mf (under ''p'' path) path = Inr (?content path)" "length (?content path) \<le> 50000" for path
  proof -
    obtain raw where raw: "lab_raw report (under ''p'' path) = Inr raw" "length raw \<le> 50000"
      using lab_raw_small [of report "under ''p'' path"] assms by auto
    moreover have "take (max_artifact_bytes + 1) raw = raw" using raw(2) by (simp add: max_artifact_bytes_def)
    moreover have "length raw \<le> max_artifact_bytes" using raw(2) by (simp add: max_artifact_bytes_def)
    ultimately show "normalized_bytes ?mf (under ''p'' path) path = Inr (?content path)" "length (?content path) \<le> 50000"
      using crlf_length [of raw] by (simp_all add: normalized_bytes_def lab_bundle_fields Let_def)
  qed
  have below: "is_relative_to ''p'' (under ''p'' path)" for path
    by (simp add: is_relative_to_def under_def starts_with_def)
  have "mk_artifact ?mf ''p'' spec = Inr (bundle_entry lab_hash spec (?content (fst spec)))" for spec
    by (cases spec) (simp add: mk_artifact_def content Let_def below bundle_entry_def lab_bundle_fields)
  then have "bundle_artifacts ?mf ''p'' = Inr (map (\<lambda>spec. bundle_entry lab_hash spec (?content (fst spec))) artifact_specs)"
    unfolding bundle_artifacts_def by (rule traverse_total)
  moreover have "map (\<lambda>spec. bundle_entry lab_hash spec (?content (fst spec))) specs =
      map2 (bundle_entry lab_hash) specs (map (\<lambda>(path, role). ?content path) specs)" for specs
    by (induction specs) auto
  ultimately show "bundle_artifacts ?mf ''p'' = Inr (bundle_entries lab_hash (lab_contents report))"
    by (simp only: bundle_entries_def lab_contents_def)
  show "bundle_contents ?mf ''p'' = Inr (lab_contents report)"
    unfolding bundle_contents_def lab_contents_def by (rule traverse_total) (simp add: content split: prod.splits)
  have "sum_list (map art_size_bytes (map2 (bundle_entry lab_hash) specs (map (\<lambda>(path, role). ?content path) specs))) \<le> length specs * 50000" for specs
  proof (induction specs)
    case (Cons spec specs)
    then show ?case using content(2) [of "fst spec"] by (cases spec) (simp add: bundle_entry_def)
  qed simp
  from this [of artifact_specs] show "sum_list (map art_size_bytes (bundle_entries lab_hash (lab_contents report))) \<le> max_bundle_bytes"
    unfolding bundle_entries_def lab_contents_def artifact_spec_facts(1) by (simp add: max_bundle_bytes_def)
qed

lemma join_bound:
  assumes "list_all (\<lambda>l. length l \<le> n \<and> list_all (\<lambda>c. c \<noteq> CHR 0x0D) l) ls"
  shows "length (join [newline] ls) \<le> length ls * (n + 1) \<and> CHR 0x0D \<notin> set (join [newline] ls)"
  using assms
proof (induction ls)
  case (Cons l ls)
  then show ?case by (cases ls) (auto simp: list_all_iff newline_def)
qed simp

lemma universal_newlines_same: "CHR 0x0D \<notin> set s \<Longrightarrow> universal_newlines s = s"
  by (induction s rule: universal_newlines.induct) auto

lemma lab_domains_same: "recompute_domains (report_inputs c r d) ''p'' = recompute_domains (report_inputs [] [] []) ''p''"
proof -
  have fields: "ri_intent (report_inputs c r d) = ri_intent (report_inputs [] [] [])"
      "ri_sha256 (report_inputs c r d) = ri_sha256 (report_inputs [] [] [])"
      "ri_designs (report_inputs c r d) = ri_designs (report_inputs [] [] [])"
      "ri_domains (report_inputs c r d) = ri_domains (report_inputs [] [] [])"
    by (simp_all add: report_inputs_def)
  show ?thesis by (simp only: recompute_domains_def fields)
qed

lemma text_starts:
  "\<exists>rest. topology_text t = CHR ''{'' # quote # CHR ''l'' # rest"
  "\<exists>rest. payload_text artifacts configuration = CHR ''{'' # quote # CHR ''a'' # rest"
proof -
  have "json_char (CHR ''l'') = ''l''" "json_char (CHR ''a'') = ''a''" by code_simp+
  then show "\<exists>rest. topology_text t = CHR ''{'' # quote # CHR ''l'' # rest"
      "\<exists>rest. payload_text artifacts configuration = CHR ''{'' # quote # CHR ''a'' # rest"
    by (simp_all add: topology_text_def payload_text_def json_object_def json_member_def json_string_def)
qed

lemma lab_hash_same:
  assumes "s = CHR ''<'' # rest \<or> length s \<le> 1 \<or> s = payload_text artifacts configuration"
  shows "lab_hash s = s"
proof -
  obtain x where x: "topology_text dual_topology = CHR ''{'' # quote # CHR ''l'' # x" using text_starts(1) by blast
  obtain y where y: "payload_text artifacts configuration = CHR ''{'' # quote # CHR ''a'' # y" using text_starts(2) by blast
  have "s \<noteq> topology_text dual_topology" unfolding x using assms y by auto
  moreover have "s \<noteq> concat (replicate 9 [CHR ''b'', newline])" using assms y by (auto simp: numeral_eq_Suc)
  ultimately show ?thesis by (simp add: lab_hash_def)
qed

lemma lab_text:
  assumes "parse_detection_log report_patterns (report_log ''ospf_only'' []) = Inr ospf"
    and "parse_detection_log report_patterns (report_log ''bfd_100x3'' [''peer up'']) = Inr bfd"
    and "lab_run ospf bfd (lab_profile ts) (lab_profile ts') a"
    and "lab_report (comparison_document ospf bfd 0 0) (repeated_document 20 (lab_profile ts) (lab_profile ts') 0 0) (domain_members a) = Inr report"
  shows "length report \<le> 50000 \<and> CHR 0x0D \<notin> set report \<and> (\<exists>rest. report = CHR ''<'' # rest)"
proof -
  let ?c = "comparison_document ospf bfd 0 0" and ?r = "repeated_document 20 (lab_profile ts) (lab_profile ts') 0 0"
  let ?ri = "report_inputs ?c ?r (domain_members a)"
  note e = assms(3) [unfolded lab_run_def Let_def]
  have reads: "report_json_object ?ri (lab_file ''bfd-comparison.json'') ''comparison'' = Inr (?c, ''c'')"
      "report_json_object ?ri (lab_file ''bfd-repeated-trials.json'') ''repeated'' = Inr (?r, ''r'')"
      "report_json_object ?ri (lab_file ''failure-domain-audit.json'') ''failure-domain'' = Inr (domain_members a, ''d'')"
    using e lab_hash_same by (simp_all del: One_nat_def)
  have fp: "h = lab_sha" if "current_fingerprint ?ri ?c ?r ''p'' = Inr h" for h
    using that e by (auto simp: current_fingerprint_def rbind_eq_Inr Let_def)
  from assms(4) [unfolded lab_report_def render_report_from_paths_def reads rbind_simps split_conv]
  obtain h f lines where f: "current_fingerprint ?ri ?c ?r ''p'' = Inr h" "report_facts ?c ?r (domain_members a) h = Inr f"
    and l: "render_lines f ?c ?r (domain_members a)
        [(''comparison'', lab_file ''bfd-comparison.json'', ''c''), (''repeated'', lab_file ''bfd-repeated-trials.json'', ''r''),
         (''failure-domain'', lab_file ''failure-domain-audit.json'', ''d'')] = Inr lines"
    and t: "report = join [newline] lines"
    by (auto simp only: rbind_eq_Inr sum.inject)
  have "recompute_domains (report_inputs [] [] []) ''p'' = Inr a" using e lab_domains_same by metis
  then have "lab_lines ts ts' = Inr lines"
    using f(2) l unfolding lab_lines_def assms(1,2) rbind_simps Let_def fp [OF f(1)] lab_files by simp
  with lab_lines_short [of ts ts'] have s: "length lines \<le> 100"
      "list_all (\<lambda>l. length l \<le> 400 \<and> list_all (\<lambda>c. c \<noteq> CHR 0x0D) l) lines" by simp_all
  obtain rest where "lines = summary_lines f (markdown_escape (rf_design f)) @ rest" using render_lines_prefix [OF l] by blast
  then have "\<exists>rest. report = CHR ''<'' # rest" unfolding t by (simp add: summary_lines_def)
  moreover have "length report \<le> 50000"
    using join_bound [OF s(2)] mult_le_mono1 [OF s(1), of 401] unfolding t by simp
  moreover have "CHR 0x0D \<notin> set report" using join_bound [OF s(2)] unfolding t by blast
  ultimately show ?thesis by blast
qed

lemma unique_manifest: "unique_json (JObject (manifest_document sha artifacts c)) = Inr ()"
proof -
  have "unique_json (artifact_json a) = Inr ()" for a by (simp add: artifact_json_def)
  then have "unique_json (JArray (map artifact_json artifacts)) = Inr ()" by (simp add: each_eq_Inr)
  then show ?thesis by (simp add: manifest_document_def manifest_payload_def)
qed

lemma lab_bundle_builds:
  "\<exists>c r d report. build_evidence_manifest (lab_bundle c r d report) ''p'' = Inr (lab_manifest report) \<and>
     length report \<le> 50000 \<and> (\<exists>rest. report = CHR ''<'' # rest)"
proof -
  obtain ospf bfd ts ts' a where e: "parse_detection_log report_patterns (report_log ''ospf_only'' []) = Inr ospf"
      "parse_detection_log report_patterns (report_log ''bfd_100x3'' [''peer up'']) = Inr bfd"
      "lab_run ospf bfd (lab_profile ts) (lab_profile ts') a"
    using lab_evidence by blast
  let ?c = "comparison_document ospf bfd 0 0" and ?r = "repeated_document 20 (lab_profile ts) (lab_profile ts') 0 0"
    and ?d = "domain_members a"
  obtain report where t: "lab_report ?c ?r ?d = Inr report" using lab_report_renders [OF e(3)] by blast
  note s = lab_text [OF e t]
  let ?mf = "lab_bundle ?c ?r ?d report"
  have "read_text_file ?mf (under ''p'' ''docs/EXPERIMENT_REPORT.md'') = Inr report"
    using s by (simp add: read_text_file_def lab_bundle_fields under_def lab_raw_def universal_newlines_same)
  then have claims: "validate_generated_claims ?mf ''p'' = Inr ()"
    by (simp add: validate_generated_claims_def lab_bundle_report t)
  have "\<forall>p \<in> set (configuration_files ''p''). file_name p \<noteq> ''EXPERIMENT_REPORT.md''"
    using configuration_file_names by fastforce
  from same_fingerprint [OF same_lab_files [of ?c ?r ?d report] this, of lab_hash] have "configuration_fingerprint lab_hash (lab_raw report) ''p'' = Inr lab_sha"
    by (simp add: lab_bundle_fields lab_fingerprint)
  then have "build_evidence_manifest ?mf ''p'' = Inr (lab_manifest report)"
    using lab_artifacts [of report] s
    by (simp add: build_evidence_manifest_def lab_bundle_fields lab_inventory claims lab_manifest_def)
  then show ?thesis using s by blast
qed

lemma lab_bundle_generates:
  "\<exists>mf mf' m. manifest_main mf GENERATE ''p'' None = Inr (mf', m) \<and> json_round_trips mf m \<and>
    length (mf_dumps mf (JObject m)) < max_manifest_bytes"
proof -
  obtain c r d report where b: "build_evidence_manifest (lab_bundle c r d report) ''p'' = Inr (lab_manifest report)"
    using lab_bundle_builds by blast
  let ?mf = "lab_bundle c r d report"
  have "\<exists>mf'. manifest_main ?mf GENERATE ''p'' None = Inr (mf', lab_manifest report)"
    by (simp add: manifest_main_def lab_bundle_fields b write_manifest_def Let_def)
  moreover have "json_round_trips ?mf (lab_manifest report)"
    using unique_manifest py_equal_refl [OF unique_manifest]
    unfolding json_round_trips_def lab_manifest_def lab_bundle_fields append_Cons append_Nil
    by (simp add: lab_bundle_fields lab_manifest_def del: unique_json.simps py_equal.simps)
  moreover have "length (mf_dumps ?mf (JObject (lab_manifest report))) < max_manifest_bytes"
    by (simp add: lab_bundle_fields max_manifest_bytes_def)
  ultimately show ?thesis by blast
qed

theorem generated_manifest_verifies_witness:
  "\<exists>mf mf' m. manifest_main mf GENERATE ''p'' None = Inr (mf', m) \<and>
    manifest_main mf' VERIFY ''p'' None = Inr (mf', [(''verified'', JBool True), (''artifact_count'', JInt 64),
      (''configuration_sha256'', jget ''configuration_sha256'' m), (''bundle_sha256'', jget ''bundle_sha256'' m)])"
  using lab_bundle_generates generated_manifest_verifies by blast

theorem verified_manifest_witness:
  "\<exists>mf base report. read_text_file mf (under base ''docs/EXPERIMENT_REPORT.md'') = Inr report \<and>
    rendered_report (mf_inputs mf) base = Inr report"
proof -
  obtain mf mf' m where "manifest_main mf GENERATE ''p'' None = Inr (mf', m)" "json_round_trips mf m"
      "length (mf_dumps mf (JObject m)) < max_manifest_bytes"
    using lab_bundle_generates by blast
  note v = verify_after_generate [OF this]
  then obtain base path v where "verify_evidence_manifest mf' base path = Inr v"
    by (auto simp: manifest_main_def rbind_eq_Inr Let_def)
  from verified_manifest [OF this] show ?thesis by blast
qed

lemma lab_content_starts:
  assumes "report = CHR ''<'' # rest" "x \<in> set (lab_contents report)"
  shows "(\<exists>rest. x = CHR ''<'' # rest) \<or> length x \<le> 1"
proof -
  from assms(2) obtain path where "x = (case lab_raw report (under ''p'' path) of Inr raw \<Rightarrow> crlf_to_lf raw | Inl _ \<Rightarrow> [])"
    by (auto simp: lab_contents_def)
  moreover obtain raw where raw: "lab_raw report (under ''p'' path) = Inr raw" "raw = report \<or> length raw = 1"
    using lab_raw_small by blast
  ultimately have x: "x = crlf_to_lf raw" by simp
  show ?thesis
  proof (cases "raw = report")
    case True
    then show ?thesis using x assms(1) by (cases rest) auto
  next
    case False
    then show ?thesis using x raw(2) crlf_length [of raw] by simp
  qed
qed

theorem bundle_binds_witness:
  "\<exists>mf m contents. build_evidence_manifest mf ''p'' = Inr m \<and> bundle_contents mf ''p'' = Inr contents \<and>
     jget ''bundle_sha256'' m = JString (payload_text (bundle_entries lab_hash contents) lab_sha) \<and>
     (jget ''bundle_sha256'' m = jget ''bundle_sha256'' m) = (contents = contents \<and> lab_sha = lab_sha)"
proof -
  obtain c r d report rest where b: "build_evidence_manifest (lab_bundle c r d report) ''p'' = Inr (lab_manifest report)"
      "length report \<le> 50000" "report = CHR ''<'' # rest"
    using lab_bundle_builds by blast
  let ?mf = "lab_bundle c r d report" and ?p = "payload_text (bundle_entries lab_hash (lab_contents report)) lab_sha"
  have same: "lab_hash x = x" if "x \<in> bundle_texts lab_hash (lab_contents report) lab_sha" for x
  proof (cases "x = ?p")
    case True
    then show ?thesis by (intro lab_hash_same) blast
  next
    case False
    then have "x \<in> set (lab_contents report)" using that unfolding bundle_texts_def by blast
    from lab_content_starts [OF b(3) this] show ?thesis
    proof
      assume "\<exists>rest. x = CHR ''<'' # rest"
      then obtain y where "x = CHR ''<'' # y" ..
      then show ?thesis by (intro lab_hash_same) blast
    next
      assume "length x \<le> 1"
      then show ?thesis by (intro lab_hash_same) blast
    qed
  qed
  then have inj: "inj_on lab_hash (bundle_texts lab_hash (lab_contents report) lab_sha \<union> bundle_texts lab_hash (lab_contents report) lab_sha)"
    by (simp add: inj_on_def)
  have conf: "jget ''configuration_sha256'' (lab_manifest report) = JString lab_sha"
    unfolding lab_manifest_def by (rule manifest_gets)
  have strict: "mf_resolve_strict ?mf ''p'' = Inr ''p''" and sha: "ri_sha256 (mf_inputs ?mf) = lab_hash"
    by (simp_all only: lab_bundle_fields)
  note contents = lab_artifacts(2) [OF b(2), of c r d]
  note iff = bundle_binds [OF b(1) strict b(1) strict contents contents conf conf sha sha inj]
  have hash: "jget ''bundle_sha256'' (lab_manifest report) = JString ?p"
    using same [of ?p] unfolding lab_manifest_def manifest_gets by (simp add: bundle_texts_def)
  show ?thesis
    by (rule exI [of _ ?mf], rule exI [of _ "lab_manifest report"], rule exI [of _ "lab_contents report"], rule conjI, rule b(1),
      rule conjI, rule contents, rule conjI, rule hash, rule iff)
qed

end
