(* ===== verification/Runtime_Campaign.thy ===== *)
theory Runtime_Campaign
  imports Runtime_Plan
begin

text \<open>
  The program of \<open>runtime_resilience.py\<close> (\<open>main\<close>): its seven commands over the files of a
  campaign, from the plan that is written for the runner to the verdict on what it observed. The
  files are a function from a path's text to what is on disk; paths are the same file when
  \<open>Path.resolve\<close> says so. The plan command writes the validated plan, which the others read
  back: its service prefix is stored in the normal form that the validator accepts again.
\<close>

section \<open>The normal form of a service prefix\<close>

lemma digit_value:
  assumes "d < 10"
  shows "hex_value (digit_char d) = Some (int d)" "digit_char d = CHR ''0'' \<longleftrightarrow> d = 0"
proof -
  have "(of_char (digit_char d) :: nat) = 48 + d" using assms by (simp add: digit_char_def)
  then have v: "(of_char (digit_char d) :: int) = 48 + int d" by (metis of_nat_add of_nat_numeral of_nat_of_char)
  then show "hex_value (digit_char d) = Some (int d)" using assms by (simp add: hex_value_def is_digit_digit_char)
  show "digit_char d = CHR ''0'' \<longleftrightarrow> d = 0"
  proof
    assume "digit_char d = CHR ''0''"
    then have "(of_char (digit_char d) :: int) = 48" by simp
    then show "d = 0" using v by simp
  next
    have "digit_char 0 = CHR ''0''" by code_simp
    then show "d = 0 \<Longrightarrow> digit_char d = CHR ''0''" by simp
  qed
qed

lemma octet_digits:
  assumes "n < 256"
  shows "nat_str n =
    (if n < 10 then [digit_char n] else if n < 100 then [digit_char (n div 10), digit_char (n mod 10)]
     else [digit_char (n div 100), digit_char (n div 10 mod 10), digit_char (n mod 10)])"
proof -
  have "nat_str (n div 10) = [digit_char (n div 100), digit_char (n div 10 mod 10)]" if "100 \<le> n"
  proof -
    have "n div 100 < 10" "\<not> n div 10 < 10" "n div 10 div 10 = n div 100" using that assms by auto
    then show ?thesis by (subst nat_str.simps, subst nat_str.simps) simp
  qed
  moreover have "nat_str (n div 10) = [digit_char (n div 10)]" if "n < 100"
  proof -
    have "n div 10 < 10" using that by simp
    then show ?thesis by (subst nat_str.simps) simp
  qed
  ultimately show ?thesis by (subst nat_str.simps) (simp add: not_less)
qed

lemma octet_text:
  assumes "0 \<le> k" "k < 256"
  shows "read_octet (int_str k) = Some k" "length (int_str k) \<le> 3" "CHR ''.'' \<notin> set (int_str k)" "CHR ''/'' \<notin> set (int_str k)"
proof -
  define n where "n = nat k"
  then have n: "n < 256" "k = int n" "int_str k = nat_str n" using assms by (auto simp: int_str_def)
  note digits = octet_digits [OF n(1)]
  have all: "list_all is_digit (nat_str n)" by (rule nat_str_digits)
  show len: "length (int_str k) \<le> 3" unfolding n(3) digits by simp
  have "\<not> is_digit (CHR ''.'')" "\<not> is_digit (CHR ''/'')" by code_simp+
  then show "CHR ''.'' \<notin> set (int_str k)" "CHR ''/'' \<notin> set (int_str k)"
    using all unfolding n(3) list_all_iff by blast+
  have v: "read_base 10 0 (nat_str n) = Some k"
  proof -
    have e: "n div 10 div 10 = n div 100" "n div 10 div 10 * 10 + n div 10 mod 10 = n div 10" "n div 10 * 10 + n mod 10 = n"
      by (simp_all only: div_mult_mod_eq)
    have small: "n div 100 < 10" "n < 100 \<Longrightarrow> n div 10 < 10" using n(1) by auto
    have "10 * (10 * int a + int b) + int c = int m \<and> 10 * int d + int c = int m" if "a * 10 + b = d" "d * 10 + c = m" for a b c d m :: nat
      using that by auto
    note this [OF e(2) [unfolded e(1)] e(3)]
    then show ?thesis using small by (simp only: digits n(2)) (simp add: digit_value del: of_nat_mod)
  qed
  have z: "nat_str n = ''0'' \<or> hd (nat_str n) \<noteq> CHR ''0''"
  proof (cases "n = 0")
    case True
    have "nat_str 0 = ''0''" by code_simp
    then show ?thesis using True by simp
  next
    case False
    then show ?thesis unfolding digits using n(1) by (simp add: digit_value less_mult_imp_div_less div_eq_0_iff)
  qed
  have ne: "nat_str n \<noteq> []" unfolding digits by simp
  show "read_octet (int_str k) = Some k"
    using all v z ne len n assms unfolding read_octet_def n(3) by auto
qed

lemma ip4_int_bound:
  assumes "ip4_int s = Some n"
  shows "0 \<le> n \<and> n < 4294967296"
proof -
  have o: "0 \<le> k \<and> k < 256" if "read_octet p = Some k" for p k
  proof -
    have "0 \<le> m" if "read_base 10 acc p = Some m" "0 \<le> acc" "list_all is_digit p" for acc m p
      using that
    proof (induction p arbitrary: acc)
      case (Cons c cs)
      then have "CHR ''0'' \<le> c" by (simp add: is_digit_def)
      then have "48 \<le> (of_char c :: nat)" by (simp add: less_eq_char_def)
      then have "48 \<le> (of_char c :: int)" by (metis of_nat_le_iff of_nat_numeral of_nat_of_char)
      then show ?case using Cons by (auto simp: hex_value_def)
    qed simp
    from this [of 0 p] show ?thesis using that by (auto simp: read_octet_def split: if_splits option.splits)
  qed
  from assms obtain a b c d where r: "map read_octet (split_char (CHR ''.'') s) = [Some a, Some b, Some c, Some d]"
    and n: "n = ((a * 256 + b) * 256 + c) * 256 + d"
    unfolding ip4_int_def by (auto split: list.splits option.splits)
  then have "0 \<le> a" "a < 256" "0 \<le> b" "b < 256" "0 \<le> c" "c < 256" "0 \<le> d" "d < 256"
    using o by (auto simp: map_eq_Cons_conv)
  then show ?thesis unfolding n by auto
qed

text \<open>The text of an address reads back as the address.\<close>

lemma ip4_text_reads:
  assumes "0 \<le> n" "n < 4294967296"
  shows "ip4_int (ip4_text n) = Some n" "CHR ''/'' \<notin> set (ip4_text n)" "length (ip4_text n) \<le> 15"
proof -
  define a b c d where "a = n div 16777216" and "b = n div 65536 mod 256" and "c = n div 256 mod 256" and "d = n mod 256"
  have r: "0 \<le> a" "a < 256" "0 \<le> b" "b < 256" "0 \<le> c" "c < 256" "0 \<le> d" "d < 256"
    using assms by (auto simp: a_def b_def c_def d_def)
  have n: "n = ((a * 256 + b) * 256 + c) * 256 + d"
  proof -
    have "n = n div 256 * 256 + d" by (simp add: d_def)
    moreover have "n div 256 = n div 65536 * 256 + c" using zdiv_zmult2_eq [of 256 n 256] by (simp add: c_def)
    moreover have "n div 65536 = a * 256 + b" using zdiv_zmult2_eq [of 256 n 65536] by (simp add: a_def b_def)
    ultimately show ?thesis by simp
  qed
  have t: "ip4_text n = int_str a @ CHR ''.'' # int_str b @ CHR ''.'' # int_str c @ CHR ''.'' # int_str d"
    by (simp add: ip4_text_def a_def b_def c_def d_def)
  note parts = octet_text [OF r(1,2)] octet_text [OF r(3,4)] octet_text [OF r(5,6)] octet_text [OF r(7,8)]
  have "split_char (CHR ''.'') (ip4_text n) = [int_str a, int_str b, int_str c, int_str d]"
    unfolding t using parts by (simp add: split_char_clean split_char_single)
  then show "ip4_int (ip4_text n) = Some n" using parts by (simp add: ip4_int_def n)
  show "CHR ''/'' \<notin> set (ip4_text n)" unfolding t using parts by auto
  show "length (ip4_text n) \<le> 15" unfolding t using parts by auto
qed

lemma service_prefix_stable:
  assumes "validate_service_prefix raw = Inr prefix"
  shows "validate_service_prefix prefix = Inr prefix"
proof -
  have m: "ip4_prefix ''32'' = Some 32" "nat_str 32 = ''32''" by code_simp+
  from assms obtain n where n: "ip4_parts raw = Some (n, 32)" "prefix = ip4_text n @ ''/32''"
    by (auto simp: validate_service_prefix_def rbind_eq_Inr m split: option.splits)
  then have "0 \<le> n \<and> n < 4294967296"
    by (auto simp: ip4_parts_def ip4_int_bound split: list.splits option.splits)
  note t = ip4_text_reads [OF this [THEN conjunct1] this [THEN conjunct2]]
  have "split_char (CHR ''/'') prefix = [ip4_text n, ''32'']"
    unfolding n(2) using t(2) by (simp add: split_char_clean)
  then have p: "ip4_parts prefix = Some (n, 32)" by (simp add: ip4_parts_def t(1) m)
  then show ?thesis using t(3) by (simp add: validate_service_prefix_def ip_network_ok_def m n(2))
qed

section \<open>The program\<close>

text \<open>
  \<open>json.dumps\<close> of a model or a document, \<open>model_validate_json\<close>'s reading of a file, \<open>json.loads\<close>
  and \<open>Path.resolve\<close> are parameters.
\<close>

record CampaignTools =
  ct_sha256 :: "string \<Rightarrow> string"
  ct_yaml :: YamlLibrary
  ct_resolve :: "string \<Rightarrow> string"
  ct_dump_plan :: "RuntimeN1Plan \<Rightarrow> string"
  ct_dump :: "json \<Rightarrow> string"
  ct_plan :: "string \<Rightarrow> RuntimeN1Plan result"
  ct_observation :: "string \<Rightarrow> RuntimeN1Observation result"
  ct_json :: "string \<Rightarrow> json result"

type_synonym campaign_disk = "string \<Rightarrow> file_on_disk"

text \<open>
  \<open>_write_json\<close>: a symlink is refused; otherwise the file, under all its names that are not
  symlinks, holds the text and a final newline.
\<close>

definition write_json :: "CampaignTools \<Rightarrow> campaign_disk \<Rightarrow> string \<Rightarrow> string \<Rightarrow> campaign_disk result" where
  "write_json tools disk path content =
     rbind (ensure (disk path \<noteq> Symlink) ''output must not be a symlink'') (\<lambda>_.
       Inr (\<lambda>other. if ct_resolve tools other = ct_resolve tools path \<and> disk other \<noteq> Symlink
         then Bytes (content @ [newline]) else disk other))"

definition refuse_input_overwrite :: "CampaignTools \<Rightarrow> string \<Rightarrow> string list \<Rightarrow> unit result" where
  "refuse_input_overwrite tools output inputs =
     ensure (list_all (\<lambda>path. ct_resolve tools output \<noteq> ct_resolve tools path) inputs) ''output must not overwrite an input''"

datatype campaign_command =
    PlanCommand string string string
  | RowsCommand string
  | SettingsCommand string
  | AdjacenciesCommand string
  | MetricCommand string
  | NeighborCountCommand string
  | VerifyCommand string string string

definition load_plan_file :: "CampaignTools \<Rightarrow> campaign_disk \<Rightarrow> string \<Rightarrow> RuntimeN1Plan result" where
  "load_plan_file tools disk path = load_runtime_n1_plan (ct_plan tools) (disk path)"

definition summary_number :: "string \<Rightarrow> (string \<times> json) list \<Rightarrow> string" where
  "summary_number key evidence =
     (case jget ''summary'' evidence of
        JObject summary \<Rightarrow> (case jget key summary of JInt n \<Rightarrow> int_str n | _ \<Rightarrow> [])
      | _ \<Rightarrow> [])"

text \<open>The files afterwards, the printed lines and the exit status.\<close>

type_synonym campaign_outcome = "campaign_disk \<times> string list \<times> int"

definition plan_command :: "CampaignTools \<Rightarrow> campaign_disk \<Rightarrow> string \<Rightarrow> string \<Rightarrow> string \<Rightarrow> campaign_outcome result" where
  "plan_command tools disk intent lab output =
     rbind (refuse_input_overwrite tools output [intent, lab]) (\<lambda>_.
     rbind (build_runtime_n1_plan (ct_sha256 tools) (ct_yaml tools) (disk intent) (disk lab)) (\<lambda>plan.
     rbind (write_json tools disk output (ct_dump_plan tools plan)) (\<lambda>written.
       Inr (written, [''runtime N-1 plan generated: '' @ nat_str (length (rnp_scenarios plan)) @ '' scenarios''], 0))))"

definition verify_command :: "CampaignTools \<Rightarrow> campaign_disk \<Rightarrow> string \<Rightarrow> string \<Rightarrow> string \<Rightarrow> campaign_outcome result" where
  "verify_command tools disk plan_path observation_path output =
     rbind (refuse_input_overwrite tools output [plan_path, observation_path]) (\<lambda>_.
     rbind (load_plan_file tools disk plan_path) (\<lambda>plan.
     rbind (load_runtime_n1_observation (ct_observation tools) (disk observation_path)) (\<lambda>observation.
     rbind (build_runtime_n1_evidence (ct_sha256 tools) plan observation) (\<lambda>evidence.
     rbind (write_json tools disk output (ct_dump tools (JObject evidence))) (\<lambda>written.
       Inr (written,
         [if verify_exit_code evidence = 0
          then ''runtime N-1 conformance passed: '' @ nat_str (length (rnp_scenarios plan)) @ '' scenarios, '' @
            summary_number ''passed'' evidence @ '' checks''
          else ''runtime N-1 conformance failed: '' @ summary_number ''failed'' evidence @ '' checks''],
         verify_exit_code evidence))))))"

fun runtime_main :: "CampaignTools \<Rightarrow> campaign_disk \<Rightarrow> campaign_command \<Rightarrow> campaign_outcome result" where
  "runtime_main tools disk (PlanCommand intent lab output) = plan_command tools disk intent lab output"
| "runtime_main tools disk (RowsCommand path) =
     rbind (load_plan_file tools disk path) (\<lambda>plan. rbind (plan_rows plan) (\<lambda>rows. Inr (disk, rows, 0)))"
| "runtime_main tools disk (SettingsCommand path) =
     rbind (load_plan_file tools disk path) (\<lambda>plan. rbind (plan_settings plan) (\<lambda>line. Inr (disk, [line], 0)))"
| "runtime_main tools disk (AdjacenciesCommand path) =
     rbind (load_plan_file tools disk path) (\<lambda>plan. Inr (disk, plan_adjacency_rows plan, 0))"
| "runtime_main tools disk (MetricCommand path) =
     rbind (ensure_bounded_file (disk path) ''FRR route output'' max_json_bytes) (\<lambda>raw.
     rbind (extract_selected_route_metric (ct_json tools raw)) (\<lambda>metric. Inr (disk, [int_str metric], 0)))"
| "runtime_main tools disk (NeighborCountCommand path) =
     rbind (ensure_bounded_file (disk path) ''FRR OSPF output'' max_json_bytes) (\<lambda>raw.
     rbind (extract_full_neighbor_count (ct_json tools raw)) (\<lambda>full. Inr (disk, [nat_str full], 0)))"
| "runtime_main tools disk (VerifyCommand plan_path observation_path output) =
     verify_command tools disk plan_path observation_path output"

section \<open>What a run leaves on disk\<close>

fun command_inputs :: "campaign_command \<Rightarrow> string list" where
  "command_inputs (PlanCommand intent lab output) = [intent, lab]"
| "command_inputs (VerifyCommand plan_path observation_path output) = [plan_path, observation_path]"
| "command_inputs (RowsCommand path) = [path]"
| "command_inputs (SettingsCommand path) = [path]"
| "command_inputs (AdjacenciesCommand path) = [path]"
| "command_inputs (MetricCommand path) = [path]"
| "command_inputs (NeighborCountCommand path) = [path]"

fun command_output :: "campaign_command \<Rightarrow> string option" where
  "command_output (PlanCommand intent lab output) = Some output"
| "command_output (VerifyCommand plan_path observation_path output) = Some output"
| "command_output _ = None"

lemma write_json_Inr:
  "write_json tools disk path content = Inr disk' \<longleftrightarrow> disk path \<noteq> Symlink \<and>
     disk' = (\<lambda>other. if ct_resolve tools other = ct_resolve tools path \<and> disk other \<noteq> Symlink
       then Bytes (content @ [newline]) else disk other)"
  by (auto simp: write_json_def rbind_eq_Inr)

lemma plan_command_Inr:
  "plan_command tools disk intent lab output = Inr (disk', lines, code) \<longleftrightarrow>
     ct_resolve tools output \<noteq> ct_resolve tools intent \<and> ct_resolve tools output \<noteq> ct_resolve tools lab \<and>
     (\<exists>plan. build_runtime_n1_plan (ct_sha256 tools) (ct_yaml tools) (disk intent) (disk lab) = Inr plan \<and>
       write_json tools disk output (ct_dump_plan tools plan) = Inr disk' \<and>
       lines = [''runtime N-1 plan generated: '' @ nat_str (length (rnp_scenarios plan)) @ '' scenarios''] \<and> code = 0)"
  by (auto simp: plan_command_def rbind_eq_Inr refuse_input_overwrite_def)

lemma verify_command_Inr:
  assumes "verify_command tools disk plan_path observation_path output = Inr (disk', lines, code)"
  shows "ct_resolve tools output \<noteq> ct_resolve tools plan_path \<and> ct_resolve tools output \<noteq> ct_resolve tools observation_path \<and>
    (\<exists>content. write_json tools disk output content = Inr disk')"
  using assms by (auto simp: verify_command_def rbind_eq_Inr refuse_input_overwrite_def)

lemma write_json_keeps:
  assumes "write_json tools disk output content = Inr disk'"
  shows "ct_resolve tools path \<noteq> ct_resolve tools output \<Longrightarrow> disk' path = disk path"
  using assms by (auto simp: write_json_Inr)

text \<open>A run writes at most its output, and never one of its inputs.\<close>

lemma run_writes:
  assumes "runtime_main tools disk command = Inr (disk', lines, code)"
  shows "disk' = disk \<or> (\<exists>output content. command_output command = Some output \<and>
    write_json tools disk output content = Inr disk' \<and>
    (\<forall>path \<in> set (command_inputs command). ct_resolve tools path \<noteq> ct_resolve tools output))"
proof (cases command)
  case (PlanCommand intent lab target)
  with assms have r: "plan_command tools disk intent lab target = Inr (disk', lines, code)" by simp
  then obtain content where w: "write_json tools disk target content = Inr disk'" unfolding plan_command_Inr by blast
  have "ct_resolve tools intent \<noteq> ct_resolve tools target" "ct_resolve tools lab \<noteq> ct_resolve tools target"
    using r unfolding plan_command_Inr by auto
  with w PlanCommand show ?thesis by auto
next
  case (VerifyCommand plan_path observation_path target)
  with assms have r: "verify_command tools disk plan_path observation_path target = Inr (disk', lines, code)" by simp
  from verify_command_Inr [OF r] obtain content where w: "write_json tools disk target content = Inr disk'"
    and d: "ct_resolve tools plan_path \<noteq> ct_resolve tools target" "ct_resolve tools observation_path \<noteq> ct_resolve tools target"
    by metis
  from w d VerifyCommand show ?thesis by auto
qed (use assms in \<open>simp_all add: rbind_eq_Inr\<close>, auto)

section \<open>The verdict of a campaign\<close>

lemma plan_stable:
  assumes "validate_runtime_plan raw = Inr plan"
  shows "validate_runtime_plan plan = Inr plan"
proof -
  from assms obtain prefix ss where prefix: "validate_service_prefix (rnp_service_prefix raw) = Inr prefix"
    and ss: "list_all2 (\<lambda>x y. validate_fault_plan x = Inr y) (rnp_scenarios raw) ss"
    and plan: "plan = raw\<lparr>rnp_service_prefix := prefix, rnp_scenarios := ss\<rparr>"
    by (auto simp: validate_runtime_plan_def rbind_eq_Inr traverse_eq_Inr)
  have "\<forall>y \<in> set ss. validate_fault_plan y = Inr y"
  proof
    fix y assume "y \<in> set ss"
    from list_all2_in_set2 [OF ss this] obtain x where "validate_fault_plan x = Inr y" by blast
    then show "validate_fault_plan y = Inr y" using validate_fault_plan_Inr by metis
  qed
  then have "traverse validate_fault_plan ss = Inr ss" by (simp add: traverse_eq_Inr list_all2_same)
  then show ?thesis
    using assms service_prefix_stable [OF prefix] unfolding plan
    by (simp add: validate_runtime_plan_def rbind_eq_Inr prefix ss [folded traverse_eq_Inr])
qed

lemma build_plan_stable:
  assumes "build_runtime_n1_plan sha256 lib intent_path lab_path = Inr plan"
  shows "validate_runtime_plan plan = Inr plan"
  using assms plan_stable by (auto simp: build_runtime_n1_plan_def rbind_eq_Inr split: prod.splits)

text \<open>An observation of every fault of a topology, and for each of every access node.\<close>

definition observes_matrix :: "Topology \<Rightarrow> RuntimeN1Observation \<Rightarrow> bool" where
  "observes_matrix t observation =
     (rso_scenario_id ` set (rno_scenarios observation) = fault_id ` set (single_faults t) \<and>
      (\<forall>r \<in> set (rno_scenarios observation). rpo_access_node ` set (rso_paths r) = set (access_names t)))"

lemma fits_matrix:
  assumes "list_all2 (scenario_predicts wiring t) (single_faults t) (rnp_scenarios plan)"
  shows "observation_fits plan observation \<longleftrightarrow> observes_matrix t observation"
proof -
  have ids: "rfp_scenario_id ` set (rnp_scenarios plan) = fault_id ` set (single_faults t)"
  proof -
    have "map rfp_scenario_id (rnp_scenarios plan) = map fault_id (single_faults t)"
      using assms by (rule list_all2_map_snd) (simp add: scenario_predicts_def)
    then show ?thesis by (metis list.set_map)
  qed
  have names: "rpe_access_node ` set (rfp_paths s) = set (access_names t)" if "s \<in> set (rnp_scenarios plan)" for s
    using list_all2_in_set2 [OF assms that] by (metis scenario_predicts_def list.set_map)
  show ?thesis
    unfolding observation_fits_def observes_matrix_def ids
  proof (intro conj_cong refl iffI ballI impI)
    fix r assume same: "rso_scenario_id ` set (rno_scenarios observation) = fault_id ` set (single_faults t)"
      and f: "\<forall>s \<in> set (rnp_scenarios plan). \<forall>r \<in> set (rno_scenarios observation). rso_scenario_id r = rfp_scenario_id s \<longrightarrow>
        rpo_access_node ` set (rso_paths r) = rpe_access_node ` set (rfp_paths s)"
      and r: "r \<in> set (rno_scenarios observation)"
    then obtain s where "s \<in> set (rnp_scenarios plan)" "rso_scenario_id r = rfp_scenario_id s"
      using ids by (metis imageE imageI)
    then show "rpo_access_node ` set (rso_paths r) = set (access_names t)" using f r names by metis
  qed (metis names)
qed

definition follows_intent :: "Topology \<Rightarrow> RuntimeN1Observation \<Rightarrow> bool" where
  "follows_intent t observation =
     (\<forall>fault \<in> set (single_faults t). \<forall>r \<in> set (rno_scenarios observation).
        rso_scenario_id r = fault_id fault \<longrightarrow> (\<forall>q \<in> set (rso_paths r). follows_graph t fault q))"

text \<open>What the verify command does with a plan file that reads back as the plan that was built.\<close>

lemma verify_outcome:
  assumes built: "build_runtime_n1_plan (ct_sha256 tools) lib intent_path lab_path = Inr plan"
    and t: "read_candidate lib intent_path = Inr t"
    and plan_file: "load_plan_file tools disk plan_path = Inr plan"
    and observed: "load_runtime_n1_observation (ct_observation tools) (disk observation_path) = Inr observation"
    and out: "refuse_input_overwrite tools output [plan_path, observation_path] = Inr ()" "disk output \<noteq> Symlink"
  shows "if observes_matrix t observation
    then \<exists>final lines code. verify_command tools disk plan_path observation_path output = Inr (final, lines, code) \<and>
      (code = 0 \<longleftrightarrow> follows_intent t observation)
    else \<exists>m. verify_command tools disk plan_path observation_path output = Inl (ValueError m)"
proof -
  from plan_scenarios_predict [OF built] t obtain wiring where
    p: "list_all2 (scenario_predicts wiring t) (single_faults t) (rnp_scenarios plan)" by auto
  note fits = fits_matrix [OF p, of observation]
  from observed obtain raw where v: "validate_runtime_observation raw = Inr observation"
    by (auto simp: load_runtime_n1_observation_def rbind_eq_Inr)
  show ?thesis
  proof (cases "observes_matrix t observation")
    case True
    with campaign_tests_the_intent [OF built v] t fits obtain doc where
      doc: "build_runtime_n1_evidence (ct_sha256 tools) plan observation = Inr doc"
      and c: "verify_exit_code doc = 0 \<longleftrightarrow> follows_intent t observation"
      unfolding follows_intent_def by auto
    obtain final where w: "write_json tools disk output (ct_dump tools (JObject doc)) = Inr final"
      using out(2) by (auto simp: write_json_Inr)
    then show ?thesis using True out(1) plan_file observed doc c by (auto simp: verify_command_def)
  next
    case False
    have "plan_unique plan" using built by (rule build_plan_parts)
    from compare_runtime_cases [OF this validated_observation_unique [OF v]] False fits
    obtain m where "build_runtime_n1_evidence (ct_sha256 tools) plan observation = Inl (ValueError m)"
      by (auto simp: build_runtime_n1_evidence_def)
    then show ?thesis using False out(1) plan_file observed by (auto simp: verify_command_def)
  qed
qed

text \<open>The file a successful plan command writes loads as the plan it built.\<close>

lemma plan_file_loads:
  assumes "plan_command tools disk intent lab plan_path = Inr (planned, lines, code)"
    and codec: "\<And>plan. build_runtime_n1_plan (ct_sha256 tools) (ct_yaml tools) (disk intent) (disk lab) = Inr plan \<Longrightarrow>
      ct_plan tools (ct_dump_plan tools plan @ [newline]) = Inr plan"
    and small: "\<And>content. planned plan_path = Bytes content \<Longrightarrow> length content \<le> max_json_bytes"
    and later: "later plan_path = planned plan_path"
  shows "\<exists>plan t. build_runtime_n1_plan (ct_sha256 tools) (ct_yaml tools) (disk intent) (disk lab) = Inr plan \<and>
    read_candidate (ct_yaml tools) (disk intent) = Inr t \<and> load_plan_file tools later plan_path = Inr plan"
proof -
  from assms(1) obtain plan where built: "build_runtime_n1_plan (ct_sha256 tools) (ct_yaml tools) (disk intent) (disk lab) = Inr plan"
    and w: "write_json tools disk plan_path (ct_dump_plan tools plan) = Inr planned"
    unfolding plan_command_Inr by blast
  from w have "planned plan_path = Bytes (ct_dump_plan tools plan @ [newline])" by (simp add: write_json_Inr)
  then have "ensure_bounded_file (later plan_path) ''runtime N-1 plan'' max_json_bytes = Inr (ct_dump_plan tools plan @ [newline])"
    using small by (simp add: later ensure_bounded_file_Inr)
  then have "load_plan_file tools later plan_path = Inr plan"
    using codec [OF built] build_plan_stable [OF built] by (simp add: load_plan_file_def load_runtime_n1_plan_def)
  then show ?thesis using built plan_scenarios_predict [OF built] by blast
qed

text \<open>
  C23: The two ends of a campaign fit together. After a successful plan command, whatever happened
  to the other files, a verify command on the written plan and a valid observation file ends: it
  refuses the observation when it does not hold exactly the topology's single-link and
  transport-node faults with all access nodes, and otherwise its exit status is 0 exactly when
  every fault showed, for every access node, what the intent's graph predicts. It changes no file
  but its output, so neither the plan nor the observation. (The JSON codec reads back the plan
  that it wrote, and the written plan is within the loader's size limit.)
\<close>

theorem campaign_program:
  assumes "runtime_main tools disk (PlanCommand intent lab plan_path) = Inr (planned, lines, code)"
    and "\<And>plan. build_runtime_n1_plan (ct_sha256 tools) (ct_yaml tools) (disk intent) (disk lab) = Inr plan \<Longrightarrow>
      ct_plan tools (ct_dump_plan tools plan @ [newline]) = Inr plan"
    and "\<And>content. planned plan_path = Bytes content \<Longrightarrow> length content \<le> max_json_bytes"
    and "later plan_path = planned plan_path"
    and "load_runtime_n1_observation (ct_observation tools) (later observation_path) = Inr observation"
    and "ct_resolve tools output \<noteq> ct_resolve tools plan_path" "ct_resolve tools output \<noteq> ct_resolve tools observation_path"
    and "later output \<noteq> Symlink"
  shows "\<exists>t. read_candidate (ct_yaml tools) (disk intent) = Inr t \<and>
    (if observes_matrix t observation
     then \<exists>final printed status. runtime_main tools later (VerifyCommand plan_path observation_path output) = Inr (final, printed, status) \<and>
       (status = 0 \<longleftrightarrow> follows_intent t observation) \<and>
       (\<forall>path. ct_resolve tools path \<noteq> ct_resolve tools output \<longrightarrow> final path = later path) \<and>
       final plan_path = planned plan_path
     else \<exists>m. runtime_main tools later (VerifyCommand plan_path observation_path output) = Inl (ValueError m))"
proof -
  have planned: "plan_command tools disk intent lab plan_path = Inr (planned, lines, code)" using assms(1) by simp
  from plan_file_loads [of tools disk intent lab plan_path planned lines code later, OF planned assms(2,3,4)] obtain plan t where
    built: "build_runtime_n1_plan (ct_sha256 tools) (ct_yaml tools) (disk intent) (disk lab) = Inr plan"
    and t: "read_candidate (ct_yaml tools) (disk intent) = Inr t"
    and plan_file: "load_plan_file tools later plan_path = Inr plan" by blast
  have out: "refuse_input_overwrite tools output [plan_path, observation_path] = Inr ()"
    using assms(6,7) by (simp add: refuse_input_overwrite_def)
  have keeps: "(\<forall>path. ct_resolve tools path \<noteq> ct_resolve tools output \<longrightarrow> final path = later path) \<and>
      final plan_path = planned plan_path"
    if "verify_command tools later plan_path observation_path output = Inr (final, printed, status)" for final printed status
    using verify_command_Inr [OF that] write_json_keeps assms(4) by metis
  show ?thesis
    using verify_outcome [OF built t plan_file assms(5) out assms(8)] keeps t
    unfolding runtime_main.simps by (intro exI [of _ t]) (auto split: if_splits)
qed

text \<open>The example campaign: files by name, and observations of the row's three faults.\<close>

definition row_tools :: CampaignTools where
  "row_tools =
     \<lparr>ct_sha256 = example_hash, ct_yaml = example_yaml, ct_resolve = (\<lambda>path. path),
      ct_dump_plan = (\<lambda>_. ''plan''), ct_dump = (\<lambda>_. ''evidence''),
      ct_plan = (\<lambda>_. build_runtime_n1_plan example_hash example_yaml (Bytes ''intent'') (Bytes ''lab'')),
      ct_observation = (\<lambda>_. Inr (row_observation None)), ct_json = (\<lambda>_. Inr JNull)\<rparr>"

definition row_disk :: campaign_disk where
  "row_disk path = (if path \<in> {''intent'', ''lab'', ''observation''} then Bytes path else Missing)"

theorem campaign_program_witness:
  "\<exists>planned lines code final printed status.
    runtime_main row_tools row_disk (PlanCommand ''intent'' ''lab'' ''plan'') = Inr (planned, lines, code) \<and>
    runtime_main row_tools planned (VerifyCommand ''plan'' ''observation'' ''evidence'') = Inr (final, printed, status) \<and>
    (status = 0 \<longleftrightarrow> follows_intent row_topology (row_observation None))"
proof -
  have files: "row_disk ''intent'' = Bytes ''intent''" "row_disk ''lab'' = Bytes ''lab''" "row_disk ''plan'' = Missing"
    "row_disk ''evidence'' = Missing" "row_disk ''observation'' = Bytes ''observation''"
    by (simp_all add: row_disk_def)
  obtain plan where built: "build_runtime_n1_plan example_hash example_yaml (Bytes ''intent'') (Bytes ''lab'') = Inr plan"
    using row_plan_built by blast
  define planned where p: "planned = row_disk(''plan'' := Bytes (''plan'' @ [newline]))"
  have w: "write_json row_tools row_disk ''plan'' ''plan'' = Inr planned"
    unfolding write_json_Inr p by (auto simp: files row_tools_def)
  then obtain lines code where
    planned: "runtime_main row_tools row_disk (PlanCommand ''intent'' ''lab'' ''plan'') = Inr (planned, lines, code)"
    using built by (simp add: plan_command_Inr files row_tools_def)
  have observed: "load_runtime_n1_observation (ct_observation row_tools) (planned ''observation'') = Inr (row_observation None)"
    by (simp add: p files load_runtime_n1_observation_def ensure_bounded_file_def max_json_bytes_def row_tools_def row_observation_valid)
  have read: "read_candidate (ct_yaml row_tools) (row_disk ''intent'') = Inr row_topology"
    by (simp add: row_tools_def files row_read)
  have matrix: "observes_matrix row_topology (row_observation None)"
  proof -
    have "map fault_id (single_faults row_topology) = [''link:a--c'', ''link:c--s'', ''node:c'']" by code_simp
    then have "fault_id ` set (single_faults row_topology) = set [''link:a--c'', ''link:c--s'', ''node:c'']"
      by (metis list.set_map)
    moreover have "access_names row_topology = [''a'']" by code_simp
    ultimately show ?thesis by (simp add: observes_matrix_def row_observation_def row_path_def)
  qed
  have "\<exists>t. read_candidate (ct_yaml row_tools) (row_disk ''intent'') = Inr t \<and>
    (if observes_matrix t (row_observation None)
     then \<exists>final printed status. runtime_main row_tools planned (VerifyCommand ''plan'' ''observation'' ''evidence'') = Inr (final, printed, status) \<and>
       (status = 0 \<longleftrightarrow> follows_intent t (row_observation None)) \<and>
       (\<forall>path. ct_resolve row_tools path \<noteq> ct_resolve row_tools ''evidence'' \<longrightarrow> final path = planned path) \<and>
       final ''plan'' = planned ''plan''
     else \<exists>m. runtime_main row_tools planned (VerifyCommand ''plan'' ''observation'' ''evidence'') = Inl (ValueError m))"
    by (rule campaign_program [OF planned _ _ refl observed])
      (simp_all add: row_tools_def files built p max_json_bytes_def)
  then show ?thesis using read matrix planned by auto
qed

end
