(* ===== verification/Evidence_Programs.thy ===== *)
theory Evidence_Programs
  imports Evidence_Report Link_Impact
begin

text \<open>
  The programs that write an evidence document from its inputs: \<open>demo.py\<close> (a simulated link
  failure), \<open>measurement.py\<close>, \<open>bfd_comparison.py\<close> and \<open>repeated_trials.py\<close> (raw logs), with the
  shared \<open>write_evidence\<close> of \<open>evidence.py\<close>, the fingerprint printed by \<open>configuration.py\<close>, and
  the programs of \<open>report.py\<close> and \<open>runtime_conformance.py\<close> with the writing of their output.
  Argument parsing is outside the model; two paths that differ name different files. What the
  two log programs write is what the report of theory \<open>Evidence_Report\<close> recomputes.
\<close>

section \<open>The programs\<close>

text \<open>
  \<open>write_evidence\<close>: the text of \<open>json.dumps(evidence, indent=2, sort_keys=True)\<close>, a parameter, and
  a newline. \<open>path.read_text(encoding="utf-8")\<close> with \<open>splitlines\<close> gives a log's lines.
\<close>

definition write_evidence :: "(json \<Rightarrow> string) \<Rightarrow> ReportInputs \<Rightarrow> string \<Rightarrow> json \<Rightarrow> ReportInputs" where
  "write_evidence dumps ri path evidence = ri\<lparr>ri_read := (ri_read ri)(path := Inr (dumps evidence @ [newline]))\<rparr>"

definition log_lines :: "ReportInputs \<Rightarrow> string \<Rightarrow> string list result" where
  "log_lines ri path = rbind (ri_read ri path) (ri_lines ri)"

definition demo_main ::
  "(json \<Rightarrow> string) \<Rightarrow> ReportInputs \<Rightarrow> datetime \<Rightarrow> string \<Rightarrow> string \<Rightarrow> string \<Rightarrow> (ReportInputs \<times> string) result" where
  "demo_main dumps ri now intent link output_path =
     rbind (load_topology (ri_intent ri) intent) (\<lambda>t.
     rbind (build_simulated_evidence t \<lparr>event_link_id = link, event_type = ''link_down'', event_observed_at = now\<rparr>) (\<lambda>evidence.
       Inr (write_evidence dumps ri output_path evidence, ''wrote scenario evidence to '' @ output_path)))"

definition measurement_main :: "(json \<Rightarrow> string) \<Rightarrow> ReportInputs \<Rightarrow> string \<Rightarrow> string \<Rightarrow> ReportInputs result" where
  "measurement_main dumps ri raw_log output_path =
     rbind (log_lines ri raw_log) (\<lambda>lines.
     rbind (parse_measurement_log (ri_patterns ri) lines) (\<lambda>evidence. Inr (write_evidence dumps ri output_path evidence)))"

definition comparison_main :: "(json \<Rightarrow> string) \<Rightarrow> ReportInputs \<Rightarrow> string \<Rightarrow> string \<Rightarrow> string \<Rightarrow> ReportInputs result" where
  "comparison_main dumps ri ospf_log bfd_log output_path =
     rbind (log_lines ri ospf_log) (\<lambda>ospf.
     rbind (log_lines ri bfd_log) (\<lambda>bfd.
     rbind (build_comparison (ri_round2 ri) (ri_patterns ri) ospf bfd) (\<lambda>comparison.
       Inr (write_evidence dumps ri output_path (JObject comparison)))))"

text \<open>\<open>path.parent\<close> and the label \<open>path.parent.name/path.name\<close> of a trial\<close>

definition parent_path :: "string \<Rightarrow> string" where
  "parent_path path = rev (tl (dropWhile (\<lambda>c. c \<noteq> CHR ''/'') (rev path)))"

definition trial_label :: "string \<Rightarrow> string" where
  "trial_label path = file_name (parent_path path) @ ''/'' @ file_name path"

definition named_trial_logs :: "ReportInputs \<Rightarrow> string list \<Rightarrow> (string \<times> string list) list result" where
  "named_trial_logs ri paths = traverse (\<lambda>path. rbind (log_lines ri path) (\<lambda>lines. Inr (trial_label path, lines))) paths"

definition repeated_main :: "(json \<Rightarrow> string) \<Rightarrow> ReportInputs \<Rightarrow> string list \<Rightarrow> string list \<Rightarrow> string \<Rightarrow> ReportInputs result" where
  "repeated_main dumps ri ospf_logs bfd_logs output_path =
     rbind (named_trial_logs ri ospf_logs) (\<lambda>ospf.
     rbind (named_trial_logs ri bfd_logs) (\<lambda>bfd.
     rbind (build_repeated_evidence (ri_round2 ri) (ri_patterns ri) ospf bfd) (\<lambda>evidence.
       Inr (write_evidence dumps ri output_path (JObject evidence)))))"

text \<open>The line that \<open>configuration.py\<close> prints\<close>

definition configuration_main :: "ReportInputs \<Rightarrow> string \<Rightarrow> string result" where
  "configuration_main ri project = configuration_fingerprint (ri_sha256 ri) (ri_read ri) project"

text \<open>
  \<open>_write_report\<close> and \<open>_write_evidence\<close>: a symbolic link is refused, otherwise the file is
  replaced at once. The conformance program prints a line and returns its exit status.
\<close>

definition write_report :: "(string \<Rightarrow> bool) \<Rightarrow> ReportInputs \<Rightarrow> string \<Rightarrow> string \<Rightarrow> ReportInputs result" where
  "write_report symlink ri path report =
     rbind (ensure (\<not> symlink path) ''output must not be a symbolic link'') (\<lambda>_.
       Inr (ri\<lparr>ri_read := (ri_read ri)(path := Inr report)\<rparr>))"

definition report_program ::
  "(string \<Rightarrow> bool) \<Rightarrow> ReportInputs \<Rightarrow> OutputCheck \<Rightarrow> string \<Rightarrow> string \<Rightarrow> string \<Rightarrow> string \<Rightarrow> string \<Rightarrow>
   (ReportInputs \<times> string) result" where
  "report_program symlink ri oc comparison_path repeated_path domains_path output_path project =
     rbind (report_main ri oc comparison_path repeated_path domains_path output_path project) (\<lambda>report.
     rbind (write_report symlink ri output_path report) (\<lambda>written.
       Inr (written, ''wrote experiment report to '' @ output_path)))"

definition write_conformance ::
  "(string \<Rightarrow> bool) \<Rightarrow> (json \<Rightarrow> string) \<Rightarrow> ConformanceFiles \<Rightarrow> string \<Rightarrow> (string \<times> json) list \<Rightarrow> ConformanceFiles result" where
  "write_conformance symlink dumps cf path evidence =
     rbind (ensure (\<not> symlink path) ''output must not be a symbolic link'') (\<lambda>_.
       Inr (cf\<lparr>cf_read := (cf_read cf)(path := Inr (dumps (JObject evidence) @ [newline]))\<rparr>))"

definition snapshot_command ::
  "(string \<Rightarrow> bool) \<Rightarrow> (json \<Rightarrow> string) \<Rightarrow> ConformanceFiles \<Rightarrow> datetime \<Rightarrow> string \<Rightarrow> string \<Rightarrow> string \<Rightarrow> string \<Rightarrow> string \<Rightarrow>
   (ConformanceFiles \<times> string) result" where
  "snapshot_command symlink dumps cf now router ospf route bfd output_path =
     rbind (snapshot_main cf now router ospf route bfd output_path) (\<lambda>snapshot.
     rbind (write_conformance symlink dumps cf output_path snapshot) (\<lambda>written.
       Inr (written, ''wrote runtime snapshot to '' @ output_path)))"

definition conformance_count :: "string \<Rightarrow> (string \<times> json) list \<Rightarrow> string" where
  "conformance_count key evidence =
     (case jget ''summary'' evidence of
        JObject summary \<Rightarrow> (case jint (jget key summary) of Some n \<Rightarrow> int_str n | None \<Rightarrow> [])
      | _ \<Rightarrow> [])"

definition conformance_command ::
  "(string \<Rightarrow> bool) \<Rightarrow> (json \<Rightarrow> string) \<Rightarrow> ConformanceLibrary \<Rightarrow> ConformanceFiles \<Rightarrow> string \<Rightarrow> string \<Rightarrow> string \<Rightarrow> string \<Rightarrow> string \<Rightarrow>
   (ConformanceFiles \<times> string \<times> int) result" where
  "conformance_command symlink dumps lib cf intent expectation snapshot project output_path =
     rbind (conformance_main lib cf intent expectation snapshot project output_path) (\<lambda>(evidence, status).
     rbind (write_conformance symlink dumps cf output_path evidence) (\<lambda>written.
       Inr (written,
         if status = 0 then ''runtime conformance passed: '' @ conformance_count ''passed'' evidence @ '' checks''
         else ''runtime conformance failed: '' @ conformance_count ''failed'' evidence @ '' checks'', status)))"

text \<open>A run changes no file but its output, and the output is none of its inputs.\<close>

lemma report_program_writes:
  assumes "report_program symlink ri oc cp rp dp output_path project = Inr (written, line)"
  shows "\<exists>report. report_main ri oc cp rp dp output_path project = Inr report \<and> \<not> symlink output_path \<and>
      written = ri\<lparr>ri_read := (ri_read ri)(output_path := Inr report)\<rparr>"
    and "output_path \<notin> {cp, rp, dp}"
proof -
  from assms obtain report where r: "report_main ri oc cp rp dp output_path project = Inr report"
    and w: "write_report symlink ri output_path report = Inr written"
    by (auto simp: report_program_def rbind_eq_Inr)
  then show "\<exists>report. report_main ri oc cp rp dp output_path project = Inr report \<and> \<not> symlink output_path \<and>
      written = ri\<lparr>ri_read := (ri_read ri)(output_path := Inr report)\<rparr>"
    by (auto simp: write_report_def rbind_eq_Inr)
  from r show "output_path \<notin> {cp, rp, dp}"
    by (auto simp: report_main_def Let_def rbind_eq_Inr report_output_allowed_def)
qed

lemma conformance_command_writes:
  assumes "conformance_command symlink dumps lib cf intent expectation snapshot project output_path = Inr (written, line, status)"
  shows "\<exists>evidence. conformance_main lib cf intent expectation snapshot project output_path = Inr (evidence, status) \<and>
      written = cf\<lparr>cf_read := (cf_read cf)(output_path := Inr (dumps (JObject evidence) @ [newline]))\<rparr>"
    and "output_path \<notin> {intent, expectation, snapshot}"
proof -
  from assms obtain evidence where c: "conformance_main lib cf intent expectation snapshot project output_path = Inr (evidence, status)"
    and w: "write_conformance symlink dumps cf output_path evidence = Inr written"
    by (auto simp: conformance_command_def rbind_eq_Inr split: prod.splits)
  then show "\<exists>evidence. conformance_main lib cf intent expectation snapshot project output_path = Inr (evidence, status) \<and>
      written = cf\<lparr>cf_read := (cf_read cf)(output_path := Inr (dumps (JObject evidence) @ [newline]))\<rparr>"
    by (auto simp: write_conformance_def rbind_eq_Inr)
  from c have "validate_output_path cf output_path [intent, expectation, snapshot] (Some (cf_resolve cf project)) = Inr ()"
    unfolding conformance_main_def Let_def rbind_eq_Inr by (elim exE conjE) simp
  then show "output_path \<notin> {intent, expectation, snapshot}" by (auto simp: validate_output_path_def rbind_eq_Inr)
qed

section \<open>Documents with sorted keys\<close>

text \<open>What \<open>json.loads\<close> returns for a document that was written with sorted keys.\<close>

fun sorted_keys :: "json \<Rightarrow> json" where
  "sorted_keys (JArray xs) = JArray (map sorted_keys xs)"
| "sorted_keys (JObject d) = JObject (sort_key fst (map (\<lambda>(k, v). (k, sorted_keys v)) d))"
| "sorted_keys v = v"

lemma unique_object_iff:
  "unique_json (JObject d) = Inr () \<longleftrightarrow> distinct (dict_keys d) \<and> (\<forall>(k, v) \<in> set d. unique_json v = Inr ())"
  by (auto simp: rbind_eq_Inr each_eq_Inr unique_keys_Inr)

lemma sorted_members:
  "set (sort_key fst (map (\<lambda>(k, v). (k, sorted_keys v)) d)) = (\<lambda>(k, v). (k, sorted_keys v)) ` set d"
  "distinct (dict_keys (sort_key fst (map (\<lambda>(k, v). (k, sorted_keys v)) d))) \<longleftrightarrow> distinct (dict_keys d)"
proof -
  let ?d = "map (\<lambda>(k, v). (k, sorted_keys v)) d"
  show "set (sort_key fst ?d) = (\<lambda>(k, v). (k, sorted_keys v)) ` set d" by simp
  have "mset (map fst (sort_key fst ?d)) = mset (map fst ?d)" by (simp only: mset_map mset_sort)
  then have "distinct (map fst (sort_key fst ?d)) \<longleftrightarrow> distinct (map fst ?d)" by (metis mset_eq_imp_distinct_iff)
  moreover have "map fst ?d = map fst d" by (induction d) auto
  ultimately show "distinct (dict_keys (sort_key fst ?d)) \<longleftrightarrow> distinct (dict_keys d)" by (simp only:)
qed

lemma sorted_unique: "unique_json v = Inr () \<Longrightarrow> unique_json (sorted_keys v) = Inr ()"
proof (induction v rule: sorted_keys.induct)
  case (1 xs)
  then show ?case by (auto simp: each_eq_Inr)
next
  case (2 d)
  then have d: "distinct (dict_keys d)" "\<forall>(k, v) \<in> set d. unique_json v = Inr ()" unfolding unique_object_iff by auto
  show ?case unfolding sorted_keys.simps unique_object_iff sorted_members using d 2(1) by auto
qed simp_all

lemma sorted_equal: "unique_json v = Inr () \<Longrightarrow> py_equal (sorted_keys v) v"
proof (induction v rule: sorted_keys.induct)
  case (1 xs)
  then show ?case by (auto simp: each_eq_Inr list_all_iff set_zip)
next
  case (2 d)
  then have d: "distinct (dict_keys d)" "\<forall>(k, v) \<in> set d. unique_json v = Inr ()" unfolding unique_object_iff by auto
  let ?e = "sort_key fst (map (\<lambda>(k, v). (k, sorted_keys v)) d)"
  have "set (dict_keys ?e) = set (dict_keys d)"
    unfolding set_map sorted_members(1) by force
  moreover have "list_all (\<lambda>(k, v). case map_of d k of None \<Rightarrow> False | Some w \<Rightarrow> py_equal v w) ?e"
    unfolding list_all_iff sorted_members(1)
  proof (clarsimp)
    fix k v assume kv: "(k, v) \<in> set d"
    then have "map_of d k = Some v" using d(1) by simp
    then show "case map_of d k of None \<Rightarrow> False | Some w \<Rightarrow> py_equal (sorted_keys v) w" using 2(1) d(2) kv by auto
  qed
  ultimately show ?case unfolding sorted_keys.simps py_equal.simps by blast
qed simp_all

section \<open>The programs and the report's recalculation\<close>

text \<open>The limits the report puts on the raw logs it reads.\<close>

definition raw_size :: "ReportInputs \<Rightarrow> string \<Rightarrow> nat" where
  "raw_size ri path = (case ri_read ri path of Inl _ \<Rightarrow> 0 | Inr raw \<Rightarrow> length raw)"

lemma bounded_read_small:
  "raw_size ri path \<le> max_input_bytes \<Longrightarrow> bounded_read ri path label_text = ri_read ri path"
  by (cases "ri_read ri path") (auto simp: bounded_read_def raw_size_def Let_def)

lemma read_small_log:
  assumes "raw_size ri path \<le> max_input_bytes"
  shows "read_raw_log ri path = rbind (log_lines ri path) (\<lambda>lines. Inr (raw_size ri path, lines))"
proof (cases "ri_read ri path")
  case (Inr raw)
  then show ?thesis
    by (cases "ri_lines ri raw") (simp_all add: read_raw_log_def bounded_read_small [OF assms] log_lines_def raw_size_def)
qed (simp add: read_raw_log_def bounded_read_small [OF assms] log_lines_def)

lemma recomputed_comparison:
  assumes "raw_size ri (under evidence_directory ''remote-blackhole-ospf.log'') \<le> max_input_bytes"
    and "raw_size ri (under evidence_directory ''remote-blackhole-bfd.log'') \<le> max_input_bytes"
  shows "recompute_comparison ri evidence_directory =
    rbind (log_lines ri (under evidence_directory ''remote-blackhole-ospf.log'')) (\<lambda>ospf.
    rbind (log_lines ri (under evidence_directory ''remote-blackhole-bfd.log'')) (\<lambda>bfd.
      build_comparison (ri_round2 ri) (ri_patterns ri) ospf bfd))"
  unfolding recompute_comparison_def read_small_log [OF assms(1)] read_small_log [OF assms(2)]
  by (auto simp: rbind_def split: sum.splits)

text \<open>A profile's logs: within the limits, the report reads them as the program does.\<close>

lemma read_profile:
  assumes "\<forall>path \<in> set paths. raw_size ri path \<le> max_input_bytes \<and> file_name (parent_path path) = profile"
    and "n + sum_list (map (raw_size ri) paths) \<le> max_total_raw_log_bytes"
  shows "named_logs ri profile paths n =
    rbind (named_trial_logs ri paths) (\<lambda>logs. Inr (n + sum_list (map (raw_size ri) paths), logs))"
proof -
  have "fold_res (add_named_log ri profile) (n, acc) paths =
      rbind (named_trial_logs ri paths) (\<lambda>logs. Inr (n + sum_list (map (raw_size ri) paths), acc @ logs))" for acc
    using assms
  proof (induction paths arbitrary: n acc)
    case Nil
    show ?case by (simp add: named_trial_logs_def)
  next
    case (Cons path paths)
    then have p: "raw_size ri path \<le> max_input_bytes" "file_name (parent_path path) = profile" by simp_all
    show ?case
    proof (cases "log_lines ri path")
      case (Inl e)
      then show ?thesis by (simp add: named_trial_logs_def add_named_log_def read_small_log [OF p(1)])
    next
      case (Inr lines)
      then have "add_named_log ri profile (n, acc) path = Inr (n + raw_size ri path, acc @ [(trial_label path, lines)])"
        using Cons.prems(2) by (simp add: add_named_log_def read_small_log [OF p(1)] trial_label_def p(2))
      then have "fold_res (add_named_log ri profile) (n, acc) (path # paths) =
          rbind (named_trial_logs ri paths) (\<lambda>logs.
            Inr (n + raw_size ri path + sum_list (map (raw_size ri) paths), (acc @ [(trial_label path, lines)]) @ logs))"
        using Cons.IH [of "n + raw_size ri path" "acc @ [(trial_label path, lines)]"] Cons.prems by simp
      also have "\<dots> = rbind (named_trial_logs ri (path # paths)) (\<lambda>logs.
            Inr (n + sum_list (map (raw_size ri) (path # paths)), acc @ logs))"
        using Inr by (cases "named_trial_logs ri paths") (simp_all add: named_trial_logs_def add.assoc)
      finally show ?thesis .
    qed
  qed
  from this [of "[]"] show ?thesis by (simp add: named_logs_def)
qed

text \<open>The trial logs of a profile below the evidence directory, in the order of their names.\<close>

definition trial_files :: "ReportInputs \<Rightarrow> string \<Rightarrow> string \<Rightarrow> string list" where
  "trial_files ri base profile = sort (ri_glob ri (under (under base ''evidence'') (''repeated/'' @ profile)))"

definition comparison_logs :: "string \<Rightarrow> string list" where
  "comparison_logs base =
     [under (under base ''evidence'') ''remote-blackhole-ospf.log'', under (under base ''evidence'') ''remote-blackhole-bfd.log'']"

text \<open>
  The archived logs of a checkout: every file the listing of a trial directory gives has that
  directory as its parent, and the sizes are within the report's limits.
\<close>

definition raw_logs_fit :: "ReportInputs \<Rightarrow> string \<Rightarrow> bool" where
  "raw_logs_fit ri base =
     (let ospf = trial_files ri base ''ospf_only''; bfd = trial_files ri base ''bfd_100x3'' in
      (\<forall>path \<in> set (comparison_logs base @ ospf @ bfd). raw_size ri path \<le> max_input_bytes) \<and>
      (\<forall>path \<in> set ospf. file_name (parent_path path) = ''ospf_only'') \<and>
      (\<forall>path \<in> set bfd. file_name (parent_path path) = ''bfd_100x3'') \<and>
      sum_list (map (raw_size ri) (ospf @ bfd)) \<le> max_total_raw_log_bytes)"

lemma recomputed_repeated:
  assumes "raw_logs_fit ri base"
    and "named_trial_logs ri (trial_files ri base ''ospf_only'') = Inr ospf"
    and "named_trial_logs ri (trial_files ri base ''bfd_100x3'') = Inr bfd"
    and "build_repeated_evidence (ri_round2 ri) (ri_patterns ri) ospf bfd = Inr doc"
  shows "recompute_repeated ri (under base ''evidence'') (int (length ospf)) = Inr doc"
proof -
  let ?ospf = "trial_files ri base ''ospf_only''" and ?bfd = "trial_files ri base ''bfd_100x3''"
  note fit = assms(1) [unfolded raw_logs_fit_def Let_def]
  have len: "length ?ospf = length ospf" "length ?bfd = length bfd"
    using assms(2,3) by (auto simp: named_trial_logs_def traverse_eq_Inr dest: list_all2_lengthD)
  from repeated_Inr [OF assms(4)] have same: "length bfd = length ospf" by auto
  have "trial_paths ri (under base ''evidence'') (int (length ospf)) ''ospf_only'' = Inr ?ospf"
    "trial_paths ri (under base ''evidence'') (int (length ospf)) ''bfd_100x3'' = Inr ?bfd"
    using len same by (simp_all add: trial_paths_def trial_files_def Let_def)
  moreover have "named_logs ri ''ospf_only'' ?ospf 0 = Inr (sum_list (map (raw_size ri) ?ospf), ospf)"
    using read_profile [of ?ospf ri "''ospf_only''" 0] fit assms(2) by simp
  moreover have "named_logs ri ''bfd_100x3'' ?bfd (sum_list (map (raw_size ri) ?ospf)) =
      Inr (sum_list (map (raw_size ri) ?ospf) + sum_list (map (raw_size ri) ?bfd), bfd)"
    using read_profile [of ?bfd ri "''bfd_100x3''" "sum_list (map (raw_size ri) ?ospf)"] fit assms(3) by simp
  ultimately show ?thesis using assms(4) by (simp add: recompute_repeated_def)
qed

lemma write_evidence_fields [simp]:
  "ri_read (write_evidence dumps ri path v) = (ri_read ri)(path := Inr (dumps v @ [newline]))"
  "ri_glob (write_evidence dumps ri path v) = ri_glob ri" "ri_lines (write_evidence dumps ri path v) = ri_lines ri"
  "ri_parse (write_evidence dumps ri path v) = ri_parse ri" "ri_round2 (write_evidence dumps ri path v) = ri_round2 ri"
  "ri_patterns (write_evidence dumps ri path v) = ri_patterns ri" "ri_sha256 (write_evidence dumps ri path v) = ri_sha256 ri"
  by (simp_all add: write_evidence_def)

lemma write_keeps_logs:
  assumes "path \<noteq> written"
  shows "log_lines (write_evidence dumps ri written v) path = log_lines ri path"
    "raw_size (write_evidence dumps ri written v) path = raw_size ri path"
  using assms by (simp_all add: log_lines_def raw_size_def)

lemma write_keeps_trials:
  assumes "written \<notin> set paths"
  shows "named_trial_logs (write_evidence dumps ri written v) paths = named_trial_logs ri paths"
  using assms unfolding named_trial_logs_def
  by (induction paths) (auto simp: write_keeps_logs)

lemma write_keeps_files [simp]: "trial_files (write_evidence dumps ri written v) base profile = trial_files ri base profile"
  by (simp add: trial_files_def)

lemma write_keeps_fit:
  assumes "written \<notin> set (comparison_logs base @ trial_files ri base ''ospf_only'' @ trial_files ri base ''bfd_100x3'')"
  shows "raw_logs_fit (write_evidence dumps ri written v) base = raw_logs_fit ri base"
proof -
  have size: "\<forall>path \<in> set (comparison_logs base @ trial_files ri base ''ospf_only'' @ trial_files ri base ''bfd_100x3'').
      raw_size (write_evidence dumps ri written v) path = raw_size ri path"
    using assms write_keeps_logs(2) by metis
  have "map (raw_size (write_evidence dumps ri written v)) paths = map (raw_size ri) paths" if "written \<notin> set paths" for paths
    using that by (intro map_cong refl write_keeps_logs(2)) auto
  then have total: "sum_list (map (raw_size (write_evidence dumps ri written v)) (trial_files ri base profile)) =
      sum_list (map (raw_size ri) (trial_files ri base profile))" if "profile \<in> {''ospf_only'', ''bfd_100x3''}" for profile
    using that assms by (intro arg_cong [of _ _ sum_list]) auto
  show ?thesis using size by (simp add: raw_logs_fit_def Let_def total)
qed

lemma read_written:
  assumes "ri_read ri path = Inr (dumps (JObject d) @ [newline])" "raw_size ri path \<le> max_input_bytes"
    and "ri_parse ri (dumps (JObject d) @ [newline]) = Inr (sorted_keys (JObject d))" "unique_json (JObject d) = Inr ()"
  shows "\<exists>d' s. report_json_object ri path label_text = Inr (d', s) \<and> py_equal (JObject d') (JObject d) \<and>
    (\<forall>k n. jget k d = JInt n \<longrightarrow> jget k d' = JInt n)"
proof -
  obtain d' where d': "sorted_keys (JObject d) = JObject d'" by simp
  have u: "unique_json (JObject d') = Inr ()" using sorted_unique [OF assms(4)] unfolding d' .
  have "report_json_object ri path label_text = Inr (d', ri_sha256 ri (crlf_to_lf (dumps (JObject d) @ [newline])))"
    using assms(1,3) u unfolding d'
    by (simp add: report_json_object_def bounded_read_small [OF assms(2)] del: unique_json.simps)
  moreover have "py_equal (JObject d') (JObject d)" using sorted_equal [OF assms(4)] unfolding d' .
  moreover have "jget k d' = JInt n" if "jget k d = JInt n" for k n
  proof -
    have "(k, JInt n) \<in> set d" using that by (auto simp: jget_def split: option.splits dest: map_of_SomeD)
    then have "(k, JInt n) \<in> set d'" using sorted_members(1) [of d] d' by force
    moreover have "distinct (dict_keys d')" using unique_json_object [OF u] by blast
    ultimately show ?thesis by (simp add: jget_def)
  qed
  ultimately show ?thesis by blast
qed

lemma written_comparison_unique: "build_comparison round2 p ospf bfd = Inr c \<Longrightarrow> unique_json (JObject c) = Inr ()"
  using comparison_Inr unique_comparison by metis

lemma written_repeated_unique: "build_repeated_evidence round2 p ospf bfd = Inr r \<Longrightarrow> unique_json (JObject r) = Inr ()"
  using repeated_Inr unique_repeated by metis

text \<open>
  C36: The programs and the report agree on the measured evidence. After the comparison program
  has run on a checkout's two archived blackhole logs and the repeated-trials program on its
  archived trial logs, each writing a document of its own, the report reads both documents back
  and its recalculation from the raw logs accepts them: the two sides take the same logs in the
  same order under the same labels and compute the same values. (The logs are within the report's
  size limits, and \<open>json.loads\<close> returns for a written document the document with sorted keys.)
\<close>

theorem written_evidence_recomputed:
  assumes "comparison_main dumps ri (comparison_logs base ! 0) (comparison_logs base ! 1) cp = Inr ri1"
    and "repeated_main dumps ri1 (trial_files ri base ''ospf_only'') (trial_files ri base ''bfd_100x3'') rp = Inr ri2"
    and "raw_logs_fit ri base" "cp \<noteq> rp"
    and "{cp, rp} \<inter> set (comparison_logs base @ trial_files ri base ''ospf_only'' @ trial_files ri base ''bfd_100x3'') = {}"
    and "\<And>path v. path \<in> {cp, rp} \<Longrightarrow> ri_read ri2 path = Inr (dumps v @ [newline]) \<Longrightarrow>
      ri_parse ri2 (dumps v @ [newline]) = Inr (sorted_keys v)"
    and "raw_size ri2 cp \<le> max_input_bytes" "raw_size ri2 rp \<le> max_input_bytes"
  shows "\<exists>c s r s'. report_json_object ri2 cp ''comparison'' = Inr (c, s) \<and> report_json_object ri2 rp ''repeated'' = Inr (r, s') \<and>
    validate_measured_evidence ri2 c r base = Inr ()"
proof -
  let ?E = "under base ''evidence''"
  let ?ospf = "trial_files ri base ''ospf_only''" and ?bfd = "trial_files ri base ''bfd_100x3''"
  have logs: "comparison_logs base ! 0 = under ?E ''remote-blackhole-ospf.log''"
    "comparison_logs base ! 1 = under ?E ''remote-blackhole-bfd.log''" by (simp_all add: comparison_logs_def)
  from assms(1) obtain ospf bfd c where lines: "log_lines ri (comparison_logs base ! 0) = Inr ospf" "log_lines ri (comparison_logs base ! 1) = Inr bfd"
    and c: "build_comparison (ri_round2 ri) (ri_patterns ri) ospf bfd = Inr c" and ri1: "ri1 = write_evidence dumps ri cp (JObject c)"
    by (auto simp: comparison_main_def rbind_eq_Inr)
  from assms(2) obtain trials trials' r where
    t: "named_trial_logs ri1 ?ospf = Inr trials" "named_trial_logs ri1 ?bfd = Inr trials'"
    and r: "build_repeated_evidence (ri_round2 ri) (ri_patterns ri) trials trials' = Inr r"
    and ri2: "ri2 = write_evidence dumps ri1 rp (JObject r)"
    by (auto simp: repeated_main_def rbind_eq_Inr ri1)
  have apart: "cp \<notin> set (comparison_logs base @ ?ospf @ ?bfd)" "rp \<notin> set (comparison_logs base @ ?ospf @ ?bfd)"
    using assms(5) by auto
  have fields: "ri_round2 ri2 = ri_round2 ri" "ri_patterns ri2 = ri_patterns ri" "trial_files ri2 base = trial_files ri base"
    by (simp_all add: ri1 ri2 fun_eq_iff)
  have kept: "named_trial_logs ri2 ?ospf = Inr trials" "named_trial_logs ri2 ?bfd = Inr trials'"
    using t apart write_keeps_trials [of rp ?ospf] write_keeps_trials [of rp ?bfd] by (auto simp: ri2)
  have read: "log_lines ri2 path = log_lines ri path \<and> raw_size ri2 path = raw_size ri path" if "path \<in> set (comparison_logs base)" for path
  proof -
    have "path \<noteq> cp" "path \<noteq> rp" using that apart by auto
    then show ?thesis by (simp add: ri1 ri2 write_keeps_logs)
  qed
  have fit: "raw_logs_fit ri2 base"
    using assms(3) apart write_keeps_fit [of cp base ri] write_keeps_fit [of rp base ri1] by (simp add: ri1 ri2)
  have small: "\<forall>path \<in> set (comparison_logs base). raw_size ri2 path \<le> max_input_bytes"
    using fit by (auto simp: raw_logs_fit_def Let_def)
  have rc: "recompute_comparison ri2 ?E = Inr c"
    using recomputed_comparison [of ri2 ?E] small read lines c logs by (simp add: fields comparison_logs_def)
  have rr: "recompute_repeated ri2 ?E (int (length trials)) = Inr r"
    by (rule recomputed_repeated [OF fit, unfolded fields, OF kept r])
  have files: "ri_read ri2 cp = Inr (dumps (JObject c) @ [newline])" "ri_read ri2 rp = Inr (dumps (JObject r) @ [newline])"
    using assms(4) by (simp_all add: ri1 ri2)
  have parsed: "ri_parse ri2 (dumps (JObject c) @ [newline]) = Inr (sorted_keys (JObject c))"
    "ri_parse ri2 (dumps (JObject r) @ [newline]) = Inr (sorted_keys (JObject r))"
    by (rule assms(6) [OF _ files(1)], simp) (rule assms(6) [OF _ files(2)], simp)
  from read_written [where dumps = dumps, OF files(1) assms(7) parsed(1) written_comparison_unique [OF c]]
  obtain c' s where c': "report_json_object ri2 cp ''comparison'' = Inr (c', s)" "py_equal (JObject c') (JObject c)" by blast
  from read_written [where dumps = dumps, OF files(2) assms(8) parsed(2) written_repeated_unique [OF r]]
  obtain r' s' where r': "report_json_object ri2 rp ''repeated'' = Inr (r', s')" "py_equal (JObject r') (JObject r)"
    "\<forall>k n. jget k r = JInt n \<longrightarrow> jget k r' = JInt n" by blast
  from repeated_Inr [OF r] obtain a b x y where "r = repeated_document (int (length trials)) a b x y" by blast
  then have "jget ''trial_count_per_profile'' r' = JInt (int (length trials))" using r'(3) by (simp add: repeated_gets)
  then have "validate_measured_evidence ri2 c' r' base = Inr ()"
    using rc rr c'(2) r'(2) by (simp add: validate_measured_evidence_def report_integer_def)
  then show ?thesis using c'(1) r'(1) by blast
qed

section \<open>A run on the lab's logs\<close>

lemma recomputed_repeated_logs:
  assumes "raw_logs_fit ri base" "recompute_repeated ri (under base ''evidence'') n = Inr doc"
  shows "\<exists>ospf bfd. named_trial_logs ri (trial_files ri base ''ospf_only'') = Inr ospf \<and>
    named_trial_logs ri (trial_files ri base ''bfd_100x3'') = Inr bfd \<and>
    build_repeated_evidence (ri_round2 ri) (ri_patterns ri) ospf bfd = Inr doc"
proof -
  let ?ospf = "trial_files ri base ''ospf_only''" and ?bfd = "trial_files ri base ''bfd_100x3''"
  note fit = assms(1) [unfolded raw_logs_fit_def Let_def]
  have paths: "paths = trial_files ri base profile" if "trial_paths ri (under base ''evidence'') n profile = Inr paths" for paths profile
    using that by (auto simp: trial_paths_def trial_files_def Let_def rbind_eq_Inr)
  from assms(2) obtain a ospf b bfd where l: "named_logs ri ''ospf_only'' ?ospf 0 = Inr (a, ospf)"
      "named_logs ri ''bfd_100x3'' ?bfd a = Inr (b, bfd)" "build_repeated_evidence (ri_round2 ri) (ri_patterns ri) ospf bfd = Inr doc"
    unfolding recompute_repeated_def rbind_eq_Inr by (auto simp: rbind_eq_Inr dest!: paths split: prod.splits)
  have "named_logs ri ''ospf_only'' ?ospf 0 =
      rbind (named_trial_logs ri ?ospf) (\<lambda>logs. Inr (0 + sum_list (map (raw_size ri) ?ospf), logs))"
    by (rule read_profile) (use fit in auto)
  then have "named_trial_logs ri ?ospf = Inr ospf" "a = sum_list (map (raw_size ri) ?ospf)"
    unfolding l(1) by (cases "named_trial_logs ri ?ospf"; simp)+
  moreover from this have "named_logs ri ''bfd_100x3'' ?bfd a =
      rbind (named_trial_logs ri ?bfd) (\<lambda>logs. Inr (a + sum_list (map (raw_size ri) ?bfd), logs))"
    by (intro read_profile) (use fit in auto)
  then have "named_trial_logs ri ?bfd = Inr bfd"
    unfolding l(2) by (cases "named_trial_logs ri ?bfd"; simp)
  ultimately show ?thesis using l(3) by blast
qed

text \<open>The lab's files, parsing the two documents the programs write there.\<close>

definition lab_programs :: "(string \<times> json) list \<Rightarrow> (string \<times> json) list \<Rightarrow> ReportInputs" where
  "lab_programs c r =
     (report_inputs [] [] [])\<lparr>ri_parse := (\<lambda>s. Inr (sorted_keys (if s = ''c'' @ [newline] then JObject c else JObject r)))\<rparr>"

definition lab_dumps :: "(string \<times> json) list \<Rightarrow> (string \<times> json) list \<Rightarrow> json \<Rightarrow> string" where
  "lab_dumps c r v = (if v = JObject c then ''c'' else if v = JObject r then ''r'' else ''x'')"

lemma lab_programs_parse:
  "log_lines (lab_programs c r) = log_lines (report_inputs [] [] [])" "raw_size (lab_programs c r) = raw_size (report_inputs [] [] [])"
  "named_trial_logs (lab_programs c r) = named_trial_logs (report_inputs [] [] [])"
  "trial_files (lab_programs c r) = trial_files (report_inputs [] [] [])"
  "ri_round2 (lab_programs c r) = ri_round2 (report_inputs [] [] [])" "ri_patterns (lab_programs c r) = ri_patterns (report_inputs [] [] [])"
  by (simp_all add: lab_programs_def log_lines_def raw_size_def named_trial_logs_def trial_files_def fun_eq_iff)

lemma lab_trial_files:
  "trial_files (report_inputs [] [] []) ''p'' ''ospf_only'' = map (\<lambda>name. ''p/evidence/repeated/ospf_only/'' @ name) trial_log_names"
  "trial_files (report_inputs [] [] []) ''p'' ''bfd_100x3'' = map (\<lambda>name. ''p/evidence/repeated/bfd_100x3/'' @ name) trial_log_names"
  using lab_trials [of "[]" "[]" "[]"] by (simp_all only: trial_paths_def trial_files_def Let_def rbind_eq_Inr sum.inject) auto

lemma lab_sizes: "raw_size (report_inputs [] [] []) path = 1"
  by (simp add: raw_size_def report_inputs_def)

lemma lab_logs_fit: "raw_logs_fit (report_inputs [] [] []) ''p''"
proof -
  have "list_all (\<lambda>name. file_name (parent_path (''p/evidence/repeated/ospf_only/'' @ name)) = ''ospf_only'' \<and>
      file_name (parent_path (''p/evidence/repeated/bfd_100x3/'' @ name)) = ''bfd_100x3'') trial_log_names" by code_simp
  then show ?thesis
    by (simp add: raw_logs_fit_def Let_def lab_trial_files lab_sizes max_input_bytes_def max_total_raw_log_bytes_def
        sum_list_triv trial_log_count comp_def list_all_iff)
qed

lemma lab_programs_run:
  "\<exists>c r ri1 ri2. JObject c \<noteq> JObject r \<and>
    comparison_main (lab_dumps c r) (lab_programs c r) (comparison_logs ''p'' ! 0) (comparison_logs ''p'' ! 1)
      (lab_file ''bfd-comparison.json'') = Inr ri1 \<and>
    repeated_main (lab_dumps c r) ri1 (trial_files (lab_programs c r) ''p'' ''ospf_only'')
      (trial_files (lab_programs c r) ''p'' ''bfd_100x3'') (lab_file ''bfd-repeated-trials.json'') = Inr ri2 \<and>
    ri2 = write_evidence (lab_dumps c r) (write_evidence (lab_dumps c r) (lab_programs c r) (lab_file ''bfd-comparison.json'') (JObject c))
      (lab_file ''bfd-repeated-trials.json'') (JObject r)"
proof -
  obtain ospf bfd where runs: "parse_detection_log report_patterns (report_log ''ospf_only'' []) = Inr ospf"
    "parse_detection_log report_patterns (report_log ''bfd_100x3'' [''peer up'']) = Inr bfd"
    "run_facts ospf = ((100, 1, ''ospf_only'', lab_sha, False, 25), Some 30, Some 120)"
    "run_facts bfd = ((100, 1, ''bfd_100x3'', lab_sha, True, 25), Some 30, Some 120)"
    using lab_runs by blast
  define c where "c = comparison_document ospf bfd 0 0"
  obtain ts ts' where "recompute_repeated (report_inputs [] [] []) (under ''p'' ''evidence'') 20 =
      Inr (repeated_document 20 (lab_profile ts) (lab_profile ts') 0 0)"
    using lab_repeated [OF runs] by blast
  define r where "r = repeated_document 20 (lab_profile ts) (lab_profile ts') 0 0"
  let ?ri = "report_inputs [] [] []"
  obtain trials trials' where t: "named_trial_logs ?ri (trial_files ?ri ''p'' ''ospf_only'') = Inr trials"
      "named_trial_logs ?ri (trial_files ?ri ''p'' ''bfd_100x3'') = Inr trials'"
      "build_repeated_evidence (ri_round2 ?ri) (ri_patterns ?ri) trials trials' = Inr r"
    using recomputed_repeated_logs [OF lab_logs_fit] \<open>recompute_repeated _ _ _ = _\<close> unfolding r_def by blast
  have "recompute_comparison ?ri (under ''p'' ''evidence'') = Inr c" unfolding c_def by (rule lab_comparison [OF runs])
  then obtain o' b' where l: "log_lines ?ri (comparison_logs ''p'' ! 0) = Inr o'" "log_lines ?ri (comparison_logs ''p'' ! 1) = Inr b'"
      "build_comparison (ri_round2 ?ri) (ri_patterns ?ri) o' b' = Inr c"
    by (auto simp: recomputed_comparison lab_sizes max_input_bytes_def rbind_eq_Inr comparison_logs_def)
  let ?ri1 = "write_evidence (lab_dumps c r) (lab_programs c r) (lab_file ''bfd-comparison.json'') (JObject c)"
  have "comparison_main (lab_dumps c r) (lab_programs c r) (comparison_logs ''p'' ! 0) (comparison_logs ''p'' ! 1)
      (lab_file ''bfd-comparison.json'') = Inr ?ri1"
    using l by (simp add: comparison_main_def lab_programs_parse)
  moreover have "named_trial_logs ?ri1 (trial_files (lab_programs c r) ''p'' profile) =
      named_trial_logs ?ri (trial_files ?ri ''p'' profile)" if "profile = ''ospf_only'' \<or> profile = ''bfd_100x3''" for profile
  proof -
    have "lab_file ''bfd-comparison.json'' \<notin> set (trial_files ?ri ''p'' profile)"
      using that unfolding lab_files by (auto simp: lab_trial_files)
    then show ?thesis by (simp add: write_keeps_trials lab_programs_parse)
  qed
  then have "repeated_main (lab_dumps c r) ?ri1 (trial_files (lab_programs c r) ''p'' ''ospf_only'')
      (trial_files (lab_programs c r) ''p'' ''bfd_100x3'') (lab_file ''bfd-repeated-trials.json'') =
    Inr (write_evidence (lab_dumps c r) ?ri1 (lab_file ''bfd-repeated-trials.json'') (JObject r))"
    using t by (simp add: repeated_main_def lab_programs_parse)
  moreover have "JObject c \<noteq> JObject r" by (simp add: c_def r_def comparison_document_def repeated_document_def)
  ultimately show ?thesis by blast
qed

theorem written_evidence_recomputed_witness:
  "\<exists>c r ri1 ri2. comparison_main (lab_dumps c r) (lab_programs c r) (comparison_logs ''p'' ! 0) (comparison_logs ''p'' ! 1)
      (lab_file ''bfd-comparison.json'') = Inr ri1 \<and>
    repeated_main (lab_dumps c r) ri1 (trial_files (lab_programs c r) ''p'' ''ospf_only'')
      (trial_files (lab_programs c r) ''p'' ''bfd_100x3'') (lab_file ''bfd-repeated-trials.json'') = Inr ri2 \<and>
    (\<exists>c' s r' s'. report_json_object ri2 (lab_file ''bfd-comparison.json'') ''comparison'' = Inr (c', s) \<and>
      report_json_object ri2 (lab_file ''bfd-repeated-trials.json'') ''repeated'' = Inr (r', s') \<and>
      validate_measured_evidence ri2 c' r' ''p'' = Inr ())"
proof -
  let ?cp = "lab_file ''bfd-comparison.json''" and ?rp = "lab_file ''bfd-repeated-trials.json''"
  obtain c r ri1 ri2 where apart: "JObject c \<noteq> JObject r"
    and p: "comparison_main (lab_dumps c r) (lab_programs c r) (comparison_logs ''p'' ! 0) (comparison_logs ''p'' ! 1) ?cp = Inr ri1"
      "repeated_main (lab_dumps c r) ri1 (trial_files (lab_programs c r) ''p'' ''ospf_only'') (trial_files (lab_programs c r) ''p'' ''bfd_100x3'') ?rp = Inr ri2"
    and ri2: "ri2 = write_evidence (lab_dumps c r) (write_evidence (lab_dumps c r) (lab_programs c r) ?cp (JObject c)) ?rp (JObject r)"
    using lab_programs_run by blast
  have fit: "raw_logs_fit (lab_programs c r) ''p''"
    using lab_logs_fit by (simp add: raw_logs_fit_def lab_programs_parse)
  have cr: "?cp \<noteq> ?rp" unfolding lab_files by simp
  have logs: "{?cp, ?rp} \<inter> set (comparison_logs ''p'' @ trial_files (lab_programs c r) ''p'' ''ospf_only'' @
      trial_files (lab_programs c r) ''p'' ''bfd_100x3'') = {}"
    unfolding lab_files lab_programs_parse lab_trial_files by (auto simp: comparison_logs_def under_def)
  have dumped: "lab_dumps c r v @ [newline] = ''c'' @ [newline] \<longleftrightarrow> v = JObject c"
    "lab_dumps c r v @ [newline] = ''r'' @ [newline] \<longleftrightarrow> v = JObject r" for v
    using apart by (auto simp: lab_dumps_def)
  have at_cp: "ri_read ri2 ?cp = Inr (''c'' @ [newline])" and at_rp: "ri_read ri2 ?rp = Inr (''r'' @ [newline])"
    using cr apart by (simp_all add: ri2 lab_dumps_def)
  have codec: "ri_parse ri2 (lab_dumps c r v @ [newline]) = Inr (sorted_keys v)"
    if "path \<in> {?cp, ?rp}" "ri_read ri2 path = Inr (lab_dumps c r v @ [newline])" for path v
  proof -
    have "v = JObject c \<or> v = JObject r"
    proof (cases "path = ?cp")
      case True
      have "(Inr (''c'' @ [newline]) :: string result) = Inr (lab_dumps c r v @ [newline])"
        using that(2) unfolding True at_cp .
      then have "lab_dumps c r v @ [newline] = ''c'' @ [newline]" by (rule sum.inject(2) [THEN iffD1, THEN sym])
      then show ?thesis unfolding dumped ..
    next
      case False
      then have path: "path = ?rp" using that(1) by blast
      have "(Inr (''r'' @ [newline]) :: string result) = Inr (lab_dumps c r v @ [newline])"
        using that(2) unfolding path at_rp .
      then have "lab_dumps c r v @ [newline] = ''r'' @ [newline]" by (rule sum.inject(2) [THEN iffD1, THEN sym])
      then show ?thesis unfolding dumped ..
    qed
    have parse: "ri_parse ri2 x = Inr (sorted_keys (if x = ''c'' @ [newline] then JObject c else JObject r))" for x
      by (simp add: ri2 lab_programs_def)
    have "ri_parse ri2 (lab_dumps c r v @ [newline]) = Inr (sorted_keys (if v = JObject c then JObject c else JObject r))"
      using parse [of "lab_dumps c r v @ [newline]"] unfolding dumped .
    then show ?thesis using \<open>v = JObject c \<or> v = JObject r\<close> by (elim disjE) (simp_all only: refl if_True if_split, auto)
  qed
  have sizes: "raw_size ri2 ?cp \<le> max_input_bytes" "raw_size ri2 ?rp \<le> max_input_bytes"
    by (simp_all add: raw_size_def at_cp at_rp max_input_bytes_def)
  have "\<exists>c' s r' s'. report_json_object ri2 ?cp ''comparison'' = Inr (c', s) \<and>
      report_json_object ri2 ?rp ''repeated'' = Inr (r', s') \<and> validate_measured_evidence ri2 c' r' ''p'' = Inr ()"
    by (rule written_evidence_recomputed [OF p fit cr logs _ sizes]) (rule codec)
  then show ?thesis using p by blast
qed

end
