(* ===== verification/Collector_Programs.thy ===== *)
theory Collector_Programs
  imports Evidence_Programs Live_Detector Telemetry_Api
begin

text \<open>
  What the two collectors read and how the telemetry collector is started: the sample the live
  collector's probe takes of a router and what a live collection does to the lab (\<open>DockerFrrProbe\<close>
  and \<open>collect_live_convergence\<close> of \<open>live_collector.py\<close>), and the choice of files and interval in
  \<open>main\<close> of \<open>telemetry_collector.py\<close>. Running \<open>docker exec\<close> is a parameter.
\<close>

section \<open>The probe\<close>

text \<open>
  Three commands, in this order; a route without a metric is no error as long as it is JSON.
\<close>

definition route_sample :: "json option \<Rightarrow> string \<Rightarrow> int option result" where
  "route_sample document output_text =
     (case parse_route_metric document output_text of
        Inl (ValueError _) \<Rightarrow> rbind (load_json document) (\<lambda>_. Inr None)
      | Inl e \<Rightarrow> Inl e
      | Inr metric \<Rightarrow> Inr (Some metric))"

definition probe_sample ::
  "(json \<Rightarrow> string) \<Rightarrow> (string \<Rightarrow> json option) \<Rightarrow> (string \<Rightarrow> string result) \<Rightarrow> string \<Rightarrow> string \<Rightarrow> int option \<Rightarrow> LiveSample result" where
  "probe_sample repr loads vtysh peer route_prefix sequence =
     rbind (vtysh ''show bfd peers json'') (\<lambda>bfd.
     rbind (vtysh ''show ip ospf neighbor json'') (\<lambda>ospf.
     rbind (vtysh (''show ip route '' @ route_prefix @ '' json'')) (\<lambda>route.
     rbind (route_sample (loads route) route) (\<lambda>metric.
     rbind (parse_bfd_peer_up repr (loads bfd) peer) (\<lambda>up.
     rbind (parse_ospf_neighbor_full repr (loads ospf) peer) (\<lambda>full.
       Inr \<lparr>bfd_up = up, ospf_full = full, route_metric = metric, icmp_sequence = sequence\<rparr>))))))"

lemma route_sample_of_json: "\<exists>metric. route_sample (Some j) output_text = Inr metric"
  by (auto simp: route_sample_def parse_route_metric_def load_json_def Let_def split: option.splits list.splits)

text \<open>
  As long as the commands run and print JSON, the probe takes a sample: a missing neighbor, peer
  or route is a value of the sample and not an error.
\<close>

lemma probe_takes_sample:
  assumes "\<forall>command. \<exists>output_text j. vtysh command = Inr output_text \<and> loads output_text = Some j"
  shows "\<exists>s. probe_sample repr loads vtysh peer route_prefix sequence = Inr s \<and> icmp_sequence s = sequence"
proof -
  from assms obtain out doc where o: "vtysh command = Inr (out command)" "loads (out command) = Some (doc command)" for command
    by metis
  obtain metric where "route_sample (Some (doc (''show ip route '' @ route_prefix @ '' json''))) (out (''show ip route '' @ route_prefix @ '' json'')) = Inr metric"
    using route_sample_of_json by blast
  then show ?thesis
    by (simp add: probe_sample_def o parse_bfd_peer_up_def parse_ospf_neighbor_full_def load_json_def)
qed

section \<open>The fault of a live collection\<close>

text \<open>
  What a live collection does to the lab, in order: ping is started, the fault is set up by two
  \<open>tc\<close> commands between the creation of the run and its first event, and the \<open>finally\<close> block removes
  the fault and ends ping. \<open>run_command\<close> says whether a command succeeds; the removal is not checked.
\<close>

datatype lab_action = StartPing "string list" | RunCommand "string list" | TerminatePing

definition docker_exec :: "string \<Rightarrow> string list \<Rightarrow> string list" where
  "docker_exec container arguments = [''docker'', ''exec'', container] @ arguments"

definition ping_command :: "string \<Rightarrow> string \<Rightarrow> string list" where
  "ping_command container target = docker_exec container [''ping'', ''-n'', ''-i'', ''0.1'', ''-W'', ''1'', target]"

definition clsact_command :: "string \<Rightarrow> string \<Rightarrow> string list" where
  "clsact_command container interface = docker_exec container [''tc'', ''qdisc'', ''add'', ''dev'', interface, ''clsact'']"

definition drop_command :: "string \<Rightarrow> string \<Rightarrow> string list" where
  "drop_command container interface =
     docker_exec container [''tc'', ''filter'', ''add'', ''dev'', interface, ''ingress'', ''protocol'', ''all'',
       ''pref'', ''1'', ''flower'', ''action'', ''drop'']"

definition cleanup_command :: "string \<Rightarrow> string \<Rightarrow> string list" where
  "cleanup_command container interface = docker_exec container [''tc'', ''qdisc'', ''del'', ''dev'', interface, ''clsact'']"

text \<open>The two checked commands: what was run, and how it ended.\<close>

definition inject_fault :: "(string list \<Rightarrow> unit result) \<Rightarrow> string \<Rightarrow> string \<Rightarrow> string list list \<times> unit result" where
  "inject_fault run_command container interface =
     (let clsact = clsact_command container interface; drop_all = drop_command container interface in
      case run_command clsact of
        Inl e \<Rightarrow> ([clsact], Inl e)
      | Inr _ \<Rightarrow> ([clsact, drop_all], run_command drop_all))"

definition live_session ::
  "(string \<Rightarrow> string \<Rightarrow> string \<Rightarrow> string \<Rightarrow> datetime \<Rightarrow> 's \<Rightarrow> (ConvergenceRun \<times> 's) result) \<Rightarrow>
   (string \<Rightarrow> ConvergenceEvent \<Rightarrow> 's \<Rightarrow> (ConvergenceRun \<times> 's) result) \<Rightarrow>
   (string \<Rightarrow> 's \<Rightarrow> ConvergenceRun result) \<Rightarrow>
   (string \<Rightarrow> string) \<Rightarrow> (int \<times> string \<Rightarrow> string) \<Rightarrow> (string \<Rightarrow> string option) \<Rightarrow> (string \<Rightarrow> datetime) \<Rightarrow>
   string \<Rightarrow> (string list \<Rightarrow> unit result) \<Rightarrow> string \<Rightarrow> string \<Rightarrow> string \<Rightarrow>
   string \<Rightarrow> string \<Rightarrow> LiveSample \<Rightarrow> (nat option \<times> int) list list \<Rightarrow> int \<Rightarrow> Poll list \<Rightarrow> 's \<Rightarrow>
   lab_action list \<times> ConvergenceRunResponse result \<times> 's" where
  "live_session create app get repr body address clock uuid_hex run_command client container interface source target
      baseline baseline_lines fault_ns polls s =
     (if \<not> bfd_up baseline \<or> \<not> ospf_full baseline \<or> route_metric baseline \<noteq> Some 30
      then ([], Inl (RuntimeError ''live baseline requires BFD up, OSPF Full, and service route metric 30''), s)
      else
        (let around = (\<lambda>commands. StartPing (ping_command client target) # map RunCommand commands @
               [RunCommand (cleanup_command container interface), TerminatePing]);
             now = clock ''started_at'' in
         case wait_for_ping_baseline baseline_lines mk_tracker of
           Inl e \<Rightarrow> (around [], Inl e, s)
         | Inr tracker \<Rightarrow>
             (case create_convergence_run create repr address uuid_hex now
                 \<lparr>rq_profile = ''bfd_100x3'', rq_source = source, rq_target = target, rq_started_at = Some now\<rparr> s of
                (Inl e, s1) \<Rightarrow> (around [], client_error body ''POST /api/convergence-runs'' (Inl e), s1)
              | (Inr rs, s1) \<Rightarrow>
                  (case inject_fault run_command container interface of
                     (commands, Inl e) \<Rightarrow> (around commands, Inl e, s1)
                   | (commands, Inr _) \<Rightarrow>
                       (around commands,
                        (case record_event app repr body clock (rs_id rs) (transition ''blackhole_injected'' 0) s1 of
                           (Inl e, s2) \<Rightarrow> (Inl e, s2)
                         | (Inr _, s2) \<Rightarrow>
                             collect_polls (record_event app repr body clock (rs_id rs))
                               (completed_run get repr body (rs_id rs)) polls (mark_injected fault_ns tracker)
                               (mk_detector 140) [] s2))))))"

text \<open>
  Where the commands succeed, the session's result is that of \<open>collect_live_convergence\<close>; and however
  a session ends, whatever it did to the lab is followed by the removal of the fault and of ping.
\<close>

lemma session_result:
  assumes "\<And>command. run_command command = Inr ()"
  shows "snd (live_session create app get repr body address clock uuid_hex run_command client container interface source target
      baseline baseline_lines fault_ns polls s) =
    collect_live_convergence create app get repr body address clock uuid_hex source target
      baseline baseline_lines fault_ns polls s"
  by (simp add: live_session_def collect_live_convergence_def inject_fault_def assms Let_def split: sum.splits prod.splits)

lemma session_cleans_up:
  assumes "fst (live_session create app get repr body address clock uuid_hex run_command client container interface source target
      baseline baseline_lines fault_ns polls s) = actions"
  shows "actions = [] \<or> (\<exists>commands. set commands \<subseteq> {clsact_command container interface, drop_command container interface} \<and>
    actions = StartPing (ping_command client target) # map RunCommand commands @
      [RunCommand (cleanup_command container interface), TerminatePing])"
proof -
  have "set (fst (inject_fault run_command container interface)) \<subseteq>
      {clsact_command container interface, drop_command container interface}"
    by (simp add: inject_fault_def Let_def split: sum.splits)
  then show ?thesis
    unfolding assms [symmetric] live_session_def Let_def
    by (auto split: sum.splits prod.splits)
qed

text \<open>A run that cannot set up its fault records no event: the run stays as it was created.\<close>

lemma failed_injection:
  assumes "run_command (clsact_command container interface) = Inl e"
    and "bfd_up baseline" "ospf_full baseline" "route_metric baseline = Some 30"
    and "wait_for_ping_baseline baseline_lines mk_tracker = Inr tracker"
    and "create_convergence_run create repr address uuid_hex (clock ''started_at'')
      \<lparr>rq_profile = ''bfd_100x3'', rq_source = source, rq_target = target, rq_started_at = Some (clock ''started_at'')\<rparr> s = (Inr rs, s1)"
  shows "snd (live_session create app get repr body address clock uuid_hex run_command client container interface source target
      baseline baseline_lines fault_ns polls s) = (Inl e, s1)"
  using assms by (simp add: live_session_def inject_fault_def Let_def)

section \<open>Starting the telemetry collector\<close>

text \<open>\<open>_positive_interval\<close> and \<open>main\<close>, for an absolute path of the configuration\<close>

definition positive_interval :: "rat \<Rightarrow> rat result" where
  "positive_interval interval = rbind (ensure (0 < interval) ''interval must be greater than zero'') (\<lambda>_. Inr interval)"

definition telemetry_main ::
  "(string \<Rightarrow> string \<Rightarrow> string \<Rightarrow> TelemetryTopologyBinding result) \<Rightarrow> (json \<Rightarrow> string) \<Rightarrow> (string \<Rightarrow> json result) \<Rightarrow>
   string \<Rightarrow> bool \<Rightarrow> rat option \<Rightarrow> collector_round list \<Rightarrow> string list \<times> unit result option" where
  "telemetry_main load_binding repr loads config_path once interval_argument rounds =
     (let lab = under (parent_path (parent_path config_path)) ''lab'' in
      case load_binding config_path (under lab ''intent.yml'') (under lab ''telconet.clab.yml'') of
        Inl e \<Rightarrow> ([], Some (Inl e))
      | Inr b \<Rightarrow>
          run_collector repr loads b once
            (case interval_argument of None \<Rightarrow> of_int (tc_poll_interval_seconds (binding_config b)) | Some interval \<Rightarrow> interval)
            rounds)"

text \<open>
  Neither the configured interval nor one the argument parser accepts is refused by the loop: a
  validated configuration polls every 1 to 60 seconds.
\<close>

lemma started_collector_loops:
  assumes "load_binding = load_telemetry_binding sha256 config_document intent_document clab_document content"
    and "load_binding config_path (under lab ''intent.yml'') (under lab ''telconet.clab.yml'') = Inr b"
    and "lab = under (parent_path (parent_path config_path)) ''lab''"
    and "\<forall>interval. interval_argument = Some interval \<longrightarrow> positive_interval interval = Inr interval"
  shows "telemetry_main load_binding repr loads config_path once interval_argument rounds = collector_loop repr loads b once rounds"
proof -
  from assms(1,2) obtain raw config i l fp where "validate_telemetry_config raw = Inr config" "bind_topology config i l fp = Inr b"
    by (auto simp: load_telemetry_binding_def rbind_eq_Inr)
  moreover have "binding_config b = config"
  proof -
    obtain name nodes clab where l: "l = (name, nodes, clab)" by (cases l)
    from \<open>bind_topology config i l fp = Inr b\<close> obtain targets links where
      "validate_binding \<lparr>binding_config = config, binding_fp = fp, binding_targets = targets, binding_links = links\<rparr> = Inr b"
      unfolding l bind_topology_def Let_def split_conv rbind_eq_Inr by blast
    then show ?thesis unfolding validate_binding_def rbind_eq_Inr by (elim exE conjE) auto
  qed
  ultimately have "1 \<le> tc_poll_interval_seconds (binding_config b)"
    by (auto simp: validate_telemetry_config_def rbind_eq_Inr)
  then show ?thesis
    using assms(2-4) by (auto simp: telemetry_main_def run_collector_def Let_def positive_interval_def rbind_eq_Inr split: option.splits)
qed

end
