(* ===== verification/Yaml_Mapping.thy ===== *)
theory Yaml_Mapping
  imports Sentinel_Prelude
begin

text \<open>
  \<open>yaml_loader.py\<close>: the constructor the package's YAML loader uses for mappings. The nodes, the
  construction of an object from a node, the flattening of merge keys, hashing and \<open>==\<close> are the
  YAML library's and Python's, and parameters of the model; the constructor refuses a key that
  cannot be hashed and one that equals an earlier key of the same mapping.
\<close>

section \<open>The constructor\<close>

record ('n, 'v) yaml_loader =
  yl_construct :: "'n \<Rightarrow> 'v result"
  yl_flatten :: "'n \<Rightarrow> ('n \<times> 'n) list result"
  yl_hashable :: "'v \<Rightarrow> bool"
  yl_same :: "'v \<Rightarrow> 'v \<Rightarrow> bool"
  yl_str :: "'v \<Rightarrow> string"

definition add_yaml_pair ::
  "('n, 'v) yaml_loader \<Rightarrow> ('v \<times> 'v) list \<Rightarrow> 'n \<times> 'n \<Rightarrow> ('v \<times> 'v) list result" where
  "add_yaml_pair loader mapping pair =
     (case pair of (key_node, value_node) \<Rightarrow>
        rbind (yl_construct loader key_node) (\<lambda>key.
        rbind (ensure (yl_hashable loader key) ''unhashable YAML mapping key'') (\<lambda>_.
        rbind (ensure (\<not> list_ex (\<lambda>(previous, _). yl_same loader key previous) mapping)
          (''duplicate mapping key: '' @ yl_str loader key)) (\<lambda>_.
        rbind (yl_construct loader value_node) (\<lambda>value'.
          Inr (mapping @ [(key, value')]))))))"

definition construct_unique_mapping :: "('n, 'v) yaml_loader \<Rightarrow> 'n \<Rightarrow> ('v \<times> 'v) list result" where
  "construct_unique_mapping loader node =
     rbind (yl_flatten loader node) (\<lambda>pairs. fold_res (add_yaml_pair loader) [] pairs)"

text \<open>\<open>load_yaml\<close>: the file is read and given to the library's \<open>yaml.load\<close> with this loader.\<close>

definition load_yaml :: "(string \<Rightarrow> string result) \<Rightarrow> (string \<Rightarrow> 'v result) \<Rightarrow> string \<Rightarrow> 'v result" where
  "load_yaml read_text yaml_load path = rbind (read_text path) yaml_load"

section \<open>Which mappings are constructed\<close>

text \<open>What one pair of nodes contributes, and keys of which none equals an earlier one.\<close>

definition constructs_pair :: "('n, 'v) yaml_loader \<Rightarrow> 'n \<times> 'n \<Rightarrow> 'v \<times> 'v \<Rightarrow> bool" where
  "constructs_pair loader nodes member =
     (yl_construct loader (fst nodes) = Inr (fst member) \<and> yl_construct loader (snd nodes) = Inr (snd member) \<and>
      yl_hashable loader (fst member))"

definition fresh_keys :: "('n, 'v) yaml_loader \<Rightarrow> 'v list \<Rightarrow> bool" where
  "fresh_keys loader = sorted_wrt (\<lambda>previous key. \<not> yl_same loader key previous)"

lemma add_yaml_pair_Inr:
  "add_yaml_pair loader acc nodes = Inr acc' \<longleftrightarrow>
    (\<exists>member. constructs_pair loader nodes member \<and>
      (\<forall>previous \<in> set acc. \<not> yl_same loader (fst member) (fst previous)) \<and> acc' = acc @ [member])"
proof -
  obtain key_node value_node where "nodes = (key_node, value_node)" by (cases nodes)
  then show ?thesis
    by (simp add: add_yaml_pair_def constructs_pair_def rbind_eq_Inr list_ex_iff case_prod_beta) metis
qed

lemma fold_yaml_pairs:
  "fold_res (add_yaml_pair loader) acc pairs = Inr mapping \<longleftrightarrow>
    (\<exists>new. mapping = acc @ new \<and> list_all2 (constructs_pair loader) pairs new \<and> fresh_keys loader (map fst new) \<and>
      (\<forall>previous \<in> set acc. \<forall>member \<in> set new. \<not> yl_same loader (fst member) (fst previous)))"
proof (induction pairs arbitrary: acc)
  case Nil
  then show ?case by (auto simp: fresh_keys_def)
next
  case (Cons nodes pairs)
  show ?case
  proof
    assume "fold_res (add_yaml_pair loader) acc (nodes # pairs) = Inr mapping"
    then obtain member new where m: "constructs_pair loader nodes member" "\<forall>previous \<in> set acc. \<not> yl_same loader (fst member) (fst previous)"
      and n: "mapping = (acc @ [member]) @ new" "list_all2 (constructs_pair loader) pairs new" "fresh_keys loader (map fst new)"
        "\<forall>previous \<in> set (acc @ [member]). \<forall>m \<in> set new. \<not> yl_same loader (fst m) (fst previous)"
      by (auto simp: rbind_eq_Inr add_yaml_pair_Inr Cons.IH)
    then show "\<exists>new. mapping = acc @ new \<and> list_all2 (constructs_pair loader) (nodes # pairs) new \<and> fresh_keys loader (map fst new) \<and>
        (\<forall>previous \<in> set acc. \<forall>member \<in> set new. \<not> yl_same loader (fst member) (fst previous))"
      by (intro exI [of _ "member # new"]) (auto simp: fresh_keys_def)
  next
    assume "\<exists>new. mapping = acc @ new \<and> list_all2 (constructs_pair loader) (nodes # pairs) new \<and> fresh_keys loader (map fst new) \<and>
        (\<forall>previous \<in> set acc. \<forall>member \<in> set new. \<not> yl_same loader (fst member) (fst previous))"
    then obtain member new where "mapping = acc @ member # new" "constructs_pair loader nodes member"
        "list_all2 (constructs_pair loader) pairs new" "fresh_keys loader (map fst (member # new))"
        "\<forall>previous \<in> set acc. \<forall>m \<in> set (member # new). \<not> yl_same loader (fst m) (fst previous)"
      by (auto simp: list_all2_Cons1)
    note m = this
    have "add_yaml_pair loader acc nodes = Inr (acc @ [member])"
      unfolding add_yaml_pair_Inr using m by (intro exI [of _ member]) simp
    moreover have "fold_res (add_yaml_pair loader) (acc @ [member]) pairs = Inr mapping"
      unfolding Cons.IH using m by (intro exI [of _ new]) (auto simp: fresh_keys_def)
    ultimately show "fold_res (add_yaml_pair loader) acc (nodes # pairs) = Inr mapping" by simp
  qed
qed

text \<open>
  A mapping is constructed exactly when the flattened node's keys and values are constructed, all
  keys are hashable and no key equals an earlier one; it then holds the pairs in their order.
\<close>

lemma unique_mapping_constructed:
  "construct_unique_mapping loader node = Inr mapping \<longleftrightarrow>
    (\<exists>pairs. yl_flatten loader node = Inr pairs \<and> list_all2 (constructs_pair loader) pairs mapping \<and>
      fresh_keys loader (map fst mapping))"
  by (auto simp: construct_unique_mapping_def rbind_eq_Inr fold_yaml_pairs)

text \<open>With \<open>==\<close> as equality, the keys of a constructed mapping are distinct: nothing is overwritten.\<close>

lemma constructed_keys_distinct:
  assumes "construct_unique_mapping loader node = Inr mapping" "\<And>x y. yl_same loader x y \<longleftrightarrow> x = y"
  shows "distinct (map fst mapping)"
  using assms(1) unfolding unique_mapping_constructed fresh_keys_def assms(2)
  by (auto simp: distinct_conv_nth sorted_wrt_iff_nth_less) (metis nat_neq_iff)

text \<open>A key that cannot be hashed, and a key that is repeated, are refused with their own errors.\<close>

lemma bad_yaml_key:
  assumes "yl_construct loader (fst nodes) = Inr key"
  shows "\<not> yl_hashable loader key \<Longrightarrow> add_yaml_pair loader acc nodes = Inl (ValueError ''unhashable YAML mapping key'')"
    and "yl_hashable loader key \<Longrightarrow> member \<in> set acc \<Longrightarrow> yl_same loader key (fst member) \<Longrightarrow>
      add_yaml_pair loader acc nodes = Inl (ValueError (''duplicate mapping key: '' @ yl_str loader key))"
proof -
  obtain key_node value_node where n: "nodes = (key_node, value_node)" by (cases nodes)
  show "\<not> yl_hashable loader key \<Longrightarrow> add_yaml_pair loader acc nodes = Inl (ValueError ''unhashable YAML mapping key'')"
    using assms by (simp add: n add_yaml_pair_def ensure_def)
  assume "yl_hashable loader key" "member \<in> set acc" "yl_same loader key (fst member)"
  then have "list_ex (\<lambda>(previous, _). yl_same loader key previous) acc"
    unfolding list_ex_iff by (intro bexI [of _ member]) (simp_all add: case_prod_beta)
  then show "add_yaml_pair loader acc nodes = Inl (ValueError (''duplicate mapping key: '' @ yl_str loader key))"
    using assms \<open>yl_hashable loader key\<close> by (simp add: n add_yaml_pair_def ensure_def)
qed

end
