(* ===== verification/Spec2Isabelle.thy ===== *)
theory Spec2Isabelle
  imports Incident_Service Design_Intent Resilience Failure_Domains Live_Detector Telemetry_Api
    Incident_Api Repeated_Trials Runtime_Plan Sentinel_Stores
    Runtime_Conformance Sentinel_Main Evidence_Manifest Runtime_Campaign Collector_Programs Yaml_Mapping
begin

text \<open>
  TelcoNet Sentinel, the Python package \<open>src/telconet_sentinel\<close>: a verification library.

  The package models a small service network as a graph (an intent), predicts what its faults do
  to the access nodes' service paths, watches a lab of FRR routers, and keeps the evidence of
  measurements on that lab. A server publishes the predictions, the observations, convergence
  runs and incidents; command-line programs build and check the evidence documents. Every theory
  names the source file it translates; this text says how the parts fit together.


  THE GRAPH AND ITS FAULTS

  \<^item> \<open>Network_Models\<close> (\<open>models.py\<close>): roles, impacts, nodes, links, events, incidents.
    \<open>ServiceImpact\<close> is an instance of \<open>linorder\<close>, so that severity is compared by \<open>\<le>\<close>.
  \<^item> \<open>Net_Topology\<close>, \<open>Heap_Queue\<close>, \<open>Reachability\<close>, \<open>Shortest_Path\<close> (\<open>topology.py\<close>): the graph and
    what its constructor checks (\<open>mk_topology\<close>, \<open>wf_topology\<close>), breadth-first search and Dijkstra's
    algorithm with lazy deletion, both specified by the inductive relation \<open>walk\<close>. The search
    rests on the locale \<open>priority_queue\<close>, interpreted by the model of \<open>heapq\<close>; the audits rest on
    the locale \<open>distance_oracle\<close>, interpreted by the search.
  \<^item> \<open>Ip_Address\<close>, \<open>Design_Intent\<close>, \<open>Lab_Design\<close> (\<open>intent.py\<close>, the two designs under \<open>lab/\<close>): the
    validators of an intent and of the design catalog, with Python's rules for IP networks.
  \<^item> \<open>Fault_Scenarios\<close>, \<open>Fault_Audit\<close>, \<open>Resilience\<close>, \<open>Failure_Domains\<close> (\<open>fault.py\<close>, \<open>audit.py\<close>,
    \<open>resilience.py\<close>, \<open>failure_domain.py\<close>): fault scenarios, their audit against the graph, the N-1
    audits of links and nodes, and the declared shared-risk domains with their fingerprints.
  \<^item> \<open>Link_Impact\<close> (\<open>impact.py\<close>, \<open>evidence.py\<close>): the analysis of one failed link for an incident.

  The lemmas of this part show that a distance is the least weight of a walk avoiding what is
  excluded, that the audits classify every scenario by the walks that survive, that a larger
  fault is never milder, and that the incident analysis agrees with the audit. What a fault does
  is said once, by walks alone (\<open>cut_off\<close>, \<open>service_cost\<close>, \<open>exact_result\<close>, \<open>exact_paths\<close>), and the
  audits of faults, of links and nodes and of failure domains all refine it.


  STATE: INCIDENTS, CONVERGENCE RUNS, TELEMETRY

  \<^item> \<open>Py_Datetime\<close>, \<open>Py_Calendar\<close>, \<open>Json_Value\<close>, \<open>Canonical_Json\<close>, \<open>Prometheus_Text\<close>: what these
    parts use of Python's library and of the text formats.
  \<^item> \<open>Incident_Service\<close> (\<open>recovery.py\<close>, \<open>service.py\<close>): approval, deduplication in a time window, the
    index by fingerprint and eviction; \<open>svc_step\<close> and \<open>svc_runs\<close> are its steps and runs, and the
    invariant is proved by rule induction.
  \<^item> \<open>Convergence_Runs\<close>, \<open>Convergence_Memory\<close>, \<open>Convergence_Sqlite\<close>, \<open>Convergence_Service\<close>,
    \<open>Convergence_Api\<close> (\<open>convergence.py\<close>, \<open>api.py\<close>): timelines and their validators, the store in
    memory, the store in SQLite tables, and the endpoints. The locale \<open>convergence_repository\<close>
    states what a store promises; both stores and the server's choice between them interpret it.
  \<^item> \<open>Live_Detector\<close> (\<open>live_collector.py\<close>): the parsers of FRR output, the tracker of ping replies,
    the ordered detection of the stages, and the collection loop against the API's handlers.
  \<^item> \<open>Telemetry_Models\<close>, \<open>Telemetry_Repository\<close>, \<open>Telemetry_Memory\<close>, \<open>Telemetry_Sqlite\<close>,
    \<open>Telemetry_Stores\<close>, \<open>Telemetry_Binding\<close>, \<open>Telemetry_Collector\<close>, \<open>Telemetry_Metrics\<close>,
    \<open>Telemetry_Api\<close> (\<open>telemetry_models.py\<close>, \<open>telemetry_store.py\<close>, \<open>telemetry_config.py\<close>,
    \<open>telemetry_collector.py\<close>, \<open>telemetry_metrics.py\<close>, \<open>api.py\<close>): snapshots and their validation, two
    stores under the locale \<open>telemetry_repository\<close>, the binding to intent and lab file, the
    collection of a snapshot from the routers, the metrics page and the endpoints. The reply of a
    server is one of four outcomes (\<open>http_reply\<close>): an HTTP error, no connection, a connection that
    breaks, a body. The collector's loop outlives the first two and any JSON body, and ends with
    a broken connection or a body that is not JSON.
  \<^item> \<open>Collector_Programs\<close>: the sample the live probe takes, what a live collection does to the lab
    and undoes however it ends, and the start of the telemetry collector.

  Shown here: the invariants of every store, the equality of the two stores' answers on every
  sequence of calls, that closing and reopening a database changes no answer, retention of the
  newest entries, that telemetry only moves forward in time, that the collectors' documents are
  never refused by the server, and that a failed collection never looks like an outage.


  THE SERVER

  \<^item> \<open>Incident_Api\<close>, \<open>Sentinel_Stores\<close>, \<open>Sentinel_App\<close>, \<open>Sentinel_Main\<close> (\<open>api.py\<close>, \<open>main.py\<close>): the
    endpoints, \<open>create_app\<close> with its guards, the dispatch of requests \<open>respond\<close> with its runs
    \<open>server_runs\<close>, and the start of the process from the environment. A started server answers
    every admissible request with a documented status, after any run. Two kinds of requests are
    not admissible because the code answers them with 500: a convergence event with a sequence
    number beyond 64 bits, which SQLite cannot bind, and a snapshot whose \<open>observed_at\<close> has an
    offset and no counterpart in UTC.


  EVIDENCE AND ITS PROGRAMS

  \<^item> \<open>Measurement_Log\<close>, \<open>Detection_Comparison\<close>, \<open>Repeated_Trials\<close>, \<open>Experiment_Metrics\<close>
    (\<open>measurement.py\<close>, \<open>bfd_comparison.py\<close>, \<open>repeated_trials.py\<close>, \<open>metrics.py\<close>): reading raw logs line
    by line, detection bounds, statistics of trials, and the served experiment metrics.
  \<^item> \<open>Runtime_N1\<close>, \<open>Runtime_Evidence\<close>, \<open>Runtime_Plan\<close>, \<open>Runtime_Campaign\<close>
    (\<open>runtime_resilience.py\<close>): the typed plan and observation of a fault campaign, their comparison,
    the plan built from intent and lab file, and the program with its seven commands. After the
    plan command the verify command exits with 0 exactly when every fault showed in the lab what
    the graph predicts.
  \<^item> \<open>Lab_Configuration\<close> (\<open>configuration.py\<close>, \<open>config.py\<close>), \<open>Runtime_Conformance\<close>
    (\<open>runtime_conformance.py\<close>, \<open>runtime_snapshot.py\<close>): fingerprints of the lab's files, and the
    comparison of a running router with what is expected of it.
  \<^item> \<open>Evidence_Report\<close> (\<open>report.py\<close>), \<open>Evidence_Programs\<close> (the programs that write evidence, with
    \<open>demo.py\<close>), \<open>Evidence_Manifest\<close> (\<open>evidence_manifest.py\<close>): the report, which recomputes every
    document from the archived logs and the lab's catalogs before it shows a number of it; the programs whose documents that recalculation
    accepts; and the manifest of the bundle, which verifies after it was generated.
  \<^item> \<open>Yaml_Mapping\<close> (\<open>yaml_loader.py\<close>): the constructor that refuses repeated mapping keys.

  \<open>Sentinel_Prelude\<close> holds what all theories share: exceptions as values of \<open>py_error\<close>, the monad
  \<open>result\<close> with \<open>rbind\<close>, \<open>traverse\<close>, \<open>each\<close> and \<open>fold_res\<close>, the simplification rules \<open>res_simps\<close>,
  insertion-ordered dictionaries, and Python's text of integers.


  HOW THE CODE IS TRANSLATED

  A class is a record, an enumeration a datatype, a function that raises a function into
  \<open>result\<close>; checks are in the order of the code and every raise is a branch. Methods that change
  an object return the new one. Python's integers are \<open>int\<close>; a \<open>float\<close> is a rational, rounding a
  parameter where the code rounds. SQLite keeps 64 bits with sign: the two convergence stores agree
  on events whose numbers fit, and on larger ones the SQLite store alone raises. Strings are lists of characters, of bytes where the code reads
  a file as bytes. A set that is iterated is a list; one that is only searched is a set. Validators
  of pydantic models return the first error; the \<open>OverflowError\<close> of a time that UTC cannot hold is
  no validation error and passes pydantic at once. A dictionary's order is kept; its keys are strings.

  Loops are recursive functions. Breadth-first search and the replacement of a substring end by a
  measure. Dijkstra's loop takes fuel, \<open>2 * links + 2\<close> rounds, and \<open>search_terminates\<close> shows that
  they are enough: each settled node pushes at most one entry for each end of a link. The value
  \<open>Exhausted\<close> of the error type, which stands for missing fuel, is never returned. The collectors'
  loops run over the list of what their rounds met; without \<open>--once\<close> the telemetry collector has no
  last round, and what is shown holds for lists of any length. All limits of the code (sizes of
  files, numbers of scenarios, lengths of texts, capacities) are kept.

  Code that is not in the repository is a parameter of the definitions that use it: SHA-256, UUIDs
  and the clock, reading a file and resolving a path, parsing JSON and YAML, the JSON text of a
  document, the JSON codec of a stored snapshot, the captures of regular expressions, \<open>shlex\<close>, and
  what a command prints. Where a property needs a fact about a parameter, its statement says so: a
  codec gives back what was stored, identifiers are fresh, a clock reading has a representable
  UTC time. Every property with a hypothesis is applied to a concrete input by its witness.


  NOT MODELLED

  \<^item> Argument parsing, sockets and HTTP framing, routing by path (a request is a constructor; the
    id \<open>latest\<close> is taken by the more specific endpoint), and subprocesses: a command is a value, and
    what it prints or whether it succeeds a parameter.
  \<^item> Locks, threads and database connections: calls to a store are atomic and follow one another.
    The in-memory convergence store hands out live objects; an answer is read when it is returned.
  \<^item> The temporary file behind an atomic replacement, and the disk's own errors while writing. The
    raw bytes of a written JSON document are a parameter.
  \<^item> pydantic's checks of raw types before a validator runs, and the parts of its and of Python's
    error messages that print a value. JSON documents have their repeated keys checked after
    parsing instead of during it; the outcome is the same error.
  \<^item> The command \<open>rows\<close> prints line by line and may fail between lines; its model prints all or none.
  \<^item> \<open>__init__.py\<close>, which holds a docstring only.
\<close>

end
